(* ===== verification/Prelude.thy ===== *)
theory Prelude
  imports Complex_Main "HOL-Library.Multiset"
begin

section \<open>Shared vocabulary of the development\<close>

text \<open>
  The types and lemmas the components share: Python exceptions as values, the results of
  fallible code, Python strings and integer parsing, dictionaries as association lists, and the
  \<open>world\<close> through which a component calls code that is not part of the repository (a broker
  connection, a user handler, a clock).

  A call into foreign code is an entry of the log \<open>calls\<close>; what the foreign code answered is
  taken from \<open>answers\<close>, an arbitrary function of the position in the log. The theorems hold for
  every such function, so nothing is assumed about the foreign code beyond what a theorem states.

  Python floats are modelled by rationals: rounding is not modelled.
\<close>

named_theorems call_simps \<open>unfolding of calls into the environment\<close>

subsection \<open>Exceptions\<close>

text \<open>
  \<open>MessageDisposition\<close> of \<^verbatim>\<open>messagebus/bus_message_controller.py\<close>; it is carried by the
  exception class \<open>MessageDisposed\<close>.
\<close>

datatype disposition = DAck | DNack | DReject | DRetry

text \<open>
  The exception classes the modelled code raises or distinguishes. \<open>OtherError\<close> stands for every
  other subclass of \<^verbatim>\<open>Exception\<close> and \<open>OtherBaseException\<close> for everything derived from
  \<^verbatim>\<open>BaseException\<close> only.
\<close>

datatype exc_class =
    ValueError | KeyError | IndexError | LookupError | RuntimeError | TypeError | AttributeError
  | NotImplementedError | AssertionError | TimeoutError | ConnectionError | OSError | RecursionError
  | AMQPError | AMQPConnectionError | ChannelClosed | ChannelNotFoundEntity | ChannelInvalidStateError
  | MessageProcessError
  | MessagePayloadValidationError | BrokerBackendLockNotAcquired
  | InvalidFilterError | InvalidSortError | WebSocketDisconnect | ClientDisconnected
  | RPCUnhandleError | ValidationError | AppConfigValidationError | HTTPException int | PresentationException
  | OtherError
  | CancelledError | MessageDisposed disposition | OtherBaseException

datatype exc = Exc (exc_cls: exc_class) (exc_str: string)

text \<open>\<open>isinstance(e, Exception)\<close>: the classes that derive from \<^verbatim>\<open>BaseException\<close> only are the last three.\<close>

fun is_Exception :: "exc \<Rightarrow> bool" where
  "is_Exception (Exc c m) =
     (case c of CancelledError \<Rightarrow> False | MessageDisposed d \<Rightarrow> False
      | OtherBaseException \<Rightarrow> False | _ \<Rightarrow> True)"

text \<open>\<open>isinstance(e, AMQPError)\<close>: the channel errors derive from it.\<close>

definition is_amqp :: "exc \<Rightarrow> bool" where
  "is_amqp e = (exc_cls e = AMQPError \<or> exc_cls e = AMQPConnectionError \<or> exc_cls e = ChannelClosed \<or> exc_cls e = ChannelNotFoundEntity)"

type_synonym 'a result = "exc + 'a"

subsection \<open>The environment as a log of calls with answers\<close>

record ('c, 'r) world =
  calls :: "'c list"
  answers :: "nat \<Rightarrow> 'r"

definition do_call :: "'c \<Rightarrow> ('c, 'r, 'z) world_scheme \<Rightarrow> 'r \<times> ('c, 'r, 'z) world_scheme" where
  [call_simps]: "do_call c w = (answers w (length (calls w)), w\<lparr>calls := calls w @ [c]\<rparr>)"

text \<open>\<open>try: ... except Exception: log\<close>: what is left of an exception.\<close>

fun swallow :: "exc option \<Rightarrow> exc option" where
  "swallow None = None"
| "swallow (Some e) = (if is_Exception e then None else Some e)"

lemma swallow_eq_None: "swallow a = None \<longleftrightarrow> (\<forall>e. a = Some e \<longrightarrow> is_Exception e)"
  by (cases a) auto

lemma swallow_Some: "swallow a = Some e \<longleftrightarrow> a = Some e \<and> \<not> is_Exception e"
  by (cases a) auto

text \<open>The calls of a log that were answered with success, in order.\<close>

fun answered_from :: "nat \<Rightarrow> (nat \<Rightarrow> exc option) \<Rightarrow> 'c list \<Rightarrow> 'c list" where
  "answered_from i ans [] = []"
| "answered_from i ans (c # cs) =
     (if ans i = None then c # answered_from (Suc i) ans cs else answered_from (Suc i) ans cs)"

definition succeeded :: "('c, exc option, 'z) world_scheme \<Rightarrow> 'c list" where
  "succeeded w = answered_from 0 (answers w) (calls w)"

lemma answered_from_append:
  "answered_from i ans (cs @ ds) = answered_from i ans cs @ answered_from (i + length cs) ans ds"
  by (induction cs arbitrary: i) simp_all

lemma set_answered_from: "set (answered_from i ans cs) \<subseteq> set cs"
  by (induction cs arbitrary: i) auto

lemma succeeded_snoc:
  "succeeded (w\<lparr>calls := calls w @ [c]\<rparr>) =
     succeeded w @ (if answers w (length (calls w)) = None then [c] else [])"
  by (simp add: succeeded_def answered_from_append)

subsection \<open>Python strings\<close>

abbreviation code :: "char \<Rightarrow> nat" where
  "code c \<equiv> of_char c"

definition py_lower_char :: "char \<Rightarrow> char" where
  "py_lower_char c = (if 65 \<le> code c \<and> code c \<le> 90 then char_of (code c + 32) else c)"

definition py_lower :: "string \<Rightarrow> string" where
  "py_lower s = map py_lower_char s"

definition py_upper_char :: "char \<Rightarrow> char" where
  "py_upper_char c = (if 97 \<le> code c \<and> code c \<le> 122 then char_of (code c - 32) else c)"

definition py_upper :: "string \<Rightarrow> string" where
  "py_upper s = map py_upper_char s"

definition is_space :: "char \<Rightarrow> bool" where
  "is_space c = (code c = 32 \<or> (9 \<le> code c \<and> code c \<le> 13)
     \<or> (28 \<le> code c \<and> code c \<le> 31))"

definition py_strip :: "string \<Rightarrow> string" where
  "py_strip s = rev (dropWhile is_space (rev (dropWhile is_space s)))"

definition is_digit :: "char \<Rightarrow> bool" where
  "is_digit c = (48 \<le> code c \<and> code c \<le> 57)"

definition digit_val :: "char \<Rightarrow> nat" where
  "digit_val c = code c - 48"

definition digit_char :: "nat \<Rightarrow> char" where
  "digit_char d = char_of (48 + d)"

text \<open>\<open>s.isdigit()\<close>\<close>

definition py_isdigit :: "string \<Rightarrow> bool" where
  "py_isdigit s = (s \<noteq> [] \<and> list_all is_digit s)"

text \<open>\<open>s.split(sep)\<close> for a one character separator: never the empty list.\<close>

fun py_split :: "char \<Rightarrow> string \<Rightarrow> string list" where
  "py_split sep [] = [[]]"
| "py_split sep (c # cs) =
     (if c = sep then [] # py_split sep cs
      else (case py_split sep cs of [] \<Rightarrow> [[c]] | w # ws \<Rightarrow> (c # w) # ws))"

text \<open>\<open>sep.join(words)\<close>\<close>

fun py_join :: "string \<Rightarrow> string list \<Rightarrow> string" where
  "py_join sep [] = []"
| "py_join sep [w] = w"
| "py_join sep (w # v # ws) = w @ sep @ py_join sep (v # ws)"

definition py_startswith :: "string \<Rightarrow> string \<Rightarrow> bool" where
  "py_startswith s p = (take (length p) s = p)"

text \<open>\<open>int(s)\<close>: surrounding blanks, a sign, then digits with single underscores between them.\<close>

fun parse_digits :: "nat \<Rightarrow> bool \<Rightarrow> string \<Rightarrow> nat option" where
  "parse_digits acc dig [] = (if dig then Some acc else None)"
| "parse_digits acc dig (c # cs) =
     (if is_digit c then parse_digits (10 * acc + digit_val c) True cs
      else if c = CHR ''_'' \<and> dig then parse_digits acc False cs
      else None)"

definition py_int :: "string \<Rightarrow> int option" where
  "py_int s =
     (case py_strip s of
        [] \<Rightarrow> None
      | c # cs \<Rightarrow>
          (if c = CHR ''-'' then map_option (\<lambda>n. - int n) (parse_digits 0 False cs)
           else if c = CHR ''+'' then map_option int (parse_digits 0 False cs)
           else map_option int (parse_digits 0 False (c # cs))))"

text \<open>\<open>str(n)\<close>\<close>

fun str_nat :: "nat \<Rightarrow> string" where
  "str_nat n = (if n < 10 then [digit_char n] else str_nat (n div 10) @ [digit_char (n mod 10)])"

declare str_nat.simps [simp del]

definition str_int :: "int \<Rightarrow> string" where
  "str_int i = (if i < 0 then CHR ''-'' # str_nat (nat (- i)) else str_nat (nat i))"

lemma of_char_digit_char: "d < 10 \<Longrightarrow> code (digit_char d) = 48 + d"
  by (simp add: digit_char_def)

lemma is_digit_digit_char [simp]: "d < 10 \<Longrightarrow> is_digit (digit_char d)"
  by (simp add: is_digit_def of_char_digit_char)

lemma digit_val_digit_char [simp]: "d < 10 \<Longrightarrow> digit_val (digit_char d) = d"
  by (simp add: digit_val_def of_char_digit_char)

lemma is_digit_not_space: "is_digit c \<Longrightarrow> \<not> is_space c"
  by (simp add: is_digit_def is_space_def)

lemma is_digit_not_sign: "is_digit c \<Longrightarrow> c \<noteq> CHR ''-'' \<and> c \<noteq> CHR ''+''"
  by (auto simp: is_digit_def)

lemma list_all_digit_str_nat: "list_all is_digit (str_nat n)"
  by (induction n rule: str_nat.induct) (subst str_nat.simps, simp)

lemma str_nat_not_Nil [simp]: "str_nat n \<noteq> []"
  by (subst str_nat.simps) simp

lemma py_isdigit_str_nat: "py_isdigit (str_nat n)"
  by (simp add: py_isdigit_def list_all_digit_str_nat)

lemma parse_digits_str_nat:
  "parse_digits acc b (str_nat n @ cs) = parse_digits (acc * 10 ^ length (str_nat n) + n) True cs"
proof (induction n arbitrary: acc b cs rule: str_nat.induct)
  case (1 n)
  show ?case
  proof (cases "n < 10")
    case True
    then show ?thesis by (simp add: str_nat.simps [of n] mult.commute)
  next
    case False
    then have "10 * (acc * 10 ^ length (str_nat (n div 10)) + n div 10) + n mod 10
        = acc * 10 ^ Suc (length (str_nat (n div 10))) + n"
      by (simp add: algebra_simps)
    with False 1 [of acc b "digit_char (n mod 10) # cs"] show ?thesis
      by (simp add: str_nat.simps [of n] ac_simps)
  qed
qed

lemma parse_digits_all: "list_all is_digit s \<Longrightarrow> s \<noteq> [] \<or> b \<Longrightarrow> \<exists>n. parse_digits acc b s = Some n"
  by (induction s arbitrary: acc b) auto

lemma py_strip_no_space: "list_all (\<lambda>c. \<not> is_space c) s \<Longrightarrow> py_strip s = s"
proof -
  assume a: "list_all (\<lambda>c. \<not> is_space c) s"
  have d: "dropWhile is_space t = t" if "list_all (\<lambda>c. \<not> is_space c) t" for t :: string
    using that by (cases t) simp_all
  show "py_strip s = s"
    using a by (simp add: py_strip_def d list_all_rev)
qed

lemma py_strip_str_int: "py_strip (str_int i) = str_int i"
proof (rule py_strip_no_space)
  have "list_all (\<lambda>c. \<not> is_space c) (str_nat n)" for n
    using list_all_digit_str_nat by (auto simp: list_all_iff dest: is_digit_not_space)
  then show "list_all (\<lambda>c. \<not> is_space c) (str_int i)"
    by (simp add: str_int_def is_space_def)
qed

text \<open>Printing an integer and reading it back is the identity: \<open>int(str(i)) == i\<close>.\<close>

lemma py_int_str_int [simp]: "py_int (str_int i) = Some i"
proof (cases "i < 0")
  case True
  then have "py_strip (str_int i) = CHR ''-'' # str_nat (nat (- i))"
    by (simp add: py_strip_str_int) (simp add: str_int_def)
  with True parse_digits_str_nat [of 0 False "nat (- i)" "[]"] show ?thesis
    by (simp add: py_int_def)
next
  case False
  then have s: "py_strip (str_int i) = str_nat (nat i)"
    by (simp add: py_strip_str_int) (simp add: str_int_def)
  obtain c cs where c: "str_nat (nat i) = c # cs"
    by (cases "str_nat (nat i)") simp_all
  then have "is_digit c"
    using list_all_digit_str_nat [of "nat i"] by simp
  then have "c \<noteq> CHR ''-''" "c \<noteq> CHR ''+''"
    using is_digit_not_sign by blast+
  with False s c parse_digits_str_nat [of 0 False "nat i" "[]"] show ?thesis
    by (simp add: py_int_def)
qed

subsection \<open>Splitting and joining\<close>

lemma py_split_not_Nil [simp]: "py_split sep s \<noteq> []"
  by (induction s) (simp_all split: list.splits)

lemma py_split_no_sep: "sep \<notin> set s \<Longrightarrow> py_split sep s = [s]"
  by (induction s) auto

lemma py_split_append_sep:
  "sep \<notin> set s \<Longrightarrow> py_split sep (s @ sep # t) = s # py_split sep t"
  by (induction s) auto

text \<open>Splitting undoes joining when no word holds the separator and there is a word.\<close>

lemma py_split_join:
  "ws \<noteq> [] \<Longrightarrow> \<forall>w \<in> set ws. sep \<notin> set w \<Longrightarrow> py_split sep (py_join [sep] ws) = ws"
  by (induction "[sep]" ws rule: py_join.induct) (simp_all add: py_split_no_sep py_split_append_sep)

lemma length_py_split: "length (py_split sep s) = Suc (length (filter ((=) sep) s))"
  by (induction s) (auto split: list.splits)

lemma set_py_join: "set (py_join sep ws) \<subseteq> (\<Union>w \<in> set ws. set w) \<union> set sep"
  by (induction sep ws rule: py_join.induct) auto

subsection \<open>Dictionaries as association lists\<close>

text \<open>
  A Python \<^verbatim>\<open>dict\<close> keeps insertion order: assigning to a present key keeps its place, a new key
  goes to the end.
\<close>

fun dict_set :: "'k \<Rightarrow> 'v \<Rightarrow> ('k \<times> 'v) list \<Rightarrow> ('k \<times> 'v) list" where
  "dict_set k v [] = [(k, v)]"
| "dict_set k v ((l, u) # d) = (if k = l then (k, v) # d else (l, u) # dict_set k v d)"

text \<open>\<open>{**d, **e}\<close>, \<open>d | e\<close> and \<open>d.update(e)\<close>\<close>

definition dict_update :: "('k \<times> 'v) list \<Rightarrow> ('k \<times> 'v) list \<Rightarrow> ('k \<times> 'v) list" where
  "dict_update d e = fold (\<lambda>(k, v). dict_set k v) e d"

lemma map_of_dict_set [simp]: "map_of (dict_set k v d) = (map_of d)(k \<mapsto> v)"
  by (induction k v d rule: dict_set.induct) (auto simp: fun_eq_iff)

lemma keys_dict_set [simp]: "fst ` set (dict_set k v d) = insert k (fst ` set d)"
  by (induction k v d rule: dict_set.induct) auto

lemma distinct_dict_set [simp]:
  "distinct (map fst (dict_set k v d)) = distinct (map fst d)"
proof (induction k v d rule: dict_set.induct)
  case (2 k v l u d)
  have "fst ` set (dict_set k v d) = insert k (fst ` set d)" by simp
  with 2 show ?case by (auto simp del: keys_dict_set)
qed simp

lemma map_of_dict_update: "distinct (map fst e) \<Longrightarrow> map_of (dict_update d e) = map_of d ++ map_of e"
proof (induction e arbitrary: d)
  case Nil
  then show ?case by (simp add: dict_update_def)
next
  case (Cons x e)
  obtain k v where x: "x = (k, v)" by fastforce
  with Cons.prems have k: "k \<notin> dom (map_of e)" by (simp add: dom_map_of_conv_image_fst)
  have "map_of (dict_update d (x # e)) = map_of (dict_update (dict_set k v d) e)"
    by (simp add: dict_update_def x)
  also have "\<dots> = (map_of d)(k \<mapsto> v) ++ map_of e"
    using Cons by (simp add: x)
  also have "\<dots> = map_of d ++ map_of (x # e)"
    using k by (auto simp: x map_add_def fun_eq_iff split: option.splits)
  finally show ?case .
qed

lemma distinct_dict_update: "distinct (map fst d) \<Longrightarrow> distinct (map fst (dict_update d e))"
  by (induction e arbitrary: d) (auto simp: dict_update_def)

lemma map_of_filter_val:
  "distinct (map fst d) \<Longrightarrow>
   map_of (filter (\<lambda>(k, v). P v) d) k =
     (case map_of d k of Some v \<Rightarrow> if P v then Some v else None | None \<Rightarrow> None)"
  by (induction d) (auto simp: map_of_eq_None_iff split: option.splits)

lemma distinct_map_fst_filter:
  "distinct (map fst d) \<Longrightarrow> distinct (map fst (filter P d))"
  by (induction d) auto

subsection \<open>Truthiness and defaults\<close>

text \<open>\<open>s or t\<close> for an optional string: the empty string counts as absent.\<close>

definition str_or :: "string option \<Rightarrow> string \<Rightarrow> string" where
  "str_or s t = (case s of Some (c # cs) \<Rightarrow> c # cs | _ \<Rightarrow> t)"

lemma str_or_simps [simp]:
  "str_or None t = t" "str_or (Some []) t = t" "s \<noteq> [] \<Longrightarrow> str_or (Some s) t = s"
  by (simp_all add: str_or_def split: list.splits)

subsection \<open>Runs of a machine\<close>

text \<open>
  A state machine of the program is a partial step function on events; \<open>run\<close> takes a sequence of events and gives no state when one of them
  is not possible. An invariant of the steps is one of the runs.
\<close>

locale machine =
  fixes step :: "'e \<Rightarrow> 's \<Rightarrow> 's option" and run :: "'e list \<Rightarrow> 's \<Rightarrow> 's option"
  assumes run_Nil: "run [] s = Some s"
    and run_Cons: "run (e # es) s = (case step e s of None \<Rightarrow> None | Some s1 \<Rightarrow> run es s1)"
begin

lemma run_append: "run (es @ fs) s = (case run es s of None \<Rightarrow> None | Some t \<Rightarrow> run fs t)"
  by (induction es arbitrary: s) (auto simp: run_Nil run_Cons split: option.splits)

lemma run_ConsE:
  assumes "run (e # es) s = Some s'"
  obtains s1 where "step e s = Some s1" "run es s1 = Some s'"
  using assms by (auto simp: run_Cons split: option.splits)

lemma run_invariant:
  assumes "\<And>e s s'. P s \<Longrightarrow> e \<in> E \<Longrightarrow> step e s = Some s' \<Longrightarrow> P s'"
  shows "P s \<Longrightarrow> set es \<subseteq> E \<Longrightarrow> run es s = Some s' \<Longrightarrow> P s'"
  using assms by (induction es arbitrary: s) (auto simp: run_Nil run_Cons split: option.splits)

end

end
