(* ===== verification/Retry.thy ===== *)
theory Retry
  imports Prelude
begin

section \<open>Retries with exponential backoff\<close>

text \<open>
  \<^verbatim>\<open>utils/retry.py\<close>: \<open>RetryPolicy\<close>, \<open>retry_with_backoff\<close> and \<open>with_retry\<close>, and
  \<open>MessageHandlerCallback.compute_retry_delay\<close> of \<^verbatim>\<open>messagebus/worker.py\<close>, the other place that
  turns a policy into a delay.

  The awaited function is a sequence of outcomes, one per call; the random number generator is a
  sequence of draws of \<open>random.random()\<close>; the state of the cancellation event is read once after
  each failure. What the loop does is a list of events: calls, callbacks and sleeps.
\<close>

record retry_policy =
  max_retries :: int
  initial_delay :: rat
  max_delay :: rat
  backoff_factor :: rat
  jitter :: bool

definition RetryPolicy_default :: retry_policy where
  "RetryPolicy_default = \<lparr>max_retries = 5, initial_delay = 1, max_delay = 60, backoff_factor = 2,
     jitter = True\<rparr>"

datatype ('e, 'a) outcome = Returned 'a | Raised 'e

datatype 'e retry_event = Call nat | Callback nat 'e rat | Sleep rat

datatype ('e, 'a) retry_result =
    RetryReturn 'a
  | RetryRaise 'e
  | RetryCancelled 'e  \<comment> \<open>\<open>raise asyncio.CancelledError() from e\<close>\<close>
  | RetryUnexpected    \<comment> \<open>\<open>RuntimeError("Unexpected error in retry logic")\<close>\<close>

text \<open>\<open>random.uniform(a, b)\<close> is \<open>a + (b - a) * random.random()\<close>.\<close>

definition uniform :: "rat \<Rightarrow> rat \<Rightarrow> rat \<Rightarrow> rat" where
  "uniform a b r = a + (b - a) * r"

definition apply_jitter :: "rat \<Rightarrow> rat \<Rightarrow> rat" where
  "apply_jitter r delay =
     (let jitter_amount = delay * (1/4);
          delay = delay + uniform (- jitter_amount) jitter_amount r
      in max delay (1/10))"

text \<open>The delay computed after the failure number \<open>retry_count\<close>, from the previous one.\<close>

definition next_delay :: "retry_policy \<Rightarrow> nat \<Rightarrow> rat \<Rightarrow> rat \<Rightarrow> rat" where
  "next_delay p retry_count r delay =
     (let delay = (if 0 < retry_count then min (delay * backoff_factor p) (max_delay p) else delay)
      in if jitter p then apply_jitter r delay else delay)"

text \<open>
  One iteration per element of \<open>range(max_retries + 1)\<close>: \<open>todo\<close> iterations remain and
  \<open>retry_count\<close> is the loop variable. The callback may raise, which ends the loop.
\<close>

fun retry_loop ::
  "retry_policy \<Rightarrow> ('e \<Rightarrow> bool) \<Rightarrow> (nat \<Rightarrow> bool) \<Rightarrow> (nat \<Rightarrow> 'e \<Rightarrow> rat \<Rightarrow> 'e option) option \<Rightarrow>
   (nat \<Rightarrow> rat) \<Rightarrow> (nat \<Rightarrow> ('e, 'a) outcome) \<Rightarrow>
   nat \<Rightarrow> nat \<Rightarrow> rat \<Rightarrow> 'e option \<Rightarrow> 'e retry_event list \<times> ('e, 'a) retry_result" where
  "retry_loop p retry_exceptions cancel cb rnd fn 0 retry_count delay last_exception =
     ([], case last_exception of Some e \<Rightarrow> RetryRaise e | None \<Rightarrow> RetryUnexpected)"
| "retry_loop p retry_exceptions cancel cb rnd fn (Suc todo) retry_count delay last_exception =
     (case fn retry_count of
        Returned a \<Rightarrow> ([Call retry_count], RetryReturn a)
      | Raised e \<Rightarrow>
          if \<not> retry_exceptions e then ([Call retry_count], RetryRaise e)
          else if cancel retry_count then ([Call retry_count], RetryCancelled e)
          else if max_retries p \<le> int retry_count then ([Call retry_count], RetryRaise e)
          else
            (let d = next_delay p retry_count (rnd retry_count) delay;
                 called = (case cb of None \<Rightarrow> [] | Some f \<Rightarrow> [Callback retry_count e d])
             in case (case cb of None \<Rightarrow> None | Some f \<Rightarrow> f retry_count e d) of
                  Some e' \<Rightarrow> (Call retry_count # called, RetryRaise e')
                | None \<Rightarrow>
                    (let (evs, res) =
                       retry_loop p retry_exceptions cancel cb rnd fn todo (Suc retry_count) d (Some e)
                     in (Call retry_count # called @ Sleep d # evs, res))))"

definition retry_with_backoff ::
  "(nat \<Rightarrow> ('e, 'a) outcome) \<Rightarrow> retry_policy \<Rightarrow> (nat \<Rightarrow> 'e \<Rightarrow> rat \<Rightarrow> 'e option) option \<Rightarrow>
   ('e \<Rightarrow> bool) \<Rightarrow> (nat \<Rightarrow> bool) \<Rightarrow> (nat \<Rightarrow> rat) \<Rightarrow> 'e retry_event list \<times> ('e, 'a) retry_result" where
  "retry_with_backoff fn p cb retry_exceptions cancel rnd =
     retry_loop p retry_exceptions cancel cb rnd fn (nat (max_retries p + 1)) 0 (initial_delay p) None"

text \<open>\<open>with_retry\<close>: no callback and no cancellation event.\<close>

definition with_retry ::
  "retry_policy \<Rightarrow> ('e \<Rightarrow> bool) \<Rightarrow> (nat \<Rightarrow> rat) \<Rightarrow> (nat \<Rightarrow> ('e, 'a) outcome) \<Rightarrow>
   'e retry_event list \<times> ('e, 'a) retry_result" where
  "with_retry p retry_exceptions rnd fn =
     retry_with_backoff fn p None retry_exceptions (\<lambda>_. False) rnd"

text \<open>
  A message header may hold a negative count: Python's float power then divides, and fails on a zero
  factor.
\<close>

definition compute_retry_delay :: "retry_policy \<Rightarrow> int \<Rightarrow> rat \<Rightarrow> rat result" where
  "compute_retry_delay p retry_count r =
     (if retry_count < 0 \<and> backoff_factor p = 0 then Inl (Exc OtherError ''ZeroDivisionError'')
      else (let delay = initial_delay p * power_int (backoff_factor p) retry_count
            in Inr (min (if jitter p then apply_jitter r delay else delay) (max_delay p))))"

subsection \<open>Observations on the event list\<close>

fun is_Call :: "'e retry_event \<Rightarrow> bool" where
  "is_Call (Call n) = True"
| "is_Call _ = False"

fun sleeps :: "'e retry_event list \<Rightarrow> rat list" where
  "sleeps [] = []"
| "sleeps (Sleep d # evs) = d # sleeps evs"
| "sleeps (_ # evs) = sleeps evs"

definition n_calls :: "'e retry_event list \<Rightarrow> nat" where
  "n_calls evs = length (filter is_Call evs)"

lemma n_calls_simps [simp]:
  "n_calls [] = 0" "n_calls (Call n # evs) = Suc (n_calls evs)"
  "n_calls (Sleep d # evs) = n_calls evs" "n_calls (Callback n e d # evs) = n_calls evs"
  by (simp_all add: n_calls_def)

definition called_back :: "(nat \<Rightarrow> 'e \<Rightarrow> rat \<Rightarrow> 'e option) option \<Rightarrow> nat \<Rightarrow> 'e \<Rightarrow> rat \<Rightarrow> 'e retry_event list" where
  "called_back cb n e d = (case cb of None \<Rightarrow> [] | Some f \<Rightarrow> [Callback n e d])"

lemma called_back_simps [simp]:
  "n_calls (called_back cb n e d @ evs) = n_calls evs"
  "sleeps (called_back cb n e d @ evs) = sleeps evs"
  "n_calls (called_back cb n e d) = 0"
  "sleeps (called_back cb n e d) = []"
  by (simp_all add: called_back_def split: option.splits)

text \<open>The loop body with the cases in the order the code tries them.\<close>

lemma retry_loop_Suc:
  "retry_loop p rx cancel cb rnd fn (Suc todo) n delay le =
     (case fn n of
        Returned a \<Rightarrow> ([Call n], RetryReturn a)
      | Raised e \<Rightarrow>
          if \<not> rx e then ([Call n], RetryRaise e)
          else if cancel n then ([Call n], RetryCancelled e)
          else if max_retries p \<le> int n then ([Call n], RetryRaise e)
          else (let d = next_delay p n (rnd n) delay
                in case Option.bind cb (\<lambda>f. f n e d) of
                  Some e' \<Rightarrow> (Call n # called_back cb n e d, RetryRaise e')
                | None \<Rightarrow>
                    (Call n # called_back cb n e d @
                       Sleep d # fst (retry_loop p rx cancel cb rnd fn todo (Suc n) d (Some e)),
                     snd (retry_loop p rx cancel cb rnd fn todo (Suc n) d (Some e)))))"
  by (auto simp: called_back_def Let_def split: outcome.splits option.splits prod.splits)

declare retry_loop.simps(2) [simp del]

subsection \<open>How often the function is called\<close>

lemma retry_loop_calls_le: "n_calls (fst (retry_loop p rx cancel cb rnd fn todo n delay le)) \<le> todo"
proof (induction todo arbitrary: n delay le)
  case 0
  then show ?case by simp
next
  case (Suc todo)
  show ?case
    by (auto simp: retry_loop_Suc Let_def Suc split: outcome.splits option.splits)
qed

lemma retry_loop_sleeps_le_calls:
  "length (sleeps (fst (retry_loop p rx cancel cb rnd fn todo n delay le)))
     \<le> n_calls (fst (retry_loop p rx cancel cb rnd fn todo n delay le))"
proof (induction todo arbitrary: n delay le)
  case 0
  then show ?case by simp
next
  case (Suc todo)
  show ?case
    by (auto simp: retry_loop_Suc Let_def Suc split: outcome.splits option.splits)
qed


text \<open>
  \<open>retry_with_backoff\<close> awaits the function at most \<open>max_retries + 1\<close> times, and sleeps at
  most once per call, whatever the function, the callback and the cancellation event do.
\<close>

theorem retry_attempts_bounded:
  "n_calls (fst (retry_with_backoff fn p cb rx cancel rnd)) \<le> nat (max_retries p + 1)
   \<and> length (sleeps (fst (retry_with_backoff fn p cb rx cancel rnd)))
       \<le> n_calls (fst (retry_with_backoff fn p cb rx cancel rnd))"
  by (simp add: retry_with_backoff_def retry_loop_calls_le retry_loop_sleeps_le_calls)

subsection \<open>What the loop returns\<close>

text \<open>
  \<open>fails_retryable\<close>: the call number \<open>i\<close> raises an exception the caller asked to retry, and the
  cancellation event is not set when it is looked at.
\<close>

definition fails_retryable ::
  "('e \<Rightarrow> bool) \<Rightarrow> (nat \<Rightarrow> bool) \<Rightarrow> (nat \<Rightarrow> ('e, 'a) outcome) \<Rightarrow> nat \<Rightarrow> bool" where
  "fails_retryable rx cancel fn i =
     (case fn i of Returned a \<Rightarrow> False | Raised e \<Rightarrow> rx e \<and> \<not> cancel i)"

lemma fails_retryableE:
  assumes "fails_retryable rx cancel fn i"
  obtains e where "fn i = Raised e" "rx e" "\<not> cancel i"
  using assms by (auto simp: fails_retryable_def split: outcome.splits)

text \<open>The delay after failure \<open>i\<close> when the loop started with \<open>delay\<close> at failure \<open>n\<close>.\<close>

fun delays :: "retry_policy \<Rightarrow> (nat \<Rightarrow> rat) \<Rightarrow> nat \<Rightarrow> rat \<Rightarrow> nat \<Rightarrow> rat list" where
  "delays p rnd n delay 0 = []"
| "delays p rnd n delay (Suc k) =
     (let d = next_delay p n (rnd n) delay in d # delays p rnd (Suc n) d k)"

lemma length_delays [simp]: "length (delays p rnd n delay k) = k"
  by (induction k arbitrary: n delay) (simp_all add: Let_def)

lemma retry_loop_skip_failures:
  assumes "\<forall>i. n \<le> i \<and> i < n + k \<longrightarrow> fails_retryable rx cancel fn i"
    and "int (n + k) \<le> max_retries p" and "k < todo" and "\<not> fails_retryable rx cancel fn (n + k)
           \<or> int (n + k) = max_retries p"
  shows "\<exists>evs d le'. retry_loop p rx cancel None rnd fn todo n delay le =
           (evs @ fst (retry_loop p rx cancel None rnd fn (todo - k) (n + k) d le'),
            snd (retry_loop p rx cancel None rnd fn (todo - k) (n + k) d le'))
         \<and> n_calls evs = k \<and> sleeps evs = delays p rnd n delay k
         \<and> (\<forall>ys. n_calls (evs @ ys) = k + n_calls ys)
         \<and> (\<forall>ys. sleeps (evs @ ys) = delays p rnd n delay k @ sleeps ys)"
  using assms
proof (induction k arbitrary: n todo delay le)
  case 0
  then show ?case by (intro exI [of _ "[]"] exI [of _ delay] exI [of _ le]) simp
next
  case (Suc k)
  obtain todo' where todo: "todo = Suc todo'"
    using Suc.prems(3) by (cases todo) simp_all
  have "fails_retryable rx cancel fn n"
    using Suc.prems(1) by simp
  then obtain e where e: "fn n = Raised e" "rx e" "\<not> cancel n"
    by (rule fails_retryableE)
  define d where "d = next_delay p n (rnd n) delay"
  have IH: "\<exists>evs d' le'. retry_loop p rx cancel None rnd fn todo' (Suc n) d (Some e) =
           (evs @ fst (retry_loop p rx cancel None rnd fn (todo' - k) (Suc n + k) d' le'),
            snd (retry_loop p rx cancel None rnd fn (todo' - k) (Suc n + k) d' le'))
         \<and> n_calls evs = k \<and> sleeps evs = delays p rnd (Suc n) d k
         \<and> (\<forall>ys. n_calls (evs @ ys) = k + n_calls ys)
         \<and> (\<forall>ys. sleeps (evs @ ys) = delays p rnd (Suc n) d k @ sleeps ys)"
    using Suc.prems by (intro Suc.IH) (auto simp: todo)
  then obtain evs d' le' where IH': "retry_loop p rx cancel None rnd fn todo' (Suc n) d (Some e) =
           (evs @ fst (retry_loop p rx cancel None rnd fn (todo' - k) (Suc n + k) d' le'),
            snd (retry_loop p rx cancel None rnd fn (todo' - k) (Suc n + k) d' le'))"
     "n_calls evs = k" "sleeps evs = delays p rnd (Suc n) d k"
     "\<forall>ys. n_calls (evs @ ys) = k + n_calls ys"
     "\<forall>ys. sleeps (evs @ ys) = delays p rnd (Suc n) d k @ sleeps ys"
    by blast
  have "\<not> max_retries p \<le> int n"
    using Suc.prems(2) by simp
  then have "retry_loop p rx cancel None rnd fn todo n delay le =
      (Call n # Sleep d # fst (retry_loop p rx cancel None rnd fn todo' (Suc n) d (Some e)),
       snd (retry_loop p rx cancel None rnd fn todo' (Suc n) d (Some e)))"
    using e by (simp add: todo retry_loop_Suc d_def [symmetric] called_back_def)
  then show ?case
    using IH' by (intro exI [of _ "Call n # Sleep d # evs"] exI [of _ d'] exI [of _ le'])
      (simp add: todo d_def [symmetric] Let_def)
qed

text \<open>
  The first success wins: when the calls before number \<open>k\<close> fail with retryable exceptions and
  call \<open>k\<close> returns, with \<open>k \<le> max_retries\<close>, the loop returns that value after exactly \<open>k + 1\<close>
  calls and after sleeping exactly \<open>k\<close> times, for the delays the policy prescribes.
\<close>

theorem retry_first_success:
  assumes "\<forall>i. i < k \<longrightarrow> fails_retryable rx cancel fn i" and "fn k = Returned a"
    and "int k \<le> max_retries p"
  shows "snd (retry_with_backoff fn p None rx cancel rnd) = RetryReturn a
    \<and> n_calls (fst (retry_with_backoff fn p None rx cancel rnd)) = Suc k
    \<and> sleeps (fst (retry_with_backoff fn p None rx cancel rnd)) = delays p rnd 0 (initial_delay p) k"
proof -
  let ?todo = "nat (max_retries p + 1)"
  have todo: "k < ?todo" using assms(3) by simp
  then obtain t where t: "?todo - k = Suc t" by (metis Suc_diff_Suc)
  have nf: "\<not> fails_retryable rx cancel fn (0 + k)"
    using assms(2) by (simp add: fails_retryable_def)
  have last: "retry_loop p rx cancel None rnd fn (Suc t) k d le = ([Call k], RetryReturn a)" for d le
    using assms(2) by (simp add: retry_loop_Suc)
  from retry_loop_skip_failures [of 0 k rx cancel fn p ?todo rnd "initial_delay p" None] assms todo nf
  show ?thesis
    by (auto simp: retry_with_backoff_def t last)
qed

theorem retry_first_success_witness:
  "snd (retry_with_backoff (\<lambda>i. if i < 2 then Raised AMQPError else Returned (7::int))
      RetryPolicy_default None (\<lambda>e. e = AMQPError) (\<lambda>_. False) (\<lambda>_. 1/2)) = RetryReturn 7"
proof -
  have "\<forall>i. i < 2 \<longrightarrow> fails_retryable (\<lambda>e. e = AMQPError) (\<lambda>_. False)
      (\<lambda>i. if i < 2 then Raised AMQPError else Returned (7::int)) i"
    by (simp add: fails_retryable_def)
  from retry_first_success [OF this, of 7 RetryPolicy_default "\<lambda>_. 1/2"] show ?thesis
    by (simp add: RetryPolicy_default_def)
qed

text \<open>
  Exhaustion: when all of the \<open>max_retries + 1\<close> calls fail with retryable exceptions, the
  exception of the last one is raised, after exactly \<open>max_retries\<close> sleeps.
\<close>

theorem retry_exhausted_raises_last:
  assumes "\<forall>i. i \<le> m \<longrightarrow> fails_retryable rx cancel fn i" and "max_retries p = int m"
    and "fn m = Raised e"
  shows "snd (retry_with_backoff fn p None rx cancel rnd) = RetryRaise e
    \<and> n_calls (fst (retry_with_backoff fn p None rx cancel rnd)) = Suc m
    \<and> sleeps (fst (retry_with_backoff fn p None rx cancel rnd)) = delays p rnd 0 (initial_delay p) m"
proof -
  have todo: "nat (max_retries p + 1) = Suc m" using assms(2) by simp
  have "rx e \<and> \<not> cancel m"
    using assms(1,3) by (auto simp: fails_retryable_def dest: spec [of _ m])
  then have last: "retry_loop p rx cancel None rnd fn (Suc 0) m d le = ([Call m], RetryRaise e)" for d le
    using assms(2,3) by (simp add: retry_loop_Suc)
  from retry_loop_skip_failures [of 0 m rx cancel fn p "Suc m" rnd "initial_delay p" None] assms
  show ?thesis
    unfolding retry_with_backoff_def todo by (auto simp: last)
qed

theorem retry_exhausted_raises_last_witness:
  "snd (retry_with_backoff (\<lambda>i. Raised (i + 10)) RetryPolicy_default None (\<lambda>e. True) (\<lambda>_. False)
      (\<lambda>_. 1/2) :: nat retry_event list \<times> (nat, bool) retry_result) = RetryRaise 15"
proof -
  have "\<forall>i. i \<le> 5 \<longrightarrow> fails_retryable (\<lambda>e. True) (\<lambda>_. False)
      (\<lambda>i. Raised (i + 10) :: (nat, bool) outcome) i"
    by (simp add: fails_retryable_def)
  from retry_exhausted_raises_last [OF this, of RetryPolicy_default 15 "\<lambda>_. 1/2"] show ?thesis
    by (simp add: RetryPolicy_default_def)
qed

subsection \<open>How long it sleeps\<close>

definition backoff :: "retry_policy \<Rightarrow> nat \<Rightarrow> rat" where
  "backoff p i = (if i = 0 then initial_delay p
                  else min (initial_delay p * backoff_factor p ^ i) (max_delay p))"

lemma next_delay_backoff:
  assumes "\<not> jitter p" "1 \<le> backoff_factor p" "0 \<le> max_delay p"
  shows "next_delay p (Suc n) r (backoff p n) = backoff p (Suc n)"
proof (cases n)
  case 0
  then show ?thesis using assms by (simp add: next_delay_def backoff_def)
next
  case (Suc m)
  have f: "0 \<le> backoff_factor p" using assms(2) by simp
  have mf: "max_delay p \<le> max_delay p * backoff_factor p"
    using mult_left_mono [OF assms(2,3)] by simp
  have "min (initial_delay p * backoff_factor p ^ Suc m) (max_delay p) * backoff_factor p
      = min (initial_delay p * backoff_factor p ^ Suc (Suc m)) (max_delay p * backoff_factor p)"
    using f by (simp only: min_mult_distrib_right if_True) (simp add: ac_simps)
  then have "min (min (initial_delay p * backoff_factor p ^ Suc m) (max_delay p) * backoff_factor p) (max_delay p)
      = min (initial_delay p * backoff_factor p ^ Suc (Suc m)) (max_delay p)"
    using mf by (simp only: min.assoc min.absorb2)
  then show ?thesis
    using Suc assms(1) by (simp add: next_delay_def backoff_def)
qed

lemma delays_backoff:
  assumes "\<not> jitter p" "1 \<le> backoff_factor p" "0 \<le> max_delay p"
    and "next_delay p n r0 delay = backoff p n"
  shows "delays p rnd n delay k = map (backoff p) [n ..< n + k]"
  using assms(4)
proof (induction k arbitrary: n delay r0)
  case 0
  then show ?case by simp
next
  case (Suc k)
  have nj: "next_delay p n r delay = backoff p n" for r
    using Suc.prems assms(1) by (simp add: next_delay_def)
  have "delays p rnd (Suc n) (backoff p n) k = map (backoff p) [Suc n ..< Suc n + k]"
    by (rule Suc.IH) (rule next_delay_backoff [OF assms(1-3)])
  then show ?case
    by (simp add: nj upt_conv_Cons del: upt_Suc)
qed

text \<open>
  Without jitter the delays the loop accumulates one multiplication at a time are the closed
  form: \<open>initial_delay\<close> first, then \<open>min (initial_delay * backoff_factor ^ i) max_delay\<close>.
\<close>

theorem delays_closed_form:
  assumes "\<not> jitter p" and "1 \<le> backoff_factor p" and "0 \<le> max_delay p"
  shows "delays p rnd 0 (initial_delay p) k = map (backoff p) [0 ..< k]"
  using delays_backoff [OF assms, of 0 0 "initial_delay p" rnd k] assms(1)
  by (simp add: next_delay_def backoff_def)

theorem delays_closed_form_witness:
  "delays (RetryPolicy_default\<lparr>jitter := False\<rparr>) (\<lambda>_. 0) 0 1 8 = [1, 2, 4, 8, 16, 32, 60, 60]"
  using delays_closed_form [of "RetryPolicy_default\<lparr>jitter := False\<rparr>" "\<lambda>_. 0" 8]
  by (simp add: RetryPolicy_default_def backoff_def upt_rec)

lemma apply_jitter_eq: "apply_jitter r d = max (3/4 * d + d * r / 2) (1/10)"
proof -
  have "d + uniform (- (d * (1/4))) (d * (1/4)) r = 3/4 * d + d * r / 2"
    by (simp add: uniform_def field_simps)
  then show ?thesis by (simp add: apply_jitter_def Let_def)
qed

lemma apply_jitter_bounds:
  assumes "0 \<le> r" "r \<le> 1" "0 \<le> d"
  shows "1/10 \<le> apply_jitter r d" "3/4 * d \<le> apply_jitter r d"
    "apply_jitter r d \<le> max (5/4 * d) (1/10)"
proof -
  have "0 \<le> d * r" "d * r \<le> d"
    using assms mult_left_le [of r d] by simp_all
  then show "1/10 \<le> apply_jitter r d" "3/4 * d \<le> apply_jitter r d"
    "apply_jitter r d \<le> max (5/4 * d) (1/10)"
    unfolding apply_jitter_eq by linarith+
qed

definition sleep_cap :: "retry_policy \<Rightarrow> rat" where
  "sleep_cap p = max (5/4 * max (initial_delay p) (max_delay p)) (1/10)"

lemma next_delay_jitter_bounds:
  assumes "jitter p" "0 \<le> r" "r \<le> 1" "0 \<le> delay" "0 \<le> backoff_factor p" "0 \<le> max_delay p"
    and "n = 0 \<Longrightarrow> delay = initial_delay p"
  shows "1/10 \<le> next_delay p n r delay" "next_delay p n r delay \<le> sleep_cap p"
proof -
  define d where "d = (if 0 < n then min (delay * backoff_factor p) (max_delay p) else delay)"
  have nd: "next_delay p n r delay = apply_jitter r d"
    using assms(1) by (simp add: next_delay_def d_def)
  have d: "0 \<le> d" "d \<le> max (initial_delay p) (max_delay p)"
    using assms(4-7) by (auto simp: d_def min_le_iff_disj le_max_iff_disj)
  from apply_jitter_bounds [OF assms(2,3) d(1)] d(2)
  show "1/10 \<le> next_delay p n r delay" "next_delay p n r delay \<le> sleep_cap p"
    by (auto simp: nd sleep_cap_def le_max_iff_disj)
qed

text \<open>
  With jitter every sleep lies between a tenth of a second and 125 per cent of the larger of
  \<open>initial_delay\<close> and \<open>max_delay\<close>: the jitter is added after the cap is applied.
\<close>

theorem jittered_sleeps_bounded:
  assumes "jitter p" and "\<forall>i. 0 \<le> rnd i \<and> rnd i \<le> 1" and "0 \<le> initial_delay p"
    and "0 \<le> backoff_factor p" and "0 \<le> max_delay p"
  shows "\<forall>d \<in> set (delays p rnd 0 (initial_delay p) k). 1/10 \<le> d \<and> d \<le> sleep_cap p"
proof -
  have "\<forall>d \<in> set (delays p rnd n delay k). 1/10 \<le> d \<and> d \<le> sleep_cap p"
    if "0 \<le> delay" "n = 0 \<Longrightarrow> delay = initial_delay p" for n delay
    using that
  proof (induction k arbitrary: n delay)
    case 0
    then show ?case by simp
  next
    case (Suc k)
    let ?d = "next_delay p n (rnd n) delay"
    have b: "1/10 \<le> ?d" "?d \<le> sleep_cap p"
      using next_delay_jitter_bounds [OF assms(1) _ _ Suc.prems(1) assms(4,5) Suc.prems(2)] assms(2)
      by auto
    then have "\<forall>d \<in> set (delays p rnd (Suc n) ?d k). 1/10 \<le> d \<and> d \<le> sleep_cap p"
      by (intro Suc.IH) auto
    with b show ?case by (simp add: Let_def)
  qed
  then show ?thesis using assms(3) by blast
qed

theorem jittered_sleeps_bounded_witness:
  "\<forall>d \<in> set (delays RetryPolicy_default (\<lambda>_. 1/2) 0 1 5). 1/10 \<le> d \<and> d \<le> 75"
  using jittered_sleeps_bounded [of RetryPolicy_default "\<lambda>_. 1/2" 5]
  by (simp add: RetryPolicy_default_def sleep_cap_def)

text \<open>
  The documented maximum is not kept: once the backoff has reached \<open>max_delay\<close>, every draw of
  the generator above one half makes the loop sleep longer than \<open>max_delay\<close>.
\<close>

theorem jitter_exceeds_max_delay:
  assumes "jitter p" and "0 < retry_count" and "max_delay p \<le> delay * backoff_factor p"
    and "0 < max_delay p" and "1/2 < r"
  shows "max_delay p < next_delay p retry_count r delay"
proof -
  have "max_delay p * (1/2) < max_delay p * r"
    using assms(4,5) by (intro mult_strict_left_mono)
  then have "max_delay p < 3/4 * max_delay p + max_delay p * r / 2"
    by simp
  then show ?thesis
    using assms(1-3) by (simp add: next_delay_def min.absorb2 apply_jitter_eq Let_def less_max_iff_disj)
qed

theorem jitter_exceeds_max_delay_witness: "60 < next_delay RetryPolicy_default 1 (9/10) 30"
  using jitter_exceeds_max_delay [of RetryPolicy_default 1 30 "9/10"]
  by (simp add: RetryPolicy_default_def)

lemma compute_retry_delay_bounds':
  assumes "0 \<le> initial_delay p" and "0 < backoff_factor p" and "0 \<le> max_delay p"
    and "0 \<le> r" and "r \<le> 1"
  shows "\<exists>d. compute_retry_delay p n r = Inr d \<and> 0 \<le> d \<and> d \<le> max_delay p"
proof -
  have d: "0 \<le> initial_delay p * power_int (backoff_factor p) n" using assms(1,2) by simp
  with apply_jitter_bounds(1) [OF assms(4,5) d] assms(2,3) show ?thesis
    by (auto simp: compute_retry_delay_def Let_def)
qed

text \<open>
  \<open>compute_retry_delay\<close> caps after the jitter: the delay of a redelivery never exceeds
  \<open>max_delay\<close>, and is never negative when the policy's numbers are not.
\<close>

theorem compute_retry_delay_bounds:
  assumes "0 \<le> initial_delay p" and "0 < backoff_factor p" and "0 \<le> max_delay p"
    and "0 \<le> r" and "r \<le> 1"
  shows "\<exists>d. compute_retry_delay p n r = Inr d \<and> 0 \<le> d \<and> d \<le> max_delay p"
  using assms by (rule compute_retry_delay_bounds')

theorem compute_retry_delay_bounds_witness:
  "\<exists>d. compute_retry_delay RetryPolicy_default 7 1 = Inr d \<and> 0 \<le> d \<and> d \<le> 60"
  using compute_retry_delay_bounds [of RetryPolicy_default 1 7] by (simp add: RetryPolicy_default_def)

end
