(* ===== verification/Redis_Server.thy ===== *)
theory Redis_Server
  imports Prelude "HOL-Library.AList" "HOL-Library.Char_ord" "HOL-Library.List_Lexorder"
    "HOL-Library.Product_Lexorder"
begin

section \<open>The Redis commands the code relies on\<close>

text \<open>
  Redis is not part of the repository. The backends call it through a handful of commands, which
  the model takes as a record of functions over an unknown server state. The locale
  \<open>redis_server\<close> states what the Redis documentation says of those commands and nothing else; every
  theorem about the delayed message store holds for any server that keeps these laws.
  \<open>ref_redis\<close> is an executable server that keeps them, used to evaluate concrete runs.

  \<open>zset\<close> commands use integer scores, because the code only stores integer timestamps.
\<close>

datatype zadd_flag = ZPlain | ZGt | ZLt

record 's redis =
  r_get :: "string \<Rightarrow> 's \<Rightarrow> string option"
  r_set :: "string \<Rightarrow> string \<Rightarrow> 's \<Rightarrow> 's"
  r_set_nx :: "string \<Rightarrow> string \<Rightarrow> 's \<Rightarrow> bool \<times> 's"
  r_del :: "string \<Rightarrow> 's \<Rightarrow> 's"
  r_zscore :: "string \<Rightarrow> string \<Rightarrow> 's \<Rightarrow> int option"
  r_zadd :: "zadd_flag \<Rightarrow> string \<Rightarrow> string \<Rightarrow> int \<Rightarrow> 's \<Rightarrow> 's"
  r_zrem :: "string \<Rightarrow> string \<Rightarrow> 's \<Rightarrow> 's"
  r_zrangebyscore :: "string \<Rightarrow> int \<Rightarrow> int \<Rightarrow> 's \<Rightarrow> string list"

text \<open>The score after \<open>ZADD\<close>: \<open>GT\<close> and \<open>LT\<close> add new members and only raise, resp. lower, old scores.\<close>

fun zadd_score :: "zadd_flag \<Rightarrow> int option \<Rightarrow> int \<Rightarrow> int" where
  "zadd_score f None sc = sc"
| "zadd_score ZPlain (Some old) sc = sc"
| "zadd_score ZGt (Some old) sc = max old sc"
| "zadd_score ZLt (Some old) sc = min old sc"

locale redis_server =
  fixes r :: "'s redis"
  assumes get_set: "r_get r k' (r_set r k v s) = (if k' = k then Some v else r_get r k' s)"
    and set_nx: "r_set_nx r k v s =
      (if r_get r k s = None then (True, r_set r k v s) else (False, s))"
    and get_del: "r_get r k' (r_del r k s) = (if k' = k then None else r_get r k' s)"
    and zscore_set: "k \<noteq> z \<Longrightarrow> r_zscore r z m (r_set r k v s) = r_zscore r z m s"
    and zscore_del: "k \<noteq> z \<Longrightarrow> r_zscore r z m (r_del r k s) = r_zscore r z m s"
    and get_zadd: "k \<noteq> z \<Longrightarrow> r_get r k (r_zadd r f z m sc s) = r_get r k s"
    and get_zrem: "k \<noteq> z \<Longrightarrow> r_get r k (r_zrem r z m s) = r_get r k s"
    and zscore_zadd: "r_zscore r z' m' (r_zadd r f z m sc s) =
      (if z' = z \<and> m' = m then Some (zadd_score f (r_zscore r z m s) sc) else r_zscore r z' m' s)"
    and zscore_zrem: "r_zscore r z' m' (r_zrem r z m s) =
      (if z' = z \<and> m' = m then None else r_zscore r z' m' s)"
    and zrange_distinct: "distinct (r_zrangebyscore r z mx n s)"
    and zrange_due: "m \<in> set (r_zrangebyscore r z mx n s) \<Longrightarrow>
      \<exists>sc. r_zscore r z m s = Some sc \<and> sc \<le> mx"
    and zrange_limit: "0 \<le> n \<Longrightarrow> int (length (r_zrangebyscore r z mx n s)) \<le> n"
    and zrange_complete: "n < 0 \<or> int (length (r_zrangebyscore r z mx n s)) < n \<Longrightarrow>
      r_zscore r z m s = Some sc \<Longrightarrow> sc \<le> mx \<Longrightarrow> m \<in> set (r_zrangebyscore r z mx n s)"
    and zrange_lowest: "m \<in> set (r_zrangebyscore r z mx n s) \<Longrightarrow>
      r_zscore r z m s = Some sc \<Longrightarrow> r_zscore r z m' s = Some sc' \<Longrightarrow> sc' \<le> mx \<Longrightarrow>
      m' \<notin> set (r_zrangebyscore r z mx n s) \<Longrightarrow> sc \<le> sc'"
    and zrange_sorted:
      "sorted (map (\<lambda>m. the (r_zscore r z m s)) (r_zrangebyscore r z mx n s))"
begin

lemmas string_laws = get_set set_nx get_del get_zadd get_zrem
lemmas zset_laws = zscore_set zscore_del zscore_zadd zscore_zrem

end

subsection \<open>An executable server\<close>

record ref_store =
  kv :: "string \<Rightarrow> string option"
  zs :: "string \<Rightarrow> (string \<times> int) list"

definition ref_empty :: ref_store where
  "ref_empty = \<lparr>kv = (\<lambda>_. None), zs = (\<lambda>_. [])\<rparr>"

definition ref_zrangebyscore :: "string \<Rightarrow> int \<Rightarrow> int \<Rightarrow> ref_store \<Rightarrow> string list" where
  "ref_zrangebyscore z mx n s =
     (let due = filter (\<lambda>(m, sc). sc \<le> mx) (AList.clearjunk (zs s z));
          ids = map fst (sort_key (\<lambda>(m, sc). (sc, m)) due)
      in if n < 0 then ids else take (nat n) ids)"

definition ref_redis :: "ref_store redis" where
  "ref_redis = \<lparr>
     r_get = (\<lambda>k s. kv s k),
     r_set = (\<lambda>k v s. s\<lparr>kv := (kv s)(k := Some v)\<rparr>),
     r_set_nx = (\<lambda>k v s. if kv s k = None then (True, s\<lparr>kv := (kv s)(k := Some v)\<rparr>) else (False, s)),
     r_del = (\<lambda>k s. s\<lparr>kv := (kv s)(k := None)\<rparr>),
     r_zscore = (\<lambda>z m s. map_of (zs s z) m),
     r_zadd = (\<lambda>f z m sc s. s\<lparr>zs := (zs s)(z :=
        AList.update m (zadd_score f (map_of (zs s z) m) sc) (zs s z))\<rparr>),
     r_zrem = (\<lambda>z m s. s\<lparr>zs := (zs s)(z := AList.delete m (zs s z))\<rparr>),
     r_zrangebyscore = ref_zrangebyscore\<rparr>"

lemma sorted_take_le_rest:
  assumes "sorted (map f xs)" "x \<in> set (take n xs)" "y \<in> set xs" "y \<notin> set (take n xs)"
  shows "f x \<le> f y"
proof -
  have "y \<in> set (drop n xs)"
    using assms(3,4) by (metis Un_iff append_take_drop_id set_append)
  moreover have "sorted (map f (take n xs) @ map f (drop n xs))"
    using assms(1) by (metis append_take_drop_id map_append)
  ultimately show ?thesis
    using assms(2) by (auto simp: sorted_append)
qed

definition due_sorted :: "string \<Rightarrow> int \<Rightarrow> ref_store \<Rightarrow> (string \<times> int) list" where
  "due_sorted z mx s =
     sort_key (\<lambda>(m, sc). (sc, m)) (filter (\<lambda>(m, sc). sc \<le> mx) (AList.clearjunk (zs s z)))"

lemma ref_zrangebyscore_take:
  "ref_zrangebyscore z mx n s =
     (if n < 0 then map fst (due_sorted z mx s) else take (nat n) (map fst (due_sorted z mx s)))"
  by (simp add: ref_zrangebyscore_def due_sorted_def Let_def)

lemma set_due_sorted: "(m, sc) \<in> set (due_sorted z mx s) \<longleftrightarrow> map_of (zs s z) m = Some sc \<and> sc \<le> mx"
proof -
  have "(m, sc) \<in> set (AList.clearjunk (zs s z)) \<longleftrightarrow> map_of (zs s z) m = Some sc"
    by (metis distinct_clearjunk map_of_clearjunk map_of_eq_Some_iff)
  then show ?thesis by (auto simp: due_sorted_def)
qed

lemma distinct_due_sorted: "distinct (map fst (due_sorted z mx s))"
proof -
  have "distinct (map fst (filter (\<lambda>(m, sc). sc \<le> mx) (AList.clearjunk (zs s z))))"
    by (simp add: distinct_map_fst_filter)
  moreover have "mset (map fst (due_sorted z mx s)) =
      mset (map fst (filter (\<lambda>(m, sc). sc \<le> mx) (AList.clearjunk (zs s z))))"
    by (simp add: due_sorted_def)
  ultimately show ?thesis by (metis mset_eq_imp_distinct_iff)
qed

lemma sorted_due_sorted: "sorted (map snd (due_sorted z mx s))"
proof -
  have "sorted (map (\<lambda>(m, sc). (sc, m)) (due_sorted z mx s))"
    by (simp add: due_sorted_def)
  then have "sorted_wrt (\<lambda>x y. snd x \<le> snd y) (due_sorted z mx s)"
    by (simp add: sorted_map) (auto elim!: sorted_wrt_mono_rel [rotated] simp: less_eq_prod_def split: prod.splits)
  then show ?thesis by (simp add: sorted_map)
qed

lemma score_due_sorted:
  "map (\<lambda>m. the (map_of (zs s z) m)) (map fst (due_sorted z mx s)) = map snd (due_sorted z mx s)"
  by (auto simp: set_due_sorted)

lemma ref_zrange_scores_sorted:
  "sorted (map (\<lambda>m. the (map_of (zs s z) m)) (ref_zrangebyscore z mx n s))"
  using sorted_due_sorted [of z mx s] score_due_sorted [of s z mx]
  by (auto simp: ref_zrangebyscore_take take_map [symmetric] sorted_wrt_take simp del: map_map)

lemma ref_zrange_member:
  "m \<in> set (ref_zrangebyscore z mx n s) \<Longrightarrow> \<exists>sc. map_of (zs s z) m = Some sc \<and> sc \<le> mx"
  by (auto simp: ref_zrangebyscore_take set_due_sorted take_map dest!: in_set_takeD split: if_splits)

lemma ref_zrange_all:
  assumes "n < 0 \<or> int (length (ref_zrangebyscore z mx n s)) < n"
    and "map_of (zs s z) m = Some sc" "sc \<le> mx"
  shows "m \<in> set (ref_zrangebyscore z mx n s)"
proof -
  have "m \<in> set (map fst (due_sorted z mx s))"
    using assms(2,3) set_due_sorted [of m sc z mx s] by force
  moreover have "ref_zrangebyscore z mx n s = map fst (due_sorted z mx s)"
    using assms(1) by (auto simp: ref_zrangebyscore_take min_def split: if_splits)
  ultimately show ?thesis by simp
qed

lemma ref_zrange_lowest:
  assumes "m \<in> set (ref_zrangebyscore z mx n s)" "map_of (zs s z) m = Some sc"
    and "map_of (zs s z) m' = Some sc'" "sc' \<le> mx" "m' \<notin> set (ref_zrangebyscore z mx n s)"
  shows "sc \<le> sc'"
proof -
  let ?f = "\<lambda>m. the (map_of (zs s z) m)"
  have m': "m' \<in> set (map fst (due_sorted z mx s))"
    using assms(3,4) set_due_sorted [of m' sc' z mx s] by force
  have n: "\<not> n < 0"
    using m' assms(5) by (simp only: ref_zrangebyscore_take) (metis m')
  have "sorted (map ?f (map fst (due_sorted z mx s)))"
    unfolding score_due_sorted by (rule sorted_due_sorted)
  from sorted_take_le_rest [OF this, of m "nat n" m'] assms m' n show ?thesis
    by (simp add: ref_zrangebyscore_take)
qed

interpretation ref: redis_server ref_redis
proof (unfold_locales, goal_cases)
  case (10 z mx n s)
  then show ?case by (simp add: ref_redis_def ref_zrangebyscore_take distinct_due_sorted)
next
  case (11 m z mx n s)
  then show ?case by (simp add: ref_redis_def ref_zrange_member)
next
  case (13 n z mx s m sc)
  then show ?case by (auto simp: ref_redis_def intro: ref_zrange_all)
next
  case (14 m z mx n s sc m' sc')
  then show ?case by (auto simp: ref_redis_def intro: ref_zrange_lowest)
next
  case (15 z s mx n)
  then show ?case by (simp add: ref_redis_def ref_zrange_scores_sorted del: map_map)
qed (auto simp: ref_redis_def update_conv' delete_conv' ref_zrangebyscore_take)

end
