(* ===== verification/Delayed_Store.thy ===== *)
theory Delayed_Store
  imports Redis_Server
begin

section \<open>The Redis message broker backend\<close>

text \<open>
  \<^verbatim>\<open>scheduler/types.py\<close> (\<open>DelayedMessageData\<close>) and \<^verbatim>\<open>broker_backend/redis_broker_backend.py\<close>: the
  store of delayed messages (a sorted set of task ids scored by dispatch time, plus one string key
  per task holding the serialised message), the dispatch and execution timestamps, and the beat
  lock. \<^verbatim>\<open>pydantic\<close>'s \<open>model_dump_json\<close> and \<open>model_validate_json\<close> are the parameters \<open>dump\<close> and
  \<open>load\<close>; \<open>uuid4\<close> is a parameter too.
\<close>

subsection \<open>Data\<close>

text \<open>
  Values of message headers: a float is represented by its \<open>str()\<close>, and so is \<open>HOther\<close>, any value
  that is not a string, number or bool.
\<close>

datatype hval = HStr string | HInt int | HFloat string | HBool bool | HNone | HOther string

type_synonym headers = "(string \<times> hval) list"

datatype payload_policy_t = PIgnore | PReplace

datatype time_policy_t = TReplace | TGreater | TLesser

record delayed =
  message_topic :: string
  idempotency_key :: "string option"
  dispatch_time :: int
  payload :: string
  headers :: "headers option"
  target_queue :: "string option"
  message_id :: "string option"
  content_type :: "string option"
  payload_policy :: payload_policy_t
  time_policy :: time_policy_t
  content_encoding :: "string option"

abbreviation delayed_messages_key :: string where
  "delayed_messages_key \<equiv> ''delayed_messages''"

abbreviation beat_lock_key :: string where
  "beat_lock_key \<equiv> ''beat_lock''"

definition delayed_messages_metadata_key :: "string \<Rightarrow> string" where
  "delayed_messages_metadata_key task_id = ''delayed_messages_metadata:'' @ task_id"

definition last_dispatch_time_key :: "string \<Rightarrow> string" where
  "last_dispatch_time_key action_name = ''last_dispatch_time:'' @ action_name"

definition last_execution_time_key :: "string \<Rightarrow> string" where
  "last_execution_time_key action_name = ''last_execution_time:'' @ action_name"

lemma metadata_key_inj [simp]:
  "delayed_messages_metadata_key a = delayed_messages_metadata_key b \<longleftrightarrow> a = b"
  by (simp add: delayed_messages_metadata_key_def)

lemma metadata_key_neq [simp]:
  "delayed_messages_metadata_key a \<noteq> delayed_messages_key"
  "delayed_messages_key \<noteq> delayed_messages_metadata_key a"
  by (simp_all add: delayed_messages_metadata_key_def)

subsection \<open>Enqueueing and claiming\<close>

text \<open>
  \<open>enqueue_delayed_message\<close>: the two commands go to the server in one transaction. \<open>conn\<close> is what
  becomes of it: \<open>None\<close> when it succeeds, \<open>Some (applied, e)\<close> when \<open>execute\<close> raises \<open>e\<close> (a lost
  connection may or may not have let the transaction through).
\<close>

definition task_id_of :: "string \<Rightarrow> delayed \<Rightarrow> string" where
  "task_id_of uuid m = str_or (idempotency_key m) uuid"

definition zadd_flag_of :: "delayed \<Rightarrow> zadd_flag" where
  "zadd_flag_of m =
     (if idempotency_key m \<noteq> None
      then (case time_policy m of TGreater \<Rightarrow> ZGt | TLesser \<Rightarrow> ZLt | TReplace \<Rightarrow> ZPlain)
      else ZPlain)"

definition enqueue_commands :: "'s redis \<Rightarrow> string \<Rightarrow> delayed \<Rightarrow> string \<Rightarrow> 's \<Rightarrow> 's" where
  "enqueue_commands r task_id m serialized s =
     (let metadata_key = delayed_messages_metadata_key task_id;
          s1 = (if idempotency_key m \<noteq> None \<and> payload_policy m = PIgnore
                then snd (r_set_nx r metadata_key serialized s)
                else r_set r metadata_key serialized s)
      in r_zadd r (zadd_flag_of m) delayed_messages_key task_id (dispatch_time m) s1)"

definition enqueue_delayed_message ::
  "'s redis \<Rightarrow> (delayed \<Rightarrow> string result) \<Rightarrow> string \<Rightarrow> (bool \<times> exc) option \<Rightarrow> delayed \<Rightarrow> 's \<Rightarrow>
   exc option \<times> 's" where
  "enqueue_delayed_message r dump uuid conn m s =
     (case dump m of
        Inl e \<Rightarrow> (Some e, s)
      | Inr serialized \<Rightarrow>
          (let s' = enqueue_commands r (task_id_of uuid m) m serialized s
           in case conn of
                None \<Rightarrow> (None, s')
              | Some (applied, e) \<Rightarrow> (Some e, if applied then s' else s)))"

text \<open>The Lua script \<open>_DEQUEUE_DELAYED_MESSAGES_SCRIPT\<close>; the server runs it as one step.\<close>

fun claim_loop :: "'s redis \<Rightarrow> string list \<Rightarrow> 's \<Rightarrow> string list \<times> 's" where
  "claim_loop r [] s = ([], s)"
| "claim_loop r (task_id # task_ids) s =
     (let metadata_key = delayed_messages_metadata_key task_id;
          s1 = r_del r metadata_key (r_zrem r delayed_messages_key task_id s);
          (payloads, s2) = claim_loop r task_ids s1
      in (case r_get r metadata_key s of Some p \<Rightarrow> p # payloads | None \<Rightarrow> payloads, s2))"

definition dequeue_script :: "'s redis \<Rightarrow> int \<Rightarrow> int \<Rightarrow> 's \<Rightarrow> string list \<times> 's" where
  "dequeue_script r max_score batch_size s =
     claim_loop r (r_zrangebyscore r delayed_messages_key max_score batch_size s) s"

text \<open>Payloads that do not validate are logged and dropped.\<close>

definition dequeue_next_delayed_messages ::
  "'s redis \<Rightarrow> (string \<Rightarrow> delayed option) \<Rightarrow> int \<Rightarrow> int \<Rightarrow> 's \<Rightarrow> delayed list \<times> 's" where
  "dequeue_next_delayed_messages r load batch_size start_timestamp s =
     (let (payloads, s') = dequeue_script r start_timestamp batch_size s
      in (List.map_filter load payloads, s'))"

definition DEFAULT_DELAYED_MESSAGES_BATCH_SIZE :: int where
  "DEFAULT_DELAYED_MESSAGES_BATCH_SIZE = 500"

subsection \<open>Timestamps\<close>

definition get_timestamp :: "'s redis \<Rightarrow> string \<Rightarrow> 's \<Rightarrow> int option result" where
  "get_timestamp r key s =
     (case r_get r key s of
        None \<Rightarrow> Inr None
      | Some v \<Rightarrow> (case py_int v of Some i \<Rightarrow> Inr (Some i)
                   | None \<Rightarrow> Inl (Exc ValueError ''invalid literal for int()'')))"

definition get_last_dispatch_time :: "'s redis \<Rightarrow> string \<Rightarrow> 's \<Rightarrow> int option result" where
  "get_last_dispatch_time r action_name s = get_timestamp r (last_dispatch_time_key action_name) s"

definition set_last_dispatch_time :: "'s redis \<Rightarrow> string \<Rightarrow> int \<Rightarrow> 's \<Rightarrow> 's" where
  "set_last_dispatch_time r action_name timestamp s =
     r_set r (last_dispatch_time_key action_name) (str_int timestamp) s"

definition get_last_execution_time :: "'s redis \<Rightarrow> string \<Rightarrow> 's \<Rightarrow> int option result" where
  "get_last_execution_time r action_name s = get_timestamp r (last_execution_time_key action_name) s"

definition set_last_execution_time :: "'s redis \<Rightarrow> string \<Rightarrow> int \<Rightarrow> 's \<Rightarrow> 's" where
  "set_last_execution_time r action_name timestamp s =
     r_set r (last_execution_time_key action_name) (str_int timestamp) s"

subsection \<open>The beat lock\<close>

definition lock_acquire :: "'s redis \<Rightarrow> string \<Rightarrow> 's \<Rightarrow> bool \<times> 's" where
  "lock_acquire r token s = r_set_nx r beat_lock_key token s"

text \<open>\<open>_RELEASE_LOCK_SCRIPT\<close>: compare and delete.\<close>

definition lock_release :: "'s redis \<Rightarrow> string \<Rightarrow> 's \<Rightarrow> 's" where
  "lock_release r token s =
     (if r_get r beat_lock_key s = Some token then r_del r beat_lock_key s else s)"

text \<open>
  The acquisition loop over what each round observes: whether \<open>SET NX\<close> succeeded and the monotonic
  clock read after a failure. \<open>None\<close>: still polling when the observations run out.
\<close>

datatype lock_outcome = LockAcquired | LockNotAcquired

fun lock_poll :: "rat \<Rightarrow> (bool \<times> rat) list \<Rightarrow> lock_outcome option" where
  "lock_poll deadline [] = None"
| "lock_poll deadline ((acquired, now) # polls) =
     (if acquired then Some LockAcquired
      else if deadline \<le> now then Some LockNotAcquired
      else lock_poll deadline polls)"

subsection \<open>What the store holds\<close>

text \<open>
  The abstract content: a task id is pending with its score and the serialised message. \<open>store_wf\<close>
  is the invariant between the two Redis structures: a task has metadata exactly when it is in the
  sorted set.
\<close>

definition pending :: "'s redis \<Rightarrow> 's \<Rightarrow> string \<Rightarrow> (int \<times> string option) option" where
  "pending r s task_id =
     map_option (\<lambda>sc. (sc, r_get r (delayed_messages_metadata_key task_id) s))
       (r_zscore r delayed_messages_key task_id s)"

definition store_wf :: "'s redis \<Rightarrow> 's \<Rightarrow> bool" where
  "store_wf r s = (\<forall>task_id. (r_zscore r delayed_messages_key task_id s = None)
     = (r_get r (delayed_messages_metadata_key task_id) s = None))"

definition claimed_ids :: "'s redis \<Rightarrow> int \<Rightarrow> int \<Rightarrow> 's \<Rightarrow> string list" where
  "claimed_ids r max_score batch_size s = r_zrangebyscore r delayed_messages_key max_score batch_size s"

text \<open>What a new entry becomes next to an old one with the same id.\<close>

definition merge_entry :: "delayed \<Rightarrow> string \<Rightarrow> (int \<times> string option) option \<Rightarrow> int \<times> string option" where
  "merge_entry m serialized old =
     (zadd_score (zadd_flag_of m) (map_option fst old) (dispatch_time m),
      if idempotency_key m \<noteq> None \<and> payload_policy m = PIgnore \<and> old \<noteq> None
      then snd (the old) else Some serialized)"

text \<open>The contract of a delayed message store, as the beat worker and the publishers use it.\<close>

locale delayed_backend =
  fixes pend :: "'s \<Rightarrow> string \<Rightarrow> (int \<times> string option) option"
    and put :: "string \<Rightarrow> delayed \<Rightarrow> string \<Rightarrow> 's \<Rightarrow> 's"
    and claim :: "int \<Rightarrow> int \<Rightarrow> 's \<Rightarrow> string list \<times> 's"
    and ids :: "int \<Rightarrow> int \<Rightarrow> 's \<Rightarrow> string list"
    and wf :: "'s \<Rightarrow> bool"
  assumes wf_put: "wf s \<Longrightarrow> wf (put task_id m ser s)"
    and wf_claim: "wf s \<Longrightarrow> wf (snd (claim mx n s))"
    and pend_put: "wf s \<Longrightarrow> pend (put task_id m ser s) = (pend s)(task_id \<mapsto> merge_entry m ser (pend s task_id))"
    and pend_claim: "pend (snd (claim mx n s)) = (\<lambda>t. if t \<in> set (ids mx n s) then None else pend s t)"
    and claim_payloads: "fst (claim mx n s) = List.map_filter (\<lambda>t. Option.bind (pend s t) snd) (ids mx n s)"
    and ids_distinct: "distinct (ids mx n s)"
    and ids_due: "t \<in> set (ids mx n s) \<Longrightarrow> \<exists>sc p. pend s t = Some (sc, p) \<and> sc \<le> mx"
    and ids_limit: "0 \<le> n \<Longrightarrow> int (length (ids mx n s)) \<le> n"
    and ids_complete: "n < 0 \<or> int (length (ids mx n s)) < n \<Longrightarrow>
      pend s t = Some (sc, p) \<Longrightarrow> sc \<le> mx \<Longrightarrow> t \<in> set (ids mx n s)"
    and ids_lowest: "t \<in> set (ids mx n s) \<Longrightarrow> pend s t = Some (sc, p) \<Longrightarrow>
      pend s u = Some (sc', p') \<Longrightarrow> sc' \<le> mx \<Longrightarrow> u \<notin> set (ids mx n s) \<Longrightarrow> sc \<le> sc'"
begin

definition due :: "int \<Rightarrow> 's \<Rightarrow> string set" where
  "due mx s = {t. \<exists>sc p. pend s t = Some (sc, p) \<and> sc \<le> mx}"

lemma due_eq_ids: "due mx s = set (ids mx (-1) s)"
  using ids_due ids_complete [of "-1"] by (fastforce simp: due_def)

lemma finite_due: "finite (due mx s)"
  by (simp add: due_eq_ids)

lemma ids_subset_due: "set (ids mx n s) \<subseteq> due mx s"
  using ids_due by (fastforce simp: due_def)

lemma due_claim: "due mx' (snd (claim mx n s)) = due mx' s - set (ids mx n s)"
  by (auto simp: due_def pend_claim)

text \<open>Two claims in a row never hand out the same task.\<close>

lemma claims_disjoint: "set (ids mx n s) \<inter> set (ids mx' n' (snd (claim mx n s))) = {}"
  using ids_subset_due [of mx' n' "snd (claim mx n s)"] by (auto simp: due_claim)

lemma length_ids: "0 < n \<Longrightarrow> length (ids mx n s) = min (nat n) (card (due mx s))"
proof -
  assume n: "0 < n"
  have card: "card (set (ids mx n s)) = length (ids mx n s)"
    by (simp add: distinct_card ids_distinct)
  show ?thesis
  proof (cases "int (length (ids mx n s)) < n")
    case True
    then have "set (ids mx n s) = due mx s"
      using ids_subset_due ids_complete [of n mx s] by (fastforce simp: due_def)
    then show ?thesis using True card by simp
  next
    case False
    then have "length (ids mx n s) = nat n" using ids_limit [of n mx s] n by simp
    moreover have "length (ids mx n s) \<le> card (due mx s)"
      using card_mono [OF finite_due ids_subset_due] card by metis
    ultimately show ?thesis by simp
  qed
qed

fun drain :: "nat \<Rightarrow> int \<Rightarrow> int \<Rightarrow> 's \<Rightarrow> 's" where
  "drain 0 mx n s = s"
| "drain (Suc k) mx n s = drain k mx n (snd (claim mx n s))"

lemma card_due_claim: "0 < n \<Longrightarrow> card (due mx (snd (claim mx n s))) = card (due mx s) - nat n"
  using card_Diff_subset [of "set (ids mx n s)" "due mx s"] ids_subset_due [of mx n s]
  by (simp add: due_claim distinct_card ids_distinct length_ids)

text \<open>A backlog is drained in as many claims as it has batches.\<close>

lemma drain_empties: "0 < n \<Longrightarrow> card (due mx s) \<le> k * nat n \<Longrightarrow> due mx (drain k mx n s) = {}"
proof (induction k arbitrary: s)
  case 0
  then show ?case using finite_due by simp
next
  case (Suc k)
  then show ?case by (simp add: card_due_claim)
qed

end

subsection \<open>The backend keeps the contract\<close>

context redis_server
begin

lemma claim_loop_get:
  "r_get r k (snd (claim_loop r tids s)) =
     (if k \<in> delayed_messages_metadata_key ` set tids then None else r_get r k s)"
  if "k \<noteq> delayed_messages_key"
  using that by (induction tids arbitrary: s) (auto simp: Let_def split_beta get_del get_zrem)

lemma claim_loop_zscore:
  "r_zscore r delayed_messages_key t (snd (claim_loop r tids s)) =
     (if t \<in> set tids then None else r_zscore r delayed_messages_key t s)"
  by (induction tids arbitrary: s) (auto simp: Let_def split_beta zset_laws)

lemma claim_loop_payloads:
  "distinct tids \<Longrightarrow> fst (claim_loop r tids s) =
     List.map_filter (\<lambda>t. r_get r (delayed_messages_metadata_key t) s) tids"
proof (induction tids arbitrary: s)
  case Nil
  then show ?case by (simp add: List.map_filter_def)
next
  case (Cons t tids)
  let ?s = "r_del r (delayed_messages_metadata_key t) (r_zrem r delayed_messages_key t s)"
  have "List.map_filter (\<lambda>t. r_get r (delayed_messages_metadata_key t) ?s) tids =
        List.map_filter (\<lambda>t. r_get r (delayed_messages_metadata_key t) s) tids"
    using Cons.prems by (auto simp: List.map_filter_def get_del get_zrem intro!: map_cong filter_cong)
  with Cons show ?case
    by (simp add: Let_def split_beta List.map_filter_simps split: option.splits)
qed

lemma pending_dequeue:
  "pending r (snd (dequeue_script r mx n s)) =
     (\<lambda>t. if t \<in> set (claimed_ids r mx n s) then None else pending r s t)"
  by (auto simp: fun_eq_iff pending_def dequeue_script_def claimed_ids_def claim_loop_zscore
      claim_loop_get)

lemma store_wf_dequeue: "store_wf r s \<Longrightarrow> store_wf r (snd (dequeue_script r mx n s))"
  by (auto simp: store_wf_def dequeue_script_def claim_loop_zscore claim_loop_get)

lemma store_wf_enqueue: "store_wf r s \<Longrightarrow> store_wf r (enqueue_commands r task_id m ser s)"
  by (auto simp: store_wf_def enqueue_commands_def Let_def set_nx get_set get_zadd zset_laws)

lemma pending_enqueue:
  assumes "store_wf r s"
  shows "pending r (enqueue_commands r task_id m ser s) =
     (pending r s)(task_id \<mapsto> merge_entry m ser (pending r s task_id))"
proof -
  have key: "r_zscore r delayed_messages_key task_id s = None \<longleftrightarrow>
      r_get r (delayed_messages_metadata_key task_id) s = None"
    using assms by (simp add: store_wf_def)
  show ?thesis
    using key
    by (cases "r_zscore r delayed_messages_key task_id s"; intro ext)
      (auto simp: pending_def enqueue_commands_def merge_entry_def Let_def set_nx get_set
        get_zadd zset_laws)
qed

end

sublocale redis_server \<subseteq> backend: delayed_backend "pending r" "enqueue_commands r" "dequeue_script r"
  "claimed_ids r" "store_wf r"
proof (unfold_locales, goal_cases)
  case (1 s task_id m ser)
  then show ?case by (rule store_wf_enqueue)
next
  case (2 s mx n)
  then show ?case by (rule store_wf_dequeue)
next
  case (3 s task_id m ser)
  then show ?case by (rule pending_enqueue)
next
  case (4 mx n s)
  then show ?case by (rule pending_dequeue)
next
  case (5 mx n s)
  have "t \<in> set (claimed_ids r mx n s) \<Longrightarrow>
      Option.bind (pending r s t) snd = r_get r (delayed_messages_metadata_key t) s" for t
    using zrange_due by (fastforce simp: claimed_ids_def pending_def)
  then show ?case
    by (auto simp: dequeue_script_def claimed_ids_def claim_loop_payloads zrange_distinct
        List.map_filter_def intro!: map_cong filter_cong)
next
  case (6 mx n s)
  then show ?case by (simp add: claimed_ids_def zrange_distinct)
next
  case (7 t mx n s)
  then show ?case using zrange_due by (fastforce simp: claimed_ids_def pending_def)
next
  case (8 n mx s)
  then show ?case by (simp add: claimed_ids_def zrange_limit)
next
  case (9 n mx s t sc p)
  then show ?case using zrange_complete by (auto simp: claimed_ids_def pending_def)
next
  case (10 t mx n s sc p u sc' p')
  then show ?case using zrange_lowest [of t delayed_messages_key mx n s sc u sc']
    by (auto simp: claimed_ids_def pending_def)
qed

subsection \<open>Properties of the store\<close>

definition due_ids :: "'s redis \<Rightarrow> int \<Rightarrow> 's \<Rightarrow> string set" where
  "due_ids r mx s = {t. \<exists>sc p. pending r s t = Some (sc, p) \<and> sc \<le> mx}"

text \<open>One claim per beat cycle, \<open>k\<close> cycles.\<close>

fun drain_cycles :: "'s redis \<Rightarrow> nat \<Rightarrow> int \<Rightarrow> int \<Rightarrow> 's \<Rightarrow> 's" where
  "drain_cycles r 0 now batch_size s = s"
| "drain_cycles r (Suc k) now batch_size s =
     drain_cycles r k now batch_size (snd (dequeue_script r now batch_size s))"

context redis_server
begin

lemma due_ids_eq: "due_ids r mx s = backend.due mx s"
  by (simp add: due_ids_def backend.due_def)

lemma drain_cycles_eq: "drain_cycles r k mx n s = backend.drain k mx n s"
  by (induction k arbitrary: s) simp_all

lemma dequeue_disjoint:
  "set (claimed_ids r mx n s) \<inter> set (claimed_ids r mx' n' (snd (dequeue_script r mx n s))) = {}"
  by (rule backend.claims_disjoint)

lemma drain_cycles_empties:
  "0 < n \<Longrightarrow> card (due_ids r mx s) \<le> k * nat n \<Longrightarrow> due_ids r mx (drain_cycles r k mx n s) = {}"
  by (simp add: due_ids_eq drain_cycles_eq backend.drain_empties)

lemma dequeue_payload_in:
  assumes "t \<in> set (claimed_ids r mx n s)" "pending r s t = Some (sc, Some p)"
  shows "p \<in> set (fst (dequeue_script r mx n s))"
  using assms by (force simp: backend.claim_payloads List.map_filter_def image_iff)

lemma length_dequeue: "length (fst (dequeue_script r mx n s)) \<le> length (claimed_ids r mx n s)"
  by (simp add: backend.claim_payloads List.map_filter_def)

lemma claimed_bounded: "0 \<le> n \<Longrightarrow> int (length (claimed_ids r mx n s)) \<le> n"
  by (rule backend.ids_limit)

lemma claimed_earliest:
  "t \<in> set (claimed_ids r mx n s) \<Longrightarrow> pending r s t = Some (sc, p) \<Longrightarrow>
   pending r s u = Some (sc', p') \<Longrightarrow> sc' \<le> mx \<Longrightarrow> u \<notin> set (claimed_ids r mx n s) \<Longrightarrow> sc \<le> sc'"
  by (rule backend.ids_lowest)

lemma claimed_not_full:
  "int (length (claimed_ids r mx n s)) < n \<Longrightarrow> pending r s t = Some (sc, p) \<Longrightarrow> sc \<le> mx \<Longrightarrow>
   t \<in> set (claimed_ids r mx n s)"
  by (rule backend.ids_complete) simp_all

end


text \<open>A store with two due tasks and one that is not, for the witnesses.\<close>

definition sample_msg :: delayed where
  "sample_msg = \<lparr>message_topic = ''t'', idempotency_key = None, dispatch_time = 10, payload = ''p'',
     headers = None, target_queue = None, message_id = None, content_type = None,
     payload_policy = PIgnore, time_policy = TReplace, content_encoding = None\<rparr>"

definition sample_store :: ref_store where
  "sample_store =
     enqueue_commands ref_redis ''a'' (sample_msg\<lparr>dispatch_time := 7\<rparr>) ''A''
      (enqueue_commands ref_redis ''b'' (sample_msg\<lparr>dispatch_time := 3\<rparr>) ''B''
        (enqueue_commands ref_redis ''c'' (sample_msg\<lparr>dispatch_time := 20\<rparr>) ''C'' ref_empty))"

lemma store_wf_ref_empty: "store_wf ref_redis ref_empty"
  by (simp add: store_wf_def ref_redis_def ref_empty_def)

lemmas store_eval = sample_store_def sample_msg_def enqueue_commands_def zadd_flag_of_def ref_redis_def
  ref_empty_def delayed_messages_metadata_key_def

lemma claimed_sample: "claimed_ids ref_redis 10 500 sample_store = [''b'', ''a'']"
  by (simp add: claimed_ids_def store_eval ref_zrangebyscore_def Let_def)


text \<open>
  What is stored is delivered: a message enqueued under an id that was not pending is returned
  by the first claim after its dispatch time that does not fill its batch, provided the serialised
  form validates back to the message.
\<close>

theorem enqueue_then_dequeue:
  assumes "redis_server r" and "store_wf r s" and "dump m = Inr ser" and "load ser = Some m"
    and "pending r s (task_id_of uuid m) = None" and "dispatch_time m \<le> now"
    and "s' = snd (enqueue_delayed_message r dump uuid None m s)"
    and "int (length (claimed_ids r now n s')) < n"
  shows "m \<in> set (fst (dequeue_next_delayed_messages r load n now s'))"
proof -
  let ?t = "task_id_of uuid m"
  have s': "s' = enqueue_commands r ?t m ser s"
    by (simp add: assms(7) enqueue_delayed_message_def assms(3))
  have p: "pending r s' ?t = Some (dispatch_time m, Some ser)"
    using redis_server.pending_enqueue [OF assms(1,2), of ?t m ser] assms(5)
    by (simp add: s' merge_entry_def)
  then have "?t \<in> set (claimed_ids r now n s')"
    using redis_server.claimed_not_full [OF assms(1) assms(8)] assms(6) by blast
  from redis_server.dequeue_payload_in [OF assms(1) this p] assms(4) show ?thesis
    by (force simp: dequeue_next_delayed_messages_def split_beta List.map_filter_def image_iff)
qed

theorem enqueue_then_dequeue_witness:
  "sample_msg \<in> set (fst (dequeue_next_delayed_messages ref_redis (\<lambda>_. Some sample_msg) 500 15
     (snd (enqueue_delayed_message ref_redis (\<lambda>_. Inr ''S'') ''u1'' None sample_msg ref_empty))))"
proof (rule enqueue_then_dequeue [OF ref.redis_server_axioms store_wf_ref_empty])
  show "pending ref_redis ref_empty (task_id_of ''u1'' sample_msg) = None"
    by (simp add: pending_def ref_redis_def ref_empty_def)
  show "int (length (claimed_ids ref_redis 15 500
      (snd (enqueue_delayed_message ref_redis (\<lambda>_. Inr ''S'') ''u1'' None sample_msg ref_empty)))) < 500"
    by (simp add: claimed_ids_def enqueue_delayed_message_def store_eval ref_zrangebyscore_def Let_def
        task_id_of_def)
qed (simp_all add: sample_msg_def)

text \<open>
  The idempotency policies: re-enqueueing under the key of a pending task keeps the first
  payload under \<open>"ignore"\<close> and takes the new one under \<open>"replace"\<close>; the dispatch time becomes the
  new one, the later one or the earlier one under \<open>"replace"\<close>, \<open>"greater"\<close> and \<open>"lesser"\<close>.
\<close>

theorem idempotency_policies:
  assumes "redis_server r" and "store_wf r s" and "idempotency_key m = Some k" and "k \<noteq> []"
    and "pending r s k = Some (old_time, Some old)" and "dump m = Inr ser"
  shows "pending r (snd (enqueue_delayed_message r dump uuid None m s)) k =
    Some (case time_policy m of TReplace \<Rightarrow> dispatch_time m
            | TGreater \<Rightarrow> max old_time (dispatch_time m) | TLesser \<Rightarrow> min old_time (dispatch_time m),
          Some (case payload_policy m of PIgnore \<Rightarrow> old | PReplace \<Rightarrow> ser))"
proof -
  have "task_id_of uuid m = k"
    using assms(3,4) by (simp add: task_id_of_def)
  then show ?thesis
    using redis_server.pending_enqueue [OF assms(1,2), of k m ser] assms(3,5,6)
    by (simp add: enqueue_delayed_message_def merge_entry_def zadd_flag_of_def
        split: time_policy_t.splits payload_policy_t.splits)
qed

theorem idempotency_policies_witness:
  "pending ref_redis (snd (enqueue_delayed_message ref_redis (\<lambda>_. Inr ''new'') ''u'' None
     (sample_msg\<lparr>idempotency_key := Some ''a'', time_policy := TGreater\<rparr>)
     (enqueue_commands ref_redis ''a'' sample_msg ''old'' ref_empty))) ''a'' = Some (10, Some ''old'')"
proof -
  let ?s = "enqueue_commands ref_redis ''a'' sample_msg ''old'' ref_empty"
  have "pending ref_redis ?s ''a'' = Some (10, Some ''old'')"
    by (simp add: pending_def store_eval Let_def)
  from idempotency_policies [OF ref.redis_server_axioms ref.store_wf_enqueue [OF store_wf_ref_empty] _ _ this,
      of "sample_msg\<lparr>idempotency_key := Some ''a'', time_policy := TGreater\<rparr>" "\<lambda>_. Inr ''new''" "''new''" "''u''"]
  show ?thesis by (simp add: sample_msg_def)
qed

text \<open>
  A claim is bounded and fair: it returns at most \<open>batch_size\<close> messages, and no task left
  behind was due before one that was taken.
\<close>

theorem claim_bounded_and_earliest_first:
  assumes "redis_server r" and "0 \<le> n"
  shows "int (length (fst (dequeue_next_delayed_messages r load n now s))) \<le> n
    \<and> (\<forall>t u sc p sc' p'. t \<in> set (claimed_ids r now n s) \<and> pending r s t = Some (sc, p)
         \<and> pending r s u = Some (sc', p') \<and> sc' \<le> now \<and> u \<notin> set (claimed_ids r now n s) \<longrightarrow> sc \<le> sc')"
proof
  have "length (fst (dequeue_next_delayed_messages r load n now s)) \<le> length (claimed_ids r now n s)"
    using redis_server.length_dequeue [OF assms(1), of now n s]
    by (auto simp: dequeue_next_delayed_messages_def split_beta List.map_filter_def
        intro: le_trans [OF length_filter_le])
  then show "int (length (fst (dequeue_next_delayed_messages r load n now s))) \<le> n"
    using redis_server.claimed_bounded [OF assms(1,2), of now s] by linarith
qed (use redis_server.claimed_earliest [OF assms(1)] in blast)

theorem claim_bounded_and_earliest_first_witness:
  "int (length (fst (dequeue_next_delayed_messages ref_redis (\<lambda>_. Some sample_msg) 1 10 sample_store))) \<le> 1"
  using claim_bounded_and_earliest_first [OF ref.redis_server_axioms, of 1] by simp

text \<open>
  A backlog is drained: if at most \<open>k * batch_size\<close> tasks are due, then after \<open>k\<close> claims none
  is left.
\<close>

theorem backlog_drained:
  assumes "redis_server r" and "0 < batch_size" and "card (due_ids r now s) \<le> k * nat batch_size"
  shows "due_ids r now (drain_cycles r k now batch_size s) = {}"
  using redis_server.drain_cycles_empties [OF assms] .

theorem backlog_drained_witness:
  "due_ids ref_redis 10 (drain_cycles ref_redis 2 10 1 sample_store) = {}"
proof (rule backlog_drained [OF ref.redis_server_axioms])
  have "due_ids ref_redis 10 sample_store = set (claimed_ids ref_redis 10 (-1) sample_store)"
    unfolding ref.due_ids_eq by (rule ref.backend.due_eq_ids)
  also have "claimed_ids ref_redis 10 (-1) sample_store = [''b'', ''a'']"
    by (simp add: claimed_ids_def store_eval ref_zrangebyscore_def Let_def)
  finally show "card (due_ids ref_redis 10 sample_store) \<le> 2 * nat 1" by simp
qed simp

text \<open>
  Timestamps read back as written, per action, and writing one leaves the delayed messages
  alone.
\<close>

theorem last_dispatch_time_roundtrip:
  assumes "redis_server r"
  shows "get_last_dispatch_time r b (set_last_dispatch_time r a t s) =
      (if b = a then Inr (Some t) else get_last_dispatch_time r b s)
    \<and> pending r (set_last_dispatch_time r a t s) = pending r s"
proof -
  have "last_dispatch_time_key a \<noteq> delayed_messages_key"
    by (simp add: last_dispatch_time_key_def)
  then show ?thesis
    using redis_server.get_set [OF assms] redis_server.zscore_set [OF assms]
    by (auto simp: get_last_dispatch_time_def set_last_dispatch_time_def get_timestamp_def
        last_dispatch_time_key_def delayed_messages_metadata_key_def pending_def fun_eq_iff)
qed

theorem last_dispatch_time_roundtrip_witness:
  "get_last_dispatch_time ref_redis ''job'' (set_last_dispatch_time ref_redis ''job'' 1700 ref_empty)
     = Inr (Some 1700)"
  using last_dispatch_time_roundtrip [OF ref.redis_server_axioms, of "''job''" "''job''" 1700 ref_empty]
  by simp

end
