(* ===== verification/Beat_Lock.thy ===== *)
theory Beat_Lock
  imports Delayed_Store
begin

section \<open>The beat lock as a state machine\<close>

text \<open>
  \<open>RedisMessageBrokerBackend.lock\<close>: any number of beat workers run the acquisition loop, the guarded
  section and the release script against one server. A worker is identified by the token of its
  current attempt (\<open>str(uuid4())\<close>, never used before). The server may drop the key at any time, when
  its time to live runs out, while the holder is still inside; a worker may also leave without
  releasing (a crash, or a release the server did not get).
\<close>

record 's lock_sys =
  server :: 's
  inside :: "string set"  \<comment> \<open>tokens of the workers in the guarded section\<close>
  lapsed :: "string set"  \<comment> \<open>tokens whose key ran out of time to live\<close>
  used :: "string set"

definition lock_init :: "'s \<Rightarrow> 's lock_sys" where
  "lock_init s = \<lparr>server = s, inside = {}, lapsed = {}, used = {}\<rparr>"

inductive lock_step :: "'s redis \<Rightarrow> 's lock_sys \<Rightarrow> 's lock_sys \<Rightarrow> bool" for r where
  enter: "token \<notin> used S \<Longrightarrow> lock_acquire r token (server S) = (True, s') \<Longrightarrow>
    lock_step r S (S\<lparr>server := s', inside := insert token (inside S), used := insert token (used S)\<rparr>)"
| busy: "lock_acquire r token (server S) = (False, s') \<Longrightarrow> lock_step r S (S\<lparr>server := s'\<rparr>)"
| lapse: "r_get r beat_lock_key (server S) = Some token \<Longrightarrow>
    lock_step r S (S\<lparr>server := r_del r beat_lock_key (server S), lapsed := insert token (lapsed S)\<rparr>)"
| leave: "token \<in> inside S \<Longrightarrow>
    lock_step r S (S\<lparr>server := lock_release r token (server S), inside := inside S - {token}\<rparr>)"
| crash: "token \<in> inside S \<Longrightarrow> lock_step r S (S\<lparr>inside := inside S - {token}\<rparr>)"

inductive lock_reach :: "'s redis \<Rightarrow> 's lock_sys \<Rightarrow> bool" for r where
  init: "r_get r beat_lock_key s = None \<Longrightarrow> lock_reach r (lock_init s)"
| step: "lock_reach r S \<Longrightarrow> lock_step r S T \<Longrightarrow> lock_reach r T"

inductive_cases lock_stepE: "lock_step r S T"

text \<open>Every worker inside whose key has not lapsed is the one the server names.\<close>

definition lock_inv :: "'s redis \<Rightarrow> 's lock_sys \<Rightarrow> bool" where
  "lock_inv r S = (\<forall>t \<in> inside S - lapsed S. r_get r beat_lock_key (server S) = Some t)"

context redis_server
begin

lemma acquire_cases:
  "lock_acquire r token s =
     (if r_get r beat_lock_key s = None then (True, r_set r beat_lock_key token s) else (False, s))"
  by (simp add: lock_acquire_def set_nx)

lemma release_other: "r_get r beat_lock_key s \<noteq> Some token \<Longrightarrow> lock_release r token s = s"
  by (simp add: lock_release_def)

lemma lock_inv_step:
  assumes "lock_step r S T" "lock_inv r S"
  shows "lock_inv r T"
  using assms(1)
proof (cases rule: lock_step.cases)
  case (leave token)
  show ?thesis
    unfolding lock_inv_def
  proof
    fix t assume "t \<in> inside T - lapsed T"
    then have t: "t \<in> inside S - lapsed S" "t \<noteq> token" using leave by auto
    then have "r_get r beat_lock_key (server S) = Some t" using assms(2) by (simp add: lock_inv_def)
    with t show "r_get r beat_lock_key (server T) = Some t"
      using leave by (simp add: release_other)
  qed
qed (use assms(2) in \<open>auto simp: lock_inv_def acquire_cases get_set split: if_splits\<close>)

lemma lock_reach_inv: "lock_reach r S \<Longrightarrow> lock_inv r S"
  by (induction rule: lock_reach.induct) (auto simp: lock_inv_def lock_init_def dest: lock_inv_step)

lemma enter_free:
  "token \<notin> used S \<Longrightarrow> r_get r beat_lock_key (server S) = None \<Longrightarrow>
   lock_step r S (S\<lparr>server := r_set r beat_lock_key token (server S),
     inside := insert token (inside S), used := insert token (used S)\<rparr>)"
  by (rule lock_step.enter) (simp_all add: acquire_cases)

end

lemma ref_get_empty: "r_get ref_redis k ref_empty = None"
  by (simp add: ref_redis_def ref_empty_def)

lemma ref_lock_init: "lock_reach ref_redis (lock_init ref_empty)"
  by (simp add: lock_reach.init ref_redis_def ref_empty_def)

text \<open>
  (C5) Mutual exclusion up to the time to live: in every reachable state, two workers in the
  guarded section whose keys have not lapsed are the same worker.
\<close>

theorem beat_lock_mutual_exclusion:
  assumes "redis_server r" and "lock_reach r S"
    and "t \<in> inside S - lapsed S" and "u \<in> inside S - lapsed S"
  shows "t = u"
proof -
  have "r_get r beat_lock_key (server S) = Some v" if "v \<in> inside S - lapsed S" for v
    using redis_server.lock_reach_inv [OF assms(1,2)] that by (simp add: lock_inv_def)
  from this [OF assms(3)] this [OF assms(4)] show ?thesis by simp
qed

theorem beat_lock_mutual_exclusion_witness:
  "\<exists>S. lock_reach ref_redis S \<and> inside S - lapsed S = {''t1''}
     \<and> (\<forall>u \<in> inside S - lapsed S. ''t1'' = u)"
proof -
  define S where "S = (lock_init ref_empty)\<lparr>
     server := r_set ref_redis beat_lock_key ''t1'' ref_empty, inside := {''t1''}, used := {''t1''}\<rparr>"
  have "lock_step ref_redis (lock_init ref_empty) S"
    using ref.enter_free [of "''t1''" "lock_init ref_empty"] ref_get_empty
    by (simp add: S_def lock_init_def)
  then have reach: "lock_reach ref_redis S"
    by (rule lock_reach.step [OF ref_lock_init])
  have in_S: "inside S - lapsed S = {''t1''}" by (simp add: S_def lock_init_def)
  then have "\<forall>u \<in> inside S - lapsed S. ''t1'' = u"
    using beat_lock_mutual_exclusion [OF ref.redis_server_axioms reach, of "''t1''"] by blast
  with reach in_S show ?thesis by blast
qed

text \<open>
  A worker whose key lapsed cannot release the lock of the worker that took over: the release
  script is a no-op unless the key still holds the worker's own token.
\<close>

theorem stale_release_is_noop:
  assumes "redis_server r" and "lock_reach r S" and "t \<in> inside S" and "u \<in> inside S - lapsed S"
    and "t \<noteq> u"
  shows "lock_release r t (server S) = server S"
proof -
  have "r_get r beat_lock_key (server S) = Some u"
    using redis_server.lock_reach_inv [OF assms(1,2)] assms(4) by (simp add: lock_inv_def)
  then show ?thesis using assms(5) by (simp add: lock_release_def)
qed

theorem stale_release_is_noop_witness:
  "\<exists>S. lock_reach ref_redis S \<and> ''old'' \<in> inside S \<and> ''new'' \<in> inside S - lapsed S
     \<and> lock_release ref_redis ''old'' (server S) = server S"
proof -
  let ?k = "beat_lock_key" and ?r = "ref_redis"
  define S1 where "S1 = (lock_init ref_empty)\<lparr>
     server := r_set ?r ?k ''old'' ref_empty, inside := {''old''}, used := {''old''}\<rparr>"
  define S2 where "S2 = S1\<lparr>server := r_del ?r ?k (server S1), lapsed := {''old''}\<rparr>"
  define S3 where "S3 = S2\<lparr>server := r_set ?r ?k ''new'' (server S2), inside := {''new'', ''old''},
     used := {''new'', ''old''}\<rparr>"
  have s1: "lock_step ?r (lock_init ref_empty) S1"
    using ref.enter_free [of "''old''" "lock_init ref_empty"] ref_get_empty
    by (simp add: S1_def lock_init_def)
  have s2: "lock_step ?r S1 S2"
    using lock_step.lapse [of ?r S1 "''old''"]
    by (simp add: S2_def S1_def lock_init_def ref.get_set)
  have s3: "lock_step ?r S2 S3"
    using ref.enter_free [of "''new''" S2]
    by (simp add: S3_def S2_def S1_def lock_init_def ref.get_del)
  have reach: "lock_reach ?r S3"
    using ref_lock_init s1 s2 s3 by (blast intro: lock_reach.step)
  have "lock_release ?r ''old'' (server S3) = server S3"
    by (rule stale_release_is_noop [OF ref.redis_server_axioms reach, of _ "''new''"])
      (simp_all add: S3_def S2_def S1_def lock_init_def)
  with reach show ?thesis
    by (intro exI [of _ S3]) (simp add: S3_def S2_def S1_def lock_init_def)
qed

lemma lock_poll_last:
  assumes "polls \<noteq> []" "deadline \<le> snd (last polls)"
  shows "\<exists>out. lock_poll deadline polls = Some out"
  using assms by (induction deadline polls rule: lock_poll.induct) (auto split: if_splits)

lemma lock_poll_Acquired:
  "lock_poll deadline polls = Some LockAcquired \<Longrightarrow> \<exists>now. (True, now) \<in> set polls"
  by (induction deadline polls rule: lock_poll.induct) (auto split: if_splits)

text \<open>
  The acquisition loop ends: if the clock advances by at least the 0.05 seconds the code
  sleeps between two rounds, a loop that starts at \<open>start\<close> decides within
  \<open>timeout / 0.05 + 1\<close> rounds, and it never reports success without having set the key.
\<close>

theorem lock_poll_decides:
  assumes "\<forall>i < length polls. start + 1/20 * of_nat i \<le> snd (polls ! i)"
    and "0 < length polls" and "timeout \<le> 1/20 * of_nat (length polls - 1)"
  shows "\<exists>out. lock_poll (start + timeout) polls = Some out
           \<and> (out = LockAcquired \<longrightarrow> (\<exists>now. (True, now) \<in> set polls))"
proof -
  have "start + 1/20 * of_nat (length polls - 1) \<le> snd (last polls)"
    using assms(1,2) by (simp add: last_conv_nth)
  with assms(3) have "start + timeout \<le> snd (last polls)" by linarith
  then obtain out where "lock_poll (start + timeout) polls = Some out"
    using lock_poll_last assms(2) by blast
  with lock_poll_Acquired show ?thesis by blast
qed

theorem lock_poll_decides_witness:
  "\<exists>out. lock_poll (0 + 1/10) [(False, 0), (False, 1/20), (False, 1/10)] = Some out"
  using lock_poll_decides [of "[(False, 0), (False, 1/20), (False, 1/10)]" 0 "1/10"]
  by (auto simp: less_Suc_eq numeral_3_eq_3)

end
