(* ===== verification/Message_Handling.thy ===== *)
theory Message_Handling
  imports Delayed_Store Retry
begin

section \<open>Handling one message\<close>

text \<open>
  \<open>MessageHandlerCallback\<close> and \<open>AioPikaMessageBusController\<close> of \<^verbatim>\<open>messagebus/worker.py\<close>: what happens to
  one delivery from the moment a processing slot is granted until the unit of work is left.

  Everything the code awaits outside the repository is an entry of the call log of \<open>bus\<close> with an
  arbitrary answer: settling the delivery (\<open>ack\<close>, \<open>nack\<close>, \<open>reject\<close>), storing a delayed copy, waiting,
  the configured exception handler, and entering and leaving the unit of work. A user handler is a
  tree of the controller operations it performs, each followed by a continuation that sees the
  exception the operation raised, if any.
\<close>

subsection \<open>Data\<close>

record incoming =
  in_headers :: headers
  in_body :: string
  in_message_id :: "string option"
  in_content_type :: "string option"
  in_content_encoding :: "string option"

text \<open>The options of the \<open>MessageHandler\<close> decorator that the callback reads.\<close>

record handler_spec =
  spec_timeout :: "rat option"
  spec_exception_handler :: bool  \<comment> \<open>whether one is configured\<close>
  spec_nack_on_exception :: bool
  spec_nack_delay_on_exception :: rat
  spec_retry_config :: "retry_policy option"

datatype handler_mode = WRAPPED | DIRECT

text \<open>
  \<open>MessageHandlerCallback\<close>: \<open>cb_topic\<close> is the \<open>MESSAGE_TOPIC\<close> of the handler's message type, and
  \<open>cb_consumer_retry_policy\<close> the policy of the consumer's configuration.
\<close>

record callback =
  cb_queue_name :: "string option"
  cb_topic :: string
  cb_mode :: handler_mode
  cb_spec :: handler_spec
  cb_consumer_retry_policy :: retry_policy

datatype bus_call =
    Ack | Nack | Reject bool | Enqueue delayed
  | WaitDelay rat | ExceptionHandler exc
  | UowEnter | UowExit "exc option"

datatype metric = MInflight int | MProcessed bool | MProcessingTime bool | MSpanStatus bool

text \<open>
  The state of a run: the call log, the controller's \<open>_disposition\<close> and \<open>_callback\<close> (here whether it
  was found), and the metrics.
\<close>

record bus = "(bus_call, exc option) world" +
  disposed :: "disposition option"
  callback_cached :: bool
  metrics :: "metric list"

text \<open>
  What is read from outside without a call, by the position in the log: \<open>time.time()\<close>,
  \<open>random.random()\<close>, \<open>str(uuid4())\<close>, the implicit headers of the context, and whether the walk over the
  frames finds the callback.
\<close>

record bus_env =
  clock :: "nat \<Rightarrow> rat"
  rnd :: "nat \<Rightarrow> rat"
  fresh :: "nat \<Rightarrow> string"
  implicit :: "nat \<Rightarrow> headers"
  frame_found :: "nat \<Rightarrow> bool"

definition emit :: "metric \<Rightarrow> bus \<Rightarrow> bus" where
  "emit m s = s\<lparr>metrics := metrics s @ [m]\<rparr>"

definition now_of :: "(nat \<Rightarrow> 'a) \<Rightarrow> bus \<Rightarrow> 'a" where
  "now_of f s = f (length (calls s))"

subsection \<open>Headers\<close>

text \<open>\<open>isinstance(v, (str, int, float, bool))\<close>\<close>

fun plain_value :: "hval \<Rightarrow> bool" where
  "plain_value HNone = False"
| "plain_value (HOther v) = False"
| "plain_value _ = True"

fun hval_str :: "hval \<Rightarrow> string" where
  "hval_str (HStr v) = v"
| "hval_str (HInt i) = str_int i"
| "hval_str (HFloat v) = v"
| "hval_str (HBool b) = (if b then ''True'' else ''False'')"
| "hval_str HNone = ''None''"
| "hval_str (HOther v) = v"

definition get_retry_count :: "incoming \<Rightarrow> int result" where
  "get_retry_count msg =
     (let v = (case map_of (in_headers msg) ''x-retry-count'' of Some v \<Rightarrow> v | None \<Rightarrow> HInt 0)
      in case py_int (hval_str v) of
           Some n \<Rightarrow> Inr n
         | None \<Rightarrow> Inl (Exc ValueError ''invalid literal for int() with base 10''))"

definition provide_implicit_headers :: "bool \<Rightarrow> headers \<Rightarrow> headers \<Rightarrow> headers" where
  "provide_implicit_headers reset new previous = dict_update (if reset then [] else previous) new"

definition forwardable_headers :: "incoming \<Rightarrow> headers" where
  "forwardable_headers msg = filter (\<lambda>(k, v). plain_value v) (in_headers msg)"

definition retry_headers :: "incoming \<Rightarrow> headers \<Rightarrow> int \<Rightarrow> exc option \<Rightarrow> headers" where
  "retry_headers msg tracing retry_count exception =
     (let h0 = dict_update [] (forwardable_headers msg);
          h1 = dict_update h0 (filter (\<lambda>(k, v). v \<noteq> HNone) tracing);
          h2 = dict_set ''x-retry-count'' (HInt (retry_count + 1)) h1
      in case exception of
           Some e \<Rightarrow> dict_set ''x-last-error'' (HStr (exc_str e)) h2
         | None \<Rightarrow> h2)"

subsection \<open>Retrying and rejecting\<close>

definition py_trunc :: "rat \<Rightarrow> int" where
  "py_trunc x = (if 0 \<le> x then \<lfloor>x\<rfloor> else \<lceil>x\<rceil>)"

definition policy_of :: "callback \<Rightarrow> retry_policy" where
  "policy_of cb = (case spec_retry_config (cb_spec cb) of
     Some p \<Rightarrow> p | None \<Rightarrow> cb_consumer_retry_policy cb)"

definition retry_copy ::
  "callback \<Rightarrow> incoming \<Rightarrow> string \<Rightarrow> headers \<Rightarrow> rat \<Rightarrow> rat \<Rightarrow> delayed" where
  "retry_copy cb msg msg_id hs time delay =
     \<lparr>message_topic = cb_topic cb, idempotency_key = None, dispatch_time = py_trunc (time + delay),
      payload = in_body msg, headers = Some hs, target_queue = cb_queue_name cb,
      message_id = Some msg_id, content_type = in_content_type msg,
      payload_policy = PIgnore, time_policy = TReplace,
      content_encoding = in_content_encoding msg\<rparr>"

definition dead_letter :: "bus \<Rightarrow> bool result \<times> bus" where
  "dead_letter s =
     (let (a, s1) = do_call (Reject False) s
      in (case swallow a of Some e \<Rightarrow> Inl e | None \<Rightarrow> Inr False, s1))"

text \<open>The copy is stored first; the original is acknowledged only then.\<close>

definition hand_off :: "delayed \<Rightarrow> bus \<Rightarrow> bool result \<times> bus" where
  "hand_off m s =
     (let (a, s1) = do_call (Enqueue m) s
      in case a of
           None \<Rightarrow> (let (b, s2) = do_call Ack s1
                    in (case swallow b of Some e \<Rightarrow> Inl e | None \<Rightarrow> Inr True, s2))
         | Some e \<Rightarrow>
             if is_Exception e
             then (let (b, s2) = do_call (Reject True) s1
                   in (case swallow b of Some e' \<Rightarrow> Inl e' | None \<Rightarrow> Inr False, s2))
             else (Inl e, s1))"

definition schedule_retry ::
  "callback \<Rightarrow> bus_env \<Rightarrow> incoming \<Rightarrow> int \<Rightarrow> rat option \<Rightarrow> exc option \<Rightarrow> bus \<Rightarrow> bool result \<times> bus" where
  "schedule_retry cb env msg retry_count delay exception s =
     (let retry_config = policy_of cb;
          msg_id = str_or (in_message_id msg) (now_of (fresh env) s)
      in if max_retries retry_config \<le> retry_count then dead_letter s
         else case (case delay of
                      Some d \<Rightarrow> Inr d
                    | None \<Rightarrow> compute_retry_delay retry_config retry_count (now_of (rnd env) s)) of
                Inl e \<Rightarrow> (Inl e, s)
              | Inr d \<Rightarrow>
                  hand_off
                    (retry_copy cb msg msg_id
                       (retry_headers msg (now_of (implicit env) s) retry_count exception)
                       (now_of (clock env) s) d) s)"

definition handle_reject_message ::
  "callback \<Rightarrow> bus_env \<Rightarrow> incoming \<Rightarrow> rat \<Rightarrow> bool \<Rightarrow> int \<Rightarrow> exc option \<Rightarrow> bus \<Rightarrow> exc option \<times> bus" where
  "handle_reject_message cb env msg requeue_timeout requeue retry_count exception s =
     (if \<not> requeue \<and> spec_nack_on_exception (cb_spec cb) \<and> exception \<noteq> None
      then (case schedule_retry cb env msg retry_count None exception s of
              (Inl e, s1) \<Rightarrow> (swallow (Some e), s1)
            | (Inr b, s1) \<Rightarrow> (None, s1))
      else (let (a, s1) = do_call (WaitDelay requeue_timeout) s
            in case a of
                 Some e \<Rightarrow> (swallow (Some e), s1)
               | None \<Rightarrow> (let (b, s2) = do_call (Reject requeue) s1 in (swallow b, s2))))"

subsection \<open>The controller a handler may use\<close>

datatype ctl_op = CAck | CNack | CReject | CRetry rat | CRetryLater int

datatype handler = HReturn | HRaise exc | HCtl ctl_op "exc option \<Rightarrow> handler"

definition get_callback :: "bus_env \<Rightarrow> bus \<Rightarrow> exc option \<times> bus" where
  "get_callback env s =
     (if callback_cached s then (None, s)
      else if now_of (frame_found env) s then (None, s\<lparr>callback_cached := True\<rparr>)
      else (Some (Exc RuntimeError ''Could not find callback context for message retry''), s))"

text \<open>\<open>with suppress(aio_pika.MessageProcessError): await reject(requeue=True)\<close>\<close>

definition requeue_fallback :: "bus \<Rightarrow> exc option \<times> bus" where
  "requeue_fallback s =
     (let (a, s1) = do_call (Reject True) s
      in (case a of
            Some e \<Rightarrow> if exc_cls e = MessageProcessError then None else Some e
          | None \<Rightarrow> None, s1))"

definition schedule_retry_ctl ::
  "callback \<Rightarrow> bus_env \<Rightarrow> incoming \<Rightarrow> rat \<Rightarrow> bus \<Rightarrow> exc option \<times> bus" where
  "schedule_retry_ctl cb env msg delay s =
     (case get_callback env s of
        (Some e, s1) \<Rightarrow> requeue_fallback s1
      | (None, s1) \<Rightarrow>
          (case get_retry_count msg of
             Inl e \<Rightarrow> requeue_fallback s1
           | Inr n \<Rightarrow>
               (case schedule_retry cb env msg n (Some delay) None s1 of
                  (Inl e, s2) \<Rightarrow> if is_Exception e then requeue_fallback s2 else (Some e, s2)
                | (Inr b, s2) \<Rightarrow> (None, s2))))"

text \<open>\<open>_dispose\<close>\<close>

definition dispose :: "disposition \<Rightarrow> exc option \<times> bus \<Rightarrow> exc option \<times> bus" where
  "dispose d r =
     (case r of
        (Some e, s) \<Rightarrow> (Some e, s)
      | (None, s) \<Rightarrow> (Some (Exc (MessageDisposed d) ''Message disposed by the handler''),
                      s\<lparr>disposed := Some d\<rparr>))"

fun ctl_step :: "callback \<Rightarrow> bus_env \<Rightarrow> incoming \<Rightarrow> ctl_op \<Rightarrow> bus \<Rightarrow> exc option \<times> bus" where
  "ctl_step cb env msg CAck s =
     (case do_call Ack s of
        (Some e, s1) \<Rightarrow> (Some e, s1)
      | (None, s1) \<Rightarrow> (None, s1\<lparr>disposed := Some DAck\<rparr>))"
| "ctl_step cb env msg CNack s = dispose DNack (do_call Nack s)"
| "ctl_step cb env msg CReject s = dispose DReject (do_call (Reject False) s)"
| "ctl_step cb env msg (CRetry delay) s = dispose DRetry (schedule_retry_ctl cb env msg delay s)"
| "ctl_step cb env msg (CRetryLater delay) s =
     dispose DRetry (schedule_retry_ctl cb env msg (of_int delay) s)"

primrec run_handler ::
  "callback \<Rightarrow> bus_env \<Rightarrow> incoming \<Rightarrow> handler \<Rightarrow> bus \<Rightarrow> exc option \<times> bus" where
  "run_handler cb env msg HReturn = (\<lambda>s. (None, s))"
| "run_handler cb env msg (HRaise e) = (\<lambda>s. (Some e, s))"
| "run_handler cb env msg (HCtl op k) = (\<lambda>s.
     (case ctl_step cb env msg op s of (r, s1) \<Rightarrow> run_handler cb env msg (k r) s1))"

subsection \<open>\<open>handle_message\<close>\<close>

text \<open>\<open>AioPikaMessage.payload\<close>: \<open>model_validate_json\<close> accepts, raises \<open>ValidationError\<close>, or raises otherwise.\<close>

datatype validation = Valid | ValidationError string | ValidateRaises exc

fun payload_error :: "validation \<Rightarrow> exc option" where
  "payload_error Valid = None"
| "payload_error (ValidationError m) = Some (Exc MessagePayloadValidationError m)"
| "payload_error (ValidateRaises e) = Some e"

text \<open>
  The body of the inner \<open>try\<close>: in \<open>DIRECT\<close> mode the payload is parsed before the handler is called;
  a handler that returns without having settled the delivery has it acknowledged.
\<close>

definition ack_unless_settled :: "bus \<Rightarrow> exc option \<times> bus" where
  "ack_unless_settled s =
     (if disposed s = None
      then (case do_call Ack s of
              (None, s1) \<Rightarrow> (None, emit (MSpanStatus True) s1)
            | (Some e, s1) \<Rightarrow> (swallow (Some e), s1))
      else (None, emit (MSpanStatus True) s))"

definition try_body ::
  "callback \<Rightarrow> bus_env \<Rightarrow> incoming \<Rightarrow> validation \<Rightarrow> handler \<Rightarrow> bus \<Rightarrow> exc option \<times> bus" where
  "try_body cb env msg v h s =
     (case (if cb_mode cb = DIRECT then payload_error v else None) of
        Some e \<Rightarrow> (Some e, s)
      | None \<Rightarrow>
          (case run_handler cb env msg h s of
             (Some e, s1) \<Rightarrow> (Some e, s1)
           | (None, s1) \<Rightarrow>
               (case ack_unless_settled s1 of
                  (Some e, s2) \<Rightarrow> (Some e, s2)
                | (None, s2) \<Rightarrow> (None, emit (MProcessed True) s2))))"

definition on_disposed :: "bus \<Rightarrow> exc option \<times> bus" where
  "on_disposed s = (None, emit (MProcessed False) (emit (MSpanStatus False) s))"

definition on_validation_error :: "bus \<Rightarrow> exc option \<times> bus" where
  "on_validation_error s =
     (let s1 = emit (MProcessed False) (emit (MSpanStatus False) s)
      in if disposed s1 = None
         then (let (a, s2) = do_call (Reject False) s1 in (swallow a, s2))
         else (None, s1))"

definition on_exception ::
  "callback \<Rightarrow> bus_env \<Rightarrow> incoming \<Rightarrow> int \<Rightarrow> exc \<Rightarrow> bus \<Rightarrow> exc option \<times> bus" where
  "on_exception cb env msg retry_count base_exc s =
     (let s1 = emit (MProcessed False) (emit (MSpanStatus False) s);
          spec = cb_spec cb;
          (r, s2) = (if spec_exception_handler spec
                     then (let (a, t) = do_call (ExceptionHandler base_exc) s1 in (swallow a, t))
                     else (None, s1))
      in case r of
           Some e \<Rightarrow> (Some e, s2)
         | None \<Rightarrow>
             if spec_nack_on_exception spec
             then handle_reject_message cb env msg (spec_nack_delay_on_exception spec) False
                    retry_count (Some base_exc) s2
             else handle_reject_message cb env msg (spec_nack_delay_on_exception spec) False
                    0 (Some base_exc) s2)"

text \<open>The \<open>except\<close> clauses in their order; what none of them catches leaves the \<open>try\<close>.\<close>

definition except_clauses ::
  "callback \<Rightarrow> bus_env \<Rightarrow> incoming \<Rightarrow> int \<Rightarrow> exc \<Rightarrow> bus \<Rightarrow> exc option \<times> bus" where
  "except_clauses cb env msg retry_count e s =
     (case exc_cls e of
        MessageDisposed d \<Rightarrow> on_disposed s
      | MessagePayloadValidationError \<Rightarrow> on_validation_error s
      | _ \<Rightarrow> if is_Exception e then on_exception cb env msg retry_count e s else (Some e, s))"

definition process_message ::
  "callback \<Rightarrow> bus_env \<Rightarrow> incoming \<Rightarrow> int \<Rightarrow> validation \<Rightarrow> handler \<Rightarrow> bus \<Rightarrow> exc option \<times> bus" where
  "process_message cb env msg retry_count v h s =
     (let (r, s1) = try_body cb env msg v h s;
          (r2, s2) = (case r of None \<Rightarrow> (None, s1)
                      | Some e \<Rightarrow> except_clauses cb env msg retry_count e s1)
      in case r2 of
           Some e \<Rightarrow> (swallow (Some e), s2)
         | None \<Rightarrow> (None, emit (MProcessingTime (r = None)) (emit (MInflight (-1)) s2)))"

text \<open>
  Leaving \<open>asyncio.timeout\<close>: the cancellation it caused (\<open>expired\<close>) becomes a \<open>TimeoutError\<close>.
\<close>

definition timeout_exit :: "handler_spec \<Rightarrow> bool \<Rightarrow> exc option \<Rightarrow> exc option" where
  "timeout_exit spec expired r =
     (case r of
        Some e \<Rightarrow> if spec_timeout spec \<noteq> None \<and> expired \<and> exc_cls e = CancelledError
                  then Some (Exc TimeoutError []) else Some e
      | None \<Rightarrow> None)"

definition handle_message ::
  "callback \<Rightarrow> bus_env \<Rightarrow> incoming \<Rightarrow> validation \<Rightarrow> bool \<Rightarrow> handler \<Rightarrow> bus \<Rightarrow> exc option \<times> bus" where
  "handle_message cb env msg v expired h s =
     (if cb_queue_name cb = None then handle_reject_message cb env msg 0 False 0 None s
      else case get_retry_count msg of
        Inl e \<Rightarrow> (Some e, s)
      | Inr retry_count \<Rightarrow>
          (case do_call UowEnter s of
             (Some e, s1) \<Rightarrow> (Some e, s1)
           | (None, s1) \<Rightarrow>
               (let (r, s2) = process_message cb env msg retry_count v h (emit (MInflight 1) s1);
                    r' = timeout_exit (cb_spec cb) expired r
                in do_call (UowExit r') s2)))"


subsection \<open>The call log\<close>

lemma emit_simps [simp]:
  "calls (emit m s) = calls s" "answers (emit m s) = answers s" "disposed (emit m s) = disposed s"
  "callback_cached (emit m s) = callback_cached s" "metrics (emit m s) = metrics s @ [m]"
  "emit m (s\<lparr>calls := cs\<rparr>) = (emit m s)\<lparr>calls := cs\<rparr>"
  by (simp_all add: emit_def)

text \<open>The definitions that only arrange calls, for runs that are followed step by step.\<close>

lemmas settle_defs = schedule_retry_def handle_reject_message_def hand_off_def dead_letter_def
  on_exception_def on_validation_error_def on_disposed_def ack_unless_settled_def

lemmas run_defs = handle_message_def process_message_def try_body_def except_clauses_def
  timeout_exit_def settle_defs

fun settles :: "bus_call \<Rightarrow> bool" where
  "settles Ack = True"
| "settles Nack = True"
| "settles (Reject b) = True"
| "settles _ = False"

text \<open>\<open>m\<close> redelivers \<open>msg\<close> to the queue of \<open>cb\<close> with the attempt counter \<open>n + 1\<close>.\<close>

definition redelivers :: "callback \<Rightarrow> incoming \<Rightarrow> int \<Rightarrow> delayed \<Rightarrow> bool" where
  "redelivers cb msg n m =
     (payload m = in_body msg \<and> target_queue m = cb_queue_name cb \<and> message_topic m = cb_topic cb
      \<and> (\<exists>hs. headers m = Some hs \<and> map_of hs ''x-retry-count'' = Some (HInt (n + 1))))"

lemma retry_headers_count:
  "map_of (retry_headers msg tracing n exception) ''x-retry-count'' = Some (HInt (n + 1))"
  by (simp add: retry_headers_def Let_def split: option.splits)

lemma retry_copy_redelivers:
  "redelivers cb msg n (retry_copy cb msg i (retry_headers msg tracing n exception) t d)"
  by (simp add: redelivers_def retry_copy_def retry_headers_count)

text \<open>Every acknowledgement in the log directly follows the stored copy that replaces the delivery.\<close>

definition ack_backed :: "callback \<Rightarrow> incoming \<Rightarrow> int \<Rightarrow> bus \<Rightarrow> nat \<Rightarrow> bool" where
  "ack_backed cb msg n s i =
     (0 < i \<and> answers s (i - 1) = None
      \<and> (\<exists>m. calls s ! (i - 1) = Enqueue m \<and> redelivers cb msg n m))"

definition acks_backed :: "callback \<Rightarrow> incoming \<Rightarrow> int \<Rightarrow> bus \<Rightarrow> bool" where
  "acks_backed cb msg n s = (\<forall>i < length (calls s). calls s ! i = Ack \<longrightarrow> ack_backed cb msg n s i)"

lemma acks_backed_cong:
  "calls s = calls t \<Longrightarrow> answers s = answers t \<Longrightarrow> acks_backed cb msg n s = acks_backed cb msg n t"
  by (simp add: acks_backed_def ack_backed_def)

lemma acks_backed_emit [simp]: "acks_backed cb msg n (emit m s) = acks_backed cb msg n s"
  by (rule acks_backed_cong) simp_all

lemma acks_backed_emit_calls [simp]:
  "acks_backed cb msg n ((emit m s)\<lparr>calls := cs\<rparr>) = acks_backed cb msg n (s\<lparr>calls := cs\<rparr>)"
  by (rule acks_backed_cong) simp_all

lemma acks_backed_update [simp]:
  "acks_backed cb msg n (s\<lparr>disposed := d\<rparr>) = acks_backed cb msg n s"
  "acks_backed cb msg n (s\<lparr>callback_cached := b\<rparr>) = acks_backed cb msg n s"
  by (rule acks_backed_cong; simp)+

lemma ack_backed_snoc:
  "i \<le> length (calls s) \<Longrightarrow> ack_backed cb msg n (s\<lparr>calls := calls s @ [c]\<rparr>) i = ack_backed cb msg n s i"
  by (cases i) (simp_all add: ack_backed_def nth_append)

lemma acks_backed_snoc [simp]:
  "acks_backed cb msg n (s\<lparr>calls := calls s @ [c]\<rparr>) \<longleftrightarrow>
     acks_backed cb msg n s \<and> (c = Ack \<longrightarrow> ack_backed cb msg n s (length (calls s)))"
  by (auto simp: acks_backed_def ack_backed_snoc nth_append less_Suc_eq)

lemma acks_backed_hand_off:
  "acks_backed cb msg n s \<Longrightarrow> redelivers cb msg n m \<Longrightarrow> acks_backed cb msg n (snd (hand_off m s))"
  using acks_backed_snoc [of cb msg n "s\<lparr>calls := calls s @ [Enqueue m]\<rparr>" Ack]
    acks_backed_snoc [of cb msg n "s\<lparr>calls := calls s @ [Enqueue m]\<rparr>" "Reject True"]
  by (auto simp: hand_off_def call_simps ack_backed_def nth_append split: option.splits)

lemma acks_backed_schedule_retry:
  "acks_backed cb msg n s \<Longrightarrow> acks_backed cb msg n (snd (schedule_retry cb env msg n d x s))"
  by (auto simp: schedule_retry_def Let_def dead_letter_def acks_backed_hand_off retry_copy_redelivers
      call_simps split: sum.split)

text \<open>
  A handler that never acknowledges the delivery itself and never returns normally, whatever the
  operations of the controller answer.
\<close>

primrec gives_back :: "handler \<Rightarrow> bool" where
  "gives_back HReturn = False"
| "gives_back (HRaise e) = True"
| "gives_back (HCtl op k) = (op \<noteq> CAck \<and> (\<forall>r. gives_back (k r)))"

lemma acks_backed_fallback: "acks_backed cb msg n s \<Longrightarrow> acks_backed cb msg n (snd (requeue_fallback s))"
  by (simp add: requeue_fallback_def call_simps)

lemma acks_backed_schedule_ctl:
  assumes "acks_backed cb msg n s" "get_retry_count msg = Inr n"
  shows "acks_backed cb msg n (snd (schedule_retry_ctl cb env msg d s))"
proof -
  obtain r s1 where g: "get_callback env s = (r, s1)" by fastforce
  then have s1: "acks_backed cb msg n s1"
    using assms(1) by (auto simp: get_callback_def split: if_splits)
  obtain q s2 where q: "schedule_retry cb env msg n (Some d) None s1 = (q, s2)" by fastforce
  then have "acks_backed cb msg n s2"
    using acks_backed_schedule_retry [OF s1, of env "Some d" None] by simp
  with g q s1 assms(2) show ?thesis
    by (auto simp: schedule_retry_ctl_def acks_backed_fallback split: option.split sum.split)
qed

lemma acks_backed_dispose [simp]:
  "acks_backed cb msg n (snd (dispose d r)) = acks_backed cb msg n (snd r)"
  by (simp add: dispose_def split: prod.split option.split)

lemma acks_backed_ctl_step:
  assumes "acks_backed cb msg n s" "get_retry_count msg = Inr n" "op \<noteq> CAck"
  shows "acks_backed cb msg n (snd (ctl_step cb env msg op s))"
  using assms by (cases op) (simp_all add: acks_backed_schedule_ctl call_simps)

lemma run_handler_gives_back:
  assumes "get_retry_count msg = Inr n"
  shows "gives_back h \<Longrightarrow> acks_backed cb msg n s \<Longrightarrow> run_handler cb env msg h s = (r, s') \<Longrightarrow>
    r \<noteq> None \<and> acks_backed cb msg n s'"
proof (induction h arbitrary: s)
  case (HCtl op k)
  obtain q s1 where q: "ctl_step cb env msg op s = (q, s1)" by fastforce
  then have "acks_backed cb msg n s1"
    using acks_backed_ctl_step [OF HCtl.prems(2) assms, of op env] HCtl.prems(1) by simp
  then show ?case using HCtl.IH [of "k q" s1] HCtl.prems q by simp
qed auto

lemma acks_backed_except:
  assumes "acks_backed cb msg n s"
  shows "acks_backed cb msg n (snd (except_clauses cb env msg n e s))"
proof -
  have rej: "acks_backed cb msg n (snd (handle_reject_message cb env msg d False m (Some x) t))"
    if "acks_backed cb msg n t" "m = n \<or> \<not> spec_nack_on_exception (cb_spec cb)" for d m x t
    using that acks_backed_schedule_retry [OF that(1), of env None "Some x"]
      acks_backed_snoc [of cb msg n "t\<lparr>calls := calls t @ [WaitDelay d]\<rparr>" "Reject False"]
    by (auto simp: handle_reject_message_def call_simps split: prod.split sum.split option.split)
  have "acks_backed cb msg n (snd (on_exception cb env msg n e s))"
    using assms rej by (auto simp: on_exception_def Let_def call_simps split: option.split)
  moreover have "acks_backed cb msg n (snd (on_validation_error s))"
    using assms by (auto simp: on_validation_error_def Let_def call_simps)
  ultimately show ?thesis
    using assms by (auto simp: except_clauses_def on_disposed_def split: exc_class.split)
qed

text \<open>A concrete delivery, for the runs below.\<close>

definition sample_callback :: callback where
  "sample_callback = \<lparr>cb_queue_name = Some ''q'', cb_topic = ''topic'', cb_mode = WRAPPED,
     cb_spec = \<lparr>spec_timeout = Some 30, spec_exception_handler = False,
       spec_nack_on_exception = True, spec_nack_delay_on_exception = 5, spec_retry_config = None\<rparr>,
     cb_consumer_retry_policy = \<lparr>max_retries = 15, initial_delay = 1/2, max_delay = 40,
       backoff_factor = 2, jitter = False\<rparr>\<rparr>"

definition sample_incoming :: "int \<Rightarrow> incoming" where
  "sample_incoming n = \<lparr>in_headers = [(''x-retry-count'', HInt n), (''tenant'', HStr ''acme'')],
     in_body = ''body'', in_message_id = Some ''id'', in_content_type = None,
     in_content_encoding = None\<rparr>"

definition sample_env :: bus_env where
  "sample_env = \<lparr>clock = (\<lambda>_. 100), rnd = (\<lambda>_. 1/2), fresh = (\<lambda>_. ''uuid''),
     implicit = (\<lambda>_. []), frame_found = (\<lambda>_. True)\<rparr>"

definition sample_bus :: bus where
  "sample_bus = \<lparr>calls = [], answers = (\<lambda>_. None), disposed = None, callback_cached = False,
     metrics = []\<rparr>"

abbreviation boom :: exc where
  "boom \<equiv> Exc KeyError ''boom''"

lemma sample_count [simp]: "get_retry_count (sample_incoming n) = Inr n"
  by (simp add: get_retry_count_def sample_incoming_def)

lemmas sample_defs = sample_callback_def sample_incoming_def sample_env_def sample_bus_def

text \<open>
  (C1) No failed message is lost: when the handler gives the delivery back or fails, in whatever way
  the broker and the store answer, the delivery is acknowledged only directly after a copy of it
  with the attempt counter incremented has been stored.
\<close>

theorem failed_message_never_lost:
  assumes "gives_back h" and "get_retry_count msg = Inr n" and "calls s = []"
  shows "acks_backed cb msg n (snd (handle_message cb env msg v expired h s))"
proof (cases "cb_queue_name cb")
  case None
  have "acks_backed cb msg n s" using assms(3) by (simp add: acks_backed_def)
  then show ?thesis
    using None acks_backed_snoc [of cb msg n "s\<lparr>calls := calls s @ [WaitDelay 0]\<rparr>" "Reject False"]
    by (simp add: handle_message_def handle_reject_message_def call_simps split: option.split)
next
  case (Some q)
  define s1 where "s1 = emit (MInflight 1) (s\<lparr>calls := [UowEnter]\<rparr>)"
  have s1: "acks_backed cb msg n s1"
    unfolding s1_def using assms(3) by (simp add: acks_backed_def)
  have proc: "acks_backed cb msg n (snd (process_message cb env msg n v h s1))"
  proof -
    obtain r s2 where t: "try_body cb env msg v h s1 = (r, s2)" by fastforce
    have "r \<noteq> None \<and> acks_backed cb msg n s2"
    proof (cases "if cb_mode cb = DIRECT then payload_error v else None")
      case None
      then show ?thesis
        using t run_handler_gives_back [OF assms(2,1) s1, of env]
        by (auto simp: try_body_def split: option.splits prod.splits)
    next
      case (Some e)
      with t have "r = Some e \<and> s2 = s1" by (auto simp: try_body_def)
      with s1 show ?thesis by simp
    qed
    then obtain e where "r = Some e" and "acks_backed cb msg n (snd (except_clauses cb env msg n e s2))"
      using acks_backed_except by blast
    with t show ?thesis
      by (cases "except_clauses cb env msg n e s2")
        (simp add: process_message_def split: option.split)
  qed
  obtain r s2 where p: "process_message cb env msg n v h s1 = (r, s2)" by fastforce
  then show ?thesis using proc Some assms(2,3) s1
    by (auto simp: handle_message_def call_simps s1_def split: option.split)
qed

theorem failed_message_never_lost_witness:
  "gives_back (HCtl (CRetry 5) (\<lambda>r. HRaise boom)) \<and>
   acks_backed sample_callback (sample_incoming 3) 3
     (snd (handle_message sample_callback sample_env (sample_incoming 3) Valid False
       (HCtl (CRetry 5) (\<lambda>r. HRaise boom)) sample_bus))"
  using failed_message_never_lost
    [of "HCtl (CRetry 5) (\<lambda>r. HRaise boom)" "sample_incoming 3" 3 sample_bus]
  by (simp add: sample_bus_def)

subsection \<open>What becomes of a delivery\<close>

text \<open>The log entry of a configured exception handler.\<close>

definition reported :: "callback \<Rightarrow> exc \<Rightarrow> bus_call list" where
  "reported cb e = (if spec_exception_handler (cb_spec cb) then [ExceptionHandler e] else [])"

text \<open>The environment never answers with an exception that is not an \<^verbatim>\<open>Exception\<close>.\<close>

definition no_base_exceptions :: "bus \<Rightarrow> bool" where
  "no_base_exceptions s = (\<forall>i e. answers s i = Some e \<longrightarrow> is_Exception e)"

lemma no_base_swallow [simp]: "no_base_exceptions s \<Longrightarrow> swallow (answers s i) = None"
  by (simp add: swallow_eq_None no_base_exceptions_def)

text \<open>An exception that only the last \<open>except\<close> clause catches.\<close>

definition plain_failure :: "exc \<Rightarrow> bool" where
  "plain_failure e = (is_Exception e \<and> exc_cls e \<noteq> MessagePayloadValidationError)"

lemma except_clauses_plain:
  "plain_failure e \<Longrightarrow> except_clauses cb env msg n e s = on_exception cb env msg n e s"
  by (cases e) (auto simp: plain_failure_def except_clauses_def split: exc_class.splits)

text \<open>The worker's part of a run, after the handler, as one function of its outcome.\<close>

lemma handle_message_failed:
  assumes "cb_queue_name cb \<noteq> None" "get_retry_count msg = Inr n" "answers s (length (calls s)) = None"
    and "try_body cb env msg v h (emit (MInflight 1) (s\<lparr>calls := calls s @ [UowEnter]\<rparr>)) = (Some e, s1)"
    and "except_clauses cb env msg n e s1 = (None, s2)"
  shows "handle_message cb env msg v expired h s =
    do_call (UowExit None) (emit (MProcessingTime False) (emit (MInflight (-1)) s2))"
  using assms by (auto simp: handle_message_def process_message_def call_simps timeout_exit_def)

lemma try_body_raise:
  "cb_mode cb = WRAPPED \<or> v = Valid \<Longrightarrow> try_body cb env msg v (HRaise e) s = (Some e, s)"
  by (auto simp: try_body_def)

text \<open>The calls of a run whose handler fails, past the retry budget and within it.\<close>

lemma exhausted_run:
  assumes "cb_queue_name cb \<noteq> None" and "get_retry_count msg = Inr n"
    and "cb_mode cb = WRAPPED \<or> v = Valid" and "plain_failure e"
    and "spec_nack_on_exception (cb_spec cb)" and "max_retries (policy_of cb) \<le> n"
    and "answers s (length (calls s)) = None" and "no_base_exceptions s"
  shows "calls (snd (handle_message cb env msg v expired (HRaise e) s)) =
    calls s @ [UowEnter] @ reported cb e @ [Reject False, UowExit None]"
  using assms
  by (simp add: handle_message_def process_message_def try_body_raise except_clauses_plain
      on_exception_def handle_reject_message_def schedule_retry_def dead_letter_def reported_def
      Let_def call_simps timeout_exit_def)

lemma retried_run:
  assumes "cb_queue_name cb \<noteq> None" and "get_retry_count msg = Inr n"
    and "cb_mode cb = WRAPPED \<or> v = Valid" and "plain_failure e"
    and "spec_nack_on_exception (cb_spec cb)" and "n < max_retries (policy_of cb)"
    and "answers s (length (calls s)) = None" and "no_base_exceptions s"
    and "i = length (calls s @ [UowEnter] @ reported cb e)"
    and "compute_retry_delay (policy_of cb) n (rnd env i) = Inr d"
  shows "calls (snd (handle_message cb env msg v expired (HRaise e) s)) =
    calls s @ [UowEnter] @ reported cb e @
    [Enqueue (retry_copy cb msg (str_or (in_message_id msg) (fresh env i))
       (retry_headers msg (implicit env i) n (Some e)) (clock env i) d),
     if answers s i = None then Ack else Reject True, UowExit None]"
  using assms
  by (auto simp: handle_message_def process_message_def try_body_raise except_clauses_plain
      on_exception_def handle_reject_message_def schedule_retry_def hand_off_def reported_def now_of_def
      no_base_exceptions_def Let_def call_simps timeout_exit_def split: option.split)

text \<open>
  A failure past the retry budget is dead-lettered: the delivery is rejected without requeueing,
  nothing is stored, and nothing else settles it.
\<close>

theorem exhausted_budget_dead_letters:
  assumes "cb_queue_name cb \<noteq> None" and "get_retry_count msg = Inr n"
    and "cb_mode cb = WRAPPED \<or> v = Valid" and "plain_failure e"
    and "spec_nack_on_exception (cb_spec cb)" and "max_retries (policy_of cb) \<le> n"
    and "answers s (length (calls s)) = None" and "no_base_exceptions s"
  shows "calls (snd (handle_message cb env msg v expired (HRaise e) s)) =
    calls s @ [UowEnter] @ reported cb e @ [Reject False, UowExit None]"
  using assms by (rule exhausted_run)

theorem exhausted_budget_dead_letters_witness:
  "calls (snd (handle_message sample_callback sample_env (sample_incoming 15) Valid False
     (HRaise boom) sample_bus)) = [UowEnter, Reject False, UowExit None]"
  using exhausted_budget_dead_letters
    [of sample_callback "sample_incoming 15" 15 Valid boom sample_bus sample_env False]
  by (simp add: sample_callback_def sample_bus_def policy_of_def plain_failure_def
      no_base_exceptions_def reported_def)

lemma py_trunc_mono: "0 \<le> x \<Longrightarrow> x \<le> y \<Longrightarrow> py_trunc x \<le> py_trunc y"
  by (simp add: py_trunc_def floor_mono)

text \<open>
  A failure within the budget is retried by a copy: the copy carries the body, the target queue
  and the attempt counter incremented, and is due no earlier than now and no later than
  \<open>max_delay\<close> from now; the delivery is acknowledged when the copy was stored and requeued when the
  store failed.
\<close>

theorem failure_within_budget_is_retried:
  assumes "cb_queue_name cb \<noteq> None" and "get_retry_count msg = Inr n"
    and "cb_mode cb = WRAPPED \<or> v = Valid" and "plain_failure e"
    and "spec_nack_on_exception (cb_spec cb)" and "n < max_retries (policy_of cb)"
    and "answers s (length (calls s)) = None" and "no_base_exceptions s"
    and "\<forall>i. 0 \<le> rnd env i \<and> rnd env i \<le> 1" and "\<forall>i. clock env i = now" and "0 \<le> now"
    and "0 \<le> initial_delay (policy_of cb)" and "0 < backoff_factor (policy_of cb)"
    and "0 \<le> max_delay (policy_of cb)"
  shows "\<exists>m. redelivers cb msg n m
    \<and> py_trunc now \<le> dispatch_time m \<and> dispatch_time m \<le> py_trunc (now + max_delay (policy_of cb))
    \<and> calls (snd (handle_message cb env msg v expired (HRaise e) s)) =
        calls s @ [UowEnter] @ reported cb e @
        [Enqueue m,
         if answers s (length (calls s @ [UowEnter] @ reported cb e)) = None then Ack else Reject True,
         UowExit None]"
proof -
  let ?i = "length (calls s @ [UowEnter] @ reported cb e)"
  obtain d where d: "compute_retry_delay (policy_of cb) n (rnd env ?i) = Inr d"
    "0 \<le> d" "d \<le> max_delay (policy_of cb)"
    using compute_retry_delay_bounds' [of "policy_of cb" "rnd env ?i" n] assms(9,12-14) by blast
  let ?m = "retry_copy cb msg (str_or (in_message_id msg) (fresh env ?i))
    (retry_headers msg (implicit env ?i) n (Some e)) now d"
  have "calls (snd (handle_message cb env msg v expired (HRaise e) s)) =
        calls s @ [UowEnter] @ reported cb e @
        [Enqueue ?m, if answers s ?i = None then Ack else Reject True, UowExit None]"
    using retried_run [OF assms(1-8) refl d(1)] assms(10) by simp
  moreover have "py_trunc now \<le> dispatch_time ?m"
    "dispatch_time ?m \<le> py_trunc (now + max_delay (policy_of cb))"
    using d assms(11) by (simp_all add: retry_copy_def py_trunc_mono)
  ultimately show ?thesis using retry_copy_redelivers by blast
qed

theorem failure_within_budget_is_retried_witness:
  "\<exists>m. redelivers sample_callback (sample_incoming 2) 2 m \<and> 100 \<le> dispatch_time m \<and> dispatch_time m \<le> 140
     \<and> calls (snd (handle_message sample_callback sample_env (sample_incoming 2) Valid False
         (HRaise boom) sample_bus)) = [UowEnter, Enqueue m, Ack, UowExit None]"
  using failure_within_budget_is_retried
    [of sample_callback "sample_incoming 2" 2 Valid boom sample_bus sample_env 100 False]
  by (simp add: sample_callback_def sample_bus_def sample_env_def policy_of_def plain_failure_def
      no_base_exceptions_def reported_def py_trunc_def)

text \<open>
  A body that does not validate is dead-lettered at once: the handler is not called, the retry
  budget is not touched and the delivery is settled by one rejection without requeueing.
\<close>

theorem invalid_payload_dead_letters:
  assumes "cb_queue_name cb \<noteq> None" and "get_retry_count msg = Inr n"
    and "cb_mode cb = DIRECT" and "disposed s = None"
    and "answers s (length (calls s)) = None" and "no_base_exceptions s"
  shows "calls (snd (handle_message cb env msg (ValidationError reason) expired h s)) =
    calls s @ [UowEnter, Reject False, UowExit None]"
  using assms
  by (auto simp: handle_message_def process_message_def try_body_def except_clauses_def
      on_validation_error_def Let_def call_simps timeout_exit_def)

theorem invalid_payload_dead_letters_witness:
  "calls (snd (handle_message (sample_callback\<lparr>cb_mode := DIRECT\<rparr>) sample_env (sample_incoming 2)
     (ValidationError ''field required'') False HReturn sample_bus)) =
   [UowEnter, Reject False, UowExit None]"
  using invalid_payload_dead_letters
    [of "sample_callback\<lparr>cb_mode := DIRECT\<rparr>" "sample_incoming 2" 2 sample_bus sample_env
      "''field required''" False HReturn]
  by (simp add: sample_callback_def sample_bus_def no_base_exceptions_def)

subsection \<open>One settlement per delivery\<close>

lemma answers_schedule_retry: "answers (snd (schedule_retry cb env msg n d x s)) = answers s"
  by (auto simp: schedule_retry_def dead_letter_def hand_off_def Let_def call_simps
      split: sum.split option.split)

lemma answers_schedule_ctl: "answers (snd (schedule_retry_ctl cb env msg d s)) = answers s"
proof -
  obtain q t where g: "get_callback env s = (q, t)" by fastforce
  then have t: "answers t = answers s" by (auto simp: get_callback_def split: if_splits)
  have f: "answers (snd (requeue_fallback u)) = answers u" for u
    by (simp add: requeue_fallback_def call_simps)
  have "answers u = answers s" if "schedule_retry cb env msg n (Some d) None t = (r, u)" for n r u
    using answers_schedule_retry [of cb env msg n "Some d" None t] that t by simp
  with g t show ?thesis
    by (auto simp: schedule_retry_ctl_def f split: option.split sum.split prod.split)
qed

lemma answers_dispose: "answers (snd (dispose d r)) = answers (snd r)"
  by (simp add: dispose_def split: prod.split option.split)

lemma answers_ctl_step: "answers (snd (ctl_step cb env msg op s)) = answers s"
  by (cases op) (simp_all add: answers_dispose answers_schedule_ctl call_simps split: option.split)

lemma answers_run_handler: "answers (snd (run_handler cb env msg h s)) = answers s"
proof (induction h arbitrary: s)
  case (HCtl op k)
  obtain q s1 where "ctl_step cb env msg op s = (q, s1)" by fastforce
  with answers_ctl_step [of cb env msg op s] HCtl show ?case by simp
qed simp_all

lemma schedule_retry_settles:
  assumes "no_base_exceptions s" "d \<noteq> None \<or> 0 < backoff_factor (policy_of cb)"
  obtains b tail where "schedule_retry cb env msg n d x s = (Inr b, s\<lparr>calls := calls s @ tail\<rparr>)"
    and "length (filter settles tail) = 1"
proof (cases "max_retries (policy_of cb) \<le> n")
  case True
  then show thesis
    using that [of False "[Reject False]"] assms(1)
    by (simp add: schedule_retry_def Let_def dead_letter_def call_simps)
next
  case False
  obtain t where t: "(case d of Some d \<Rightarrow> Inr d
      | None \<Rightarrow> compute_retry_delay (policy_of cb) n (now_of (rnd env) s)) = Inr t"
    using assms(2) by (cases d) (auto simp: compute_retry_delay_def Let_def)
  let ?m = "retry_copy cb msg (str_or (in_message_id msg) (now_of (fresh env) s))
    (retry_headers msg (now_of (implicit env) s) n x) (now_of (clock env) s) t"
  show thesis
  proof (cases "answers s (length (calls s))")
    case None
    with False t assms(1) show thesis using that [of True "[Enqueue ?m, Ack]"]
      by (simp add: schedule_retry_def Let_def hand_off_def call_simps)
  next
    case (Some e)
    with False t assms(1) show thesis using that [of False "[Enqueue ?m, Reject True]"]
      by (simp add: schedule_retry_def Let_def hand_off_def call_simps no_base_exceptions_def)
  qed
qed

lemma no_base_update [simp]:
  "no_base_exceptions (emit m s) = no_base_exceptions s"
  "no_base_exceptions (s\<lparr>calls := cs\<rparr>) = no_base_exceptions s"
  "no_base_exceptions ((emit m s)\<lparr>calls := cs\<rparr>) = no_base_exceptions s"
  by (simp_all add: no_base_exceptions_def)

lemma on_exception_settles:
  assumes "no_base_exceptions s" "0 < backoff_factor (policy_of cb)"
    and "spec_nack_on_exception (cb_spec cb) \<or> answers s (length (calls s @ reported cb e)) = None"
  obtains s' tail where "on_exception cb env msg n e s = (None, s')" "calls s' = calls s @ tail"
    and "length (filter settles tail) = 1"
proof -
  define u where "u = emit (MProcessed False) (emit (MSpanStatus False) s)"
  define t where "t = (if spec_exception_handler (cb_spec cb)
    then u\<lparr>calls := calls u @ [ExceptionHandler e]\<rparr> else u)"
  have oe: "on_exception cb env msg n e s = handle_reject_message cb env msg
      (spec_nack_delay_on_exception (cb_spec cb)) False
      (if spec_nack_on_exception (cb_spec cb) then n else 0) (Some e) t"
    using assms(1) by (simp add: on_exception_def Let_def call_simps t_def u_def)
  have t: "no_base_exceptions t" "calls t = calls s @ reported cb e" "answers t = answers s"
    using assms(1) by (simp_all add: t_def u_def reported_def)
  have r: "filter settles (reported cb e) = []" by (simp add: reported_def)
  show thesis
  proof (cases "spec_nack_on_exception (cb_spec cb)")
    case True
    obtain b tail where "schedule_retry cb env msg n None (Some e) t =
        (Inr b, t\<lparr>calls := calls t @ tail\<rparr>)" "length (filter settles tail) = 1"
      using schedule_retry_settles [OF t(1)] assms(2) by metis
    with that oe t True r show thesis by (simp add: handle_reject_message_def)
  next
    case False
    with that oe t assms(1,3) r show thesis
      by (simp add: handle_reject_message_def call_simps)
  qed
qed

lemma except_clauses_settles:
  assumes "no_base_exceptions s" "0 < backoff_factor (policy_of cb)" "disposed s = None" "is_Exception e"
    and "spec_nack_on_exception (cb_spec cb) \<or> answers s (length (calls s @ reported cb e)) = None"
  shows "\<exists>s' tail. except_clauses cb env msg n e s = (None, s') \<and> calls s' = calls s @ tail
    \<and> length (filter settles tail) = 1"
proof (cases "exc_cls e = MessagePayloadValidationError")
  case True
  with assms(1,3) show ?thesis
    by (simp add: except_clauses_def on_validation_error_def Let_def call_simps)
next
  case False
  with assms(4) have "plain_failure e" by (simp add: plain_failure_def)
  then show ?thesis
    using on_exception_settles [OF assms(1,2,5)] except_clauses_plain by metis
qed

lemma schedule_retry_no_raise:
  assumes "no_base_exceptions s" "schedule_retry cb env msg n d x s = (Inl e, t)"
  shows "is_Exception e"
proof -
  have "answers (s\<lparr>calls := cs\<rparr>) = answers s" for cs by simp
  then show ?thesis
    using assms by (auto simp: schedule_retry_def Let_def dead_letter_def hand_off_def call_simps
      compute_retry_delay_def no_base_exceptions_def swallow_Some
      split: if_splits option.splits sum.splits)
qed

lemma except_clauses_no_raise:
  assumes "no_base_exceptions s" "is_Exception e"
  shows "\<exists>t. except_clauses cb env msg n e s = (None, t)"
proof -
  have hr: "\<exists>t. handle_reject_message cb env msg d False m (Some e) u = (None, t)"
    if "no_base_exceptions u" for d m u
    using that schedule_retry_no_raise [OF that, of cb env msg m None "Some e"]
    by (fastforce simp: handle_reject_message_def call_simps no_base_exceptions_def
        split: prod.split sum.split option.split)
  have "\<exists>t. on_exception cb env msg n e s = (None, t)"
    using assms(1) hr by (simp add: on_exception_def Let_def call_simps)
  moreover have "\<exists>t. on_validation_error s = (None, t)"
    using assms(1) by (simp add: on_validation_error_def Let_def call_simps)
  ultimately show ?thesis
    using assms(2) by (auto simp: except_clauses_def on_disposed_def split: exc_class.split)
qed



text \<open>
  A handler that gives the delivery back with \<open>nack\<close> or \<open>reject\<close> has the last word: when the
  broker accepts, the worker neither settles the delivery again nor stores a copy of it.
\<close>

theorem handler_disposition_is_final:
  assumes "cb_queue_name cb \<noteq> None" and "get_retry_count msg = Inr n"
    and "cb_mode cb = WRAPPED \<or> v = Valid" and "op = CNack \<or> op = CReject"
    and "answers s (length (calls s)) = None" and "answers s (Suc (length (calls s))) = None"
  shows "calls (snd (handle_message cb env msg v expired
      (HCtl op (\<lambda>r. case r of None \<Rightarrow> HReturn | Some e \<Rightarrow> HRaise e)) s)) =
    calls s @ [UowEnter, if op = CNack then Nack else Reject False, UowExit None]"
  using assms
  by (auto simp: handle_message_def process_message_def try_body_def except_clauses_def on_disposed_def
      dispose_def Let_def call_simps timeout_exit_def)

theorem handler_disposition_is_final_witness:
  "calls (snd (handle_message sample_callback sample_env (sample_incoming 2) Valid False
     (HCtl CNack (\<lambda>r. case r of None \<Rightarrow> HReturn | Some e \<Rightarrow> HRaise e)) sample_bus)) =
   [UowEnter, Nack, UowExit None]"
  using handler_disposition_is_final [of sample_callback "sample_incoming 2" 2 Valid CNack sample_bus
    sample_env False]
  by (simp add: sample_callback_def sample_bus_def)

subsection \<open>Where the code departs from its documentation\<close>



text \<open>
  A handler cancelled by its \<open>timeout\<close> leaves the delivery unsettled: the cancellation is no
  \<^verbatim>\<open>Exception\<close>, so no clause retries or rejects, and the in-flight gauge is never decremented.
\<close>

theorem timeout_leaves_delivery_unsettled:
  assumes "cb_queue_name cb \<noteq> None" and "get_retry_count msg = Inr n"
    and "cb_mode cb = WRAPPED \<or> v = Valid" and "spec_timeout (cb_spec cb) = Some t"
    and "answers s (length (calls s)) = None" and "exc_cls e = CancelledError"
  shows "calls (snd (handle_message cb env msg v True (HRaise e) s)) =
      calls s @ [UowEnter, UowExit (Some (Exc TimeoutError []))]
    \<and> metrics (snd (handle_message cb env msg v True (HRaise e) s)) = metrics s @ [MInflight 1]"
  using assms
  by (cases e) (auto simp: handle_message_def process_message_def try_body_raise except_clauses_def
      call_simps timeout_exit_def)

theorem timeout_leaves_delivery_unsettled_witness:
  "calls (snd (handle_message sample_callback sample_env (sample_incoming 2) Valid True
     (HRaise (Exc CancelledError [])) sample_bus)) = [UowEnter, UowExit (Some (Exc TimeoutError []))]"
  using timeout_leaves_delivery_unsettled [of sample_callback "sample_incoming 2" 2 Valid 30 sample_bus
    "Exc CancelledError []" sample_env]
  by (simp add: sample_callback_def sample_bus_def)

text \<open>
  The unit of work does not see that the handler failed: for every handler that fails with an
  \<^verbatim>\<open>Exception\<close>, the interceptors are left as after a success.
\<close>

lemma failed_handler_leaves_uow_normally:
  assumes "cb_queue_name cb \<noteq> None" and "get_retry_count msg = Inr n"
    and "cb_mode cb = WRAPPED \<or> v = Valid" and "answers s (length (calls s)) = None"
    and "run_handler cb env msg h (emit (MInflight 1) (s\<lparr>calls := calls s @ [UowEnter]\<rparr>)) = (Some e, s1)"
    and "is_Exception e" and "no_base_exceptions s"
  shows "last (calls (snd (handle_message cb env msg v expired h s))) = UowExit None"
proof -
  have tb: "try_body cb env msg v h (emit (MInflight 1) (s\<lparr>calls := calls s @ [UowEnter]\<rparr>)) = (Some e, s1)"
    using assms(3,5) by (auto simp: try_body_def)
  have nb: "no_base_exceptions s1"
    using answers_run_handler [of cb env msg h "emit (MInflight 1) (s\<lparr>calls := calls s @ [UowEnter]\<rparr>)"]
      assms(5,7) by (simp add: no_base_exceptions_def)
  obtain s2 where "except_clauses cb env msg n e s1 = (None, s2)"
    using except_clauses_no_raise [OF nb assms(6)] by blast
  from handle_message_failed [OF assms(1,2,4) tb this] show ?thesis by (simp add: call_simps)
qed

text \<open>
  A retry counter header that is not an integer stops the callback before anything is settled:
  the delivery stays unacknowledged.
\<close>

theorem malformed_counter_leaves_unsettled:
  assumes "cb_queue_name cb \<noteq> None" and "get_retry_count msg = Inl e"
  shows "handle_message cb env msg v expired h s = (Some e, s) \<and> exc_cls e = ValueError"
  using assms by (auto simp: handle_message_def get_retry_count_def Let_def split: option.splits)

theorem malformed_counter_leaves_unsettled_witness:
  "fst (handle_message sample_callback sample_env
      ((sample_incoming 2)\<lparr>in_headers := [(''x-retry-count'', HFloat ''1.5'')]\<rparr>) Valid False HReturn sample_bus)
   \<noteq> None"
  using malformed_counter_leaves_unsettled [of sample_callback
    "(sample_incoming 2)\<lparr>in_headers := [(''x-retry-count'', HFloat ''1.5'')]\<rparr>" _ sample_env Valid False
    HReturn sample_bus]
  by (simp add: sample_callback_def get_retry_count_def py_int_def py_strip_def is_space_def is_digit_def
      digit_val_def)

end
