(* ===== verification/Beat.thy ===== *)
theory Beat
  imports Delayed_Store Retry
begin

section \<open>The beat worker\<close>

text \<open>
  \<^verbatim>\<open>scheduler/beat_worker.py\<close>: the dispatcher that publishes scheduled actions and delayed messages, and
  one cycle of the processing loop of \<open>BeatWorker\<close>. The state holds the store (a Redis server), the
  shutdown event, what reached the broker, and what became of every claimed delayed message.

  Calls to the backend are logged and may fail with any exception. Publishing goes through
  \<open>retry_with_backoff\<close>, whose attempts have arbitrary outcomes. The cron library is a parameter, and
  so are the clock and the count of running executions.
\<close>

subsection \<open>Data\<close>

record action =
  act_id :: string
  act_cron :: string
  act_allow_overlap :: bool
  act_name :: "string option"

definition get_function_id :: "string \<Rightarrow> string \<Rightarrow> string" where
  "get_function_id func_module qualname = func_module @ ''.'' @ qualname"

text \<open>An AMQP publication; no exchange name means the default exchange.\<close>

record outgoing =
  out_exchange :: "string option"
  out_routing_key :: string
  out_body :: string
  out_headers :: headers
  out_message_id :: "string option"
  out_content_type :: "string option"
  out_content_encoding :: "string option"

datatype beat_call =
    BLock | BUnlock | BGetLast string | BInExecution string | BSetLast string int
  | BPublish outgoing | BDequeue int | BEnqueue delayed

datatype fate = Dispatched | PutBack string | Lost exc exc

record 's beat = "(beat_call, exc option) world" +
  store :: 's
  shutdown_set :: bool
  connection_healthy :: bool
  sent :: "outgoing list"
  fates :: "(delayed \<times> fate) list"

record 's beat_env =
  be_redis :: "'s redis"
  be_dump :: "delayed \<Rightarrow> string result"
  be_load :: "string \<Rightarrow> delayed option"
  be_exchange :: string
  be_dispatch_policy :: retry_policy
  be_next_run :: "string \<Rightarrow> int \<Rightarrow> rat result"    \<comment> \<open>croniter, as a timestamp\<close>
  be_clock :: "nat \<Rightarrow> rat"
  be_in_execution :: "nat \<Rightarrow> int"
  be_token :: "nat \<Rightarrow> string"
  be_rnd :: "nat \<Rightarrow> nat \<Rightarrow> rat"
  be_attempts :: "nat \<Rightarrow> nat \<Rightarrow> (exc, unit) outcome"
  be_applied :: "nat \<Rightarrow> bool"
  be_observe :: "nat \<Rightarrow> nat \<Rightarrow> bool \<times> bool"          \<comment> \<open>healthy and shutdown, while waiting\<close>

abbreviation here :: "(nat \<Rightarrow> 'a) \<Rightarrow> ('c, 'r, 'z) world_scheme \<Rightarrow> 'a" where
  "here f s \<equiv> f (length (calls s))"

definition FAILED_DISPATCH_REQUEUE_DELAY_SECONDS :: int where
  "FAILED_DISPATCH_REQUEUE_DELAY_SECONDS = 10"

definition extract_scheduled_actions :: "string list option \<Rightarrow> action list list \<Rightarrow> action list" where
  "extract_scheduled_actions scheduler_names controllers =
     concat (map (\<lambda>acts. case scheduler_names of
        None \<Rightarrow> acts
      | Some names \<Rightarrow> filter (\<lambda>a. case act_name a of
                                None \<Rightarrow> False
                              | Some n \<Rightarrow> n \<noteq> [] \<and> n \<in> set names) acts) controllers)"

subsection \<open>Waiting for a connection\<close>

text \<open>
  \<open>_wait_for_connection\<close>: rounds of half a second, at most 30 seconds. \<open>obs i\<close> is what round \<open>i\<close> sees.
\<close>

function wait_rounds :: "rat \<Rightarrow> rat \<Rightarrow> (nat \<Rightarrow> bool \<times> bool) \<Rightarrow> nat \<Rightarrow> nat" where
  "wait_rounds step limit obs i =
     (if 0 < step \<and> \<not> fst (obs i) \<and> step * of_nat i < limit \<and> \<not> snd (obs i)
      then wait_rounds step limit obs (Suc i) else i)"
  by pat_completeness auto

termination
proof (relation "measure (\<lambda>(step, limit, obs, i). nat \<lceil>limit / step\<rceil> - i)")
  fix step limit :: rat and obs :: "nat \<Rightarrow> bool \<times> bool" and i :: nat
  assume a: "0 < step \<and> \<not> fst (obs i) \<and> step * of_nat i < limit \<and> \<not> snd (obs i)"
  then have "of_nat i < limit / step" by (simp add: pos_less_divide_eq mult.commute)
  then have "int i < \<lceil>limit / step\<rceil>" by (simp add: less_ceiling_iff)
  then show "((step, limit, obs, Suc i), (step, limit, obs, i))
      \<in> measure (\<lambda>(step, limit, obs, i). nat \<lceil>limit / step\<rceil> - i)"
    by simp
qed simp

declare wait_rounds.simps [simp del]

definition wait_for_connection :: "(nat \<Rightarrow> bool \<times> bool) \<Rightarrow> exc option" where
  "wait_for_connection obs =
     (let i = wait_rounds (1/2) 30 obs 0
      in if fst (obs i) then None
         else if 1/2 * of_nat i < (30 :: rat)
              then Some (Exc ConnectionError ''Shutdown requested while waiting for connection'')
              else Some (Exc ConnectionError ''Connection not healthy after maximum wait time''))"

definition wait_for_broker_connection :: "rat \<Rightarrow> (nat \<Rightarrow> bool \<times> bool) \<Rightarrow> exc option" where
  "wait_for_broker_connection max_wait_time obs =
     (let i = wait_rounds 2 max_wait_time obs 0
      in if 2 * of_nat i < max_wait_time
         then if snd (obs i)
              then Some (Exc ConnectionError ''Shutdown requested while waiting for broker connection'')
              else None
         else Some (Exc ConnectionError ''Broker connection not established''))"

subsection \<open>The dispatcher\<close>

text \<open>A dispatch retries every AMQP error (\<open>is_amqp\<close>) and nothing else.\<close>

fun retry_error :: "(exc, 'a) retry_result \<Rightarrow> exc option" where
  "retry_error (RetryReturn a) = None"
| "retry_error (RetryRaise e) = Some e"
| "retry_error (RetryCancelled e) = Some (Exc CancelledError [])"
| "retry_error RetryUnexpected = Some (Exc RuntimeError ''Unexpected error in retry logic'')"

definition publish :: "'s beat_env \<Rightarrow> outgoing \<Rightarrow> 's beat \<Rightarrow> exc option \<times> 's beat" where
  "publish env m s =
     (case (if connection_healthy s then None else wait_for_connection (here (be_observe env) s)) of
        Some e \<Rightarrow> (Some e, s)
      | None \<Rightarrow>
          (let s1 = s\<lparr>calls := calls s @ [BPublish m]\<rparr>
           in case retry_error (snd (with_retry (be_dispatch_policy env) is_amqp
                      (here (be_rnd env) s) (here (be_attempts env) s))) of
                None \<Rightarrow> (None, s1\<lparr>sent := sent s @ [m]\<rparr>)
              | Some e \<Rightarrow> (Some e, s1\<lparr>shutdown_set := shutdown_set s \<or> is_Exception e\<rparr>)))"

definition dispatch_scheduled_action ::
  "'s beat_env \<Rightarrow> string \<Rightarrow> int \<Rightarrow> 's beat \<Rightarrow> exc option \<times> 's beat" where
  "dispatch_scheduled_action env action_id timestamp s =
     publish env \<lparr>out_exchange = Some (be_exchange env), out_routing_key = action_id,
       out_body = str_int timestamp, out_headers = [], out_message_id = None,
       out_content_type = None, out_content_encoding = None\<rparr> s"

definition truthy :: "string option \<Rightarrow> string option" where
  "truthy v = (if v = Some [] then None else v)"

definition delayed_publication :: "string \<Rightarrow> delayed \<Rightarrow> outgoing" where
  "delayed_publication exchange m =
     \<lparr>out_exchange = (if truthy (target_queue m) = None then Some exchange else None),
      out_routing_key = (case truthy (target_queue m) of
          Some q \<Rightarrow> q | None \<Rightarrow> message_topic m @ ''.#''),
      out_body = payload m,
      out_headers = (case headers m of Some hs \<Rightarrow> hs | None \<Rightarrow> []),
      out_message_id = truthy (message_id m),
      out_content_type = truthy (content_type m),
      out_content_encoding = truthy (content_encoding m)\<rparr>"

definition dispatch_delayed_message ::
  "'s beat_env \<Rightarrow> delayed \<Rightarrow> 's beat \<Rightarrow> exc option \<times> 's beat" where
  "dispatch_delayed_message env m s = publish env (delayed_publication (be_exchange env) m) s"

subsection \<open>Scheduled actions\<close>

definition is_due :: "'s beat_env \<Rightarrow> action \<Rightarrow> int option \<Rightarrow> rat \<Rightarrow> bool result" where
  "is_due env a last_dispatch_time dt =
     (case last_dispatch_time of
        None \<Rightarrow> Inr True
      | Some t \<Rightarrow> (case be_next_run env (act_cron a) t of
                    Inl e \<Rightarrow> Inl e
                  | Inr next_run \<Rightarrow> Inr (\<not> dt < next_run)))"

text \<open>The inner \<open>try\<close>: publish, then remember the time; a failure is logged and the loop goes on.\<close>

definition dispatch_and_remember ::
  "'s beat_env \<Rightarrow> int \<Rightarrow> action \<Rightarrow> 's beat \<Rightarrow> exc option \<times> 's beat" where
  "dispatch_and_remember env now a s =
     (let (r, s1) = dispatch_scheduled_action env (act_id a) now s;
          (r2, s2) = (case r of
             Some e \<Rightarrow> (Some e, s1)
           | None \<Rightarrow> (let (b, t) = do_call (BSetLast (act_id a) now) s1
                      in (b, if b = None
                             then t\<lparr>store := set_last_dispatch_time (be_redis env) (act_id a) now (store t)\<rparr>
                             else t)))
      in case r2 of
           None \<Rightarrow> (None, s2)
         | Some e \<Rightarrow>
             if exc_cls e = ChannelInvalidStateError then (Some e, s2\<lparr>shutdown_set := True\<rparr>)
             else (swallow (Some e), s2))"

definition guarded_dispatch ::
  "'s beat_env \<Rightarrow> int \<Rightarrow> action \<Rightarrow> 's beat \<Rightarrow> exc option \<times> 's beat" where
  "guarded_dispatch env now a s =
     (case do_call (BGetLast (act_id a)) s of
        (Some e, s1) \<Rightarrow> (Some e, s1)
      | (None, s1) \<Rightarrow>
          (case get_last_dispatch_time (be_redis env) (act_id a) (store s1) of
             Inl e \<Rightarrow> (Some e, s1)
           | Inr last_dispatch_time \<Rightarrow>
               (case is_due env a last_dispatch_time (here (be_clock env) s1) of
                  Inl e \<Rightarrow> (Some e, s1)
                | Inr due \<Rightarrow>
                    if \<not> due then (None, s1)
                    else if act_allow_overlap a then dispatch_and_remember env now a s1
                    else (case do_call (BInExecution (act_id a)) s1 of
                            (Some e, s2) \<Rightarrow> (Some e, s2)
                          | (None, s2) \<Rightarrow> if 0 < here (be_in_execution env) s1 then (None, s2)
                                          else dispatch_and_remember env now a s2))))"

text \<open>
  One action under the beat lock. No other worker runs between two steps of this function, so a lock
  that is taken stays taken until the deadline. The release script runs on every way out; its
  failure is logged.
\<close>

definition process_action :: "'s beat_env \<Rightarrow> int \<Rightarrow> action \<Rightarrow> 's beat \<Rightarrow> exc option \<times> 's beat" where
  "process_action env now a s =
     (let r = be_redis env; token = here (be_token env) s; (a0, s0) = do_call BLock s
      in case a0 of
           Some e \<Rightarrow> (swallow (Some e), s0)
         | None \<Rightarrow>
             (case lock_acquire r token (store s0) of
                (False, st) \<Rightarrow> (None, s0\<lparr>store := st\<rparr>)
              | (True, st) \<Rightarrow>
                  (let (res, s1) = guarded_dispatch env now a (s0\<lparr>store := st\<rparr>);
                       (u, s2) = do_call BUnlock s1;
                       s3 = (if u = None then s2\<lparr>store := lock_release r token (store s2)\<rparr> else s2)
                   in (swallow (case swallow u of Some e \<Rightarrow> Some e | None \<Rightarrow> res), s3))))"

fun process_actions :: "'s beat_env \<Rightarrow> int \<Rightarrow> action list \<Rightarrow> 's beat \<Rightarrow> exc option \<times> 's beat" where
  "process_actions env now [] s = (None, s)"
| "process_actions env now (a # acts) s =
     (if shutdown_set s then (None, s)
      else case process_action env now a s of
             (Some e, s1) \<Rightarrow> (Some e, s1)
           | (None, s1) \<Rightarrow> process_actions env now acts s1)"

subsection \<open>Delayed messages\<close>

definition put_back :: "'s beat_env \<Rightarrow> delayed \<Rightarrow> exc \<Rightarrow> 's beat \<Rightarrow> exc option \<times> 's beat" where
  "put_back env m e s =
     (let m' = m\<lparr>dispatch_time := \<lfloor>here (be_clock env) s\<rfloor> + FAILED_DISPATCH_REQUEUE_DELAY_SECONDS\<rparr>;
          uuid = here (be_token env) s; applied = here (be_applied env) s;
          (a, s1) = do_call (BEnqueue m') s;
          (r, st) = enqueue_delayed_message (be_redis env) (be_dump env) uuid
                      (map_option (\<lambda>x. (applied, x)) a) m' (store s1);
          s2 = s1\<lparr>store := st\<rparr>
      in case r of
           None \<Rightarrow> (None, s2\<lparr>fates := fates s2 @ [(m, PutBack (task_id_of uuid m'))]\<rparr>)
         | Some e' \<Rightarrow> (swallow (Some e'), s2\<lparr>fates := fates s2 @ [(m, Lost e e')]\<rparr>))"

fun dispatch_batch :: "'s beat_env \<Rightarrow> delayed list \<Rightarrow> 's beat \<Rightarrow> exc option \<times> 's beat" where
  "dispatch_batch env [] s = (None, s)"
| "dispatch_batch env (m # ms) s =
     (case dispatch_delayed_message env m s of
        (None, s1) \<Rightarrow> dispatch_batch env ms (s1\<lparr>fates := fates s1 @ [(m, Dispatched)]\<rparr>)
      | (Some e, s1) \<Rightarrow>
          if is_Exception e
          then (case put_back env m e s1 of
                  (Some e', s2) \<Rightarrow> (Some e', s2)
                | (None, s2) \<Rightarrow> dispatch_batch env ms s2)
          else (Some e, s1))"

definition process_delayed :: "'s beat_env \<Rightarrow> int \<Rightarrow> 's beat \<Rightarrow> exc option \<times> 's beat" where
  "process_delayed env now s =
     (case do_call (BDequeue now) s of
        (Some e, s1) \<Rightarrow> (swallow (Some e), s1)
      | (None, s1) \<Rightarrow>
          (let (ms, st) = dequeue_next_delayed_messages (be_redis env) (be_load env)
                            DEFAULT_DELAYED_MESSAGES_BATCH_SIZE now (store s1);
               (r, s2) = dispatch_batch env ms (s1\<lparr>store := st\<rparr>)
           in (swallow r, s2)))"

definition beat_cycle :: "'s beat_env \<Rightarrow> action list \<Rightarrow> 's beat \<Rightarrow> exc option \<times> 's beat" where
  "beat_cycle env acts s =
     (let now = \<lfloor>here (be_clock env) s\<rfloor>
      in case process_actions env now acts s of
           (Some e, s1) \<Rightarrow> (Some e, s1)
         | (None, s1) \<Rightarrow> process_delayed env now s1)"

text \<open>
  The processing loop: at most \<open>n\<close> cycles are followed; between two cycles the shutdown event may be
  set from outside (\<open>sig\<close>).
\<close>

fun run_scheduled_actions ::
  "'s beat_env \<Rightarrow> action list \<Rightarrow> (nat \<Rightarrow> bool) \<Rightarrow> nat \<Rightarrow> 's beat \<Rightarrow> exc option \<times> 's beat" where
  "run_scheduled_actions env acts sig 0 s = (None, s)"
| "run_scheduled_actions env acts sig (Suc n) s =
     (if \<not> connection_healthy s \<or> shutdown_set s then (None, s)
      else case beat_cycle env acts s of
             (Some e, s1) \<Rightarrow> (Some e, s1)
           | (None, s1) \<Rightarrow>
               run_scheduled_actions env acts sig n (s1\<lparr>shutdown_set := shutdown_set s1 \<or> sig n\<rparr>))"

subsection \<open>Every claimed message is accounted for\<close>

fun accounted :: "'s beat_env \<Rightarrow> 's beat \<Rightarrow> delayed \<times> fate \<Rightarrow> bool" where
  "accounted env s (m, Dispatched) = (delayed_publication (be_exchange env) m \<in> set (sent s))"
| "accounted env s (m, PutBack t) = (t \<in> dom (pending (be_redis env) (store s)))"
| "accounted env s (m, Lost e e') = (is_Exception e \<and> is_Exception e')"

text \<open>What the steps of a batch keep: publications stay, tasks stay pending.\<close>

definition keeps :: "'s redis \<Rightarrow> 's beat \<Rightarrow> 's beat \<Rightarrow> bool" where
  "keeps r s s' = (set (sent s) \<subseteq> set (sent s') \<and> store_wf r (store s')
     \<and> dom (pending r (store s)) \<subseteq> dom (pending r (store s')))"

lemma keeps_trans: "keeps r s s' \<Longrightarrow> keeps r s' s'' \<Longrightarrow> keeps r s s''"
  unfolding keeps_def by blast

lemma accounted_keeps:
  "accounted env s x \<Longrightarrow> keeps (be_redis env) s s' \<Longrightarrow> accounted env s' x"
  by (cases x; cases "snd x") (auto simp: keeps_def)

lemma publish_fields:
  assumes "publish env m s = (r, s')"
  shows "store s' = store s" "fates s' = fates s" "answers s' = answers s"
    "set (sent s) \<subseteq> set (sent s')" "r = None \<Longrightarrow> sent s' = sent s @ [m]"
    "r \<noteq> None \<Longrightarrow> sent s' = sent s"
  using assms by (auto simp: publish_def Let_def split: option.splits if_splits)

context redis_server
begin

lemma dom_pending_put:
  "store_wf r s \<Longrightarrow> dom (pending r (enqueue_commands r task_id m ser s)) = insert task_id (dom (pending r s))"
  by (simp add: backend.pend_put)

lemma put_back_accounted:
  assumes "be_redis env = r" "put_back env m e s = (None, s')" "store_wf r (store s)" "is_Exception e"
  shows "\<exists>f. fates s' = fates s @ [(m, f)] \<and> accounted env s' (m, f) \<and> keeps r s s'"
proof -
  define m' where "m' = m\<lparr>dispatch_time := \<lfloor>here (be_clock env) s\<rfloor> + FAILED_DISPATCH_REQUEUE_DELAY_SECONDS\<rparr>"
  show ?thesis
    using assms dom_pending_put [OF assms(3)] store_wf_enqueue [OF assms(3)]
    by (auto simp del: domIff simp: put_back_def m'_def [symmetric] Let_def call_simps
        enqueue_delayed_message_def keeps_def split: option.splits sum.splits if_splits)
qed

lemma dispatch_batch_accounted:
  assumes "be_redis env = r"
  shows "dispatch_batch env ms s = (None, s') \<Longrightarrow> store_wf r (store s) \<Longrightarrow>
    \<exists>new. fates s' = fates s @ new \<and> map fst new = ms \<and> (\<forall>x \<in> set new. accounted env s' x)
      \<and> keeps r s s'"
proof (induction ms arbitrary: s)
  case Nil
  then show ?case by (simp add: keeps_def)
next
  case (Cons m ms)
  have head: "\<exists>f s1. dispatch_batch env ms s1 = (None, s') \<and> fates s1 = fates s @ [(m, f)]
      \<and> accounted env s1 (m, f) \<and> keeps r s s1"
  proof (cases "dispatch_delayed_message env m s")
    case (Pair q s0)
    have s0: "store s0 = store s" "fates s0 = fates s" "set (sent s) \<subseteq> set (sent s0)"
      "q = None \<Longrightarrow> delayed_publication (be_exchange env) m \<in> set (sent s0)"
      using publish_fields [OF Pair [unfolded dispatch_delayed_message_def]] by auto
    show ?thesis
    proof (cases q)
      case None
      let ?s1 = "s0\<lparr>fates := fates s0 @ [(m, Dispatched)]\<rparr>"
      have "dispatch_batch env ms ?s1 = (None, s')" using Cons.prems(1) Pair None by simp
      moreover have "accounted env ?s1 (m, Dispatched)" "keeps r s ?s1"
        using s0 None Cons.prems(2) by (simp_all add: keeps_def)
      ultimately show ?thesis using s0(2) by (intro exI [of _ Dispatched] exI [of _ ?s1]) simp
    next
      case (Some e)
      then obtain s2 where e: "is_Exception e" "put_back env m e s0 = (None, s2)"
        "dispatch_batch env ms s2 = (None, s')"
        using Cons.prems(1) Pair by (auto split: if_splits option.splits prod.splits)
      have "keeps r s s0" using s0 Cons.prems(2) by (simp add: keeps_def)
      with put_back_accounted [OF assms e(2)] e s0 Cons.prems(2) show ?thesis
        by (metis keeps_trans)
    qed
  qed
  then obtain f s1 where h: "dispatch_batch env ms s1 = (None, s')" "fates s1 = fates s @ [(m, f)]"
    "accounted env s1 (m, f)" "keeps r s s1" by blast
  then obtain new where n: "fates s' = fates s1 @ new" "map fst new = ms"
    "\<forall>x \<in> set new. accounted env s' x" "keeps r s1 s'"
    using Cons.IH [OF h(1)] by (auto simp: keeps_def)
  with h show ?case
    using accounted_keeps [OF h(3)] keeps_trans [OF h(4) n(4)] assms
    by (intro exI [of _ "(m, f) # new"]) simp
qed

end

lemma put_back_raises: "put_back env m e s = (Some e', s') \<Longrightarrow> \<not> is_Exception e'"
  by (auto simp: put_back_def Let_def split: prod.splits option.splits if_splits)

lemma dispatch_batch_raises: "dispatch_batch env ms s = (Some e, s') \<Longrightarrow> \<not> is_Exception e"
  by (induction env ms s rule: dispatch_batch.induct)
    (auto dest: put_back_raises split: prod.splits option.splits if_splits)


definition sample_beat_env :: "ref_store beat_env" where
  "sample_beat_env = \<lparr>be_redis = ref_redis, be_dump = (\<lambda>m. Inr (payload m)),
     be_load = (\<lambda>p. Some (sample_msg\<lparr>payload := p\<rparr>)), be_exchange = ''ex'',
     be_dispatch_policy = RetryPolicy_default\<lparr>max_retries := 0\<rparr>,
     be_next_run = (\<lambda>cron t. Inr (of_int t + 60)), be_clock = (\<lambda>_. 10), be_in_execution = (\<lambda>_. 0),
     be_token = (\<lambda>_. ''token''), be_rnd = (\<lambda>_ _. 0),
     be_attempts = (\<lambda>i j. if i = 1 then Returned () else Raised (Exc AMQPError ''down'')),
     be_applied = (\<lambda>_. False), be_observe = (\<lambda>_ _. (True, False))\<rparr>"

definition sample_beat :: "ref_store \<Rightarrow> ref_store beat" where
  "sample_beat st = \<lparr>calls = [], answers = (\<lambda>_. None), store = st, shutdown_set = False,
     connection_healthy = True, sent = [], fates = []\<rparr>"


subsection \<open>A cron slot is dispatched once\<close>

lemma last_dispatch_key_neq [simp]:
  "last_dispatch_time_key a \<noteq> beat_lock_key" "beat_lock_key \<noteq> last_dispatch_time_key a"
  "last_dispatch_time_key a = last_dispatch_time_key b \<longleftrightarrow> a = b"
  by (simp_all add: last_dispatch_time_key_def)

text \<open>What a step for the action \<open>id\<close> may change: publications to \<open>id\<close>, and the time of \<open>id\<close>.\<close>

definition only_for :: "'s redis \<Rightarrow> string \<Rightarrow> 's beat \<Rightarrow> 's beat \<Rightarrow> bool" where
  "only_for r i s s' =
     ((\<exists>new. sent s' = sent s @ new \<and> (\<forall>m \<in> set new. out_routing_key m = i))
      \<and> (\<forall>b. b \<noteq> i \<longrightarrow> get_last_dispatch_time r b (store s') = get_last_dispatch_time r b (store s)))"

lemma only_for_refl: "sent s' = sent s \<Longrightarrow> store s' = store s \<Longrightarrow> only_for r i s s'"
  by (simp add: only_for_def)

lemma only_for_store:
  "only_for r i s s' \<Longrightarrow> sent t = sent s \<Longrightarrow> sent t' = sent s' \<Longrightarrow>
   (\<And>b. get_last_dispatch_time r b (store t) = get_last_dispatch_time r b (store s)) \<Longrightarrow>
   (\<And>b. get_last_dispatch_time r b (store t') = get_last_dispatch_time r b (store s')) \<Longrightarrow>
   only_for r i t t'"
  by (simp add: only_for_def)

context redis_server
begin

lemma last_dispatch_set:
  "get_last_dispatch_time r b (set_last_dispatch_time r a now s) =
     (if b = a then Inr (Some now) else get_last_dispatch_time r b s)"
  by (simp add: get_last_dispatch_time_def set_last_dispatch_time_def get_timestamp_def get_set)

lemma last_dispatch_lock:
  "lock_acquire r token s = (q, s') \<Longrightarrow> get_last_dispatch_time r b s' = get_last_dispatch_time r b s"
  "get_last_dispatch_time r b (lock_release r token s) = get_last_dispatch_time r b s"
  by (auto simp: get_last_dispatch_time_def get_timestamp_def lock_acquire_def lock_release_def
      set_nx get_set get_del split: if_splits)

lemma dispatch_and_remember_only:
  assumes "be_redis env = r" "dispatch_and_remember env now a s = (q, s')"
  shows "only_for r (act_id a) s s'"
proof -
  obtain p s1 where p: "dispatch_scheduled_action env (act_id a) now s = (p, s1)" by fastforce
  have s1: "store s1 = store s" "answers s1 = answers s"
    "\<exists>new. sent s1 = sent s @ new \<and> (\<forall>m \<in> set new. out_routing_key m = act_id a)"
    using publish_fields [OF p [unfolded dispatch_scheduled_action_def]] by (cases p; auto)+
  show ?thesis
    using assms(2) p s1
    by (auto simp: assms(1) dispatch_and_remember_def only_for_def call_simps last_dispatch_set
        split: option.splits if_splits)
qed

lemma guarded_dispatch_only:
  assumes "be_redis env = r" "guarded_dispatch env now a s = (q, s')"
  shows "only_for r (act_id a) s s'"
proof -
  have d: "only_for r (act_id a) s t'"
    if "dispatch_and_remember env now a t = (p, t')" "sent t = sent s" "store t = store s" for t t' p
    using dispatch_and_remember_only [OF assms(1) that(1)] that(2,3) by (simp add: only_for_def)
  show ?thesis
    using assms(2)
    by (auto simp: assms(1) guarded_dispatch_def call_simps only_for_refl intro: d
        split: option.splits sum.splits if_splits)
qed

lemma process_action_only:
  assumes "be_redis env = r" "process_action env now a s = (q, s')"
  shows "only_for r (act_id a) s s'"
proof -
  let ?s0 = "s\<lparr>calls := calls s @ [BLock]\<rparr>"
  obtain b st where l: "lock_acquire r (here (be_token env) s) (store s) = (b, st)" by fastforce
  obtain p s1 where g: "guarded_dispatch env now a (?s0\<lparr>store := st\<rparr>) = (p, s1)" by fastforce
  have "only_for r (act_id a) s s1"
    using guarded_dispatch_only [OF assms(1) g] last_dispatch_lock(1) [OF l]
    by (simp add: only_for_def)
  moreover have "only_for r (act_id a) s (?s0\<lparr>store := st\<rparr>)"
    using last_dispatch_lock(1) [OF l] by (simp add: only_for_def)
  ultimately show ?thesis
    using assms(2) l g
    by (auto simp: assms(1) process_action_def call_simps Let_def only_for_def last_dispatch_lock
        split: option.splits bool.splits)
qed

lemma not_due_silent:
  assumes "be_redis env = r" "get_last_dispatch_time r (act_id a) (store s) = Inr (Some now0)"
    and "be_next_run env (act_cron a) now0 = Inr t" "\<forall>i. be_clock env i < t"
    and "process_action env now a s = (q, s')"
  shows "sent s' = sent s \<and> get_last_dispatch_time r (act_id a) (store s') = Inr (Some now0)"
proof -
  obtain b st where l: "lock_acquire r (here (be_token env) s) (store s) = (b, st)" by fastforce
  have st: "get_last_dispatch_time r (act_id a) st = Inr (Some now0)"
    using last_dispatch_lock(1) [OF l] assms(2) by simp
  show ?thesis
    using assms(2-) l st
    by (auto simp: assms(1) process_action_def guarded_dispatch_def is_due_def call_simps Let_def
        last_dispatch_lock split: option.splits bool.splits)
qed

lemma process_actions_silent:
  assumes "be_redis env = r" "be_next_run env cron now0 = Inr t" "\<forall>j. be_clock env j < t"
  shows "get_last_dispatch_time r i (store s) = Inr (Some now0) \<Longrightarrow>
    \<forall>b \<in> set acts. act_id b = i \<longrightarrow> act_cron b = cron \<Longrightarrow>
    process_actions env now acts s = (q, s') \<Longrightarrow>
    \<exists>new. sent s' = sent s @ new \<and> (\<forall>m \<in> set new. out_routing_key m \<noteq> i)"
proof (induction acts arbitrary: s)
  case (Cons a acts)
  obtain p s1 where p: "process_action env now a s = (p, s1)" by fastforce
  have step: "(\<exists>new. sent s1 = sent s @ new \<and> (\<forall>m \<in> set new. out_routing_key m \<noteq> i))
      \<and> get_last_dispatch_time r i (store s1) = Inr (Some now0)"
  proof (cases "act_id a = i")
    case True
    then show ?thesis
      using not_due_silent [OF assms(1) _ _ assms(3) p] Cons.prems(1,2) assms(2) by simp
  next
    case False
    then show ?thesis
      using process_action_only [OF assms(1) p] Cons.prems(1) by (auto simp: only_for_def)
  qed
  show ?case
  proof (cases "shutdown_set s \<or> p \<noteq> None")
    case True
    then show ?thesis using Cons.prems(3) p step by (auto split: if_splits)
  next
    case False
    then have "process_actions env now acts s1 = (q, s')" using Cons.prems(3) p by simp
    with Cons.IH [of s1] step Cons.prems(2) show ?thesis by fastforce
  qed
qed simp

lemma dispatched_remembered:
  assumes "be_redis env = r" "\<forall>i. answers s i = None" "process_action env now a s = (q, s')"
    and "sent s' \<noteq> sent s"
  shows "get_last_dispatch_time r (act_id a) (store s') = Inr (Some now)"
proof -
  have d: "get_last_dispatch_time r (act_id a) (store t') = Inr (Some now)"
    if d: "dispatch_and_remember env now a t = (p, t')" "sent t' \<noteq> sent t" "\<forall>i. answers t i = None"
    for t t' p
  proof -
    obtain z u where u: "dispatch_scheduled_action env (act_id a) now t = (z, u)" by fastforce
    have "answers u = answers t" "z \<noteq> None \<Longrightarrow> sent u = sent t"
      using publish_fields [OF u [unfolded dispatch_scheduled_action_def]] by simp_all
    with d u show ?thesis
      by (auto simp: assms(1) dispatch_and_remember_def call_simps last_dispatch_set
          split: option.splits if_splits)
  qed
  have g: "get_last_dispatch_time r (act_id a) (store t') = Inr (Some now)"
    if "guarded_dispatch env now a t = (p, t')" "sent t' \<noteq> sent t" "\<forall>i. answers t i = None" for t t' p
    using that d [of "t\<lparr>calls := calls t @ [BGetLast (act_id a)]\<rparr>"]
      d [of "t\<lparr>calls := calls t @ [BGetLast (act_id a), BInExecution (act_id a)]\<rparr>"]
    by (auto simp: guarded_dispatch_def call_simps split: option.splits sum.splits if_splits)
  obtain b st where l: "lock_acquire r (here (be_token env) s) (store s) = (b, st)" by fastforce
  obtain p s1 where p: "guarded_dispatch env now a (s\<lparr>calls := calls s @ [BLock], store := st\<rparr>) = (p, s1)"
    by fastforce
  show ?thesis
    using assms(2-) l p g [OF p]
    by (auto simp: assms(1) process_action_def call_simps Let_def last_dispatch_lock
        split: option.splits bool.splits)
qed

end


definition sample_action :: action where
  "sample_action = \<lparr>act_id = ''m.job'', act_cron = ''* * * * *'', act_allow_overlap = True, act_name = None\<rparr>"


subsection \<open>Waiting ends\<close>

lemma wait_rounds_spec:
  assumes "0 < step"
  shows "i \<le> wait_rounds step limit obs i
    \<and> (\<forall>j. i \<le> j \<and> j < wait_rounds step limit obs i \<longrightarrow>
         \<not> fst (obs j) \<and> \<not> snd (obs j) \<and> step * of_nat j < limit)
    \<and> (let k = wait_rounds step limit obs i in fst (obs k) \<or> snd (obs k) \<or> limit \<le> step * of_nat k)"
  using assms
proof (induction step limit obs i rule: wait_rounds.induct)
  case (1 step limit obs i)
  show ?case
  proof (cases "\<not> fst (obs i) \<and> step * of_nat i < limit \<and> \<not> snd (obs i)")
    case True
    then have w: "wait_rounds step limit obs i = wait_rounds step limit obs (Suc i)"
      using 1(2) by (subst wait_rounds.simps) simp
    have ih: "Suc i \<le> wait_rounds step limit obs (Suc i)"
      "\<forall>j. Suc i \<le> j \<and> j < wait_rounds step limit obs (Suc i) \<longrightarrow>
         \<not> fst (obs j) \<and> \<not> snd (obs j) \<and> step * of_nat j < limit"
      "let k = wait_rounds step limit obs (Suc i)
       in fst (obs k) \<or> snd (obs k) \<or> limit \<le> step * of_nat k"
      using 1 True by blast+
    show ?thesis unfolding w
      using ih True by (metis Suc_le_eq le_neq_implies_less less_imp_le_nat)
  next
    case False
    then have "wait_rounds step limit obs i = i" by (subst wait_rounds.simps) auto
    with False show ?thesis by auto
  qed
qed

text \<open>
  \<open>_wait_for_connection\<close> always ends, and it succeeds exactly when the connection becomes healthy
  within 60 rounds of half a second before a shutdown is requested.
\<close>

theorem wait_for_connection_decides:
  "wait_for_connection obs = None \<longleftrightarrow> (\<exists>i \<le> 60. fst (obs i) \<and> (\<forall>j < i. \<not> snd (obs j)))"
proof -
  define k where "k = wait_rounds (1/2) 30 obs 0"
  have spec: "\<forall>j < k. \<not> fst (obs j) \<and> \<not> snd (obs j) \<and> 1/2 * of_nat j < (30 :: rat)"
    "fst (obs k) \<or> snd (obs k) \<or> (30 :: rat) \<le> 1/2 * of_nat k"
    using wait_rounds_spec [of "1/2" 0 30 obs] by (simp_all add: k_def [symmetric] Let_def)
  have k60: "k \<le> 60"
  proof (rule ccontr)
    assume "\<not> k \<le> 60"
    then have "60 < k" by simp
    then show False using spec(1) [rule_format, of 60] by simp
  qed
  have none: "wait_for_connection obs = None \<longleftrightarrow> fst (obs k)"
    by (simp add: wait_for_connection_def k_def [symmetric] Let_def)
  show ?thesis
  proof
    assume "wait_for_connection obs = None"
    then show "\<exists>i \<le> 60. fst (obs i) \<and> (\<forall>j < i. \<not> snd (obs j))" using none k60 spec by blast
  next
    assume "\<exists>i \<le> 60. fst (obs i) \<and> (\<forall>j < i. \<not> snd (obs j))"
    then obtain i where i: "i \<le> 60" "fst (obs i)" "\<forall>j < i. \<not> snd (obs j)" by blast
    then have "k \<le> i" using spec by (meson not_le_imp_less)
    show "wait_for_connection obs = None"
    proof (cases "k = i")
      case True
      with none i show ?thesis by simp
    next
      case False
      with \<open>k \<le> i\<close> i have "k < i" "\<not> snd (obs k)" by simp_all
      moreover have "\<not> (30 :: rat) \<le> 1/2 * of_nat k" using \<open>k < i\<close> i(1) by simp
      ultimately show ?thesis using spec none by auto
    qed
  qed
qed

theorem wait_for_connection_decides_witness:
  "wait_for_connection (\<lambda>i. (i = 3, False)) = None"
proof -
  have "\<exists>i \<le> 60. fst (i = (3::nat), False) \<and> (\<forall>j < i. \<not> snd (j = 3, False))"
    by (rule exI [of _ 3]) simp
  then show ?thesis using wait_for_connection_decides [of "\<lambda>i. (i = 3, False)"] by blast
qed

end
