(* ===== verification/Retry_Chain.thy ===== *)
theory Retry_Chain
  imports Message_Handling Beat
begin

section \<open>The retry loop through worker, store and beat\<close>

text \<open>
  A failing message makes a round trip: the worker stores a copy with its counter incremented
  (\<^verbatim>\<open>messagebus/worker.py\<close>), the store hands the copy to a beat worker (\<^verbatim>\<open>broker_backend/\<close>), and the
  beat worker publishes it to the queue of the handler (\<^verbatim>\<open>scheduler/beat_worker.py\<close>), where it is a new
  delivery. This theory follows that loop.
\<close>

text \<open>What a consumer of the queue receives of a publication.\<close>

definition delivery :: "outgoing \<Rightarrow> incoming" where
  "delivery m = \<lparr>in_headers = out_headers m, in_body = out_body m, in_message_id = out_message_id m,
     in_content_type = out_content_type m, in_content_encoding = out_content_encoding m\<rparr>"

definition redelivery :: "string \<Rightarrow> delayed \<Rightarrow> incoming" where
  "redelivery exchange m = delivery (delayed_publication exchange m)"

lemma redelivery_count: "redelivers cb msg n m \<Longrightarrow> get_retry_count (redelivery exchange m) = Inr (n + 1)"
  by (auto simp: redelivers_def redelivery_def delivery_def delayed_publication_def get_retry_count_def)

fun stored_copy :: "bus_call list \<Rightarrow> delayed option" where
  "stored_copy [] = None"
| "stored_copy (Enqueue m # cs) = Some m"
| "stored_copy (c # cs) = stored_copy cs"

text \<open>
  The executions of a handler that always fails with \<open>e\<close>, when every call is answered with success:
  the call log of each, at most \<open>fuel\<close> of them. \<open>dump\<close> and \<open>load\<close> serialise the copy
  to some stored form and back.
\<close>

fun executions ::
  "nat \<Rightarrow> callback \<Rightarrow> bus_env \<Rightarrow> string \<Rightarrow> (delayed \<Rightarrow> 'p result) \<Rightarrow> ('p \<Rightarrow> delayed option) \<Rightarrow>
   exc \<Rightarrow> incoming \<Rightarrow> bus_call list list" where
  "executions 0 cb env exchange dump load e msg = []"
| "executions (Suc fuel) cb env exchange dump load e msg =
     (let run = calls (snd (handle_message cb env msg Valid False (HRaise e)
                  \<lparr>calls = [], answers = (\<lambda>_. None), disposed = None, callback_cached = False, metrics = []\<rparr>))
      in run # (case stored_copy run of
                  None \<Rightarrow> []
                | Some m \<Rightarrow>
                    (case dump m of
                       Inl _ \<Rightarrow> []
                     | Inr p \<Rightarrow>
                         (case load p of
                            None \<Rightarrow> []
                          | Some m' \<Rightarrow> executions fuel cb env exchange dump load e (redelivery exchange m')))))"

lemma stored_copy_reported: "stored_copy ([UowEnter] @ reported cb e @ cs) = stored_copy cs"
  by (simp add: reported_def)

lemma executions_budget:
  assumes "cb_queue_name cb \<noteq> None" "spec_nack_on_exception (cb_spec cb)" "plain_failure e"
    and "0 < backoff_factor (policy_of cb)" "\<forall>m. \<exists>p. dump m = Inr p \<and> load p = Some m"
  shows "get_retry_count msg = Inr n \<Longrightarrow> nat (max_retries (policy_of cb) - n) < fuel \<Longrightarrow>
    length (executions fuel cb env exchange dump load e msg) = Suc (nat (max_retries (policy_of cb) - n))
    \<and> last (executions fuel cb env exchange dump load e msg) =
        [UowEnter] @ reported cb e @ [Reject False, UowExit None]"
proof (induction fuel arbitrary: msg n)
  case (Suc fuel)
  define s :: bus where "s = \<lparr>calls = [], answers = (\<lambda>_. None), disposed = None, callback_cached = False,
    metrics = []\<rparr>"
  have s: "answers s (length (calls s)) = None" "no_base_exceptions s" "calls s = []"
    by (simp_all add: s_def no_base_exceptions_def)
  show ?case
  proof (cases "max_retries (policy_of cb) \<le> n")
    case True
    have "calls (snd (handle_message cb env msg Valid False (HRaise e) s)) =
        [UowEnter] @ reported cb e @ [Reject False, UowExit None]"
      using exhausted_run [OF assms(1) Suc.prems(1) _ assms(3,2) True s(1,2)] s(3) by simp
    with True show ?thesis
      by (simp add: s_def [symmetric] stored_copy_reported [simplified])
  next
    case False
    let ?i = "length (calls s @ [UowEnter] @ reported cb e)"
    obtain d where d: "compute_retry_delay (policy_of cb) n (rnd env ?i) = Inr d"
      using assms(4) by (auto simp: compute_retry_delay_def Let_def)
    obtain m where m: "redelivers cb msg n m"
      "calls (snd (handle_message cb env msg Valid False (HRaise e) s)) =
        [UowEnter] @ reported cb e @ [Enqueue m, Ack, UowExit None]"
      using retried_run [OF assms(1) Suc.prems(1) _ assms(3,2) _ s(1,2) refl d] False s(3)
        retry_copy_redelivers by (fastforce simp: s_def)
    obtain p where p: "dump m = Inr p" "load p = Some m" using assms(5) by blast
    have "nat (max_retries (policy_of cb) - (n + 1)) < fuel"
      using Suc.prems(2) False by linarith
    from Suc.IH [OF redelivery_count [OF m(1), of exchange] this] m(2) p False show ?thesis
      by (auto simp: s_def [symmetric] stored_copy_reported [simplified])
  qed
qed simp





end
