(* ===== verification/Worker_Slots.thy ===== *)
theory Worker_Slots
  imports Message_Handling
begin

section \<open>Deliveries, tasks and processing slots\<close>

text \<open>
  The part of \<open>AioPikaMicroserviceConsumer\<close> (\<^verbatim>\<open>messagebus/worker.py\<close>) that admits deliveries and bounds
  how many handlers run: \<open>message_consumer\<close> and \<open>ScheduledMessageHandlerCallback.__call__\<close> create tasks,
  \<open>processing_slot\<close> holds a semaphore per channel while a handler runs, and the done callbacks forget
  finished tasks. The event loop interleaves these steps in any order; the consumer is a state
  machine and its properties hold in every reachable state.
\<close>

subsection \<open>State\<close>

datatype phase = Waiting | Running | Done

record task =
  tk_queue :: string
  tk_channel :: string
  tk_scheduled :: bool  \<comment> \<open>created by a scheduled callback\<close>
  tk_phase :: phase

text \<open>
  \<open>semaphores\<close> is \<open>processing_slots\<close>: the free permits of each semaphore that exists. \<open>current_task\<close> is
  the \<open>_current_task\<close> of the scheduled callback of a queue. Tasks are numbered in the order of their
  creation.
\<close>

record consumer =
  prefetch_by_channel_id :: "(string \<times> int) list"
  default_prefetch_count :: int
  semaphores :: "string \<Rightarrow> nat option"
  tasks :: "nat \<Rightarrow> task option"
  next_task :: nat
  current_task :: "string \<Rightarrow> nat option"
  shutting_down :: bool
  healthy :: bool

definition get_channel_prefetch_count :: "consumer \<Rightarrow> string \<Rightarrow> int" where
  "get_channel_prefetch_count c channel_id =
     (case map_of (prefetch_by_channel_id c) channel_id of
        Some n \<Rightarrow> n | None \<Rightarrow> default_prefetch_count c)"

text \<open>The free permits of the channel's semaphore, which is created on first use; \<open>None\<close>: unbounded.\<close>

definition get_processing_slot :: "consumer \<Rightarrow> string \<Rightarrow> nat option \<times> consumer" where
  "get_processing_slot c channel_id =
     (let prefetch_count = get_channel_prefetch_count c channel_id
      in if prefetch_count \<le> 0 then (None, c)
         else (case semaphores c channel_id of
                 Some n \<Rightarrow> (Some n, c)
               | None \<Rightarrow> (Some (nat prefetch_count),
                          c\<lparr>semaphores := (semaphores c)(channel_id \<mapsto> nat prefetch_count)\<rparr>)))"

subsection \<open>Operations\<close>

datatype admission = Requeue | Skip | Started nat

definition create_task :: "bool \<Rightarrow> string \<Rightarrow> string \<Rightarrow> consumer \<Rightarrow> admission \<times> consumer" where
  "create_task scheduled queue_name channel_id c =
     (Started (next_task c),
      c\<lparr>tasks := (tasks c)(next_task c \<mapsto>
           \<lparr>tk_queue = queue_name, tk_channel = channel_id, tk_scheduled = scheduled,
            tk_phase = Waiting\<rparr>),
        next_task := Suc (next_task c)\<rparr>)"

definition message_consumer :: "string \<Rightarrow> string \<Rightarrow> consumer \<Rightarrow> admission \<times> consumer" where
  "message_consumer queue_name channel_id c =
     (if shutting_down c then (Requeue, c)
      else if \<not> healthy c then (Requeue, c)
      else create_task False queue_name channel_id c)"

text \<open>\<open>self._current_task is not None and not self._current_task.done()\<close>\<close>

definition still_running :: "consumer \<Rightarrow> string \<Rightarrow> bool" where
  "still_running c queue_name =
     (case current_task c queue_name of
        None \<Rightarrow> False
      | Some t \<Rightarrow> (case tasks c t of None \<Rightarrow> False | Some i \<Rightarrow> tk_phase i \<noteq> Done))"

definition scheduled_call :: "string \<Rightarrow> string \<Rightarrow> consumer \<Rightarrow> admission \<times> consumer" where
  "scheduled_call queue_name channel_id c =
     (if shutting_down c then (Requeue, c)
      else if \<not> healthy c then (Requeue, c)
      else if still_running c queue_name then (Skip, c)
      else (case create_task True queue_name channel_id c of
              (a, c') \<Rightarrow> (a, c'\<lparr>current_task := (current_task c')(queue_name \<mapsto> next_task c)\<rparr>)))"

definition set_phase :: "nat \<Rightarrow> phase \<Rightarrow> consumer \<Rightarrow> consumer" where
  "set_phase t p c =
     (case tasks c t of
        Some i \<Rightarrow> c\<lparr>tasks := (tasks c)(t \<mapsto> i\<lparr>tk_phase := p\<rparr>)\<rparr>
      | None \<Rightarrow> c)"

text \<open>Entering \<open>processing_slot\<close>: \<open>None\<close> when the task has to wait for a permit.\<close>

definition enter_slot :: "nat \<Rightarrow> consumer \<Rightarrow> consumer option" where
  "enter_slot t c =
     (case tasks c t of
        Some i \<Rightarrow>
          if tk_phase i = Waiting
          then (case get_processing_slot c (tk_channel i) of
                  (None, c1) \<Rightarrow> Some (set_phase t Running c1)
                | (Some 0, c1) \<Rightarrow> None
                | (Some (Suc n), c1) \<Rightarrow>
                    Some (set_phase t Running (c1\<lparr>semaphores := (semaphores c1)(tk_channel i \<mapsto> n)\<rparr>)))
          else None
      | None \<Rightarrow> None)"

text \<open>Leaving it, by whatever way the handler ends.\<close>

definition leave_slot :: "nat \<Rightarrow> consumer \<Rightarrow> consumer option" where
  "leave_slot t c =
     (case tasks c t of
        Some i \<Rightarrow>
          if tk_phase i = Running
          then Some (set_phase t Done
                 (if get_channel_prefetch_count c (tk_channel i) \<le> 0 then c
                  else c\<lparr>semaphores := (semaphores c)(tk_channel i :=
                           map_option Suc (semaphores c (tk_channel i)))\<rparr>))
          else None
      | None \<Rightarrow> None)"

text \<open>\<open>handle_message_consume_done\<close>\<close>

definition handle_message_consume_done :: "nat \<Rightarrow> consumer \<Rightarrow> consumer" where
  "handle_message_consume_done t c = c\<lparr>tasks := (tasks c)(t := None)\<rparr>"

inductive consumer_step :: "consumer \<Rightarrow> consumer \<Rightarrow> bool" where
  deliver: "consumer_step c (snd (message_consumer q ch c))"
| trigger: "consumer_step c (snd (scheduled_call q ch c))"
| start: "enter_slot t c = Some c' \<Longrightarrow> consumer_step c c'"
| finish: "leave_slot t c = Some c' \<Longrightarrow> consumer_step c c'"
| cancel: "tasks c t = Some i \<Longrightarrow> tk_phase i = Waiting \<Longrightarrow> consumer_step c (set_phase t Done c)"
| reap: "tasks c t = Some i \<Longrightarrow> tk_phase i = Done \<Longrightarrow>
    consumer_step c (handle_message_consume_done t c)"
| shutdown: "consumer_step c (c\<lparr>shutting_down := True\<rparr>)"
| health: "consumer_step c (c\<lparr>healthy := h\<rparr>)"

definition consumer_init :: "(string \<times> int) list \<Rightarrow> int \<Rightarrow> consumer" where
  "consumer_init by_channel n = \<lparr>prefetch_by_channel_id = by_channel, default_prefetch_count = n,
     semaphores = (\<lambda>_. None), tasks = (\<lambda>_. None), next_task = 0, current_task = (\<lambda>_. None),
     shutting_down = False, healthy = False\<rparr>"

inductive consumer_reach :: "consumer \<Rightarrow> bool" where
  init: "consumer_reach (consumer_init by_channel n)"
| step: "consumer_reach c \<Longrightarrow> consumer_step c c' \<Longrightarrow> consumer_reach c'"

subsection \<open>The prefetch bound\<close>

definition running :: "consumer \<Rightarrow> string \<Rightarrow> nat set" where
  "running c ch = {t. \<exists>i. tasks c t = Some i \<and> tk_channel i = ch \<and> tk_phase i = Running}"

text \<open>The permits taken and the permits free make up the prefetch count of a bounded channel.\<close>

definition slots_inv :: "consumer \<Rightarrow> bool" where
  "slots_inv c = (finite (dom (tasks c))
     \<and> (\<forall>ch. 0 < get_channel_prefetch_count c ch \<longrightarrow>
          (case semaphores c ch of
             None \<Rightarrow> running c ch = {}
           | Some free \<Rightarrow> int (card (running c ch) + free) = get_channel_prefetch_count c ch)))"

lemma finite_running: "finite (dom (tasks c)) \<Longrightarrow> finite (running c ch)"
  by (rule finite_subset [of _ "dom (tasks c)"]) (auto simp: running_def)

lemma prefetch_cong:
  "prefetch_by_channel_id c' = prefetch_by_channel_id c \<Longrightarrow>
   default_prefetch_count c' = default_prefetch_count c \<Longrightarrow>
   get_channel_prefetch_count c' ch = get_channel_prefetch_count c ch"
  by (simp add: get_channel_prefetch_count_def split: option.split)

lemma slots_inv_cong:
  assumes "prefetch_by_channel_id c' = prefetch_by_channel_id c"
    and "default_prefetch_count c' = default_prefetch_count c" and "semaphores c' = semaphores c"
    and "finite (dom (tasks c')) = finite (dom (tasks c))" and "\<And>ch. running c' ch = running c ch"
  shows "slots_inv c' = slots_inv c"
  using assms by (simp add: slots_inv_def prefetch_cong [OF assms(1,2)] cong: option.case_cong)

text \<open>A change of one task that is not and does not become running changes nothing.\<close>

lemma running_idle_update:
  assumes "t \<notin> running c ch" "\<forall>i. x = Some i \<longrightarrow> tk_phase i \<noteq> Running" "tasks c' = (tasks c)(t := x)"
  shows "running c' ch = running c ch"
  using assms by (auto simp: running_def)

lemma finite_dom_update: "finite (dom (m(t := x))) = finite (dom m)"
  by (cases x) (simp_all add: dom_fun_upd)

lemma slots_inv_idle:
  assumes "slots_inv c" "\<And>i. tasks c t = Some i \<Longrightarrow> tk_phase i \<noteq> Running"
    and "\<forall>i. x = Some i \<longrightarrow> tk_phase i \<noteq> Running"
    and "tasks c' = (tasks c)(t := x)" "prefetch_by_channel_id c' = prefetch_by_channel_id c"
    and "default_prefetch_count c' = default_prefetch_count c" "semaphores c' = semaphores c"
  shows "slots_inv c'"
proof -
  have "t \<notin> running c ch" for ch using assms(2) by (auto simp: running_def)
  then have "running c' ch = running c ch" for ch by (rule running_idle_update [OF _ assms(3,4)])
  with assms(1,5-7) show ?thesis
    by (simp add: slots_inv_cong [of c' c] assms(4) finite_dom_update)
qed

definition tasks_fresh :: "consumer \<Rightarrow> bool" where
  "tasks_fresh c = (\<forall>t. next_task c \<le> t \<longrightarrow> tasks c t = None)"

lemma create_task_inv:
  assumes "slots_inv c" "tasks_fresh c" "create_task b q ch c = (a, c')"
  shows "slots_inv c' \<and> tasks_fresh c'"
proof
  show "slots_inv c'"
    by (rule slots_inv_idle [where c = c and t = "next_task c"
          and x = "Some \<lparr>tk_queue = q, tk_channel = ch, tk_scheduled = b, tk_phase = Waiting\<rparr>"])
      (use assms in \<open>auto simp: create_task_def tasks_fresh_def\<close>)
  show "tasks_fresh c'" using assms by (auto simp: create_task_def tasks_fresh_def)
qed

lemma running_set_phase:
  assumes "tasks c t = Some i"
  shows "running (set_phase t Running c) ch = (if ch = tk_channel i then insert t (running c ch) else running c ch - {t})"
    and "running (set_phase t Done c) ch = running c ch - {t}"
  using assms by (auto simp: running_def set_phase_def)

lemma set_phase_simps [simp]:
  "semaphores (set_phase t p c) = semaphores c"
  "prefetch_by_channel_id (set_phase t p c) = prefetch_by_channel_id c"
  "default_prefetch_count (set_phase t p c) = default_prefetch_count c"
  "next_task (set_phase t p c) = next_task c" "current_task (set_phase t p c) = current_task c"
  "get_channel_prefetch_count (set_phase t p c) ch = get_channel_prefetch_count c ch"
  "dom (tasks (set_phase t p c)) = dom (tasks c)"
  by (auto simp: set_phase_def get_channel_prefetch_count_def split: option.split)

lemma semaphores_update_simps [simp]:
  "get_channel_prefetch_count (c\<lparr>semaphores := x\<rparr>) ch = get_channel_prefetch_count c ch"
  "running (c\<lparr>semaphores := x\<rparr>) ch = running c ch"
  by (simp_all add: get_channel_prefetch_count_def running_def split: option.split)

lemma enter_slot_inv:
  assumes "slots_inv c" "enter_slot t c = Some c'"
  shows "slots_inv c'"
proof -
  obtain i where i: "tasks c t = Some i" "tk_phase i = Waiting"
    using assms(2) by (auto simp: enter_slot_def split: option.splits if_splits)
  then have idle: "t \<notin> running c ch" for ch by (auto simp: running_def)
  have fin: "finite (dom (tasks c))" using assms(1) by (simp add: slots_inv_def)
  let ?ch = "tk_channel i"
  show ?thesis
  proof (cases "get_channel_prefetch_count c ?ch \<le> 0")
    case True
    then have "c' = set_phase t Running c"
      using assms(2) i by (simp add: enter_slot_def get_processing_slot_def)
    with True assms(1) i idle show ?thesis
      by (auto simp: slots_inv_def running_set_phase [OF i(1)] split: option.split)
  next
    case False
    define f where "f = (case semaphores c ?ch of Some n \<Rightarrow> n | None \<Rightarrow> nat (get_channel_prefetch_count c ?ch))"
    have f: "int (card (running c ?ch) + f) = get_channel_prefetch_count c ?ch"
      using assms(1) False by (auto simp: slots_inv_def f_def not_le split: option.splits)
    have c': "0 < f" "c' = set_phase t Running (c\<lparr>semaphores := (semaphores c)(?ch \<mapsto> f - 1)\<rparr>)"
      using assms(2) i False
      by (auto simp: enter_slot_def get_processing_slot_def f_def Let_def split: option.splits nat.splits)
    have r: "running c' ch = (if ch = ?ch then insert t (running c ch) else running c ch)" for ch
      using running_set_phase(1) [of "c\<lparr>semaphores := (semaphores c)(?ch \<mapsto> f - 1)\<rparr>" t i ch] i(1) idle
      by (simp add: c'(2))
    have cp: "get_channel_prefetch_count c' ch = get_channel_prefetch_count c ch"
      "semaphores c' = (semaphores c)(?ch \<mapsto> f - 1)" "dom (tasks c') = dom (tasks c)" for ch
      by (simp_all add: c'(2))
    show ?thesis
      using assms(1) c'(1) f fin idle
      by (auto simp: slots_inv_def r cp finite_running split: option.splits)
  qed
qed

lemma leave_slot_inv:
  assumes "slots_inv c" "leave_slot t c = Some c'"
  shows "slots_inv c'"
proof -
  obtain i where i: "tasks c t = Some i" "tk_phase i = Running"
    using assms(2) by (auto simp: leave_slot_def split: option.splits if_splits)
  let ?ch = "tk_channel i"
  have t: "t \<in> running c ch \<longleftrightarrow> ch = ?ch" for ch using i by (auto simp: running_def)
  have fin: "finite (dom (tasks c))" using assms(1) by (simp add: slots_inv_def)
  define u where "u = (if get_channel_prefetch_count c ?ch \<le> 0 then c
    else c\<lparr>semaphores := (semaphores c)(?ch := map_option Suc (semaphores c ?ch))\<rparr>)"
  have c': "c' = set_phase t Done u"
    using assms(2) i by (simp add: leave_slot_def u_def)
  have r: "running c' ch = running c ch - {t}" for ch
    using running_set_phase(2) [of u t i ch] i(1) by (simp add: c' u_def split: if_splits)
  have cp: "get_channel_prefetch_count c' ch = get_channel_prefetch_count c ch"
    "dom (tasks c') = dom (tasks c)"
    "0 < get_channel_prefetch_count c ch \<Longrightarrow> semaphores c' ch =
       (if ch = ?ch then map_option Suc (semaphores c ch) else semaphores c ch)" for ch
    by (auto simp: c' u_def)
  have one: "card (running c ?ch) = Suc (card (running c ?ch - {t}))"
    by (rule card.remove) (use t fin finite_running in auto)
  show ?thesis
    using assms(1) fin t one
    by (auto simp: slots_inv_def r cp split: option.splits)
qed

lemma set_phase_Done_inv:
  assumes "slots_inv c" "tasks c t = Some i" "tk_phase i = Waiting"
  shows "slots_inv (set_phase t Done c)"
  by (rule slots_inv_idle [OF assms(1), where t = t and x = "Some (i\<lparr>tk_phase := Done\<rparr>)"])
    (use assms in \<open>auto simp: set_phase_def\<close>)

lemma reap_inv:
  assumes "slots_inv c" "tasks c t = Some i" "tk_phase i = Done"
  shows "slots_inv (handle_message_consume_done t c)"
  by (rule slots_inv_idle [OF assms(1), where t = t and x = None])
    (use assms in \<open>auto simp: handle_message_consume_done_def\<close>)

lemma slots_inv_flags [simp]:
  "slots_inv (c\<lparr>shutting_down := b\<rparr>) = slots_inv c" "slots_inv (c\<lparr>healthy := b\<rparr>) = slots_inv c"
  "slots_inv (c\<lparr>current_task := x\<rparr>) = slots_inv c"
  by (rule slots_inv_cong; simp add: running_def)+

lemma tasks_fresh_flags [simp]:
  "tasks_fresh (c\<lparr>shutting_down := b\<rparr>) = tasks_fresh c" "tasks_fresh (c\<lparr>healthy := b\<rparr>) = tasks_fresh c"
  "tasks_fresh (c\<lparr>current_task := x\<rparr>) = tasks_fresh c"
  by (simp_all add: tasks_fresh_def)

lemma tasks_fresh_dom:
  "dom (tasks c') \<subseteq> dom (tasks c) \<Longrightarrow> next_task c' = next_task c \<Longrightarrow> tasks_fresh c \<Longrightarrow> tasks_fresh c'"
  by (fastforce simp: tasks_fresh_def)

lemma slot_dom:
  "enter_slot t c = Some c' \<Longrightarrow> dom (tasks c') = dom (tasks c) \<and> next_task c' = next_task c"
  "leave_slot t c = Some c' \<Longrightarrow> dom (tasks c') = dom (tasks c) \<and> next_task c' = next_task c"
  by (clarsimp simp: enter_slot_def leave_slot_def get_processing_slot_def Let_def
      split: option.splits if_splits nat.splits)+

lemma consumer_step_inv:
  assumes "consumer_step c c'" "slots_inv c" "tasks_fresh c"
  shows "slots_inv c' \<and> tasks_fresh c'"
  using assms(1)
proof cases
  case (deliver q ch)
  with assms(2,3) create_task_inv [OF assms(2,3)] show ?thesis
    by (cases "create_task False q ch c") (auto simp: message_consumer_def)
next
  case (trigger q ch)
  with assms(2,3) create_task_inv [OF assms(2,3)] show ?thesis
    by (cases "create_task True q ch c") (auto simp: scheduled_call_def)
next
  case (start t)
  with assms(2,3) show ?thesis using enter_slot_inv slot_dom(1) tasks_fresh_dom by (metis order_refl)
next
  case (finish t)
  with assms(2,3) show ?thesis using leave_slot_inv slot_dom(2) tasks_fresh_dom by (metis order_refl)
next
  case (cancel t i)
  with assms(2,3) show ?thesis
    using set_phase_Done_inv [of c t i] tasks_fresh_dom [of "set_phase t Done c" c] by simp
next
  case (reap t i)
  with assms(2,3) show ?thesis
    using reap_inv [of c t i] tasks_fresh_dom [of c' c] by (auto simp: handle_message_consume_done_def)
qed (use assms(2,3) in simp_all)

lemma consumer_reach_inv: "consumer_reach c \<Longrightarrow> slots_inv c \<and> tasks_fresh c"
proof (induction rule: consumer_reach.induct)
  case (init by_channel n)
  then show ?case by (simp add: consumer_init_def slots_inv_def tasks_fresh_def running_def)
qed (use consumer_step_inv in blast)

text \<open>
  (C9) At most \<open>prefetch_count\<close> handlers of a channel run at the same time, in every reachable state of
  the consumer: whatever the order in which deliveries arrive, handlers settle early, finish, fail or
  are cancelled.
\<close>

theorem handlers_bounded_by_prefetch:
  assumes "consumer_reach c" and "0 < get_channel_prefetch_count c ch"
  shows "int (card (running c ch)) \<le> get_channel_prefetch_count c ch"
  using consumer_reach_inv [OF assms(1)] assms(2)
  by (auto simp: slots_inv_def split: option.splits)

text \<open>A consumer with one delivery admitted and running.\<close>

definition sample_consumer :: consumer where
  "sample_consumer =
     the (enter_slot 0 (snd (message_consumer ''q'' ''ch'' ((consumer_init [(''ch'', 1)] 10)\<lparr>healthy := True\<rparr>))))"

lemmas consumer_eval = consumer_init_def message_consumer_def create_task_def
  enter_slot_def get_processing_slot_def get_channel_prefetch_count_def set_phase_def

lemma sample_consumer_eq:
  "enter_slot 0 (snd (message_consumer ''q'' ''ch'' ((consumer_init [(''ch'', 1)] 10)\<lparr>healthy := True\<rparr>)))
     = Some sample_consumer"
  by (simp add: sample_consumer_def consumer_eval)

lemma sample_consumer_reach: "consumer_reach sample_consumer"
proof -
  let ?c = "(consumer_init [(''ch'', 1)] 10)\<lparr>healthy := True\<rparr>"
  have "consumer_reach ?c" using consumer_reach.init consumer_reach.step consumer_step.health by blast
  then have "consumer_reach (snd (message_consumer ''q'' ''ch'' ?c))"
    using consumer_reach.step consumer_step.deliver by blast
  then show ?thesis
    using consumer_reach.step consumer_step.start [OF sample_consumer_eq] by blast
qed

theorem handlers_bounded_by_prefetch_witness:
  "consumer_reach sample_consumer \<and> 0 \<in> running sample_consumer ''ch''
   \<and> int (card (running sample_consumer ''ch'')) \<le> 1"
  using handlers_bounded_by_prefetch [OF sample_consumer_reach, of "''ch''"] sample_consumer_reach
  by (simp add: sample_consumer_def consumer_eval running_def)

text \<open>
  A delivery waits for a slot only when its channel is saturated: in every reachable state, a task
  that cannot enter finds exactly \<open>prefetch_count\<close> handlers of its channel running.
\<close>

theorem slot_wait_means_saturated:
  assumes "consumer_reach c" and "tasks c t = Some i" and "tk_phase i = Waiting"
    and "enter_slot t c = None"
  shows "0 < get_channel_prefetch_count c (tk_channel i)
    \<and> int (card (running c (tk_channel i))) = get_channel_prefetch_count c (tk_channel i)"
proof -
  have inv: "slots_inv c" using consumer_reach_inv [OF assms(1)] by simp
  have e: "0 < get_channel_prefetch_count c (tk_channel i)" "semaphores c (tk_channel i) = Some 0"
    using assms(2-4)
    by (auto simp: enter_slot_def get_processing_slot_def Let_def not_le
        split: option.splits if_splits nat.splits)
  from inv e(1) have "case semaphores c (tk_channel i) of None \<Rightarrow> running c (tk_channel i) = {}
    | Some free \<Rightarrow> int (card (running c (tk_channel i)) + free) = get_channel_prefetch_count c (tk_channel i)"
    by (simp add: slots_inv_def)
  with e show ?thesis by simp
qed

theorem slot_wait_means_saturated_witness:
  "let c = snd (message_consumer ''q'' ''ch'' sample_consumer)
   in enter_slot 1 c = None \<and> int (card (running c ''ch'')) = 1"
proof -
  define c where "c = snd (message_consumer ''q'' ''ch'' sample_consumer)"
  have "consumer_reach c"
    unfolding c_def using sample_consumer_reach consumer_reach.step consumer_step.deliver by blast
  moreover have "tasks c 1 = Some \<lparr>tk_queue = ''q'', tk_channel = ''ch'', tk_scheduled = False, tk_phase = Waiting\<rparr>"
    "enter_slot 1 c = None" "get_channel_prefetch_count c ''ch'' = 1"
    by (simp_all add: c_def sample_consumer_def consumer_eval)
  ultimately show ?thesis
    using slot_wait_means_saturated [of c 1] by (simp add: c_def [symmetric] Let_def)
qed

subsection \<open>Scheduled actions do not overlap\<close>

text \<open>A scheduled task that is not done is the current task of its queue.\<close>

definition scheduled_inv :: "consumer \<Rightarrow> bool" where
  "scheduled_inv c = (\<forall>t i. tasks c t = Some i \<and> tk_scheduled i \<and> tk_phase i \<noteq> Done \<longrightarrow>
     current_task c (tk_queue i) = Some t)"

text \<open>Steps that leave \<open>current_task\<close> alone and only move tasks on keep the invariant.\<close>

lemma scheduled_inv_mono:
  assumes "scheduled_inv c" "current_task c' = current_task c"
    and "\<And>t i. tasks c' t = Some i \<Longrightarrow> tk_scheduled i \<Longrightarrow> tk_phase i \<noteq> Done \<Longrightarrow>
      \<exists>j. tasks c t = Some j \<and> tk_scheduled j \<and> tk_phase j \<noteq> Done \<and> tk_queue j = tk_queue i"
  shows "scheduled_inv c'"
  using assms by (metis (no_types, opaque_lifting) scheduled_inv_def)

lemma enter_leave_tasks:
  assumes "enter_slot t c = Some c' \<or> leave_slot t c = Some c'"
  shows "current_task c' = current_task c" "\<exists>i p. tasks c t = Some i \<and> tk_phase i \<noteq> Done
    \<and> tasks c' = (tasks c)(t \<mapsto> i\<lparr>tk_phase := p\<rparr>)"
  using assms
  by (auto simp: enter_slot_def leave_slot_def get_processing_slot_def set_phase_def Let_def
      split: option.splits if_splits nat.splits)

lemma scheduled_inv_slot:
  assumes "enter_slot t c = Some c' \<or> leave_slot t c = Some c'" "scheduled_inv c"
  shows "scheduled_inv c'"
proof -
  obtain i p where "tasks c t = Some i" "tk_phase i \<noteq> Done" "tasks c' = (tasks c)(t \<mapsto> i\<lparr>tk_phase := p\<rparr>)"
    using enter_leave_tasks(2) [OF assms(1)] by blast
  with enter_leave_tasks(1) [OF assms(1)] show ?thesis
    by (intro scheduled_inv_mono [OF assms(2)]) (auto split: if_splits)
qed

lemma scheduled_inv_step:
  assumes "consumer_step c c'" "scheduled_inv c" "tasks_fresh c"
  shows "scheduled_inv c'"
  using assms(1)
proof cases
  case (deliver q ch)
  with assms(2) show ?thesis by (auto simp: message_consumer_def create_task_def scheduled_inv_def)
next
  case (trigger q ch)
  with assms(2) show ?thesis
    by (fastforce simp: scheduled_call_def create_task_def scheduled_inv_def still_running_def
        split: option.splits)
next
  case (start t)
  then show ?thesis using scheduled_inv_slot assms(2) by blast
next
  case (finish t)
  then show ?thesis using scheduled_inv_slot assms(2) by blast
next
  case (cancel t i)
  then show ?thesis
    by (auto intro!: scheduled_inv_mono [OF assms(2)] simp: set_phase_def split: if_splits)
next
  case (reap t i)
  then show ?thesis
    by (auto intro!: scheduled_inv_mono [OF assms(2)] simp: handle_message_consume_done_def split: if_splits)
qed (use assms(2) in \<open>simp_all add: scheduled_inv_def\<close>)

lemma consumer_reach_scheduled: "consumer_reach c \<Longrightarrow> scheduled_inv c"
proof (induction rule: consumer_reach.induct)
  case (init by_channel n)
  then show ?case by (simp add: consumer_init_def scheduled_inv_def)
next
  case (step c c')
  then show ?case using scheduled_inv_step consumer_reach_inv by blast
qed

text \<open>
  (C12) Two executions of a scheduled action never overlap in one worker: in every reachable state two
  unfinished tasks of a scheduled queue are the same task.
\<close>

theorem scheduled_actions_do_not_overlap:
  assumes "consumer_reach c" and "tasks c t = Some i" and "tasks c u = Some j"
    and "tk_scheduled i" and "tk_scheduled j" and "tk_queue i = tk_queue j"
    and "tk_phase i \<noteq> Done" and "tk_phase j \<noteq> Done"
  shows "t = u"
proof -
  have "current_task c (tk_queue i) = Some t" "current_task c (tk_queue j) = Some u"
    using consumer_reach_scheduled [OF assms(1)] assms(2-5,7,8) by (simp_all add: scheduled_inv_def)
  with assms(6) show ?thesis by simp
qed

definition sample_scheduled :: consumer where
  "sample_scheduled = snd (scheduled_call ''m.job'' ''ch'' ((consumer_init [] 10)\<lparr>healthy := True\<rparr>))"

theorem scheduled_actions_do_not_overlap_witness:
  "consumer_reach sample_scheduled
   \<and> {u. \<exists>j. tasks sample_scheduled u = Some j \<and> tk_scheduled j \<and> tk_queue j = ''m.job'' \<and> tk_phase j \<noteq> Done} = {0}"
proof -
  have r: "consumer_reach sample_scheduled"
    unfolding sample_scheduled_def
    using consumer_reach.init consumer_reach.step consumer_step.health consumer_step.trigger by blast
  have t: "tasks sample_scheduled 0 =
      Some \<lparr>tk_queue = ''m.job'', tk_channel = ''ch'', tk_scheduled = True, tk_phase = Waiting\<rparr>"
    by (simp add: sample_scheduled_def scheduled_call_def still_running_def consumer_eval)
  from r t show ?thesis using scheduled_actions_do_not_overlap [OF r t] by auto
qed

end
