(* ===== verification/Worker_Config.thy ===== *)
theory Worker_Config
  imports Retry
begin

section \<open>Configuration of the worker\<close>

text \<open>
  \<^verbatim>\<open>utils/env_parse_utils.py\<close> and \<open>create_message_bus_consumer\<close> of \<^verbatim>\<open>messagebus/worker.py\<close>, which turns the
  broker URL and the environment into an \<open>AioPikaWorkerConfig\<close>. The environment is a partial function.
  \<open>unquote\<close> is the percent decoding of \<open>parse_qs\<close>, and \<open>to_float\<close> reads the finite floats \<open>float(s)\<close> accepts.
\<close>

type_synonym environ = "string \<Rightarrow> string option"

subsection \<open>Environment variables\<close>

definition AFFIRMATIVE_STRINGS :: "string list" where
  "AFFIRMATIVE_STRINGS = [''1'', ''true'', ''yes'', ''on'']"

definition NEGATIVE_STRINGS :: "string list" where
  "NEGATIVE_STRINGS = [''0'', ''false'', ''no'', ''off'']"

definition get_env_bool :: "environ \<Rightarrow> string \<Rightarrow> bool option \<Rightarrow> bool option result" where
  "get_env_bool env var_name dflt =
     (case env var_name of
        None \<Rightarrow> Inr dflt
      | Some value \<Rightarrow>
          if py_lower value \<in> set AFFIRMATIVE_STRINGS then Inr (Some True)
          else if py_lower value \<in> set NEGATIVE_STRINGS then Inr (Some False)
          else Inl (Exc ValueError ''invalid boolean value''))"

definition get_abs_env_bool :: "environ \<Rightarrow> string \<Rightarrow> bool option \<Rightarrow> bool result" where
  "get_abs_env_bool env var_name dflt =
     (case get_env_bool env var_name dflt of
        Inl e \<Rightarrow> Inl e
      | Inr (Some b) \<Rightarrow> Inr b
      | Inr None \<Rightarrow> (case dflt of
                       None \<Rightarrow> Inl (Exc ValueError ''not set and no default value provided'')
                     | Some b \<Rightarrow> Inr b))"

definition get_env_int :: "environ \<Rightarrow> string \<Rightarrow> int option \<Rightarrow> int option result" where
  "get_env_int env var_name dflt =
     (case env var_name of
        None \<Rightarrow> Inr dflt
      | Some value \<Rightarrow> (case py_int value of
                         Some i \<Rightarrow> Inr (Some i)
                       | None \<Rightarrow> Inl (Exc ValueError ''invalid integer value'')))"

definition get_env_str :: "environ \<Rightarrow> string \<Rightarrow> string option \<Rightarrow> string option" where
  "get_env_str env var_name dflt =
     (case env var_name of None \<Rightarrow> dflt | Some value \<Rightarrow> Some value)"

subsection \<open>Query strings\<close>

fun split_eq :: "string \<Rightarrow> (string \<times> string) option" where
  "split_eq [] = None"
| "split_eq (c # cs) =
     (if c = CHR ''='' then Some ([], cs) else map_option (\<lambda>(k, v). (c # k, v)) (split_eq cs))"

text \<open>\<open>parse_qs\<close>: pairs with an empty value are dropped, the values of a key are collected in order.\<close>

definition query_pairs :: "(string \<Rightarrow> string) \<Rightarrow> string \<Rightarrow> (string \<times> string) list" where
  "query_pairs unquote q =
     List.map_filter (\<lambda>item. case split_eq item of
        Some (k, v) \<Rightarrow> if v = [] then None else Some (unquote k, unquote v)
      | None \<Rightarrow> None) (py_split (CHR ''&'') q)"

definition parse_qs :: "(string \<Rightarrow> string) \<Rightarrow> string \<Rightarrow> string \<Rightarrow> string list" where
  "parse_qs unquote q key = map snd (filter (\<lambda>(k, v). k = key) (query_pairs unquote q))"

subsection \<open>\<open>AioPikaWorkerConfig\<close>\<close>

record worker_config =
  cfg_exchange :: string
  cfg_default_prefetch_count :: int
  cfg_shared_default_channel :: bool
  cfg_prefetch_by_channel_id :: "(string \<times> int) list"
  cfg_qos_global :: bool
  cfg_connection_retry_config :: retry_policy
  cfg_consumer_retry_policy :: retry_policy
  cfg_connection_heartbeat_interval :: rat
  cfg_connection_health_check_interval :: rat

text \<open>\<open>{item.split(":")[0]: int(item.split(":")[1]) for item in raw.split(",")}\<close>\<close>

fun prefetch_item :: "string \<Rightarrow> (string \<times> int) option" where
  "prefetch_item item =
     (case py_split (CHR '':'') item of
        k # n # rest \<Rightarrow> map_option (\<lambda>i. (k, i)) (py_int n)
      | _ \<Rightarrow> None)"

fun prefetch_items :: "string list \<Rightarrow> (string \<times> int) list \<Rightarrow> (string \<times> int) list option" where
  "prefetch_items [] d = Some d"
| "prefetch_items (item # items) d =
     (case prefetch_item item of
        Some (k, i) \<Rightarrow> prefetch_items items (dict_set k i d)
      | None \<Rightarrow> None)"

definition parse_prefetch_by_channel :: "string \<Rightarrow> (string \<times> int) list result" where
  "parse_prefetch_by_channel raw =
     (if raw = [] then Inr []
      else case prefetch_items (py_split (CHR '','') raw) [] of
             Some d \<Rightarrow> Inr d
           | None \<Rightarrow> Inl (Exc ValueError ''Invalid format''))"

definition prefetch_count_raw :: "environ \<Rightarrow> (string \<Rightarrow> string list) \<Rightarrow> string option" where
  "prefetch_count_raw env params =
     (case params ''prefetch_count'' of
        [v] \<Rightarrow> Some v
      | _ \<Rightarrow> env ''AMQP_PREFETCH_COUNT'')"

definition shared_default_channel_of :: "environ \<Rightarrow> (string \<Rightarrow> string list) \<Rightarrow> bool" where
  "shared_default_channel_of env params =
     (case params ''shared_default_channel'' of
        [v] \<Rightarrow> py_lower v = ''true''
      | _ \<Rightarrow> (case env ''AMQP_SHARED_DEFAULT_CHANNEL'' of
                Some v \<Rightarrow> py_lower v = ''true'' | None \<Rightarrow> False))"

definition prefetch_by_channel_of ::
  "environ \<Rightarrow> (string \<Rightarrow> string list) \<Rightarrow> (string \<times> int) list result" where
  "prefetch_by_channel_of env params =
     (case params ''prefetch_count_by_channel_id'' of
        v # vs \<Rightarrow> parse_prefetch_by_channel v
      | [] \<Rightarrow> (case env ''AMQP_PREFETCH_COUNT_BY_CHANNEL'' of
                 Some v \<Rightarrow> parse_prefetch_by_channel v | None \<Rightarrow> Inr []))"

definition int_param :: "(string \<Rightarrow> string list) \<Rightarrow> string \<Rightarrow> int \<Rightarrow> int" where
  "int_param params key dflt =
     (case params key of
        v # vs \<Rightarrow> if py_isdigit v then (case py_int v of Some i \<Rightarrow> i | None \<Rightarrow> dflt) else dflt
      | [] \<Rightarrow> dflt)"

definition float_param ::
  "(string \<Rightarrow> rat option) \<Rightarrow> (string \<Rightarrow> string list) \<Rightarrow> string \<Rightarrow> rat \<Rightarrow> rat" where
  "float_param to_float params key dflt =
     (case params key of
        v # vs \<Rightarrow> (case to_float v of Some x \<Rightarrow> x | None \<Rightarrow> dflt)
      | [] \<Rightarrow> dflt)"

definition connection_retry_of :: "(string \<Rightarrow> rat option) \<Rightarrow> (string \<Rightarrow> string list) \<Rightarrow> retry_policy" where
  "connection_retry_of to_float params =
     RetryPolicy_default\<lparr>max_retries := int_param params ''connection_retry_max'' 5,
       initial_delay := float_param to_float params ''connection_retry_delay'' 1,
       max_delay := float_param to_float params ''connection_retry_max_delay'' 60,
       backoff_factor := float_param to_float params ''connection_retry_backoff'' 2\<rparr>"

definition consumer_retry_of :: "(string \<Rightarrow> rat option) \<Rightarrow> (string \<Rightarrow> string list) \<Rightarrow> retry_policy" where
  "consumer_retry_of to_float params =
     RetryPolicy_default\<lparr>max_retries := int_param params ''consumer_retry_max'' 5,
       initial_delay := float_param to_float params ''consumer_retry_delay'' 5,
       max_delay := float_param to_float params ''consumer_retry_max_delay'' 60,
       backoff_factor := float_param to_float params ''consumer_retry_backoff'' 3\<rparr>"

text \<open>The configuration for a URL with the given scheme and query.\<close>

definition create_config ::
  "environ \<Rightarrow> (string \<Rightarrow> string) \<Rightarrow> (string \<Rightarrow> rat option) \<Rightarrow> string \<Rightarrow> string \<Rightarrow> worker_config result" where
  "create_config env unquote to_float scheme query =
     (if scheme \<noteq> ''amqp'' \<and> scheme \<noteq> ''amqps''
      then Inl (Exc ValueError ''Unsupported broker URL scheme'')
      else if query = [] then Inl (Exc AssertionError ''Query string must be set for AMQP URLs'')
      else
        (let params = parse_qs unquote query
         in case params ''exchange'' of
              [exchange] \<Rightarrow>
                if exchange = [] then Inl (Exc AssertionError ''Exchange must be set in the query string'')
                else (case prefetch_count_raw env params of
                  None \<Rightarrow> Inl (Exc AssertionError ''Prefetch count must be an integer'')
                | Some raw \<Rightarrow>
                    if \<not> py_isdigit raw
                    then Inl (Exc AssertionError ''Prefetch count must be an integer'')
                    else (case py_int raw of
                      None \<Rightarrow> Inl (Exc ValueError ''invalid literal for int()'')
                    | Some prefetch_count \<Rightarrow>
                        (case prefetch_by_channel_of env params of
                           Inl e \<Rightarrow> Inl e
                         | Inr by_channel \<Rightarrow>
                             (case get_env_bool env ''AMQP_QOS_GLOBAL'' (Some True) of
                                Inl e \<Rightarrow> Inl e
                              | Inr qos \<Rightarrow> Inr
                                  \<lparr>cfg_exchange = exchange,
                                   cfg_default_prefetch_count = prefetch_count,
                                   cfg_shared_default_channel = shared_default_channel_of env params,
                                   cfg_prefetch_by_channel_id = by_channel,
                                   cfg_qos_global = (qos = Some True),
                                   cfg_connection_retry_config = connection_retry_of to_float params,
                                   cfg_consumer_retry_policy = consumer_retry_of to_float params,
                                   cfg_connection_heartbeat_interval =
                                     float_param to_float params ''connection_heartbeat_interval'' 30,
                                   cfg_connection_health_check_interval =
                                     float_param to_float params ''connection_health_check_interval'' 10\<rparr>))))
            | _ \<Rightarrow> Inl (Exc AssertionError ''Exchange must be set in the query string'')))"

subsection \<open>Properties\<close>

lemma py_int_isdigit: "py_isdigit s \<Longrightarrow> \<exists>n. py_int s = Some (int n)"
proof -
  assume s: "py_isdigit s"
  then have d: "list_all is_digit s" "s \<noteq> []" by (simp_all add: py_isdigit_def)
  then have "list_all (\<lambda>c. \<not> is_space c) s"
    by (auto simp: list_all_iff dest: is_digit_not_space)
  then have st: "py_strip s = s" by (rule py_strip_no_space)
  obtain c cs where c: "s = c # cs" using d(2) by (cases s) auto
  with d have "is_digit c" by simp
  then have "c \<noteq> CHR ''-''" "c \<noteq> CHR ''+''" using is_digit_not_sign by blast+
  moreover obtain n where "parse_digits 0 False s = Some n" using parse_digits_all d by blast
  ultimately show ?thesis using st c by (simp add: py_int_def)
qed

text \<open>
  The worker starts only from a usable configuration: a configuration that is accepted names a
  non-empty exchange and a prefetch count that is not negative, and every policy it holds keeps the
  jitter of the defaults.
\<close>

theorem accepted_config_is_sane:
  assumes "create_config env unquote to_float scheme query = Inr c"
  shows "(scheme = ''amqp'' \<or> scheme = ''amqps'') \<and> cfg_exchange c \<noteq> []
    \<and> 0 \<le> cfg_default_prefetch_count c
    \<and> prefetch_by_channel_of env (parse_qs unquote query) = Inr (cfg_prefetch_by_channel_id c)
    \<and> jitter (cfg_connection_retry_config c) \<and> jitter (cfg_consumer_retry_policy c)"
  using assms
  by (auto simp: create_config_def Let_def connection_retry_of_def consumer_retry_of_def
      RetryPolicy_default_def dest!: py_int_isdigit
      split: if_splits list.splits option.splits sum.splits)

definition sample_environ :: environ where
  "sample_environ v = (if v = ''AMQP_PREFETCH_COUNT'' then Some ''10'' else None)"

definition sample_query :: string where
  "sample_query = ''exchange=ex&prefetch_count_by_channel_id=slow:1,fast:20&connection_retry_max=7''"

lemma sample_config:
  "case create_config sample_environ id (\<lambda>_. None) ''amqp'' sample_query of
     Inl e \<Rightarrow> False
   | Inr c \<Rightarrow> cfg_default_prefetch_count c = 10
       \<and> cfg_prefetch_by_channel_id c = [(''slow'', 1), (''fast'', 20)]
       \<and> max_retries (cfg_connection_retry_config c) = 7"
  by code_simp

theorem accepted_config_is_sane_witness:
  "\<exists>c. create_config sample_environ id (\<lambda>_. None) ''amqp'' sample_query = Inr c
     \<and> cfg_prefetch_by_channel_id c = [(''slow'', 1), (''fast'', 20)]
     \<and> cfg_exchange c \<noteq> [] \<and> 0 \<le> cfg_default_prefetch_count c"
  using sample_config accepted_config_is_sane [of sample_environ id "\<lambda>_. None" "''amqp''" sample_query]
  by (auto split: sum.splits)

subsection \<open>The per channel prefetch counts\<close>

definition print_prefetch :: "(string \<times> int) list \<Rightarrow> string" where
  "print_prefetch ps = py_join '','' (map (\<lambda>(k, n). k @ CHR '':'' # str_int n) ps)"

lemma str_int_no_char: "\<not> is_digit c \<Longrightarrow> c \<noteq> CHR ''-'' \<Longrightarrow> c \<notin> set (str_int i)"
  using list_all_digit_str_nat by (auto simp: str_int_def list_all_iff)

lemma prefetch_item_print: "CHR '':'' \<notin> set k \<Longrightarrow> prefetch_item (k @ CHR '':'' # str_int n) = Some (k, n)"
  by (simp add: py_split_append_sep py_split_no_sep str_int_no_char is_digit_def)

lemma dict_set_fresh: "k \<notin> fst ` set d \<Longrightarrow> dict_set k v d = d @ [(k, v)]"
  by (induction k v d rule: dict_set.induct) auto

lemma prefetch_items_print:
  "\<forall>(k, n) \<in> set ps. CHR '':'' \<notin> set k \<Longrightarrow> distinct (map fst (d @ ps)) \<Longrightarrow>
   prefetch_items (map (\<lambda>(k, n). k @ CHR '':'' # str_int n) ps) d = Some (d @ ps)"
proof (induction ps arbitrary: d)
  case (Cons p ps)
  obtain k n where p: "p = (k, n)" by fastforce
  from Cons.prems have "dict_set k n d = d @ [(k, n)]" by (simp add: dict_set_fresh p)
  with Cons p show ?case by (simp add: prefetch_item_print del: prefetch_item.simps)
qed simp

text \<open>
  The format of \<open>prefetch_count_by_channel_id\<close> reads back what it prints: for channel names without
  the separators, parsing \<open>name:count,name:count\<close> gives the counts in order.
\<close>

theorem prefetch_by_channel_roundtrip:
  assumes "ps \<noteq> []" and "distinct (map fst ps)"
    and "\<forall>(k, n) \<in> set ps. CHR '':'' \<notin> set k \<and> CHR '','' \<notin> set k"
  shows "parse_prefetch_by_channel (print_prefetch ps) = Inr ps"
proof -
  let ?items = "map (\<lambda>(k, n). k @ CHR '':'' # str_int n) ps"
  have "py_split (CHR '','') (print_prefetch ps) = ?items"
    unfolding print_prefetch_def
    by (rule py_split_join) (use assms in \<open>auto simp: str_int_no_char is_digit_def\<close>)
  moreover have "print_prefetch ps \<noteq> []"
    using assms(1) by (cases ps; cases "tl ps") (auto simp: print_prefetch_def)
  moreover have "prefetch_items ?items [] = Some ps"
    using prefetch_items_print [of ps "[]"] assms(2,3) by fastforce
  ultimately show ?thesis by (simp add: parse_prefetch_by_channel_def)
qed

theorem prefetch_by_channel_roundtrip_witness:
  "parse_prefetch_by_channel (print_prefetch [(''slow'', 1), (''fast'', 20)]) = Inr [(''slow'', 1), (''fast'', 20)]"
  by (rule prefetch_by_channel_roundtrip) simp_all

end
