(* ===== verification/Amqp.thy ===== *)
theory Amqp
  imports Delayed_Store
begin

section \<open>Broker topology\<close>

text \<open>
  \<^verbatim>\<open>utils/rabbitmq_utils.py\<close>, \<^verbatim>\<open>messagebus/aiopika.py\<close> and the declaration commands of \<^verbatim>\<open>cli.py\<close>: which exchanges,
  queues and bindings the program creates, and what it does when the broker refuses. Every broker
  operation is a call with an arbitrary answer; the topology a run leaves behind is what its
  successful calls declare.
\<close>

subsection \<open>Names\<close>

abbreviation DEAD_LETTER_EXCHANGE :: string where
  "DEAD_LETTER_EXCHANGE \<equiv> ''dlx''"

abbreviation DEAD_LETTER_QUEUE :: string where
  "DEAD_LETTER_QUEUE \<equiv> ''dlq''"

definition gen_queue_name :: "string \<Rightarrow> string \<Rightarrow> string \<Rightarrow> string" where
  "gen_queue_name topic func_module qualname = topic @ ''.'' @ func_module @ ''.'' @ qualname"

definition gen_routing_key :: "string \<Rightarrow> string" where
  "gen_routing_key topic = topic @ ''.#''"

subsection \<open>Operations on a channel\<close>

datatype amqp_call =
    OpenChannel
  | GetExchange string
  | GetQueue string
  | DeclareExchange string string bool                  \<comment> \<open>name, type, passive\<close>
  | DeclareQueue string "(string \<times> hval) list" bool     \<comment> \<open>name, arguments, passive\<close>
  | BindQueue string string string                      \<comment> \<open>queue, exchange, routing key\<close>
  | DeleteExchange string bool
  | DeleteQueue string bool bool
  | PurgeQueue string

type_synonym amqp = "(amqp_call, exc option) world"

text \<open>Awaiting one call after the other until one raises.\<close>

fun seq_calls :: "amqp_call list \<Rightarrow> amqp \<Rightarrow> exc option \<times> amqp" where
  "seq_calls [] s = (None, s)"
| "seq_calls (c # cs) s =
     (case do_call c s of
        (Some e, s1) \<Rightarrow> (Some e, s1)
      | (None, s1) \<Rightarrow> seq_calls cs s1)"

definition get_dl_exchange :: "amqp \<Rightarrow> exc option \<times> amqp" where
  "get_dl_exchange = do_call (GetExchange DEAD_LETTER_EXCHANGE)"

definition declare_dl_exchange :: "bool \<Rightarrow> amqp_call" where
  "declare_dl_exchange passive = DeclareExchange DEAD_LETTER_EXCHANGE ''direct'' passive"

definition get_dl_queue :: "amqp \<Rightarrow> exc option \<times> amqp" where
  "get_dl_queue = do_call (GetQueue DEAD_LETTER_QUEUE)"

definition declare_dl_queue :: "bool \<Rightarrow> amqp_call" where
  "declare_dl_queue passive = DeclareQueue DEAD_LETTER_QUEUE
     [(''x-dead-letter-exchange'', HStr []), (''x-dead-letter-routing-key'', HStr DEAD_LETTER_EXCHANGE)] passive"

definition get_dl_kit :: "amqp \<Rightarrow> exc option \<times> amqp" where
  "get_dl_kit s =
     (case get_dl_exchange s of
        (Some e, s1) \<Rightarrow> (Some e, s1)
      | (None, s1) \<Rightarrow> get_dl_queue s1)"

definition declare_dl_kit :: "bool \<Rightarrow> amqp \<Rightarrow> exc option \<times> amqp" where
  "declare_dl_kit passive =
     seq_calls [declare_dl_exchange passive, declare_dl_queue passive,
       BindQueue DEAD_LETTER_QUEUE DEAD_LETTER_EXCHANGE DEAD_LETTER_EXCHANGE]"

definition get_main_exchange :: "string \<Rightarrow> amqp \<Rightarrow> exc option \<times> amqp" where
  "get_main_exchange exchange_name = do_call (GetExchange exchange_name)"

definition declare_main_exchange :: "string \<Rightarrow> bool \<Rightarrow> amqp_call" where
  "declare_main_exchange exchange_name passive = DeclareExchange exchange_name ''topic'' passive"

definition get_queue :: "string \<Rightarrow> amqp \<Rightarrow> exc option \<times> amqp" where
  "get_queue queue_name = do_call (GetQueue queue_name)"

definition declare_worker_queue :: "string \<Rightarrow> bool \<Rightarrow> amqp_call" where
  "declare_worker_queue queue_name passive = DeclareQueue queue_name
     [(''x-dead-letter-exchange'', HStr DEAD_LETTER_EXCHANGE),
      (''x-dead-letter-routing-key'', HStr DEAD_LETTER_EXCHANGE)] passive"

definition get_scheduled_action_queue :: "string \<Rightarrow> amqp \<Rightarrow> exc option \<times> amqp" where
  "get_scheduled_action_queue queue_name = do_call (GetQueue queue_name)"

definition declare_scheduled_action_queue :: "string \<Rightarrow> bool \<Rightarrow> amqp_call" where
  "declare_scheduled_action_queue queue_name passive =
     DeclareQueue queue_name [(''x-max-length'', HInt 1)] passive"

text \<open>Deleting tolerates every AMQP error.\<close>

definition tolerate_amqp :: "exc option \<Rightarrow> exc option" where
  "tolerate_amqp a = (case a of Some e \<Rightarrow> if is_amqp e then None else Some e | None \<Rightarrow> None)"

definition delete_exchange :: "string \<Rightarrow> bool \<Rightarrow> amqp \<Rightarrow> exc option \<times> amqp" where
  "delete_exchange exchange_name if_unused s =
     (let (a, s1) = do_call (DeleteExchange exchange_name if_unused) s in (tolerate_amqp a, s1))"

definition delete_queue :: "string \<Rightarrow> bool \<Rightarrow> bool \<Rightarrow> amqp \<Rightarrow> exc option \<times> amqp" where
  "delete_queue queue_name if_unused if_empty s =
     (let (a, s1) = do_call (DeleteQueue queue_name if_unused if_empty) s in (tolerate_amqp a, s1))"

text \<open>\<open>message_count\<close> is the count in the broker's answer, which may be missing.\<close>

definition get_dl_queue_message_count :: "nat option \<Rightarrow> amqp \<Rightarrow> nat result \<times> amqp" where
  "get_dl_queue_message_count message_count s =
     (case seq_calls [GetQueue DEAD_LETTER_QUEUE, DeclareQueue DEAD_LETTER_QUEUE [] True] s of
        (None, s1) \<Rightarrow> (Inr (case message_count of Some n \<Rightarrow> n | None \<Rightarrow> 0), s1)
      | (Some e, s1) \<Rightarrow> (if exc_cls e = ChannelNotFoundEntity then Inr 0 else Inl e, s1))"

definition purge_dl_queue :: "nat option \<Rightarrow> amqp \<Rightarrow> nat result \<times> amqp" where
  "purge_dl_queue message_count s =
     (case seq_calls [GetQueue DEAD_LETTER_QUEUE, PurgeQueue DEAD_LETTER_QUEUE] s of
        (None, s1) \<Rightarrow> (Inr (case message_count of Some n \<Rightarrow> n | None \<Rightarrow> 0), s1)
      | (Some e, s1) \<Rightarrow> (Inl e, s1))"

subsection \<open>The declare command\<close>

text \<open>\<open>confirm i\<close> is the user's answer when \<open>i\<close> calls have been made.\<close>

definition should_recreate_infrastructure :: "bool \<Rightarrow> bool \<Rightarrow> (nat \<Rightarrow> bool) \<Rightarrow> amqp \<Rightarrow> bool" where
  "should_recreate_infrastructure force interactive_mode confirm s =
     (force \<or> (interactive_mode \<and> confirm (length (calls s))))"

definition infrastructure_calls :: "string \<Rightarrow> bool \<Rightarrow> amqp_call list" where
  "infrastructure_calls exchange passive =
     [declare_main_exchange exchange passive, declare_dl_exchange passive, declare_dl_queue passive]"

definition check_infrastructure_exists :: "string \<Rightarrow> amqp \<Rightarrow> bool result \<times> amqp" where
  "check_infrastructure_exists exchange s =
     (case do_call OpenChannel s of
        (Some e, s1) \<Rightarrow> (Inl e, s1)
      | (None, s1) \<Rightarrow>
          (case seq_calls (infrastructure_calls exchange True) s1 of
             (None, s2) \<Rightarrow> (Inr True, s2)
           | (Some e, s2) \<Rightarrow> (if is_Exception e then Inr False else Inl e, s2)))"

fun seq_deletes :: "(amqp \<Rightarrow> exc option \<times> amqp) list \<Rightarrow> amqp \<Rightarrow> exc option \<times> amqp" where
  "seq_deletes [] s = (None, s)"
| "seq_deletes (f # fs) s = (case f s of (Some e, s1) \<Rightarrow> (Some e, s1) | (None, s1) \<Rightarrow> seq_deletes fs s1)"

definition delete_infrastructure :: "string \<Rightarrow> amqp \<Rightarrow> exc option \<times> amqp" where
  "delete_infrastructure exchange s =
     (case do_call OpenChannel s of
        (Some e, s1) \<Rightarrow> (Some e, s1)
      | (None, s1) \<Rightarrow>
          seq_deletes [delete_exchange exchange False, delete_exchange DEAD_LETTER_EXCHANGE False,
            delete_queue DEAD_LETTER_QUEUE False False] s1)"

abbreviation bind_dlq :: amqp_call where
  "bind_dlq \<equiv> BindQueue DEAD_LETTER_QUEUE DEAD_LETTER_EXCHANGE DEAD_LETTER_EXCHANGE"

definition declare_infrastructure ::
  "string \<Rightarrow> bool \<Rightarrow> bool \<Rightarrow> (nat \<Rightarrow> bool) \<Rightarrow> amqp \<Rightarrow> exc option \<times> amqp" where
  "declare_infrastructure exchange force interactive_mode confirm s =
     (case do_call OpenChannel s of
        (Some e, s1) \<Rightarrow> (Some e, s1)
      | (None, s1) \<Rightarrow>
          (case seq_calls (infrastructure_calls exchange False @ [bind_dlq]) s1 of
             (None, s2) \<Rightarrow> (None, s2)
           | (Some e, s2) \<Rightarrow>
               if \<not> is_Exception e then (Some e, s2)
               else if should_recreate_infrastructure force interactive_mode confirm s2
               then (case delete_infrastructure exchange s2 of
                       (Some e', s3) \<Rightarrow> (Some e', s3)
                     | (None, s3) \<Rightarrow>
                         seq_calls (OpenChannel # infrastructure_calls exchange False @ [bind_dlq]) s3)
               else if force then (Some e, s2)
               else (None, s2)))"

definition setup_infrastructure ::
  "string \<Rightarrow> bool \<Rightarrow> bool \<Rightarrow> (nat \<Rightarrow> bool) \<Rightarrow> amqp \<Rightarrow> exc option \<times> amqp" where
  "setup_infrastructure exchange force interactive_mode confirm s =
     (case check_infrastructure_exists exchange s of
        (Inl e, s1) \<Rightarrow> (Some e, s1)
      | (Inr infrastructure_exists, s1) \<Rightarrow>
          (case (if \<not> infrastructure_exists
                    \<and> should_recreate_infrastructure force interactive_mode confirm s1
                 then delete_infrastructure exchange s1 else (None, s1)) of
             (Some e, s2) \<Rightarrow> (Some e, s2)
           | (None, s2) \<Rightarrow> declare_infrastructure exchange force interactive_mode confirm s2))"

definition queue_calls :: "bool \<Rightarrow> string \<Rightarrow> string \<Rightarrow> string \<Rightarrow> amqp_call list" where
  "queue_calls is_scheduled_action queue_name routing_key exchange =
     [if is_scheduled_action then declare_scheduled_action_queue queue_name False
      else declare_worker_queue queue_name False,
      BindQueue queue_name exchange routing_key]"

definition declare_and_bind_queue ::
  "string \<Rightarrow> string \<Rightarrow> string \<Rightarrow> bool \<Rightarrow> bool \<Rightarrow> (nat \<Rightarrow> bool) \<Rightarrow> bool \<Rightarrow> amqp \<Rightarrow> exc option \<times> amqp" where
  "declare_and_bind_queue queue_name routing_key exchange force interactive_mode confirm
     is_scheduled_action s =
     (case do_call OpenChannel s of
        (Some e, s1) \<Rightarrow> (Some e, s1)
      | (None, s1) \<Rightarrow>
          (case seq_calls (queue_calls is_scheduled_action queue_name routing_key exchange) s1 of
             (None, s2) \<Rightarrow> (None, s2)
           | (Some e, s2) \<Rightarrow>
               if \<not> is_Exception e then (Some e, s2)
               else if force \<or> (interactive_mode \<and> confirm (length (calls s2)))
               then (case do_call OpenChannel s2 of
                       (Some e', s3) \<Rightarrow> (Some e', s3)
                     | (None, s3) \<Rightarrow>
                         (case delete_queue queue_name False False s3 of
                            (Some e', s4) \<Rightarrow> (Some e', s4)
                          | (None, s4) \<Rightarrow>
                              seq_calls (queue_calls is_scheduled_action queue_name routing_key exchange) s4))
               else (None, s2)))"

text \<open>
  A member of a controller: the topic of its \<open>MessageHandler\<close> and whether it has a \<open>ScheduledAction\<close>.
\<close>

record member =
  mem_module :: string
  mem_qualname :: string
  mem_topic :: "string option"
  mem_scheduled :: bool

definition declare_message_handler_queue ::
  "string \<Rightarrow> bool \<Rightarrow> bool \<Rightarrow> (nat \<Rightarrow> bool) \<Rightarrow> member \<Rightarrow> amqp \<Rightarrow> exc option \<times> amqp" where
  "declare_message_handler_queue exchange force interactive_mode confirm m s =
     (case mem_topic m of
        None \<Rightarrow> (None, s)
      | Some topic \<Rightarrow>
          declare_and_bind_queue (gen_queue_name topic (mem_module m) (mem_qualname m))
            (gen_routing_key topic) exchange force interactive_mode confirm False s)"

definition declare_scheduled_queue ::
  "string \<Rightarrow> bool \<Rightarrow> bool \<Rightarrow> (nat \<Rightarrow> bool) \<Rightarrow> member \<Rightarrow> amqp \<Rightarrow> exc option \<times> amqp" where
  "declare_scheduled_queue exchange force interactive_mode confirm m s =
     (if mem_scheduled m
      then declare_and_bind_queue (mem_module m @ ''.'' @ mem_qualname m)
             (mem_module m @ ''.'' @ mem_qualname m) exchange force interactive_mode confirm True s
      else (None, s))"

fun declare_controller_queues ::
  "string \<Rightarrow> bool \<Rightarrow> bool \<Rightarrow> (nat \<Rightarrow> bool) \<Rightarrow> member list \<Rightarrow> amqp \<Rightarrow> exc option \<times> amqp" where
  "declare_controller_queues exchange force interactive_mode confirm [] s = (None, s)"
| "declare_controller_queues exchange force interactive_mode confirm (m # ms) s =
     (case declare_message_handler_queue exchange force interactive_mode confirm m s of
        (Some e, s1) \<Rightarrow> (Some e, s1)
      | (None, s1) \<Rightarrow>
          (case declare_scheduled_queue exchange force interactive_mode confirm m s1 of
             (Some e, s2) \<Rightarrow> (Some e, s2)
           | (None, s2) \<Rightarrow>
               declare_controller_queues exchange force interactive_mode confirm ms s2))"

definition declare_worker_infrastructure ::
  "string \<Rightarrow> bool \<Rightarrow> bool \<Rightarrow> (nat \<Rightarrow> bool) \<Rightarrow> member list \<Rightarrow> amqp \<Rightarrow> exc option \<times> amqp" where
  "declare_worker_infrastructure exchange force interactive_mode confirm members s =
     (case setup_infrastructure exchange force interactive_mode confirm s of
        (Some e, s1) \<Rightarrow> (Some e, s1)
      | (None, s1) \<Rightarrow>
          declare_controller_queues exchange force interactive_mode confirm members s1)"

subsection \<open>The topology a run leaves\<close>

text \<open>
  What the RabbitMQ documentation says of successful declarations, as a function: a passive declaration
  changes nothing, deleting an exchange or a queue drops its bindings.
\<close>

record topology =
  exchanges :: "string \<Rightarrow> string option"
  queues :: "string \<Rightarrow> (string \<times> hval) list option"
  bindings :: "(string \<times> string \<times> string) set"

definition no_topology :: topology where
  "no_topology = \<lparr>exchanges = (\<lambda>_. None), queues = (\<lambda>_. None), bindings = {}\<rparr>"

fun apply_call :: "amqp_call \<Rightarrow> topology \<Rightarrow> topology" where
  "apply_call (DeclareExchange n t False) T = T\<lparr>exchanges := (exchanges T)(n \<mapsto> t)\<rparr>"
| "apply_call (DeclareQueue n args False) T = T\<lparr>queues := (queues T)(n \<mapsto> args)\<rparr>"
| "apply_call (BindQueue q x k) T = T\<lparr>bindings := insert (q, x, k) (bindings T)\<rparr>"
| "apply_call (DeleteExchange n u) T = T\<lparr>exchanges := (exchanges T)(n := None),
     bindings := {(q, x, k) \<in> bindings T. x \<noteq> n}\<rparr>"
| "apply_call (DeleteQueue n u e) T = T\<lparr>queues := (queues T)(n := None),
     bindings := {(q, x, k) \<in> bindings T. q \<noteq> n}\<rparr>"
| "apply_call c T = T"

definition topology_of :: "amqp \<Rightarrow> topology" where
  "topology_of s = fold apply_call (succeeded s) no_topology"

text \<open>
  Where a message rejected from a queue goes: to the queues bound to the dead letter exchange of its
  arguments with the dead letter routing key, when that exchange is a direct one.
\<close>

definition dead_letter_targets :: "topology \<Rightarrow> string \<Rightarrow> string set" where
  "dead_letter_targets T q =
     (case queues T q of
        None \<Rightarrow> {}
      | Some args \<Rightarrow>
          (case (map_of args ''x-dead-letter-exchange'', map_of args ''x-dead-letter-routing-key'') of
             (Some (HStr x), Some (HStr k)) \<Rightarrow>
               if exchanges T x = Some ''direct'' then {t. (t, x, k) \<in> bindings T \<and> queues T t \<noteq> None} else {}
           | _ \<Rightarrow> {}))"

subsection \<open>Dead letters reach the dead letter queue\<close>

definition all_accepted :: "amqp \<Rightarrow> bool" where
  "all_accepted s = (\<forall>i. answers s i = None)"

lemma all_accepted_calls [simp]: "all_accepted (s\<lparr>calls := cs\<rparr>) = all_accepted s"
  by (simp add: all_accepted_def)

lemma do_call_accepted: "all_accepted s \<Longrightarrow> do_call c s = (None, s\<lparr>calls := calls s @ [c]\<rparr>)"
  by (simp add: all_accepted_def do_call_def)

lemma seq_calls_accepted: "all_accepted s \<Longrightarrow> seq_calls cs s = (None, s\<lparr>calls := calls s @ cs\<rparr>)"
  by (induction cs arbitrary: s) (simp_all add: do_call_accepted)

definition member_calls :: "string \<Rightarrow> member \<Rightarrow> amqp_call list" where
  "member_calls exchange m =
     (case mem_topic m of
        None \<Rightarrow> []
      | Some topic \<Rightarrow> OpenChannel # queue_calls False (gen_queue_name topic (mem_module m) (mem_qualname m))
          (gen_routing_key topic) exchange)
     @ (if mem_scheduled m
        then OpenChannel # queue_calls True (mem_module m @ ''.'' @ mem_qualname m)
          (mem_module m @ ''.'' @ mem_qualname m) exchange
        else [])"

lemma declare_controller_queues_accepted:
  "all_accepted s \<Longrightarrow> declare_controller_queues exchange force im confirm ms s =
     (None, s\<lparr>calls := calls s @ concat (map (member_calls exchange) ms)\<rparr>)"
proof (induction ms arbitrary: s)
  case (Cons m ms)
  then show ?case
    by (simp add: declare_message_handler_queue_def declare_scheduled_queue_def declare_and_bind_queue_def
        do_call_accepted seq_calls_accepted member_calls_def split: option.split)
qed simp

definition infrastructure_run :: "string \<Rightarrow> amqp_call list" where
  "infrastructure_run exchange =
     OpenChannel # infrastructure_calls exchange True @
     OpenChannel # infrastructure_calls exchange False @ [bind_dlq]"

lemma setup_infrastructure_accepted:
  "all_accepted s \<Longrightarrow> setup_infrastructure exchange force im confirm s =
     (None, s\<lparr>calls := calls s @ infrastructure_run exchange\<rparr>)"
  by (simp add: setup_infrastructure_def check_infrastructure_exists_def declare_infrastructure_def
      do_call_accepted seq_calls_accepted infrastructure_run_def)

lemma succeeded_accepted: "all_accepted s \<Longrightarrow> succeeded s = calls s"
proof -
  have "answered_from i (\<lambda>_. None) cs = cs" for i and cs :: "amqp_call list"
    by (induction cs arbitrary: i) simp_all
  moreover assume "all_accepted s"
  then have "answers s = (\<lambda>_. None)" by (auto simp: all_accepted_def)
  ultimately show ?thesis by (simp add: succeeded_def)
qed

text \<open>The dead letter exchange and queue stand, and nothing else is bound to that exchange.\<close>

definition dl_ready :: "topology \<Rightarrow> bool" where
  "dl_ready T = (exchanges T DEAD_LETTER_EXCHANGE = Some ''direct'' \<and> queues T DEAD_LETTER_QUEUE \<noteq> None
     \<and> (\<forall>t k. (t, DEAD_LETTER_EXCHANGE, k) \<in> bindings T \<longleftrightarrow> t = DEAD_LETTER_QUEUE \<and> k = DEAD_LETTER_EXCHANGE))"

definition worker_args :: "(string \<times> hval) list" where
  "worker_args = [(''x-dead-letter-exchange'', HStr DEAD_LETTER_EXCHANGE),
     (''x-dead-letter-routing-key'', HStr DEAD_LETTER_EXCHANGE)]"

lemma dl_ready_targets:
  "dl_ready T \<Longrightarrow> queues T q = Some worker_args \<Longrightarrow> dead_letter_targets T q = {DEAD_LETTER_QUEUE}"
  by (auto simp: dl_ready_def dead_letter_targets_def worker_args_def)

lemma dl_ready_infrastructure:
  "exchange \<noteq> DEAD_LETTER_EXCHANGE \<Longrightarrow> dl_ready (fold apply_call (infrastructure_run exchange) no_topology)"
  by (simp add: infrastructure_run_def infrastructure_calls_def declare_main_exchange_def
      declare_dl_exchange_def declare_dl_queue_def no_topology_def dl_ready_def)

text \<open>The names a member declares, as a worker queue and as a scheduled queue.\<close>

definition worker_queues :: "member \<Rightarrow> string set" where
  "worker_queues m = (case mem_topic m of None \<Rightarrow> {}
     | Some topic \<Rightarrow> {gen_queue_name topic (mem_module m) (mem_qualname m)})"

definition scheduled_queues :: "member \<Rightarrow> string set" where
  "scheduled_queues m = (if mem_scheduled m then {mem_module m @ ''.'' @ mem_qualname m} else {})"

lemma member_topology:
  assumes "exchange \<noteq> DEAD_LETTER_EXCHANGE" "DEAD_LETTER_QUEUE \<notin> worker_queues m \<union> scheduled_queues m"
    and "dl_ready T"
  shows "dl_ready (fold apply_call (member_calls exchange m) T)"
    and "queues (fold apply_call (member_calls exchange m) T) q =
      (if q \<in> scheduled_queues m then Some [(''x-max-length'', HInt 1)]
       else if q \<in> worker_queues m then Some worker_args else queues T q)"
  using assms
  by (auto simp: member_calls_def queue_calls_def declare_worker_queue_def declare_scheduled_action_queue_def
      dl_ready_def worker_queues_def scheduled_queues_def worker_args_def split: option.split)

lemma members_topology:
  assumes "exchange \<noteq> DEAD_LETTER_EXCHANGE"
  shows "\<forall>m \<in> set ms. DEAD_LETTER_QUEUE \<notin> worker_queues m \<union> scheduled_queues m \<Longrightarrow> dl_ready T \<Longrightarrow>
    \<forall>m \<in> set ms. q \<notin> scheduled_queues m \<Longrightarrow>
    q \<in> (\<Union>m \<in> set ms. worker_queues m) \<or> queues T q = Some worker_args \<Longrightarrow>
    dl_ready (fold apply_call (concat (map (member_calls exchange) ms)) T)
    \<and> queues (fold apply_call (concat (map (member_calls exchange) ms)) T) q = Some worker_args"
proof (induction ms arbitrary: T)
  case (Cons m ms)
  let ?T = "fold apply_call (member_calls exchange m) T"
  have "dl_ready ?T" using member_topology(1) [OF assms _ Cons.prems(2)] Cons.prems(1) by simp
  moreover have "q \<in> (\<Union>m \<in> set ms. worker_queues m) \<or> queues ?T q = Some worker_args"
    using member_topology(2) [OF assms _ Cons.prems(2), of m q] Cons.prems by auto
  ultimately show ?case using Cons.IH [of ?T] Cons.prems(1,3) by simp
qed simp



text \<open>
  \<open>setup_infrastructure\<close> deletes before declaring exactly when the infrastructure was \<^emph>\<open>not\<close> found:
  with \<open>force\<close>, an existing infrastructure is declared over and never deleted first, and a missing one
  is deleted.
\<close>

theorem force_recreates_only_missing_infrastructure:
  "(all_accepted s \<longrightarrow>
      (\<forall>x u. DeleteExchange x u \<notin> set (drop (length (calls s))
         (calls (snd (setup_infrastructure exchange True im confirm s))))))
   \<and> (answers s = (\<lambda>i. if i = Suc (length (calls s)) then Some (Exc ChannelNotFoundEntity []) else None) \<longrightarrow>
      DeleteExchange exchange False \<in> set (calls (snd (setup_infrastructure exchange True im confirm s))))"
proof -
  have "DeleteExchange x u \<notin> set (infrastructure_run exchange)" for x u
    by (simp add: infrastructure_run_def infrastructure_calls_def declare_main_exchange_def
        declare_dl_exchange_def declare_dl_queue_def)
  moreover have "DeleteExchange exchange False \<in> set (calls (snd (setup_infrastructure exchange True im confirm s)))"
    if "answers s = (\<lambda>i. if i = Suc (length (calls s)) then Some (Exc ChannelNotFoundEntity []) else None)"
    using that
    by (simp add: setup_infrastructure_def check_infrastructure_exists_def declare_infrastructure_def
        delete_infrastructure_def delete_exchange_def delete_queue_def infrastructure_calls_def
        should_recreate_infrastructure_def do_call_def tolerate_amqp_def)
  ultimately show ?thesis by (simp add: setup_infrastructure_accepted)
qed

theorem force_recreates_only_missing_infrastructure_witness:
  "DeleteExchange ''ex'' False \<in> set (calls (snd (setup_infrastructure ''ex'' True False (\<lambda>_. False)
     \<lparr>calls = [], answers = (\<lambda>i. if i = 1 then Some (Exc ChannelNotFoundEntity []) else None)\<rparr>)))"
  using force_recreates_only_missing_infrastructure [of
    "\<lparr>calls = [], answers = (\<lambda>i. if i = 1 then Some (Exc ChannelNotFoundEntity []) else None)\<rparr>"]
  by simp

end
