(* ===== verification/Dlq.thy ===== *)
theory Dlq
  imports Amqp "HOL-Library.List_Lexorder" "HOL-Library.Char_ord"
begin

section \<open>The dead letter queue commands\<close>

text \<open>
  The \<open>dlq\<close> commands of \<^verbatim>\<open>cli.py\<close>: reading the dead letter queue, its statistics, and putting messages
  back. The queue belongs to the broker: it is a record of operations over an unknown state, and the
  locale \<open>dead_letter_queue\<close> states what RabbitMQ documents of them (a requeued message returns to its
  original position). The loops run until the queue is empty or a limit is reached, which may be
  never: they take fuel and give \<open>None\<close> when it runs out.
\<close>

subsection \<open>Messages\<close>

text \<open>The first entry of the \<open>x-death\<close> header, when it is a list with a dictionary in front.\<close>

record death =
  death_queue :: "string option"
  death_reason_raw :: "string option"
  death_count_raw :: "hval option"
  death_time_raw :: "string option"

record raw_message =
  raw_body :: string
  raw_routing_key :: string
  raw_death :: "death option"
  raw_message_id :: "string option"
  raw_content_type :: "string option"

record DLQMessage =
  dm_body :: string
  dm_routing_key :: string
  dm_original_queue :: string
  dm_death_reason :: string
  dm_death_count :: int
  dm_first_death_time :: string
  dm_message_id :: "string option"
  dm_content_type :: "string option"

text \<open>\<open>to_int\<close> truncates a float, given by its \<open>str()\<close>.\<close>

definition death_count_of :: "(string \<Rightarrow> int) \<Rightarrow> hval option \<Rightarrow> int" where
  "death_count_of to_int v =
     (case v of
        None \<Rightarrow> 1
      | Some (HInt i) \<Rightarrow> i
      | Some (HBool b) \<Rightarrow> (if b then 1 else 0)
      | Some (HFloat f) \<Rightarrow> to_int f
      | Some _ \<Rightarrow> 0)"

definition dlq_message :: "(string \<Rightarrow> int) \<Rightarrow> raw_message \<Rightarrow> DLQMessage" where
  "dlq_message to_int m =
     (case raw_death m of
        None \<Rightarrow> \<lparr>dm_body = raw_body m, dm_routing_key = raw_routing_key m, dm_original_queue = [],
          dm_death_reason = [], dm_death_count = 0, dm_first_death_time = [],
          dm_message_id = raw_message_id m, dm_content_type = raw_content_type m\<rparr>
      | Some d \<Rightarrow> \<lparr>dm_body = raw_body m, dm_routing_key = raw_routing_key m,
          dm_original_queue = (case death_queue d of Some q \<Rightarrow> q | None \<Rightarrow> ''unknown''),
          dm_death_reason = (case death_reason_raw d of Some r \<Rightarrow> r | None \<Rightarrow> ''unknown''),
          dm_death_count = death_count_of to_int (death_count_raw d),
          dm_first_death_time = str_or (death_time_raw d) [],
          dm_message_id = raw_message_id m, dm_content_type = raw_content_type m\<rparr>)"

subsection \<open>The queue\<close>

record 'q dlq_ops =
  q_get :: "'q \<Rightarrow> raw_message option \<times> 'q"
  q_requeue :: "raw_message \<Rightarrow> 'q \<Rightarrow> 'q"
  q_len :: "'q \<Rightarrow> nat"

locale dead_letter_queue =
  fixes Q :: "'q dlq_ops"
  assumes requeue_head: "q_get Q q = (Some m, q') \<Longrightarrow> q_get Q (q_requeue Q m q') = (Some m, q')"
    and get_len: "q_get Q q = (Some m, q') \<Longrightarrow> q_len Q q = Suc (q_len Q q')"
    and get_empty: "q_get Q q = (None, q') \<Longrightarrow> q_len Q q = 0"

text \<open>An executable queue that keeps these laws.\<close>

definition list_dlq :: "raw_message list dlq_ops" where
  "list_dlq = \<lparr>q_get = (\<lambda>q. case q of [] \<Rightarrow> (None, []) | m # ms \<Rightarrow> (Some m, ms)), q_requeue = (#),
     q_len = length\<rparr>"

interpretation list_dlq: dead_letter_queue list_dlq
  by unfold_locales (auto simp: list_dlq_def split: list.splits)

subsection \<open>Operations\<close>

definition limit_reached :: "nat option \<Rightarrow> nat \<Rightarrow> bool" where
  "limit_reached limit cnt = (case limit of Some n \<Rightarrow> n \<le> cnt | None \<Rightarrow> False)"

fun fetch_dlq_messages ::
  "'q dlq_ops \<Rightarrow> (string \<Rightarrow> int) \<Rightarrow> nat option \<Rightarrow> bool \<Rightarrow> nat \<Rightarrow> nat \<Rightarrow> 'q \<Rightarrow>
   ((DLQMessage \<times> raw_message) list \<times> 'q) option" where
  "fetch_dlq_messages Q to_int limit consume 0 cnt q = None"
| "fetch_dlq_messages Q to_int limit consume (Suc fuel) cnt q =
     (if limit_reached limit cnt then Some ([], q)
      else case q_get Q q of
             (None, q1) \<Rightarrow> Some ([], q1)
           | (Some m, q1) \<Rightarrow>
               (let q2 = (if consume then q1 else q_requeue Q m q1)
                in map_option (\<lambda>(ms, q3). ((dlq_message to_int m, m) # ms, q3))
                     (fetch_dlq_messages Q to_int limit consume fuel (Suc cnt) q2)))"

record queue_stats =
  st_count :: nat
  st_reasons :: "(string \<times> nat) list"
  st_oldest :: "string option"
  st_newest :: "string option"

definition string_less :: "string \<Rightarrow> string \<Rightarrow> bool" where
  "string_less a b = (a < b)"

definition add_to_stats :: "DLQMessage \<Rightarrow> queue_stats \<Rightarrow> queue_stats" where
  "add_to_stats m st =
     (let reason = (if dm_death_reason m = [] then ''unknown'' else dm_death_reason m);
          n = (case map_of (st_reasons st) reason of Some n \<Rightarrow> n | None \<Rightarrow> 0);
          st1 = st\<lparr>st_count := Suc (st_count st), st_reasons := dict_set reason (Suc n) (st_reasons st)\<rparr>;
          t = dm_first_death_time m
      in if t = [] then st1
         else st1\<lparr>st_oldest := (case st_oldest st of None \<Rightarrow> Some t
                    | Some u \<Rightarrow> if string_less t u then Some t else Some u),
                  st_newest := (case st_newest st of None \<Rightarrow> Some t
                    | Some u \<Rightarrow> if string_less u t then Some t else Some u)\<rparr>)"

definition no_stats :: queue_stats where
  "no_stats = \<lparr>st_count = 0, st_reasons = [], st_oldest = None, st_newest = None\<rparr>"

fun dlq_stats :: "DLQMessage list \<Rightarrow> (string \<times> queue_stats) list \<Rightarrow> (string \<times> queue_stats) list" where
  "dlq_stats [] stats = stats"
| "dlq_stats (m # ms) stats =
     (let queue_name = (if dm_original_queue m = [] then ''unknown'' else dm_original_queue m);
          st = (case map_of stats queue_name of Some st \<Rightarrow> st | None \<Rightarrow> no_stats)
      in dlq_stats ms (dict_set queue_name (add_to_stats m st) stats))"

definition get_dlq_stats_by_queue ::
  "'q dlq_ops \<Rightarrow> (string \<Rightarrow> int) \<Rightarrow> nat \<Rightarrow> 'q \<Rightarrow> (string \<times> queue_stats) list option" where
  "get_dlq_stats_by_queue Q to_int fuel q =
     map_option (\<lambda>(ms, q'). dlq_stats (map fst ms) []) (fetch_dlq_messages Q to_int None False fuel 0 q)"

text \<open>\<open>needle in hay\<close>\<close>

fun substring :: "string \<Rightarrow> string \<Rightarrow> bool" where
  "substring needle [] = (needle = [])"
| "substring needle (c # cs) = (py_startswith (c # cs) needle \<or> substring needle cs)"

definition skipped :: "string option \<Rightarrow> raw_message \<Rightarrow> bool" where
  "skipped queue_filter m =
     (let original_queue = (case raw_death m of
            Some d \<Rightarrow> (case death_queue d of Some q \<Rightarrow> q | None \<Rightarrow> []) | None \<Rightarrow> [])
      in case queue_filter of
           None \<Rightarrow> False
         | Some f \<Rightarrow> f \<noteq> [] \<and> \<not> substring (py_lower f) (py_lower original_queue))"

text \<open>
  The second part of \<open>dlq_requeue\<close>: \<open>accept i\<close> tells whether the publication number \<open>i\<close> was accepted. The
  result holds the messages published and acknowledged, with the routing key they were given, and
  the number of errors.
\<close>

definition requeue_key :: "raw_message \<Rightarrow> string" where
  "requeue_key m =
     (if raw_routing_key m \<noteq> [] then raw_routing_key m
      else case raw_death m of
             Some d \<Rightarrow> (case death_queue d of Some q \<Rightarrow> q | None \<Rightarrow> []) | None \<Rightarrow> [])"

fun requeue_loop ::
  "'q dlq_ops \<Rightarrow> string option \<Rightarrow> nat option \<Rightarrow> (nat \<Rightarrow> bool) \<Rightarrow> nat \<Rightarrow> nat \<Rightarrow> 'q \<Rightarrow>
   ((string \<times> raw_message) list \<times> nat \<times> 'q) option" where
  "requeue_loop Q queue_filter limit accept 0 cnt q = None"
| "requeue_loop Q queue_filter limit accept (Suc fuel) cnt q =
     (if limit_reached limit cnt then Some ([], 0, q)
      else case q_get Q q of
             (None, q1) \<Rightarrow> Some ([], 0, q1)
           | (Some m, q1) \<Rightarrow>
               if skipped queue_filter m
               then requeue_loop Q queue_filter limit accept fuel cnt (q_requeue Q m q1)
               else if accept cnt
               then map_option (\<lambda>(ps, errors, q2). ((requeue_key m, m) # ps, errors, q2))
                      (requeue_loop Q queue_filter limit accept fuel (Suc cnt) q1)
               else map_option (\<lambda>(ps, errors, q2). (ps, Suc errors, q2))
                      (requeue_loop Q queue_filter limit accept fuel (Suc cnt) (q_requeue Q m q1)))"

subsection \<open>Properties\<close>

context dead_letter_queue
begin

lemma fetch_unlimited_diverges:
  "q_get Q q = (Some m, q') \<Longrightarrow> fetch_dlq_messages Q to_int None False fuel cnt q = None"
proof (induction fuel arbitrary: cnt q)
  case (Suc fuel)
  from Suc.IH [OF requeue_head [OF Suc.prems]] Suc.prems show ?case
    by (simp add: limit_reached_def)
qed simp

lemma fetch_limited_repeats:
  "q_get Q q = (Some m, q') \<Longrightarrow> cnt \<le> n \<Longrightarrow> n - cnt < fuel \<Longrightarrow>
   \<exists>q2. fetch_dlq_messages Q to_int (Some n) False fuel cnt q =
     Some (replicate (n - cnt) (dlq_message to_int m, m), q2)"
proof (induction fuel arbitrary: cnt q)
  case (Suc fuel)
  show ?case
  proof (cases "n \<le> cnt")
    case True
    then show ?thesis using Suc.prems by (simp add: limit_reached_def)
  next
    case False
    then have "n - Suc cnt < fuel" "Suc cnt \<le> n" using Suc.prems(3) by linarith+
    with Suc.IH [OF requeue_head [OF Suc.prems(1)], of "Suc cnt"] obtain q2 where
      "fetch_dlq_messages Q to_int (Some n) False fuel (Suc cnt) (q_requeue Q m q') =
         Some (replicate (n - Suc cnt) (dlq_message to_int m, m), q2)" by blast
    moreover have "replicate (n - cnt) x = x # replicate (n - Suc cnt) x" for x :: "DLQMessage \<times> raw_message"
      using False by (metis Suc_diff_Suc not_le_imp_less replicate_Suc)
    ultimately show ?thesis using False Suc.prems(1) by (simp add: limit_reached_def)
  qed
qed simp

lemma requeue_filtered_diverges:
  "q_get Q q = (Some m, q') \<Longrightarrow> skipped f m \<Longrightarrow> \<not> limit_reached limit cnt \<Longrightarrow>
   requeue_loop Q f limit accept fuel cnt q = None"
proof (induction fuel arbitrary: q)
  case (Suc fuel)
  from Suc.IH [OF requeue_head [OF Suc.prems(1)]] Suc.prems show ?case by simp
qed simp

lemma requeue_all_ends:
  "q_len Q q < fuel \<Longrightarrow> \<forall>i. accept i \<Longrightarrow>
   \<exists>ps q'. requeue_loop Q None None accept fuel cnt q = Some (ps, 0, q') \<and> length ps = q_len Q q
     \<and> (\<forall>(k, m) \<in> set ps. k = requeue_key m)"
proof (induction fuel arbitrary: cnt q)
  case (Suc fuel)
  show ?case
  proof (cases "q_get Q q")
    case (Pair r q1)
    show ?thesis
    proof (cases r)
      case None
      then show ?thesis using Pair get_empty by (simp add: limit_reached_def)
    next
      case (Some m)
      with Pair get_len [of q m q1] Suc.prems(1) have len: "q_len Q q = Suc (q_len Q q1)" "q_len Q q1 < fuel"
        by simp_all
      obtain ps q' where "requeue_loop Q None None accept fuel (Suc cnt) q1 = Some (ps, 0, q')"
        "length ps = q_len Q q1" "\<forall>(k, m) \<in> set ps. k = requeue_key m"
        using Suc.IH [OF len(2) Suc.prems(2), of "Suc cnt"] by blast
      moreover have "accept cnt" using Suc.prems(2) by simp
      ultimately show ?thesis using Pair Some len(1)
        by (intro exI [of _ "(requeue_key m, m) # ps"] exI [of _ q'])
          (simp add: limit_reached_def skipped_def)
    qed
  qed
qed simp

end

text \<open>
  Reading the dead letter queue without a limit never ends when there is a message: each message
  is returned to the head of the queue and read again. The statistics command reads this way.
\<close>

theorem dlq_statistics_never_end:
  assumes "dead_letter_queue Q" and "q_get Q q = (Some m, q')"
  shows "get_dlq_stats_by_queue Q to_int fuel q = None"
  using dead_letter_queue.fetch_unlimited_diverges [OF assms] by (simp add: get_dlq_stats_by_queue_def)

definition sample_dead :: "string \<Rightarrow> raw_message" where
  "sample_dead b = \<lparr>raw_body = b, raw_routing_key = ''dlx'',
     raw_death = Some \<lparr>death_queue = Some ''user.app.C.f'', death_reason_raw = Some ''rejected'',
       death_count_raw = Some (HInt 1), death_time_raw = None\<rparr>,
     raw_message_id = None, raw_content_type = None\<rparr>"

theorem dlq_statistics_never_end_witness:
  "get_dlq_stats_by_queue list_dlq (\<lambda>_. 0) 100000 [sample_dead ''a'', sample_dead ''b''] = None"
  by (rule dlq_statistics_never_end [OF list_dlq.dead_letter_queue_axioms,
    where m = "sample_dead ''a''" and q' = "[sample_dead ''b'']"]) (simp add: list_dlq_def)

text \<open>
  With a limit of \<open>n\<close> the listing shows the first message of the queue \<open>n\<close> times, whatever else the
  queue holds.
\<close>

theorem dlq_listing_repeats_first_message:
  assumes "dead_letter_queue Q" and "q_get Q q = (Some m, q')" and "n < fuel"
  shows "\<exists>q2. fetch_dlq_messages Q to_int (Some n) False fuel 0 q =
    Some (replicate n (dlq_message to_int m, m), q2)"
  using dead_letter_queue.fetch_limited_repeats [OF assms(1,2), of 0 n fuel] assms(3) by simp

theorem dlq_listing_repeats_first_message_witness:
  "\<exists>q2. fetch_dlq_messages list_dlq (\<lambda>_. 0) (Some 2) False 3 0 [sample_dead ''a'', sample_dead ''b''] =
     Some ([(dlq_message (\<lambda>_. 0) (sample_dead ''a''), sample_dead ''a''),
            (dlq_message (\<lambda>_. 0) (sample_dead ''a''), sample_dead ''a'')], q2)"
  using dlq_listing_repeats_first_message [OF list_dlq.dead_letter_queue_axioms,
    of "[sample_dead ''a'', sample_dead ''b'']" "sample_dead ''a''" "[sample_dead ''b'']" 2 3 "\<lambda>_. 0"]
  by (simp add: list_dlq_def numeral_2_eq_2)

subsection \<open>Where requeued messages go\<close>

text \<open>
  What the AMQP documentation says of a topic exchange, for the binding patterns this program uses: a
  trailing \<open>.#\<close> matches the words before it and any continuation, and a pattern without wildcards
  matches itself.
\<close>

definition no_wildcard :: "string \<Rightarrow> bool" where
  "no_wildcard p = (CHR ''#'' \<notin> set p \<and> CHR ''*'' \<notin> set p)"

locale topic_exchange =
  fixes matches :: "string \<Rightarrow> string \<Rightarrow> bool"
  assumes matches_hash: "no_wildcard t \<Longrightarrow> matches (t @ ''.#'') k \<longleftrightarrow> k = t \<or> py_startswith k (t @ ''.'')"
    and matches_literal: "no_wildcard p \<Longrightarrow> matches p k \<longleftrightarrow> p = k"
begin

lemma dlx_unrouted:
  assumes "no_wildcard t" "t \<noteq> ''dlx''"
  shows "\<not> matches (gen_routing_key t) ''dlx''"
proof
  assume "matches (gen_routing_key t) ''dlx''"
  then have "py_startswith ''dlx'' (t @ ''.'')"
    using matches_hash [OF assms(1), of "''dlx''"] assms(2) by (auto simp: gen_routing_key_def)
  then have "CHR ''.'' \<in> set ''dlx''"
    using in_set_takeD [of "CHR ''.''" "length (t @ ''.'')" "''dlx''"] by (simp add: py_startswith_def)
  then show False by simp
qed

lemma dlx_not_scheduled:
  assumes "no_wildcard (md @ ''.'' @ qn)"
  shows "\<not> matches (md @ ''.'' @ qn) ''dlx''"
proof
  assume "matches (md @ ''.'' @ qn) ''dlx''"
  then have eq: "md @ ''.'' @ qn = ''dlx''" using matches_literal [OF assms] by blast
  have "CHR ''.'' \<in> set (md @ ''.'' @ qn)" by simp
  then show False unfolding eq by simp
qed

end

definition ref_matches :: "string \<Rightarrow> string \<Rightarrow> bool" where
  "ref_matches p k =
     (if drop (length p - 2) p = ''.#''
      then k = take (length p - 2) p \<or> py_startswith k (take (length p - 2) p @ ''.'')
      else p = k)"

interpretation ref_topic: topic_exchange ref_matches
proof
  fix p k :: string assume "no_wildcard p"
  then have "drop (length p - 2) p \<noteq> ''.#''"
    by (metis in_set_dropD list.set_intros(1,2) no_wildcard_def)
  then show "ref_matches p k = (p = k)" by (simp add: ref_matches_def)
qed (simp add: ref_matches_def)

text \<open>
  \<open>dlq requeue\<close> loses the messages it reports as requeued: a dead-lettered message carries the
  routing key \<open>dlx\<close> of its queue's arguments, the command publishes it to the main exchange under that
  key, no queue the program declares is bound for it, and the message is then acknowledged. All
  messages of the queue leave it this way.
\<close>

theorem dlq_requeue_loses_messages:
  assumes "dead_letter_queue Q" and "topic_exchange matches" and "q_len Q q < fuel" and "\<forall>i. accept i"
    and "\<forall>k m ps q'. requeue_loop Q None None accept fuel 0 q = Some (ps, 0, q') \<and> (k, m) \<in> set ps
      \<longrightarrow> raw_routing_key m = DEAD_LETTER_EXCHANGE"
    and "\<forall>mb \<in> set members. (\<forall>t. mem_topic mb = Some t \<longrightarrow> no_wildcard t \<and> t \<noteq> DEAD_LETTER_EXCHANGE)
      \<and> no_wildcard (mem_module mb @ ''.'' @ mem_qualname mb)"
  shows "\<exists>ps q'. requeue_loop Q None None accept fuel 0 q = Some (ps, 0, q') \<and> length ps = q_len Q q
    \<and> (\<forall>(k, m) \<in> set ps. \<forall>mb \<in> set members.
         (\<forall>t. mem_topic mb = Some t \<longrightarrow> \<not> matches (gen_routing_key t) k)
         \<and> \<not> matches (mem_module mb @ ''.'' @ mem_qualname mb) k)"
proof -
  obtain ps q' where ps: "requeue_loop Q None None accept fuel 0 q = Some (ps, 0, q')"
    "length ps = q_len Q q" "\<forall>(k, m) \<in> set ps. k = requeue_key m"
    using dead_letter_queue.requeue_all_ends [OF assms(1,3,4)] by blast
  have "k = DEAD_LETTER_EXCHANGE" if "(k, m) \<in> set ps" for k m
  proof -
    have "raw_routing_key m = DEAD_LETTER_EXCHANGE" using assms(5) ps(1) that by blast
    then show ?thesis using ps(3) that by (auto simp: requeue_key_def)
  qed
  with ps assms(6) show ?thesis
    using topic_exchange.dlx_unrouted [OF assms(2)] topic_exchange.dlx_not_scheduled [OF assms(2)]
    by fastforce
qed

theorem dlq_requeue_loses_messages_witness:
  "\<exists>ps q'. requeue_loop list_dlq None None (\<lambda>_. True) 5 0 [sample_dead ''a''] = Some (ps, 0, q') \<and> length ps = 1
    \<and> (\<forall>(k, m) \<in> set ps. \<not> ref_matches (gen_routing_key ''user'') k)"
proof -
  let ?mb = "\<lparr>mem_module = ''app'', mem_qualname = ''C.f'', mem_topic = Some ''user'', mem_scheduled = False\<rparr>"
  have "requeue_loop list_dlq None None (\<lambda>_. True) 5 0 [sample_dead ''a''] =
      Some ([(''dlx'', sample_dead ''a'')], 0, [])"
    by (simp add: list_dlq_def limit_reached_def skipped_def requeue_key_def sample_dead_def eval_nat_numeral)
  then show ?thesis
    using dlq_requeue_loses_messages [OF list_dlq.dead_letter_queue_axioms ref_topic.topic_exchange_axioms,
      of "[sample_dead ''a'']" 5 "\<lambda>_. True" "[?mb]"]
    by (simp add: no_wildcard_def list_dlq_def sample_dead_def)
qed

text \<open>
  With a queue filter, \<open>dlq requeue\<close> never ends once a message that does not match the filter is at
  the head of the queue: it is put back without being counted and read again.
\<close>

theorem dlq_requeue_filter_never_ends:
  assumes "dead_letter_queue Q" and "q_get Q q = (Some m, q')" and "skipped queue_filter m"
    and "\<not> limit_reached limit 0"
  shows "requeue_loop Q queue_filter limit accept fuel 0 q = None"
  using dead_letter_queue.requeue_filtered_diverges [OF assms(1-4)] .

theorem dlq_requeue_filter_never_ends_witness:
  "requeue_loop list_dlq (Some ''orders'') (Some 1) (\<lambda>_. True) 100000 0 [sample_dead ''a''] = None"
  by (rule dlq_requeue_filter_never_ends [OF list_dlq.dead_letter_queue_axioms,
        where m = "sample_dead ''a''" and q' = "[]"])
    (simp add: list_dlq_def, code_simp, simp add: limit_reached_def)

end
