(* ===== verification/Worker_Consumer.thy ===== *)
theory Worker_Consumer
  imports Worker_Config Amqp Retry
begin

section \<open>Channels, consumers and the life of the worker\<close>

text \<open>
  The rest of \<open>AioPikaMicroserviceConsumer\<close>, \<open>ScheduledMessageHandlerCallback.handle_message\<close> and
  \<open>MessageBusWorker.start_async\<close> of \<^verbatim>\<open>messagebus/worker.py\<close>: which handlers are registered, which channel
  each uses, how consumers are set up and stopped, and how the worker watches its connection and
  drains its tasks.
\<close>

subsection \<open>Selecting handlers\<close>

text \<open>A handler as the worker sees it: the name and group of its decorator, its topic and its kind.\<close>

record handler_entry =
  he_queue :: string
  he_name :: "string option"
  he_group :: string
  he_topic :: string
  he_task :: bool      \<comment> \<open>\<open>MESSAGE_TYPE == "task"\<close>\<close>

definition passes_filters :: "string list option \<Rightarrow> string list option \<Rightarrow> string option \<Rightarrow> string \<Rightarrow> bool" where
  "passes_filters handler_names handler_groups name grp =
     ((case handler_names of
         None \<Rightarrow> True
       | Some names \<Rightarrow> (case name of None \<Rightarrow> False | Some n \<Rightarrow> n \<in> set names))
      \<and> (case handler_groups of None \<Rightarrow> True | Some groups \<Rightarrow> grp \<in> set groups))"

text \<open>
  The loop over the handlers of one controller, in the order the set is iterated; \<open>topics\<close> are the keys of
  \<open>message_handler_data_map\<close>.
\<close>

fun select_handlers ::
  "string list option \<Rightarrow> string list option \<Rightarrow> string list \<Rightarrow> handler_entry list \<Rightarrow> handler_entry list" where
  "select_handlers names groups topics [] = []"
| "select_handlers names groups topics (h # hs) =
     (if \<not> passes_filters names groups (he_name h) (he_group h)
      then select_handlers names groups topics hs
      else if he_topic h \<in> set topics \<and> he_task h
      then select_handlers names groups topics hs
      else h # select_handlers names groups (he_topic h # topics) hs)"

definition start_handlers ::
  "string list option \<Rightarrow> string list option \<Rightarrow> handler_entry list list \<Rightarrow> handler_entry list" where
  "start_handlers names groups controllers = concat (map (select_handlers names groups []) controllers)"

subsection \<open>Channels\<close>

text \<open>\<open>handler.spec.channel_id or (DEFAULT_CHANNEL_ID if shared_default_channel else queue_name)\<close>\<close>

definition consumer_channel_id :: "string \<Rightarrow> worker_config \<Rightarrow> string option \<Rightarrow> string \<Rightarrow> string" where
  "consumer_channel_id default_channel_id cfg spec_channel_id queue_name =
     str_or spec_channel_id (if cfg_shared_default_channel cfg then default_channel_id else queue_name)"

record conn =
  channels :: "string \<Rightarrow> nat option"
  closed_channels :: "nat set"
  next_channel :: nat
  connection_up :: bool
  qos :: "(nat \<times> int \<times> bool) list"

definition channel_prefetch :: "worker_config \<Rightarrow> string \<Rightarrow> int" where
  "channel_prefetch cfg channel_id =
     (case map_of (cfg_prefetch_by_channel_id cfg) channel_id of
        Some n \<Rightarrow> n | None \<Rightarrow> cfg_default_prefetch_count cfg)"

text \<open>One attempt of \<open>_establish_channel\<close>; \<open>o\<close> is the outcome of opening the channel and setting its QoS.\<close>

definition establish_channel :: "conn \<Rightarrow> (exc, unit) outcome \<Rightarrow> (exc, unit) outcome" where
  "establish_channel s attempt =
     (if connection_up s then attempt else Raised (Exc RuntimeError ''Connection is not available''))"

text \<open>
  The retried classes are the connection and channel errors of the AMQP library, which \<open>is_amqp\<close> stands for,
  and \<open>ConnectionError\<close>.
\<close>

definition channel_retries :: "exc \<Rightarrow> bool" where
  "channel_retries e = (is_amqp e \<or> exc_cls e = ConnectionError)"

definition new_channel ::
  "worker_config \<Rightarrow> (nat \<Rightarrow> rat) \<Rightarrow> (nat \<Rightarrow> (exc, unit) outcome) \<Rightarrow> string \<Rightarrow> conn \<Rightarrow> nat result \<times> conn" where
  "new_channel cfg rnd attempts channel_id s =
     (case snd (with_retry (cfg_consumer_retry_policy cfg) channel_retries rnd
                  (\<lambda>i. establish_channel s (attempts i))) of
        RetryReturn u \<Rightarrow>
          (Inr (next_channel s),
           s\<lparr>channels := (channels s)(channel_id \<mapsto> next_channel s), next_channel := Suc (next_channel s),
             qos := qos s @ [(next_channel s, channel_prefetch cfg channel_id, cfg_qos_global cfg)]\<rparr>)
      | RetryRaise e \<Rightarrow> (Inl e, s)
      | RetryCancelled e \<Rightarrow> (Inl (Exc CancelledError []), s)
      | RetryUnexpected \<Rightarrow> (Inl (Exc RuntimeError ''Unexpected error in retry logic''), s))"

definition retrieve_channel ::
  "worker_config \<Rightarrow> (nat \<Rightarrow> rat) \<Rightarrow> (nat \<Rightarrow> (exc, unit) outcome) \<Rightarrow> string \<Rightarrow> conn \<Rightarrow> nat result \<times> conn" where
  "retrieve_channel cfg rnd attempts channel_id s =
     (case channels s channel_id of
        Some c \<Rightarrow> if c \<notin> closed_channels s then (Inr c, s) else new_channel cfg rnd attempts channel_id s
      | None \<Rightarrow> new_channel cfg rnd attempts channel_id s)"

subsection \<open>Setting consumers up\<close>

definition setup_retries :: "exc \<Rightarrow> bool" where
  "setup_retries e = is_amqp e"

text \<open>
  One run of \<open>setup_consumer\<close>: \<open>setup\<close> is the first exception on the way to a registered consumer, and
  \<open>cancel\<close> what cancelling it at shutdown raises. A message handler swallows every exception of the
  cancellation, a scheduled action only that the channel is closed.
\<close>

definition handler_setup_attempt :: "exc option \<Rightarrow> exc option \<Rightarrow> (exc, unit) outcome" where
  "handler_setup_attempt setup cancel =
     (case setup of
        Some e \<Rightarrow> Raised e
      | None \<Rightarrow> (case swallow cancel of Some e \<Rightarrow> Raised e | None \<Rightarrow> Returned ()))"

definition scheduled_setup_attempt :: "exc option \<Rightarrow> exc option \<Rightarrow> (exc, unit) outcome" where
  "scheduled_setup_attempt setup cancel =
     (case setup of
        Some e \<Rightarrow> Raised e
      | None \<Rightarrow> (case cancel of
                   None \<Rightarrow> Returned ()
                 | Some e \<Rightarrow> if exc_cls e = ChannelClosed \<or> exc_cls e = ChannelNotFoundEntity
                             then Returned () else Raised e))"

definition setup_result :: "(exc, unit) retry_result \<Rightarrow> bool result" where
  "setup_result r =
     (case r of
        RetryReturn u \<Rightarrow> Inr True
      | RetryRaise e \<Rightarrow> if is_Exception e then Inr False else Inl e
      | RetryCancelled e \<Rightarrow> Inl (Exc CancelledError [])
      | RetryUnexpected \<Rightarrow> Inr False)"

definition setup_message_handler_consumer ::
  "worker_config \<Rightarrow> (nat \<Rightarrow> rat) \<Rightarrow> (nat \<Rightarrow> exc option \<times> exc option) \<Rightarrow> bool result" where
  "setup_message_handler_consumer cfg rnd runs =
     setup_result (snd (with_retry (cfg_consumer_retry_policy cfg) setup_retries rnd
       (\<lambda>i. case runs i of (a, b) \<Rightarrow> handler_setup_attempt a b)))"

definition setup_scheduled_action_consumer ::
  "worker_config \<Rightarrow> (nat \<Rightarrow> rat) \<Rightarrow> (nat \<Rightarrow> exc option \<times> exc option) \<Rightarrow> bool result" where
  "setup_scheduled_action_consumer cfg rnd runs =
     setup_result (snd (with_retry (cfg_consumer_retry_policy cfg) setup_retries rnd
       (\<lambda>i. case runs i of (a, b) \<Rightarrow> scheduled_setup_attempt a b)))"

definition verify_infrastructure :: "string \<Rightarrow> amqp \<Rightarrow> bool result \<times> amqp" where
  "verify_infrastructure exchange s =
     (case seq_calls [OpenChannel, GetExchange exchange, GetExchange DEAD_LETTER_EXCHANGE,
                      GetQueue DEAD_LETTER_QUEUE] s of
        (None, s1) \<Rightarrow> (Inr True, s1)
      | (Some e, s1) \<Rightarrow> (if is_amqp e then Inr False else Inl e, s1))"

subsection \<open>Watching the connection\<close>

record health_round =
  hr_shutdown_before :: bool
  hr_wait :: "exc option"      \<comment> \<open>what \<open>_wait_delay_or_shutdown\<close> raises\<close>
  hr_shutdown_after :: bool
  hr_connected :: bool
  hr_open :: "exc option"      \<comment> \<open>what opening a test channel raises\<close>

definition is_connection_healthy :: "health_round \<Rightarrow> string option result" where
  "is_connection_healthy r =
     (if \<not> hr_connected r then Inr (Some ''Connection is closed or not established'')
      else case hr_open r of
             None \<Rightarrow> Inr None
           | Some e \<Rightarrow> if is_Exception e then Inr (Some (exc_str e)) else Inl e)"

datatype monitor_end = Watching | MonitorStopped | ShutdownTriggered | MonitorRaised exc

fun monitor_connection_health :: "health_round list \<Rightarrow> monitor_end" where
  "monitor_connection_health [] = Watching"
| "monitor_connection_health (r # rs) =
     (if hr_shutdown_before r then MonitorStopped
      else case hr_wait r of
             Some e \<Rightarrow> if exc_cls e = CancelledError then MonitorStopped
                       else if is_Exception e then monitor_connection_health rs else MonitorRaised e
           | None \<Rightarrow>
               if hr_shutdown_after r then MonitorStopped
               else (case is_connection_healthy r of
                       Inr None \<Rightarrow> monitor_connection_health rs
                     | Inr (Some m) \<Rightarrow> ShutdownTriggered
                     | Inl e \<Rightarrow> if exc_cls e = CancelledError then MonitorStopped else MonitorRaised e))"

subsection \<open>Draining tasks\<close>

text \<open>
  \<open>wait_all_tasks_done\<close>: \<open>finished i t\<close> tells whether task \<open>t\<close> is done when \<open>asyncio.wait\<close> returns for the
  \<open>i\<close>-th time. The result is the number of rounds.
\<close>

fun drain_rounds :: "nat \<Rightarrow> (nat \<Rightarrow> 'a \<Rightarrow> bool) \<Rightarrow> nat \<Rightarrow> 'a list \<Rightarrow> nat option" where
  "drain_rounds fuel finished i [] = Some i"
| "drain_rounds 0 finished i (t # ts) = None"
| "drain_rounds (Suc fuel) finished i (t # ts) =
     drain_rounds fuel finished (Suc i) (filter (\<lambda>u. \<not> finished i u) (t # ts))"

definition wait_all_tasks_done :: "nat \<Rightarrow> ('a \<Rightarrow> bool) \<Rightarrow> (nat \<Rightarrow> 'a \<Rightarrow> bool) \<Rightarrow> 'a list \<Rightarrow> nat option" where
  "wait_all_tasks_done fuel ended finished tasks =
     drain_rounds fuel finished 0 (filter (\<lambda>t. \<not> ended t) tasks)"

subsection \<open>A scheduled trigger\<close>

datatype sched_call = SRejectRequeue | SRun "int option"

text \<open>
  \<open>ScheduledMessageHandlerCallback.handle_message\<close> after the task was created: the shutdown event and the
  health flag may have changed since. \<open>params\<close> is the number of parameters of the action.
\<close>

definition run_scheduled ::
  "nat \<Rightarrow> string \<Rightarrow> (sched_call, exc option) world \<Rightarrow> exc option \<times> (sched_call, exc option) world" where
  "run_scheduled params body s =
     (if params = 1
      then (case py_int body of
              None \<Rightarrow> (Some (Exc ValueError ''invalid literal for int()''), s)
            | Some i \<Rightarrow> (let (a, s1) = do_call (SRun (Some i)) s in (swallow a, s1)))
      else if params = 0 then (let (a, s1) = do_call (SRun None) s in (swallow a, s1))
      else (None, s))"

definition scheduled_handle_message ::
  "bool \<Rightarrow> bool \<Rightarrow> nat \<Rightarrow> string \<Rightarrow> (sched_call, exc option) world \<Rightarrow>
   exc option \<times> (sched_call, exc option) world" where
  "scheduled_handle_message shutdown healthy params body s =
     (let (r, s1) = (if shutdown then
            (case do_call SRejectRequeue s of
               (None, t) \<Rightarrow> (Some None, t)
             | (Some e, t) \<Rightarrow> if exc_cls e = RuntimeError then (None, t)
                              else (Some (swallow (Some e)), t))
          else (None, s))
      in case r of
           Some res \<Rightarrow> (res, s1)
         | None \<Rightarrow>
             if \<not> healthy then (let (a, s2) = do_call SRejectRequeue s1 in (swallow a, s2))
             else run_scheduled params body s1)"

subsection \<open>Properties\<close>

lemma select_handlers_sub:
  "h \<in> set (select_handlers names groups topics hs) \<Longrightarrow>
   h \<in> set hs \<and> passes_filters names groups (he_name h) (he_group h) \<and> \<not> (he_topic h \<in> set topics \<and> he_task h)"
  by (induction names groups topics hs rule: select_handlers.induct) (auto split: if_splits)

lemma select_handlers_complete:
  "h \<in> set hs \<Longrightarrow> passes_filters names groups (he_name h) (he_group h) \<Longrightarrow> \<not> he_task h \<Longrightarrow>
   h \<in> set (select_handlers names groups topics hs)"
  by (induction names groups topics hs rule: select_handlers.induct) auto

lemma select_handlers_topic:
  "h \<in> set hs \<Longrightarrow> passes_filters names groups (he_name h) (he_group h) \<Longrightarrow>
   he_topic h \<in> set topics \<or> (\<exists>g \<in> set (select_handlers names groups topics hs). he_topic g = he_topic h)"
  by (induction names groups topics hs rule: select_handlers.induct) auto

lemma select_handlers_distinct_tasks:
  "distinct (map he_topic (filter he_task (select_handlers names groups topics hs)))"
  by (induction names groups topics hs rule: select_handlers.induct) (auto dest: select_handlers_sub)

text \<open>
  Handler selection: a worker registers only handlers its name and group filters accept, at most
  one task handler per topic of a controller, every accepted event handler, and some handler for
  every accepted topic.
\<close>

theorem handler_selection:
  "(\<forall>h \<in> set (select_handlers names groups [] hs).
      h \<in> set hs \<and> passes_filters names groups (he_name h) (he_group h))
   \<and> distinct (map he_topic (filter he_task (select_handlers names groups [] hs)))
   \<and> (\<forall>h \<in> set hs. passes_filters names groups (he_name h) (he_group h) \<longrightarrow>
        (\<exists>g \<in> set (select_handlers names groups [] hs). he_topic g = he_topic h)
        \<and> (\<not> he_task h \<longrightarrow> h \<in> set (select_handlers names groups [] hs)))"
proof (intro conjI ballI impI)
  show "distinct (map he_topic (filter he_task (select_handlers names groups [] hs)))"
    by (rule select_handlers_distinct_tasks)
next
  fix h assume "h \<in> set hs" "passes_filters names groups (he_name h) (he_group h)"
  from select_handlers_topic [OF this, of "[]"]
  show "\<exists>g \<in> set (select_handlers names groups [] hs). he_topic g = he_topic h" by simp
qed (blast dest: select_handlers_sub intro: select_handlers_complete)+

definition sample_entries :: "handler_entry list" where
  "sample_entries =
     [\<lparr>he_queue = ''q1'', he_name = Some ''a'', he_group = ''g'', he_topic = ''t'', he_task = True\<rparr>,
      \<lparr>he_queue = ''q2'', he_name = Some ''a'', he_group = ''g'', he_topic = ''t'', he_task = True\<rparr>,
      \<lparr>he_queue = ''q3'', he_name = None, he_group = ''g'', he_topic = ''t'', he_task = True\<rparr>]"

theorem handler_selection_witness:
  "map he_queue (select_handlers (Some [''a'']) None [] sample_entries) = [''q1'']
   \<and> distinct (map he_topic (filter he_task (select_handlers (Some [''a'']) None [] sample_entries)))"
proof
  show "map he_queue (select_handlers (Some [''a'']) None [] sample_entries) = [''q1'']" by code_simp
  show "distinct (map he_topic (filter he_task (select_handlers (Some [''a'']) None [] sample_entries)))"
    using handler_selection [of "Some [''a'']" None sample_entries] by blast
qed

text \<open>What \<open>retrieve_channel\<close> keeps: channels are numbered in order, and each was given its prefetch.\<close>

definition channels_inv :: "worker_config \<Rightarrow> conn \<Rightarrow> bool" where
  "channels_inv cfg s = (\<forall>i c. channels s i = Some c \<longrightarrow>
     c < next_channel s \<and> (c, channel_prefetch cfg i, cfg_qos_global cfg) \<in> set (qos s)
     \<and> (\<forall>j. channels s j = Some c \<longrightarrow> j = i))"

lemma channels_inv_new:
  assumes "channels_inv cfg s"
  shows "channels_inv cfg (s\<lparr>channels := (channels s)(i \<mapsto> next_channel s),
    next_channel := Suc (next_channel s),
    qos := qos s @ [(next_channel s, channel_prefetch cfg i, cfg_qos_global cfg)]\<rparr>)"
proof -
  have old: "c < next_channel s \<and> (c, channel_prefetch cfg j, cfg_qos_global cfg) \<in> set (qos s)
      \<and> (\<forall>k. channels s k = Some c \<longrightarrow> k = j)" if "channels s j = Some c" for j c
    using assms that by (simp add: channels_inv_def)
  let ?n = "next_channel s"
  have "c < Suc ?n \<and> (c, channel_prefetch cfg j, cfg_qos_global cfg)
        \<in> set (qos s @ [(?n, channel_prefetch cfg i, cfg_qos_global cfg)])
      \<and> (\<forall>k. ((channels s)(i \<mapsto> ?n)) k = Some c \<longrightarrow> k = j)"
    if j: "((channels s)(i \<mapsto> ?n)) j = Some c" for j c
  proof (cases "j = i")
    case True
    with j have "c = ?n" by simp
    moreover have "channels s k \<noteq> Some ?n" for k using old [of k ?n] by blast
    ultimately show ?thesis using True by simp
  next
    case False
    with j have c: "channels s j = Some c" by simp
    from old [OF c] have "c < ?n" "(c, channel_prefetch cfg j, cfg_qos_global cfg) \<in> set (qos s)"
      "\<forall>k. channels s k = Some c \<longrightarrow> k = j" by blast+
    then show ?thesis by simp
  qed
  moreover let ?s' = "s\<lparr>channels := (channels s)(i \<mapsto> ?n), next_channel := Suc ?n,
    qos := qos s @ [(?n, channel_prefetch cfg i, cfg_qos_global cfg)]\<rparr>"
  have "channels ?s' = (channels s)(i \<mapsto> ?n)" "next_channel ?s' = Suc ?n"
    "qos ?s' = qos s @ [(?n, channel_prefetch cfg i, cfg_qos_global cfg)]" by simp_all
  ultimately show ?thesis unfolding channels_inv_def by presburger
qed

lemma retrieve_channel_inv:
  assumes "channels_inv cfg s" "retrieve_channel cfg rnd attempts i s = (r, s')"
  shows "channels_inv cfg s' \<and> closed_channels s' = closed_channels s
    \<and> (\<forall>c. r = Inr c \<longrightarrow> channels s' i = Some c)"
  using assms channels_inv_new [OF assms(1), of i]
  by (auto simp: retrieve_channel_def new_channel_def
      split: option.splits if_splits retry_result.splits)

text \<open>
  Each channel id has one open channel with its own prefetch: a channel that was retrieved is
  retrieved again unchanged while it stays open, it was given the prefetch count configured for its
  id, and no two ids share a channel.
\<close>

theorem retrieve_channel_stable:
  assumes "channels_inv cfg s" and "retrieve_channel cfg rnd attempts i s = (Inr c, s')"
    and "c \<notin> closed_channels s'"
  shows "retrieve_channel cfg rnd' attempts' i s' = (Inr c, s')
    \<and> (c, channel_prefetch cfg i, cfg_qos_global cfg) \<in> set (qos s')
    \<and> (\<forall>j. channels s' j = Some c \<longrightarrow> j = i)"
proof -
  have inv: "channels_inv cfg s'" "channels s' i = Some c"
    using retrieve_channel_inv [OF assms(1,2)] by simp_all
  have "retrieve_channel cfg rnd' attempts' i s' = (Inr c, s')"
    using inv(2) assms(3) by (simp add: retrieve_channel_def)
  with inv show ?thesis unfolding channels_inv_def by blast
qed

definition sample_worker_config :: worker_config where
  "sample_worker_config = \<lparr>cfg_exchange = ''ex'', cfg_default_prefetch_count = 10,
     cfg_shared_default_channel = False, cfg_prefetch_by_channel_id = [(''slow'', 1)],
     cfg_qos_global = True, cfg_connection_retry_config = RetryPolicy_default,
     cfg_consumer_retry_policy = RetryPolicy_default, cfg_connection_heartbeat_interval = 30,
     cfg_connection_health_check_interval = 10\<rparr>"

definition sample_conn :: conn where
  "sample_conn = \<lparr>channels = (\<lambda>_. None), closed_channels = {}, next_channel = 0, connection_up = True,
     qos = []\<rparr>"

theorem retrieve_channel_stable_witness:
  "let (r, s') = retrieve_channel sample_worker_config (\<lambda>_. 0) (\<lambda>_. Returned ()) ''slow'' sample_conn
   in r = Inr 0 \<and> (0, 1, True) \<in> set (qos s')
      \<and> retrieve_channel sample_worker_config (\<lambda>_. 0) (\<lambda>_. Raised (Exc AMQPError [])) ''slow'' s' = (Inr 0, s')"
proof -
  obtain r s' where s': "retrieve_channel sample_worker_config (\<lambda>_. 0) (\<lambda>_. Returned ()) ''slow'' sample_conn = (r, s')"
    by fastforce
  have "fst (retrieve_channel sample_worker_config (\<lambda>_. 0) (\<lambda>_. Returned ()) ''slow'' sample_conn) = Inr 0"
    by code_simp
  then have r0: "r = Inr 0" using s' by simp
  have inv: "channels_inv sample_worker_config sample_conn" by (simp add: channels_inv_def sample_conn_def)
  have "closed_channels s' = {}" using retrieve_channel_inv [OF inv s'] by (simp add: sample_conn_def)
  note r = r0 this
  from retrieve_channel_stable [OF inv s' [unfolded r(1)]] s' r show ?thesis
    by (simp add: channel_prefetch_def sample_worker_config_def)
qed

lemma monitor_shutdown_cause:
  "monitor_connection_health rs = ShutdownTriggered \<Longrightarrow>
   \<exists>r \<in> set rs. \<not> hr_connected r \<or> (\<exists>e. hr_open r = Some e \<and> is_Exception e)"
  by (induction rs rule: monitor_connection_health.induct)
    (auto simp: is_connection_healthy_def split: if_splits option.splits sum.splits)

text \<open>A round that neither ends the monitor nor finds the connection lost.\<close>

definition quiet_round :: "health_round \<Rightarrow> bool" where
  "quiet_round r = (\<not> hr_shutdown_before r \<and>
     (case hr_wait r of
        Some e \<Rightarrow> is_Exception e
      | None \<Rightarrow> \<not> hr_shutdown_after r \<and> hr_connected r \<and> hr_open r = None))"

lemma quiet_rounds_watch: "\<forall>r \<in> set rs. quiet_round r \<Longrightarrow>
   monitor_connection_health (rs @ rest) = monitor_connection_health rest"
proof (induction rs)
  case (Cons r rs)
  have "exc_cls e \<noteq> CancelledError" if "is_Exception e" for e using that by (cases e) auto
  with Cons show ?case
    by (auto simp: quiet_round_def is_connection_healthy_def split: option.splits)
qed simp

text \<open>
  The connection monitor shuts the worker down exactly for a lost connection: it triggers at the
  first round that finds the connection closed or unable to open a channel, and never otherwise.
\<close>

theorem monitor_triggers_on_lost_connection:
  "(monitor_connection_health rs = ShutdownTriggered \<longrightarrow>
      (\<exists>r \<in> set rs. \<not> hr_connected r \<or> (\<exists>e. hr_open r = Some e \<and> is_Exception e)))
   \<and> ((\<forall>r \<in> set ok. quiet_round r) \<and> \<not> hr_shutdown_before r \<and> hr_wait r = None \<and> \<not> hr_shutdown_after r
       \<and> (\<not> hr_connected r \<or> (\<exists>e. hr_open r = Some e \<and> is_Exception e)) \<longrightarrow>
      monitor_connection_health (ok @ r # rest) = ShutdownTriggered)"
  using monitor_shutdown_cause [of rs] quiet_rounds_watch [of ok "r # rest"]
  by (auto simp: is_connection_healthy_def)

theorem monitor_triggers_on_lost_connection_witness:
  "let ok = \<lparr>hr_shutdown_before = False, hr_wait = None, hr_shutdown_after = False, hr_connected = True,
     hr_open = None\<rparr>
   in monitor_connection_health ([ok, ok] @ ok\<lparr>hr_connected := False\<rparr> # []) = ShutdownTriggered"
  unfolding Let_def
  by (rule monitor_triggers_on_lost_connection [THEN conjunct2, THEN mp]) (simp add: quiet_round_def)

lemma drain_rounds_mono: "drain_rounds fuel finished i ts = Some k \<Longrightarrow> i \<le> k"
  by (induction fuel finished i ts rule: drain_rounds.induct) (auto split: if_splits)

lemma drain_rounds_ends:
  assumes "\<And>i ts. ts \<noteq> [] \<Longrightarrow> set ts \<subseteq> set all \<Longrightarrow> \<exists>t \<in> set ts. finished i t"
    and "\<And>i t. finished i t \<Longrightarrow> finished (Suc i) t"
  shows "length ts \<le> fuel \<Longrightarrow> set ts \<subseteq> set all \<Longrightarrow>
    \<exists>k. drain_rounds fuel finished i ts = Some k \<and> k \<le> i + length ts \<and> (\<forall>t \<in> set ts. finished k t)"
proof (induction fuel arbitrary: i ts)
  case (Suc fuel)
  show ?case
  proof (cases ts)
    case (Cons t ts')
    let ?us = "filter (\<lambda>u. \<not> finished i u) ts"
    obtain x where "x \<in> set ts" "finished i x" using assms(1) [of ts i] Cons Suc.prems(2) by blast
    then have "length ?us < length ts" by (simp add: length_filter_less)
    then obtain k where k: "drain_rounds fuel finished (Suc i) ?us = Some k" "k \<le> Suc i + length ?us"
      "\<forall>t \<in> set ?us. finished k t"
      using Suc.IH [of ?us "Suc i"] Suc.prems by fastforce
    have "finished k t" if "finished i t" for t
    proof -
      have "Suc i \<le> k" using k(1) by (rule drain_rounds_mono)
      then have "i \<le> k" by simp
      then show ?thesis by (induction k rule: dec_induct) (use that assms(2) in auto)
    qed
    moreover have "drain_rounds (Suc fuel) finished i ts = Some k" using k(1) Cons by simp
    ultimately show ?thesis using k(2,3) \<open>length ?us < length ts\<close> by auto
  qed simp
qed simp

text \<open>
  The graceful shutdown drains: if every wait returns with at least one of the awaited tasks done,
  as \<open>asyncio.wait\<close> with \<open>FIRST_COMPLETED\<close> promises, the loop ends after at most as many rounds as there
  are tasks, and then every task is done.
\<close>

theorem shutdown_waits_for_all_tasks:
  assumes "\<And>i ts. ts \<noteq> [] \<Longrightarrow> set ts \<subseteq> set tasks \<Longrightarrow> \<exists>t \<in> set ts. finished i t"
    and "\<And>i t. finished i t \<Longrightarrow> finished (Suc i) t" and "\<And>i t. ended t \<Longrightarrow> finished i t"
    and "length tasks \<le> fuel"
  shows "\<exists>k \<le> length tasks. wait_all_tasks_done fuel ended finished tasks = Some k
    \<and> (\<forall>t \<in> set tasks. finished k t)"
proof -
  let ?ts = "filter (\<lambda>t. \<not> ended t) tasks"
  have len: "length ?ts \<le> length tasks" by simp
  have "\<exists>k. drain_rounds fuel finished 0 ?ts = Some k \<and> k \<le> 0 + length ?ts \<and> (\<forall>t \<in> set ?ts. finished k t)"
    by (rule drain_rounds_ends [where all = tasks and finished = finished, OF assms(1,2)]) (use assms(4) len in \<open>simp_all del: length_filter_le\<close>)
  then obtain k where k: "drain_rounds fuel finished 0 ?ts = Some k" "k \<le> length ?ts"
    "\<forall>t \<in> set ?ts. finished k t" by auto
  have "finished k t" if "t \<in> set tasks" for t
    using that k(3) assms(3) [of t k] by (cases "ended t") simp_all
  with k len show ?thesis unfolding wait_all_tasks_done_def by (meson le_trans)
qed

theorem shutdown_waits_for_all_tasks_witness:
  "\<exists>k \<le> 2. wait_all_tasks_done 2 (\<lambda>t. False) (\<lambda>i t. True) [0, 1 :: nat] = Some k"
proof -
  have "\<exists>t \<in> set ts. True" if "ts \<noteq> []" for ts :: "nat list" using that by (cases ts) auto
  then show ?thesis
    using shutdown_waits_for_all_tasks [where tasks = "[0, 1 :: nat]" and finished = "\<lambda>i t. True"
      and ended = "\<lambda>t. False" and fuel = 2] by fastforce
qed

text \<open>
  A scheduled trigger that cannot be requeued during shutdown because of a \<open>RuntimeError\<close> runs the
  action all the same, although the worker is shutting down.
\<close>

theorem shutdown_requeue_failure_runs_action:
  assumes "answers s (length (calls s)) = Some (Exc RuntimeError reason)"
  shows "calls (snd (scheduled_handle_message True True 0 body s)) = calls s @ [SRejectRequeue, SRun None]"
  using assms by (simp add: scheduled_handle_message_def run_scheduled_def call_simps)

theorem shutdown_requeue_failure_runs_action_witness:
  "calls (snd (scheduled_handle_message True True 0 ''0''
     \<lparr>calls = [], answers = (\<lambda>i. if i = 0 then Some (Exc RuntimeError ''closed'') else None)\<rparr>)) =
   [SRejectRequeue, SRun None]"
  using shutdown_requeue_failure_runs_action
    [of "\<lparr>calls = [], answers = (\<lambda>i. if i = 0 then Some (Exc RuntimeError ''closed'') else None)\<rparr>"
      "''closed''" "''0''"]
  by simp

end
