(* ===== verification/Publisher.thy ===== *)
theory Publisher
  imports Beat Amqp
begin

section \<open>Publishing through the outbox\<close>

text \<open>
  \<^verbatim>\<open>messagebus/publisher.py\<close>, \<^verbatim>\<open>messagebus/message.py\<close> and \<^verbatim>\<open>messagebus/interceptors/\<close>: a handler stages messages
  on a publisher; the interceptor hands them to the broker and to the delayed message store when the
  handler has returned. Broker and store are calls with arbitrary answers.
\<close>

subsection \<open>Data\<close>

record bus_message =
  bm_topic :: string
  bm_json :: string
  bm_task :: bool

text \<open>The operations of a publisher, as a handler issues them; \<open>when\<close> is a POSIX timestamp.\<close>

datatype pub_op =
    OpPublish bus_message
  | OpDelay bus_message int "string option" payload_policy_t time_policy_t
  | OpSchedule bus_message rat "string option" payload_policy_t time_policy_t

record collected =
  cd_message :: bus_message
  cd_when :: rat
  cd_idempotency_key :: "string option"
  cd_payload_policy :: payload_policy_t
  cd_time_policy :: time_policy_t

record collector =
  col_messages :: "bus_message list"
  col_delayed :: "collected list"

definition MessagePublisherCollector :: collector where
  "MessagePublisherCollector = \<lparr>col_messages = [], col_delayed = []\<rparr>"

text \<open>\<open>now\<close> is the clock when the operation runs.\<close>

fun collector_op :: "rat \<Rightarrow> pub_op \<Rightarrow> collector \<Rightarrow> collector" where
  "collector_op now (OpPublish m) c = c\<lparr>col_messages := col_messages c @ [m]\<rparr>"
| "collector_op now (OpDelay m seconds k pp tp) c = c\<lparr>col_delayed := col_delayed c @
     [\<lparr>cd_message = m, cd_when = now + of_int seconds, cd_idempotency_key = k,
       cd_payload_policy = pp, cd_time_policy = tp\<rparr>]\<rparr>"
| "collector_op now (OpSchedule m tm k pp tp) c = c\<lparr>col_delayed := col_delayed c @
     [\<lparr>cd_message = m, cd_when = tm, cd_idempotency_key = k, cd_payload_policy = pp,
       cd_time_policy = tp\<rparr>]\<rparr>"

definition has_messages :: "collector \<Rightarrow> bool" where
  "has_messages c = (col_messages c \<noteq> [] \<or> col_delayed c \<noteq> [])"

definition collector_flush :: "exc option" where
  "collector_flush = Some (Exc NotImplementedError ''just a collector'')"

record publisher =
  staged_messages :: "bus_message list"
  staged_delayed_messages :: "delayed list"
  pub_backend :: bool

definition posix_int :: "rat \<Rightarrow> int" where
  "posix_int x = (if 0 \<le> x then \<lfloor>x\<rfloor> else \<lceil>x\<rceil>)"

definition staged_delayed :: "bus_message \<Rightarrow> rat \<Rightarrow> string option \<Rightarrow> payload_policy_t \<Rightarrow> time_policy_t \<Rightarrow> delayed" where
  "staged_delayed m tm k pp tp =
     \<lparr>message_topic = bm_topic m, idempotency_key = k, dispatch_time = posix_int tm, payload = bm_json m,
      headers = None, target_queue = None, message_id = None, content_type = None,
      payload_policy = pp, time_policy = tp, content_encoding = None\<rparr>"

fun publisher_op :: "rat \<Rightarrow> pub_op \<Rightarrow> publisher \<Rightarrow> publisher result" where
  "publisher_op now (OpPublish m) p = Inr (p\<lparr>staged_messages := staged_messages p @ [m]\<rparr>)"
| "publisher_op now (OpDelay m seconds k pp tp) p =
     (if \<not> pub_backend p then Inl (Exc NotImplementedError ''Delay is not implemented for AIOPikaMessagePublisher'')
      else Inr (p\<lparr>staged_delayed_messages := staged_delayed_messages p @
             [staged_delayed m (now + of_int seconds) k pp tp]\<rparr>))"
| "publisher_op now (OpSchedule m tm k pp tp) p =
     (if \<not> pub_backend p then Inl (Exc NotImplementedError ''Schedule is not implemented for AIOPikaMessagePublisher'')
      else Inr (p\<lparr>staged_delayed_messages := staged_delayed_messages p @
             [staged_delayed m tm k pp tp]\<rparr>))"

fun publisher_ops :: "rat \<Rightarrow> pub_op list \<Rightarrow> publisher \<Rightarrow> publisher result" where
  "publisher_ops now [] p = Inr p"
| "publisher_ops now (op # ops) p =
     (case publisher_op now op p of Inl e \<Rightarrow> Inl e | Inr p1 \<Rightarrow> publisher_ops now ops p1)"

text \<open>\<open>MessagePublisherCollector.fill\<close>\<close>

definition fill :: "rat \<Rightarrow> collector \<Rightarrow> publisher \<Rightarrow> publisher result" where
  "fill now c p =
     publisher_ops now (map OpPublish (col_messages c) @
       map (\<lambda>d. OpSchedule (cd_message d) (cd_when d) (cd_idempotency_key d) (cd_payload_policy d)
                  (cd_time_policy d)) (col_delayed c)) p"

subsection \<open>Flushing\<close>

datatype pub_call =
    AcquireChannel | TxSelect | TxCommit | TxRollback | GetMainExchange string
  | PublishMessage outgoing bool        \<comment> \<open>mandatory\<close>
  | EnqueueDelayed delayed

type_synonym pub_world = "(pub_call, exc option) world"

text \<open>
  \<open>publish_headers\<close> are the tracing headers of the span opened around each publication and \<open>found\<close> whether
  the channel returned an exchange, both by the position in the log.
\<close>

definition publication :: "string \<Rightarrow> headers \<Rightarrow> bus_message \<Rightarrow> outgoing" where
  "publication exchange hs m =
     \<lparr>out_exchange = Some exchange, out_routing_key = gen_routing_key (bm_topic m), out_body = bm_json m,
      out_headers = hs, out_message_id = None, out_content_type = None, out_content_encoding = None\<rparr>"

fun flush_messages :: "string \<Rightarrow> (nat \<Rightarrow> bool) \<Rightarrow> (nat \<Rightarrow> headers) \<Rightarrow> bus_message list \<Rightarrow> pub_world \<Rightarrow> exc option \<times> pub_world" where
  "flush_messages exchange found publish_headers [] s = (None, s)"
| "flush_messages exchange found publish_headers (m # ms) s =
     (case do_call (GetMainExchange exchange) s of
        (Some e, s1) \<Rightarrow> (Some e, s1)
      | (None, s1) \<Rightarrow>
          if \<not> found (length (calls s)) then flush_messages exchange found publish_headers ms s1
          else (case do_call (PublishMessage (publication exchange (publish_headers (length (calls s1))) m)
                                (bm_task m)) s1 of
                  (Some e, s2) \<Rightarrow> (Some e, s2)
                | (None, s2) \<Rightarrow> flush_messages exchange found publish_headers ms s2))"

definition with_headers :: "headers \<Rightarrow> delayed \<Rightarrow> delayed" where
  "with_headers hs d = d\<lparr>headers := Some (dict_update
     (case headers d of Some h \<Rightarrow> h | None \<Rightarrow> []) (filter (\<lambda>(k, v). v \<noteq> HNone) hs))\<rparr>"

fun flush_delayed :: "(nat \<Rightarrow> headers) \<Rightarrow> delayed list \<Rightarrow> pub_world \<Rightarrow> exc option \<times> pub_world" where
  "flush_delayed publish_headers [] s = (None, s)"
| "flush_delayed publish_headers (d # ds) s =
     (case do_call (EnqueueDelayed (with_headers (publish_headers (length (calls s))) d)) s of
        (Some e, s1) \<Rightarrow> (Some e, s1)
      | (None, s1) \<Rightarrow> flush_delayed publish_headers ds s1)"

definition flush :: "string \<Rightarrow> (nat \<Rightarrow> bool) \<Rightarrow> (nat \<Rightarrow> headers) \<Rightarrow> publisher \<Rightarrow> pub_world \<Rightarrow> exc option \<times> pub_world" where
  "flush exchange found publish_headers p s =
     (case flush_messages exchange found publish_headers (staged_messages p) s of
        (Some e, s1) \<Rightarrow> (Some e, s1)
      | (None, s1) \<Rightarrow>
          if staged_delayed_messages p = [] then (None, s1)
          else if \<not> pub_backend p
          then (Some (Exc NotImplementedError ''MessageBrokerBackend is required to publish delayed messages''), s1)
          else flush_delayed publish_headers (staged_delayed_messages p) s1)"

text \<open>
  \<open>AIOPikaConnectionFactory.acquire_channel\<close> yields the channel inside a retry of tenacity: the attempts to open a channel are one
  call here. An \<^verbatim>\<open>Exception\<close> that comes back into it is taken for a failed attempt: another channel is acquired and
  yielded, which \<open>contextlib\<close> answers with a \<^verbatim>\<open>RuntimeError\<close>.
\<close>

definition leave_channel :: "exc \<Rightarrow> pub_world \<Rightarrow> exc option \<times> pub_world" where
  "leave_channel e s =
     (if is_Exception e
      then (case do_call AcquireChannel s of
              (Some x, s1) \<Rightarrow> (Some x, s1)
            | (None, s1) \<Rightarrow> (Some (Exc RuntimeError ''generator did not stop after athrow()''), s1))
      else (Some e, s))"

text \<open>\<open>AIOPikaConnectionFactory.provide_connection\<close> around a body.\<close>

definition provide_connection ::
  "(pub_world \<Rightarrow> exc option \<times> pub_world) \<Rightarrow> pub_world \<Rightarrow> exc option \<times> pub_world" where
  "provide_connection body s =
     (case do_call AcquireChannel s of (Some e, s0) \<Rightarrow> (Some e, s0) | (None, s0) \<Rightarrow>
      case do_call TxSelect s0 of
        (Some e, s1) \<Rightarrow> leave_channel e s1
      | (None, s1) \<Rightarrow>
          (let (r, s2) = body s1;
               (r2, s3) = (case r of None \<Rightarrow> do_call TxCommit s2 | Some e \<Rightarrow> (Some e, s2))
           in case r2 of
                None \<Rightarrow> (None, s3)
              | Some e \<Rightarrow>
                  if is_Exception e
                  then (case do_call TxRollback s3 of
                          (Some e', s4) \<Rightarrow> leave_channel e' s4 | (None, s4) \<Rightarrow> leave_channel e s4)
                  else (Some e, s3)))"

subsection \<open>The interceptor\<close>

record pub_config =
  pc_exchange :: string
  pc_backend :: bool
  pc_open_at_end :: bool
  pc_exchange_found :: "nat \<Rightarrow> bool"
  pc_publish_headers :: "nat \<Rightarrow> headers"

definition new_publisher :: "pub_config \<Rightarrow> publisher" where
  "new_publisher cfg = \<lparr>staged_messages = [], staged_delayed_messages = [], pub_backend = pc_backend cfg\<rparr>"

definition fill_and_flush :: "pub_config \<Rightarrow> rat \<Rightarrow> collector \<Rightarrow> pub_world \<Rightarrow> exc option \<times> pub_world" where
  "fill_and_flush cfg now c s =
     (case fill now c (new_publisher cfg) of
        Inl e \<Rightarrow> (Some e, s)
      | Inr p \<Rightarrow> flush (pc_exchange cfg) (pc_exchange_found cfg) (pc_publish_headers cfg) p s)"

text \<open>
  A handler run: the operations it performed, each with the clock at that time, and how it ended.
  \<open>use_publisher\<close> finds a publisher only where one is provided.
\<close>

definition collect :: "(rat \<times> pub_op) list \<Rightarrow> collector" where
  "collect ops = fold (\<lambda>(now, op). collector_op now op) ops MessagePublisherCollector"

definition provide_message_publisher :: "string \<Rightarrow> 'p \<Rightarrow> (string \<times> 'p) list \<Rightarrow> (string \<times> 'p) list" where
  "provide_message_publisher connection_name p current_map = dict_set connection_name p current_map"

definition use_publisher :: "string \<Rightarrow> (string \<times> 'p) list \<Rightarrow> 'p result" where
  "use_publisher connection_name m =
     (case map_of m connection_name of
        Some p \<Rightarrow> Inr p
      | None \<Rightarrow> Inl (Exc ValueError ''MessagePublisher not found for connection''))"

text \<open>
  \<open>Message.publish\<close>, \<open>delay\<close> and \<open>schedule\<close>: the publisher of the default connection collects the operation.
\<close>

definition message_send :: "rat \<Rightarrow> pub_op \<Rightarrow> (string \<times> collector) list \<Rightarrow> (string \<times> collector) list result" where
  "message_send now op m =
     (case use_publisher ''default'' m of
        Inl e \<Rightarrow> Inl e
      | Inr p \<Rightarrow> Inr (dict_set ''default'' (collector_op now op p) m))"

fun message_sends :: "(rat \<times> pub_op) list \<Rightarrow> (string \<times> collector) list \<Rightarrow> (string \<times> collector) list result" where
  "message_sends [] m = Inr m"
| "message_sends ((now, op) # ops) m =
     (case message_send now op m of Inl e \<Rightarrow> Inl e | Inr m1 \<Rightarrow> message_sends ops m1)"

text \<open>The publishers the handler sees, in each mode of the interceptor.\<close>

definition publishers_in_body :: "pub_config \<Rightarrow> string \<Rightarrow> 'p \<Rightarrow> (string \<times> 'p) list \<Rightarrow> (string \<times> 'p) list" where
  "publishers_in_body cfg connection_name collector outer =
     (if pc_open_at_end cfg then provide_message_publisher connection_name collector outer else outer)"

definition publisher_intercept ::
  "pub_config \<Rightarrow> bool \<Rightarrow> rat \<Rightarrow> (rat \<times> pub_op) list \<Rightarrow> exc option \<Rightarrow> pub_world \<Rightarrow> exc option \<times> pub_world" where
  "publisher_intercept cfg websocket now ops outcome s =
     (if websocket then (outcome, s)
      else if pc_open_at_end cfg
      then (case outcome of
              Some e \<Rightarrow> (Some e, s)
            | None \<Rightarrow>
                let c = collect ops
                in if has_messages c then provide_connection (fill_and_flush cfg now c) s else (None, s))
      else (case outcome of
              Some e \<Rightarrow> (Some e, s)
            | None \<Rightarrow> provide_connection
                (flush (pc_exchange cfg) (pc_exchange_found cfg) (pc_publish_headers cfg) (new_publisher cfg)) s))"

subsection \<open>What the broker sees\<close>

fun published :: "pub_call list \<Rightarrow> (string \<times> string) list" where
  "published [] = []"
| "published (PublishMessage m b # cs) = (out_routing_key m, out_body m) # published cs"
| "published (c # cs) = published cs"

fun enqueued :: "pub_call list \<Rightarrow> (string \<times> string \<times> int \<times> string option) list" where
  "enqueued [] = []"
| "enqueued (EnqueueDelayed d # cs) =
     (message_topic d, payload d, dispatch_time d, idempotency_key d) # enqueued cs"
| "enqueued (c # cs) = enqueued cs"

lemma published_append [simp]: "published (xs @ ys) = published xs @ published ys"
  by (induction xs rule: published.induct) simp_all

lemma enqueued_append [simp]: "enqueued (xs @ ys) = enqueued xs @ enqueued ys"
  by (induction xs rule: enqueued.induct) simp_all

text \<open>What a handler's operations stage.\<close>

fun op_message :: "pub_op \<Rightarrow> (string \<times> string) list" where
  "op_message (OpPublish m) = [(gen_routing_key (bm_topic m), bm_json m)]"
| "op_message _ = []"

fun op_delayed :: "rat \<times> pub_op \<Rightarrow> (string \<times> string \<times> int \<times> string option) list" where
  "op_delayed (now, OpPublish m) = []"
| "op_delayed (now, OpDelay m n k pp tp) = [(bm_topic m, bm_json m, posix_int (now + of_int n), k)]"
| "op_delayed (now, OpSchedule m tm k pp tp) = [(bm_topic m, bm_json m, posix_int tm, k)]"

definition calls_since :: "pub_world \<Rightarrow> pub_world \<Rightarrow> pub_call list" where
  "calls_since s s' = drop (length (calls s)) (calls s')"

text \<open>
  A part of the flush: it only appends to the log, never commits or rolls back, and when it ends well
  it has published \<open>ms\<close> and stored \<open>ds\<close>.
\<close>

definition flushes ::
  "(string \<times> string) list \<Rightarrow> (string \<times> string \<times> int \<times> string option) list \<Rightarrow>
   (pub_world \<Rightarrow> exc option \<times> pub_world) \<Rightarrow> bool" where
  "flushes ms ds f = (\<forall>s. \<exists>new. snd (f s) = s\<lparr>calls := calls s @ new\<rparr>
     \<and> TxCommit \<notin> set new \<and> TxRollback \<notin> set new
     \<and> (fst (f s) = None \<longrightarrow> published new = ms \<and> enqueued new = ds)
     \<and> ((\<forall>i. answers s i = None) \<longrightarrow> fst (f s) = None))"

lemma flushes_seq:
  assumes "flushes ms ds f" "flushes ms' ds' g"
  shows "flushes (ms @ ms') (ds @ ds') (\<lambda>s. case f s of (Some e, s1) \<Rightarrow> (Some e, s1) | (None, s1) \<Rightarrow> g s1)"
  unfolding flushes_def
proof
  fix s
  obtain r s1 where f: "f s = (r, s1)" by fastforce
  obtain new where new: "s1 = s\<lparr>calls := calls s @ new\<rparr>" "TxCommit \<notin> set new" "TxRollback \<notin> set new"
    "r = None \<longrightarrow> published new = ms \<and> enqueued new = ds" "(\<forall>i. answers s i = None) \<longrightarrow> r = None"
    using assms(1) f unfolding flushes_def by (metis fst_conv snd_conv)
  obtain q s2 where g: "g s1 = (q, s2)" by fastforce
  obtain new' where new': "s2 = s1\<lparr>calls := calls s1 @ new'\<rparr>" "TxCommit \<notin> set new'" "TxRollback \<notin> set new'"
    "q = None \<longrightarrow> published new' = ms' \<and> enqueued new' = ds'" "(\<forall>i. answers s1 i = None) \<longrightarrow> q = None"
    using assms(2) g unfolding flushes_def by (metis fst_conv snd_conv)
  show "\<exists>new. snd (case f s of (Some e, s1) \<Rightarrow> (Some e, s1) | (None, s1) \<Rightarrow> g s1) = s\<lparr>calls := calls s @ new\<rparr>
     \<and> TxCommit \<notin> set new \<and> TxRollback \<notin> set new
     \<and> (fst (case f s of (Some e, s1) \<Rightarrow> (Some e, s1) | (None, s1) \<Rightarrow> g s1) = None \<longrightarrow>
          published new = ms @ ms' \<and> enqueued new = ds @ ds')
     \<and> ((\<forall>i. answers s i = None) \<longrightarrow>
          fst (case f s of (Some e, s1) \<Rightarrow> (Some e, s1) | (None, s1) \<Rightarrow> g s1) = None)"
  proof (cases r)
    case None
    with f g new new' show ?thesis by (intro exI [of _ "new @ new'"]) simp
  next
    case (Some e)
    with f new show ?thesis by (intro exI [of _ new]) simp
  qed
qed

lemma flushes_call:
  assumes "\<And>s. c s \<noteq> TxCommit \<and> c s \<noteq> TxRollback \<and> published [c s] = ms \<and> enqueued [c s] = ds"
  shows "flushes ms ds (\<lambda>s. do_call (c s) s)"
  unfolding flushes_def
proof
  fix s :: pub_world
  show "\<exists>new. snd (do_call (c s) s) = s\<lparr>calls := calls s @ new\<rparr> \<and> TxCommit \<notin> set new \<and> TxRollback \<notin> set new
     \<and> (fst (do_call (c s) s) = None \<longrightarrow> published new = ms \<and> enqueued new = ds)
     \<and> ((\<forall>i. answers s i = None) \<longrightarrow> fst (do_call (c s) s) = None)"
    using assms [of s] by (intro exI [of _ "[c s]"]) (auto simp: do_call_def)
qed

lemma flushes_skip: "flushes [] [] (\<lambda>s. (None, s))"
  unfolding flushes_def by (intro allI exI [of _ "[]"]) simp

lemma flushes_messages:
  assumes "\<forall>i. fd i"
  shows "flushes (map (\<lambda>m. (gen_routing_key (bm_topic m), bm_json m)) ms) [] (flush_messages ex fd hs ms)"
proof (induction ms)
  case Nil
  have "flush_messages ex fd hs [] = (\<lambda>s. (None, s))" by (rule ext) simp
  then show ?case using flushes_skip by simp
next
  case (Cons m ms)
  have "flush_messages ex fd hs (m # ms) = (\<lambda>s. case do_call (GetMainExchange ex) s of
      (Some e, s1) \<Rightarrow> (Some e, s1)
    | (None, s1) \<Rightarrow> (\<lambda>s1. case do_call (PublishMessage (publication ex (hs (length (calls s1))) m) (bm_task m)) s1 of
        (Some e, s2) \<Rightarrow> (Some e, s2) | (None, s2) \<Rightarrow> flush_messages ex fd hs ms s2) s1)"
    using assms by (intro ext) (simp split: prod.split option.split)
  moreover have "flushes [] [] (\<lambda>s. do_call (GetMainExchange ex) s)" by (rule flushes_call) simp
  moreover have "flushes [(gen_routing_key (bm_topic m), bm_json m)] []
      (\<lambda>s. do_call (PublishMessage (publication ex (hs (length (calls s))) m) (bm_task m)) s)"
    by (rule flushes_call) (simp add: publication_def)
  ultimately show ?case
    using flushes_seq [OF _ flushes_seq [OF _ Cons.IH]] by fastforce
qed

lemma flushes_delayed:
  "flushes [] (map (\<lambda>d. (message_topic d, payload d, dispatch_time d, idempotency_key d)) ds) (flush_delayed hs ds)"
proof (induction ds)
  case Nil
  have "flush_delayed hs [] = (\<lambda>s. (None, s))" by (rule ext) simp
  then show ?case using flushes_skip by simp
next
  case (Cons d ds)
  have "flush_delayed hs (d # ds) = (\<lambda>s. case do_call (EnqueueDelayed (with_headers (hs (length (calls s))) d)) s of
      (Some e, s1) \<Rightarrow> (Some e, s1) | (None, s1) \<Rightarrow> flush_delayed hs ds s1)"
    by (rule ext) simp
  moreover have "flushes [] [(message_topic d, payload d, dispatch_time d, idempotency_key d)]
      (\<lambda>s. do_call (EnqueueDelayed (with_headers (hs (length (calls s))) d)) s)"
    by (rule flushes_call) (simp add: with_headers_def)
  ultimately show ?case using flushes_seq [OF _ Cons.IH] by fastforce
qed

lemma flushes_flush:
  assumes "pub_backend p \<or> staged_delayed_messages p = []" "\<forall>i. fd i"
  shows "flushes (map (\<lambda>m. (gen_routing_key (bm_topic m), bm_json m)) (staged_messages p))
    (map (\<lambda>d. (message_topic d, payload d, dispatch_time d, idempotency_key d)) (staged_delayed_messages p))
    (flush ex fd hs p)"
proof -
  let ?rest = "if staged_delayed_messages p = [] then (\<lambda>s. (None, s))
    else flush_delayed hs (staged_delayed_messages p)"
  have "flush ex fd hs p = (\<lambda>s. case flush_messages ex fd hs (staged_messages p) s of
      (Some e, s1) \<Rightarrow> (Some e, s1) | (None, s1) \<Rightarrow> ?rest s1)"
    using assms by (auto simp: flush_def fun_eq_iff split: option.split prod.split)
  moreover have "flushes [] (map (\<lambda>d. (message_topic d, payload d, dispatch_time d, idempotency_key d))
      (staged_delayed_messages p)) ?rest"
    using flushes_delayed flushes_skip by auto
  ultimately show ?thesis using flushes_seq [OF flushes_messages [OF assms(2)]] by fastforce
qed

subsection \<open>From operations to staged messages\<close>

definition scheduled_of :: "collected \<Rightarrow> delayed" where
  "scheduled_of d = staged_delayed (cd_message d) (cd_when d) (cd_idempotency_key d) (cd_payload_policy d)
     (cd_time_policy d)"

lemma publisher_ops_append:
  "publisher_ops now (xs @ ys) p =
     (case publisher_ops now xs p of Inl e \<Rightarrow> Inl e | Inr q \<Rightarrow> publisher_ops now ys q)"
  by (induction xs arbitrary: p) (simp_all split: sum.split)

lemma publisher_ops_publish:
  "publisher_ops now (map OpPublish ms) p = Inr (p\<lparr>staged_messages := staged_messages p @ ms\<rparr>)"
  by (induction ms arbitrary: p) simp_all

lemma publisher_ops_schedule:
  "pub_backend p \<Longrightarrow>
   publisher_ops now (map (\<lambda>d. OpSchedule (cd_message d) (cd_when d) (cd_idempotency_key d)
     (cd_payload_policy d) (cd_time_policy d)) ds) p =
   Inr (p\<lparr>staged_delayed_messages := staged_delayed_messages p @ map scheduled_of ds\<rparr>)"
  by (induction ds arbitrary: p) (simp_all add: scheduled_of_def)

lemma fill_new:
  "pc_backend cfg \<Longrightarrow> fill now c (new_publisher cfg) =
     Inr \<lparr>staged_messages = col_messages c, staged_delayed_messages = map scheduled_of (col_delayed c),
          pub_backend = True\<rparr>"
  by (simp add: fill_def publisher_ops_append publisher_ops_publish publisher_ops_schedule new_publisher_def)

lemma collect_ops:
  "map (\<lambda>m. (gen_routing_key (bm_topic m), bm_json m)) (col_messages (fold (\<lambda>(now, op). collector_op now op) ops c)) =
     map (\<lambda>m. (gen_routing_key (bm_topic m), bm_json m)) (col_messages c) @ concat (map (op_message \<circ> snd) ops)
   \<and> map (\<lambda>d. (message_topic d, payload d, dispatch_time d, idempotency_key d))
       (map scheduled_of (col_delayed (fold (\<lambda>(now, op). collector_op now op) ops c))) =
     map (\<lambda>d. (message_topic d, payload d, dispatch_time d, idempotency_key d)) (map scheduled_of (col_delayed c))
       @ concat (map op_delayed ops)"
proof (induction ops arbitrary: c)
  case (Cons x ops)
  obtain now op where x: "x = (now, op)" by fastforce
  then show ?case using Cons [of "collector_op now op c"]
    by (cases op) (simp_all add: scheduled_of_def staged_delayed_def)
qed simp

lemma flushes_collected:
  assumes "pc_backend cfg" "\<forall>i. pc_exchange_found cfg i"
  shows "flushes (concat (map (op_message \<circ> snd) ops)) (concat (map op_delayed ops))
    (fill_and_flush cfg now (collect ops))"
proof -
  let ?p = "\<lparr>staged_messages = col_messages (collect ops),
    staged_delayed_messages = map scheduled_of (col_delayed (collect ops)), pub_backend = True\<rparr>"
  have "fill_and_flush cfg now (collect ops) = flush (pc_exchange cfg) (pc_exchange_found cfg) (pc_publish_headers cfg) ?p"
    by (simp add: fill_and_flush_def fun_eq_iff fill_new [OF assms(1)])
  then show ?thesis
    using assms(2) flushes_flush [of ?p "pc_exchange_found cfg" "pc_exchange cfg" "pc_publish_headers cfg"]
      collect_ops [of ops MessagePublisherCollector]
    by (simp add: collect_def MessagePublisherCollector_def)
qed

text \<open>What a handler sends under the collecting interceptor is what that interceptor finds collected.\<close>

lemma message_sends_fold:
  "map_of m ''default'' = Some c \<Longrightarrow>
   \<exists>m'. message_sends ops m = Inr m' \<and> map_of m' ''default'' = Some (fold (\<lambda>(now, op). collector_op now op) ops c)"
proof (induction ops arbitrary: m c)
  case (Cons x ops)
  obtain now op where x: "x = (now, op)" by fastforce
  have "message_send now op m = Inr (dict_set ''default'' (collector_op now op c) m)"
    using Cons.prems by (simp add: message_send_def use_publisher_def)
  moreover have "map_of (dict_set ''default'' (collector_op now op c) m) ''default'' = Some (collector_op now op c)"
    by simp
  ultimately show ?case using Cons.IH x by force
qed simp

lemma message_sends_collect:
  assumes "pc_open_at_end cfg"
  shows "\<exists>m. message_sends ops (publishers_in_body cfg ''default'' MessagePublisherCollector outer) = Inr m
    \<and> use_publisher ''default'' m = Inr (collect ops)"
proof -
  have "map_of (publishers_in_body cfg ''default'' MessagePublisherCollector outer) ''default'' =
      Some MessagePublisherCollector"
    using assms by (simp add: publishers_in_body_def provide_message_publisher_def)
  from message_sends_fold [OF this, of ops] show ?thesis
    by (auto simp: use_publisher_def collect_def)
qed

lemma has_messages_collect:
  "has_messages (fold (\<lambda>(now, op). collector_op now op) ops c) = (ops \<noteq> [] \<or> has_messages c)"
proof (induction ops arbitrary: c)
  case (Cons x ops)
  obtain now op where x: "x = (now, op)" by fastforce
  show ?case unfolding x by (cases op) (simp_all add: Cons, simp_all add: has_messages_def)
qed simp

text \<open>The transaction around a flush; the calls made after an error.\<close>

definition leave_calls :: "exc \<Rightarrow> pub_call list" where
  "leave_calls e = (if is_Exception e then [AcquireChannel] else [])"

definition after_rollback :: "exc \<Rightarrow> exc option \<Rightarrow> pub_call list" where
  "after_rollback e answer =
     (if is_Exception e then TxRollback # leave_calls (case answer of Some e' \<Rightarrow> e' | None \<Rightarrow> e) else [])"

lemma provide_connection_flushes:
  assumes "flushes ms ds f"
  shows "\<exists>new. snd (provide_connection f s) = s\<lparr>calls := calls s @ new\<rparr> \<and> new \<noteq> []
    \<and> (TxCommit \<in> set new \<longrightarrow> published new = ms \<and> enqueued new = ds)
    \<and> (fst (provide_connection f s) = None \<longrightarrow> last new = TxCommit)
    \<and> (\<forall>e. fst (provide_connection f s) = Some e \<and> is_Exception e \<longrightarrow>
          last new = AcquireChannel \<and> (TxCommit \<in> set new \<longrightarrow> TxRollback \<in> set new))
    \<and> ((\<forall>i. answers s i = None) \<longrightarrow> fst (provide_connection f s) = None)"
proof -
  define s0 where "s0 = s\<lparr>calls := calls s @ [AcquireChannel]\<rparr>"
  define s1 where "s1 = s0\<lparr>calls := calls s0 @ [TxSelect]\<rparr>"
  obtain r s2 where f: "f s1 = (r, s2)" by fastforce
  obtain new where new: "s2 = s1\<lparr>calls := calls s1 @ new\<rparr>" "TxCommit \<notin> set new" "TxRollback \<notin> set new"
    "r = None \<longrightarrow> published new = ms \<and> enqueued new = ds" "(\<forall>i. answers s1 i = None) \<longrightarrow> r = None"
    using assms f unfolding flushes_def by (metis fst_conv snd_conv)
  consider (acquire) e where "answers s (length (calls s)) = Some e"
    | (select) e where "answers s (length (calls s)) = None" "answers s (Suc (length (calls s))) = Some e"
    | (body) e where "answers s (length (calls s)) = None" "answers s (Suc (length (calls s))) = None" "r = Some e"
    | (commit) "answers s (length (calls s)) = None" "answers s (Suc (length (calls s))) = None" "r = None"
    by (metis option.exhaust)
  then show ?thesis
  proof cases
    case acquire
    then have "\<not> (\<forall>i. answers s i = None)" by (metis option.distinct(1))
    with acquire show ?thesis
      by (intro exI [of _ "[AcquireChannel]"]) (auto simp: provide_connection_def do_call_def)
  next
    case select
    then have "\<not> (\<forall>i. answers s i = None)" by (metis option.distinct(1))
    with select show ?thesis
      by (intro exI [of _ "[AcquireChannel, TxSelect] @ leave_calls e"])
         (auto simp: provide_connection_def do_call_def leave_channel_def leave_calls_def split: option.split)
  next
    case body
    then show ?thesis using f new
      by (intro exI [of _ "AcquireChannel # TxSelect # new @ after_rollback e (answers s (length (calls s2)))"])
         (auto simp: provide_connection_def do_call_def s0_def s1_def Let_def leave_channel_def leave_calls_def after_rollback_def
           split: option.split)
  next
    case commit
    define c where "c = answers s (length (calls s2))"
    show ?thesis using commit f new c_def
      by (intro exI [of _ "AcquireChannel # TxSelect # new @ TxCommit #
            (case c of Some e \<Rightarrow> after_rollback e (answers s (Suc (length (calls s2)))) | None \<Rightarrow> [])"])
         (auto simp: provide_connection_def do_call_def s0_def s1_def Let_def leave_channel_def leave_calls_def after_rollback_def
           split: option.split)
  qed
qed

lemma silent_calls:
  "set new \<subseteq> {AcquireChannel, TxSelect, TxCommit, TxRollback} \<Longrightarrow> published new = [] \<and> enqueued new = []"
  by (induction new) auto

lemma leave_channel_calls:
  "snd (leave_channel e s) = s\<lparr>calls := calls s @ leave_calls e\<rparr>"
  by (simp add: leave_channel_def leave_calls_def do_call_def split: option.split)

lemma provide_connection_silent:
  "\<exists>new. snd (provide_connection (\<lambda>s. (None, s)) s) = s\<lparr>calls := calls s @ new\<rparr>
     \<and> published new = [] \<and> enqueued new = []"
proof -
  have "\<exists>new. snd (provide_connection (\<lambda>s. (None, s)) s) = s\<lparr>calls := calls s @ new\<rparr>
     \<and> set new \<subseteq> {AcquireChannel, TxSelect, TxCommit, TxRollback}"
    by (auto simp: provide_connection_def do_call_def Let_def leave_channel_calls leave_calls_def
        split: option.split)
  then show ?thesis using silent_calls by blast
qed

subsection \<open>Properties\<close>


definition demo_message :: bus_message where
  "demo_message = \<lparr>bm_topic = ''order.created'', bm_json = ''{}'', bm_task = True\<rparr>"

definition demo_pub_config :: pub_config where
  "demo_pub_config = \<lparr>pc_exchange = ''app'', pc_backend = True, pc_open_at_end = True,
     pc_exchange_found = (\<lambda>_. True), pc_publish_headers = (\<lambda>_. [])\<rparr>"

definition demo_ops :: "(rat \<times> pub_op) list" where
  "demo_ops = [(10, OpPublish demo_message), (11, OpDelay demo_message 5 None PIgnore TReplace)]"


text \<open>
  Delayed messages are stored while the transaction is open and outside of it: when one of them cannot be stored the
  transaction is rolled back, and the delayed messages before it stay stored although the handler's
  work fails. What the handler's caller sees is not the error of the store but the \<^verbatim>\<open>RuntimeError\<close> of
  \<open>leave_channel\<close>.
\<close>

theorem delayed_messages_survive_rollback:
  assumes "pc_open_at_end cfg" "pc_backend cfg"
    and "is_Exception e" "answers s = (\<lambda>i. if i = length (calls s) + 3 then Some e else None)"
  shows "fst (publisher_intercept cfg False now
            [(t1, OpSchedule m1 w1 k1 pp1 tp1), (t2, OpSchedule m2 w2 k2 pp2 tp2)] None s)
          = Some (Exc RuntimeError ''generator did not stop after athrow()'')
    \<and> enqueued (take 1 (drop 2 (calls_since s (snd (publisher_intercept cfg False now
            [(t1, OpSchedule m1 w1 k1 pp1 tp1), (t2, OpSchedule m2 w2 k2 pp2 tp2)] None s)))))
        = [(bm_topic m1, bm_json m1, posix_int w1, k1)]
    \<and> last (butlast (calls (snd (publisher_intercept cfg False now
            [(t1, OpSchedule m1 w1 k1 pp1 tp1), (t2, OpSchedule m2 w2 k2 pp2 tp2)] None s)))) = TxRollback"
  using assms
  by (simp add: publisher_intercept_def collect_def MessagePublisherCollector_def has_messages_def
      provide_connection_def do_call_def fill_and_flush_def fill_new flush_def Let_def scheduled_of_def
      with_headers_def staged_delayed_def calls_since_def leave_channel_def butlast_append)

theorem delayed_messages_survive_rollback_witness:
  "last (butlast (calls (snd (publisher_intercept demo_pub_config False 0
     [(0, OpSchedule demo_message 5 None PIgnore TReplace),
      (0, OpSchedule demo_message 6 None PIgnore TReplace)] None
     \<lparr>calls = [], answers = (\<lambda>i. if i = 3 then Some (Exc ValueError ''store'') else None)\<rparr>)))) = TxRollback"
  using delayed_messages_survive_rollback [of demo_pub_config "Exc ValueError ''store''"
      "\<lparr>calls = [], answers = (\<lambda>i. if i = 3 then Some (Exc ValueError ''store'') else None)\<rparr>"
      0 0 demo_message 5 None PIgnore TReplace 0 demo_message 6 None PIgnore TReplace]
  by (simp add: demo_pub_config_def)

text \<open>
  In the default mode of the interceptor the publisher is provided after the handler has returned: unless
  something else provides one, every publication of the handler raises, and what is flushed afterwards
  is empty.
\<close>

theorem default_mode_has_no_publisher:
  assumes "\<not> pc_open_at_end cfg" "map_of outer connection_name = None"
  shows "use_publisher connection_name (publishers_in_body cfg connection_name p outer)
      = Inl (Exc ValueError ''MessagePublisher not found for connection'')
    \<and> (publisher_intercept cfg False now ops None s = (r, s') \<longrightarrow>
        published (calls_since s s') = [] \<and> enqueued (calls_since s s') = [])"
proof -
  have "flush (pc_exchange cfg) (pc_exchange_found cfg) (pc_publish_headers cfg) (new_publisher cfg) = (\<lambda>s. (None, s))"
    by (rule ext) (simp add: flush_def new_publisher_def)
  then show ?thesis using assms provide_connection_silent [of s]
    by (auto simp: use_publisher_def publishers_in_body_def publisher_intercept_def calls_since_def)
qed

theorem default_mode_has_no_publisher_witness:
  "use_publisher ''default'' (publishers_in_body (demo_pub_config\<lparr>pc_open_at_end := False\<rparr>) ''default'' () [])
     = Inl (Exc ValueError ''MessagePublisher not found for connection'')"
  using default_mode_has_no_publisher [of "demo_pub_config\<lparr>pc_open_at_end := False\<rparr>" "[]" "''default''" "()"]
  by simp

end
