(* ===== verification/Unit_Of_Work.thy ===== *)
theory Unit_Of_Work
  imports Prelude
begin

section \<open>Unit of work, lifecycle and metadata\<close>

text \<open>
  \<^verbatim>\<open>core/uow.py\<close>, \<^verbatim>\<open>lifecycle.py\<close>, \<^verbatim>\<open>reflect/metadata.py\<close> and \<^verbatim>\<open>reflect/controller_inspect.py\<close>: the
  interceptors around every request, message and scheduled action, the interceptors' lifecycles around the
  whole process, and the metadata a controller member carries into its transaction.

  An asynchronous context manager is a pair of functions on the state of the application. What
  \<open>__aexit__\<close> returns is a boolean, true when it suppresses the exception; raising is \<open>Inl\<close>.
\<close>

subsection \<open>Python values\<close>

datatype pyval = VNone | VBool bool | VInt int | VStr string | VObject nat

fun py_truth :: "pyval \<Rightarrow> bool" where
  "py_truth VNone = False"
| "py_truth (VBool b) = b"
| "py_truth (VInt i) = (i \<noteq> 0)"
| "py_truth (VStr s) = (s \<noteq> [])"
| "py_truth (VObject n) = True"

subsection \<open>Metadata\<close>

record tx_meta =
  tm_value :: pyval
  tm_inherited :: bool

type_synonym metadata = "(string \<times> tx_meta) list"

definition get_metadata_value :: "string \<Rightarrow> pyval \<Rightarrow> metadata \<Rightarrow> pyval" where
  "get_metadata_value key dflt ctx =
     (case map_of ctx key of None \<Rightarrow> dflt | Some m \<Rightarrow> tm_value m)"

definition plain_metadata :: "bool \<Rightarrow> (string \<times> pyval) list \<Rightarrow> metadata" where
  "plain_metadata inherited ds =
     dict_update [] (map (\<lambda>(k, v). (k, \<lparr>tm_value = v, tm_inherited = inherited\<rparr>)) ds)"

text \<open>
  \<open>inspect_controller\<close>: the metadata of the controller, and of each member, given the \<open>SetMetadata\<close>
  decorators of the class and of its functions.
\<close>

definition member_metadata :: "(string \<times> pyval) list \<Rightarrow> (string \<times> pyval) list \<Rightarrow> metadata" where
  "member_metadata controller_md member_md =
     dict_update
       (dict_update [] (map (\<lambda>(k, m). (k, \<lparr>tm_value = tm_value m, tm_inherited = True\<rparr>))
          (plain_metadata False controller_md)))
       (map (\<lambda>(k, v). (k, \<lparr>tm_value = v, tm_inherited = False\<rparr>)) member_md)"

definition inspect_controller ::
  "(string \<times> pyval) list \<Rightarrow> (string \<times> (string \<times> pyval) list) list \<Rightarrow> metadata \<times> (string \<times> metadata) list" where
  "inspect_controller controller_md members =
     (plain_metadata False controller_md,
      map (\<lambda>(name, md). (name, member_metadata controller_md md)) members)"

subsection \<open>Interceptors\<close>

record 's interceptor =
  aenter :: "'s \<Rightarrow> exc option \<times> 's"
  aexit :: "exc option \<Rightarrow> 's \<Rightarrow> bool result \<times> 's"

fun enter_all :: "'s interceptor list \<Rightarrow> 's \<Rightarrow> exc option \<times> 's" where
  "enter_all [] s = (None, s)"
| "enter_all (c # cs) s =
     (case aenter c s of (Some e, s1) \<Rightarrow> (Some e, s1) | (None, s1) \<Rightarrow> enter_all cs s1)"

text \<open>The exception the next interceptor is left with.\<close>

fun after_exit :: "exc option \<Rightarrow> bool result \<Rightarrow> exc option" where
  "after_exit exc (Inl e) = Some e"
| "after_exit exc (Inr suppressed) = (if suppressed then None else exc)"

text \<open>The loop of the \<open>finally\<close> block, over the interceptors already reversed.\<close>

fun exit_all :: "'s interceptor list \<Rightarrow> exc option \<Rightarrow> 's \<Rightarrow> exc option \<times> 's" where
  "exit_all [] exc s = (exc, s)"
| "exit_all (c # cs) exc s =
     (case aexit c exc s of (r, s1) \<Rightarrow> exit_all cs (after_exit exc r) s1)"

definition run_contexts ::
  "'s interceptor list \<Rightarrow> ('s \<Rightarrow> exc option \<times> 's) \<Rightarrow> 's \<Rightarrow> exc option \<times> 's" where
  "run_contexts ctxs body s =
     (case enter_all ctxs s of
        (Some e, s1) \<Rightarrow> (Some e, s1)
      | (None, s1) \<Rightarrow>
          (let (r, s2) = body s1; (final, s3) = exit_all (rev ctxs) r s2
           in (case final of Some e \<Rightarrow> Some e | None \<Rightarrow> r, s3)))"

text \<open>The context variables the unit of work itself sets.\<close>

record app_vars =
  v_metadata :: metadata
  v_app_context :: "string option"
  v_container :: bool
  v_saved :: "(string option \<times> bool) list"    \<comment> \<open>the tokens held by suspended container interceptors\<close>

definition container_interceptor :: "string \<Rightarrow> 'z app_vars_scheme interceptor" where
  "container_interceptor app_context =
     \<lparr>aenter = (\<lambda>s. (None, s\<lparr>v_saved := (v_app_context s, v_container s) # v_saved s,
                            v_app_context := Some app_context, v_container := True\<rparr>)),
      aexit = (\<lambda>exc s. (Inr False,
        case v_saved s of
          [] \<Rightarrow> s
        | (a, b) # rest \<Rightarrow> s\<lparr>v_app_context := a, v_container := b, v_saved := rest\<rparr>))\<rparr>"

definition unit_of_work ::
  "'z app_vars_scheme interceptor list \<Rightarrow> string \<Rightarrow> metadata \<Rightarrow>
   ('z app_vars_scheme \<Rightarrow> exc option \<times> 'z app_vars_scheme) \<Rightarrow> 'z app_vars_scheme \<Rightarrow> exc option \<times> 'z app_vars_scheme" where
  "unit_of_work app_interceptors app_context md body s =
     (let current = v_metadata s;
          (r, s1) = run_contexts (container_interceptor app_context # app_interceptors) body
                      (s\<lparr>v_metadata := dict_update current md\<rparr>)
      in (r, s1\<lparr>v_metadata := current\<rparr>))"

subsection \<open>Lifecycles\<close>

text \<open>
  \<open>AppLifecycle.__call__\<close> around the process: \<open>fill\<close> is \<open>Container.fill_providers\<close>, an interceptor without a
  lifecycle is \<open>None\<close>, and \<open>exit(0)\<close> raises \<open>SystemExit\<close>.
\<close>

fun start_lifecycles :: "'s interceptor option list \<Rightarrow> 's \<Rightarrow> exc option \<times> 's" where
  "start_lifecycles [] s = (None, s)"
| "start_lifecycles (None # cs) s = start_lifecycles cs s"
| "start_lifecycles (Some c # cs) s =
     (case aenter c s of (Some e, s1) \<Rightarrow> (Some e, s1) | (None, s1) \<Rightarrow> start_lifecycles cs s1)"

fun finish_lifecycles :: "'s interceptor option list \<Rightarrow> 's \<Rightarrow> exc option \<times> 's" where
  "finish_lifecycles [] s = (None, s)"
| "finish_lifecycles (None # cs) s = finish_lifecycles cs s"
| "finish_lifecycles (Some c # cs) s =
     (case aexit c None s of (Inl e, s1) \<Rightarrow> (Some e, s1) | (Inr b, s1) \<Rightarrow> finish_lifecycles cs s1)"

definition app_lifecycle ::
  "bool \<Rightarrow> (bool \<Rightarrow> 's \<Rightarrow> exc option \<times> 's) \<Rightarrow> 's interceptor option list \<Rightarrow>
   ('s \<Rightarrow> exc option \<times> 's) \<Rightarrow> 's \<Rightarrow> exc option \<times> 's" where
  "app_lifecycle shutdown_requested fill interceptors body s =
     (if shutdown_requested then (Some (Exc OtherBaseException ''SystemExit: 0''), s)
      else case fill False s of (Some e, s1) \<Rightarrow> (Some e, s1) | (None, s1) \<Rightarrow>
      (case start_lifecycles interceptors s1 of (Some e, s2) \<Rightarrow> (Some e, s2) | (None, s2) \<Rightarrow>
      (case fill True s2 of (Some e, s3) \<Rightarrow> (Some e, s3) | (None, s3) \<Rightarrow>
      (case body s3 of (Some e, s4) \<Rightarrow> (Some e, s4) | (None, s4) \<Rightarrow> finish_lifecycles interceptors s4))))"

subsection \<open>The interceptor contract\<close>

text \<open>
  What the interceptors of the framework promise: an exception is passed on, possibly replaced by another
  one, and never suppressed.
\<close>

locale app_interceptor =
  fixes I :: "'s interceptor"
  assumes never_suppresses: "fst (aexit I (Some e) s) \<noteq> Inr True"

context app_interceptor
begin

lemma failure_stays: "\<exists>e'. after_exit (Some e) (fst (aexit I (Some e) s)) = Some e'"
proof (cases "fst (aexit I (Some e) s)")
  case (Inr b)
  then show ?thesis using never_suppresses [of e s] by (cases b) simp_all
qed simp

end

interpretation container: app_interceptor "container_interceptor app_context"
  by unfold_locales (simp add: container_interceptor_def)

lemma exit_all_append:
  "exit_all (xs @ ys) exc s = (case exit_all xs exc s of (exc1, s1) \<Rightarrow> exit_all ys exc1 s1)"
  by (induction xs arbitrary: exc s) (simp_all split: prod.split)

lemma exit_all_failure_stays:
  "\<forall>c \<in> set cs. app_interceptor c \<Longrightarrow> \<exists>e'. fst (exit_all cs (Some e) s) = Some e'"
proof (induction cs arbitrary: e s)
  case (Cons c cs)
  obtain r s1 where x: "aexit c (Some e) s = (r, s1)" by fastforce
  obtain e' where "after_exit (Some e) r = Some e'"
    using app_interceptor.failure_stays [of c e s] Cons.prems x by auto
  then show ?case using Cons x by simp
qed simp

text \<open>
  A reference: nested \<open>async with\<close> statements, one for each context manager.
\<close>

definition async_with :: "'s interceptor \<Rightarrow> ('s \<Rightarrow> exc option \<times> 's) \<Rightarrow> 's \<Rightarrow> exc option \<times> 's" where
  "async_with c body s =
     (case aenter c s of
        (Some e, s1) \<Rightarrow> (Some e, s1)
      | (None, s1) \<Rightarrow>
          (let (r, s2) = body s1; (q, s3) = aexit c r s2 in (after_exit r q, s3)))"

fun nested_with :: "'s interceptor list \<Rightarrow> ('s \<Rightarrow> exc option \<times> 's) \<Rightarrow> 's \<Rightarrow> exc option \<times> 's" where
  "nested_with [] body s = body s"
| "nested_with (c # cs) body s = async_with c (nested_with cs body) s"

lemma nested_with_exit_all:
  "enter_all ctxs s = (None, s1) \<Longrightarrow>
   nested_with ctxs body s = (case body s1 of (r, s2) \<Rightarrow> exit_all (rev ctxs) r s2)"
proof (induction ctxs arbitrary: s)
  case (Cons c cs)
  obtain s0 where c: "aenter c s = (None, s0)" "enter_all cs s0 = (None, s1)"
    using Cons.prems by (auto split: prod.splits option.splits)
  show ?case
    by (simp add: async_with_def c(1) Cons.IH [OF c(2)] exit_all_append Let_def split: prod.split)
qed (simp split: prod.split)

lemma run_contexts_entered:
  assumes "enter_all ctxs s = (None, s1)" "body s1 = (r, s2)" "exit_all (rev ctxs) r s2 = (final, s3)"
  shows "run_contexts ctxs body s = (case final of Some e \<Rightarrow> Some e | None \<Rightarrow> r, s3)"
  using assms by (simp add: run_contexts_def)

lemma map_of_dict_update_rev: "map_of (dict_update d e) k = (case map_of (rev e) k of Some v \<Rightarrow> Some v | None \<Rightarrow> map_of d k)"
  by (induction e arbitrary: d) (auto simp: dict_update_def map_add_def split: option.split)

lemma distinct_member_metadata: "distinct (map fst (member_metadata cs ms))"
  by (simp add: member_metadata_def distinct_dict_update)

lemma map_of_map_values: "map_of (map (\<lambda>(k, v). (k, f v)) xs) k = map_option f (map_of xs k)"
  by (induction xs) auto

lemma map_of_rev_map_values: "map_of (rev (map (\<lambda>(k, v). (k, f v)) xs)) k = map_option f (map_of (rev xs) k)"
  by (simp add: rev_map map_of_map_values)

lemma map_of_rev_distinct: "distinct (map fst xs) \<Longrightarrow> map_of (rev xs) = map_of xs"
  by (metis distinct_rev map_of_eqI rev_map set_rev map_of_inject_set set_map)

lemma map_of_member_metadata:
  "map_of (member_metadata cs ms) k =
     (case map_of (rev ms) k of
        Some v \<Rightarrow> Some \<lparr>tm_value = v, tm_inherited = False\<rparr>
      | None \<Rightarrow> map_option (\<lambda>v. \<lparr>tm_value = v, tm_inherited = True\<rparr>) (map_of (rev cs) k))"
proof -
  have "map_of (rev (plain_metadata False cs)) k =
      map_option (\<lambda>v. \<lparr>tm_value = v, tm_inherited = False\<rparr>) (map_of (rev cs) k)"
    by (simp add: plain_metadata_def map_of_rev_distinct distinct_dict_update map_of_dict_update_rev
        map_of_rev_map_values split: option.split)
  then show ?thesis
    by (simp add: member_metadata_def map_of_dict_update_rev map_of_rev_map_values option.map_comp comp_def
        split: option.split)
qed

subsection \<open>Properties\<close>


text \<open>An interceptor that records its calls, for the examples.\<close>

record probe_vars = app_vars +
  probe_log :: "(bool \<times> nat \<times> exc option) list"

definition probe :: "nat \<Rightarrow> exc option \<Rightarrow> bool result \<Rightarrow> probe_vars interceptor" where
  "probe n on_enter on_exit =
     \<lparr>aenter = (\<lambda>s. (on_enter, s\<lparr>probe_log := probe_log s @ [(True, n, None)]\<rparr>)),
      aexit = (\<lambda>exc s. (on_exit, s\<lparr>probe_log := probe_log s @ [(False, n, exc)]\<rparr>))\<rparr>"

definition probe_start :: probe_vars where
  "probe_start = \<lparr>v_metadata = [], v_app_context = None, v_container = False, v_saved = [], probe_log = []\<rparr>"

lemma probe_keeps_contract: "on_exit \<noteq> Inr True \<Longrightarrow> app_interceptor (probe n on_enter on_exit)"
  by unfold_locales (simp add: probe_def)


text \<open>
  An interceptor that returns true from its exit does not suppress the exception: unless a later
  exit raises another one, the exception of the body leaves the unit of work.
\<close>

theorem suppression_has_no_effect:
  assumes "enter_all (container_interceptor app_context # app_interceptors)
           (s\<lparr>v_metadata := dict_update (v_metadata s) md\<rparr>) = (None, s1)"
    and "body s1 = (Some e, s2)"
    and "\<forall>c \<in> set app_interceptors. \<forall>exc t. \<exists>b. fst (aexit c exc t) = Inr b"
  shows "fst (unit_of_work app_interceptors app_context md body s) = Some e"
proof -
  let ?ctxs = "container_interceptor app_context # app_interceptors"
  have "fst (exit_all cs exc t) \<in> {None, exc}"
    if "\<forall>c \<in> set cs. \<forall>exc t. \<exists>b. fst (aexit c exc t) = Inr b" for cs :: "'a app_vars_scheme interceptor list" and exc t
    using that
  proof (induction cs arbitrary: exc t)
    case (Cons c cs)
    obtain b t1 where "aexit c exc t = (Inr b, t1)" using Cons.prems
      by (metis list.set_intros(1) prod.collapse)
    then show ?case using Cons.IH [of "None" t1] Cons.IH [of exc t1] Cons.prems by auto
  qed simp
  moreover have "\<forall>c \<in> set (rev ?ctxs). \<forall>exc t. \<exists>b. fst (aexit c exc t) = Inr b"
    using assms(3) by (auto simp: container_interceptor_def)
  ultimately have "fst (exit_all (rev ?ctxs) (Some e) s2) \<in> {None, Some e}" by blast
  then show ?thesis
    using run_contexts_entered [of ?ctxs "s\<lparr>v_metadata := dict_update (v_metadata s) md\<rparr>" s1 body "Some e" s2]
      assms(1,2)
    by (cases "exit_all (rev ?ctxs) (Some e) s2") (auto simp: unit_of_work_def Let_def simp del: rev.simps)
qed

theorem suppression_has_no_effect_witness:
  "fst (unit_of_work [probe 1 None (Inr True)] ''ctx'' [] (\<lambda>s. (Some (Exc ValueError ''x''), s)) probe_start) =
   Some (Exc ValueError ''x'')"
  by (rule suppression_has_no_effect [where ?s1.0 = "probe_start\<lparr>v_app_context := Some ''ctx'', v_container := True,
        v_saved := [(None, False)], probe_log := [(True, 1, None)]\<rparr>" and
        ?s2.0 = "probe_start\<lparr>v_app_context := Some ''ctx'', v_container := True,
        v_saved := [(None, False)], probe_log := [(True, 1, None)]\<rparr>"])
     (auto simp: probe_def probe_start_def container_interceptor_def dict_update_def)

text \<open>
  The metadata a member runs with: inside the unit of work a key has the value the member's last decorator
  for it gives, else the controller's, else the one of the enclosing context, else the default; and
  the context is as before afterwards.
\<close>

theorem metadata_resolution:
  assumes "map_of (snd (inspect_controller controller_md members)) name = Some md"
    and "map_of members name = Some member_md"
  shows "get_metadata_value key dflt (dict_update outer md) =
      (case map_of (rev member_md) key of
         Some v \<Rightarrow> v
       | None \<Rightarrow> (case map_of (rev controller_md) key of
                    Some v \<Rightarrow> v
                  | None \<Rightarrow> get_metadata_value key dflt outer))
    \<and> v_metadata (snd (unit_of_work app_interceptors app_context md body s)) = v_metadata s"
proof -
  have "md = member_metadata controller_md member_md"
    using assms by (simp add: inspect_controller_def map_of_map)
  moreover have "v_metadata (snd (unit_of_work app_interceptors app_context md body s)) = v_metadata s"
    by (simp add: unit_of_work_def Let_def split: prod.split)
  ultimately show ?thesis
    by (simp add: get_metadata_value_def map_of_member_metadata map_of_dict_update_rev
        map_of_rev_distinct [OF distinct_member_metadata] split: option.split)
qed

theorem metadata_resolution_witness:
  "get_metadata_value ''role'' VNone (dict_update []
     (member_metadata [(''role'', VStr ''user'')] [(''role'', VStr ''admin'')])) = VStr ''admin''"
  using metadata_resolution [of "[(''role'', VStr ''user'')]" "[(''get'', [(''role'', VStr ''admin'')])]" "''get''"
      "member_metadata [(''role'', VStr ''user'')] [(''role'', VStr ''admin'')]" "[(''role'', VStr ''admin'')]"
      "''role''" VNone "[]" "[]" "''ctx''" "\<lambda>s. (None, s)" probe_start]
  by (simp add: inspect_controller_def)

text \<open>
  An interceptor that cannot be entered: the unit of work raises, and none of the interceptors entered
  before it is left, so the context of the container interceptor stays set.
\<close>

theorem failed_enter_leaves_interceptors_open:
  assumes "enter_all app_interceptors (snd (aenter (container_interceptor app_context)
      (s\<lparr>v_metadata := dict_update (v_metadata s) md\<rparr>))) = (Some e, s1)"
  shows "unit_of_work app_interceptors app_context md body s = (Some e, s1\<lparr>v_metadata := v_metadata s\<rparr>)"
  using assms by (simp add: unit_of_work_def run_contexts_def container_interceptor_def Let_def)

theorem failed_enter_leaves_interceptors_open_witness:
  "unit_of_work [probe 1 None (Inr False), probe 2 (Some (Exc ValueError ''x'')) (Inr False)] ''ctx'' []
     (\<lambda>s. (None, s)) probe_start =
   (Some (Exc ValueError ''x''),
    probe_start\<lparr>v_app_context := Some ''ctx'', v_container := True, v_saved := [(None, False)],
      probe_log := [(True, 1, None), (True, 2, None)]\<rparr>)"
  using failed_enter_leaves_interceptors_open [of
      "[probe 1 None (Inr False), probe 2 (Some (Exc ValueError ''x'')) (Inr False)]" "''ctx''" probe_start "[]"
      "Exc ValueError ''x''"
      "probe_start\<lparr>v_app_context := Some ''ctx'', v_container := True, v_saved := [(None, False)],
         probe_log := [(True, 1, None), (True, 2, None)]\<rparr>" "\<lambda>s. (None, s)"]
  by (simp add: probe_def probe_start_def container_interceptor_def dict_update_def)

text \<open>
  The lifecycles of the interceptors: when the process ends normally each lifecycle that was started is finished once, in
  the order they were started; when the process ends with an exception none of them is finished.
\<close>

lemma finish_all:
  "\<forall>c t. Some c \<in> set interceptors \<longrightarrow> \<not> isl (fst (aexit c None t)) \<Longrightarrow>
   finish_lifecycles interceptors s =
     (None, fold (\<lambda>c t. snd (aexit c None t)) (List.map_filter id interceptors) s)"
proof (induction interceptors s rule: finish_lifecycles.induct)
  case (3 c cs s)
  have "\<not> isl (fst (aexit c None s))" using 3(2) by simp
  then obtain b s1 where x: "aexit c None s = (Inr b, s1)"
    by (metis isl_def prod.collapse sum.exhaust_sel)
  then show ?case using 3 by (simp add: List.map_filter_def)
qed (simp_all add: List.map_filter_def)

theorem lifecycles_finished_on_normal_end_only:
  assumes "fill False s = (None, s1)" "start_lifecycles interceptors s1 = (None, s2)" "fill True s2 = (None, s3)"
    and "body s3 = (r, s4)"
    and "\<forall>c t. Some c \<in> set interceptors \<longrightarrow> \<not> isl (fst (aexit c None t))"
  shows "app_lifecycle False fill interceptors body s =
    (case r of
       None \<Rightarrow> (None, fold (\<lambda>c t. snd (aexit c None t)) (List.map_filter id interceptors) s4)
     | Some e \<Rightarrow> (Some e, s4))"
  using assms finish_all [of interceptors s4] by (simp add: app_lifecycle_def split: option.split)

theorem lifecycles_finished_on_normal_end_only_witness:
  "probe_log (snd (app_lifecycle False (\<lambda>b s. (None, s))
     [Some (probe 1 None (Inr False)), None, Some (probe 2 None (Inr False))] (\<lambda>s. (None, s)) probe_start)) =
   [(True, 1, None), (True, 2, None), (False, 1, None), (False, 2, None)]"
proof -
  let ?s = "probe_start\<lparr>probe_log := [(True, 1, None), (True, 2, None)]\<rparr>"
  show ?thesis
    using lifecycles_finished_on_normal_end_only [of "\<lambda>b s. (None, s)" probe_start probe_start
        "[Some (probe 1 None (Inr False)), None, Some (probe 2 None (Inr False))]" ?s ?s "\<lambda>s. (None, s)" None ?s]
    by (auto simp: probe_def probe_start_def List.map_filter_def)
qed

end
