(* ===== verification/Sessions.thy ===== *)
theory Sessions
  imports Unit_Of_Work
begin

section \<open>Database sessions\<close>

text \<open>
  \<^verbatim>\<open>persistence/interceptors/aiosqa_interceptor.py\<close>: the interceptor that opens a session and a transaction around
  a unit of work, and the context variables through which handlers find them. SQLAlchemy is the sequence
  of calls \<open>db_call\<close>, with arbitrary answers; \<open>tx_is_active\<close> and \<open>session_is_active\<close> are what the two
  properties of that name return, by the position in the log.

  A generator suspended at its \<open>yield\<close> keeps its local variables in \<open>frames\<close>, innermost first.
\<close>

datatype db_call =
    DbOpen string | DbBegin | DbCommit | DbRollback
  | DbTxExit "exc option" | DbClose "exc option"

datatype frame =
    Skipped "string option"                                            \<comment> \<open>no session injected\<close>
  | Entered "string option" string "(string \<times> nat) list"              \<comment> \<open>manager, default name, session map before\<close>

record db_vars = app_vars +
  db_calls :: "db_call list"
  db_answers :: "nat \<Rightarrow> exc option"
  tx_is_active :: "nat \<Rightarrow> bool"
  session_is_active :: "nat \<Rightarrow> bool"
  ctx_session_manager :: "string option"
  ctx_default_connection_name :: string
  ctx_session_map :: "(string \<times> nat) list"
  frames :: "frame list"

definition db_do :: "db_call \<Rightarrow> 'z db_vars_scheme \<Rightarrow> exc option \<times> 'z db_vars_scheme" where
  "db_do c s = (db_answers s (length (db_calls s)), s\<lparr>db_calls := db_calls s @ [c]\<rparr>)"

definition db_now :: "(nat \<Rightarrow> bool) \<Rightarrow> 'z db_vars_scheme \<Rightarrow> bool" where
  "db_now p s = p (length (db_calls s))"

subsection \<open>Context variables\<close>

definition ensure_name :: "string option \<Rightarrow> 'z db_vars_scheme \<Rightarrow> string" where
  "ensure_name name s = ctx_default_connection_name s"

definition use_session_manager :: "'z db_vars_scheme \<Rightarrow> string result" where
  "use_session_manager s =
     (case ctx_session_manager s of
        None \<Rightarrow> Inl (Exc ValueError ''No session manager set in the context.'') | Some m \<Rightarrow> Inr m)"

definition providing_session :: "nat \<Rightarrow> string option \<Rightarrow> 'z db_vars_scheme \<Rightarrow> 'z db_vars_scheme" where
  "providing_session session connection_name s =
     s\<lparr>ctx_session_map := dict_set (ensure_name connection_name s) session (ctx_session_map s)\<rparr>"

definition use_session :: "string option \<Rightarrow> 'z db_vars_scheme \<Rightarrow> nat result" where
  "use_session connection_name s =
     (case map_of (ctx_session_map s) (ensure_name connection_name s) of
        None \<Rightarrow> Inl (Exc ValueError ''Session not found for connection'') | Some x \<Rightarrow> Inr x)"

text \<open>The keys of the map are strings, so \<open>None\<close> is never one of them.\<close>

definition use_transaction :: "string option \<Rightarrow> 'z db_vars_scheme \<Rightarrow> nat result" where
  "use_transaction connection_name s =
     (case Option.bind connection_name (map_of (ctx_session_map s)) of
        None \<Rightarrow> Inl (Exc ValueError ''Transaction not found for connection'') | Some x \<Rightarrow> Inr x)"

definition providing_transaction ::
  "string option \<Rightarrow> ('z db_vars_scheme \<Rightarrow> exc option \<times> 'z db_vars_scheme) \<Rightarrow> 'z db_vars_scheme \<Rightarrow>
   exc option \<times> 'z db_vars_scheme" where
  "providing_transaction connection_name body s =
     (case map_of (ctx_session_map s) (ensure_name connection_name s) of
        None \<Rightarrow> (Some (Exc ValueError ''No session found for connection''), s)
      | Some x \<Rightarrow> (case body (providing_session x connection_name s) of
                     (r, s1) \<Rightarrow> (r, s1\<lparr>ctx_session_map := ctx_session_map s\<rparr>)))"

subsection \<open>The transaction around a body\<close>

text \<open>
  \<open>async with sessionmaker() as session, session.begin() as tx\<close>: what is left of the two exits when the body
  ended with \<open>r\<close>. Neither of them suppresses an exception.
\<close>

definition replaced :: "exc option \<Rightarrow> exc option \<Rightarrow> exc option" where
  "replaced r raised = (case raised of Some e \<Rightarrow> Some e | None \<Rightarrow> r)"

definition db_leave :: "exc option \<Rightarrow> 'z db_vars_scheme \<Rightarrow> exc option \<times> 'z db_vars_scheme" where
  "db_leave r s =
     (let (a, s1) = db_do (DbTxExit r) s; r1 = replaced r a;
          (b, s2) = db_do (DbClose r1) s1
      in (replaced r1 b, s2))"

definition db_enter :: "string \<Rightarrow> 'z db_vars_scheme \<Rightarrow> exc option \<times> 'z db_vars_scheme" where
  "db_enter connection_name s =
     (case db_do (DbOpen connection_name) s of
        (Some e, s1) \<Rightarrow> (Some e, s1)
      | (None, s1) \<Rightarrow>
          (case db_do DbBegin s1 of
             (None, s2) \<Rightarrow> (None, s2)
           | (Some e, s2) \<Rightarrow> (let (b, s3) = db_do (DbClose (Some e)) s2 in (replaced (Some e) b, s3))))"

text \<open>The \<open>try\<close> block: commit after a body that returned, roll back after an \<open>Exception\<close>.\<close>

definition commit_or_rollback :: "exc option \<Rightarrow> 'z db_vars_scheme \<Rightarrow> exc option \<times> 'z db_vars_scheme" where
  "commit_or_rollback r s =
     (let (r1, s1) = (case r of
            Some e \<Rightarrow> (Some e, s)
          | None \<Rightarrow> if db_now (tx_is_active s) s \<and> db_now (session_is_active s) s
                    then db_do DbCommit s else (None, s))
      in case r1 of
           None \<Rightarrow> (None, s1)
         | Some e \<Rightarrow>
             if is_Exception e \<and> db_now (tx_is_active s1) s1
             then (let (b, s2) = db_do DbRollback s1 in (replaced (Some e) b, s2))
             else (Some e, s1))"

subsection \<open>The interceptor\<close>

record sqa_config =
  sqa_connection_name :: string
  sqa_inject_default :: bool

definition metadata_key :: "string \<Rightarrow> string" where
  "metadata_key connection_name = ''inject_persistence_template_'' @ connection_name"

definition injects :: "sqa_config \<Rightarrow> 'z db_vars_scheme \<Rightarrow> bool" where
  "injects cfg s = py_truth (get_metadata_value (metadata_key (sqa_connection_name cfg))
     (VBool (sqa_inject_default cfg)) (v_metadata s))"

definition session_enter :: "sqa_config \<Rightarrow> 'z db_vars_scheme \<Rightarrow> exc option \<times> 'z db_vars_scheme" where
  "session_enter cfg s =
     (let manager = ctx_session_manager s; name = sqa_connection_name cfg;
          s0 = s\<lparr>ctx_session_manager := Some name\<rparr>
      in if \<not> injects cfg s then (None, s0\<lparr>frames := Skipped manager # frames s\<rparr>)
         else case db_enter name s0 of
                (Some e, s1) \<Rightarrow> (Some e, s1\<lparr>ctx_session_manager := manager\<rparr>)
              | (None, s1) \<Rightarrow>
                  (None, providing_session (length (db_calls s)) (Some name)
                     (s1\<lparr>frames := Entered manager (ctx_default_connection_name s) (ctx_session_map s) # frames s,
                         ctx_default_connection_name := name\<rparr>)))"

text \<open>
  What the context manager of the generator returns: a body that did not fail must end without an
  exception, and the exception thrown in counts as not suppressed when it comes out again.
\<close>

definition exit_answer :: "exc option \<Rightarrow> exc option \<Rightarrow> bool result" where
  "exit_answer thrown raised =
     (case raised of
        None \<Rightarrow> Inr (thrown \<noteq> None)
      | Some e \<Rightarrow> if thrown = Some e then Inr False else Inl e)"

definition session_exit :: "exc option \<Rightarrow> 'z db_vars_scheme \<Rightarrow> bool result \<times> 'z db_vars_scheme" where
  "session_exit exc s =
     (case frames s of
        [] \<Rightarrow> (Inl (Exc RuntimeError ''generator not suspended''), s)
      | Skipped manager # rest \<Rightarrow>
          (exit_answer exc exc, s\<lparr>ctx_session_manager := manager, frames := rest\<rparr>)
      | Entered manager dflt smap # rest \<Rightarrow>
          (let (r1, s1) = commit_or_rollback exc s;
               (r2, s2) = db_leave r1 (s1\<lparr>ctx_default_connection_name := dflt, ctx_session_map := smap\<rparr>)
           in (exit_answer exc r2, s2\<lparr>ctx_session_manager := manager, frames := rest\<rparr>)))"

definition session_interceptor :: "sqa_config \<Rightarrow> 'z db_vars_scheme interceptor" where
  "session_interceptor cfg = \<lparr>aenter = session_enter cfg, aexit = session_exit\<rparr>"

text \<open>\<open>providing_new_session\<close> around a body; the session manager only supplies the connection.\<close>

definition providing_new_session ::
  "string option \<Rightarrow> ('z db_vars_scheme \<Rightarrow> exc option \<times> 'z db_vars_scheme) \<Rightarrow> 'z db_vars_scheme \<Rightarrow>
   exc option \<times> 'z db_vars_scheme" where
  "providing_new_session connection_name body s =
     (case use_session_manager s of
        Inl e \<Rightarrow> (Some e, s)
      | Inr m \<Rightarrow>
          (case db_enter (ensure_name connection_name s) s of
             (Some e, s1) \<Rightarrow> (Some e, s1)
           | (None, s1) \<Rightarrow>
               (let (r, s2) = body (providing_session (length (db_calls s)) connection_name s1);
                    (r1, s3) = commit_or_rollback r s2
                in db_leave r1 (s3\<lparr>ctx_session_map := ctx_session_map s1\<rparr>))))"

definition providing_new_or_current_session ::
  "string option \<Rightarrow> (nat \<Rightarrow> 'z db_vars_scheme \<Rightarrow> exc option \<times> 'z db_vars_scheme) \<Rightarrow>
   'z db_vars_scheme \<Rightarrow> exc option \<times> 'z db_vars_scheme" where
  "providing_new_or_current_session connection_name body s =
     (case map_of (ctx_session_map s) (ensure_name connection_name s) of
        Some x \<Rightarrow> body x s
      | None \<Rightarrow> providing_new_session connection_name (body (length (db_calls s))) s)"

subsection \<open>Lemmas\<close>

lemma replaced_failure: "\<exists>e'. replaced (Some e) b = Some e'"
  by (cases b) (simp_all add: replaced_def)

lemma replaced_None [simp]: "replaced None b = b"
  by (cases b) (simp_all add: replaced_def)

lemma commit_or_rollback_failure: "\<exists>e'. fst (commit_or_rollback (Some e) s) = Some e'"
  using replaced_failure [of e] by (auto simp: commit_or_rollback_def db_do_def Let_def)

lemma db_leave_failure: "\<exists>e'. fst (db_leave (Some e) s) = Some e'"
  unfolding db_leave_def db_do_def Let_def by (auto simp: replaced_def split: option.split)

lemma session_exit_failure: "fst (session_exit (Some e) s) \<noteq> Inr True"
proof (cases "frames s")
  case (Cons f rest)
  show ?thesis
  proof (cases f)
    case (Entered m d sm)
    obtain r1 s1 where c: "commit_or_rollback (Some e) s = (r1, s1)" by fastforce
    then obtain e1 where r1: "r1 = Some e1" using commit_or_rollback_failure [of e s] by auto
    obtain r2 s2 where l: "db_leave (Some e1) (s1\<lparr>ctx_default_connection_name := d, ctx_session_map := sm\<rparr>) = (r2, s2)"
      by fastforce
    then obtain e2 where "r2 = Some e2"
      using db_leave_failure [of e1 "s1\<lparr>ctx_default_connection_name := d, ctx_session_map := sm\<rparr>"] by auto
    then show ?thesis using c r1 l Entered Cons by (auto simp: session_exit_def exit_answer_def)
  qed (auto simp: session_exit_def exit_answer_def Cons)
qed (simp add: session_exit_def)

interpretation session: app_interceptor "session_interceptor cfg"
  by unfold_locales (simp add: session_interceptor_def session_exit_failure)

subsection \<open>Properties\<close>

definition db_since :: "'z db_vars_scheme \<Rightarrow> 'z db_vars_scheme \<Rightarrow> db_call list" where
  "db_since s s' = drop (length (db_calls s)) (db_calls s')"

text \<open>What a transaction is left with: the exception of the body, or of the commit.\<close>

definition tx_failure :: "exc option \<Rightarrow> 'z db_vars_scheme \<Rightarrow> exc option" where
  "tx_failure exc s =
     (case exc of
        Some e \<Rightarrow> Some e
      | None \<Rightarrow> if db_now (tx_is_active s) s \<and> db_now (session_is_active s) s
                then db_answers s (length (db_calls s)) else None)"

lemma commit_or_rollback_calls:
  "\<exists>new. snd (commit_or_rollback exc s) = s\<lparr>db_calls := db_calls s @ new\<rparr>
    \<and> (DbCommit \<in> set new) = (exc = None \<and> db_now (tx_is_active s) s \<and> db_now (session_is_active s) s)
    \<and> (DbRollback \<in> set new \<longrightarrow> (\<exists>e. tx_failure exc s = Some e \<and> is_Exception e))
    \<and> (fst (commit_or_rollback exc s) = None) = (tx_failure exc s = None)
    \<and> set new \<subseteq> {DbCommit, DbRollback}
    \<and> (tx_failure exc s = exc \<longrightarrow> (DbRollback \<in> set new) =
         (\<exists>e. exc = Some e \<and> is_Exception e \<and> db_now (tx_is_active s) s))"
proof (cases exc)
  case None
  show ?thesis
  proof (cases "db_now (tx_is_active s) s \<and> db_now (session_is_active s) s")
    case True
    define c where "c = db_answers s (length (db_calls s))"
    show ?thesis
    proof (cases c)
      case None
      then show ?thesis using \<open>exc = None\<close> True c_def
        by (intro exI [of _ "[DbCommit]"]) (simp add: commit_or_rollback_def tx_failure_def db_do_def)
    next
      case (Some e)
      then show ?thesis using \<open>exc = None\<close> True c_def
        by (intro exI [of _ "DbCommit # (if is_Exception e \<and> tx_is_active s (Suc (length (db_calls s)))
              then [DbRollback] else [])"])
           (auto simp: commit_or_rollback_def tx_failure_def db_do_def db_now_def Let_def replaced_def split: option.split)
    qed
  next
    case False
    then show ?thesis using None
      by (intro exI [of _ "[]"]) (auto simp: commit_or_rollback_def tx_failure_def db_do_def)
  qed
next
  case (Some e)
  then show ?thesis
    by (intro exI [of _ "if is_Exception e \<and> db_now (tx_is_active s) s then [DbRollback] else []"])
       (auto simp: commit_or_rollback_def tx_failure_def db_do_def db_now_def Let_def replaced_def split: option.split)
qed

lemma db_leave_calls:
  "\<exists>r1. snd (db_leave r s) = s\<lparr>db_calls := db_calls s @ [DbTxExit r, DbClose r1]\<rparr>"
  by (intro exI [of _ "replaced r (db_answers s (length (db_calls s)))"]) (simp add: db_leave_def db_do_def Let_def)

lemma session_exit_run:
  assumes "frames s = Entered manager dflt smap # rest" and "session_exit exc s = (r, s')"
  shows "\<exists>new r1 b. s' = s\<lparr>ctx_default_connection_name := dflt, ctx_session_map := smap,
        db_calls := db_calls s @ new @ [DbTxExit r1, DbClose b], ctx_session_manager := manager, frames := rest\<rparr>
    \<and> (DbCommit \<in> set new) = (exc = None \<and> db_now (tx_is_active s) s \<and> db_now (session_is_active s) s)
    \<and> set new \<subseteq> {DbCommit, DbRollback}
    \<and> (\<forall>e. exc = Some e \<longrightarrow> (DbRollback \<in> set new) = (is_Exception e \<and> db_now (tx_is_active s) s))"
proof -
  obtain r1 s1 where c: "commit_or_rollback exc s = (r1, s1)" by fastforce
  obtain new where new: "s1 = s\<lparr>db_calls := db_calls s @ new\<rparr>"
    "(DbCommit \<in> set new) = (exc = None \<and> db_now (tx_is_active s) s \<and> db_now (session_is_active s) s)"
    "set new \<subseteq> {DbCommit, DbRollback}"
    "tx_failure exc s = exc \<longrightarrow> (DbRollback \<in> set new) =
       (\<exists>e. exc = Some e \<and> is_Exception e \<and> db_now (tx_is_active s) s)"
    using commit_or_rollback_calls [of exc s] c by (metis fst_conv snd_conv)
  obtain b where "snd (db_leave r1 (s1\<lparr>ctx_default_connection_name := dflt, ctx_session_map := smap\<rparr>)) =
      s1\<lparr>ctx_default_connection_name := dflt, ctx_session_map := smap,
         db_calls := db_calls s @ new @ [DbTxExit r1, DbClose b]\<rparr>"
    using db_leave_calls [of r1 "s1\<lparr>ctx_default_connection_name := dflt, ctx_session_map := smap\<rparr>"] new(1)
    by auto
  then have "s' = s1\<lparr>ctx_default_connection_name := dflt, ctx_session_map := smap,
      db_calls := db_calls s @ new @ [DbTxExit r1, DbClose b], ctx_session_manager := manager, frames := rest\<rparr>"
    using assms c by (auto simp: session_exit_def Let_def split: prod.splits)
  moreover have "\<forall>e. exc = Some e \<longrightarrow> (DbRollback \<in> set new) = (is_Exception e \<and> db_now (tx_is_active s) s)"
    using new(4) by (simp add: tx_failure_def)
  ultimately show ?thesis using new by (intro exI [of _ new] exI [of _ r1] exI [of _ b]) simp
qed

lemma session_exit_commits:
  assumes "frames s = Entered manager dflt smap # rest" and "session_exit None s = (r, s')"
  shows "(DbCommit \<in> set (db_since s s')) = (db_now (tx_is_active s) s \<and> db_now (session_is_active s) s)"
  using session_exit_run [OF assms] by (auto simp: db_since_def)

text \<open>
  (C14) The transaction of a unit of work: commit is asked for exactly when the body returned and session and
  transaction are still active; an \<open>Exception\<close> of the body is rolled back, exactly while the transaction is
  active; the transaction and the session are left in every case, last; the exception is passed on; and the context variables get back the values they had
  before the interceptor was entered.
\<close>

theorem session_commits_iff_body_returned:
  assumes "frames s = Entered manager dflt smap # rest" and "session_exit exc s = (r, s')"
  shows "(DbCommit \<in> set (db_since s s')) =
        (exc = None \<and> db_now (tx_is_active s) s \<and> db_now (session_is_active s) s)
    \<and> (\<forall>e. exc = Some e \<longrightarrow> (DbRollback \<in> set (db_since s s')) = (is_Exception e \<and> db_now (tx_is_active s) s))
    \<and> (\<exists>pre a b. db_since s s' = pre @ [DbTxExit a, DbClose b] \<and> set pre \<subseteq> {DbCommit, DbRollback})
    \<and> (exc \<noteq> None \<longrightarrow> r \<noteq> Inr True)
    \<and> ctx_session_manager s' = manager \<and> ctx_default_connection_name s' = dflt
    \<and> ctx_session_map s' = smap \<and> frames s' = rest"
proof -
  obtain new r1 b where run: "s' = s\<lparr>ctx_default_connection_name := dflt, ctx_session_map := smap,
        db_calls := db_calls s @ new @ [DbTxExit r1, DbClose b], ctx_session_manager := manager, frames := rest\<rparr>"
    "(DbCommit \<in> set new) = (exc = None \<and> db_now (tx_is_active s) s \<and> db_now (session_is_active s) s)"
    "set new \<subseteq> {DbCommit, DbRollback}"
    "\<forall>e. exc = Some e \<longrightarrow> (DbRollback \<in> set new) = (is_Exception e \<and> db_now (tx_is_active s) s)"
    using session_exit_run [OF assms] by blast
  have "db_since s s' = new @ [DbTxExit r1, DbClose b]" by (simp add: db_since_def run(1))
  moreover have "exc \<noteq> None \<longrightarrow> r \<noteq> Inr True"
    using session_exit_failure assms(2) by (metis fst_conv option.exhaust)
  ultimately show ?thesis using run(2-4) by (auto simp: run(1))
qed

definition sample_db :: db_vars where
  "sample_db = \<lparr>v_metadata = [], v_app_context = None, v_container = False, v_saved = [],
     db_calls = [], db_answers = (\<lambda>_. None), tx_is_active = (\<lambda>_. True), session_is_active = (\<lambda>_. True),
     ctx_session_manager = None, ctx_default_connection_name = ''default'', ctx_session_map = [], frames = []\<rparr>"

definition sample_sqa :: "string \<Rightarrow> sqa_config" where
  "sample_sqa n = \<lparr>sqa_connection_name = n, sqa_inject_default = True\<rparr>"

lemmas session_eval = session_enter_def session_exit_def db_enter_def db_leave_def commit_or_rollback_def db_do_def
  db_now_def injects_def get_metadata_value_def providing_session_def ensure_name_def exit_answer_def
  Let_def sample_db_def sample_sqa_def

theorem session_commits_iff_body_returned_witness:
  "DbRollback \<in> set (db_since (snd (session_enter (sample_sqa ''a'') sample_db))
     (snd (session_exit (Some (Exc ValueError ''x'')) (snd (session_enter (sample_sqa ''a'') sample_db)))))"
proof -
  have f: "frames (snd (session_enter (sample_sqa ''a'') sample_db)) = Entered None ''default'' [] # []"
    by (simp add: session_eval)
  show ?thesis
    using session_commits_iff_body_returned [OF f, of "Some (Exc ValueError ''x'')"
        "fst (session_exit (Some (Exc ValueError ''x'')) (snd (session_enter (sample_sqa ''a'') sample_db)))"
        "snd (session_exit (Some (Exc ValueError ''x'')) (snd (session_enter (sample_sqa ''a'') sample_db)))"]
    by (simp add: session_eval)
qed

lemma session_enter_ok:
  "injects cfg s \<Longrightarrow> session_enter cfg s = (None, s') \<Longrightarrow>
   ctx_default_connection_name s' = sqa_connection_name cfg
   \<and> ctx_session_map s' = dict_set (sqa_connection_name cfg) (length (db_calls s)) (ctx_session_map s)
   \<and> frames s' = Entered (ctx_session_manager s) (ctx_default_connection_name s) (ctx_session_map s) # frames s
   \<and> db_calls s' = db_calls s @ [DbOpen (sqa_connection_name cfg), DbBegin]"
  by (auto simp: session_enter_def db_enter_def db_do_def Let_def providing_session_def ensure_name_def
      replaced_def split: option.splits)

text \<open>
  Two connections. Inside the interceptors of connections \<open>a\<close> and then \<open>b\<close> every name finds the session
  of \<open>b\<close>: the name asked for is ignored, and the transaction of the
  default connection is not found.
\<close>

theorem connection_name_is_ignored:
  assumes "session_enter cfg_a s = (None, s1)" "injects cfg_b s1" "session_enter cfg_b s1 = (None, s2)"
  shows "use_session (Some (sqa_connection_name cfg_a)) s2 = Inr (length (db_calls s1))
    \<and> use_session (Some (sqa_connection_name cfg_b)) s2 = Inr (length (db_calls s1))
    \<and> use_transaction None s2 = Inl (Exc ValueError ''Transaction not found for connection'')"
  using session_enter_ok [OF assms(2,3)] by (simp add: use_session_def ensure_name_def use_transaction_def)

theorem connection_name_is_ignored_witness:
  "use_session (Some ''a'') (snd (session_enter (sample_sqa ''b'') (snd (session_enter (sample_sqa ''a'') sample_db)))) =
   Inr 2"
  using connection_name_is_ignored [of "sample_sqa ''a''" sample_db "snd (session_enter (sample_sqa ''a'') sample_db)"
      "sample_sqa ''b''" "snd (session_enter (sample_sqa ''b'') (snd (session_enter (sample_sqa ''a'') sample_db)))"]
  by (simp add: session_eval)

text \<open>
  When a later interceptor of the unit of work cannot be entered, the session opened before it stays open: its
  transaction is neither committed nor rolled back and the session is not closed.
\<close>

theorem failed_enter_leaks_session:
  assumes "injects cfg (s\<lparr>v_metadata := dict_update (v_metadata s) md, v_saved := (v_app_context s, v_container s) # v_saved s,
      v_app_context := Some app_context, v_container := True\<rparr>)"
    and "db_answers s (length (db_calls s)) = None" "db_answers s (Suc (length (db_calls s))) = None"
    and "aenter i = (\<lambda>t. (Some e, t))"
  shows "fst (unit_of_work [session_interceptor cfg, i] app_context md body s) = Some e
    \<and> db_since s (snd (unit_of_work [session_interceptor cfg, i] app_context md body s)) =
        [DbOpen (sqa_connection_name cfg), DbBegin]"
  using assms
  by (simp add: unit_of_work_def run_contexts_def container_interceptor_def session_interceptor_def Let_def
      session_enter_def db_enter_def db_do_def providing_session_def db_since_def)

theorem failed_enter_leaks_session_witness:
  "db_since sample_db (snd (unit_of_work [session_interceptor (sample_sqa ''a''),
      \<lparr>aenter = (\<lambda>t. (Some (Exc ConnectionError ''redis''), t)), aexit = (\<lambda>x t. (Inr False, t))\<rparr>]
      ''ctx'' [] (\<lambda>s. (None, s)) sample_db)) = [DbOpen ''a'', DbBegin]"
  using failed_enter_leaks_session [where cfg = "sample_sqa ''a''" and s = sample_db and md = "[]"
      and app_context = "''ctx''" and e = "Exc ConnectionError ''redis''" and body = "\<lambda>s. (None, s)"
      and i = "\<lparr>aenter = (\<lambda>t. (Some (Exc ConnectionError ''redis''), t)), aexit = (\<lambda>x t. (Inr False, t))\<rparr>"]
  by (simp add: injects_def get_metadata_value_def sample_db_def sample_sqa_def dict_update_def)

end
