(* ===== verification/Outbox.thy ===== *)
theory Outbox
  imports Sessions Publisher
begin

section \<open>Publishing after the commit\<close>

text \<open>
  The publisher interceptor and the session interceptor in one unit of work, in the order the
  documentation configures them: publisher outside, session inside.
\<close>

record app_state = db_vars +
  pub :: pub_world
  pub_ops :: "(rat \<times> pub_op) list"      \<comment> \<open>what the handler did with its publisher\<close>

definition publisher_interceptor :: "pub_config \<Rightarrow> bool \<Rightarrow> rat \<Rightarrow> 'z app_state_scheme interceptor" where
  "publisher_interceptor cfg websocket now =
     \<lparr>aenter = (\<lambda>s. (None, s\<lparr>pub_ops := []\<rparr>)),
      aexit = (\<lambda>exc s. case publisher_intercept cfg websocket now (pub_ops s) exc (pub s) of
         (r, w) \<Rightarrow> (exit_answer exc r, s\<lparr>pub := w\<rparr>))\<rparr>"

lemma publisher_intercept_failure: "publisher_intercept cfg websocket now ops (Some e) w = (Some e, w)"
  by (simp add: publisher_intercept_def)

interpretation publisher: app_interceptor "publisher_interceptor cfg websocket now"
  by unfold_locales (simp add: publisher_interceptor_def publisher_intercept_failure exit_answer_def)

lemma session_exit_success:
  assumes "frames s = Entered m d sm # rest" "session_exit None s = (Inr b, s')"
  shows "tx_failure None s = None"
proof -
  obtain r1 s1 where c: "commit_or_rollback None s = (r1, s1)" by fastforce
  obtain r2 s2 where l: "db_leave r1 (s1\<lparr>ctx_default_connection_name := d, ctx_session_map := sm\<rparr>) = (r2, s2)"
    by fastforce
  from assms c l have "exit_answer None r2 = Inr b" by (simp add: session_exit_def)
  then have "r2 = None" by (auto simp: exit_answer_def split: option.splits)
  with l have "r1 = None" using db_leave_failure [of _ "s1\<lparr>ctx_default_connection_name := d, ctx_session_map := sm\<rparr>"]
    by (metis fst_conv not_None_eq)
  with c show ?thesis using commit_or_rollback_calls [of None s] by auto
qed

lemma session_enter_frame:
  "session_enter cfg s = (None, s') \<Longrightarrow> injects cfg s \<Longrightarrow> \<exists>m d sm rest. frames s' = Entered m d sm # rest"
  using session_enter_ok by blast

lemma session_keeps_pub [simp]:
  "pub (snd (session_enter cfg s)) = pub s" "pub (snd (session_exit exc s)) = pub s"
  by (simp_all add: session_enter_def db_enter_def db_do_def providing_session_def session_exit_def db_leave_def
      commit_or_rollback_def Let_def split: option.split list.split frame.split prod.split)

lemma injects_metadata: "v_metadata s = v_metadata t \<Longrightarrow> injects cfg s = injects cfg t"
  by (simp add: injects_def)


definition sample_app :: app_state where
  "sample_app = \<lparr>v_metadata = [], v_app_context = None, v_container = False, v_saved = [],
     db_calls = [], db_answers = (\<lambda>_. None), tx_is_active = (\<lambda>_. True), session_is_active = (\<lambda>_. True),
     ctx_session_manager = None, ctx_default_connection_name = ''default'', ctx_session_map = [], frames = [],
     pub = \<lparr>calls = [], answers = (\<lambda>_. None)\<rparr>, pub_ops = []\<rparr>"

definition sample_body :: "app_state \<Rightarrow> exc option \<times> app_state" where
  "sample_body s = (None, s\<lparr>pub_ops := [(0, OpPublish demo_message)]\<rparr>)"

definition sample_run :: "exc option \<times> app_state" where
  "sample_run = unit_of_work [publisher_interceptor demo_pub_config False 0, session_interceptor (sample_sqa ''default'')]
     ''ctx'' [] sample_body sample_app"

lemma sample_run_sends: "calls (pub (snd sample_run)) \<noteq> []"
  by (simp add: sample_run_def sample_app_def sample_body_def unit_of_work_def run_contexts_def
      container_interceptor_def publisher_interceptor_def session_interceptor_def session_eval Let_def
      publisher_intercept_def demo_pub_config_def collect_def MessagePublisherCollector_def has_messages_def
      provide_connection_def do_call_def dict_update_def fill_and_flush_def fill_def new_publisher_def flush_def
      publication_def replaced_def)


end
