(* ===== verification/Container.thy ===== *)
theory Container
  imports Unit_Of_Work
begin

section \<open>Dependency injection\<close>

text \<open>
  \<^verbatim>\<open>microservice.py\<close> (class \<open>Container\<close>) and \<^verbatim>\<open>core/providers.py\<close>. A class or factory is named by a
  string. What it is (its signature, what calling it does) is code of the application, given by
  \<open>classes\<close>; the outcome of a call may depend on how many calls were made before. The first argument of
  the resolving functions is the depth of the call stack left: Python raises \<open>RecursionError\<close> when it is
  used up.
\<close>

subsection \<open>Data\<close>

datatype key = KType string | KToken string string     \<comment> \<open>a class, or \<open>Token(type_, name)\<close>\<close>

fun item_type :: "key \<Rightarrow> string" where
  "item_type (KType t) = t"
| "item_type (KToken t n) = t"

datatype annotation = Plain key | Annotated key "key list"

record param =
  p_name :: string
  p_annotation :: "annotation option"

record classes =
  c_signature :: "string \<Rightarrow> param list result"
  c_call :: "string \<Rightarrow> (string \<times> pyval) list \<Rightarrow> nat \<Rightarrow> pyval result"
  c_after_interceptors :: "string \<Rightarrow> bool option"     \<comment> \<open>a class attribute of that name\<close>

record provider_spec =
  ps_provide :: key
  ps_use_value :: pyval
  ps_use_factory :: "string option"
  ps_use_class :: "string option"
  ps_after_interceptors :: bool

datatype provider = PClass string | PSpec provider_spec

record cst =
  instances_map :: "(key \<times> pyval) list"
  built :: "(string \<times> (string \<times> pyval) list) list"      \<comment> \<open>the calls of constructors and factories so far\<close>

definition register :: "pyval \<Rightarrow> key \<Rightarrow> cst \<Rightarrow> cst" where
  "register instance bind_to s = s\<lparr>instances_map := dict_set bind_to instance (instances_map s)\<rparr>"

subsection \<open>Resolving\<close>

definition lookup_parameter_type :: "param \<Rightarrow> key result" where
  "lookup_parameter_type p =
     (case p_annotation p of
        None \<Rightarrow> Inl (Exc OtherError ''Parameter has no type annotation'')
      | Some (Plain k) \<Rightarrow> Inr k
      | Some (Annotated k []) \<Rightarrow> Inl (Exc OtherError ''Parameter has no type annotation'')
      | Some (Annotated k (m # ms)) \<Rightarrow> Inr m)"

fun lookup_parameters :: "param list \<Rightarrow> (string \<times> key) list result" where
  "lookup_parameters [] = Inr []"
| "lookup_parameters (p # ps) =
     (if p_annotation p = None then lookup_parameters ps
      else case lookup_parameter_type p of
             Inl e \<Rightarrow> Inl e
           | Inr k \<Rightarrow> (case lookup_parameters ps of Inl e \<Rightarrow> Inl e | Inr ks \<Rightarrow> Inr ((p_name p, k) # ks)))"

definition parse_dependencies :: "classes \<Rightarrow> string \<Rightarrow> (string \<times> key) list result" where
  "parse_dependencies E t = (case c_signature E t of Inl e \<Rightarrow> Inl e | Inr ps \<Rightarrow> lookup_parameters ps)"

type_synonym resolver = "key \<Rightarrow> cst \<Rightarrow> pyval result \<times> cst"

fun eval_dependencies :: "resolver \<Rightarrow> (string \<times> key) list \<Rightarrow> cst \<Rightarrow> (string \<times> pyval) list result \<times> cst" where
  "eval_dependencies get [] s = (Inr [], s)"
| "eval_dependencies get ((name, k) # ds) s =
     (case get k s of
        (Inl e, s1) \<Rightarrow> (Inl e, s1)
      | (Inr v, s1) \<Rightarrow>
          (case eval_dependencies get ds s1 of
             (Inl e, s2) \<Rightarrow> (Inl e, s2)
           | (Inr vs, s2) \<Rightarrow> (Inr ((name, v) # vs), s2)))"

definition instantiate :: "classes \<Rightarrow> resolver \<Rightarrow> string \<Rightarrow> cst \<Rightarrow> pyval result \<times> cst" where
  "instantiate E get t s =
     (case parse_dependencies E t of
        Inl e \<Rightarrow> (Inl e, s)
      | Inr ds \<Rightarrow>
          (case eval_dependencies get ds s of
             (Inl e, s1) \<Rightarrow> (Inl e, s1)
           | (Inr vs, s1) \<Rightarrow> (c_call E t vs (length (built s1)), s1\<lparr>built := built s1 @ [(t, vs)]\<rparr>)))"

definition get_and_register_with :: "classes \<Rightarrow> resolver \<Rightarrow> string \<Rightarrow> key \<Rightarrow> cst \<Rightarrow> pyval result \<times> cst" where
  "get_and_register_with E get t bind_to s =
     (case instantiate E get t s of
        (Inl e, s1) \<Rightarrow> (Inl e, s1)
      | (Inr v, s1) \<Rightarrow> (Inr v, register v bind_to s1))"

primrec get_or_register_token_or_type :: "nat \<Rightarrow> classes \<Rightarrow> resolver" where
  "get_or_register_token_or_type 0 E = (\<lambda>k s. (Inl (Exc RecursionError ''maximum recursion depth exceeded''), s))"
| "get_or_register_token_or_type (Suc n) E = (\<lambda>k s.
     case map_of (instances_map s) k of
       Some v \<Rightarrow> (Inr v, s)
     | None \<Rightarrow> get_and_register_with E (get_or_register_token_or_type n E) (item_type k) k s)"

definition get_and_register :: "nat \<Rightarrow> classes \<Rightarrow> string \<Rightarrow> key \<Rightarrow> cst \<Rightarrow> pyval result \<times> cst" where
  "get_and_register n E = get_and_register_with E (get_or_register_token_or_type n E)"

subsection \<open>Providers\<close>

definition after_interceptors_of :: "classes \<Rightarrow> provider \<Rightarrow> bool result" where
  "after_interceptors_of E p =
     (case p of
        PSpec spec \<Rightarrow> Inr (ps_after_interceptors spec)
      | PClass c \<Rightarrow> (case c_after_interceptors E c of
                       Some b \<Rightarrow> Inr b
                     | None \<Rightarrow> Inl (Exc AttributeError ''after_interceptors'')))"

definition fill_provider :: "nat \<Rightarrow> classes \<Rightarrow> provider \<Rightarrow> cst \<Rightarrow> exc option \<times> cst" where
  "fill_provider n E p s =
     (let run = (\<lambda>t k. case get_and_register n E t k s of
            (Inl e, s1) \<Rightarrow> (Some e, s1) | (Inr v, s1) \<Rightarrow> (None, s1))
      in case p of
           PSpec spec \<Rightarrow>
             if py_truth (ps_use_value spec) then (None, register (ps_use_value spec) (ps_provide spec) s)
             else (case ps_use_class spec of
                     Some c \<Rightarrow> run c (ps_provide spec)
                   | None \<Rightarrow> (case ps_use_factory spec of
                                Some f \<Rightarrow> run f (ps_provide spec)
                              | None \<Rightarrow> (None, s)))
         | PClass c \<Rightarrow> run c (KType c))"

text \<open>The generator over the providers reads the attribute of each one when the loop reaches it.\<close>

fun fill_providers :: "nat \<Rightarrow> classes \<Rightarrow> bool \<Rightarrow> provider list \<Rightarrow> cst \<Rightarrow> exc option \<times> cst" where
  "fill_providers n E after_interceptors [] s = (None, s)"
| "fill_providers n E after_interceptors (p # ps) s =
     (case after_interceptors_of E p of
        Inl e \<Rightarrow> (Some e, s)
      | Inr b \<Rightarrow>
          if b \<noteq> after_interceptors then fill_providers n E after_interceptors ps s
          else (case fill_provider n E p s of
                  (Some e, s1) \<Rightarrow> (Some e, s1)
                | (None, s1) \<Rightarrow> fill_providers n E after_interceptors ps s1))"

text \<open>
  \<open>UnitOfWorkContextProvider.factory_app_interceptors\<close>: an interceptor instance is used as it is (\<open>Inr\<close>),
  a factory is resolved (\<open>Inl\<close>).
\<close>

fun factory_app_interceptors :: "nat \<Rightarrow> classes \<Rightarrow> (key + pyval) list \<Rightarrow> cst \<Rightarrow> pyval list result \<times> cst" where
  "factory_app_interceptors n E [] s = (Inr [], s)"
| "factory_app_interceptors n E (Inr v # ds) s =
     (case factory_app_interceptors n E ds s of (Inl e, s1) \<Rightarrow> (Inl e, s1) | (Inr vs, s1) \<Rightarrow> (Inr (v # vs), s1))"
| "factory_app_interceptors n E (Inl k # ds) s =
     (case get_or_register_token_or_type n E k s of
        (Inl e, s1) \<Rightarrow> (Inl e, s1)
      | (Inr v, s1) \<Rightarrow>
          (case factory_app_interceptors n E ds s1 of
             (Inl e, s2) \<Rightarrow> (Inl e, s2) | (Inr vs, s2) \<Rightarrow> (Inr (v # vs), s2)))"

subsection \<open>Acyclic dependencies\<close>

definition acyclic_by :: "(key \<Rightarrow> nat) \<Rightarrow> classes \<Rightarrow> bool" where
  "acyclic_by rank E = (\<forall>k ds. parse_dependencies E (item_type k) = Inr ds \<longrightarrow> (\<forall>(p, d) \<in> set ds. rank d < rank k))"

definition bound :: "cst \<Rightarrow> key set" where
  "bound s = dom (map_of (instances_map s))"

text \<open>
  What resolving a key of rank at most \<open>r\<close> does: bindings are kept, new ones have rank at most \<open>r\<close>, and at least
  as many calls were made as bindings were added, exactly as many when nothing failed.
\<close>

definition grows :: "(key \<Rightarrow> nat) \<Rightarrow> nat \<Rightarrow> cst \<Rightarrow> cst \<Rightarrow> bool" where
  "grows rank r s s' = (map_of (instances_map s) \<subseteq>\<^sub>m map_of (instances_map s')
     \<and> (\<forall>k \<in> bound s' - bound s. rank k < r))"

lemma finite_bound [simp]: "finite (bound s)"
  by (simp add: bound_def finite_dom_map_of)

lemma grows_bound: "grows rank r s s' \<Longrightarrow> bound s \<subseteq> bound s'"
  by (auto simp: grows_def bound_def map_le_def) (metis domI domIff)

lemma grows_refl [simp]: "grows rank r s s"
  by (simp add: grows_def)

lemma grows_trans: "grows rank r s s1 \<Longrightarrow> grows rank r s1 s2 \<Longrightarrow> grows rank r s s2"
  unfolding grows_def by (meson Diff_iff map_le_trans)

lemma grows_mono: "grows rank r s s' \<Longrightarrow> r \<le> r' \<Longrightarrow> grows rank r' s s'"
  by (force simp: grows_def)

definition made :: "cst \<Rightarrow> cst \<Rightarrow> bool" where
  "made s s' = (length (built s') = length (built s) + card (bound s' - bound s))"

lemma made_refl [simp]: "made s s"
  by (simp add: made_def)

lemma made_trans:
  assumes "grows rank r s s1" "grows rank r' s1 s2" "made s s1" "made s1 s2"
  shows "made s s2"
proof -
  have "bound s2 - bound s = (bound s1 - bound s) \<union> (bound s2 - bound s1)"
    "(bound s1 - bound s) \<inter> (bound s2 - bound s1) = {}"
    using grows_bound [OF assms(1)] grows_bound [OF assms(2)] by auto
  then have "card (bound s2 - bound s) = card (bound s1 - bound s) + card (bound s2 - bound s1)"
    by (simp add: card_Un_disjoint)
  then show ?thesis using assms(3,4) by (simp add: made_def)
qed

text \<open>What is assumed of, and then proved for, the resolver one stack frame below.\<close>

definition resolves :: "(key \<Rightarrow> nat) \<Rightarrow> nat \<Rightarrow> resolver \<Rightarrow> bool" where
  "resolves rank r get = (\<forall>k s res s'. rank k < r \<longrightarrow> get k s = (res, s') \<longrightarrow>
     grows rank (Suc (rank k)) s s'
     \<and> (\<forall>v. res = Inr v \<longrightarrow> made s s' \<and> map_of (instances_map s') k = Some v))"

lemma eval_dependencies_grows:
  assumes "resolves rank r get" "\<forall>(p, d) \<in> set ds. rank d < r" "eval_dependencies get ds s = (res, s')"
  shows "grows rank r s s' \<and> (\<forall>vs. res = Inr vs \<longrightarrow> made s s')"
  using assms(2,3)
proof (induction ds arbitrary: s res s')
  case (Cons x ds)
  obtain p d where x: "x = (p, d)" by fastforce
  obtain q s1 where g: "get d s = (q, s1)" by fastforce
  have d: "rank d < r" using Cons.prems(1) x by simp
  then have g1: "grows rank r s s1" "\<forall>v. q = Inr v \<longrightarrow> made s s1"
    using assms(1) g grows_mono [of rank "Suc (rank d)" s s1 r] by (auto simp: resolves_def)
  show ?case
  proof (cases q)
    case (Inl e)
    then show ?thesis using Cons.prems(2) g x g1 by auto
  next
    case (Inr v)
    obtain q' s2 where e: "eval_dependencies get ds s1 = (q', s2)" by fastforce
    have "grows rank r s1 s2" and "\<forall>vs. q' = Inr vs \<longrightarrow> made s1 s2" using Cons.IH [OF _ e] Cons.prems(1) by simp_all
    moreover have "s' = s2" and "\<forall>vs. res = Inr vs \<longrightarrow> (\<exists>ws. q' = Inr ws)"
      using Cons.prems(2) g x Inr e by (auto split: sum.splits)
    ultimately have "grows rank r s s'" "\<forall>vs. res = Inr vs \<longrightarrow> made s1 s'"
      using grows_trans [OF g1(1), of s'] by auto
    then show ?thesis using g1 Inr \<open>grows rank r s1 s2\<close> \<open>s' = s2\<close> made_trans [OF g1(1), of r s'] by blast
  qed
qed simp

lemma get_and_register_grows:
  assumes "resolves rank r get" "\<forall>ds. parse_dependencies E t = Inr ds \<longrightarrow> (\<forall>(p, d) \<in> set ds. rank d < r)"
    and "r \<le> rank k" "k \<notin> bound s" "get_and_register_with E get t k s = (res, s')"
  shows "grows rank (Suc (rank k)) s s'
    \<and> (\<forall>v. res = Inr v \<longrightarrow> made s s' \<and> map_of (instances_map s') k = Some v)"
proof (cases "parse_dependencies E t")
  case (Inl e)
  then show ?thesis using assms(5) by (auto simp: get_and_register_with_def instantiate_def)
next
  case (Inr ds)
  obtain q s1 where e: "eval_dependencies get ds s = (q, s1)" by fastforce
  have g: "grows rank r s s1" "\<forall>vs. q = Inr vs \<longrightarrow> made s s1"
    using eval_dependencies_grows [OF assms(1) _ e] assms(2) Inr by blast+
  then have k: "k \<notin> bound s1" using assms(3,4) by (force simp: grows_def)
  show ?thesis
  proof (cases q)
    case (Inl e')
    then show ?thesis using assms(3,5) Inr e g grows_mono [of rank r s s1 "Suc (rank k)"]
      by (auto simp: get_and_register_with_def instantiate_def)
  next
    case (Inr vs)
    define s2 where "s2 = s1\<lparr>built := built s1 @ [(t, vs)]\<rparr>"
    have s2: "bound s2 = bound s1" "instances_map s2 = instances_map s1" "length (built s2) = Suc (length (built s1))"
      by (simp_all add: s2_def bound_def)
    have g1: "grows rank (Suc (rank k)) s s1" using g(1) assms(3) grows_mono by (metis le_SucI)
    show ?thesis
    proof (cases "c_call E t vs (length (built s1))")
      case (Inl e')
      then have "s' = s2" "res = Inl e'"
        using assms(5) \<open>parse_dependencies E t = Inr ds\<close> e \<open>q = Inr vs\<close>
        by (auto simp: get_and_register_with_def instantiate_def s2_def)
      then show ?thesis using g1 s2 by (simp add: grows_def)
    next
      case (Inr v)
      then have s': "s' = register v k s2" "res = Inr v"
        using assms(5) \<open>parse_dependencies E t = Inr ds\<close> e \<open>q = Inr vs\<close>
        by (auto simp: get_and_register_with_def instantiate_def s2_def)
      have b: "bound s' = insert k (bound s1)" "built s' = built s2"
        "map_of (instances_map s') = (map_of (instances_map s1))(k \<mapsto> v)"
        by (auto simp: s'(1) register_def bound_def s2_def)
      have "map_of (instances_map s1) \<subseteq>\<^sub>m map_of (instances_map s')"
        using k by (auto simp: b(3) map_le_def bound_def)
      then have "grows rank (Suc (rank k)) s1 s'" by (auto simp: grows_def b(1))
      moreover have "made s1 s'" using k s2(3) by (simp add: made_def b(1,2) insert_Diff_if)
      ultimately show ?thesis using g1 g(2) \<open>q = Inr vs\<close> s'(2) b(3) grows_trans made_trans
        by (metis fun_upd_same sum.inject(2))
    qed
  qed
qed

lemma resolve_grows:
  assumes "acyclic_by rank E"
  shows "resolves rank r (get_or_register_token_or_type n E)"
proof (induction n arbitrary: r)
  case 0
  then show ?case by (simp add: resolves_def)
next
  case (Suc n)
  show ?case unfolding resolves_def
  proof (intro allI impI)
    fix k s res s'
    assume run: "get_or_register_token_or_type (Suc n) E k s = (res, s')"
    show "grows rank (Suc (rank k)) s s' \<and> (\<forall>v. res = Inr v \<longrightarrow> made s s' \<and> map_of (instances_map s') k = Some v)"
    proof (cases "map_of (instances_map s) k")
      case None
      then have "k \<notin> bound s" by (simp add: bound_def domIff)
      moreover have "get_and_register_with E (get_or_register_token_or_type n E) (item_type k) k s = (res, s')"
        using run None by simp
      moreover have "\<forall>ds. parse_dependencies E (item_type k) = Inr ds \<longrightarrow> (\<forall>(p, d) \<in> set ds. rank d < rank k)"
        using assms unfolding acyclic_by_def by blast
      ultimately show ?thesis
        using get_and_register_grows [OF Suc.IH [of "rank k"] _ order_refl] by blast
    next
      case (Some v)
      then show ?thesis using run by auto
    qed
  qed
qed

lemma eval_dependencies_total:
  assumes "\<And>d s. d \<in> snd ` set ds \<Longrightarrow> \<exists>v s'. get d s = (Inr v, s')"
  shows "\<exists>vs s'. eval_dependencies get ds s = (Inr vs, s')"
  using assms
proof (induction ds arbitrary: s)
  case (Cons x ds)
  obtain p d where x: "x = (p, d)" by fastforce
  obtain v s1 where "get d s = (Inr v, s1)" using Cons.prems [of d s] x by auto
  moreover have "\<exists>vs s'. eval_dependencies get ds s1 = (Inr vs, s')" using Cons.prems by (intro Cons.IH) simp
  then obtain vs s2 where "eval_dependencies get ds s1 = (Inr vs, s2)" by blast
  ultimately show ?case by (simp add: x)
qed simp

lemma resolve_total:
  assumes "acyclic_by rank E" "\<forall>t. \<exists>ds. parse_dependencies E t = Inr ds"
    and "\<forall>t vs i. \<exists>v. c_call E t vs i = Inr v"
  shows "rank k < n \<Longrightarrow> \<exists>v s'. get_or_register_token_or_type n E k s = (Inr v, s')"
proof (induction n arbitrary: k s)
  case (Suc n)
  show ?case
  proof (cases "map_of (instances_map s) k")
    case None
    obtain ds where ds: "parse_dependencies E (item_type k) = Inr ds" using assms(2) by blast
    have "\<exists>v s'. get_or_register_token_or_type n E d s = (Inr v, s')" if "d \<in> snd ` set ds" for d s
    proof -
      have "rank d < rank k" using assms(1) ds that unfolding acyclic_by_def by fastforce
      then show ?thesis using Suc by simp
    qed
    then obtain vs s1 where "eval_dependencies (get_or_register_token_or_type n E) ds s = (Inr vs, s1)"
      using eval_dependencies_total [of ds] by blast
    moreover obtain v where "c_call E (item_type k) vs (length (built s1)) = Inr v" using assms(3) by blast
    ultimately show ?thesis using None ds by (simp add: get_and_register_with_def instantiate_def)
  qed simp
qed simp

subsection \<open>Properties\<close>

text \<open>
  (C15) The container is a cache of singletons. With acyclic dependencies, a stack deeper than the
  dependency chain and constructors that return, resolving a key succeeds; every binding there was stays as it is;
  exactly one constructor call is made for each key bound; and resolving the key again later, in any state
  that keeps the binding, returns the same object and calls nothing.
\<close>

theorem container_resolves_each_key_once:
  assumes "acyclic_by rank E" "\<forall>t. \<exists>ds. parse_dependencies E t = Inr ds"
    and "\<forall>t vs i. \<exists>v. c_call E t vs i = Inr v" and "rank k < n"
  shows "\<exists>v s'. get_or_register_token_or_type n E k s = (Inr v, s')
    \<and> map_of (instances_map s) \<subseteq>\<^sub>m map_of (instances_map s')
    \<and> length (built s') = length (built s) + card (bound s' - bound s)
    \<and> (\<forall>m s''. map_of (instances_map s') \<subseteq>\<^sub>m map_of (instances_map s'') \<longrightarrow>
         get_or_register_token_or_type (Suc m) E k s'' = (Inr v, s''))"
proof -
  obtain v s' where run: "get_or_register_token_or_type n E k s = (Inr v, s')"
    using resolve_total [OF assms] by blast
  have res: "grows rank (Suc (rank k)) s s'" "made s s'" "map_of (instances_map s') k = Some v"
    using resolve_grows [OF assms(1), of "Suc (rank k)" n] run by (auto simp: resolves_def)
  have "get_or_register_token_or_type (Suc m) E k s'' = (Inr v, s'')"
    if "map_of (instances_map s') \<subseteq>\<^sub>m map_of (instances_map s'')" for m s''
  proof -
    have "map_of (instances_map s'') k = Some v" using that res(3) by (metis domI map_le_def)
    then show ?thesis by simp
  qed
  then show ?thesis using run res(1,2) by (auto simp: grows_def made_def)
qed

text \<open>An application with a service that depends on a repository.\<close>

definition sample_classes :: classes where
  "sample_classes = \<lparr>c_signature = (\<lambda>t. if t = ''Service''
       then Inr [\<lparr>p_name = ''repo'', p_annotation = Some (Plain (KType ''Repo''))\<rparr>] else Inr []),
     c_call = (\<lambda>t vs i. Inr (VObject i)), c_after_interceptors = (\<lambda>_. None)\<rparr>"

definition sample_rank :: "key \<Rightarrow> nat" where
  "sample_rank k = (if item_type k = ''Service'' then 1 else 0)"

definition empty_container :: cst where
  "empty_container = \<lparr>instances_map = [], built = []\<rparr>"

lemma sample_acyclic: "acyclic_by sample_rank sample_classes"
  by (auto simp: acyclic_by_def sample_rank_def sample_classes_def parse_dependencies_def lookup_parameter_type_def
      split: if_splits)

theorem container_resolves_each_key_once_witness:
  "\<exists>v s'. get_or_register_token_or_type 2 sample_classes (KType ''Service'') empty_container = (Inr v, s')
    \<and> map_of (instances_map empty_container) \<subseteq>\<^sub>m map_of (instances_map s')
    \<and> length (built s') = length (built empty_container) + card (bound s' - bound empty_container)
    \<and> (\<forall>m s''. map_of (instances_map s') \<subseteq>\<^sub>m map_of (instances_map s'') \<longrightarrow>
         get_or_register_token_or_type (Suc m) sample_classes (KType ''Service'') s'' = (Inr v, s''))"
  by (rule container_resolves_each_key_once [OF sample_acyclic])
     (auto simp: sample_rank_def sample_classes_def parse_dependencies_def lookup_parameter_type_def)

text \<open>
  Providers are always built anew. When a provider is built whose dependency is provided later in the list,
  the dependency exists twice: the first provider keeps an object that is no longer the one the
  container hands out.
\<close>

theorem provider_order_duplicates_dependency:
  assumes "a \<noteq> b" "parse_dependencies E a = Inr [(p, KType b)]" "parse_dependencies E b = Inr []"
    and "\<forall>t vs i. c_call E t vs i = Inr (VObject i)"
  shows "fill_providers (Suc n) E False
      [PSpec \<lparr>ps_provide = KType a, ps_use_value = VNone, ps_use_factory = None, ps_use_class = Some a,
              ps_after_interceptors = False\<rparr>,
       PSpec \<lparr>ps_provide = KType b, ps_use_value = VNone, ps_use_factory = None, ps_use_class = Some b,
              ps_after_interceptors = False\<rparr>] empty_container =
    (None, \<lparr>instances_map = [(KType b, VObject 2), (KType a, VObject 1)],
            built = [(b, []), (a, [(p, VObject 0)]), (b, [])]\<rparr>)"
  using assms
  by (simp add: after_interceptors_of_def fill_provider_def get_and_register_def get_and_register_with_def
      instantiate_def register_def empty_container_def Let_def)

theorem provider_order_duplicates_dependency_witness:
  "map_of (instances_map (snd (fill_providers 1 sample_classes False
      [PSpec \<lparr>ps_provide = KType ''Service'', ps_use_value = VNone, ps_use_factory = None,
              ps_use_class = Some ''Service'', ps_after_interceptors = False\<rparr>,
       PSpec \<lparr>ps_provide = KType ''Repo'', ps_use_value = VNone, ps_use_factory = None,
              ps_use_class = Some ''Repo'', ps_after_interceptors = False\<rparr>] empty_container))) (KType ''Repo'') =
   Some (VObject 2)"
  using provider_order_duplicates_dependency [of "''Service''" "''Repo''" sample_classes "''repo''" 0]
  by (simp add: sample_classes_def parse_dependencies_def lookup_parameter_type_def)

text \<open>
  A class given as a provider, without a class attribute \<open>after_interceptors\<close>, makes filling raise
  \<open>AttributeError\<close>, and a falsy value is not registered.
\<close>

theorem class_and_falsy_providers:
  assumes "c_after_interceptors E c = None" "\<not> py_truth v"
  shows "fill_providers n E after (PClass c # ps) s = (Some (Exc AttributeError ''after_interceptors''), s)
    \<and> fill_providers n E False [PSpec \<lparr>ps_provide = k, ps_use_value = v, ps_use_factory = None,
          ps_use_class = None, ps_after_interceptors = False\<rparr>] s = (None, s)"
  using assms by (simp add: after_interceptors_of_def fill_provider_def Let_def)

theorem class_and_falsy_providers_witness:
  "fill_providers 5 sample_classes False [PClass ''Repo''] empty_container =
     (Some (Exc AttributeError ''after_interceptors''), empty_container)"
  using class_and_falsy_providers [of sample_classes "''Repo''" "VInt 0" 5 False "[]" empty_container "KType ''x''"]
  by (simp add: sample_classes_def)

end
