(* ===== verification/Websockets.thy ===== *)
theory Websockets
  imports Unit_Of_Work
begin

section \<open>WebSocket rooms\<close>

text \<open>
  \<^verbatim>\<open>presentation/websocket/\<close>: the manager of rooms and sockets (\<^verbatim>\<open>websocket_interceptor.py\<close>), the staging sender, the
  interceptor, and the Redis backend that carries messages between processes (\<^verbatim>\<open>redis.py\<close>). A socket is
  a number; a set of sockets is a list without duplicates. Sending to a socket is a call with an arbitrary answer.
\<close>

subsection \<open>The messages of the Redis backend\<close>

abbreviation NUL :: char where "NUL \<equiv> CHR 0x00"

definition broadcast_encode :: "string \<Rightarrow> string" where
  "broadcast_encode message = message"

definition broadcast_decode :: "string \<Rightarrow> string" where
  "broadcast_decode data = data"

definition send_encode :: "string list \<Rightarrow> string \<Rightarrow> string" where
  "send_encode rooms message = py_join [NUL] [py_join [CHR '',''] rooms, message]"

definition send_decode :: "string \<Rightarrow> (string list \<times> string) result" where
  "send_decode data =
     (case py_split NUL data of
        [rooms, message] \<Rightarrow> Inr (py_split CHR '','' rooms, message)
      | _ \<Rightarrow> Inl (Exc ValueError ''cannot unpack the parts of a message''))"

subsection \<open>The connection manager\<close>

record socket_state =
  application_connected :: bool
  client_connected :: bool

record ws_world = "(nat \<times> string, exc option) world" +
  sockets :: "nat \<Rightarrow> socket_state"

record manager =
  rooms :: "(string \<times> nat list) list"
  all_websockets :: "nat list"

definition is_ws_connected :: "socket_state \<Rightarrow> bool" where
  "is_ws_connected s = (application_connected s \<and> client_connected s)"

definition set_add :: "nat \<Rightarrow> nat list \<Rightarrow> nat list" where
  "set_add x xs = (if x \<in> set xs then xs else xs @ [x])"

definition discard :: "nat \<Rightarrow> nat list \<Rightarrow> nat list" where
  "discard x xs = filter (\<lambda>y. y \<noteq> x) xs"

definition try_send :: "nat \<Rightarrow> string \<Rightarrow> ws_world \<Rightarrow> bool result \<times> ws_world" where
  "try_send websocket message w =
     (if \<not> is_ws_connected (sockets w websocket) then (Inr False, w)
      else case do_call (websocket, message) w of
             (None, w1) \<Rightarrow> (Inr True, w1)
           | (Some e, w1) \<Rightarrow>
               if exc_cls e = WebSocketDisconnect \<or> exc_cls e = RuntimeError then (Inr False, w1) else (Inl e, w1))"

text \<open>The list comprehension over the sockets: the ones the message could not be sent to.\<close>

fun send_all :: "nat list \<Rightarrow> string \<Rightarrow> ws_world \<Rightarrow> nat list result \<times> ws_world" where
  "send_all [] message w = (Inr [], w)"
| "send_all (s # ss) message w =
     (case try_send s message w of
        (Inl e, w1) \<Rightarrow> (Inl e, w1)
      | (Inr ok, w1) \<Rightarrow>
          (case send_all ss message w1 of
             (Inl e, w2) \<Rightarrow> (Inl e, w2)
           | (Inr dropped, w2) \<Rightarrow> (Inr (if ok then dropped else s # dropped), w2)))"

definition forget_one :: "nat \<Rightarrow> manager \<Rightarrow> manager" where
  "forget_one s m = m\<lparr>all_websockets := discard s (all_websockets m),
     rooms := map (\<lambda>(r, members). (r, discard s members)) (rooms m)\<rparr>"

definition forget :: "nat list \<Rightarrow> manager \<Rightarrow> manager" where
  "forget websockets m = fold forget_one websockets m"

definition remove_websocket :: "nat \<Rightarrow> manager \<Rightarrow> manager" where
  "remove_websocket websocket m = forget_one websocket m"

definition add_websocket :: "nat \<Rightarrow> manager \<Rightarrow> manager" where
  "add_websocket websocket m = m\<lparr>all_websockets := set_add websocket (all_websockets m)\<rparr>"

definition members_of :: "manager \<Rightarrow> string \<Rightarrow> nat list" where
  "members_of m room = (case map_of (rooms m) room of Some ms \<Rightarrow> ms | None \<Rightarrow> [])"

fun join :: "string list \<Rightarrow> nat \<Rightarrow> manager \<Rightarrow> manager" where
  "join [] websocket m = m"
| "join (room # rs) websocket m =
     join rs websocket (m\<lparr>rooms := dict_set room (set_add websocket (members_of m room)) (rooms m)\<rparr>)"

definition room_targets :: "manager \<Rightarrow> string list \<Rightarrow> nat list" where
  "room_targets m rs = fold (\<lambda>room ts. fold set_add (members_of m room) ts) rs []"

definition deliver :: "nat list \<Rightarrow> string \<Rightarrow> manager \<times> ws_world \<Rightarrow> exc option \<times> manager \<times> ws_world" where
  "deliver targets message s =
     (case send_all targets message (snd s) of
        (Inl e, w) \<Rightarrow> (Some e, fst s, w)
      | (Inr dropped, w) \<Rightarrow> (None, forget dropped (fst s), w))"

definition send_from_backend :: "string list \<Rightarrow> string \<Rightarrow> manager \<times> ws_world \<Rightarrow> exc option \<times> manager \<times> ws_world" where
  "send_from_backend rs message s = deliver (room_targets (fst s) rs) message s"

definition broadcast_from_backend :: "string \<Rightarrow> manager \<times> ws_world \<Rightarrow> exc option \<times> manager \<times> ws_world" where
  "broadcast_from_backend message s = deliver (all_websockets (fst s)) message s"

subsection \<open>Staging\<close>

text \<open>
  \<open>StagingWebSocketMessageSender.flush\<close>: each staged message is one call of the backend; the list is cleared only when all of
  them were sent.
\<close>

fun flush_staged :: "(string list \<times> string) list \<Rightarrow> (string list \<times> string, exc option) world \<Rightarrow>
   exc option \<times> (string list \<times> string, exc option) world" where
  "flush_staged [] w = (None, w)"
| "flush_staged (x # xs) w =
     (case do_call x w of (Some e, w1) \<Rightarrow> (Some e, w1) | (None, w1) \<Rightarrow> flush_staged xs w1)"

record staging = app_vars +
  staged :: "(string list \<times> string) list"
  backend_calls :: "(string list \<times> string, exc option) world"

text \<open>The interceptor: nothing is flushed when the body fails.\<close>

definition websocket_interceptor :: "'z staging_scheme interceptor" where
  "websocket_interceptor =
     \<lparr>aenter = (\<lambda>s. (None, s\<lparr>staged := []\<rparr>)),
      aexit = (\<lambda>exc s. case exc of
         Some e \<Rightarrow> (Inr False, s)
       | None \<Rightarrow> (case flush_staged (staged s) (backend_calls s) of
                    (Some e, w) \<Rightarrow> (Inl e, s\<lparr>backend_calls := w\<rparr>)
                  | (None, w) \<Rightarrow> (Inr False, s\<lparr>backend_calls := w, staged := []\<rparr>)))\<rparr>"

interpretation websocket: app_interceptor websocket_interceptor
  by unfold_locales (simp add: websocket_interceptor_def)

subsection \<open>The consumers of the Redis backend\<close>

text \<open>
  The consumer of the send channel and the tasks it starts. \<open>permits\<close> is the semaphore. A message that
  cannot be decoded ends the consumer task; its callback sets it up again after a delay, unless the
  backend is shutting down.
\<close>

record backend =
  permits :: nat
  live :: "(nat \<times> string list \<times> string) list"
  next_task :: nat
  consuming :: bool
  shutting_down :: bool

definition backend_init :: "nat \<Rightarrow> backend" where
  "backend_init max_concurrent_tasks =
     \<lparr>permits = max_concurrent_tasks, live = [], next_task = 0, consuming = True, shutting_down = False\<rparr>"

definition consume_one :: "string \<Rightarrow> backend \<Rightarrow> backend option" where
  "consume_one data b =
     (if \<not> consuming b \<or> shutting_down b then None
      else case send_decode data of
             Inl e \<Rightarrow> Some (b\<lparr>consuming := False\<rparr>)
           | Inr (rs, message) \<Rightarrow>
               (case permits b of
                  0 \<Rightarrow> None
                | Suc n \<Rightarrow> Some (b\<lparr>permits := n, live := live b @ [(next_task b, rs, message)],
                                    next_task := Suc (next_task b)\<rparr>)))"

inductive backend_step :: "backend \<Rightarrow> backend \<Rightarrow> bool" where
  receive: "consume_one data b = Some b' \<Longrightarrow> backend_step b b'"
| task_done: "x \<in> set (live b) \<Longrightarrow>
    backend_step b (b\<lparr>live := remove1 x (live b), permits := Suc (permits b)\<rparr>)"
| restart: "\<not> consuming b \<Longrightarrow> \<not> shutting_down b \<Longrightarrow> backend_step b (b\<lparr>consuming := True\<rparr>)"
| shut_down: "backend_step b (b\<lparr>shutting_down := True\<rparr>)"

inductive backend_reach :: "nat \<Rightarrow> backend \<Rightarrow> bool" for limit where
  init: "backend_reach limit (backend_init limit)"
| step: "backend_reach limit b \<Longrightarrow> backend_step b b' \<Longrightarrow> backend_reach limit b'"

subsection \<open>Lemmas\<close>

lemma set_set_add [simp]: "set (set_add x xs) = insert x (set xs)"
  by (auto simp: set_add_def)

lemma distinct_set_add [simp]: "distinct (set_add x xs) = distinct xs"
  by (auto simp: set_add_def)

lemma set_discard [simp]: "set (discard x xs) = set xs - {x}"
  by (auto simp: discard_def)

lemma fold_set_add: "set (fold set_add ys xs) = set xs \<union> set ys" "distinct xs \<Longrightarrow> distinct (fold set_add ys xs)"
  by (induction ys arbitrary: xs) auto

lemma room_targets: "set (room_targets m rs) = (\<Union>r \<in> set rs. set (members_of m r))" "distinct (room_targets m rs)"
proof -
  have "set (fold (\<lambda>room ts. fold set_add (members_of m room) ts) rs xs) = set xs \<union> (\<Union>r \<in> set rs. set (members_of m r))
      \<and> (distinct xs \<longrightarrow> distinct (fold (\<lambda>room ts. fold set_add (members_of m room) ts) rs xs))" for xs
    by (induction rs arbitrary: xs) (auto simp: fold_set_add)
  from this [of "[]"] show "set (room_targets m rs) = (\<Union>r \<in> set rs. set (members_of m r))" "distinct (room_targets m rs)"
    by (simp_all add: room_targets_def)
qed

lemma members_forget_one [simp]: "set (members_of (forget_one s m) r) = set (members_of m r) - {s}"
proof -
  have "map_of (map (\<lambda>(r, ms). (r, discard s ms)) xs) r = map_option (discard s) (map_of xs r)" for xs
    by (induction xs) auto
  then show ?thesis by (auto simp: members_of_def forget_one_def split: option.splits)
qed

lemma forget_sets:
  "set (members_of (forget ss m) r) = set (members_of m r) - set ss"
  "set (all_websockets (forget ss m)) = set (all_websockets m) - set ss"
proof -
  have "set (members_of (fold forget_one ss m) r) = set (members_of m r) - set ss
      \<and> set (all_websockets (fold forget_one ss m)) = set (all_websockets m) - set ss"
  proof (induction ss arbitrary: m)
    case (Cons s ss)
    have "set (all_websockets (forget_one s m)) = set (all_websockets m) - {s}" by (simp add: forget_one_def)
    with Cons [of "forget_one s m"] show ?case by auto
  qed simp
  then show "set (members_of (forget ss m) r) = set (members_of m r) - set ss"
    "set (all_websockets (forget ss m)) = set (all_websockets m) - set ss" by (simp_all add: forget_def)
qed

text \<open>The sockets a message could not be sent to, given the answers of the sends.\<close>

definition failed_sends :: "nat list \<Rightarrow> ws_world \<Rightarrow> nat set" where
  "failed_sends ss w =
     {s \<in> set ss. \<not> is_ws_connected (sockets w s)}
     \<union> {s. \<exists>i < length (filter (\<lambda>s. is_ws_connected (sockets w s)) ss). answers w (length (calls w) + i) \<noteq> None
              \<and> s = filter (\<lambda>s. is_ws_connected (sockets w s)) ss ! i}"

lemma failed_sends_connected:
  assumes "is_ws_connected (sockets w s)"
  shows "failed_sends (s # ss) w = (if answers w (length (calls w)) \<noteq> None then {s} else {})
    \<union> failed_sends ss (w\<lparr>calls := calls w @ [c]\<rparr>)"
  using assms by (auto simp: failed_sends_def Ex_less_Suc2)

lemma send_all_run:
  "send_all ss message w = (Inr dropped, w') \<Longrightarrow>
   w' = w\<lparr>calls := calls w @ map (\<lambda>s. (s, message)) (filter (\<lambda>s. is_ws_connected (sockets w s)) ss)\<rparr>
   \<and> set dropped = failed_sends ss w"
proof (induction ss arbitrary: w dropped)
  case Nil
  then show ?case by (simp add: failed_sends_def)
next
  case (Cons s ss)
  obtain ok w1 where t: "try_send s message w = (Inr ok, w1)"
    using Cons.prems by (auto split: prod.splits sum.splits)
  obtain d where d: "send_all ss message w1 = (Inr d, w')" "dropped = (if ok then d else s # d)"
    using Cons.prems t by (auto split: prod.splits sum.splits)
  show ?case
  proof (cases "is_ws_connected (sockets w s)")
    case True
    have w1: "w1 = w\<lparr>calls := calls w @ [(s, message)]\<rparr>" "ok = (answers w (length (calls w)) = None)"
      using t True by (auto simp: try_send_def do_call_def split: option.splits if_splits)
    show ?thesis using Cons.IH [OF d(1)] True d(2) w1
      by (auto simp: failed_sends_connected [OF True, of ss "(s, message)"])
  next
    case False
    then have w1: "w1 = w" "\<not> ok" using t by (auto simp: try_send_def)
    then show ?thesis using Cons.IH [OF d(1)] False d(2) by (auto simp: failed_sends_def)
  qed
qed

subsection \<open>Properties\<close>

text \<open>
  A message to rooms: every connected member of any of the rooms is sent the message exactly once and nobody else is sent anything;
  afterwards exactly the sockets that were not connected, or whose send failed, are gone, from every
  room and from the list of all sockets.
\<close>

theorem room_message_sent_once_to_each_member:
  assumes "send_from_backend rs message (m, w) = (None, m', w')"
  shows "\<exists>targets. calls w' = calls w @ map (\<lambda>s. (s, message)) targets \<and> distinct targets
      \<and> set targets = {s. (\<exists>r \<in> set rs. s \<in> set (members_of m r)) \<and> is_ws_connected (sockets w s)}
    \<and> set (members_of m' room) = set (members_of m room) - failed_sends (room_targets m rs) w
    \<and> set (all_websockets m') = set (all_websockets m) - failed_sends (room_targets m rs) w"
proof -
  obtain dropped where d: "send_all (room_targets m rs) message w = (Inr dropped, w')" "m' = forget dropped m"
    using assms by (auto simp: send_from_backend_def deliver_def split: prod.splits sum.splits)
  from send_all_run [OF d(1)] d(2) show ?thesis
    by (intro exI [of _ "filter (\<lambda>s. is_ws_connected (sockets w s)) (room_targets m rs)"])
       (auto simp: forget_sets room_targets)
qed

definition sample_manager :: manager where
  "sample_manager = add_websocket 2 (add_websocket 1 (join [''b''] 2 (join [''a'', ''b''] 1 \<lparr>rooms = [], all_websockets = []\<rparr>)))"

definition sample_ws :: ws_world where
  "sample_ws = \<lparr>calls = [], answers = (\<lambda>i. if i = 1 then Some (Exc RuntimeError ''closed'') else None),
     sockets = (\<lambda>_. \<lparr>application_connected = True, client_connected = True\<rparr>)\<rparr>"

lemmas ws_eval = sample_manager_def sample_ws_def add_websocket_def members_of_def set_add_def discard_def
  send_from_backend_def deliver_def room_targets_def try_send_def is_ws_connected_def do_call_def
  forget_def forget_one_def

theorem room_message_sent_once_to_each_member_witness:
  "set (members_of (fst (snd (send_from_backend [''a'', ''b''] ''hi'' (sample_manager, sample_ws)))) ''b'') = {1}"
proof -
  have run: "send_from_backend [''a'', ''b''] ''hi'' (sample_manager, sample_ws) =
      (None, fst (snd (send_from_backend [''a'', ''b''] ''hi'' (sample_manager, sample_ws))),
       snd (snd (send_from_backend [''a'', ''b''] ''hi'' (sample_manager, sample_ws))))"
    by (simp add: ws_eval)
  have "failed_sends (room_targets sample_manager [''a'', ''b'']) sample_ws = {2}"
    by (auto simp: ws_eval failed_sends_def less_Suc_eq)
  moreover have "set (members_of sample_manager ''b'') = {1, 2}" by (auto simp: ws_eval)
  ultimately show ?thesis using room_message_sent_once_to_each_member [OF run, of "''b''"] by auto
qed

text \<open>
  The encoding of a message to rooms is decoded to the same rooms and message, when there is a room, no
  room name holds a comma or a NUL, and the message holds no NUL.
\<close>

theorem room_message_codec_roundtrip:
  assumes "rs \<noteq> []" "\<forall>r \<in> set rs. CHR '','' \<notin> set r \<and> NUL \<notin> set r" "NUL \<notin> set message"
  shows "send_decode (send_encode rs message) = Inr (rs, message)"
proof -
  have "NUL \<notin> set (py_join [CHR '',''] rs)" using assms(2) set_py_join [of "[CHR '','']" rs] by auto
  then have "py_split NUL (send_encode rs message) = [py_join [CHR '',''] rs, message]"
    using assms(3) by (simp add: send_encode_def py_split_append_sep py_split_no_sep)
  then show ?thesis using py_split_join [of rs "CHR '',''"] assms(1,2) by (simp add: send_decode_def)
qed

theorem room_message_codec_roundtrip_witness:
  "send_decode (send_encode [''lobby'', ''game''] ''{}'') = Inr ([''lobby'', ''game''], ''{}'')"
  by (rule room_message_codec_roundtrip) simp_all

text \<open>A room whose name holds a comma is decoded as two rooms; a NUL in a room name stops the consumer.\<close>

theorem room_names_with_separators:
  assumes "CHR '','' \<notin> set a" "NUL \<notin> set a" "CHR '','' \<notin> set b" "NUL \<notin> set b" "NUL \<notin> set message"
    and "consuming s" "\<not> shutting_down s"
  shows "send_decode (send_encode [a @ '','' @ b] message) = Inr ([a, b], message)
    \<and> consume_one (send_encode [a @ [NUL] @ b] message) s = Some (s\<lparr>consuming := False\<rparr>)"
proof -
  have "py_split NUL (send_encode [a @ '','' @ b] message) = [a @ '','' @ b, message]"
    using assms(2,4,5) py_split_append_sep [of NUL "a @ '','' @ b" message]
    by (simp add: send_encode_def py_split_no_sep)
  moreover have "py_split CHR '','' (a @ '','' @ b) = [a, b]"
    using assms(1,3) by (simp add: py_split_append_sep py_split_no_sep)
  moreover have "py_split NUL (send_encode [a @ [NUL] @ b] message) = [a, b, message]"
    using assms(2,4,5) by (simp add: send_encode_def py_split_append_sep py_split_no_sep)
  ultimately show ?thesis using assms(6,7) by (simp add: send_decode_def consume_one_def)
qed

theorem room_names_with_separators_witness:
  "send_decode (send_encode [''a,b''] ''{}'') = Inr ([''a'', ''b''], ''{}'')"
  using room_names_with_separators [of "''a''" "''b''" "''{}''" "backend_init 1"]
  by (simp add: backend_init_def)

text \<open>Staged messages leave in order after a body that returned, and not at all after one that failed.\<close>

lemma flush_staged_ok:
  "\<forall>i. answers w i = None \<Longrightarrow> flush_staged xs w = (None, w\<lparr>calls := calls w @ xs\<rparr>)"
  by (induction xs arbitrary: w) (simp_all add: do_call_def)

lemma staged_messages_flushed_on_success:
  "aexit websocket_interceptor (Some e) s = (Inr False, s)"
  "\<forall>i. answers (backend_calls s) i = None \<Longrightarrow> aexit websocket_interceptor None s =
     (Inr False, s\<lparr>backend_calls := (backend_calls s)\<lparr>calls := calls (backend_calls s) @ staged s\<rparr>, staged := []\<rparr>)"
  by (simp_all add: websocket_interceptor_def flush_staged_ok)

text \<open>
  Backpressure: in every reachable state the running delivery tasks and the free permits of the semaphore
  add up to \<open>max_concurrent_tasks\<close>, so no more tasks than that run and no permit is lost.
\<close>

theorem delivery_tasks_bounded:
  assumes "backend_reach limit b"
  shows "permits b + length (live b) = limit"
  using assms
proof induction
  case (step b b')
  from step.hyps(2) show ?case
  proof cases
    case (receive data)
    then show ?thesis using step.IH
      by (auto simp: consume_one_def split: if_splits sum.splits nat.splits)
  next
    case (task_done x)
    then obtain n where "length (live b) = Suc n" by (metis length_pos_if_in_set gr0_implies_Suc)
    then show ?thesis using task_done step.IH by (simp add: length_remove1)
  qed (use step.IH in simp_all)
qed (simp add: backend_init_def)

theorem delivery_tasks_bounded_witness:
  "let b = the (consume_one (send_encode [''a''] ''{}'') (backend_init 2)) in permits b + length (live b) = 2"
proof -
  have "consume_one (send_encode [''a''] ''{}'') (backend_init 2) =
      Some (the (consume_one (send_encode [''a''] ''{}'') (backend_init 2)))"
    by (simp add: consume_one_def backend_init_def send_decode_def send_encode_def numeral_2_eq_2)
  then have "backend_reach 2 (the (consume_one (send_encode [''a''] ''{}'') (backend_init 2)))"
    using backend_reach.init backend_reach.step backend_step.receive by blast
  from delivery_tasks_bounded [OF this] show ?thesis by (simp add: Let_def)
qed

end
