(* ===== verification/Py_Text.thy ===== *)
theory Py_Text
  imports Prelude
begin

section \<open>Text functions of the standard library\<close>

text \<open>
  What the components that read or print text use of Python's standard library: substitution and search in
  strings, \<open>repr\<close>, the pattern for integers, \<open>datetime.strptime\<close> for the two formats of the filters, and
  \<open>uuid.UUID\<close>. Each is executable; the lemmas show that parsing undoes printing.
\<close>

subsection \<open>Search and substitution\<close>

definition py_endswith :: "string \<Rightarrow> string \<Rightarrow> bool" where
  "py_endswith s p = py_startswith (rev s) (rev p)"

fun py_contains :: "string \<Rightarrow> string \<Rightarrow> bool" where
  "py_contains p [] = (p = [])"
| "py_contains p (c # cs) = (py_startswith (c # cs) p \<or> py_contains p cs)"

text \<open>\<open>s.replace(old, new)\<close> for a non-empty \<open>old\<close>: occurrences from the left, not overlapping.\<close>

fun py_replace :: "string \<Rightarrow> string \<Rightarrow> string \<Rightarrow> string" where
  "py_replace old new [] = []"
| "py_replace old new (c # cs) =
     (if old \<noteq> [] \<and> py_startswith (c # cs) old then new @ py_replace old new (drop (length old - 1) cs)
      else c # py_replace old new cs)"

text \<open>\<open>s.strip(chars)\<close>\<close>

definition strip_chars :: "string \<Rightarrow> string \<Rightarrow> string" where
  "strip_chars cs s = rev (dropWhile (\<lambda>c. c \<in> set cs) (rev (dropWhile (\<lambda>c. c \<in> set cs) s)))"

text \<open>\<open>s.split(sep, 1)\<close> as the part before and, when the separator occurs, the part after it.\<close>

fun split_once :: "char \<Rightarrow> string \<Rightarrow> string \<times> string option" where
  "split_once sep [] = ([], None)"
| "split_once sep (c # cs) =
     (if c = sep then ([], Some cs) else (case split_once sep cs of (a, b) \<Rightarrow> (c # a, b)))"

subsection \<open>\<open>repr\<close> of a string\<close>

definition hex_digit :: "nat \<Rightarrow> char" where
  "hex_digit d = (if d < 10 then char_of (48 + d) else char_of (87 + d))"

abbreviation apostrophe :: char where "apostrophe \<equiv> CHR 0x27"
abbreviation quotation :: char where "quotation \<equiv> CHR 0x22"
abbreviation backslash :: char where "backslash \<equiv> CHR 0x5C"
abbreviation newline :: char where "newline \<equiv> CHR 0x0A"

definition repr_char :: "char \<Rightarrow> char \<Rightarrow> string" where
  "repr_char q c =
     (if c = q \<or> c = backslash then [backslash, c]
      else if c = CHR 0x0A then [backslash, CHR ''n'']
      else if c = CHR 0x0D then [backslash, CHR ''r'']
      else if c = CHR 0x09 then [backslash, CHR ''t'']
      else if code c < 32 \<or> 127 \<le> code c \<and> code c \<le> 160 \<or> code c = 173
      then [backslash, CHR ''x'', hex_digit (code c div 16), hex_digit (code c mod 16)]
      else [c])"

definition py_repr :: "string \<Rightarrow> string" where
  "py_repr s =
     (let q = (if apostrophe \<in> set s \<and> quotation \<notin> set s then quotation else apostrophe)
      in q # concat (map (repr_char q) s) @ [q])"

subsection \<open>Numbers\<close>

text \<open>\<open>re.match(r"^-?\d+$", s)\<close>; the dollar also matches before a final newline.\<close>

definition int_pattern :: "string \<Rightarrow> bool" where
  "int_pattern s =
     (let t = (if s \<noteq> [] \<and> hd s = CHR ''-'' then tl s else s);
          u = (if t \<noteq> [] \<and> last t = newline then butlast t else t)
      in py_isdigit u)"

definition is_hex :: "char \<Rightarrow> bool" where
  "is_hex c = (is_digit c \<or> 65 \<le> code c \<and> code c \<le> 70 \<or> 97 \<le> code c \<and> code c \<le> 102)"

definition hex_val :: "char \<Rightarrow> nat" where
  "hex_val c = (if is_digit c then digit_val c else if code c \<le> 70 then code c - 55 else code c - 87)"

fun parse_hex :: "nat \<Rightarrow> bool \<Rightarrow> string \<Rightarrow> nat option" where
  "parse_hex acc dig [] = (if dig then Some acc else None)"
| "parse_hex acc dig (c # cs) =
     (if is_hex c then parse_hex (16 * acc + hex_val c) True cs
      else if c = CHR ''_'' \<and> dig then parse_hex acc False cs
      else None)"

text \<open>\<open>int(s, 16)\<close>: blanks, a sign, the prefix \<open>0x\<close>, then digits with single underscores between them.\<close>

definition hex_body :: "string \<Rightarrow> nat option" where
  "hex_body s =
     (case s of
        z # x # r \<Rightarrow>
          (if z = CHR ''0'' \<and> (x = CHR ''x'' \<or> x = CHR ''X'')
           then (case r of [] \<Rightarrow> None
                 | u # v \<Rightarrow> if u = CHR ''_'' then parse_hex 0 False v else parse_hex 0 False r)
           else parse_hex 0 False s)
      | _ \<Rightarrow> parse_hex 0 False s)"

definition py_int16 :: "string \<Rightarrow> int option" where
  "py_int16 s =
     (case py_strip s of
        [] \<Rightarrow> None
      | c # cs \<Rightarrow>
          (if c = CHR ''-'' then map_option (\<lambda>n. - int n) (hex_body cs)
           else if c = CHR ''+'' then map_option int (hex_body cs)
           else map_option int (hex_body (c # cs))))"

text \<open>\<open>UUID(s)\<close>, as its 128-bit integer.\<close>

definition py_uuid :: "string \<Rightarrow> int option" where
  "py_uuid s =
     (let hex = filter (\<lambda>c. c \<noteq> CHR ''-'')
            (strip_chars ''{}'' (py_replace ''uuid:'' [] (py_replace ''urn:'' [] s)))
      in if length hex \<noteq> 32 then None
         else (case py_int16 hex of None \<Rightarrow> None
               | Some n \<Rightarrow> if 0 \<le> n \<and> n < 2 ^ 128 then Some n else None))"

subsection \<open>Dates\<close>

type_synonym date = "nat \<times> nat \<times> nat"
type_synonym time = "nat \<times> nat \<times> nat \<times> nat"

definition leap_year :: "nat \<Rightarrow> bool" where
  "leap_year y = (y mod 4 = 0 \<and> (y mod 100 \<noteq> 0 \<or> y mod 400 = 0))"

definition days_in_month :: "nat \<Rightarrow> nat \<Rightarrow> nat" where
  "days_in_month y m =
     (if m = 2 then (if leap_year y then 29 else 28) else if m \<in> {4, 6, 9, 11} then 30 else 31)"

fun valid_date :: "date \<Rightarrow> bool" where
  "valid_date (y, m, d) = (1 \<le> y \<and> y \<le> 9999 \<and> 1 \<le> m \<and> m \<le> 12 \<and> 1 \<le> d \<and> d \<le> days_in_month y m)"

text \<open>The number patterns of \<open>strptime\<close>: one or two digits within a range.\<close>

definition nat_of_digits :: "string \<Rightarrow> nat" where
  "nat_of_digits s = fold (\<lambda>c n. 10 * n + digit_val c) s 0"

definition strp_num :: "nat \<Rightarrow> nat \<Rightarrow> string \<Rightarrow> nat option" where
  "strp_num lo hi s =
     (if py_isdigit s \<and> length s \<le> 2 \<and> lo \<le> nat_of_digits s \<and> nat_of_digits s \<le> hi
      then Some (nat_of_digits s) else None)"

definition strp_year :: "string \<Rightarrow> nat option" where
  "strp_year s = (if py_isdigit s \<and> length s = 4 then Some (nat_of_digits s) else None)"

text \<open>A day may be one digit after a blank.\<close>

definition strp_day :: "string \<Rightarrow> nat option" where
  "strp_day s = (if length s = 2 \<and> hd s = CHR '' '' then strp_num 1 9 (tl s) else strp_num 1 31 s)"

text \<open>\<open>datetime.strptime(s, "%Y-%m-%d").date()\<close>\<close>

definition strptime_date :: "string \<Rightarrow> date option" where
  "strptime_date s =
     (case py_split (CHR ''-'') s of
        [y, m, d] \<Rightarrow>
          (case (strp_year y, strp_num 1 12 m, strp_day d) of
             (Some y, Some m, Some d) \<Rightarrow> if valid_date (y, m, d) then Some (y, m, d) else None
           | _ \<Rightarrow> None)
      | _ \<Rightarrow> None)"

text \<open>\<open>datetime.strptime(s, "%Y-%m-%dT%H:%M:%S.%fZ")\<close>; the letters match in both cases, a second of 60 or 61 is refused by \<open>datetime\<close>.\<close>

definition strp_fraction :: "string \<Rightarrow> nat option" where
  "strp_fraction s =
     (if py_isdigit s \<and> length s \<le> 6 then Some (nat_of_digits s * 10 ^ (6 - length s)) else None)"

definition strptime_time :: "string \<Rightarrow> time option" where
  "strptime_time s =
     (case py_split (CHR '':'') s of
        [h, m, r] \<Rightarrow>
          (case py_split (CHR ''.'') r of
             [sec, fz] \<Rightarrow>
               (if fz = [] \<or> last fz \<noteq> CHR ''Z'' then None
                else (case (strp_num 0 23 h, strp_num 0 59 m, strp_num 0 59 sec, strp_fraction (butlast fz)) of
                        (Some h, Some m, Some sec, Some us) \<Rightarrow> Some (h, m, sec, us)
                      | _ \<Rightarrow> None))
           | _ \<Rightarrow> None)
      | _ \<Rightarrow> None)"

definition strptime_datetime :: "string \<Rightarrow> (date \<times> time) option" where
  "strptime_datetime s =
     (case py_split (CHR ''T'') (py_upper s) of
        [d, t] \<Rightarrow>
          (case (strptime_date d, strptime_time t) of (Some d, Some t) \<Rightarrow> Some (d, t) | _ \<Rightarrow> None)
      | _ \<Rightarrow> None)"

subsection \<open>Printing\<close>

text \<open>A number printed with a fixed number of digits, and \<open>date.isoformat()\<close>.\<close>

fun padded :: "nat \<Rightarrow> nat \<Rightarrow> string" where
  "padded 0 n = []"
| "padded (Suc w) n = padded w (n div 10) @ [digit_char (n mod 10)]"

fun isoformat :: "date \<Rightarrow> string" where
  "isoformat (y, m, d) = padded 4 y @ ''-'' @ padded 2 m @ ''-'' @ padded 2 d"

subsection \<open>Lemmas\<close>

lemma length_padded [simp]: "length (padded w n) = w"
  by (induction w n rule: padded.induct) simp_all

lemma digits_padded: "list_all is_digit (padded w n)"
  by (induction w n rule: padded.induct) simp_all

lemma nat_of_digits_snoc: "nat_of_digits (s @ [c]) = 10 * nat_of_digits s + digit_val c"
  by (simp add: nat_of_digits_def)

lemma nat_of_digits_padded [simp]: "nat_of_digits (padded w n) = n mod 10 ^ w"
proof (induction w n rule: padded.induct)
  case (2 w n)
  have "n mod 10 ^ Suc w = 10 * (n div 10 mod 10 ^ w) + n mod 10"
    using mod_mult2_eq [of n 10 "10 ^ w"] by simp
  with 2 show ?case by (simp add: nat_of_digits_snoc)
qed (simp add: nat_of_digits_def)

lemma py_isdigit_padded [simp]: "0 < w \<Longrightarrow> py_isdigit (padded w n)"
  using digits_padded [of w n] length_padded [of w n] by (auto simp: py_isdigit_def simp del: length_padded)

lemma not_in_padded: "\<not> is_digit c \<Longrightarrow> c \<notin> set (padded w n)"
  using digits_padded [of w n] by (auto simp: list_all_iff)

lemma strp_num_padded: "lo \<le> n \<Longrightarrow> n \<le> hi \<Longrightarrow> n < 100 \<Longrightarrow> strp_num lo hi (padded 2 n) = Some n"
  by (simp add: strp_num_def)

lemma hd_padded_digit: "0 < w \<Longrightarrow> is_digit (hd (padded w n))"
  using digits_padded [of w n] hd_in_set [of "padded w n"] length_padded [of w n]
  by (cases "padded w n") (simp_all del: length_padded)

lemma strp_day_padded: "1 \<le> n \<Longrightarrow> n \<le> 31 \<Longrightarrow> strp_day (padded 2 n) = Some n"
  using hd_padded_digit [of 2 n] by (auto simp: strp_day_def is_digit_def strp_num_padded)

text \<open>\<open>strptime\<close> undoes \<open>isoformat\<close>.\<close>

lemma strptime_isoformat:
  assumes "valid_date t"
  shows "strptime_date (isoformat t) = Some t"
proof -
  obtain y m d where t: "t = (y, m, d)" by (cases t) auto
  have "d \<le> 31" using assms by (auto simp: t days_in_month_def split: if_splits)
  moreover have "CHR ''-'' \<notin> set (padded w n)" for w n by (rule not_in_padded) (simp add: is_digit_def)
  ultimately show ?thesis
    using assms
    by (simp add: t strptime_date_def strp_year_def py_split_append_sep py_split_no_sep strp_num_padded strp_day_padded
        del: padded.simps)
qed

lemma py_startswith_append [simp]: "py_startswith (p @ s) p"
  by (simp add: py_startswith_def)

lemma py_startswith_iff: "py_startswith s p \<longleftrightarrow> (\<exists>t. s = p @ t)"
  by (metis append_eq_conv_conj append_take_drop_id py_startswith_def)

lemma py_contains_iff: "py_contains p s \<longleftrightarrow> (\<exists>a b. s = a @ p @ b)"
proof (induction s)
  case (Cons c s)
  have "(\<exists>a b. c # s = a @ p @ b) \<longleftrightarrow> (\<exists>b. c # s = p @ b) \<or> (\<exists>a b. s = a @ p @ b)"
    by (metis append_Cons append_Nil list.exhaust list.inject)
  with Cons show ?case by (simp add: py_startswith_iff)
qed simp

lemma py_replace_absent: "\<not> py_contains old s \<Longrightarrow> py_replace old new s = s"
  by (induction old new s rule: py_replace.induct) auto

lemma split_once_absent: "sep \<notin> set s \<Longrightarrow> split_once sep s = (s, None)"
  by (induction s) auto

lemma split_once_found: "sep \<notin> set a \<Longrightarrow> split_once sep (a @ sep # b) = (a, Some b)"
  by (induction a) auto

lemma int_pattern_str_int: "int_pattern (str_int i)"
proof -
  have d: "is_digit c" if "c \<in> set (str_nat n)" for c n
    using list_all_digit_str_nat [of n] that by (simp add: list_all_iff)
  have "last (str_nat n) \<noteq> newline" "hd (str_nat n) \<noteq> CHR ''-''" for n
    using d [OF last_in_set [OF str_nat_not_Nil], of n] d [OF hd_in_set [OF str_nat_not_Nil], of n]
    by (auto simp: is_digit_def)
  then show ?thesis
    by (auto simp: int_pattern_def str_int_def py_isdigit_def list_all_digit_str_nat Let_def)
qed

end
