(* ===== verification/Pagination.thy ===== *)
theory Pagination
  imports Prelude
begin

section \<open>Paginated queries\<close>

text \<open>
  \<^verbatim>\<open>persistence/utilities.py\<close>: \<open>QueryOperations.query\<close>, \<open>PaginatedFilter\<close> and \<open>Paginated\<close>. The select statements of SQLAlchemy and the
  database are the operations of \<open>sql\<close>, with what is used of them as the laws of the locale \<open>select_statements\<close>: a limit
  and an offset cut a segment out of the rows, and both ways to count give the number of rows.
\<close>

subsection \<open>Statements\<close>

record ('q, 'a) sql =
  sql_select :: 'q                                  \<comment> \<open>\<open>select(entity_type)\<close>\<close>
  sql_page :: "nat \<Rightarrow> nat \<Rightarrow> 'q \<Rightarrow> 'q"               \<comment> \<open>limit and offset\<close>
  sql_rows :: "'q \<Rightarrow> 'a list"                       \<comment> \<open>the rows of the result\<close>
  sql_over :: "'q \<Rightarrow> nat"                           \<comment> \<open>\<open>count() over ()\<close>\<close>
  sql_count :: "'q \<Rightarrow> nat"                          \<comment> \<open>the separate count query\<close>

locale select_statements =
  fixes S :: "('q, 'a) sql"
  assumes page_rows: "sql_rows S (sql_page S n k q) = take n (drop k (sql_rows S q))"
    and over_rows: "sql_over S q = length (sql_rows S q)"
    and count_rows: "sql_count S q = length (sql_rows S q)"

text \<open>A reference: a statement is the list of its rows.\<close>

definition list_sql :: "'a list \<Rightarrow> ('a list, 'a) sql" where
  "list_sql table = \<lparr>sql_select = table, sql_page = (\<lambda>n k q. take n (drop k q)), sql_rows = (\<lambda>q. q),
     sql_over = length, sql_count = length\<rparr>"

interpretation list_sql: select_statements "list_sql table"
  by unfold_locales (simp_all add: list_sql_def)

datatype 'q stmt = Apply "'q \<Rightarrow> 'q" | Statement 'q

subsection \<open>Data\<close>

record page_filter =
  page :: nat
  page_size :: nat

definition valid_filter :: "nat \<Rightarrow> page_filter \<Rightarrow> bool" where
  "valid_filter max_page_size f = (0 < page_size f \<and> page_size f \<le> max_page_size)"

record 'a paginated =
  items :: "'a list"
  total :: nat
  unpaginated_total :: int
  total_pages :: int

definition transform :: "('a \<Rightarrow> 'b) \<Rightarrow> 'a paginated \<Rightarrow> 'b paginated" where
  "transform f p = \<lparr>items = map f (items p), total = total p, unpaginated_total = unpaginated_total p,
     total_pages = total_pages p\<rparr>"

datatype total_type = Total_over | Count_subquery | No_total

text \<open>
  What a \<open>QueryOperations\<close> object holds and what a call passes, each already applied to its filter: the
  injected filter functions, the interceptors, and the two rule appliers, which may raise.
\<close>

record 'q operations =
  op_base :: "'q stmt option"
  op_filters :: "('q \<Rightarrow> 'q) list"
  op_unique :: bool
  op_sort :: "('q \<Rightarrow> 'q result) option"
  op_filter :: "('q \<Rightarrow> 'q result) option"

record 'q call =
  call_base :: "'q stmt option"
  call_interceptors :: "('q \<Rightarrow> 'q) list"
  call_final :: "('q \<Rightarrow> 'q) option"

subsection \<open>The query\<close>

definition apply_stmt :: "'q stmt option \<Rightarrow> 'q \<Rightarrow> 'q" where
  "apply_stmt st q = (case st of None \<Rightarrow> q | Some (Apply f) \<Rightarrow> f q | Some (Statement r) \<Rightarrow> r)"

definition generate_filtered_query :: "('q \<Rightarrow> 'q) list \<Rightarrow> 'q \<Rightarrow> 'q" where
  "generate_filtered_query fs q = fold (\<lambda>f q. f q) fs q"

definition apply_rule :: "('q \<Rightarrow> 'q result) option \<Rightarrow> 'q \<Rightarrow> 'q result" where
  "apply_rule r q = (case r of None \<Rightarrow> Inr q | Some f \<Rightarrow> f q)"

definition listing_query :: "('q, 'a) sql \<Rightarrow> 'q operations \<Rightarrow> 'q call \<Rightarrow> 'q result" where
  "listing_query S ops c =
     (let initial = apply_stmt (call_base c) (apply_stmt (op_base ops) (sql_select S));
          tier_one = generate_filtered_query (op_filters ops) initial;
          tier_two = fold (\<lambda>f q. f q) (call_interceptors c) tier_one
      in case apply_rule (op_sort ops) tier_two of
           Inl e \<Rightarrow> Inl e
         | Inr q1 \<Rightarrow>
             (case apply_rule (op_filter ops) q1 of
                Inl e \<Rightarrow> Inl e
              | Inr q2 \<Rightarrow> Inr (case call_final c of None \<Rightarrow> q2 | Some f \<Rightarrow> f q2)))"

text \<open>\<open>Result.unique()\<close> keeps the first of equal rows.\<close>

definition judge_unique :: "bool \<Rightarrow> 'a list \<Rightarrow> 'a list" where
  "judge_unique unique rows = (if unique then rev (remdups (rev rows)) else rows)"

definition paginate :: "('q, 'a) sql \<Rightarrow> bool \<Rightarrow> total_type \<Rightarrow> page_filter \<Rightarrow> 'q \<Rightarrow> 'a paginated" where
  "paginate S unique tt f q =
     (let rows = judge_unique unique (sql_rows S (sql_page S (page_size f) (page f * page_size f) q));
          n = (case tt of
                 Total_over \<Rightarrow> if rows = [] then 0 else int (sql_over S q)
               | Count_subquery \<Rightarrow> int (sql_count S q)
               | No_total \<Rightarrow> -1)
      in \<lparr>items = rows, total = length rows, unpaginated_total = n,
          total_pages = \<lceil>of_int n / (of_nat (page_size f) :: rat)\<rceil>\<rparr>)"

definition query :: "('q, 'a) sql \<Rightarrow> 'q operations \<Rightarrow> 'q call \<Rightarrow> total_type \<Rightarrow> page_filter \<Rightarrow> 'a paginated result" where
  "query S ops c tt f =
     (case listing_query S ops c of Inl e \<Rightarrow> Inl e | Inr q \<Rightarrow> Inr (paginate S (op_unique ops) tt f q))"

subsection \<open>Lemmas\<close>

lemma concat_segments: "concat (map (\<lambda>p. take n (drop (p * n) xs)) [0..<k]) = take (k * n) xs"
  by (induction k) (simp_all add: take_add [symmetric] add.commute)

lemma ceiling_pages: "0 < n \<Longrightarrow> m \<le> nat \<lceil>of_int (int m) / (of_nat n :: rat)\<rceil> * n"
proof -
  assume n: "0 < n"
  have "(of_nat m :: rat) / of_nat n \<le> of_int \<lceil>of_nat m / (of_nat n :: rat)\<rceil>" by (rule le_of_int_ceiling)
  then have "(of_nat m :: rat) \<le> of_int \<lceil>of_nat m / (of_nat n :: rat)\<rceil> * of_nat n"
    using n pos_divide_le_eq [of "of_nat n :: rat"] by (metis of_nat_0_less_iff)
  then have "int m \<le> \<lceil>of_nat m / (of_nat n :: rat)\<rceil> * int n"
    by (metis (mono_tags, lifting) of_int_le_iff of_int_mult of_int_of_nat_eq)
  moreover have "0 \<le> \<lceil>of_nat m / (of_nat n :: rat)\<rceil>" using ceiling_mono [of "0 :: rat" "of_nat m / of_nat n"] by simp
  ultimately show ?thesis
    by (metis (no_types, lifting) int_nat_eq of_int_of_nat_eq of_nat_le_iff of_nat_mult)
qed

context select_statements
begin

lemma page_items:
  "items (paginate S False tt f q) = take (page_size f) (drop (page f * page_size f) (sql_rows S q))"
  by (simp add: paginate_def judge_unique_def page_rows Let_def)

lemma page_total:
  "paginate S False tt f q = p \<Longrightarrow> tt = Count_subquery \<or> tt = Total_over \<and> items p \<noteq> [] \<Longrightarrow>
   unpaginated_total p = int (length (sql_rows S q))
   \<and> total_pages p = \<lceil>of_int (int (length (sql_rows S q))) / (of_nat (page_size f) :: rat)\<rceil>"
  by (auto simp: paginate_def judge_unique_def over_rows count_rows Let_def)

lemma pages_concat:
  assumes "listing_query S ops c = Inr q" "\<not> op_unique ops" "0 < n"
    and "query S ops c Count_subquery \<lparr>page = 0, page_size = n\<rparr> = Inr p0"
  shows "items (projr (query S ops c tt \<lparr>page = p, page_size = n\<rparr>)) = take n (drop (p * n) (sql_rows S q))"
    and "concat (map (\<lambda>p. items (projr (query S ops c tt \<lparr>page = p, page_size = n\<rparr>))) [0..<nat (total_pages p0)])
      = sql_rows S q"
    and "unpaginated_total p0 = int (length (sql_rows S q))"
proof -
  show it: "items (projr (query S ops c tt \<lparr>page = p, page_size = n\<rparr>)) = take n (drop (p * n) (sql_rows S q))" for p
    using assms(1,2) page_items by (simp add: query_def)
  have p0: "paginate S False Count_subquery \<lparr>page = 0, page_size = n\<rparr> q = p0"
    using assms(1,2,4) by (simp add: query_def)
  show "unpaginated_total p0 = int (length (sql_rows S q))" using page_total [OF p0] by simp
  have "total_pages p0 = \<lceil>of_int (int (length (sql_rows S q))) / (of_nat n :: rat)\<rceil>"
    using page_total [OF p0] by simp
  then show "concat (map (\<lambda>p. items (projr (query S ops c tt \<lparr>page = p, page_size = n\<rparr>))) [0..<nat (total_pages p0)])
      = sql_rows S q"
    using ceiling_pages [OF assms(3), of "length (sql_rows S q)"] by (simp add: it concat_segments)
qed

end

subsection \<open>Properties\<close>

text \<open>
  The pages partition the result: as many pages as the first one announces, put together in order, are the
  rows of the query, each once, whatever way the total is computed; no page has more than \<open>page_size\<close> items.
\<close>

theorem pages_partition_rows:
  assumes "select_statements S" "listing_query S ops c = Inr q" "\<not> op_unique ops" "0 < n"
    and "query S ops c Count_subquery \<lparr>page = 0, page_size = n\<rparr> = Inr p0"
  shows "concat (map (\<lambda>p. items (projr (query S ops c tt \<lparr>page = p, page_size = n\<rparr>))) [0..<nat (total_pages p0)])
      = sql_rows S q
    \<and> length (items (projr (query S ops c tt \<lparr>page = k, page_size = n\<rparr>))) \<le> n
    \<and> unpaginated_total p0 = int (length (sql_rows S q))"
  using select_statements.pages_concat [OF assms] by simp

definition no_operations :: "'q operations" where
  "no_operations = \<lparr>op_base = None, op_filters = [], op_unique = False, op_sort = None, op_filter = None\<rparr>"

definition no_call :: "'q call" where
  "no_call = \<lparr>call_base = None, call_interceptors = [], call_final = None\<rparr>"

lemma listing_query_plain: "listing_query S no_operations no_call = Inr (sql_select S)"
  by (simp add: listing_query_def no_operations_def no_call_def apply_stmt_def generate_filtered_query_def apply_rule_def Let_def)

theorem pages_partition_rows_witness:
  "concat (map (\<lambda>p. items (projr (query (list_sql [10, 20, 30, 40, 50 :: nat]) no_operations no_call Total_over
     \<lparr>page = p, page_size = 2\<rparr>))) [0..<3]) = [10, 20, 30, 40, 50]"
proof -
  let ?S = "list_sql [10, 20, 30, 40, 50 :: nat]"
  have q: "query ?S no_operations no_call Count_subquery \<lparr>page = 0, page_size = 2\<rparr> =
      Inr \<lparr>items = [10, 20], total = 2, unpaginated_total = 5, total_pages = 3\<rparr>"
    unfolding query_def listing_query_plain
    by (simp add: paginate_def judge_unique_def no_operations_def list_sql_def ceiling_eq_iff)
  show ?thesis
    using pages_partition_rows [OF list_sql.select_statements_axioms listing_query_plain _ _ q, of Total_over 0]
    by (simp add: no_operations_def list_sql_def)
qed

text \<open>
  Past the last page the two ways to count disagree: the count over the window is taken from the first row, so without rows the
  total and the number of pages are reported as zero although the query has rows.
\<close>

theorem total_is_zero_past_the_end:
  assumes "select_statements S" "listing_query S ops c = Inr q" "\<not> op_unique ops"
    and "length (sql_rows S q) \<le> page f * page_size f"
  shows "unpaginated_total (projr (query S ops c Total_over f)) = 0
    \<and> total_pages (projr (query S ops c Total_over f)) = 0
    \<and> unpaginated_total (projr (query S ops c Count_subquery f)) = int (length (sql_rows S q))"
  using assms(2-4) select_statements.page_rows [OF assms(1)] select_statements.count_rows [OF assms(1)]
  by (simp add: query_def paginate_def judge_unique_def Let_def)

theorem total_is_zero_past_the_end_witness:
  "unpaginated_total (projr (query (list_sql [10, 20, 30 :: nat]) no_operations no_call Total_over
     \<lparr>page = 5, page_size = 2\<rparr>)) = 0"
  using total_is_zero_past_the_end [OF list_sql.select_statements_axioms listing_query_plain,
      of "[10, 20, 30 :: nat]" "\<lparr>page = 5, page_size = 2\<rparr>"]
  by (simp add: no_operations_def list_sql_def)

end
