(* ===== verification/Sort_Filter.thy ===== *)
theory Sort_Filter
  imports Py_Text Pagination "HOL-Library.Product_Lexorder"
begin

section \<open>Filters and sorts requested by a client\<close>

text \<open>
  \<^verbatim>\<open>persistence/sort_filter.py\<close>: \<open>FilterRuleApplier\<close>, \<open>SortRuleApplier\<close> and \<open>SortFilterRunner\<close>, and the criteria
  injector of \<^verbatim>\<open>persistence/utilities.py\<close>. A statement is kept as what the code builds with SQLAlchemy: the
  conditions given to \<open>filter\<close> and the columns given to \<open>order_by\<close>, in order. What a condition means is the
  reference semantics \<open>holds\<close>, the three-valued logic of SQL, in which the matching of patterns is a parameter.
\<close>

subsection \<open>Data\<close>

datatype field_type = TStr | TDate | TDatetime | TBool | TInt | TUuid | TOther string

datatype operator =
    Contains | DoesNotContain | Equals | DoesNotEqual | StartsWith | EndsWith | IsEmpty | IsNotEmpty | IsAnyOf
  | Is | IsNot | After | OnOrAfter | Before | OnOrBefore
  | NumEq | NumNe | NumGt | NumLt | NumGe | NumLe

datatype filter_value = VStr string | VList "string list"

record filter_model =
  f_field :: string
  f_operator :: operator
  f_value :: filter_value

datatype direction = Asc | Desc

record sort_model =
  s_field :: string
  s_direction :: direction

text \<open>An allowed column: its name in the statement and the Python type of its values.\<close>

type_synonym attr = "string \<times> field_type"

datatype lit =
    LStr string | LStrs "string list" | LDate date | LDatetime "date \<times> time" | LBool bool | LInt int | LUuid int

datatype comparison = CEq | CNe | CGt | CLt | CGe | CLe

text \<open>
  The conditions. \<open>In_text\<close> is \<open>field.in_\<close> given a string instead of a list; \<open>Compare\<close> may be given the list of
  strings of a request, \<open>LStrs\<close>.
\<close>

datatype like_kind = Icontains | Startswith | Endswith | Contains_case

datatype clause =
    Compare comparison string lit
  | Like like_kind string filter_value
  | In_list string "lit list"
  | In_text string string
  | Is_null string
  | Negated clause

record statement =
  wheres :: "clause list"
  orders :: "(string \<times> direction) list"

definition add_where :: "clause \<Rightarrow> statement \<Rightarrow> statement" where
  "add_where c q = q\<lparr>wheres := wheres q @ [c]\<rparr>"

definition order_by :: "string \<Rightarrow> direction \<Rightarrow> statement \<Rightarrow> statement" where
  "order_by c d q = q\<lparr>orders := orders q @ [(c, d)]\<rparr>"

primrec operator_str :: "operator \<Rightarrow> string" where
  "operator_str Contains = ''contains''"
| "operator_str DoesNotContain = ''doesNotContain''"
| "operator_str Equals = ''equals''"
| "operator_str DoesNotEqual = ''doesNotEqual''"
| "operator_str StartsWith = ''startsWith''"
| "operator_str EndsWith = ''endsWith''"
| "operator_str IsEmpty = ''isEmpty''"
| "operator_str IsNotEmpty = ''isNotEmpty''"
| "operator_str IsAnyOf = ''isAnyOf''"
| "operator_str Is = ''is''"
| "operator_str IsNot = ''not''"
| "operator_str After = ''after''"
| "operator_str OnOrAfter = ''onOrAfter''"
| "operator_str Before = ''before''"
| "operator_str OnOrBefore = ''onOrBefore''"
| "operator_str NumEq = ''=''"
| "operator_str NumNe = ''!=''"
| "operator_str NumGt = ''>''"
| "operator_str NumLt = ''<''"
| "operator_str NumGe = ''>=''"
| "operator_str NumLe = ''<=''"

subsection \<open>Values of a request\<close>

definition invalid :: "string \<Rightarrow> 'a result" where
  "invalid detail = Inl (Exc InvalidFilterError detail)"

definition no_value :: "filter_value \<Rightarrow> bool" where
  "no_value v = (v = VStr [] \<or> v = VList [])"

text \<open>\<open>value[0] if isinstance(value, list) else value\<close>, for a value that is not empty.\<close>

fun first_value :: "filter_value \<Rightarrow> string" where
  "first_value (VStr s) = s"
| "first_value (VList xs) = hd xs"

fun lit_of_value :: "filter_value \<Rightarrow> lit" where
  "lit_of_value (VStr s) = LStr s"
| "lit_of_value (VList xs) = LStrs xs"

fun in_value :: "string \<Rightarrow> filter_value \<Rightarrow> clause" where
  "in_value c (VStr s) = In_text c s"
| "in_value c (VList xs) = In_list c (map LStr xs)"

definition parse_uuid :: "string \<Rightarrow> string \<Rightarrow> int result" where
  "parse_uuid raw field_name =
     (case py_uuid (py_strip raw) of
        Some u \<Rightarrow> Inr u
      | None \<Rightarrow> invalid (''Invalid UUID value '' @ py_repr raw @ '' for field '' @ py_repr field_name))"

fun parse_uuids :: "string list \<Rightarrow> string \<Rightarrow> int list result" where
  "parse_uuids [] n = Inr []"
| "parse_uuids (v # vs) n =
     (case parse_uuid v n of Inl e \<Rightarrow> Inl e
      | Inr u \<Rightarrow> (case parse_uuids vs n of Inl e \<Rightarrow> Inl e | Inr us \<Rightarrow> Inr (u # us)))"

subsection \<open>One filter\<close>

definition str_filter :: "string \<Rightarrow> filter_model \<Rightarrow> clause result" where
  "str_filter c f =
     (case f_operator f of
        Contains \<Rightarrow> Inr (Like Icontains c (f_value f))
      | DoesNotContain \<Rightarrow> Inr (Negated (Like Icontains c (f_value f)))
      | Equals \<Rightarrow> Inr (Compare CEq c (lit_of_value (f_value f)))
      | DoesNotEqual \<Rightarrow> Inr (Compare CNe c (lit_of_value (f_value f)))
      | StartsWith \<Rightarrow> Inr (Like Startswith c (f_value f))
      | EndsWith \<Rightarrow> Inr (Like Endswith c (f_value f))
      | IsEmpty \<Rightarrow> Inr (Compare CEq c (LStr []))
      | IsNotEmpty \<Rightarrow> Inr (Compare CNe c (LStr []))
      | IsAnyOf \<Rightarrow> Inr (in_value c (f_value f))
      | op \<Rightarrow> invalid (''Unsupported string operator: '' @ operator_str op))"

text \<open>The values of a date column compare as dates, those of a datetime column as points in time.\<close>

definition date_value :: "field_type \<Rightarrow> string \<Rightarrow> string \<Rightarrow> lit result" where
  "date_value ft v name =
     (if ft = TDate
      then (case strptime_date v of Some d \<Rightarrow> Inr (LDate d)
            | None \<Rightarrow> invalid (''Invalid date value '' @ py_repr v @ '' for field '' @ py_repr name))
      else (case strptime_datetime v of Some t \<Rightarrow> Inr (LDatetime t)
            | None \<Rightarrow> invalid (''Invalid datetime value '' @ py_repr v @ '' for field '' @ py_repr name)))"

definition date_comparison :: "operator \<Rightarrow> comparison result" where
  "date_comparison op =
     (case op of Is \<Rightarrow> Inr CEq | IsNot \<Rightarrow> Inr CNe | After \<Rightarrow> Inr CGt | OnOrAfter \<Rightarrow> Inr CGe
      | Before \<Rightarrow> Inr CLt | OnOrBefore \<Rightarrow> Inr CLe
      | _ \<Rightarrow> invalid (''Unsupported data/datetime operator: '' @ operator_str op))"

text \<open>\<open>None\<close>: the query is left as it is.\<close>

definition date_filter :: "field_type \<Rightarrow> string \<Rightarrow> filter_model \<Rightarrow> clause option result" where
  "date_filter ft c f =
     (case f_operator f of
        IsEmpty \<Rightarrow> Inr (Some (Is_null c))
      | IsNotEmpty \<Rightarrow> Inr (Some (Negated (Is_null c)))
      | op \<Rightarrow>
          (let v = first_value (f_value f)
           in if py_strip v = [] then Inr None
              else (case date_value ft v (f_field f) of
                      Inl e \<Rightarrow> Inl e
                    | Inr x \<Rightarrow> (case date_comparison op of Inl e \<Rightarrow> Inl e
                                | Inr r \<Rightarrow> Inr (Some (Compare r c x))))))"

definition bool_filter :: "string \<Rightarrow> filter_model \<Rightarrow> clause result" where
  "bool_filter c f =
     (case f_operator f of
        Is \<Rightarrow> (if first_value (f_value f) = [] then Inr (Negated (Is_null c))
               else Inr (Compare CEq c (LBool (first_value (f_value f) = ''true''))))
      | op \<Rightarrow> invalid (''Unsupported bool operator: '' @ operator_str op))"

definition int_list_filter :: "string \<Rightarrow> filter_model \<Rightarrow> string list \<Rightarrow> clause result" where
  "int_list_filter c f vs =
     (if f_operator f = IsAnyOf
      then Inr (In_list c (map (\<lambda>v. LInt (the (py_int v))) (filter int_pattern vs)))
      else invalid (''Unsupported int operator: '' @ operator_str (f_operator f) @ '' for list''))"

definition int_single_filter :: "string \<Rightarrow> filter_model \<Rightarrow> string \<Rightarrow> clause result" where
  "int_single_filter c f v =
     (if \<not> int_pattern v
      then invalid (''Invalid integer value: '' @ v @ '' for field '' @ f_field f)
      else (let n = LInt (the (py_int v))
            in case f_operator f of
                 NumEq \<Rightarrow> Inr (Compare CEq c n)
               | NumNe \<Rightarrow> Inr (Compare CNe c n)
               | NumGt \<Rightarrow> Inr (Compare CGt c n)
               | NumLt \<Rightarrow> Inr (Compare CLt c n)
               | NumGe \<Rightarrow> Inr (Compare CGe c n)
               | NumLe \<Rightarrow> Inr (Compare CLe c n)
               | IsEmpty \<Rightarrow> Inr (Is_null c)
               | IsNotEmpty \<Rightarrow> Inr (Negated (Is_null c))
               | op \<Rightarrow> invalid (''Unsupported int operator: '' @ operator_str op @ '' for single value'')))"

definition int_filter :: "string \<Rightarrow> filter_model \<Rightarrow> clause result" where
  "int_filter c f =
     (case f_value f of VList vs \<Rightarrow> int_list_filter c f vs | VStr v \<Rightarrow> int_single_filter c f v)"

definition uuid_filter :: "string \<Rightarrow> filter_model \<Rightarrow> clause option result" where
  "uuid_filter c f =
     (case f_operator f of
        IsEmpty \<Rightarrow> Inr (Some (Is_null c))
      | IsNotEmpty \<Rightarrow> Inr (Some (Negated (Is_null c)))
      | op \<Rightarrow>
          (if no_value (f_value f) then Inr None
           else if op = IsAnyOf
           then (case parse_uuids (case f_value f of VList vs \<Rightarrow> vs | VStr v \<Rightarrow> [v]) (f_field f) of
                   Inl e \<Rightarrow> Inl e | Inr us \<Rightarrow> Inr (Some (In_list c (map LUuid us))))
           else if op \<in> {Equals, Is, DoesNotEqual, IsNot}
           then (case parse_uuid (first_value (f_value f)) (f_field f) of
                   Inl e \<Rightarrow> Inl e
                 | Inr u \<Rightarrow> Inr (Some (Compare (if op \<in> {Equals, Is} then CEq else CNe) c (LUuid u))))
           else invalid (''Unsupported uuid operator: '' @ operator_str op)))"

text \<open>The condition one filter adds, \<open>None\<close> when it adds none.\<close>

definition filter_clause :: "(string \<rightharpoonup> attr) \<Rightarrow> filter_model \<Rightarrow> clause option result" where
  "filter_clause allowed f =
     (case allowed (f_field f) of
        None \<Rightarrow> invalid (''Unsupported field: '' @ f_field f)
      | Some (c, ft) \<Rightarrow>
          (if ft = TUuid then uuid_filter c f
           else if no_value (f_value f) then Inr None
           else (case ft of
                   TStr \<Rightarrow> map_sum id Some (str_filter c f)
                 | TDate \<Rightarrow> date_filter ft c f
                 | TDatetime \<Rightarrow> date_filter ft c f
                 | TBool \<Rightarrow> map_sum id Some (bool_filter c f)
                 | TInt \<Rightarrow> map_sum id Some (int_filter c f)
                 | TOther n \<Rightarrow> Inl (Exc ValueError (''Unsupported field type: '' @ n)))))"

definition create_query_for_filter :: "(string \<rightharpoonup> attr) \<Rightarrow> filter_model \<Rightarrow> statement \<Rightarrow> statement result" where
  "create_query_for_filter allowed f q =
     map_sum id (\<lambda>r. case r of None \<Rightarrow> q | Some c \<Rightarrow> add_where c q) (filter_clause allowed f)"

subsection \<open>Lists of filters and sorts\<close>

fun reduce :: "('a \<Rightarrow> statement \<Rightarrow> statement result) \<Rightarrow> 'a list \<Rightarrow> statement \<Rightarrow> statement result" where
  "reduce step [] q = Inr q"
| "reduce step (x # xs) q = (case step x q of Inl e \<Rightarrow> Inl e | Inr q' \<Rightarrow> reduce step xs q')"

definition create_query_for_filter_list where
  "create_query_for_filter_list allowed = reduce (create_query_for_filter allowed)"

definition create_query_for_sorting :: "(string \<rightharpoonup> attr) \<Rightarrow> sort_model \<Rightarrow> statement \<Rightarrow> statement result" where
  "create_query_for_sorting allowed s q =
     (case allowed (s_field s) of
        None \<Rightarrow> Inl (Exc InvalidSortError (''Unsupported field: '' @ s_field s))
      | Some (c, ft) \<Rightarrow> Inr (order_by c (s_direction s) q))"

definition create_query_for_sorting_list where
  "create_query_for_sorting_list allowed = reduce (create_query_for_sorting allowed)"

record sort_filter_runner =
  allowed_filters :: "string \<rightharpoonup> attr"
  allowed_sorts :: "string \<rightharpoonup> attr"

subsection \<open>Criteria of a filter object\<close>

text \<open>
  \<open>CriteriaBasedAttributeQueryInjector.inject\<close> looks at the attributes of the filter object in order and adds a
  condition for each criterion. The attribute \<open>case_sensitive\<close> of a string criterion is not read.
\<close>

datatype criteria_op = Op_eq | Op_gt | Op_lt | Op_gte | Op_lte

datatype criterion =
    DateCriteria date criteria_op
  | DatetimeCriteria "date \<times> time" criteria_op
  | StringCriteria string (is_exact: bool) (case_sensitive: bool)
  | OtherAttribute

primrec op_mapping :: "criteria_op \<Rightarrow> comparison" where
  "op_mapping Op_eq = CEq"
| "op_mapping Op_gt = CGt"
| "op_mapping Op_lt = CLt"
| "op_mapping Op_gte = CGe"
| "op_mapping Op_lte = CLe"

fun criterion_clause :: "string \<Rightarrow> criterion \<Rightarrow> clause option" where
  "criterion_clause c (DateCriteria d op) = Some (Compare (op_mapping op) c (LDate d))"
| "criterion_clause c (DatetimeCriteria d op) = Some (Compare (op_mapping op) c (LDatetime d))"
| "criterion_clause c (StringCriteria v exact cs) =
     Some (if exact then Compare CEq c (LStr v) else Like Contains_case c (VStr v))"
| "criterion_clause c OtherAttribute = None"

definition criteria_inject :: "(string \<times> criterion) list \<Rightarrow> statement \<Rightarrow> statement" where
  "criteria_inject attrs q =
     fold (\<lambda>(c, v) q. case criterion_clause c v of None \<Rightarrow> q | Some cl \<Rightarrow> add_where cl q) attrs q"

definition date_ordered_inject :: "direction \<Rightarrow> statement \<Rightarrow> statement" where
  "date_ordered_inject d q = order_by ''created_at'' d q"

subsection \<open>Meaning of a statement\<close>

text \<open>
  A row gives each column a value, or none for \<^verbatim>\<open>NULL\<close>. A condition is true, false or unknown; a row is
  selected when every condition is true. \<open>like\<close> is how the database matches a text against a pattern, \<open>arrange\<close> how it
  orders rows.
\<close>

type_synonym row = "string \<Rightarrow> lit option"

fun less_lit :: "lit \<Rightarrow> lit \<Rightarrow> bool" where
  "less_lit (LInt a) (LInt b) = (a < b)"
| "less_lit (LDate a) (LDate b) = (a < b)"
| "less_lit (LDatetime a) (LDatetime b) = (a < b)"
| "less_lit _ _ = False"

primrec compare_lit :: "comparison \<Rightarrow> lit \<Rightarrow> lit \<Rightarrow> bool" where
  "compare_lit CEq a b = (a = b)"
| "compare_lit CNe a b = (a \<noteq> b)"
| "compare_lit CGt a b = less_lit b a"
| "compare_lit CLt a b = less_lit a b"
| "compare_lit CGe a b = (less_lit b a \<or> a = b)"
| "compare_lit CLe a b = (less_lit a b \<or> a = b)"

record dialect =
  like :: "like_kind \<Rightarrow> string \<Rightarrow> string \<Rightarrow> bool"
  arrange :: "(string \<times> direction) list \<Rightarrow> row list \<Rightarrow> row list"

primrec holds :: "dialect \<Rightarrow> row \<Rightarrow> clause \<Rightarrow> bool option" where
  "holds D r (Compare op c x) = map_option (\<lambda>v. compare_lit op v x) (r c)"
| "holds D r (Like k c p) =
     (case (p, r c) of (VStr p, Some (LStr s)) \<Rightarrow> Some (like D k p s) | _ \<Rightarrow> None)"
| "holds D r (In_list c xs) = map_option (\<lambda>v. v \<in> set xs) (r c)"
| "holds D r (In_text c s) = None"
| "holds D r (Is_null c) = Some (r c = None)"
| "holds D r (Negated cl) = map_option Not (holds D r cl)"

definition selected :: "dialect \<Rightarrow> statement \<Rightarrow> row \<Rightarrow> bool" where
  "selected D q r = list_all (\<lambda>cl. holds D r cl = Some True) (wheres q)"

text \<open>A table as a provider of the statements of \<open>Pagination\<close>: a statement with the cuts applied to it.\<close>

definition table_rows :: "dialect \<Rightarrow> row list \<Rightarrow> statement \<Rightarrow> row list" where
  "table_rows D table q = arrange D (orders q) (filter (selected D q) table)"

text \<open>A statement of the table: a \<open>statement\<close> with the limit and offset applied to it, innermost first.\<close>

type_synonym cut_statement = "statement \<times> (nat \<times> nat) list"

fun cut_rows :: "dialect \<Rightarrow> row list \<Rightarrow> cut_statement \<Rightarrow> row list" where
  "cut_rows D table (q, cuts) = fold (\<lambda>(n, k) rows. take n (drop k rows)) cuts (table_rows D table q)"

definition table_sql :: "dialect \<Rightarrow> row list \<Rightarrow> (cut_statement, row) sql" where
  "table_sql D table =
     \<lparr>sql_select = (\<lparr>wheres = [], orders = []\<rparr>, []),
      sql_page = (\<lambda>n k (q, cuts). (q, cuts @ [(n, k)])),
      sql_rows = cut_rows D table,
      sql_over = (\<lambda>q. length (cut_rows D table q)),
      sql_count = (\<lambda>q. length (cut_rows D table q))\<rparr>"

interpretation table_sql: select_statements "table_sql D table"
  by unfold_locales (simp_all add: table_sql_def split: prod.splits)

text \<open>A query with its two rule appliers, as \<open>QueryOperations\<close> calls them on a statement that is not yet cut.\<close>

definition on_statement :: "(statement \<Rightarrow> statement result) \<Rightarrow> cut_statement \<Rightarrow> cut_statement result" where
  "on_statement f q = map_sum id (\<lambda>s. (s, snd q)) (f (fst q))"

definition rule_operations ::
  "sort_filter_runner \<Rightarrow> sort_model list \<Rightarrow> filter_model list \<Rightarrow> cut_statement operations" where
  "rule_operations r sorts filters =
     \<lparr>op_base = None, op_filters = [], op_unique = False,
      op_sort = Some (on_statement (create_query_for_sorting_list (allowed_sorts r) sorts)),
      op_filter = Some (on_statement (create_query_for_filter_list (allowed_filters r) filters))\<rparr>"

subsection \<open>Parsing never fails after its check\<close>

lemma py_strip_digits: "py_isdigit s \<Longrightarrow> py_strip s = s \<and> py_strip (s @ [newline]) = s"
proof -
  assume s: "py_isdigit s"
  then have "list_all (\<lambda>c. \<not> is_space c) s"
    by (auto simp: py_isdigit_def list_all_iff dest: is_digit_not_space)
  then have 1: "py_strip s = s" by (rule py_strip_no_space)
  have "dropWhile is_space (s @ [newline]) = s @ [newline]"
    using s by (cases s) (auto simp: py_isdigit_def dest: is_digit_not_space)
  moreover have "dropWhile is_space (rev s) = rev s"
    using s by (cases "rev s") (auto simp: py_isdigit_def list_all_iff dest!: arg_cong [where f = set] dest: is_digit_not_space)
  ultimately show ?thesis using 1 by (simp add: py_strip_def is_space_def)
qed

lemma py_int_digits: "py_isdigit s \<Longrightarrow> \<exists>n. py_int s = Some n \<and> py_int (s @ [newline]) = Some n"
  using py_strip_digits [of s] parse_digits_all [of s False 0]
  by (cases s) (auto simp: py_int_def py_isdigit_def dest: is_digit_not_sign)

lemma py_int_minus_digits:
  assumes "py_isdigit s"
  shows "\<exists>n. py_int (CHR ''-'' # s) = Some n \<and> py_int (CHR ''-'' # s @ [newline]) = Some n"
proof -
  have m: "\<not> is_space (CHR ''-'')" by (simp add: is_space_def)
  have r: "dropWhile is_space (rev s @ [CHR ''-'']) = rev s @ [CHR ''-'']"
    using assms by (cases "rev s") (auto simp: py_isdigit_def list_all_iff dest!: arg_cong [where f = set] dest: is_digit_not_space)
  then have "py_strip (CHR ''-'' # s) = CHR ''-'' # s" "py_strip (CHR ''-'' # s @ [newline]) = CHR ''-'' # s"
    using m by (simp_all add: py_strip_def) (simp add: is_space_def)
  then show ?thesis using parse_digits_all [of s False 0] assms by (auto simp: py_int_def py_isdigit_def)
qed

text \<open>A text that matches the pattern for integers is read by \<open>int\<close>.\<close>

lemma int_pattern_py_int: "int_pattern s \<Longrightarrow> \<exists>n. py_int s = Some n"
proof -
  assume s: "int_pattern s"
  have t: "\<exists>u. py_isdigit u \<and> (t = u \<or> t = u @ [newline])"
    if "py_isdigit (if t \<noteq> [] \<and> last t = newline then butlast t else t)" for t
    using that append_butlast_last_id [of t] by (metis append_butlast_last_id)
  show ?thesis
  proof (cases "s \<noteq> [] \<and> hd s = CHR ''-''")
    case True
    then obtain r where r: "s = CHR ''-'' # r" by (cases s) auto
    with s t [of r] obtain u where "py_isdigit u" "r = u \<or> r = u @ [newline]"
      by (auto simp: int_pattern_def Let_def)
    with py_int_minus_digits [of u] r show ?thesis by auto
  next
    case False
    with s t [of s] obtain u where "py_isdigit u" "s = u \<or> s = u @ [newline]"
      by (auto simp: int_pattern_def Let_def)
    with py_int_digits [of u] show ?thesis by auto
  qed
qed

subsection \<open>Types of conditions\<close>

primrec lit_type :: "lit \<Rightarrow> field_type option" where
  "lit_type (LStr s) = Some TStr"
| "lit_type (LStrs ss) = None"
| "lit_type (LDate d) = Some TDate"
| "lit_type (LDatetime d) = Some TDatetime"
| "lit_type (LBool b) = Some TBool"
| "lit_type (LInt i) = Some TInt"
| "lit_type (LUuid u) = Some TUuid"

text \<open>A condition on the column \<open>c\<close> whose operands all have the type of the column.\<close>

primrec well_typed :: "attr \<Rightarrow> clause \<Rightarrow> bool" where
  "well_typed a (Compare op c x) = (c = fst a \<and> lit_type x = Some (snd a))"
| "well_typed a (Like k c p) = (c = fst a \<and> snd a = TStr \<and> (\<exists>s. p = VStr s))"
| "well_typed a (In_list c xs) = (c = fst a \<and> list_all (\<lambda>x. lit_type x = Some (snd a)) xs)"
| "well_typed a (In_text c s) = False"
| "well_typed a (Is_null c) = (c = fst a)"
| "well_typed a (Negated cl) = well_typed a cl"

text \<open>The shape a request on a text column must have: a list exactly with \<open>isAnyOf\<close>.\<close>

definition text_shape :: "filter_model \<Rightarrow> bool" where
  "text_shape f = (f_operator f \<in> {IsEmpty, IsNotEmpty} \<or> (f_operator f = IsAnyOf) = (\<exists>vs. f_value f = VList vs))"

lemma str_filter_typed: "str_filter c f = Inr cl \<Longrightarrow> well_typed (c, TStr) cl = text_shape f"
  by (cases "f_operator f"; cases "f_value f")
    (auto simp: str_filter_def text_shape_def invalid_def list_all_iff)

lemma date_filter_typed: "date_filter ft c f = Inr (Some cl) \<Longrightarrow> ft = TDate \<or> ft = TDatetime \<Longrightarrow> well_typed (c, ft) cl"
  by (cases "f_operator f")
    (auto simp: date_filter_def date_value_def date_comparison_def invalid_def Let_def split: if_splits option.splits)

lemma bool_filter_typed: "bool_filter c f = Inr cl \<Longrightarrow> well_typed (c, TBool) cl"
  by (cases "f_operator f") (auto simp: bool_filter_def invalid_def split: if_splits)

lemma int_filter_typed: "int_filter c f = Inr cl \<Longrightarrow> well_typed (c, TInt) cl"
  by (cases "f_operator f"; cases "f_value f")
    (auto simp: int_filter_def int_list_filter_def int_single_filter_def invalid_def list_all_iff Let_def split: if_splits)

lemma uuid_filter_typed: "uuid_filter c f = Inr (Some cl) \<Longrightarrow> well_typed (c, TUuid) cl"
  by (cases "f_operator f")
    (auto simp: uuid_filter_def invalid_def list_all_iff split: if_splits sum.splits)

lemmas filters_typed = str_filter_typed date_filter_typed bool_filter_typed int_filter_typed uuid_filter_typed

lemma well_typed_known: "well_typed a cl \<Longrightarrow> r (fst a) = Some v \<Longrightarrow> lit_type v = Some (snd a) \<Longrightarrow> \<exists>b. holds D r cl = Some b"
  by (induction cl) (auto, cases v, auto)

subsection \<open>Errors\<close>

lemma parse_uuids_error: "parse_uuids vs n = Inl e \<Longrightarrow> exc_cls e = InvalidFilterError"
  by (induction vs) (auto simp: parse_uuid_def invalid_def split: option.splits sum.splits)

lemma str_filter_error: "str_filter c f = Inl e \<Longrightarrow> exc_cls e = InvalidFilterError"
  by (cases "f_operator f") (auto simp: str_filter_def invalid_def)

lemma date_filter_error: "date_filter ft c f = Inl e \<Longrightarrow> exc_cls e = InvalidFilterError"
  by (cases "f_operator f")
    (auto simp: date_filter_def date_value_def date_comparison_def invalid_def Let_def split: if_splits option.splits)

lemma bool_filter_error: "bool_filter c f = Inl e \<Longrightarrow> exc_cls e = InvalidFilterError"
  by (cases "f_operator f") (auto simp: bool_filter_def invalid_def split: if_splits)

lemma int_filter_error: "int_filter c f = Inl e \<Longrightarrow> exc_cls e = InvalidFilterError"
  by (cases "f_operator f"; cases "f_value f")
    (auto simp: int_filter_def int_list_filter_def int_single_filter_def invalid_def Let_def split: if_splits)

lemma uuid_filter_error: "uuid_filter c f = Inl e \<Longrightarrow> exc_cls e = InvalidFilterError"
  by (cases "f_operator f")
    (auto simp: uuid_filter_def invalid_def parse_uuid_def split: if_splits sum.splits option.splits dest: parse_uuids_error)

lemmas branch_errors = str_filter_error date_filter_error bool_filter_error int_filter_error uuid_filter_error

lemma reduce_error: "reduce step xs q = Inl e \<Longrightarrow> \<exists>x \<in> set xs. \<exists>q. step x q = Inl e"
  by (induction xs arbitrary: q) (auto split: sum.splits)

lemma create_filter_error:
  "create_query_for_filter allowed f q = Inl e \<Longrightarrow>
   exc_cls e = InvalidFilterError \<or> exc_cls e = ValueError \<and> (\<exists>c n. allowed (f_field f) = Some (c, TOther n))"
  using branch_errors
  by (auto simp: create_query_for_filter_def filter_clause_def invalid_def map_sum_def
      split: if_splits field_type.splits sum.splits option.splits)

subsection \<open>Statements built by lists of rules\<close>

text \<open>The rows a filter asks for: all of them when it adds no condition.\<close>

definition kept :: "dialect \<Rightarrow> (string \<rightharpoonup> attr) \<Rightarrow> filter_model \<Rightarrow> row \<Rightarrow> bool" where
  "kept D allowed f r =
     (case filter_clause allowed f of
        Inr (Some cl) \<Rightarrow> holds D r cl = Some True | Inr None \<Rightarrow> True | Inl e \<Rightarrow> False)"

lemma selected_add_where: "selected D (add_where cl q) r \<longleftrightarrow> selected D q r \<and> holds D r cl = Some True"
  by (simp add: selected_def add_where_def)

lemma orders_add_where [simp]: "orders (add_where cl q) = orders q"
  by (simp add: add_where_def)

lemma filter_list_selects:
  "create_query_for_filter_list allowed fs q = Inr q' \<Longrightarrow>
   orders q' = orders q \<and> (\<forall>r. selected D q' r \<longleftrightarrow> selected D q r \<and> (\<forall>f \<in> set fs. kept D allowed f r))"
proof (induction fs arbitrary: q)
  case (Cons f fs)
  from Cons.prems obtain q1 where q1: "create_query_for_filter allowed f q = Inr q1"
    and r: "create_query_for_filter_list allowed fs q1 = Inr q'"
    by (auto simp: create_query_for_filter_list_def split: sum.splits)
  have "orders q1 = orders q \<and> (\<forall>r. selected D q1 r \<longleftrightarrow> selected D q r \<and> kept D allowed f r)"
    using q1 by (auto simp: create_query_for_filter_def kept_def selected_add_where map_sum_def
        split: sum.splits option.splits)
  with Cons.IH [OF r] show ?case by auto
qed (simp add: create_query_for_filter_list_def)

lemma sorting_list_orders:
  "create_query_for_sorting_list allowed ss q = Inr q' \<Longrightarrow>
   wheres q' = wheres q \<and> orders q' = orders q @ map (\<lambda>s. (fst (the (allowed (s_field s))), s_direction s)) ss"
  by (induction ss arbitrary: q)
    (auto simp: create_query_for_sorting_list_def create_query_for_sorting_def order_by_def split: sum.splits option.splits)

subsection \<open>Properties\<close>


definition sample_dialect :: dialect where
  "sample_dialect = \<lparr>like = (\<lambda>k p s. py_contains p s), arrange = (\<lambda>keys rows. rows)\<rparr>"

definition int_column :: "string \<rightharpoonup> attr" where
  "int_column = [''age'' \<mapsto> (''age'', TInt)]"

definition older_than_30 :: filter_model where
  "older_than_30 = \<lparr>f_field = ''age'', f_operator = NumGt, f_value = VStr ''30''\<rparr>"

lemma older_than_30_clause:
  "filter_clause int_column older_than_30 = Inr (Some (Compare CGt ''age'' (LInt 30)))"
  by code_simp


text \<open>
  A request can only fail with an answer to the client: the error is an invalid filter or an invalid sort (status 422), unless a
  column of an unknown type was allowed.
\<close>

theorem rule_errors_are_client_errors:
  assumes "listing_query S (rule_operations run sorts filters) no_call = Inl e"
  shows "exc_cls e = InvalidFilterError \<or> exc_cls e = InvalidSortError
    \<or> exc_cls e = ValueError \<and> (\<exists>f c n. f \<in> set filters \<and> allowed_filters run (f_field f) = Some (c, TOther n))"
proof -
  consider q where "create_query_for_sorting_list (allowed_sorts run) sorts q = Inl e"
    | q where "create_query_for_filter_list (allowed_filters run) filters q = Inl e"
    using assms
    by (auto simp: listing_query_def rule_operations_def no_call_def apply_rule_def on_statement_def map_sum_def Let_def
        split: sum.splits)
  then show ?thesis
  proof cases
    case 1
    then show ?thesis
      by (auto simp: create_query_for_sorting_list_def create_query_for_sorting_def dest!: reduce_error split: option.splits)
  next
    case 2
    then show ?thesis
      by (auto simp: create_query_for_filter_list_def dest!: reduce_error dest: create_filter_error)
  qed
qed

theorem rule_errors_are_client_errors_witness:
  "\<exists>e. listing_query (table_sql sample_dialect []) (rule_operations \<lparr>allowed_filters = int_column, allowed_sorts = Map.empty\<rparr> []
        [\<lparr>f_field = ''age'', f_operator = NumGt, f_value = VStr ''old''\<rparr>]) no_call = Inl e \<and> exc_cls e = InvalidFilterError"
proof -
  let ?e = "Exc InvalidFilterError ''Invalid integer value: old for field age''"
  have "listing_query (table_sql sample_dialect []) (rule_operations \<lparr>allowed_filters = int_column, allowed_sorts = Map.empty\<rparr> []
        [\<lparr>f_field = ''age'', f_operator = NumGt, f_value = VStr ''old''\<rparr>]) no_call = Inl ?e"
    by (simp add: listing_query_def rule_operations_def no_call_def apply_rule_def on_statement_def Let_def apply_stmt_def
        generate_filtered_query_def create_query_for_sorting_list_def create_query_for_filter_list_def
        create_query_for_filter_def filter_clause_def int_column_def no_value_def int_filter_def int_single_filter_def
        int_pattern_def py_isdigit_def is_digit_def invalid_def)
  with rule_errors_are_client_errors [OF this] show ?thesis by (auto simp: int_column_def)
qed

text \<open>
  The pages of a listing with client rules, put together, hold exactly the rows of the table that every filter asks
  for, each as often as the table has it, in the order the database gives them for the columns of the sorts, in the
  order of the request.
\<close>

theorem filtered_pages_hold_matching_rows:
  assumes "listing_query (table_sql D table) (rule_operations run sorts filters) no_call = Inr q" "0 < n"
    and "query (table_sql D table) (rule_operations run sorts filters) no_call Count_subquery \<lparr>page = 0, page_size = n\<rparr> = Inr p0"
  shows "concat (map (\<lambda>p. items (projr (query (table_sql D table) (rule_operations run sorts filters) no_call tt
           \<lparr>page = p, page_size = n\<rparr>))) [0..<nat (total_pages p0)])
     = arrange D (map (\<lambda>s. (fst (the (allowed_sorts run (s_field s))), s_direction s)) sorts)
         (filter (\<lambda>r. \<forall>f \<in> set filters. kept D (allowed_filters run) f r) table)"
proof -
  let ?start = "\<lparr>wheres = [], orders = []\<rparr> :: statement"
  obtain q1 q2 where s: "create_query_for_sorting_list (allowed_sorts run) sorts ?start = Inr q1"
    and f: "create_query_for_filter_list (allowed_filters run) filters q1 = Inr q2" and q: "q = (q2, [])"
    using assms(1)
    by (auto simp: listing_query_def rule_operations_def no_call_def apply_rule_def on_statement_def map_sum_def Let_def
        apply_stmt_def generate_filtered_query_def table_sql_def split: sum.splits)
  have "selected D q2 = (\<lambda>r. \<forall>f \<in> set filters. kept D (allowed_filters run) f r)"
    "orders q2 = map (\<lambda>s. (fst (the (allowed_sorts run (s_field s))), s_direction s)) sorts"
    using filter_list_selects [OF f, of D] sorting_list_orders [OF s] by (auto simp: fun_eq_iff selected_def)
  then have "sql_rows (table_sql D table) q =
     arrange D (map (\<lambda>s. (fst (the (allowed_sorts run (s_field s))), s_direction s)) sorts)
         (filter (\<lambda>r. \<forall>f \<in> set filters. kept D (allowed_filters run) f r) table)"
    by (simp add: q table_sql_def table_rows_def)
  moreover have "\<not> op_unique (rule_operations run sorts filters)" by (simp add: rule_operations_def)
  ultimately show ?thesis using table_sql.pages_concat(2) [OF assms(1) _ assms(2,3)] by simp
qed

definition sample_table :: "row list" where
  "sample_table = map (\<lambda>n. [''age'' \<mapsto> LInt n]) [20, 40, 30, 50, 60]"

definition sample_rules :: "cut_statement operations" where
  "sample_rules = rule_operations \<lparr>allowed_filters = int_column, allowed_sorts = Map.empty\<rparr> [] [older_than_30]"

lemma sample_listing:
  "listing_query (table_sql sample_dialect sample_table) sample_rules no_call =
     Inr (\<lparr>wheres = [Compare CGt ''age'' (LInt 30)], orders = []\<rparr>, [])"
  by (simp add: listing_query_def sample_rules_def rule_operations_def no_call_def apply_rule_def on_statement_def Let_def apply_stmt_def
        generate_filtered_query_def create_query_for_sorting_list_def create_query_for_filter_list_def
        create_query_for_filter_def older_than_30_clause add_where_def table_sql_def)

theorem filtered_pages_hold_matching_rows_witness:
  "concat (map (\<lambda>p. items (projr (query (table_sql sample_dialect sample_table)
       (rule_operations \<lparr>allowed_filters = int_column, allowed_sorts = Map.empty\<rparr> [] [older_than_30]) no_call Total_over
       \<lparr>page = p, page_size = 2\<rparr>))) [0..<2]) = map (\<lambda>n. [''age'' \<mapsto> LInt n]) [40, 50, 60]"
proof -
  have q: "query (table_sql sample_dialect sample_table) sample_rules no_call Count_subquery \<lparr>page = 0, page_size = 2\<rparr> =
     Inr \<lparr>items = map (\<lambda>n. [''age'' \<mapsto> LInt n]) [40, 50], total = 2, unpaginated_total = 3, total_pages = 2\<rparr>"
    unfolding query_def sample_listing
    by (simp add: paginate_def judge_unique_def sample_rules_def rule_operations_def table_sql_def table_rows_def
        sample_dialect_def sample_table_def selected_def ceiling_eq_iff)
  have "arrange sample_dialect [] (filter (\<lambda>r. \<forall>f \<in> {older_than_30}. kept sample_dialect int_column f r) sample_table)
      = map (\<lambda>n. [''age'' \<mapsto> LInt n]) [40, 50, 60]"
    by (simp add: kept_def older_than_30_clause sample_dialect_def sample_table_def)
  then show ?thesis
    using filtered_pages_hold_matching_rows [of sample_dialect sample_table
        "\<lparr>allowed_filters = int_column, allowed_sorts = Map.empty\<rparr>" "[]" "[older_than_30]" _ 2 _ Total_over,
        OF sample_listing [unfolded sample_rules_def] _ q [unfolded sample_rules_def]]
    by simp
qed

text \<open>
  The operators that need no value are ignored without one, except on a column of identifiers: a filter \<open>isEmpty\<close> as the
  client sends it, with the default empty value, leaves the query as it is on a text, date, truth or number column.
\<close>

theorem empty_checks_need_a_value:
  assumes "allowed (f_field f) = Some (c, ft)" "f_operator f = IsEmpty" "f_value f = VStr []"
  shows "create_query_for_filter allowed f q = Inr (if ft = TUuid then add_where (Is_null c) q else q)"
  using assms by (simp add: create_query_for_filter_def filter_clause_def uuid_filter_def no_value_def)

theorem empty_checks_need_a_value_witness:
  "create_query_for_filter int_column \<lparr>f_field = ''age'', f_operator = IsEmpty, f_value = VStr []\<rparr>
     \<lparr>wheres = [], orders = []\<rparr> = Inr \<lparr>wheres = [], orders = []\<rparr>"
  using empty_checks_need_a_value [of int_column "\<lparr>f_field = ''age'', f_operator = IsEmpty, f_value = VStr []\<rparr>"]
  by (simp add: int_column_def)

lemma case_sensitivity_is_ignored:
  "criteria_inject [(c, StringCriteria v e True)] q = criteria_inject [(c, StringCriteria v e False)] q"
  by (simp add: criteria_inject_def)

end
