(* ===== verification/Rpc_Client.thy ===== *)
theory Rpc_Client
  imports Py_Text
begin

section \<open>The declarative HTTP client\<close>

text \<open>
  \<^verbatim>\<open>rpc/http/decorators.py\<close>: the methods that \<open>HttpRpcClientBuilder.build\<close> creates, with the request built from the
  decorators, hooks and middlewares, the cache, the retries and the treatment of the response;
  \<^verbatim>\<open>rpc/http/backends/httpx.py\<close>: the arguments handed to \<^verbatim>\<open>httpx\<close>. The HTTP backend, the clock and the pauses are calls of
  the environment. Of an argument only its kind, its text and its encoding as a body are kept: the encodings of pydantic and
  JSON are not part of the repository. The hash of a cache key is a parameter.
\<close>

subsection \<open>Data\<close>

datatype arg_kind = KModel | KBytes | KStr | KDict | KNone | KOther

record arg =
  a_kind :: arg_kind
  a_text :: string      \<comment> \<open>\<open>str(v)\<close>\<close>
  a_body :: string      \<comment> \<open>the bytes of the body made from it\<close>

record response =
  status_code :: int
  data :: string

record request =
  url :: string
  verb :: string
  headers :: "(string \<times> string) list"
  query_params :: "(string \<times> string) list"
  body :: "string option"
  timeout :: "rat option"
  form_data :: "(string \<times> arg) list option"
  files :: "(string \<times> arg) list option"
  cached_response :: "response option"

record rpc_retry_policy =
  max_attempts :: int
  backoff_factor :: rat
  retry_on_status_codes :: "int list"

datatype attribute_type = AQuery | AHeader | ABody | AParam | AForm | AFile

text \<open>The return annotation of a method. \<open>Not_a_class\<close> is an annotation such as \<open>list[Model]\<close>.\<close>

datatype 'v return_type =
    No_annotation | Model_type "string \<Rightarrow> 'v result" | Bytes_type | None_annotation | Plain_class | Not_a_class

datatype 'v rpc_value = Raw response | Parsed 'v | Bytes string | Handled 'v

record 'v method_spec =
  m_verb :: string
  m_path :: string
  m_success :: "int list"
  m_params :: "string list"
  m_attributes :: "(attribute_type \<times> string) list"
  m_timeout :: "rat option"
  m_retry :: "rpc_retry_policy option"
  m_content_type :: "string option"
  m_return :: "'v return_type"
  m_handlers :: "(int \<times> (request \<Rightarrow> response \<Rightarrow> 'v result)) list"

text \<open>\<open>RPCRetryPolicy.__init__\<close>: an empty list of codes means the default ones.\<close>

definition rpc_retry_policy_of :: "int \<Rightarrow> rat \<Rightarrow> int list option \<Rightarrow> rpc_retry_policy" where
  "rpc_retry_policy_of attempts factor codes =
     \<lparr>max_attempts = attempts, backoff_factor = factor,
      retry_on_status_codes = (case codes of Some (c # cs) \<Rightarrow> c # cs | _ \<Rightarrow> [500, 502, 503, 504])\<rparr>"

subsection \<open>Building the request\<close>

definition rstrip_slash :: "string \<Rightarrow> string" where
  "rstrip_slash s = rev (dropWhile (\<lambda>c. c = CHR ''/'') (rev s))"

definition lstrip_slash :: "string \<Rightarrow> string" where
  "lstrip_slash s = dropWhile (\<lambda>c. c = CHR ''/'') s"

definition join_path :: "string \<Rightarrow> string \<Rightarrow> string" where
  "join_path base path = rstrip_slash base @ ''/'' @ lstrip_slash path"

definition compiled_kwargs :: "string list \<Rightarrow> arg list \<Rightarrow> (string \<times> arg) list \<Rightarrow> (string \<times> arg) list" where
  "compiled_kwargs params args kwargs = dict_update (dict_update [] (zip params args)) kwargs"

record parts =
  p_headers :: "(string \<times> string) list"
  p_query :: "(string \<times> string) list"
  p_body :: "arg option"
  p_path :: string
  p_form :: "(string \<times> arg) list"
  p_files :: "(string \<times> arg) list"

fun add_attribute :: "attribute_type \<Rightarrow> string \<Rightarrow> arg \<Rightarrow> parts \<Rightarrow> parts" where
  "add_attribute AHeader n v p = p\<lparr>p_headers := p_headers p @ [(n, a_text v)]\<rparr>"
| "add_attribute AQuery n v p = p\<lparr>p_query := dict_set n (a_text v) (p_query p)\<rparr>"
| "add_attribute ABody n v p = p\<lparr>p_body := Some v\<rparr>"
| "add_attribute AParam n v p = p\<lparr>p_path := py_replace (CHR '':'' # n) (a_text v) (p_path p)\<rparr>"
| "add_attribute AForm n v p = p\<lparr>p_form := dict_set n v (p_form p)\<rparr>"
| "add_attribute AFile n v p = p\<lparr>p_files := dict_set n v (p_files p)\<rparr>"

fun add_attributes :: "(attribute_type \<times> string) list \<Rightarrow> (string \<times> arg) list \<Rightarrow> parts \<Rightarrow> parts result" where
  "add_attributes [] kw p = Inr p"
| "add_attributes ((t, n) # as) kw p =
     (case map_of kw n of None \<Rightarrow> Inl (Exc KeyError n) | Some v \<Rightarrow> add_attributes as kw (add_attribute t n v p))"

text \<open>The body, with whether it is JSON; an absent argument and \<open>None\<close> give no body.\<close>

definition encode_body :: "arg option \<Rightarrow> (string option \<times> bool) result" where
  "encode_body b =
     (case b of None \<Rightarrow> Inr (None, False)
      | Some v \<Rightarrow> (case a_kind v of
            KNone \<Rightarrow> Inr (None, False)
          | KModel \<Rightarrow> Inr (Some (a_body v), True)
          | KDict \<Rightarrow> Inr (Some (a_body v), True)
          | KBytes \<Rightarrow> Inr (Some (a_body v), False)
          | KStr \<Rightarrow> Inr (Some (a_body v), False)
          | KOther \<Rightarrow> Inl (Exc ValueError ''Invalid body type'')))"

definition non_empty :: "'a list \<Rightarrow> 'a list option" where
  "non_empty xs = (if xs = [] then None else Some xs)"

definition content_type_headers :: "string option \<Rightarrow> bool \<Rightarrow> (string \<times> string) list" where
  "content_type_headers ct json =
     (case ct of Some t \<Rightarrow> [(''Content-Type'', t)]
      | None \<Rightarrow> if json then [(''Content-Type'', ''application/json'')] else [])"

definition build_request :: "string \<Rightarrow> 'v method_spec \<Rightarrow> arg list \<Rightarrow> (string \<times> arg) list \<Rightarrow> request result" where
  "build_request base m args kwargs =
     (case add_attributes (m_attributes m) (compiled_kwargs (m_params m) args kwargs)
             \<lparr>p_headers = [], p_query = [], p_body = None, p_path = join_path base (m_path m), p_form = [], p_files = []\<rparr> of
        Inl e \<Rightarrow> Inl e
      | Inr p \<Rightarrow>
          (case encode_body (p_body p) of
             Inl e \<Rightarrow> Inl e
           | Inr (b, json) \<Rightarrow>
               Inr \<lparr>url = p_path p, verb = m_verb m, headers = p_headers p @ content_type_headers (m_content_type m) json,
                    query_params = p_query p, body = b, timeout = m_timeout m,
                    form_data = non_empty (p_form p), files = non_empty (p_files p), cached_response = None\<rparr>))"

subsection \<open>Middlewares\<close>

text \<open>
  What a cache key is computed from. The headers are sorted and the dictionary is printed with sorted keys, so the key
  depends on them as multisets.
\<close>

type_synonym key_data = "string \<times> string \<times> (string \<times> string) multiset \<times> (string \<times> string) multiset"

definition cache_key :: "(key_data \<Rightarrow> string) \<Rightarrow> request \<Rightarrow> string" where
  "cache_key hash r = hash (verb r, url r, mset (query_params r), mset (headers r))"

datatype middleware =
    Bearer string
  | Basic string                                        \<comment> \<open>the encoded credentials\<close>
  | Api_key string string
  | Cache_mw rat "string \<rightharpoonup> response \<times> rat"
  | Other_mw "request \<Rightarrow> request result"

record answer =
  ans_time :: rat
  ans_response :: "response result"

datatype rpc_call = Clock | Send request | Sleep rat

type_synonym rpc_world = "(rpc_call, answer) world"

definition add_header :: "string \<Rightarrow> string \<Rightarrow> request \<Rightarrow> request" where
  "add_header n v r = r\<lparr>headers := headers r @ [(n, v)]\<rparr>"

definition cache_on_request ::
  "(key_data \<Rightarrow> string) \<Rightarrow> rat \<Rightarrow> (string \<rightharpoonup> response \<times> rat) \<Rightarrow> request \<Rightarrow> rpc_world \<Rightarrow> request \<times> rpc_world" where
  "cache_on_request hash ttl cache r w =
     (if verb r = ''GET''
      then (case cache (cache_key hash r) of
              None \<Rightarrow> (r, w)
            | Some (cached, timestamp) \<Rightarrow>
                (let (a, w1) = do_call Clock w
                 in if ans_time a - timestamp < ttl then (r\<lparr>cached_response := Some cached\<rparr>, w1) else (r, w1)))
      else (r, w))"

fun on_request :: "(key_data \<Rightarrow> string) \<Rightarrow> middleware \<Rightarrow> request \<Rightarrow> rpc_world \<Rightarrow> request result \<times> rpc_world" where
  "on_request hash (Bearer token) r w = (Inr (add_header ''Authorization'' (''Bearer '' @ token) r), w)"
| "on_request hash (Basic credentials) r w = (Inr (add_header ''Authorization'' (''Basic '' @ credentials) r), w)"
| "on_request hash (Api_key key name) r w = (Inr (add_header name key r), w)"
| "on_request hash (Cache_mw ttl cache) r w = (let (r', w') = cache_on_request hash ttl cache r w in (Inr r', w'))"
| "on_request hash (Other_mw f) r w = (f r, w)"

fun run_middlewares :: "(key_data \<Rightarrow> string) \<Rightarrow> middleware list \<Rightarrow> request \<Rightarrow> rpc_world \<Rightarrow> request result \<times> rpc_world" where
  "run_middlewares hash [] r w = (Inr r, w)"
| "run_middlewares hash (m # ms) r w =
     (case on_request hash m r w of (Inl e, w1) \<Rightarrow> (Inl e, w1) | (Inr r1, w1) \<Rightarrow> run_middlewares hash ms r1 w1)"

text \<open>The caches are filled after the response went through middlewares and hooks, with the time of that moment.\<close>

fun store_response :: "(key_data \<Rightarrow> string) \<Rightarrow> request \<Rightarrow> response \<Rightarrow> middleware list \<Rightarrow> rpc_world \<Rightarrow> middleware list \<times> rpc_world" where
  "store_response hash r resp [] w = ([], w)"
| "store_response hash r resp (Cache_mw ttl cache # ms) w =
     (let (a, w1) = do_call Clock w;
          (ms', w2) = store_response hash r resp ms w1
      in (Cache_mw ttl (cache(cache_key hash r \<mapsto> (resp, ans_time a))) # ms', w2))"
| "store_response hash r resp (m # ms) w = (let (ms', w1) = store_response hash r resp ms w in (m # ms', w1))"

subsection \<open>Retries\<close>

definition send :: "request \<Rightarrow> rpc_world \<Rightarrow> response result \<times> rpc_world" where
  "send r w = (let (a, w1) = do_call (Send r) w in (ans_response a, w1))"

definition pause :: "rpc_retry_policy \<Rightarrow> nat \<Rightarrow> rpc_world \<Rightarrow> rpc_world" where
  "pause p attempt w = snd (do_call (Sleep (backoff_factor p * 2 ^ attempt)) w)"

fun attempt_loop :: "rpc_retry_policy \<Rightarrow> nat list \<Rightarrow> exc option \<Rightarrow> request \<Rightarrow> rpc_world \<Rightarrow> response result \<times> rpc_world" where
  "attempt_loop p [] prev r w = (Inl (case prev of Some e \<Rightarrow> e | None \<Rightarrow> Exc OtherError ''Retry failed''), w)"
| "attempt_loop p (i # is) prev r w =
     (case send r w of
        (Inr resp, w1) \<Rightarrow>
          (if status_code resp \<in> set (retry_on_status_codes p) \<and> int i < max_attempts p - 1
           then attempt_loop p is prev r (pause p i w1)
           else (Inr resp, w1))
      | (Inl e, w1) \<Rightarrow>
          (if \<not> is_Exception e then (Inl e, w1)
           else if int i < max_attempts p - 1 then attempt_loop p is (Some e) r (pause p i w1)
           else (Inl e, w1)))"

definition execute_with_retry :: "rpc_retry_policy option \<Rightarrow> request \<Rightarrow> rpc_world \<Rightarrow> response result \<times> rpc_world" where
  "execute_with_retry p r w =
     (case p of None \<Rightarrow> send r w | Some q \<Rightarrow> attempt_loop q [0..<nat (max_attempts q)] None r w)"

subsection \<open>The method of the client\<close>

record client =
  base_path :: string
  middlewares :: "middleware list"
  request_hooks :: "(request \<Rightarrow> request result) list"
  response_middlewares :: "(request \<Rightarrow> response \<Rightarrow> response result) list"
  response_hooks :: "(request \<Rightarrow> response \<Rightarrow> response result) list"

fun run_hooks :: "(request \<Rightarrow> request result) list \<Rightarrow> request \<Rightarrow> request result" where
  "run_hooks [] r = Inr r"
| "run_hooks (h # hs) r = (case h r of Inl e \<Rightarrow> Inl e | Inr r1 \<Rightarrow> run_hooks hs r1)"

fun run_on_response :: "(request \<Rightarrow> response \<Rightarrow> response result) list \<Rightarrow> request \<Rightarrow> response \<Rightarrow> response result" where
  "run_on_response [] r x = Inr x"
| "run_on_response (h # hs) r x = (case h r x of Inl e \<Rightarrow> Inl e | Inr x1 \<Rightarrow> run_on_response hs r x1)"

text \<open>
  What the method returns for a response: a success is read by the return annotation, anything else goes to the first handler of
  the status, the ones of the route before the ones of the class. \<open>issubclass\<close> refuses an annotation that is no class.
\<close>

definition read_result :: "'v return_type \<Rightarrow> response \<Rightarrow> 'v rpc_value option result" where
  "read_result t resp =
     (case t of
        No_annotation \<Rightarrow> Inr (Some (Raw resp))
      | Model_type parse \<Rightarrow> map_sum id (\<lambda>v. Some (Parsed v)) (parse (data resp))
      | Bytes_type \<Rightarrow> Inr (Some (Bytes (data resp)))
      | None_annotation \<Rightarrow> Inl (Exc TypeError ''issubclass() arg 1 must be a class'')
      | Not_a_class \<Rightarrow> Inl (Exc TypeError ''issubclass() arg 1 must be a class'')
      | Plain_class \<Rightarrow> Inr (Some (Raw resp)))"

definition finish ::
  "'v method_spec \<Rightarrow> (int \<times> (request \<Rightarrow> response \<Rightarrow> 'v result)) list \<Rightarrow> request \<Rightarrow> response \<Rightarrow> 'v rpc_value option result" where
  "finish m global_handlers r resp =
     (if status_code resp \<in> set (m_success m) then read_result (m_return m) resp
      else (case map_of (m_handlers m @ global_handlers) (status_code resp) of
              Some callback \<Rightarrow> map_sum id (\<lambda>v. Some (Handled v)) (callback r resp)
            | None \<Rightarrow> Inl (Exc RPCUnhandleError (''Unhandle error '' @ str_int (status_code resp)))))"

definition obtain_response ::
  "client \<Rightarrow> rpc_retry_policy option \<Rightarrow> request \<Rightarrow> rpc_world \<Rightarrow> response result \<times> rpc_world" where
  "obtain_response c retry r w =
     (let (x, w1) = (case cached_response r of Some resp \<Rightarrow> (Inr resp, w) | None \<Rightarrow> execute_with_retry retry r w)
      in case x of
           Inl e \<Rightarrow> (Inl e, w1)
         | Inr resp \<Rightarrow>
             (case run_on_response (response_middlewares c) r resp of
                Inl e \<Rightarrow> (Inl e, w1)
              | Inr resp1 \<Rightarrow> (run_on_response (response_hooks c) r resp1, w1)))"

definition rpc_method ::
  "(key_data \<Rightarrow> string) \<Rightarrow> 'v method_spec \<Rightarrow> (int \<times> (request \<Rightarrow> response \<Rightarrow> 'v result)) list \<Rightarrow>
   arg list \<Rightarrow> (string \<times> arg) list \<Rightarrow> client \<Rightarrow> rpc_world \<Rightarrow> 'v rpc_value option result \<times> client \<times> rpc_world" where
  "rpc_method hash m global_handlers args kwargs c w =
     (case build_request (base_path c) m args kwargs of
        Inl e \<Rightarrow> (Inl e, c, w)
      | Inr r0 \<Rightarrow>
          (case run_hooks (request_hooks c) r0 of
             Inl e \<Rightarrow> (Inl e, c, w)
           | Inr r1 \<Rightarrow>
               (case run_middlewares hash (middlewares c) r1 w of
                  (Inl e, w1) \<Rightarrow> (Inl e, c, w1)
                | (Inr r, w1) \<Rightarrow>
                    (case obtain_response c (m_retry m) r w1 of
                       (Inl e, w2) \<Rightarrow> (Inl e, c, w2)
                     | (Inr resp, w2) \<Rightarrow>
                         (let (ms, w3) = (if verb r = ''GET'' then store_response hash r resp (middlewares c) w2
                                          else (middlewares c, w2))
                          in (finish m global_handlers r resp, c\<lparr>middlewares := ms\<rparr>, w3))))))"

subsection \<open>The \<^verbatim>\<open>httpx\<close> backend\<close>

datatype payload = Multipart "(string \<times> arg) list" "(string \<times> arg) list" | Form "(string \<times> arg) list" | Content string | No_payload

record httpx_kwargs =
  h_method :: string
  h_url :: string
  h_headers :: "(string \<times> string) list"
  h_params :: "(string \<times> string) list"
  h_timeout :: rat
  h_payload :: payload

definition request_kwargs :: "(string \<Rightarrow> string) \<Rightarrow> rat \<Rightarrow> request \<Rightarrow> httpx_kwargs" where
  "request_kwargs urljoin default_timeout r =
     \<lparr>h_method = verb r, h_url = urljoin (url r), h_headers = headers r, h_params = query_params r,
      h_timeout = (case timeout r of Some t \<Rightarrow> t | None \<Rightarrow> default_timeout),
      h_payload = (case (form_data r, files r) of
                     (Some (f # fs), Some (g # gs)) \<Rightarrow> Multipart (f # fs) (g # gs)
                   | (Some (f # fs), _) \<Rightarrow> Form (f # fs)
                   | _ \<Rightarrow> (case body r of Some (b # bs) \<Rightarrow> Content (b # bs) | _ \<Rightarrow> No_payload))\<rparr>"

subsection \<open>Properties\<close>

definition retryable :: "rpc_retry_policy \<Rightarrow> response result \<Rightarrow> bool" where
  "retryable p x = (case x of Inl e \<Rightarrow> is_Exception e | Inr resp \<Rightarrow> status_code resp \<in> set (retry_on_status_codes p))"

text \<open>The calls of \<open>k\<close> attempts from the attempt \<open>i\<close> on, with the pauses between them.\<close>

fun attempt_log :: "rpc_retry_policy \<Rightarrow> request \<Rightarrow> nat \<Rightarrow> nat \<Rightarrow> rpc_call list" where
  "attempt_log p r i 0 = []"
| "attempt_log p r i (Suc 0) = [Send r]"
| "attempt_log p r i (Suc (Suc k)) = Send r # Sleep (backoff_factor p * 2 ^ i) # attempt_log p r (Suc i) (Suc k)"

text \<open>What the backend answers to the \<open>j\<close>-th attempt made from the world \<open>w\<close>.\<close>

definition attempt_answer :: "rpc_world \<Rightarrow> nat \<Rightarrow> response result" where
  "attempt_answer w j = ans_response (answers w (length (calls w) + 2 * j))"

lemma attempt_loop_run:
  assumes "i < nat (max_attempts p)"
  shows "\<exists>k. 0 < k \<and> i + k \<le> nat (max_attempts p)
    \<and> attempt_loop p [i..<nat (max_attempts p)] prev r w = (attempt_answer w (k - 1), w\<lparr>calls := calls w @ attempt_log p r i k\<rparr>)
    \<and> (\<forall>j < k - 1. retryable p (attempt_answer w j))
    \<and> (i + k < nat (max_attempts p) \<longrightarrow> \<not> retryable p (attempt_answer w (k - 1)))"
  using assms
proof (induction "nat (max_attempts p) - i" arbitrary: i prev w)
  case (Suc d)
  let ?n = "nat (max_attempts p)"
  have up: "[i..<?n] = i # [Suc i..<?n]" using Suc.prems by (rule upt_conv_Cons)
  let ?w1 = "w\<lparr>calls := calls w @ [Send r]\<rparr>"
  have s: "send r w = (attempt_answer w 0, ?w1)" by (simp add: send_def do_call_def attempt_answer_def)
  show ?case
  proof (cases "retryable p (attempt_answer w 0) \<and> Suc i < ?n")
    case False
    then have "attempt_loop p [i..<?n] prev r w = (attempt_answer w 0, ?w1)"
      by (auto simp: up s retryable_def split: sum.splits)
    with False Suc.prems show ?thesis by (intro exI [of _ 1]) auto
  next
    case True
    let ?w2 = "pause p i ?w1"
    have w2: "?w2 = w\<lparr>calls := calls w @ [Send r, Sleep (backoff_factor p * 2 ^ i)]\<rparr>" by (simp add: pause_def do_call_def)
    have ans: "attempt_answer ?w2 j = attempt_answer w (Suc j)" for j by (simp add: attempt_answer_def w2)
    have "\<exists>prev'. attempt_loop p [i..<?n] prev r w = attempt_loop p [Suc i..<?n] prev' r ?w2"
      using True by (cases "attempt_answer w 0") (auto simp: up s retryable_def)
    then obtain prev' where l: "attempt_loop p [i..<?n] prev r w = attempt_loop p [Suc i..<?n] prev' r ?w2" ..
    have "d = ?n - Suc i" "Suc i < ?n" using Suc.hyps(2) True by auto
    from Suc.hyps(1) [OF this, of prev' ?w2] obtain k where k: "0 < k" "Suc i + k \<le> ?n"
      "attempt_loop p [Suc i..<?n] prev' r ?w2 = (attempt_answer w k, ?w2\<lparr>calls := calls ?w2 @ attempt_log p r (Suc i) k\<rparr>)"
      "\<forall>j < k - 1. retryable p (attempt_answer w (Suc j))"
      "Suc i + k < ?n \<longrightarrow> \<not> retryable p (attempt_answer w k)"
      unfolding ans by auto
    have "\<forall>j < Suc k - 1. retryable p (attempt_answer w j)" using k(1,4) True by (auto simp: less_Suc_eq_0_disj gr0_conv_Suc)
    moreover have "w\<lparr>calls := calls w @ attempt_log p r i (Suc k)\<rparr> = ?w2\<lparr>calls := calls ?w2 @ attempt_log p r (Suc i) k\<rparr>"
      using k(1) by (cases k) (simp_all add: w2)
    ultimately show ?thesis using k l by (intro exI [of _ "Suc k"]) auto
  qed
qed simp

text \<open>
  (C29) A request with a retry policy is sent between one and \<open>max_attempts\<close> times, with pauses that double from
  \<open>backoff_factor\<close> on; the method goes on with the answer of the last attempt, the earlier ones were errors or statuses to be
  retried, and it stops before \<open>max_attempts\<close> only at an answer that is neither.
\<close>

theorem rpc_retry_outcome:
  assumes "0 < max_attempts p"
  shows "\<exists>k. 0 < k \<and> int k \<le> max_attempts p
    \<and> execute_with_retry (Some p) r w = (attempt_answer w (k - 1), w\<lparr>calls := calls w @ attempt_log p r 0 k\<rparr>)
    \<and> (\<forall>j < k - 1. retryable p (attempt_answer w j))
    \<and> (int k < max_attempts p \<longrightarrow> \<not> retryable p (attempt_answer w (k - 1)))"
proof -
  from assms attempt_loop_run [of 0 p None r w] obtain k where "0 < k" "0 + k \<le> nat (max_attempts p)"
    "attempt_loop p [0..<nat (max_attempts p)] None r w = (attempt_answer w (k - 1), w\<lparr>calls := calls w @ attempt_log p r 0 k\<rparr>)"
    "\<forall>j < k - 1. retryable p (attempt_answer w j)"
    "0 + k < nat (max_attempts p) \<longrightarrow> \<not> retryable p (attempt_answer w (k - 1))" by auto
  then show ?thesis by (intro exI [of _ k]) (auto simp: execute_with_retry_def)
qed

definition sample_request :: request where
  "sample_request = \<lparr>url = ''/users/7'', verb = ''GET'', headers = [], query_params = [], body = None, timeout = None,
     form_data = None, files = None, cached_response = None\<rparr>"

definition flaky_world :: rpc_world where
  "flaky_world = \<lparr>calls = [], answers = (\<lambda>i. \<lparr>ans_time = of_nat i, ans_response =
     Inr \<lparr>status_code = (if i < 3 then 503 else 200), data = ''ok''\<rparr>\<rparr>)\<rparr>"

theorem rpc_retry_outcome_witness:
  "\<exists>k. 0 < k \<and> int k \<le> 3
    \<and> execute_with_retry (Some (rpc_retry_policy_of 3 1 None)) sample_request flaky_world
      = (attempt_answer flaky_world (k - 1), flaky_world\<lparr>calls := attempt_log (rpc_retry_policy_of 3 1 None) sample_request 0 k\<rparr>)"
  using rpc_retry_outcome [of "rpc_retry_policy_of 3 1 None" sample_request flaky_world]
  by (auto simp: rpc_retry_policy_of_def flaky_world_def)

subsubsection \<open>The cache\<close>

text \<open>A client without hooks, and a sequence of equal calls of a method.\<close>

definition plain_client :: "string \<Rightarrow> middleware list \<Rightarrow> client" where
  "plain_client base ms =
     \<lparr>base_path = base, middlewares = ms, request_hooks = [], response_middlewares = [], response_hooks = []\<rparr>"

fun rpc_calls ::
  "nat \<Rightarrow> (key_data \<Rightarrow> string) \<Rightarrow> 'v method_spec \<Rightarrow> (int \<times> (request \<Rightarrow> response \<Rightarrow> 'v result)) list \<Rightarrow>
   arg list \<Rightarrow> (string \<times> arg) list \<Rightarrow> client \<Rightarrow> rpc_world \<Rightarrow> 'v rpc_value option result list \<times> client \<times> rpc_world" where
  "rpc_calls 0 hash m gh args kwargs c w = ([], c, w)"
| "rpc_calls (Suc n) hash m gh args kwargs c w =
     (let (x, c1, w1) = rpc_method hash m gh args kwargs c w;
          (xs, c2, w2) = rpc_calls n hash m gh args kwargs c1 w1
      in (x # xs, c2, w2))"

lemma build_request_verb: "build_request base m args kwargs = Inr r \<Longrightarrow> verb r = m_verb m \<and> cached_response r = None"
  by (auto simp: build_request_def split: sum.splits)

lemma cache_key_cached [simp]: "cache_key hash (r\<lparr>cached_response := x\<rparr>) = cache_key hash r"
  by (simp add: cache_key_def)

abbreviation time_at :: "rpc_world \<Rightarrow> nat \<Rightarrow> rat" where
  "time_at w i \<equiv> ans_time (answers w i)"

lemma cache_hit:
  assumes "build_request base m args kwargs = Inr r" "m_verb m = ''GET''"
    and "cache (cache_key hash r) = Some (resp, ts)" "time_at w (length (calls w)) - ts < ttl"
  shows "rpc_method hash m gh args kwargs (plain_client base [Cache_mw ttl cache]) w =
    (finish m gh (r\<lparr>cached_response := Some resp\<rparr>) resp,
     plain_client base [Cache_mw ttl (cache(cache_key hash r \<mapsto> (resp, time_at w (Suc (length (calls w))))))],
     w\<lparr>calls := calls w @ [Clock, Clock]\<rparr>)"
  using assms build_request_verb [OF assms(1)]
  by (simp add: rpc_method_def plain_client_def cache_on_request_def do_call_def obtain_response_def)

text \<open>
  A cached response never expires while it is used: every hit stores it again with the time of the hit. Calls that follow one another
  within the time to live are all answered with the first response, however old it is, and the backend is not asked.
\<close>

theorem cache_entry_never_expires:
  assumes "build_request base m args kwargs = Inr r" "m_verb m = ''GET''"
    and "cache (cache_key hash r) = Some (resp, ts)" "time_at w (length (calls w)) - ts < ttl"
    and "\<And>i. time_at w (Suc i) - time_at w i < ttl"
  shows "\<exists>c'. rpc_calls n hash m gh args kwargs (plain_client base [Cache_mw ttl cache]) w =
    (replicate n (finish m gh (r\<lparr>cached_response := Some resp\<rparr>) resp), c', w\<lparr>calls := calls w @ replicate (2 * n) Clock\<rparr>)"
  using assms(3-5)
proof (induction n arbitrary: cache ts w)
  case (Suc n)
  let ?t = "time_at w (Suc (length (calls w)))" and ?w = "w\<lparr>calls := calls w @ [Clock, Clock]\<rparr>"
  let ?cache = "cache(cache_key hash r \<mapsto> (resp, ?t))"
  have 1: "?cache (cache_key hash r) = Some (resp, ?t)" by simp
  have 2: "time_at ?w (length (calls ?w)) - ?t < ttl" using Suc.prems(3) [of "Suc (length (calls w))"] by simp
  have 3: "time_at ?w (Suc i) - time_at ?w i < ttl" for i using Suc.prems(3) [of i] by simp
  from Suc.IH [of ?cache, OF 1 2 3] obtain c' where
    "rpc_calls n hash m gh args kwargs (plain_client base [Cache_mw ttl ?cache]) ?w =
       (replicate n (finish m gh (r\<lparr>cached_response := Some resp\<rparr>) resp), c', ?w\<lparr>calls := calls ?w @ replicate (2 * n) Clock\<rparr>)"
    by blast
  then show ?case using cache_hit [where cache = cache, OF assms(1,2) Suc.prems(1,2)] by simp
qed simp

definition sample_method :: "nat method_spec" where
  "sample_method = \<lparr>m_verb = ''GET'', m_path = ''/users/7'', m_success = [200], m_params = [], m_attributes = [],
     m_timeout = None, m_retry = None, m_content_type = None, m_return = No_annotation, m_handlers = []\<rparr>"

lemma sample_build: "build_request [] sample_method [] [] = Inr sample_request"
  by code_simp

definition sample_cache :: "string \<rightharpoonup> response \<times> rat" where
  "sample_cache = [cache_key (\<lambda>(v, u, q, h). u) sample_request \<mapsto> (\<lparr>status_code = 200, data = ''old''\<rparr>, 0)]"

theorem cache_entry_never_expires_witness:
  "fst (rpc_calls 100 (\<lambda>(v, u, q, h). u) sample_method [] [] [] (plain_client [] [Cache_mw 10 sample_cache]) flaky_world) =
     replicate 100 (Inr (Some (Raw \<lparr>status_code = 200, data = ''old''\<rparr>)))"
proof -
  have "\<exists>c'. rpc_calls 100 (\<lambda>(v, u, q, h). u) sample_method [] [] [] (plain_client [] [Cache_mw 10 sample_cache]) flaky_world =
      (replicate 100 (finish sample_method [] (sample_request\<lparr>cached_response := Some \<lparr>status_code = 200, data = ''old''\<rparr>\<rparr>)
         \<lparr>status_code = 200, data = ''old''\<rparr>), c', flaky_world\<lparr>calls := calls flaky_world @ replicate (2 * 100) Clock\<rparr>)"
    by (rule cache_entry_never_expires [OF sample_build, where ts = 0])
      (simp_all add: sample_method_def sample_cache_def flaky_world_def)
  moreover have "finish sample_method [] q \<lparr>status_code = 200, data = ''old''\<rparr> = Inr (Some (Raw \<lparr>status_code = 200, data = ''old''\<rparr>))" for q
    by (simp add: finish_def sample_method_def read_result_def)
  ultimately show ?thesis by auto
qed

fun is_Send :: "rpc_call \<Rightarrow> bool" where
  "is_Send (Send r) = True"
| "is_Send _ = False"

lemma auth_key_differs: "inj hash \<Longrightarrow> cache_key hash (add_header n v r) \<noteq> cache_key hash r"
  by (auto simp: cache_key_def add_header_def dest: injD)

lemma cache_miss_before_auth:
  assumes "build_request base m args kwargs = Inr r" "m_verb m = ''GET''" "m_retry m = None" "inj hash"
    and "dom cache \<subseteq> {cache_key hash (add_header ''Authorization'' (''Bearer '' @ token) r)}"
    and "\<And>i. \<exists>resp. ans_response (answers w i) = Inr resp"
  shows "\<exists>x cache'. rpc_method hash m gh args kwargs (plain_client base [Cache_mw ttl cache, Bearer token]) w =
    (x, plain_client base [Cache_mw ttl cache', Bearer token],
     w\<lparr>calls := calls w @ [Send (add_header ''Authorization'' (''Bearer '' @ token) r), Clock]\<rparr>)
    \<and> dom cache' \<subseteq> {cache_key hash (add_header ''Authorization'' (''Bearer '' @ token) r)}"
proof -
  let ?r = "add_header ''Authorization'' (''Bearer '' @ token) r"
  have none: "cache (cache_key hash r) = None"
    using assms(5) auth_key_differs [OF assms(4), of "''Authorization''" "''Bearer '' @ token" r] by (cases "cache (cache_key hash r)") auto
  obtain resp where a: "ans_response (answers w (length (calls w))) = Inr resp" using assms(6) by blast
  have v: "verb r = ''GET''" "verb ?r = ''GET''" "cached_response ?r = None"
    using build_request_verb [OF assms(1)] assms(2) by (simp_all add: add_header_def)
  have "run_middlewares hash [Cache_mw ttl cache, Bearer token] r w = (Inr ?r, w)"
    using none by (simp add: cache_on_request_def)
  moreover have "obtain_response (plain_client base [Cache_mw ttl cache, Bearer token]) (m_retry m) ?r w =
      (Inr resp, w\<lparr>calls := calls w @ [Send ?r]\<rparr>)"
    using a v(3) assms(3) by (simp add: obtain_response_def execute_with_retry_def send_def do_call_def plain_client_def)
  ultimately show ?thesis
    using assms(1,5) v by (auto simp: rpc_method_def plain_client_def do_call_def)
qed

text \<open>
  A cache in front of a middleware that adds a header is never hit: the response is stored under a key computed from the request
  after all middlewares, and looked up under one from before. The same call made \<open>n\<close> times is sent \<open>n\<close> times.
\<close>

theorem cache_before_auth_never_hits:
  assumes "build_request base m args kwargs = Inr r" "m_verb m = ''GET''" "m_retry m = None" "inj hash"
    and "\<And>i. \<exists>resp. ans_response (answers w i) = Inr resp"
    and "rpc_calls n hash m gh args kwargs (plain_client base [Cache_mw ttl Map.empty, Bearer token]) w = (xs, c', w')"
  shows "length (filter is_Send (calls w')) = length (filter is_Send (calls w)) + n"
proof -
  have "length (filter is_Send (calls w')) = length (filter is_Send (calls w)) + n"
    if "dom cache \<subseteq> {cache_key hash (add_header ''Authorization'' (''Bearer '' @ token) r)}"
      "\<And>i. \<exists>resp. ans_response (answers w i) = Inr resp"
      "rpc_calls n hash m gh args kwargs (plain_client base [Cache_mw ttl cache, Bearer token]) w = (xs, c', w')" for cache xs
    using that
  proof (induction n arbitrary: cache w xs)
    case (Suc n)
    from cache_miss_before_auth [OF assms(1-4) Suc.prems(1,2), of gh ttl]
    obtain x cache' where 1: "rpc_method hash m gh args kwargs (plain_client base [Cache_mw ttl cache, Bearer token]) w =
        (x, plain_client base [Cache_mw ttl cache', Bearer token],
         w\<lparr>calls := calls w @ [Send (add_header ''Authorization'' (''Bearer '' @ token) r), Clock]\<rparr>)"
      and d: "dom cache' \<subseteq> {cache_key hash (add_header ''Authorization'' (''Bearer '' @ token) r)}" by auto
    obtain ys where "rpc_calls n hash m gh args kwargs (plain_client base [Cache_mw ttl cache', Bearer token])
         (w\<lparr>calls := calls w @ [Send (add_header ''Authorization'' (''Bearer '' @ token) r), Clock]\<rparr>) = (ys, c', w')"
      using Suc.prems(3) 1 by (auto split: prod.splits)
    from Suc.IH [OF d _ this] Suc.prems(2) show ?case by simp
  qed simp
  from this [of Map.empty] assms(5,6) show ?thesis by simp
qed

text \<open>
  A method annotated to return \<open>None\<close> always raises after a successful response: the annotation is given to \<open>issubclass\<close>
  before it is compared with \<open>None\<close>.
\<close>

theorem none_annotation_raises:
  assumes "m_return m = None_annotation" "status_code resp \<in> set (m_success m)"
  shows "finish m gh r resp = Inl (Exc TypeError ''issubclass() arg 1 must be a class'')"
  using assms by (simp add: finish_def read_result_def)

text \<open>A parameter is substituted wherever its name occurs, also inside a longer name; files without form fields are not sent.\<close>

lemma path_parameter_prefix:
  "map_sum id url (build_request [] (sample_method\<lparr>m_path := ''/a/:id/:idx'', m_params := [''id'', ''idx''],
      m_attributes := [(AParam, ''id''), (AParam, ''idx'')]\<rparr>)
     [\<lparr>a_kind = KStr, a_text = ''1'', a_body = []\<rparr>, \<lparr>a_kind = KStr, a_text = ''2'', a_body = []\<rparr>] []) = Inr ''/a/1/1x''"
  by code_simp

lemma files_alone_are_dropped:
  "form_data r = None \<Longrightarrow> body r = None \<Longrightarrow> h_payload (request_kwargs urljoin t r) = No_payload"
  by (simp add: request_kwargs_def)

end
