(* ===== verification/Client_Cancellation.thy ===== *)
theory Client_Cancellation
  imports Py_Text
begin

section \<open>Cancelling requests whose client has gone\<close>

text \<open>
  \<^verbatim>\<open>presentation/client_cancellation.py\<close>: the middleware \<open>ResponseStartedMarker\<close>, the guard dependency with its watcher task,
  \<open>QueryGuard.run\<close>, and the answer for an abandoned request. The guard and its watcher run interleaved with the request and
  with the rest of the server; this is the step relation \<open>guard_step\<close>, one step per stretch of code without \<open>await\<close>.
\<close>

subsection \<open>The marker\<close>

definition RESPONSE_STARTED_SCOPE_KEY :: string where
  "RESPONSE_STARTED_SCOPE_KEY = ''app.response_started''"

definition CLIENT_CLOSED_REQUEST_STATUS :: int where
  "CLIENT_CLOSED_REQUEST_STATUS = 499"

text \<open>The flags of an ASGI scope; the type of a message is all the wrapper looks at.\<close>

type_synonym scope = "string \<rightharpoonup> bool"

definition marker_enter :: "string \<Rightarrow> string \<Rightarrow> scope \<Rightarrow> scope" where
  "marker_enter scope_key scope_type sc = (if scope_type \<noteq> ''http'' then sc else sc(scope_key \<mapsto> False))"

definition send_wrapper :: "string \<Rightarrow> string \<Rightarrow> scope \<Rightarrow> scope" where
  "send_wrapper scope_key message_type sc =
     (if message_type = ''http.response.start'' then sc(scope_key \<mapsto> True) else sc)"

subsection \<open>Entering the guard\<close>

datatype missing_marker = Raise_missing | Warn_missing

record guard_config =
  g_methods :: "string list option"
  g_scope_key :: string
  g_exception :: exc            \<comment> \<open>what the exception factory makes\<close>
  g_on_missing :: missing_marker

datatype entry = Unguarded | Refused exc | Guarded

definition missing_message :: "string \<Rightarrow> string" where
  "missing_message scope_key = ''Client cancellation guard requires ResponseStartedMarker (scope key ''
     @ py_repr scope_key @ ''); without it requests would be cancelled during dependency teardown. Install it with''
     @ '' app.add_middleware(ResponseStartedMarker) or install_client_cancellation(app).''"

text \<open>The second component is the flag \<open>warned_missing_marker\<close>, the third whether a warning is logged.\<close>

definition guard_enter :: "guard_config \<Rightarrow> string option \<Rightarrow> scope \<Rightarrow> bool \<Rightarrow> entry \<times> bool \<times> bool" where
  "guard_enter cfg method sc warned =
     (case method of
        None \<Rightarrow> (Unguarded, warned, False)
      | Some m \<Rightarrow>
          (if (\<exists>ms. g_methods cfg = Some ms \<and> py_upper m \<notin> py_upper ` set ms) then (Unguarded, warned, False)
           else if g_scope_key cfg \<notin> dom sc
           then (if g_on_missing cfg = Raise_missing
                 then (Refused (Exc RuntimeError (missing_message (g_scope_key cfg))), warned, False)
                 else (Unguarded, True, \<not> warned))
           else (Guarded, warned, False)))"

definition client_cancellation_guard_config :: guard_config where
  "client_cancellation_guard_config =
     \<lparr>g_methods = None, g_scope_key = RESPONSE_STARTED_SCOPE_KEY,
      g_exception = Exc ClientDisconnected [], g_on_missing = Raise_missing\<rparr>"

text \<open>\<open>ClientCancellationGuardFor\<close>: no method means every method.\<close>

definition guard_for :: "string list \<Rightarrow> guard_config \<Rightarrow> guard_config" where
  "guard_for methods cfg = cfg\<lparr>g_methods := (if methods = [] then None else Some methods)\<rparr>"

subsection \<open>The guarded request\<close>

text \<open>
  \<open>cancels\<close> is the number of cancellations requested of the request task (\<open>task.cancelling()\<close>); \<open>foreign_cancels\<close> counts those
  that others requested. The request either runs, or has left the guard with an outcome.
\<close>

datatype guard_phase = Inside | Left_with "exc option"

record guard_state =
  g_phase :: guard_phase
  g_scope :: scope
  client_gone :: bool           \<comment> \<open>\<open>request.is_disconnected()\<close>\<close>
  watching :: bool
  disconnected :: bool
  cancels :: nat
  foreign_cancels :: nat

definition guard_start :: "scope \<Rightarrow> guard_state" where
  "guard_start sc =
     \<lparr>g_phase = Inside, g_scope = sc, client_gone = False, watching = True, disconnected = False, cancels = 0, foreign_cancels = 0\<rparr>"

text \<open>The watcher wakes up: it goes on polling while the client is there, ends when the response has started, cancels otherwise.\<close>

definition watch :: "guard_config \<Rightarrow> guard_state \<Rightarrow> guard_state" where
  "watch cfg s =
     (if \<not> watching s \<or> \<not> client_gone s then s
      else if g_scope s (g_scope_key cfg) = Some True then s\<lparr>watching := False\<rparr>
      else s\<lparr>watching := False, disconnected := True, cancels := Suc (cancels s)\<rparr>)"

text \<open>The guard is resumed with what the request ended with; \<open>finally\<close> cancels the watcher.\<close>

definition guard_resume :: "guard_config \<Rightarrow> exc option \<Rightarrow> guard_state \<Rightarrow> guard_state" where
  "guard_resume cfg e s =
     (let s1 = s\<lparr>watching := False\<rparr>
      in case e of
           None \<Rightarrow> s1\<lparr>g_phase := Left_with None\<rparr>
         | Some x \<Rightarrow>
             (if exc_cls x \<noteq> CancelledError then s1\<lparr>g_phase := Left_with (Some x)\<rparr>
              else if \<not> disconnected s then s1\<lparr>g_phase := Left_with (Some x)\<rparr>
              else s1\<lparr>cancels := cancels s - 1, g_phase := Left_with (Some (g_exception cfg))\<rparr>))"

inductive guard_step :: "guard_config \<Rightarrow> guard_state \<Rightarrow> guard_state \<Rightarrow> bool" for cfg where
  Message: "guard_step cfg s (s\<lparr>g_scope := send_wrapper (g_scope_key cfg) m (g_scope s)\<rparr>)"
| Client_leaves: "guard_step cfg s (s\<lparr>client_gone := True\<rparr>)"
| Watcher: "guard_step cfg s (watch cfg s)"
| Foreign_cancel: "guard_step cfg s (s\<lparr>cancels := Suc (cancels s), foreign_cancels := Suc (foreign_cancels s)\<rparr>)"
| Request_ends: "g_phase s = Inside \<Longrightarrow> guard_step cfg s (guard_resume cfg e s)"

inductive guard_run :: "guard_config \<Rightarrow> guard_state \<Rightarrow> guard_state \<Rightarrow> bool" for cfg where
  Refl: "guard_run cfg s s"
| Step: "guard_run cfg s t \<Longrightarrow> guard_step cfg t u \<Longrightarrow> guard_run cfg s u"

inductive_cases guard_stepE: "guard_step cfg s t"

subsection \<open>Guarding one awaitable\<close>

text \<open>
  \<open>QueryGuard.run\<close>. \<open>asyncio.wait\<close> ends with the awaitable finished, the watcher finished (the client left), neither (the timeout),
  or with the cancellation of the request. An awaitable that is not finished is cancelled and awaited; what it ends
  with is discarded when it is the cancellation, and raised otherwise.
\<close>

datatype 'a wait_end = Task_done "'a result" | Watcher_done | Timed_out | Wait_cancelled exc

record query_guard =
  q_exception :: exc
  q_timeout_exception :: exc

definition query_timed_out :: exc where
  "query_timed_out = Exc OtherError ''504: Query timed out''"

definition settle_task :: "'a result \<Rightarrow> 'a result \<Rightarrow> 'a result" where
  "settle_task ended r =
     (case ended of Inl e \<Rightarrow> (if exc_cls e = CancelledError then r else Inl e) | Inr x \<Rightarrow> r)"

text \<open>The result and whether the awaitable was cancelled; \<open>ended\<close> is what a cancelled awaitable ends with.\<close>

definition query_run :: "query_guard \<Rightarrow> 'a wait_end \<Rightarrow> 'a result \<Rightarrow> 'a result \<times> bool" where
  "query_run q w ended =
     (case w of
        Task_done r \<Rightarrow> (r, False)
      | Watcher_done \<Rightarrow> (settle_task ended (Inl (q_exception q)), True)
      | Timed_out \<Rightarrow> (settle_task ended (Inl (q_timeout_exception q)), True)
      | Wait_cancelled e \<Rightarrow> (settle_task ended (Inl e), True))"

subsection \<open>Installation and the answer\<close>

record app =
  app_middlewares :: "string list"       \<comment> \<open>the scope keys of the installed markers, outermost first\<close>
  app_handlers :: "exc_class \<rightharpoonup> int"      \<comment> \<open>the status answered for an exception class\<close>

definition install_client_cancellation :: "string \<Rightarrow> exc_class \<Rightarrow> bool \<Rightarrow> app \<Rightarrow> app" where
  "install_client_cancellation scope_key exception_type exception_handler a =
     (let a1 = a\<lparr>app_middlewares := scope_key # app_middlewares a\<rparr>
      in if exception_handler then a1\<lparr>app_handlers := (app_handlers a1)(exception_type \<mapsto> CLIENT_CLOSED_REQUEST_STATUS)\<rparr> else a1)"

text \<open>The scope a request has when it reaches its route.\<close>

definition scope_at_route :: "app \<Rightarrow> scope \<Rightarrow> scope" where
  "scope_at_route a sc = fold (\<lambda>k. marker_enter k ''http'') (app_middlewares a) sc"

subsection \<open>Invariant\<close>

text \<open>
  The watcher is alive only inside the guard; it has cancelled exactly when \<open>disconnected\<close> is set, once, and the
  cancellation is taken back when the guard turned it into its exception.
\<close>

definition guard_inv :: "guard_state \<Rightarrow> bool" where
  "guard_inv s =
     ((watching s \<longrightarrow> g_phase s = Inside \<and> \<not> disconnected s)
      \<and> (g_phase s = Inside \<longrightarrow> cancels s = foreign_cancels s + (if disconnected s then 1 else 0))
      \<and> foreign_cancels s \<le> cancels s)"

lemma guard_inv_start: "guard_inv (guard_start sc)"
  by (simp add: guard_inv_def guard_start_def)

lemma guard_inv_step: "guard_step cfg s t \<Longrightarrow> guard_inv s \<Longrightarrow> guard_inv t"
  by (erule guard_stepE) (auto simp: guard_inv_def watch_def guard_resume_def Let_def split: option.splits)

lemma guard_inv_run: "guard_run cfg s t \<Longrightarrow> guard_inv s \<Longrightarrow> guard_inv t"
  by (induction rule: guard_run.induct) (auto intro: guard_inv_step)

subsection \<open>Properties\<close>

lemma started_stays: "guard_step cfg s t \<Longrightarrow> g_scope s k = Some True \<Longrightarrow> g_scope t k = Some True"
  by (erule guard_stepE) (auto simp: send_wrapper_def watch_def guard_resume_def Let_def split: option.splits)

lemma watcher_stays_off: "guard_step cfg s t \<Longrightarrow> \<not> watching s \<Longrightarrow> \<not> watching t"
  by (erule guard_stepE) (auto simp: watch_def guard_resume_def Let_def split: option.splits)

lemma quiet_step:
  "guard_step cfg s t \<Longrightarrow> g_scope s (g_scope_key cfg) = Some True \<or> \<not> watching s \<Longrightarrow>
   disconnected t = disconnected s \<and> cancels t + foreign_cancels s \<le> cancels s + foreign_cancels t"
  by (erule guard_stepE) (auto simp: watch_def guard_resume_def Let_def split: option.splits if_splits)

text \<open>
  (C27) Once the response has started, or the request has left the guard, the watcher cancels nothing any more, so the teardown of the
  dependencies completes: in every run from such a state the cancellations of the task grow only by those of others.
\<close>

theorem teardown_is_not_cancelled:
  assumes "guard_run cfg (guard_start sc) s" "g_scope s (g_scope_key cfg) = Some True \<or> g_phase s \<noteq> Inside"
    and "guard_run cfg s t"
  shows "disconnected t = disconnected s \<and> cancels t + foreign_cancels s \<le> cancels s + foreign_cancels t"
proof -
  have "g_scope s (g_scope_key cfg) = Some True \<or> \<not> watching s"
    using assms(1,2) guard_inv_run [OF _ guard_inv_start] by (auto simp: guard_inv_def)
  with assms(3) have "(g_scope t (g_scope_key cfg) = Some True \<or> \<not> watching t)
      \<and> disconnected t = disconnected s \<and> cancels t + foreign_cancels s \<le> cancels s + foreign_cancels t"
  proof (induction rule: guard_run.induct)
    case (Step s t u)
    then show ?case using quiet_step [OF Step.hyps(2)] started_stays [OF Step.hyps(2)] watcher_stays_off [OF Step.hyps(2)] by auto
  qed simp
  then show ?thesis by blast
qed

definition sample_scope :: scope where
  "sample_scope = [RESPONSE_STARTED_SCOPE_KEY \<mapsto> False]"

lemma sample_started:
  "guard_run client_cancellation_guard_config (guard_start sample_scope)
     ((guard_start sample_scope)\<lparr>g_scope := [RESPONSE_STARTED_SCOPE_KEY \<mapsto> True]\<rparr>)"
proof -
  have "guard_step client_cancellation_guard_config (guard_start sample_scope)
      ((guard_start sample_scope)\<lparr>g_scope := send_wrapper (g_scope_key client_cancellation_guard_config)
         ''http.response.start'' (g_scope (guard_start sample_scope))\<rparr>)"
    by (rule guard_step.Message)
  then have "guard_step client_cancellation_guard_config (guard_start sample_scope)
     ((guard_start sample_scope)\<lparr>g_scope := [RESPONSE_STARTED_SCOPE_KEY \<mapsto> True]\<rparr>)"
    by (simp add: send_wrapper_def guard_start_def sample_scope_def client_cancellation_guard_config_def)
  then show ?thesis by (blast intro: guard_run.intros)
qed

theorem teardown_is_not_cancelled_witness:
  "let s = (guard_start sample_scope)\<lparr>g_scope := [RESPONSE_STARTED_SCOPE_KEY \<mapsto> True]\<rparr>;
       t = watch client_cancellation_guard_config (s\<lparr>client_gone := True\<rparr>)
   in disconnected t = disconnected s \<and> cancels t = 0"
proof -
  let ?s = "(guard_start sample_scope)\<lparr>g_scope := [RESPONSE_STARTED_SCOPE_KEY \<mapsto> True]\<rparr>"
  let ?t = "watch client_cancellation_guard_config (?s\<lparr>client_gone := True\<rparr>)"
  have "guard_run client_cancellation_guard_config ?s ?t"
    by (blast intro: guard_run.intros guard_step.Client_leaves guard_step.Watcher)
  from teardown_is_not_cancelled [OF sample_started _ this] show ?thesis
    by (simp add: client_cancellation_guard_config_def watch_def guard_start_def Let_def)
qed

text \<open>
  A cancellation reaches the caller as the disconnection of the client exactly when the guard's own watcher requested one, and
  then exactly that request is taken back; any other cancellation, and any other end of the request, passes unchanged. The watcher requests it as soon
  as it finds the client gone before the response started.
\<close>

theorem own_cancellation_becomes_disconnect:
  assumes "guard_run cfg (guard_start sc) s" "g_phase s = Inside"
  shows "g_phase (guard_resume cfg (Some (Exc CancelledError m)) s) =
      Left_with (Some (if disconnected s then g_exception cfg else Exc CancelledError m))
    \<and> cancels (guard_resume cfg (Some (Exc CancelledError m)) s) = foreign_cancels s
    \<and> (exc_cls e \<noteq> CancelledError \<longrightarrow> g_phase (guard_resume cfg (Some e) s) = Left_with (Some e))
    \<and> g_phase (guard_resume cfg None s) = Left_with None
    \<and> (watching s \<and> client_gone s \<and> g_scope s (g_scope_key cfg) \<noteq> Some True \<longrightarrow>
        disconnected (watch cfg s) \<and> cancels (watch cfg s) = Suc (foreign_cancels s))"
  using guard_inv_run [OF assms(1) guard_inv_start] assms(2)
  by (auto simp: guard_inv_def guard_resume_def watch_def Let_def)

theorem own_cancellation_becomes_disconnect_witness:
  "let s = watch client_cancellation_guard_config ((guard_start sample_scope)\<lparr>client_gone := True\<rparr>)
   in g_phase (guard_resume client_cancellation_guard_config (Some (Exc CancelledError [])) s)
      = Left_with (Some (Exc ClientDisconnected []))"
proof -
  let ?s = "watch client_cancellation_guard_config ((guard_start sample_scope)\<lparr>client_gone := True\<rparr>)"
  have "guard_run client_cancellation_guard_config (guard_start sample_scope) ?s"
    by (blast intro: guard_run.intros guard_step.Client_leaves guard_step.Watcher)
  from own_cancellation_becomes_disconnect [OF this, of "[]"] show ?thesis
    by (simp add: client_cancellation_guard_config_def watch_def guard_start_def sample_scope_def Let_def)
qed

text \<open>A cancellation from elsewhere that arrives together with the own one is not passed on.\<close>

lemma shutdown_during_disconnect_is_swallowed:
  "disconnected s \<Longrightarrow> g_phase (guard_resume cfg (Some (Exc CancelledError m)) s) = Left_with (Some (g_exception cfg))"
  by (simp add: guard_resume_def Let_def)

text \<open>On an application with the marker installed every request of a guarded method is guarded, and starts unmarked.\<close>

lemma installed_app_guards:
  assumes "app_middlewares a = []" "g_methods cfg = None \<or> g_methods cfg = Some ms \<and> py_upper m \<in> py_upper ` set ms"
  shows "fst (guard_enter cfg (Some m) (scope_at_route (install_client_cancellation (g_scope_key cfg) c h a) sc) warned) = Guarded
    \<and> scope_at_route (install_client_cancellation (g_scope_key cfg) c h a) sc (g_scope_key cfg) = Some False"
  using assms
  by (auto simp: guard_enter_def scope_at_route_def install_client_cancellation_def marker_enter_def dom_def Let_def)

text \<open>
  An awaitable run under the query guard is never left running: it ended by itself, or it was cancelled and awaited; its own result is
  returned in the first case, the exception for the departed client or for the timeout in the second, unless it fails while being cancelled.
\<close>

lemma query_guard_settles:
  "query_run q w ended = (r, cancelled) \<Longrightarrow>
   cancelled \<longleftrightarrow> (\<forall>x. w \<noteq> Task_done x)" 
  "query_run q (Task_done x) ended = (x, False)"
  "ended = Inl (Exc CancelledError m) \<Longrightarrow> query_run q Watcher_done ended = (Inl (q_exception q), True)"
  "ended = Inl (Exc CancelledError m) \<Longrightarrow> query_run q Timed_out ended = (Inl (q_timeout_exception q), True)"
  by (auto simp: query_run_def settle_task_def split: wait_end.splits)

end
