(* ===== verification/Ts_Types.thy ===== *)
theory Ts_Types
  imports Py_Text "HOL-Library.Char_ord" "HOL-Library.List_Lexorder"
begin

section \<open>Python types as TypeScript types\<close>

text \<open>
  \<^verbatim>\<open>tools/typescript\<close>: \<^verbatim>\<open>naming.py\<close>, \<^verbatim>\<open>type_introspection.py\<close>, \<^verbatim>\<open>type_mapper.py\<close> and the enum style of
  \<^verbatim>\<open>parse_context.py\<close>. A Python type is a term of \<open>pytype\<close>; what reflection tells about classes is the record
  \<open>classes\<close>, a parameter. The functions that follow root models, type variables and annotations of classes may not end
  on cyclic definitions, so they take fuel: \<open>None\<close> is the recursion that is too deep.
\<close>

subsection \<open>Names\<close>

definition is_upper :: "char \<Rightarrow> bool" where
  "is_upper c = (65 \<le> code c \<and> code c \<le> 90)"

definition is_letter :: "char \<Rightarrow> bool" where
  "is_letter c = (is_upper c \<or> 97 \<le> code c \<and> code c \<le> 122)"

text \<open>\<open>^[A-Z_]+$\<close>; the dollar also matches before a final newline.\<close>

definition is_constant :: "string \<Rightarrow> bool" where
  "is_constant s =
     (let t = (if s \<noteq> [] \<and> last s = newline then butlast s else s)
      in t \<noteq> [] \<and> list_all (\<lambda>c. is_upper c \<or> c = CHR ''_'') t)"

text \<open>\<open>s.title()\<close>: a letter is upper case exactly when no letter precedes it.\<close>

fun title_from :: "bool \<Rightarrow> string \<Rightarrow> string" where
  "title_from inside [] = []"
| "title_from inside (c # cs) = (if inside then py_lower_char c else py_upper_char c) # title_from (is_letter c) cs"

definition py_title :: "string \<Rightarrow> string" where
  "py_title s = title_from False s"

definition snake_to_camel :: "string \<Rightarrow> string" where
  "snake_to_camel s = (let ws = py_split (CHR ''_'') s in hd ws @ concat (map py_title (tl ws)))"

definition pascal_to_camel :: "string \<Rightarrow> string" where
  "pascal_to_camel s = (case s of [] \<Rightarrow> [] | c # cs \<Rightarrow> py_lower_char c # cs)"

subsection \<open>Types\<close>

datatype prim =
    P_str | P_int | P_float | P_bool | P_NoneType | P_UUID | P_Decimal | P_date | P_datetime | P_time
  | P_object | P_Enum | P_set | P_UploadFile | P_IO | P_Any | P_Response

datatype literal =
    L_None | L_enum string string | L_str string | L_float string | L_bool bool | L_int int | L_other

text \<open>
  \<open>TUnion True\<close> is the operator \<open>|\<close> (\<open>UnionType\<close>), \<open>TUnion False\<close> is \<open>typing.Union\<close>. \<open>TClass c args\<close> is a class, with
  arguments when it is a parametrised generic model. \<open>TNone\<close> is the value \<open>None\<close> used as an annotation, \<open>TText\<close> an annotation
  that is a string, \<open>TOther\<close> anything else.
\<close>

datatype pytype =
    Prim prim
  | TList pytype | TFrozenset pytype | TSet pytype | TDict pytype pytype | TTuple "pytype list"
  | TLiteral "literal list" | TUnion bool "pytype list" | TAnnotated pytype "meta list" | TClassVar pytype
  | TVar string | TClass string "pytype list" | TNone | TText string | TOther
and meta =
    PlainValidator pytype
  | FieldMeta (fm_exclude: bool) (fm_has_default: bool)
  | Marker marker
  | OtherMeta
and marker =
    M_Header | M_Cookie | M_Form | M_Body | M_Query | M_Path
  | M_Depends "pytype option"     \<comment> \<open>the dependency, when it is not the annotated type itself\<close>
  | M_Depends_http                \<comment> \<open>an authentication scheme (\<open>HTTPBase\<close>)\<close>

record classes =
  cl_split :: "string \<Rightarrow> bool"                                \<comment> \<open>\<open>SplitInputOutput.is_split_model\<close>\<close>
  cl_model :: "string \<Rightarrow> bool"                                \<comment> \<open>has \<open>__pydantic_generic_metadata__\<close>\<close>
  cl_root :: "pytype \<Rightarrow> pytype option option"                 \<comment> \<open>of a root model: its root type, when it is found\<close>
  cl_name :: "pytype \<Rightarrow> string"                               \<comment> \<open>\<open>__name__\<close>\<close>
  cl_annotations :: "pytype \<Rightarrow> (string \<times> pytype) list"        \<comment> \<open>\<open>__annotations__\<close>, empty without the attribute\<close>

datatype enum_style = Enum_style | Const_style

subsection \<open>Introspection\<close>

fun unwrap_annotated_type :: "pytype \<Rightarrow> pytype \<times> meta list" where
  "unwrap_annotated_type (TAnnotated t ms) = (case unwrap_annotated_type t of (u, ns) \<Rightarrow> (u, ms @ ns))"
| "unwrap_annotated_type t = (t, [])"

fun plain_validator :: "meta list \<Rightarrow> pytype option" where
  "plain_validator [] = None"
| "plain_validator (PlainValidator t # ms) = Some t"
| "plain_validator (m # ms) = plain_validator ms"

fun is_upload_file_type :: "pytype \<Rightarrow> bool" where
  "is_upload_file_type (TUnion b [t, Prim P_NoneType]) = is_upload_file_type t"
| "is_upload_file_type (Prim p) = (p = P_UploadFile)"
| "is_upload_file_type (TList t) = is_upload_file_type t"
| "is_upload_file_type (TFrozenset t) = is_upload_file_type t"
| "is_upload_file_type (TSet t) = is_upload_file_type t"
| "is_upload_file_type (TAnnotated t ms) = is_upload_file_type t"
| "is_upload_file_type _ = False"

fun is_primitive :: "pytype \<Rightarrow> bool" where
  "is_primitive (Prim p) = (p \<noteq> P_Response)"
| "is_primitive (TList t) = True"
| "is_primitive (TDict k v) = True"
| "is_primitive (TTuple ts) = True"
| "is_primitive (TLiteral ls) = True"
| "is_primitive (TUnion op ts) = op"
| "is_primitive (TAnnotated t ms) = True"
| "is_primitive (TSet t) = True"
| "is_primitive (TVar v) = True"
| "is_primitive TNone = True"
| "is_primitive (TText s) = True"
| "is_primitive _ = False"

fun type_args :: "pytype \<Rightarrow> pytype list" where
  "type_args (TList t) = [t]"
| "type_args (TFrozenset t) = [t]"
| "type_args (TSet t) = [t]"
| "type_args (TDict k v) = [k, v]"
| "type_args (TTuple ts) = ts"
| "type_args (TUnion op ts) = ts"
| "type_args (TAnnotated t ms) = [t]"
| "type_args (TClassVar t) = [t]"
| "type_args _ = []"

fun is_class :: "pytype \<Rightarrow> bool" where
  "is_class (Prim p) = True"
| "is_class (TClass c args) = True"
| "is_class _ = False"

text \<open>The union of the results for a list of types, when each has one.\<close>

fun all_of :: "'a set option list \<Rightarrow> 'a set option" where
  "all_of [] = Some {}"
| "all_of (x # xs) =
     (case x of None \<Rightarrow> None | Some a \<Rightarrow> (case all_of xs of None \<Rightarrow> None | Some b \<Rightarrow> Some (a \<union> b)))"

definition own_types :: "pytype \<Rightarrow> pytype set" where
  "own_types t = (case t of TClass c args \<Rightarrow> {TClass c []} | _ \<Rightarrow> {t})"

definition class_args :: "pytype \<Rightarrow> pytype list" where
  "class_args t = (case t of TClass c args \<Rightarrow> args | _ \<Rightarrow> [])"

fun extract_all_envolved_types :: "nat \<Rightarrow> classes \<Rightarrow> pytype \<Rightarrow> pytype set option" where
  "extract_all_envolved_types 0 C t = None"
| "extract_all_envolved_types (Suc n) C t =
     (if t = TNone then Some {}
      else (case (t, plain_validator (snd (unwrap_annotated_type t))) of
              (TAnnotated u ms, Some v) \<Rightarrow> Some {v}
            | _ \<Rightarrow>
                map_option ((\<union>) (if is_class t then own_types t else {}))
                  (all_of (map (extract_all_envolved_types n C)
                     (class_args t @ (if is_class t then map snd (cl_annotations C t) else []) @ type_args t)))))"

subsection \<open>The type mapper\<close>

definition escape_ts :: "string \<Rightarrow> string" where
  "escape_ts s = concat (map (\<lambda>c. if c = backslash \<or> c = quotation then [backslash, c] else [c]) s)"

text \<open>The text of a literal value and the enum classes it adds to the parse context.\<close>

fun parse_literal_value :: "enum_style \<Rightarrow> literal \<Rightarrow> string \<times> string list" where
  "parse_literal_value st L_None = (''null'', [])"
| "parse_literal_value st (L_enum c m) =
     ((if st = Const_style then ''typeof '' @ c @ ''.'' @ m else c @ ''.'' @ m), [c])"
| "parse_literal_value st (L_str s) = (quotation # escape_ts s @ [quotation], [])"
| "parse_literal_value st (L_float s) = (s, [])"
| "parse_literal_value st (L_bool b) = (if b then ''true'' else ''false'', [])"
| "parse_literal_value st (L_int i) = (str_int i, [])"
| "parse_literal_value st L_other = (''unknown'', [])"

fun ts_prim :: "prim \<Rightarrow> string" where
  "ts_prim P_Response = ''unknown''"
| "ts_prim P_Any = ''any''"
| "ts_prim P_UploadFile = ''File''"
| "ts_prim P_time = ''string''"
| "ts_prim P_date = ''string''"
| "ts_prim P_datetime = ''string''"
| "ts_prim P_NoneType = ''null''"
| "ts_prim P_UUID = ''string''"
| "ts_prim P_str = ''string''"
| "ts_prim P_int = ''number''"
| "ts_prim P_float = ''number''"
| "ts_prim P_bool = ''boolean''"
| "ts_prim P_Decimal = ''string''"
| "ts_prim P_object = ''object''"
| "ts_prim P_Enum = ''Enum''"
| "ts_prim P_set = ''set''"
| "ts_prim P_IO = ''IO''"

text \<open>Sequencing of results, with the enum classes met on the way.\<close>

type_synonym ts_result = "(string \<times> string list) option"

fun ts_all :: "ts_result list \<Rightarrow> (string list \<times> string list) option" where
  "ts_all [] = Some ([], [])"
| "ts_all (x # xs) =
     (case x of None \<Rightarrow> None
      | Some (s, a) \<Rightarrow> (case ts_all xs of None \<Rightarrow> None | Some (ss, b) \<Rightarrow> Some (s # ss, a @ b)))"

definition ts_map :: "(string list \<Rightarrow> string) \<Rightarrow> ts_result list \<Rightarrow> ts_result" where
  "ts_map f xs = map_option (map_prod f id) (ts_all xs)"

text \<open>The name of a class: of the generic model it instantiates, with the suffix of a split model.\<close>

definition class_ts_name :: "classes \<Rightarrow> string \<Rightarrow> string \<Rightarrow> pytype list \<Rightarrow> string" where
  "class_ts_name C suffix c args =
     (if cl_split C c \<and> suffix \<noteq> [] then cl_name C (TClass c args) @ suffix
      else if cl_model C c then cl_name C (TClass c []) else cl_name C (TClass c args))"

fun get_field_type_for_ts :: "nat \<Rightarrow> classes \<Rightarrow> enum_style \<Rightarrow> string \<Rightarrow> (string \<rightharpoonup> pytype) \<Rightarrow> pytype \<Rightarrow> ts_result" where
  "get_field_type_for_ts 0 C st suffix M t = None"
| "get_field_type_for_ts (Suc n) C st suffix M t =
     (let rec = get_field_type_for_ts n C st suffix M
      in case t of
           TVar v \<Rightarrow> (case M v of Some u \<Rightarrow> rec u | None \<Rightarrow> Some (v, []))
         | Prim p \<Rightarrow> Some (ts_prim p, [])
         | TClassVar u \<Rightarrow> rec u
         | TTuple us \<Rightarrow> ts_map (\<lambda>ss. ''['' @ py_join '', '' ss @ '']'') (map rec us)
         | TList u \<Rightarrow> ts_map (\<lambda>ss. ''Array<'' @ hd ss @ ''>'') [rec u]
         | TFrozenset u \<Rightarrow> ts_map (\<lambda>ss. ''Array<'' @ hd ss @ ''>'') [rec u]
         | TSet u \<Rightarrow> ts_map (\<lambda>ss. ''Array<'' @ hd ss @ ''> // Set'') [rec u]
         | TDict k v \<Rightarrow> ts_map (\<lambda>ss. ''{[key: '' @ hd ss @ '']: '' @ hd (tl ss) @ ''}'') [rec k, rec v]
         | TClass c args \<Rightarrow>
             (case cl_root C t of
                Some (Some w) \<Rightarrow> rec w
              | Some None \<Rightarrow> Some (''unknown'', [])
              | None \<Rightarrow>
                  (if args = [] then Some (class_ts_name C suffix c args, [])
                   else ts_map (\<lambda>ss. class_ts_name C suffix c args @ ''<'' @ py_join '', '' ss @ ''>'') (map rec args)))
         | TLiteral ls \<Rightarrow> Some (py_join '' | '' (map (fst \<circ> parse_literal_value st) ls), concat (map (snd \<circ> parse_literal_value st) ls))
         | TUnion op us \<Rightarrow> ts_map (py_join '' | '') (map rec us)
         | TAnnotated u ms \<Rightarrow>
             (case plain_validator (snd (unwrap_annotated_type t)) of
                Some v \<Rightarrow> rec v | None \<Rightarrow> rec (fst (unwrap_annotated_type t)))
         | _ \<Rightarrow> Some (''unknown'', []))"

text \<open>\<open>get_generic_type_mapping\<close>: the parameters of each generic base with the arguments the class gives it.\<close>

definition get_generic_type_mapping :: "(string list \<times> pytype list) list \<Rightarrow> (string \<times> pytype) list" where
  "get_generic_type_mapping bases =
     fold (\<lambda>(params, args) m. if length args = length params then dict_update m (zip params args) else m) bases []"

subsection \<open>Fields of a model\<close>

text \<open>
  What is known about a field: its entry in \<open>model_fields\<close>, whether it is annotated on the class itself, and the class attribute
  of that name, when there is one other than \<open>None\<close>. The tests of an alias in \<open>should_exclude_field\<close> ask for a name that
  starts with an underscore, which has been excluded before.
\<close>

record attr_facts =
  at_exclude :: "bool option"      \<comment> \<open>the attribute \<open>exclude\<close>, when there is one\<close>
  at_alias :: bool                 \<comment> \<open>there is an attribute \<open>alias\<close>\<close>
  at_default :: "bool option"      \<comment> \<open>there is an attribute \<open>default\<close>, and whether it is defined\<close>

record field_facts =
  ff_info :: "(bool \<times> bool) option"    \<comment> \<open>\<open>exclude\<close>, and whether \<open>default\<close> is defined\<close>
  ff_annotated :: bool
  ff_attr :: "attr_facts option"

definition should_exclude_field :: "string \<Rightarrow> pytype \<Rightarrow> field_facts \<Rightarrow> bool" where
  "should_exclude_field name t f =
     (py_startswith name ''_''
      \<or> (\<exists>d. ff_info f = Some (True, d))
      \<or> ((\<exists>u ms. t = TAnnotated u ms) \<and> (\<exists>m \<in> set (snd (unwrap_annotated_type t)). case m of FieldMeta ex d \<Rightarrow> ex | _ \<Rightarrow> False))
      \<or> (ff_annotated f \<and> (\<exists>a. ff_attr f = Some a \<and> at_exclude a = Some True)))"

definition has_default_value :: "string \<Rightarrow> pytype \<Rightarrow> field_facts \<Rightarrow> bool" where
  "has_default_value name t f =
     (case t of
        TLiteral ls \<Rightarrow> False
      | _ \<Rightarrow>
          (\<exists>ex. ff_info f = Some (ex, True))
          \<or> (ff_annotated f \<and> (\<exists>a. ff_attr f = Some a \<and> at_default a = Some True))
          \<or> (\<exists>a. ff_attr f = Some a \<and> at_exclude a = None \<and> \<not> at_alias a)
          \<or> ((\<exists>u ms. t = TAnnotated u ms) \<and> (\<exists>m \<in> set (snd (unwrap_annotated_type t)). case m of FieldMeta ex d \<Rightarrow> d | _ \<Rightarrow> False)))"

subsection \<open>Enough fuel\<close>

text \<open>
  A rank that decreases along everything the mapper follows: root types, the arguments of type variables, validators, and
  components. Where there is one, the mapper answers with that much fuel; more fuel does not change the answer.
\<close>

definition follows :: "classes \<Rightarrow> (string \<rightharpoonup> pytype) \<Rightarrow> pytype \<Rightarrow> pytype set" where
  "follows C M t =
     (case t of
        TVar v \<Rightarrow> set_option (M v)
      | TClass c args \<Rightarrow> (case cl_root C t of Some (Some w) \<Rightarrow> {w} | Some None \<Rightarrow> {} | None \<Rightarrow> set args)
      | TAnnotated u ms \<Rightarrow>
          (case plain_validator (snd (unwrap_annotated_type t)) of Some v \<Rightarrow> {v} | None \<Rightarrow> {fst (unwrap_annotated_type t)})
      | _ \<Rightarrow> set (type_args t))"

definition ranked :: "classes \<Rightarrow> (string \<rightharpoonup> pytype) \<Rightarrow> (pytype \<Rightarrow> nat) \<Rightarrow> bool" where
  "ranked C M rank = (\<forall>t u. u \<in> follows C M t \<longrightarrow> rank u < rank t)"

lemma ts_all_None: "ts_all xs = None \<longleftrightarrow> None \<in> set xs"
  by (induction xs) (auto split: option.splits)

lemma ts_map_None [simp]: "ts_map f xs = None \<longleftrightarrow> None \<in> set xs"
  by (simp add: ts_map_def ts_all_None)

lemma mapper_total:
  assumes "ranked C M rank"
  shows "rank t < n \<Longrightarrow> get_field_type_for_ts n C st suffix M t \<noteq> None"
proof (induction n arbitrary: t)
  case (Suc n)
  have rec: "get_field_type_for_ts n C st suffix M u \<noteq> None" if "u \<in> follows C M t" for u
  proof (rule Suc.IH)
    have "rank u < rank t" using assms that by (simp add: ranked_def)
    then show "rank u < n" using Suc.prems by simp
  qed
  have "None \<noteq> get_field_type_for_ts n C st suffix M u" if "u \<in> follows C M t" for u
    using rec [OF that] by metis
  with rec show ?case
    by (cases t) (auto simp: follows_def Let_def simp del: not_None_eq split: option.splits if_splits)
qed simp

subsection \<open>Literals\<close>

text \<open>How a string literal of TypeScript is read back: up to the closing quote, with no raw line break.\<close>

fun read_ts_string :: "string \<Rightarrow> string option" where
  "read_ts_string [] = None"
| "read_ts_string (c # cs) =
     (if c = quotation then (if cs = [] then Some [] else None)
      else if c = newline \<or> c = CHR 0x0D then None
      else if c = backslash then (case cs of [] \<Rightarrow> None | d # ds \<Rightarrow> map_option ((#) d) (read_ts_string ds))
      else map_option ((#) c) (read_ts_string cs))"

lemma escape_ts_simps [simp]:
  "escape_ts [] = []"
  "escape_ts (c # s) = (if c = backslash \<or> c = quotation then [backslash, c] else [c]) @ escape_ts s"
  by (simp_all add: escape_ts_def)

lemma read_escape: "newline \<notin> set s \<Longrightarrow> CHR 0x0D \<notin> set s \<Longrightarrow> read_ts_string (escape_ts s @ [quotation]) = Some s"
  by (induction s) auto

lemma read_escape_newline: "newline \<in> set s \<Longrightarrow> read_ts_string (escape_ts s @ [quotation]) = None"
  by (induction s) auto

text \<open>
  A text in a \<open>Literal\<close> type is printed as a string literal that TypeScript reads back as the same text, unless it
  has a line break: then the literal does not end on its line.
\<close>

theorem literal_text_roundtrip:
  "(newline \<notin> set s \<and> CHR 0x0D \<notin> set s \<longrightarrow>
      (\<exists>body. fst (parse_literal_value st (L_str s)) = quotation # body \<and> read_ts_string body = Some s))
   \<and> (newline \<in> set s \<longrightarrow>
      (\<exists>body. fst (parse_literal_value st (L_str s)) = quotation # body \<and> read_ts_string body = None))"
  by (auto simp: read_escape read_escape_newline)

theorem literal_text_roundtrip_witness:
  "\<exists>body. fst (parse_literal_value Enum_style (L_str [CHR ''a'', quotation, backslash])) = quotation # body
     \<and> read_ts_string body = Some [CHR ''a'', quotation, backslash]"
  using literal_text_roundtrip [of "[CHR ''a'', quotation, backslash]" Enum_style] by simp

text \<open>The text for a set ends in a line comment: what follows it on the line, such as the rest of a union, is lost.\<close>

lemma set_comments_out_the_rest:
  "get_field_type_for_ts (Suc (Suc (Suc n))) C st suffix M (TUnion op [TSet (Prim P_int), Prim P_NoneType]) =
     Some (''Array<number> // Set | null'', [])"
  by (simp add: ts_map_def)

end
