(* ===== verification/Ts_Models.thy ===== *)
theory Ts_Models
  imports Ts_Types "HOL-Library.Monad_Syntax"
begin

section \<open>Interfaces of the types of a service\<close>

text \<open>
  \<^verbatim>\<open>tools/typescript/model_interfaces.py\<close>, \<^verbatim>\<open>websocket_writer.py\<close> and the worklist of \<^verbatim>\<open>microservice_writer.py\<close>, which
  prints an interface for every type that can be reached from those of the endpoints. The order in which the code takes
  types out of its set is not determined, so the worklist is a step relation. \<open>None\<close> is a definition
  that cannot be printed: a recursion that is too deep.
\<close>

subsection \<open>What reflection tells about a class\<close>

record models =
  mo_classes :: classes
  mo_bases :: "pytype \<Rightarrow> pytype list"                       \<comment> \<open>\<open>get_inherited_classes\<close>\<close>
  mo_members :: "pytype \<Rightarrow> (string \<times> string) list"          \<comment> \<open>names and values of an enum\<close>
  mo_dir :: "pytype \<Rightarrow> string list"
  mo_params :: "pytype \<Rightarrow> string list"                      \<comment> \<open>type parameters\<close>
  mo_field :: "pytype \<Rightarrow> string \<Rightarrow> field_facts"
  mo_properties :: "pytype \<Rightarrow> (string \<times> bool \<times> pytype) list"   \<comment> \<open>name, whether the class itself defines it, result type\<close>

text \<open>What is printed, the types found, and the enum classes added to the parse context.\<close>

type_synonym printed = "(pytype set \<times> string \<times> string list) option"

abbreviation tab :: char where "tab \<equiv> CHR 0x09"

definition line :: "string \<Rightarrow> string" where
  "line s = s @ [newline]"

subsection \<open>Enums\<close>

definition enum_text :: "enum_style \<Rightarrow> string \<Rightarrow> (string \<times> string) list \<Rightarrow> string" where
  "enum_text st name members =
     (let values = sort_key fst members
      in if st = Const_style
         then line (''export const '' @ name @ '' = {'')
              @ concat (map (\<lambda>(n, v). line (tab # n @ '': '' @ [quotation] @ v @ [quotation] @ '','')) values)
              @ line ''} as const;''
              @ line (''export type '' @ name @ '' = (typeof '' @ name @ '')[keyof typeof '' @ name @ ''];'')
         else line (''export enum '' @ name @ '' {'')
              @ py_join [newline, CHR '' ''] (map (\<lambda>(n, v). tab # n @ '' = '' @ [quotation] @ v @ [quotation] @ '','') values)
              @ [newline] @ line ''}'')"

subsection \<open>Interfaces\<close>

definition constants :: "models \<Rightarrow> pytype \<Rightarrow> string list" where
  "constants MO t = filter is_constant (mo_dir MO t)"

definition quoted :: "string \<Rightarrow> string" where
  "quoted s = quotation # s @ [quotation]"

text \<open>The expression for a base class; constants that the class redefines are omitted from it.\<close>

definition base_text :: "nat \<Rightarrow> models \<Rightarrow> enum_style \<Rightarrow> string \<Rightarrow> pytype \<Rightarrow> pytype \<Rightarrow> ts_result" where
  "base_text n MO st suffix t b =
     do {
       (name, enums) \<leftarrow> get_field_type_for_ts n (mo_classes MO) st suffix Map.empty b;
       let name = (case b of TClass c args \<Rightarrow>
              if cl_split (mo_classes MO) c \<and> suffix \<noteq> [] then cl_name (mo_classes MO) b @ suffix else name
            | _ \<Rightarrow> name);
       let conflict = filter (\<lambda>f. f \<in> set (constants MO t)) (remdups (constants MO b));
       Some (if conflict = [] then name
             else ''Omit<'' @ name @ '', '' @ py_join '' | '' (sort (map quoted conflict)) @ ''>'', enums)
     }"

definition valid_bases :: "models \<Rightarrow> pytype \<Rightarrow> pytype list" where
  "valid_bases MO t = filter (\<lambda>b. \<not> is_primitive b) (mo_bases MO t)"

definition extends_text :: "nat \<Rightarrow> models \<Rightarrow> enum_style \<Rightarrow> string \<Rightarrow> pytype \<Rightarrow> ts_result" where
  "extends_text n MO st suffix t =
     (if valid_bases MO t = [] then Some ([], [])
      else ts_map (\<lambda>ss. '' extends '' @ py_join '', '' (sort ss)) (map (base_text n MO st suffix t) (valid_bases MO t)))"

definition header_text :: "models \<Rightarrow> string \<Rightarrow> pytype \<Rightarrow> string \<Rightarrow> string" where
  "header_text MO suffix t extends =
     line (''export interface '' @ cl_name (mo_classes MO) t @ suffix
       @ (if mo_params MO t = [] then [] else ''<'' @ py_join '', '' (sort (mo_params MO t)) @ ''>'')
       @ extends @ '' {'')"

definition field_name_text :: "string \<Rightarrow> string" where
  "field_name_text name = (if is_constant name then name else snake_to_camel name)"

definition is_optional :: "models \<Rightarrow> bool option \<Rightarrow> pytype \<Rightarrow> string \<Rightarrow> pytype \<Rightarrow> bool" where
  "is_optional MO force t name field = (force \<noteq> Some False \<and> has_default_value name field (mo_field MO t name))"

definition member_text :: "nat \<Rightarrow> models \<Rightarrow> enum_style \<Rightarrow> string \<Rightarrow> string \<Rightarrow> pytype \<Rightarrow> printed" where
  "member_text n MO st suffix label u =
     do {
       (s, enums) \<leftarrow> get_field_type_for_ts n (mo_classes MO) st suffix Map.empty u;
       found \<leftarrow> extract_all_envolved_types n (mo_classes MO) u;
       Some (insert u found, line (''  '' @ label @ '': '' @ s @ '';''), enums)
     }"

fun print_all :: "printed list \<Rightarrow> printed" where
  "print_all [] = Some ({}, [], [])"
| "print_all (x # xs) =
     do { (a, s, e) \<leftarrow> x; (b, t, f) \<leftarrow> print_all xs; Some (a \<union> b, s @ t, e @ f) }"

definition visible_fields :: "models \<Rightarrow> pytype \<Rightarrow> (string \<times> pytype) list" where
  "visible_fields MO t =
     filter (\<lambda>(name, u). name \<notin> set (constants MO t) \<and> \<not> should_exclude_field name u (mo_field MO t name))
       (sort_key fst (cl_annotations (mo_classes MO) t))"

definition fields_text :: "nat \<Rightarrow> models \<Rightarrow> enum_style \<Rightarrow> string \<Rightarrow> bool option \<Rightarrow> pytype \<Rightarrow> printed" where
  "fields_text n MO st suffix force t =
     print_all (map (\<lambda>(name, u). member_text n MO st suffix
        (field_name_text name @ (if is_optional MO force t name u then ''?'' else [])) u) (visible_fields MO t))"

definition properties_text :: "nat \<Rightarrow> models \<Rightarrow> enum_style \<Rightarrow> string \<Rightarrow> pytype \<Rightarrow> printed" where
  "properties_text n MO st suffix t =
     print_all (map (\<lambda>(name, own, u). member_text n MO st suffix (snake_to_camel name) u)
       (filter (\<lambda>(name, own, u). own) (sort_key fst (mo_properties MO t))))"

definition interface_text :: "nat \<Rightarrow> models \<Rightarrow> enum_style \<Rightarrow> string \<Rightarrow> bool option \<Rightarrow> pytype \<Rightarrow> printed" where
  "interface_text n MO st suffix force t =
     do {
       (extends, e0) \<leftarrow> extends_text n MO st suffix t;
       (a, s, e1) \<leftarrow> fields_text n MO st suffix force t;
       (b, p, e2) \<leftarrow> properties_text n MO st suffix t;
       Some (set (mo_bases MO t) \<union> a \<union> b, header_text MO suffix t extends @ s @ p @ line ''}'', e0 @ e1 @ e2)
     }"

text \<open>The origin of an alias that is not a class.\<close>

definition alias_origin :: "pytype \<Rightarrow> pytype" where
  "alias_origin t = (case t of TFrozenset u \<Rightarrow> TClass ''frozenset'' [] | _ \<Rightarrow> TOther)"

definition parse_single_typescript_interface ::
  "nat \<Rightarrow> models \<Rightarrow> enum_style \<Rightarrow> string \<Rightarrow> bool option \<Rightarrow> pytype \<Rightarrow> printed" where
  "parse_single_typescript_interface n MO st suffix force t =
     (if \<not> is_class t
      then (if type_args t = [] then None else Some (insert (alias_origin t) (set (type_args t)), [], []))
      else if class_args t \<noteq> []
      then map_option (\<lambda>found. (own_types t \<union> found, [], []))
             (all_of (map (extract_all_envolved_types n (mo_classes MO)) (class_args t)))
      else if Prim P_Enum \<in> set (mo_bases MO t)
      then Some ({}, enum_text st (cl_name (mo_classes MO) t @ suffix) (mo_members MO t), [])
      else interface_text n MO st suffix force t)"

definition is_split_model :: "models \<Rightarrow> pytype \<Rightarrow> bool" where
  "is_split_model MO t = (case t of TClass c args \<Rightarrow> cl_split (mo_classes MO) c | _ \<Rightarrow> False)"

text \<open>A split model gets an interface for requests, in which defaults are optional, and one for responses.\<close>

definition parse_type_to_typescript_interface :: "nat \<Rightarrow> models \<Rightarrow> enum_style \<Rightarrow> pytype \<Rightarrow> printed" where
  "parse_type_to_typescript_interface n MO st t =
     (if is_split_model MO t
      then print_all [parse_single_typescript_interface n MO st ''Input'' (Some True) t,
                      parse_single_typescript_interface n MO st ''Output'' (Some False) t]
      else parse_single_typescript_interface n MO st [] None t)"

subsection \<open>The worklist\<close>

record worklist =
  processed :: "pytype set"
  backlog :: "pytype set"
  buffer :: "(pytype \<times> string) list"
  mapped_types :: "pytype set"       \<comment> \<open>the enum classes of the parse context\<close>

definition worklist_start :: "pytype set \<Rightarrow> pytype set \<Rightarrow> worklist" where
  "worklist_start roots ctx = \<lparr>processed = {}, backlog = roots, buffer = [], mapped_types = ctx\<rparr>"

definition enum_classes :: "string list \<Rightarrow> pytype set" where
  "enum_classes es = (\<lambda>c. TClass c []) ` set es"

text \<open>One round: a type is taken out of the backlog; a primitive one is dropped.\<close>

definition process_type :: "nat \<Rightarrow> models \<Rightarrow> enum_style \<Rightarrow> pytype \<Rightarrow> worklist \<Rightarrow> worklist option" where
  "process_type n MO st t w =
     (let w0 = w\<lparr>backlog := backlog w - {t}\<rparr>
      in if is_primitive t then Some w0
         else map_option (\<lambda>(found, text, enums).
                let p = insert t (processed w); ctx = mapped_types w \<union> enum_classes enums
                in \<lparr>processed = p, backlog = backlog w0 \<union> (found \<union> ctx - p), buffer = buffer w @ [(t, text)], mapped_types = ctx\<rparr>)
              (parse_type_to_typescript_interface n MO st t))"

inductive worklist_step :: "nat \<Rightarrow> models \<Rightarrow> enum_style \<Rightarrow> worklist \<Rightarrow> worklist \<Rightarrow> bool" for n MO st where
  "t \<in> backlog w \<Longrightarrow> process_type n MO st t w = Some w' \<Longrightarrow> worklist_step n MO st w w'"

inductive_cases worklist_stepE: "worklist_step n MO st w w'"

text \<open>What is written in the end: the buffer, sorted by name.\<close>

definition write_type_interfaces :: "models \<Rightarrow> worklist \<Rightarrow> string" where
  "write_type_interfaces MO w = concat (map snd (sort_key (\<lambda>(t, s). cl_name (mo_classes MO) t) (buffer w)))"

subsection \<open>Messages of web sockets\<close>

definition write_websocket_message_map :: "(string \<times> string) list list \<Rightarrow> string" where
  "write_websocket_message_map registries =
     line ''export type WebSocketMessageMap = {''
     @ py_join [newline] (sort (map (\<lambda>(i, n). tab # quoted i @ '': '' @ n @ '';'') (concat registries)))
     @ [newline] @ line ''}''"

definition write_websocket_message_interfaces :: "nat \<Rightarrow> models \<Rightarrow> enum_style \<Rightarrow> pytype list \<Rightarrow> printed" where
  "write_websocket_message_interfaces n MO st ts = print_all (map (parse_type_to_typescript_interface n MO st) ts)"

subsection \<open>The worklist computes a closure\<close>

text \<open>What the interface of a type refers to, and the types that must be printed.\<close>

definition refers_to :: "nat \<Rightarrow> models \<Rightarrow> enum_style \<Rightarrow> pytype \<Rightarrow> pytype set" where
  "refers_to n MO st t =
     (case parse_type_to_typescript_interface n MO st t of
        None \<Rightarrow> {} | Some (found, text, enums) \<Rightarrow> found \<union> enum_classes enums)"

inductive_set needed :: "nat \<Rightarrow> models \<Rightarrow> enum_style \<Rightarrow> pytype set \<Rightarrow> pytype set \<Rightarrow> pytype set" for n MO st roots ctx where
  Root: "t \<in> roots \<Longrightarrow> t \<in> needed n MO st roots ctx"
| Context: "t \<in> ctx \<Longrightarrow> t \<in> needed n MO st roots ctx"
| Reference: "t \<in> needed n MO st roots ctx \<Longrightarrow> \<not> is_primitive t \<Longrightarrow> u \<in> refers_to n MO st t \<Longrightarrow> u \<in> needed n MO st roots ctx"

definition text_of :: "nat \<Rightarrow> models \<Rightarrow> enum_style \<Rightarrow> pytype \<Rightarrow> string" where
  "text_of n MO st t = (case parse_type_to_typescript_interface n MO st t of None \<Rightarrow> [] | Some (found, text, enums) \<Rightarrow> text)"

definition worklist_inv :: "nat \<Rightarrow> models \<Rightarrow> enum_style \<Rightarrow> pytype set \<Rightarrow> pytype set \<Rightarrow> worklist \<Rightarrow> bool" where
  "worklist_inv n MO st roots ctx w =
     (processed w \<union> backlog w \<union> mapped_types w \<subseteq> needed n MO st roots ctx
      \<and> processed w \<inter> backlog w = {} \<and> Collect is_primitive \<inter> processed w = {}
      \<and> fst ` set (buffer w) = processed w \<and> distinct (map fst (buffer w))
      \<and> (\<forall>(t, s) \<in> set (buffer w). s = text_of n MO st t)
      \<and> roots \<subseteq> processed w \<union> backlog w \<union> Collect is_primitive
      \<and> ctx \<subseteq> mapped_types w
      \<and> (processed w \<noteq> {} \<longrightarrow> mapped_types w \<subseteq> processed w \<union> backlog w \<union> Collect is_primitive)
      \<and> (\<forall>t \<in> processed w. refers_to n MO st t \<subseteq> processed w \<union> backlog w \<union> Collect is_primitive))"

lemma worklist_inv_start: "worklist_inv n MO st roots ctx (worklist_start roots ctx)"
  by (auto simp: worklist_inv_def worklist_start_def intro: needed.intros)

lemma worklist_inv_drop:
  "worklist_inv n MO st roots ctx w \<Longrightarrow> is_primitive t \<Longrightarrow> worklist_inv n MO st roots ctx (w\<lparr>backlog := backlog w - {t}\<rparr>)"
  unfolding worklist_inv_def by simp blast

lemma worklist_inv_process:
  assumes w: "worklist_inv n MO st roots ctx w" and t: "t \<in> backlog w" "\<not> is_primitive t"
    and p: "parse_type_to_typescript_interface n MO st t = Some (found, text, enums)"
  shows "worklist_inv n MO st roots ctx
    \<lparr>processed = insert t (processed w),
     backlog = backlog w - {t} \<union> (found \<union> (mapped_types w \<union> enum_classes enums) - insert t (processed w)),
     buffer = buffer w @ [(t, text)], mapped_types = mapped_types w \<union> enum_classes enums\<rparr>"
proof -
  have r: "refers_to n MO st t = found \<union> enum_classes enums" "text_of n MO st t = text"
    by (simp_all add: refers_to_def text_of_def p)
  have "t \<in> needed n MO st roots ctx" using w t(1) by (auto simp: worklist_inv_def)
  then have "found \<union> enum_classes enums \<subseteq> needed n MO st roots ctx" using t(2) r(1) needed.Reference by blast
  moreover have "t \<notin> fst ` set (buffer w)" using w t(1) by (auto simp: worklist_inv_def)
  moreover have i: "processed w \<union> backlog w \<union> mapped_types w \<subseteq> needed n MO st roots ctx" "processed w \<inter> backlog w = {}"
      "Collect is_primitive \<inter> processed w = {}" "fst ` set (buffer w) = processed w" "distinct (map fst (buffer w))"
      "\<forall>(t, s) \<in> set (buffer w). s = text_of n MO st t" "roots \<subseteq> processed w \<union> backlog w \<union> Collect is_primitive"
      "ctx \<subseteq> mapped_types w" "processed w \<noteq> {} \<longrightarrow> mapped_types w \<subseteq> processed w \<union> backlog w \<union> Collect is_primitive"
      "\<forall>t \<in> processed w. refers_to n MO st t \<subseteq> processed w \<union> backlog w \<union> Collect is_primitive"
    using w unfolding worklist_inv_def by blast+
  ultimately show ?thesis
    unfolding worklist_inv_def worklist.simps
  proof (intro conjI, goal_cases)
    case 6
    then show ?case using i(6) r(2) by auto
  next
    case 10
    have "refers_to n MO st u \<subseteq> insert t (processed w) \<union> (backlog w - {t} \<union> (found \<union> (mapped_types w \<union> enum_classes enums)
        - insert t (processed w))) \<union> Collect is_primitive" if "u \<in> processed w" for u
      using i(10) that by blast
    then show ?case using r(1) by auto
  qed (use i t in auto)
qed

lemma worklist_inv_step:
  "worklist_step n MO st w w' \<Longrightarrow> worklist_inv n MO st roots ctx w \<Longrightarrow> worklist_inv n MO st roots ctx w'"
  by (erule worklist_stepE)
    (auto simp: process_type_def Let_def split: if_splits intro: worklist_inv_drop dest: worklist_inv_process)

lemma worklist_inv_run:
  "(worklist_step n MO st)\<^sup>*\<^sup>* (worklist_start roots ctx) w \<Longrightarrow> worklist_inv n MO st roots ctx w"
  by (induction rule: rtranclp_induct) (auto intro: worklist_inv_start worklist_inv_step)

text \<open>Each round prints one more of the needed types or shrinks the backlog.\<close>

definition worklist_measure :: "pytype set \<Rightarrow> worklist \<Rightarrow> nat \<times> nat" where
  "worklist_measure N w = (card (N - processed w), card (backlog w))"

lemma worklist_step_decreases:
  assumes "worklist_step n MO st w w'" "worklist_inv n MO st roots ctx w" "finite (needed n MO st roots ctx)"
  shows "(worklist_measure (needed n MO st roots ctx) w', worklist_measure (needed n MO st roots ctx) w)
    \<in> less_than <*lex*> less_than"
proof -
  let ?N = "needed n MO st roots ctx"
  obtain t where t: "t \<in> backlog w" "process_type n MO st t w = Some w'" using assms(1) by (auto elim: worklist_stepE)
  have N: "t \<in> ?N" "t \<notin> processed w" "finite (backlog w)"
    using assms(2,3) t(1) by (auto simp: worklist_inv_def intro: finite_subset)
  show ?thesis
  proof (cases "is_primitive t")
    case True
    then have "processed w' = processed w" "backlog w' = backlog w - {t}" using t(2) by (auto simp: process_type_def Let_def)
    moreover have "card (backlog w - {t}) < card (backlog w)" using N(3) t(1) by (rule card_Diff1_less)
    ultimately show ?thesis by (simp add: worklist_measure_def)
  next
    case False
    then have "processed w' = insert t (processed w)" using t(2) by (auto simp: process_type_def Let_def)
    then have "?N - processed w' = ?N - processed w - {t}" by auto
    moreover have "card (?N - processed w - {t}) < card (?N - processed w)"
      using assms(3) N(1,2) by (intro card_Diff1_less) auto
    ultimately show ?thesis by (simp add: worklist_measure_def)
  qed
qed

lemma process_type_stuck:
  "process_type n MO st t w = None \<Longrightarrow> \<not> is_primitive t \<and> parse_type_to_typescript_interface n MO st t = None"
  by (auto simp: process_type_def Let_def split: if_splits)

lemma worklist_finished:
  assumes inv: "worklist_inv n MO st roots ctx w" and "backlog w = {}" and "t0 \<in> roots" "\<not> is_primitive t0"
  shows "set (buffer w) = (\<lambda>t. (t, text_of n MO st t)) ` {t \<in> needed n MO st roots ctx. \<not> is_primitive t}"
proof -
  have i: "processed w \<subseteq> needed n MO st roots ctx" "Collect is_primitive \<inter> processed w = {}" "fst ` set (buffer w) = processed w"
      "\<forall>(t, s) \<in> set (buffer w). s = text_of n MO st t" "roots \<subseteq> processed w \<union> Collect is_primitive"
      "ctx \<subseteq> mapped_types w" "processed w \<noteq> {} \<longrightarrow> mapped_types w \<subseteq> processed w \<union> Collect is_primitive"
      "\<forall>t \<in> processed w. refers_to n MO st t \<subseteq> processed w \<union> Collect is_primitive"
    using assms(1,2) unfolding worklist_inv_def by simp_all
  have c: "ctx \<subseteq> processed w \<union> Collect is_primitive" using i(5-7) assms(3,4) by blast
  have "t \<in> processed w \<union> Collect is_primitive" if "t \<in> needed n MO st roots ctx" for t
    using that
  proof induction
    case (Reference t u)
    then show ?case using i(8) by blast
  qed (use i(5) c in blast)+
  then have "processed w = {t \<in> needed n MO st roots ctx. \<not> is_primitive t}" using i(1,2) by blast
  moreover have "(\<lambda>x. (fst x, text_of n MO st (fst x))) ` set (buffer w) = id ` set (buffer w)"
    using i(4) by (intro image_cong) auto
  then have "set (buffer w) = (\<lambda>t. (t, text_of n MO st t)) ` processed w" by (simp add: i(3) [symmetric] image_image)
  ultimately show ?thesis by simp
qed

text \<open>
  (C31) The generator prints every type it needs exactly once: it never runs forever when the needed types are finitely many, it gets stuck only
  at a type that cannot be printed, and when it ends the buffer holds one entry for each needed type that is not primitive,
  with the text of its interface, in whatever order the types were taken.
\<close>

theorem interfaces_printed_for_closure:
  assumes "finite (needed n MO st roots ctx)" "t0 \<in> roots" "\<not> is_primitive t0"
  shows "\<not> (\<exists>run. run 0 = worklist_start roots ctx \<and> (\<forall>i. worklist_step n MO st (run i) (run (Suc i))))
    \<and> (\<forall>w. (worklist_step n MO st)\<^sup>*\<^sup>* (worklist_start roots ctx) w \<longrightarrow>
         (backlog w = {} \<longrightarrow>
            distinct (map fst (buffer w)) \<and> set (buffer w) = {(t, text_of n MO st t) | t. t \<in> needed n MO st roots ctx \<and> \<not> is_primitive t})
         \<and> (backlog w \<noteq> {} \<longrightarrow> (\<exists>w'. worklist_step n MO st w w')
            \<or> (\<exists>t \<in> needed n MO st roots ctx. \<not> is_primitive t \<and> parse_type_to_typescript_interface n MO st t = None)))"
proof (intro conjI allI impI notI)
  assume "\<exists>run. run 0 = worklist_start roots ctx \<and> (\<forall>i. worklist_step n MO st (run i) (run (Suc i)))"
  then obtain run where r: "run 0 = worklist_start roots ctx" "\<And>i. worklist_step n MO st (run i) (run (Suc i))" by blast
  have inv: "worklist_inv n MO st roots ctx (run i)" for i
    by (induction i) (auto simp: r(1) worklist_inv_start intro: worklist_inv_step r(2))
  have "\<forall>i. (worklist_measure (needed n MO st roots ctx) (run (Suc i)), worklist_measure (needed n MO st roots ctx) (run i))
      \<in> less_than <*lex*> less_than"
    using worklist_step_decreases [OF r(2) inv assms(1)] by blast
  then show False using wf_iff_no_infinite_down_chain [of "less_than <*lex*> less_than"] by (meson wf_lex_prod wf_less_than)
next
  fix w
  assume "(worklist_step n MO st)\<^sup>*\<^sup>* (worklist_start roots ctx) w"
  then have inv: "worklist_inv n MO st roots ctx w" by (rule worklist_inv_run)
  show "set (buffer w) = {(t, text_of n MO st t) | t. t \<in> needed n MO st roots ctx \<and> \<not> is_primitive t}" if "backlog w = {}"
    using worklist_finished [OF inv that assms(2,3)] by auto
  show "distinct (map fst (buffer w))" using inv by (simp add: worklist_inv_def)
  {
    assume "backlog w \<noteq> {}"
    then obtain t where t: "t \<in> backlog w" by blast
    then have "t \<in> needed n MO st roots ctx" using inv by (auto simp: worklist_inv_def)
    then show "(\<exists>w'. worklist_step n MO st w w')
        \<or> (\<exists>t \<in> needed n MO st roots ctx. \<not> is_primitive t \<and> parse_type_to_typescript_interface n MO st t = None)"
      using worklist_step.intros [OF t, of n MO st] process_type_stuck [of n MO st t w] by (cases "process_type n MO st t w") blast+
  }
qed

lemma needed_subset:
  assumes "roots \<union> ctx \<subseteq> S" "\<And>t. t \<in> S \<Longrightarrow> \<not> is_primitive t \<Longrightarrow> refers_to n MO st t \<subseteq> S"
  shows "needed n MO st roots ctx \<subseteq> S"
proof
  fix t
  assume "t \<in> needed n MO st roots ctx"
  then show "t \<in> S" by induction (use assms in blast)+
qed

text \<open>A service with one model that has a text field.\<close>

definition sample_classes :: classes where
  "sample_classes = \<lparr>cl_split = (\<lambda>c. False), cl_model = (\<lambda>c. True), cl_root = (\<lambda>t. None),
     cl_name = (\<lambda>t. case t of TClass c args \<Rightarrow> c | _ \<Rightarrow> []),
     cl_annotations = (\<lambda>t. if t = TClass ''Role'' [] then [(''display_name'', Prim P_str)] else [])\<rparr>"

definition sample_models :: models where
  "sample_models = \<lparr>mo_classes = sample_classes, mo_bases = (\<lambda>t. []), mo_members = (\<lambda>t. []), mo_dir = (\<lambda>t. []), mo_params = (\<lambda>t. []),
     mo_field = (\<lambda>t f. \<lparr>ff_info = None, ff_annotated = True, ff_attr = None\<rparr>), mo_properties = (\<lambda>t. [])\<rparr>"

abbreviation Role :: pytype where "Role \<equiv> TClass ''Role'' []"

definition role_text :: string where
  "role_text = line ''export interface Role {'' @ line ''  displayName: string;'' @ line ''}''"

lemma camel_display_name: "field_name_text ''display_name'' = ''displayName''"
  by code_simp

lemma parse_role:
  "parse_type_to_typescript_interface (Suc (Suc n)) sample_models Enum_style Role = Some ({Prim P_str}, role_text, [])"
  by (simp add: parse_type_to_typescript_interface_def is_split_model_def sample_models_def sample_classes_def
      parse_single_typescript_interface_def interface_text_def extends_text_def valid_bases_def fields_text_def visible_fields_def
      constants_def should_exclude_field_def py_startswith_def member_text_def own_types_def class_args_def class_ts_name_def
      is_optional_def has_default_value_def properties_text_def header_text_def camel_display_name role_text_def line_def)

theorem interfaces_printed_for_closure_witness:
  "\<exists>w. (worklist_step 2 sample_models Enum_style)\<^sup>*\<^sup>* (worklist_start {Role} {}) w \<and> Role \<in> fst ` set (buffer w)
     \<and> \<not> (\<exists>run. run 0 = worklist_start {Role} {} \<and> (\<forall>i. worklist_step 2 sample_models Enum_style (run i) (run (Suc i))))"
proof -
  have p: "parse_type_to_typescript_interface 2 sample_models Enum_style Role = Some ({Prim P_str}, role_text, [])"
    using parse_role [of 0] by (simp add: numeral_2_eq_2)
  have "needed 2 sample_models Enum_style {Role} {} \<subseteq> {Role, Prim P_str}"
    by (rule needed_subset) (auto simp: refers_to_def p enum_classes_def)
  then have f: "finite (needed 2 sample_models Enum_style {Role} {})" by (rule finite_subset) simp
  let ?w1 = "\<lparr>processed = {Role}, backlog = {Prim P_str}, buffer = [(Role, role_text)], mapped_types = {}\<rparr>"
  let ?w2 = "?w1\<lparr>backlog := {}\<rparr>"
  have "process_type 2 sample_models Enum_style Role (worklist_start {Role} {}) = Some ?w1"
    by (simp add: process_type_def worklist_start_def p enum_classes_def Let_def)
  then have 1: "worklist_step 2 sample_models Enum_style (worklist_start {Role} {}) ?w1"
    by (intro worklist_step.intros) (simp add: worklist_start_def)
  have "process_type 2 sample_models Enum_style (Prim P_str) ?w1 = Some ?w2" by (simp add: process_type_def Let_def)
  then have "worklist_step 2 sample_models Enum_style ?w1 ?w2" by (intro worklist_step.intros) simp_all
  with 1 have "(worklist_step 2 sample_models Enum_style)\<^sup>*\<^sup>* (worklist_start {Role} {}) ?w2" by (meson converse_rtranclp_into_rtranclp r_into_rtranclp)
  moreover have "\<not> (\<exists>run. run 0 = worklist_start {Role} {} \<and> (\<forall>i. worklist_step 2 sample_models Enum_style (run i) (run (Suc i))))"
    using interfaces_printed_for_closure [OF f, of Role] by (rule conjunct1) simp_all
  ultimately show ?thesis by (intro exI [of _ ?w2]) simp
qed

end
