(* ===== verification/Ts_Http.thy ===== *)
theory Ts_Http
  imports Ts_Models
begin

section \<open>Service classes and hooks of the controllers\<close>

text \<open>
  \<^verbatim>\<open>tools/typescript/http\<close>: the parameters of an endpoint (\<^verbatim>\<open>parameters.py\<close>, \<^verbatim>\<open>parameter_builders.py\<close>,
  \<^verbatim>\<open>parameter_extractor.py\<close>, \<^verbatim>\<open>middleware_extractor.py\<close>), the methods (\<^verbatim>\<open>endpoint_writer.py\<close>), the hooks
  (\<^verbatim>\<open>hooks_writer.py\<close>), the class of a controller (\<^verbatim>\<open>controller_writer.py\<close>) and the whole file (\<^verbatim>\<open>microservice_writer.py\<close>).
  Functions are written as \<open>TClass f []\<close>: of a handler or a dependency only annotations and bases are looked at.
\<close>

subsection \<open>Parameters\<close>

datatype kind = K_query | K_path | K_body | K_header | K_cookie | K_form

record param =
  ps_type :: kind
  ps_name :: string
  ps_argument :: string

fun kind_str :: "kind \<Rightarrow> string" where
  "kind_str K_query = ''query''"
| "kind_str K_path = ''path''"
| "kind_str K_body = ''body''"
| "kind_str K_header = ''header''"
| "kind_str K_cookie = ''cookie''"
| "kind_str K_form = ''form''"

subsubsection \<open>Parameters in paths\<close>

text \<open>
  A match of \<open>{([^:}]+)(?::[^}]*)?}\<close> after an opening brace: the name, the text of the match after the brace, and what follows.
\<close>

definition match_param :: "string \<Rightarrow> (string \<times> string \<times> string) option" where
  "match_param s =
     (let name = takeWhile (\<lambda>c. c \<noteq> CHR '':'' \<and> c \<noteq> CHR ''}'') s;
          r = dropWhile (\<lambda>c. c \<noteq> CHR '':'' \<and> c \<noteq> CHR ''}'') s
      in if name = [] then None
         else (case r of
                 [] \<Rightarrow> None
               | c # cs \<Rightarrow>
                   (if c = CHR ''}'' then Some (name, name @ ''}'', cs)
                    else (let conv = takeWhile (\<lambda>c. c \<noteq> CHR ''}'') cs; r2 = dropWhile (\<lambda>c. c \<noteq> CHR ''}'') cs
                          in if r2 = [] then None else Some (name, name @ '':'' @ conv @ ''}'', tl r2)))))"

lemma match_param_shorter: "match_param s = Some (name, m, r) \<Longrightarrow> length r < length s"
proof -
  have d: "dropWhile P xs = y # ys \<Longrightarrow> length ys < length xs" for P y ys and xs :: string
    using length_dropWhile_le [of P xs] by simp
  assume "match_param s = Some (name, m, r)"
  then show ?thesis
    by (auto simp: match_param_def Let_def neq_Nil_conv dest!: d split: list.splits if_splits
        intro: le_less_trans [OF diff_le_self le_less_trans [OF length_dropWhile_le]])
qed

function sub_param :: "string \<Rightarrow> string \<Rightarrow> string" where
  "sub_param p [] = []"
| "sub_param p (c # cs) =
     (if c = CHR ''{''
      then (case match_param cs of
              None \<Rightarrow> c # sub_param p cs
            | Some (name, m, r) \<Rightarrow> (if name = p then CHR '':'' # name else c # m) @ sub_param p r)
      else c # sub_param p cs)"
  by pat_completeness auto
termination
  by (relation "measure (length \<circ> snd)") (auto dest: match_param_shorter)

definition parse_path_with_params :: "string \<Rightarrow> param list \<Rightarrow> string" where
  "parse_path_with_params path ps = fold (\<lambda>p. sub_param (ps_name p)) ps path"

text \<open>\<open>is_path_parameter\<close>: \<open>{name}\<close> or \<open>{name:...}\<close> occurs in the path of the controller or of the method.\<close>

fun has_param :: "string \<Rightarrow> string \<Rightarrow> bool" where
  "has_param name [] = False"
| "has_param name (c # cs) =
     (py_startswith (c # cs) (''{'' @ name @ ''}'')
      \<or> py_startswith (c # cs) (''{'' @ name @ '':'') \<and> CHR ''}'' \<in> set (takeWhile (\<lambda>d. d \<noteq> newline) (drop (Suc (length name)) cs))
      \<or> has_param name cs)"

definition is_path_parameter :: "string \<Rightarrow> string \<Rightarrow> string \<Rightarrow> bool" where
  "is_path_parameter name controller_path path = (has_param name controller_path \<or> has_param name path)"

subsubsection \<open>Duplicates\<close>

definition conflict_message :: "string \<Rightarrow> param \<Rightarrow> param \<Rightarrow> string" where
  "conflict_message owner old new =
     owner @ '': parameter '' @ [apostrophe] @ ps_name new @ [apostrophe] @ '' is declared more than once with different definitions (''
     @ kind_str (ps_type old) @ '': '' @ ps_argument old @ '' vs '' @ kind_str (ps_type new) @ '': '' @ ps_argument new @ '')''"

fun merge_into :: "string \<Rightarrow> param list \<Rightarrow> param list \<Rightarrow> param list result" where
  "merge_into owner merged [] = Inr merged"
| "merge_into owner merged (p # ps) =
     (case find (\<lambda>q. ps_name q = ps_name p) merged of
        None \<Rightarrow> merge_into owner (merged @ [p]) ps
      | Some q \<Rightarrow>
          (if ps_type q \<noteq> ps_type p \<or> ps_argument q \<noteq> ps_argument p
           then Inl (Exc ValueError (conflict_message owner q p)) else merge_into owner merged ps))"

definition merge_duplicate_parameters :: "param list \<Rightarrow> string \<Rightarrow> param list result" where
  "merge_duplicate_parameters ps owner = merge_into owner [] ps"

definition mount_parameters_arguments :: "param list \<Rightarrow> string" where
  "mount_parameters_arguments ps = py_join '', '' (map (\<lambda>p. ps_name p @ '': '' @ ps_argument p) ps)"

subsubsection \<open>Building a parameter\<close>

definition input_suffix :: "classes \<Rightarrow> pytype \<Rightarrow> string" where
  "input_suffix C t = (case t of TClass c args \<Rightarrow> if cl_split C c then ''Input'' else [] | _ \<Rightarrow> [])"

type_synonym params = "(param list \<times> pytype set \<times> string list) option"

definition build_parameter_spec ::
  "nat \<Rightarrow> classes \<Rightarrow> enum_style \<Rightarrow> (string \<rightharpoonup> pytype) \<Rightarrow> bool \<Rightarrow> kind \<Rightarrow> string \<Rightarrow> pytype \<Rightarrow> (param \<times> string list) option" where
  "build_parameter_spec n C st M split_aware k name t =
     map_option (\<lambda>(s, e). (\<lparr>ps_type = k, ps_name = name, ps_argument = s\<rparr>, e))
       (get_field_type_for_ts n C st (if split_aware then input_suffix C t else []) M t)"

definition one_param :: "pytype set \<Rightarrow> (param \<times> string list) option \<Rightarrow> params" where
  "one_param ts p = map_option (\<lambda>(p, e). ([p], ts, e)) p"

fun fastapi_marker :: "meta list \<Rightarrow> marker option" where
  "fastapi_marker [] = None"
| "fastapi_marker (Marker m # ms) = Some m"
| "fastapi_marker (m # ms) = fastapi_marker ms"

text \<open>The outer \<open>None\<close>: the marker is none of the parameter markers.\<close>

definition build_marked_parameter ::
  "nat \<Rightarrow> classes \<Rightarrow> enum_style \<Rightarrow> (string \<rightharpoonup> pytype) \<Rightarrow> marker \<Rightarrow> string \<Rightarrow> pytype \<Rightarrow> pytype \<Rightarrow> params option" where
  "build_marked_parameter n C st M m name t u =
     (case m of
        M_Header \<Rightarrow> Some (one_param {Prim P_str} (build_parameter_spec n C st M False K_header name (Prim P_str)))
      | M_Cookie \<Rightarrow> Some (one_param {Prim P_str} (build_parameter_spec n C st M False K_cookie name (Prim P_str)))
      | M_Form \<Rightarrow> Some (one_param {u} (build_parameter_spec n C st M False K_form name u))
      | M_Body \<Rightarrow> Some (do { ts \<leftarrow> extract_all_envolved_types n C t;
                             one_param ts (build_parameter_spec n C st M True K_body name t) })
      | M_Query \<Rightarrow> Some (one_param {t} (build_parameter_spec n C st M True K_query name t))
      | M_Path \<Rightarrow> Some (one_param {t} (build_parameter_spec n C st M True K_path name t))
      | _ \<Rightarrow> None)"

definition build_unmarked_parameter ::
  "nat \<Rightarrow> classes \<Rightarrow> enum_style \<Rightarrow> (string \<rightharpoonup> pytype) \<Rightarrow> bool \<Rightarrow> string \<Rightarrow> pytype \<Rightarrow> (param \<times> string list) option" where
  "build_unmarked_parameter n C st M is_path name t =
     (if is_path then build_parameter_spec n C st M True K_path name t
      else if is_upload_file_type t then build_parameter_spec n C st M False K_form name t
      else build_parameter_spec n C st M True K_query name t)"

subsubsection \<open>Extraction\<close>

text \<open>What reflection tells about a handler or dependency, beside its annotations.\<close>

record reflection =
  re_classes :: classes
  re_bases :: "pytype \<Rightarrow> pytype list"          \<comment> \<open>\<open>__bases__\<close>\<close>
  re_model :: "pytype \<Rightarrow> bool"                \<comment> \<open>a subclass of \<open>BaseModel\<close>\<close>
  re_signature :: "pytype \<Rightarrow> pytype list"      \<comment> \<open>annotations in the signature of a class\<close>

record route =
  rt_controller_path :: string
  rt_path :: string

fun gather :: "params list \<Rightarrow> params" where
  "gather [] = Some ([], {}, [])"
| "gather (x # xs) = do { (a, s, e) \<leftarrow> x; (b, t, f) \<leftarrow> gather xs; Some (a @ b, s \<union> t, e @ f) }"

definition types_only :: "params \<Rightarrow> params" where
  "types_only x = map_option (\<lambda>(ps, ts, e). ([], ts, e)) x"

definition excluded_types :: "pytype list" where
  "excluded_types = [TClass ''Request'' [], Prim P_Response]"

text \<open>
  One annotated parameter of a member, \<open>rec\<close> being the extraction from a dependency or from the annotations in a signature.
\<close>

definition annotated_parameter ::
  "nat \<Rightarrow> reflection \<Rightarrow> enum_style \<Rightarrow> (string \<rightharpoonup> pytype) \<Rightarrow> route \<Rightarrow> (pytype \<Rightarrow> params) \<Rightarrow> string \<Rightarrow> pytype \<Rightarrow> params" where
  "annotated_parameter n R st M rt rec name t =
     (let (u, metas) = unwrap_annotated_type t;
          unmarked = one_param {u} (build_unmarked_parameter n (re_classes R) st M
             (is_path_parameter name (rt_controller_path rt) (rt_path rt)) name u)
      in case fastapi_marker metas of
           None \<Rightarrow> unmarked
         | Some m \<Rightarrow>
             (case build_marked_parameter n (re_classes R) st M m name t u of
                Some x \<Rightarrow> x
              | None \<Rightarrow> (case m of
                    M_Depends (Some d) \<Rightarrow> rec d
                  | M_Depends None \<Rightarrow> rec (hd (type_args t))
                  | _ \<Rightarrow> Some ([], {}, []))))"

definition plain_parameter ::
  "nat \<Rightarrow> reflection \<Rightarrow> enum_style \<Rightarrow> (string \<rightharpoonup> pytype) \<Rightarrow> route \<Rightarrow> string \<Rightarrow> pytype \<Rightarrow> params" where
  "plain_parameter n R st M rt name t =
     (if is_class t \<and> re_model R t
      then do { ts \<leftarrow> extract_all_envolved_types n (re_classes R) t;
                one_param ts (build_parameter_spec n (re_classes R) st M True K_body name t) }
      else if is_upload_file_type t
      then one_param {t} (build_parameter_spec n (re_classes R) st M False K_form name t)
      else one_param {t} (build_unmarked_parameter n (re_classes R) st M
             (is_path_parameter name (rt_controller_path rt) (rt_path rt)) name t))"

text \<open>The types in the signature of a class used as a parameter.\<close>

definition signature_types :: "(pytype \<Rightarrow> params) \<Rightarrow> pytype \<Rightarrow> params" where
  "signature_types rec a =
     (if is_primitive a \<and> (case a of Prim p \<Rightarrow> True | TVar v \<Rightarrow> True | TNone \<Rightarrow> True | TText s \<Rightarrow> True | _ \<Rightarrow> False)
      then Some ([], {}, [])
      else gather [Some ([], (if \<not> is_primitive a then {}
                              else case a of
                                  TAnnotated u ms \<Rightarrow> set_option (plain_validator (snd (unwrap_annotated_type a)))
                                | _ \<Rightarrow> set (type_args a)), []),
                   types_only (rec a)])"

definition is_annotated :: "pytype \<Rightarrow> bool" where
  "is_annotated t = (case t of TAnnotated u ms \<Rightarrow> True | _ \<Rightarrow> False)"

definition resolve_generic :: "(string \<rightharpoonup> pytype) \<Rightarrow> pytype \<Rightarrow> pytype" where
  "resolve_generic M t = (case t of TVar v \<Rightarrow> (case M v of Some u \<Rightarrow> u | None \<Rightarrow> t) | _ \<Rightarrow> t)"

definition member_parameter ::
  "nat \<Rightarrow> reflection \<Rightarrow> enum_style \<Rightarrow> (string \<rightharpoonup> pytype) \<Rightarrow> route \<Rightarrow> (pytype \<Rightarrow> params) \<Rightarrow> string \<times> pytype \<Rightarrow> params" where
  "member_parameter n R st M rt rec nt =
     (case nt of (name, t0) \<Rightarrow>
        if name = ''return'' \<or> t0 \<in> set excluded_types then Some ([], {}, [])
        else (let t = resolve_generic M t0
              in gather [if is_annotated t then annotated_parameter n R st M rt rec name t else plain_parameter n R st M rt name t,
                         if is_class t \<and> \<not> is_primitive t then gather (map (signature_types rec) (re_signature R t))
                         else Some ([], {}, [])]))"

fun extract_parameters :: "nat \<Rightarrow> reflection \<Rightarrow> enum_style \<Rightarrow> (string \<rightharpoonup> pytype) \<Rightarrow> route \<Rightarrow> pytype \<Rightarrow> params" where
  "extract_parameters 0 R st M rt t = None"
| "extract_parameters (Suc n) R st M rt t =
     (let rec = extract_parameters n R st M rt
      in case t of
           TUnion True ts \<Rightarrow> gather (map rec (filter (\<lambda>u. \<not> is_primitive u) ts))
         | _ \<Rightarrow>
             (if is_primitive t
              then (case t of
                      TAnnotated u ms \<Rightarrow>
                        (case plain_validator (snd (unwrap_annotated_type t)) of
                           Some v \<Rightarrow> Some ([], {v}, []) | None \<Rightarrow> rec (fst (unwrap_annotated_type t)))
                    | _ \<Rightarrow> Some ([], {}, []))
              else gather (map rec (re_bases R t)
                     @ map (member_parameter n R st M rt rec) (cl_annotations (re_classes R) t)
                     @ map rec (type_args t))))"

text \<open>
  The parameters of a middleware: those of its method \<open>intercept\<close>, given by their annotations; a plain one that is neither in the path
  nor primitive is not sent.
\<close>

definition middleware_parameter :: "nat \<Rightarrow> reflection \<Rightarrow> enum_style \<Rightarrow> route \<Rightarrow> string \<times> pytype \<Rightarrow> params" where
  "middleware_parameter n R st rt nt =
     (case nt of (name, t) \<Rightarrow>
        if name = ''self'' \<or> t \<in> set excluded_types then Some ([], {}, [])
        else if is_annotated t then annotated_parameter n R st Map.empty rt (extract_parameters n R st Map.empty rt) name t
        else if is_path_parameter name (rt_controller_path rt) (rt_path rt)
        then one_param {t} (build_parameter_spec n (re_classes R) st Map.empty True K_path name t)
        else if is_primitive t
        then one_param {t} (build_parameter_spec n (re_classes R) st Map.empty False K_query name t)
        else Some ([], {t}, []))"

definition extract_middleware_parameters :: "nat \<Rightarrow> reflection \<Rightarrow> enum_style \<Rightarrow> route \<Rightarrow> (string \<times> pytype) list \<Rightarrow> params" where
  "extract_middleware_parameters n R st rt signature = gather (map (middleware_parameter n R st rt) signature)"

definition collect_middleware_parameters ::
  "nat \<Rightarrow> reflection \<Rightarrow> enum_style \<Rightarrow> route \<Rightarrow> (string \<times> pytype) list list \<Rightarrow> params" where
  "collect_middleware_parameters n R st rt ms = gather (map (extract_middleware_parameters n R st rt) ms)"

subsection \<open>Methods\<close>

definition strip_slashes :: "string \<Rightarrow> string" where
  "strip_slashes = strip_chars ''/''"

definition build_endpoint_path :: "string \<Rightarrow> string \<Rightarrow> param list \<Rightarrow> string" where
  "build_endpoint_path controller_path path ps =
     (let parts = filter (\<lambda>s. s \<noteq> []) [strip_slashes (parse_path_with_params controller_path ps),
                                          strip_slashes (parse_path_with_params path ps)]
      in CHR ''/'' # py_join ''/'' parts)"

definition entry_line :: "nat \<Rightarrow> string \<Rightarrow> string" where
  "entry_line depth name = line (replicate depth tab @ quoted name @ '': '' @ name @ '','')"

definition named_params :: "string \<Rightarrow> param list \<Rightarrow> kind \<Rightarrow> string" where
  "named_params key ps k =
     line (replicate 3 tab @ key @ '': {'')
     @ concat (map (entry_line 4 \<circ> ps_name) (sort_key ps_name (filter (\<lambda>p. ps_type p = k) ps)))
     @ line (replicate 3 tab @ ''},'')"

definition body_text :: "param list \<Rightarrow> string" where
  "body_text ps =
     (let form = filter (\<lambda>p. ps_type p = K_form) ps; body = find (\<lambda>p. ps_type p = K_body) ps
      in if form \<noteq> []
         then line (replicate 3 tab @ ''body: makeFormData({'')
              @ concat (map (entry_line 4 \<circ> ps_name) form)
              @ (case body of Some b \<Rightarrow> line (replicate 4 tab @ ''...'' @ ps_name b @ '','') | None \<Rightarrow> [])
              @ line (replicate 3 tab @ ''})'')
         else line (replicate 3 tab @ ''body: '' @ (case body of Some b \<Rightarrow> ps_name b | None \<Rightarrow> ''undefined'')))"

record mapping =
  mp_method :: string
  mp_path :: string
  mp_response_type :: "string option"

definition write_endpoint_method :: "string \<Rightarrow> mapping \<Rightarrow> string \<Rightarrow> param list \<Rightarrow> string \<Rightarrow> string" where
  "write_endpoint_method name m controller_path ps return_text =
     line (tab # ''async '' @ snake_to_camel name @ ''('' @ mount_parameters_arguments ps @ ''): Promise<'' @ return_text @ ''> {'')
     @ line (replicate 2 tab @ ''const response = await this.httpBackend.request<'' @ return_text @ ''>({ '')
     @ (case mp_response_type m of Some r \<Rightarrow> line (replicate 3 tab @ ''responseType: '' @ quoted r @ '','') | None \<Rightarrow> [])
     @ line (replicate 3 tab @ ''method: '' @ quoted (mp_method m) @ '','')
     @ line (replicate 3 tab @ ''path: `'' @ build_endpoint_path controller_path (mp_path m) ps @ ''`,'')
     @ named_params ''pathParams'' ps K_path @ named_params ''headers'' ps K_header @ named_params ''query'' ps K_query
     @ body_text ps
     @ line (replicate 2 tab @ ''});'') @ line (replicate 2 tab @ ''return response;'') @ line (tab # ''}'')"

subsection \<open>Hooks\<close>

definition camel_line :: "nat \<Rightarrow> string \<Rightarrow> string" where
  "camel_line depth name = line (replicate depth tab @ quoted (snake_to_camel name) @ '','')"

definition infinite_line :: "nat \<Rightarrow> string \<Rightarrow> string" where
  "infinite_line depth name =
     line (replicate depth tab @ quoted (snake_to_camel name) @ '': paginationModelByFirstArgPaginationFilter(),'')"

text \<open>The methods of each group: only queries, only mutations, both; a query carries whether it is infinite.\<close>

definition query_only :: "(string \<times> bool) list \<Rightarrow> string list \<Rightarrow> (string \<times> bool) list" where
  "query_only queries mutations = filter (\<lambda>(n, i). n \<notin> set mutations) queries"

definition mutation_only :: "(string \<times> bool) list \<Rightarrow> string list \<Rightarrow> string list" where
  "mutation_only queries mutations = filter (\<lambda>n. n \<notin> fst ` set queries) mutations"

definition both_decorators :: "(string \<times> bool) list \<Rightarrow> string list \<Rightarrow> (string \<times> bool) list" where
  "both_decorators queries mutations =
     map (\<lambda>n. (n, the (map_of (rev queries) n))) (sort (remdups (filter (\<lambda>n. n \<in> set mutations) (map fst queries))))"

definition list_block :: "nat \<Rightarrow> string \<Rightarrow> string \<Rightarrow> string list \<Rightarrow> string" where
  "list_block depth maker class_name names =
     line (replicate depth tab @ ''...'' @ maker @ ''('' @ class_name @ '','')
     @ concat (map (camel_line (Suc depth)) names) @ line (replicate depth tab @ ''),'')"

definition infinite_block :: "nat \<Rightarrow> string \<Rightarrow> string list \<Rightarrow> string" where
  "infinite_block depth class_name names =
     line (replicate depth tab @ ''...createClassInfiniteQueryHooks('' @ class_name @ '', {'')
     @ concat (map (infinite_line (Suc depth)) names) @ line (replicate depth tab @ ''}),'')"

definition infinite_names :: "(string \<times> bool) list \<Rightarrow> string list" where
  "infinite_names qs = map fst (filter snd qs)"

definition write_controller_hooks :: "string \<Rightarrow> (string \<times> bool) list \<Rightarrow> string list \<Rightarrow> string" where
  "write_controller_hooks class_name queries mutations =
     (let qs = query_only queries mutations; ms = mutation_only queries mutations; bs = both_decorators queries mutations
      in line (''export const '' @ pascal_to_camel class_name @ '' = /*#__PURE__*/ (() => ({'')
         @ (if qs \<noteq> [] then list_block 1 ''createClassQueryHooks'' class_name (map fst qs) else [])
         @ (if infinite_names qs \<noteq> [] then infinite_block 1 class_name (infinite_names qs) else [])
         @ (if ms \<noteq> [] then list_block 1 ''createClassMutationHooks'' class_name ms else [])
         @ (if bs \<noteq> []
            then line (tab # ''queries: {'') @ list_block 2 ''createClassQueryHooks'' class_name (map fst bs) @ line (tab # ''},'')
                 @ line (tab # ''mutations: {'') @ list_block 2 ''createClassMutationHooks'' class_name (map fst bs) @ line (tab # ''},'')
            else [])
         @ (if infinite_names bs \<noteq> []
            then line (tab # ''infiniteQueries: {'') @ infinite_block 2 class_name (infinite_names bs) @ line (tab # ''},'')
            else [])
         @ line ''}))();'')"

subsection \<open>Controllers\<close>

text \<open>
  A method of a controller with the decorators that were resolved for it: its route, the query decorator with its flag, the
  mutation decorator, and the signatures of the middlewares that apply, those of the controller first.
\<close>

record endpoint =
  ep_name :: string
  ep_handler :: pytype
  ep_mapping :: mapping
  ep_return :: pytype
  ep_query :: "bool option"
  ep_mutation :: bool
  ep_middlewares :: "(string \<times> pytype) list list"

record controller =
  ct_name :: string
  ct_path :: string
  ct_type_mapping :: "string \<rightharpoonup> pytype"
  ct_endpoints :: "endpoint list"

definition all_of_set :: "('a \<Rightarrow> 'b set option) \<Rightarrow> 'a set \<Rightarrow> 'b set option" where
  "all_of_set f S = (if None \<in> f ` S then None else Some (\<Union>(the ` f ` S)))"

type_synonym written = "(string \<times> pytype set \<times> string list) result option"

definition write_endpoint :: "nat \<Rightarrow> reflection \<Rightarrow> enum_style \<Rightarrow> controller \<Rightarrow> endpoint \<Rightarrow> written" where
  "write_endpoint n R st c ep =
     (let rt = \<lparr>rt_controller_path = ct_path c, rt_path = mp_path (ep_mapping ep)\<rparr>
      in do {
        found \<leftarrow> extract_all_envolved_types n (re_classes R) (ep_return ep);
        (ret, e0) \<leftarrow> get_field_type_for_ts n (re_classes R) st ''Output'' (ct_type_mapping c) (ep_return ep);
        (ps, ts, e1) \<leftarrow> extract_parameters n R st (ct_type_mapping c) rt (ep_handler ep);
        (qs, us, e2) \<leftarrow> collect_middleware_parameters n R st rt (ep_middlewares ep);
        (case merge_duplicate_parameters (qs @ ps) (ct_name c @ ''.'' @ ep_name ep) of
           Inl e \<Rightarrow> Some (Inl e)
         | Inr merged \<Rightarrow>
             do {
               vs \<leftarrow> all_of_set (extract_all_envolved_types n (re_classes R)) (ts \<union> us);
               Some (Inr (write_endpoint_method (ep_name ep) (ep_mapping ep) (ct_path c) merged ret, found \<union> vs, e0 @ e1 @ e2))
             })
      })"

fun write_endpoints :: "nat \<Rightarrow> reflection \<Rightarrow> enum_style \<Rightarrow> controller \<Rightarrow> endpoint list \<Rightarrow> written" where
  "write_endpoints n R st c [] = Some (Inr ([], {}, []))"
| "write_endpoints n R st c (ep # eps) =
     do {
       x \<leftarrow> write_endpoint n R st c ep;
       (case x of
          Inl e \<Rightarrow> Some (Inl e)
        | Inr (s, ts, es) \<Rightarrow>
            do {
              y \<leftarrow> write_endpoints n R st c eps;
              Some (case y of Inl e \<Rightarrow> Inl e | Inr (s', ts', es') \<Rightarrow> Inr (s @ s', ts \<union> ts', es @ es'))
            })
     }"

text \<open>The class of a controller, its methods in the order of their names, followed by its hooks.\<close>

definition controller_hooks :: "controller \<Rightarrow> string" where
  "controller_hooks c =
     (let eps = sort_key ep_name (ct_endpoints c);
          queries = concat (map (\<lambda>ep. case ep_query ep of Some i \<Rightarrow> [(ep_name ep, i)] | None \<Rightarrow> []) eps);
          mutations = map ep_name (filter ep_mutation eps)
      in if queries \<noteq> [] \<or> mutations \<noteq> [] then write_controller_hooks (ct_name c) queries mutations else [])"

definition write_rest_controller_to_typescript_interface :: "nat \<Rightarrow> reflection \<Rightarrow> enum_style \<Rightarrow> controller \<Rightarrow> written" where
  "write_rest_controller_to_typescript_interface n R st c =
     do {
       x \<leftarrow> write_endpoints n R st c (sort_key ep_name (ct_endpoints c));
       Some (map_sum id (\<lambda>(s, ts, es). (line (''export class '' @ ct_name c @ '' extends HttpService {'') @ s @ line ''}''
                                          @ controller_hooks c, ts, es)) x)
     }"

subsection \<open>The file of a service\<close>

text \<open>A controller with the web socket messages registered on it, each with its identifier.\<close>

record service_controller =
  sc_controller :: controller
  sc_messages :: "(string \<times> pytype) list"

definition write_service_controller :: "nat \<Rightarrow> models \<Rightarrow> reflection \<Rightarrow> enum_style \<Rightarrow> service_controller \<Rightarrow> written" where
  "write_service_controller n MO R st sc =
     do {
       x \<leftarrow> write_rest_controller_to_typescript_interface n R st (sc_controller sc);
       (ts', s', es') \<leftarrow> write_websocket_message_interfaces n MO st (map snd (sc_messages sc));
       Some (map_sum id (\<lambda>(s, ts, es). (s @ s', ts \<union> ts', es @ es')) x)
     }"

fun write_service_controllers :: "nat \<Rightarrow> models \<Rightarrow> reflection \<Rightarrow> enum_style \<Rightarrow> service_controller list \<Rightarrow> written" where
  "write_service_controllers n MO R st [] = Some (Inr ([], {}, []))"
| "write_service_controllers n MO R st (c # cs) =
     do {
       x \<leftarrow> write_service_controller n MO R st c;
       (case x of
          Inl e \<Rightarrow> Some (Inl e)
        | Inr (s, ts, es) \<Rightarrow>
            do {
              y \<leftarrow> write_service_controllers n MO R st cs;
              Some (case y of Inl e \<Rightarrow> Inl e | Inr (s', ts', es') \<Rightarrow> Inr (s @ s', ts \<union> ts', es @ es'))
            })
     }"

text \<open>The whole file, for each way the worklist may run.\<close>

definition service_roots :: "pytype set \<Rightarrow> pytype set \<Rightarrow> pytype set" where
  "service_roots exposed ts = insert (TClass ''WebSocketMessageWrapper'' []) (exposed \<union> ts)"

inductive write_microservice ::
  "nat \<Rightarrow> models \<Rightarrow> reflection \<Rightarrow> enum_style \<Rightarrow> string \<Rightarrow> pytype set \<Rightarrow> service_controller list \<Rightarrow> string \<Rightarrow> bool"
  for n MO R st prelude exposed cs where
  "write_service_controllers n MO R st cs = Some (Inr (s, ts, es)) \<Longrightarrow>
   (worklist_step n MO st)\<^sup>*\<^sup>* (worklist_start (service_roots exposed ts) (enum_classes es)) w \<Longrightarrow> backlog w = {} \<Longrightarrow>
   write_microservice n MO R st prelude exposed cs
     (prelude
      @ write_websocket_message_map (map (\<lambda>c. map (\<lambda>(i, t). (i, cl_name (mo_classes MO) t)) (sc_messages c)) cs)
      @ write_type_interfaces MO w @ s)"

subsection \<open>Lemmas\<close>

text \<open>Paths as the framework reads them: plain text and parameters with an optional converter.\<close>

datatype piece = Text string | Param string "string option"

fun piece_str :: "piece \<Rightarrow> string" where
  "piece_str (Text s) = s"
| "piece_str (Param n None) = ''{'' @ n @ ''}''"
| "piece_str (Param n (Some c)) = ''{'' @ n @ '':'' @ c @ ''}''"

fun piece_ts :: "string set \<Rightarrow> piece \<Rightarrow> string" where
  "piece_ts names (Text s) = s"
| "piece_ts names (Param n c) = (if n \<in> names then CHR '':'' # n else piece_str (Param n c))"

fun piece_ok :: "piece \<Rightarrow> bool" where
  "piece_ok (Text s) = (CHR ''{'' \<notin> set s)"
| "piece_ok (Param n c) = (n \<noteq> [] \<and> CHR ''{'' \<notin> set n \<and> CHR '':'' \<notin> set n \<and> CHR ''}'' \<notin> set n
     \<and> (\<forall>x. c = Some x \<longrightarrow> CHR ''}'' \<notin> set x))"

lemma sub_param_text: "CHR ''{'' \<notin> set s \<Longrightarrow> sub_param p (s @ r) = s @ sub_param p r"
  by (induction s) auto

lemma span_name:
  "CHR '':'' \<notin> set n \<Longrightarrow> CHR ''}'' \<notin> set n \<Longrightarrow> d = CHR '':'' \<or> d = CHR ''}'' \<Longrightarrow>
   takeWhile (\<lambda>c. c \<noteq> CHR '':'' \<and> c \<noteq> CHR ''}'') (n @ d # r) = n
   \<and> dropWhile (\<lambda>c. c \<noteq> CHR '':'' \<and> c \<noteq> CHR ''}'') (n @ d # r) = d # r"
  by (induction n) auto

lemma span_converter:
  "CHR ''}'' \<notin> set n \<Longrightarrow>
   takeWhile (\<lambda>c. c \<noteq> CHR ''}'') (n @ CHR ''}'' # r) = n \<and> dropWhile (\<lambda>c. c \<noteq> CHR ''}'') (n @ CHR ''}'' # r) = CHR ''}'' # r"
  by (induction n) auto

lemma match_param_plain:
  "n \<noteq> [] \<Longrightarrow> CHR '':'' \<notin> set n \<Longrightarrow> CHR ''}'' \<notin> set n \<Longrightarrow> match_param (n @ CHR ''}'' # r) = Some (n, n @ ''}'', r)"
  by (simp add: match_param_def Let_def span_name span_converter)

lemma match_param_converter:
  "n \<noteq> [] \<Longrightarrow> CHR '':'' \<notin> set n \<Longrightarrow> CHR ''}'' \<notin> set n \<Longrightarrow> CHR ''}'' \<notin> set c \<Longrightarrow>
   match_param (n @ CHR '':'' # c @ CHR ''}'' # r) = Some (n, n @ '':'' @ c @ ''}'', r)"
  by (simp add: match_param_def Let_def span_name span_converter)

lemma sub_param_piece:
  assumes "piece_ok x"
  shows "sub_param p (piece_str x @ r) = piece_ts {p} x @ sub_param p r"
proof (cases x)
  case (Text s)
  with assms show ?thesis by (simp add: sub_param_text)
next
  case (Param n c)
  with assms show ?thesis
    by (cases c) (simp_all add: match_param_plain match_param_converter)
qed

lemma sub_param_pieces:
  "list_all piece_ok xs \<Longrightarrow> sub_param p (concat (map piece_str xs)) = concat (map (piece_ts {p}) xs)"
  by (induction xs) (simp_all add: sub_param_piece)

text \<open>What a substitution leaves is again a path of pieces.\<close>

fun substituted :: "string set \<Rightarrow> piece \<Rightarrow> piece" where
  "substituted names (Text s) = Text s"
| "substituted names (Param n c) = (if n \<in> names then Text (CHR '':'' # n) else Param n c)"

lemma substituted_str: "piece_str (substituted names x) = piece_ts names x"
  by (cases x) auto

lemma substituted_ok: "piece_ok x \<Longrightarrow> piece_ok (substituted names x)"
  by (cases x) auto

lemma substituted_again: "substituted {p} (substituted names x) = substituted (insert p names) x"
  by (cases x) auto

lemma parse_path_pieces:
  "list_all piece_ok xs \<Longrightarrow>
   fold (\<lambda>p. sub_param (ps_name p)) ps (concat (map (piece_ts names) xs)) = concat (map (piece_ts (names \<union> ps_name ` set ps)) xs)"
proof (induction ps arbitrary: names)
  case (Cons p ps)
  let ?ys = "map (substituted names) xs"
  have "map piece_str ?ys = map (piece_ts names) xs" by (simp add: substituted_str)
  moreover have "map (piece_ts {ps_name p}) ?ys = map (piece_ts (insert (ps_name p) names)) xs"
    unfolding substituted_str [symmetric] by (simp add: substituted_again)
  moreover have "list_all piece_ok ?ys" using Cons.prems by (simp add: list_all_iff substituted_ok)
  ultimately have "sub_param (ps_name p) (concat (map (piece_ts names) xs)) = concat (map (piece_ts (insert (ps_name p) names)) xs)"
    using sub_param_pieces [of ?ys "ps_name p"] by metis
  then show ?case using Cons by simp
qed simp

subsection \<open>Properties\<close>

text \<open>
  (C32) The parameters of a path are turned from the notation of the server into the one of the generated client: in one
  path every parameter the method declares, with or without a converter, becomes \<open>:name\<close>, and nothing else changes, in whatever
  order the parameters are given.
\<close>

theorem path_parameters_substituted:
  assumes "list_all piece_ok xs"
  shows "parse_path_with_params (concat (map piece_str xs)) ps = concat (map (piece_ts (ps_name ` set ps)) xs)"
proof -
  have "piece_ts {} x = piece_str x" for x by (cases x) auto
  then have "piece_ts {} = piece_str" by (rule ext)
  then show ?thesis using parse_path_pieces [OF assms, of ps "{}"] by (simp add: parse_path_with_params_def)
qed

theorem path_parameters_substituted_witness:
  "parse_path_with_params ''/users/{user_id:uuid}/posts/{id}'' [\<lparr>ps_type = K_path, ps_name = ''id'', ps_argument = ''string''\<rparr>,
     \<lparr>ps_type = K_path, ps_name = ''user_id'', ps_argument = ''string''\<rparr>] = ''/users/:user_id/posts/:id''"
  using path_parameters_substituted [of "[Text ''/users/'', Param ''user_id'' (Some ''uuid''), Text ''/posts/'', Param ''id'' None]"
      "[\<lparr>ps_type = K_path, ps_name = ''id'', ps_argument = ''string''\<rparr>, \<lparr>ps_type = K_path, ps_name = ''user_id'', ps_argument = ''string''\<rparr>]"]
  by simp

lemma merge_into_run:
  "distinct (map ps_name merged) \<Longrightarrow>
   (case merge_into owner merged ps of
      Inr qs \<Rightarrow> distinct (map ps_name qs) \<and> (\<exists>rs. qs = merged @ rs \<and> set rs \<subseteq> set ps)
        \<and> (\<forall>p \<in> set ps. \<exists>q \<in> set qs. ps_name q = ps_name p \<and> ps_type q = ps_type p \<and> ps_argument q = ps_argument p)
    | Inl e \<Rightarrow> exc_cls e = ValueError \<and> (\<exists>p \<in> set merged \<union> set ps. \<exists>q \<in> set ps. ps_name p = ps_name q
        \<and> (ps_type p \<noteq> ps_type q \<or> ps_argument p \<noteq> ps_argument q)))"
proof (induction owner merged ps rule: merge_into.induct)
  case (2 owner merged p ps)
  show ?case
  proof (cases "find (\<lambda>q. ps_name q = ps_name p) merged")
    case None
    then have "distinct (map ps_name (merged @ [p]))" using 2(3) by (auto simp: find_None_iff)
    from 2(1) [OF None this] show ?thesis using None by (auto split: sum.splits)
  next
    case (Some q)
    then have q: "q \<in> set merged" "ps_name q = ps_name p" by (auto simp: find_Some_iff)
    show ?thesis
    proof (cases "ps_type q \<noteq> ps_type p \<or> ps_argument q \<noteq> ps_argument p")
      case True
      then show ?thesis using Some q by (auto intro!: bexI [of _ q])
    next
      case False
      from 2(2) [OF Some False 2(3)] show ?thesis using Some False q by (auto split: sum.splits)
    qed
  qed
qed simp

text \<open>
  The parameters of middlewares and handler are merged into one signature: every name occurs once, every declared parameter is
  covered by one of its name, kind and type, and the merge is refused exactly when two declarations of a name disagree.
\<close>

theorem parameters_merged_by_name:
  "(\<forall>qs. merge_duplicate_parameters ps owner = Inr qs \<longrightarrow>
      distinct (map ps_name qs) \<and> set qs \<subseteq> set ps
      \<and> (\<forall>p \<in> set ps. \<exists>q \<in> set qs. ps_name q = ps_name p \<and> ps_type q = ps_type p \<and> ps_argument q = ps_argument p))
   \<and> ((\<exists>e. merge_duplicate_parameters ps owner = Inl e)
      = (\<exists>p \<in> set ps. \<exists>q \<in> set ps. ps_name p = ps_name q \<and> (ps_type p \<noteq> ps_type q \<or> ps_argument p \<noteq> ps_argument q)))"
proof (cases "merge_into owner [] ps")
  case (Inl e)
  then show ?thesis using merge_into_run [where merged = "[]" and owner = owner and ps = ps] by (auto simp: merge_duplicate_parameters_def)
next
  case (Inr qs)
  then have q: "distinct (map ps_name qs)" "set qs \<subseteq> set ps"
    "\<forall>p \<in> set ps. \<exists>q \<in> set qs. ps_name q = ps_name p \<and> ps_type q = ps_type p \<and> ps_argument q = ps_argument p"
    using merge_into_run [where merged = "[]" and owner = owner and ps = ps] by auto
  have "ps_type p = ps_type p' \<and> ps_argument p = ps_argument p'"
    if d: "p \<in> set ps" "p' \<in> set ps" "ps_name p = ps_name p'" for p p'
  proof -
    obtain a b where "a \<in> set qs" "b \<in> set qs" "ps_name a = ps_name p" "ps_name b = ps_name p'"
      "ps_type a = ps_type p" "ps_argument a = ps_argument p" "ps_type b = ps_type p'" "ps_argument b = ps_argument p'"
      using q(3) d(1,2) by metis
    moreover from this q(1) d(3) have "a = b" by (metis distinct_map inj_onD)
    ultimately show ?thesis by simp
  qed
  then have "\<not> (\<exists>p \<in> set ps. \<exists>q \<in> set ps. ps_name p = ps_name q \<and> (ps_type p \<noteq> ps_type q \<or> ps_argument p \<noteq> ps_argument q))"
    by metis
  moreover have m: "merge_duplicate_parameters ps owner = Inr qs" using Inr by (simp add: merge_duplicate_parameters_def)
  have "qs' = qs" if "merge_duplicate_parameters ps owner = Inr qs'" for qs' using m that by simp
  moreover have "\<not> (\<exists>e. merge_duplicate_parameters ps owner = Inl e)" using m by simp
  ultimately show ?thesis using q by blast
qed

definition sample_params :: "param list" where
  "sample_params = [\<lparr>ps_type = K_header, ps_name = ''tenant'', ps_argument = ''string''\<rparr>,
     \<lparr>ps_type = K_path, ps_name = ''id'', ps_argument = ''string''\<rparr>, \<lparr>ps_type = K_header, ps_name = ''tenant'', ps_argument = ''string''\<rparr>]"

theorem parameters_merged_by_name_witness:
  "merge_duplicate_parameters sample_params ''C.get'' = Inr (take 2 sample_params) \<and> distinct (map ps_name (take 2 sample_params))"
proof -
  have m: "merge_duplicate_parameters sample_params ''C.get'' = Inr (take 2 sample_params)" by code_simp
  with parameters_merged_by_name [of sample_params "''C.get''"] show ?thesis by blast
qed

text \<open>
  Every decorated method gets hooks in exactly one place: the query hooks at the top when it is only a query, the mutation hooks at the
  top when it is only a mutation, and the two name spaces when it is both.
\<close>

lemma hooks_partition_methods:
  assumes "distinct (map fst queries)" "distinct mutations"
  shows "fst ` set (query_only queries mutations) \<union> set (mutation_only queries mutations) \<union> fst ` set (both_decorators queries mutations)
      = fst ` set queries \<union> set mutations"
    and "distinct (map fst (query_only queries mutations) @ mutation_only queries mutations @ map fst (both_decorators queries mutations))"
  using assms
  by (auto simp: query_only_def mutation_only_def both_decorators_def distinct_map_fst_filter o_def image_iff) (metis fst_conv)+

text \<open>A joined path starts with one slash and has no slash at its seams.\<close>

lemma endpoint_path_slash: "\<exists>r. build_endpoint_path c p ps = CHR ''/'' # r"
  by (simp add: build_endpoint_path_def Let_def)

end
