(* ===== verification/Schedule.thy ===== *)
theory Schedule
  imports Delayed_Store
begin

section \<open>The delayed message store implements a schedule\<close>

text \<open>
  What publishers and beat workers rely on, without Redis: a schedule gives a pending task its time and its message. A message is put
  into it under the policies of its idempotency key; a claim takes the earliest due tasks out, as many as it asked for. The Redis
  backend, with its sorted set and its metadata keys, is a refinement of it: whatever a sequence of operations hands out, the
  schedule may hand out too, and the two stay related.
\<close>

subsection \<open>The specification\<close>

type_synonym schedule = "string \<rightharpoonup> int \<times> string"

definition new_time :: "delayed \<Rightarrow> (int \<times> string) option \<Rightarrow> int" where
  "new_time m old =
     (case (idempotency_key m, old) of
        (Some k, Some (t, p)) \<Rightarrow>
          (case time_policy m of TReplace \<Rightarrow> dispatch_time m | TGreater \<Rightarrow> max t (dispatch_time m) | TLesser \<Rightarrow> min t (dispatch_time m))
      | _ \<Rightarrow> dispatch_time m)"

definition new_payload :: "delayed \<Rightarrow> string \<Rightarrow> (int \<times> string) option \<Rightarrow> string" where
  "new_payload m serialized old =
     (case (idempotency_key m, payload_policy m, old) of (Some k, PIgnore, Some (t, p)) \<Rightarrow> p | _ \<Rightarrow> serialized)"

definition scheduled_by :: "int \<Rightarrow> schedule \<Rightarrow> string set" where
  "scheduled_by now \<sigma> = {t. \<exists>sc p. \<sigma> t = Some (sc, p) \<and> sc \<le> now}"

datatype store_op = Put string delayed string | Claim int int

inductive schedule_step :: "schedule \<Rightarrow> store_op \<Rightarrow> string list \<Rightarrow> schedule \<Rightarrow> bool" where
  Put: "schedule_step \<sigma> (Put t m ser) [] (\<sigma>(t \<mapsto> (new_time m (\<sigma> t), new_payload m ser (\<sigma> t))))"
| Claim: "distinct ts \<Longrightarrow> set ts \<subseteq> scheduled_by now \<sigma> \<Longrightarrow> 0 \<le> n \<Longrightarrow> int (length ts) \<le> n \<Longrightarrow>
    (int (length ts) < n \<Longrightarrow> set ts = scheduled_by now \<sigma>) \<Longrightarrow>
    (\<And>t u. t \<in> set ts \<Longrightarrow> u \<in> scheduled_by now \<sigma> - set ts \<Longrightarrow> fst (the (\<sigma> t)) \<le> fst (the (\<sigma> u))) \<Longrightarrow>
    schedule_step \<sigma> (Claim now n) (map (\<lambda>t. snd (the (\<sigma> t))) ts) (\<sigma> |` (- set ts))"

inductive schedule_run :: "schedule \<Rightarrow> store_op list \<Rightarrow> string list list \<Rightarrow> schedule \<Rightarrow> bool" where
  Nil: "schedule_run \<sigma> [] [] \<sigma>"
| Cons: "schedule_step \<sigma> o1 out \<sigma>' \<Longrightarrow> schedule_run \<sigma>' os outs \<sigma>'' \<Longrightarrow> schedule_run \<sigma> (o1 # os) (out # outs) \<sigma>''"

subsection \<open>The implementation\<close>

fun store_exec :: "'s redis \<Rightarrow> store_op \<Rightarrow> 's \<Rightarrow> string list \<times> 's" where
  "store_exec r (Put t m ser) s = ([], enqueue_commands r t m ser s)"
| "store_exec r (Claim now n) s = dequeue_script r now n s"

fun store_run :: "'s redis \<Rightarrow> store_op list \<Rightarrow> 's \<Rightarrow> string list list \<times> 's" where
  "store_run r [] s = ([], s)"
| "store_run r (o1 # os) s =
     (let (out, s1) = store_exec r o1 s; (outs, s2) = store_run r os s1 in (out # outs, s2))"

text \<open>The schedule a store holds.\<close>

definition schedule_of :: "'s redis \<Rightarrow> 's \<Rightarrow> schedule" where
  "schedule_of r s t = (case pending r s t of Some (sc, Some p) \<Rightarrow> Some (sc, p) | _ \<Rightarrow> None)"

fun claims_bounded :: "store_op list \<Rightarrow> bool" where
  "claims_bounded [] = True"
| "claims_bounded (Claim now n # os) = (0 \<le> n \<and> claims_bounded os)"
| "claims_bounded (Put t m ser # os) = claims_bounded os"

subsection \<open>Refinement\<close>

context redis_server
begin

lemma schedule_of_wf: "store_wf r s \<Longrightarrow> pending r s t = map_option (\<lambda>(sc, p). (sc, Some p)) (schedule_of r s t)"
  by (auto simp: schedule_of_def pending_def store_wf_def split: option.splits)

lemma pending_schedule:
  "store_wf r s \<Longrightarrow> schedule_of r s t = Some (sc, p) \<longleftrightarrow> pending r s t = Some (sc, Some p)"
  using schedule_of_wf [of s t] by (cases "schedule_of r s t") auto

lemma put_refines: "store_wf r s \<Longrightarrow> schedule_step (schedule_of r s) (Put t m ser) [] (schedule_of r (enqueue_commands r t m ser s))"
proof -
  assume wf: "store_wf r s"
  have "schedule_of r (enqueue_commands r t m ser s) =
     (schedule_of r s)(t \<mapsto> (new_time m (schedule_of r s t), new_payload m ser (schedule_of r s t)))"
    using schedule_of_wf [OF wf, of t] pending_enqueue [OF wf, of t m ser]
    by (auto simp: fun_eq_iff schedule_of_def [of r "enqueue_commands r t m ser s"] merge_entry_def new_time_def new_payload_def zadd_flag_of_def
        schedule_of_def [of r s, symmetric] split: option.splits time_policy_t.splits payload_policy_t.splits)
  then show ?thesis using schedule_step.Put [of "schedule_of r s" t m ser] by simp
qed

lemma claim_refines:
  assumes wf: "store_wf r s" and n: "0 \<le> n"
  shows "schedule_step (schedule_of r s) (Claim now n) (fst (dequeue_script r now n s)) (schedule_of r (snd (dequeue_script r now n s)))"
proof -
  let ?ts = "claimed_ids r now n s" and ?\<sigma> = "schedule_of r s"
  have due: "\<exists>sc p. ?\<sigma> t = Some (sc, p) \<and> sc \<le> now" if "t \<in> set ?ts" for t
    using backend.ids_due [OF that] schedule_of_wf [OF wf, of t] by (cases "?\<sigma> t") auto
  have sub: "set ?ts \<subseteq> scheduled_by now ?\<sigma>" using due by (auto simp: scheduled_by_def)
  have "Option.bind (pending r s t) snd = Some (snd (the (?\<sigma> t)))" if "t \<in> set ?ts" for t
    using due [OF that] schedule_of_wf [OF wf, of t] by auto
  then have "fst (dequeue_script r now n s) = map (\<lambda>t. snd (the (?\<sigma> t))) ?ts"
    unfolding backend.claim_payloads List.map_filter_def by (auto simp: filter_id_conv intro!: map_cong)
  moreover have "schedule_of r (snd (dequeue_script r now n s)) = ?\<sigma> |` (- set ?ts)"
    by (auto simp: fun_eq_iff schedule_of_def pending_dequeue restrict_map_def)
  moreover have "set ?ts = scheduled_by now ?\<sigma>" if "int (length ?ts) < n"
    using sub claimed_not_full [OF that] pending_schedule [OF wf] by (auto simp: scheduled_by_def)
  moreover have "fst (the (?\<sigma> t)) \<le> fst (the (?\<sigma> u))" if t: "t \<in> set ?ts" and u: "u \<in> scheduled_by now ?\<sigma> - set ?ts" for t u
  proof -
    obtain sc p where 1: "?\<sigma> t = Some (sc, p)" using due [OF t] by blast
    obtain sc' p' where 2: "?\<sigma> u = Some (sc', p')" "sc' \<le> now" using u by (auto simp: scheduled_by_def)
    have "pending r s t = Some (sc, Some p)" "pending r s u = Some (sc', Some p')"
      using 1 2(1) pending_schedule [OF wf] by blast+
    then have "sc \<le> sc'" using claimed_earliest [OF t] 2(2) u by blast
    then show ?thesis by (simp add: 1 2(1))
  qed
  ultimately show ?thesis
    using schedule_step.Claim [of ?ts now ?\<sigma> n] backend.ids_distinct sub n claimed_bounded [OF n, of now s] by simp
qed

lemma store_exec_wf: "store_wf r s \<Longrightarrow> store_wf r (snd (store_exec r o1 s))"
  by (cases o1) (simp_all add: store_wf_enqueue store_wf_dequeue)

lemma store_run_refines:
  "store_wf r s \<Longrightarrow> claims_bounded ops \<Longrightarrow>
   schedule_run (schedule_of r s) ops (fst (store_run r ops s)) (schedule_of r (snd (store_run r ops s)))
   \<and> store_wf r (snd (store_run r ops s))"
proof (induction ops arbitrary: s)
  case (Cons o1 ops)
  have "schedule_step (schedule_of r s) o1 (fst (store_exec r o1 s)) (schedule_of r (snd (store_exec r o1 s)))"
    using Cons.prems by (cases o1) (auto intro: put_refines claim_refines)
  moreover have "claims_bounded ops" using Cons.prems(2) by (cases o1) simp_all
  ultimately show ?case
    using Cons.IH [OF store_exec_wf [OF Cons.prems(1)], of o1] by (auto simp: Let_def split_beta intro: schedule_run.Cons)
qed (simp add: schedule_run.Nil)

end

text \<open>
  (C3) The Redis backend refines the schedule: for every sequence of operations on a well-formed store, what it hands out is what the
  schedule of the store may hand out for the same operations, it ends in a store whose schedule is the resulting one, and that store is
  well-formed again.
\<close>

theorem store_refines_schedule:
  assumes "redis_server r" "store_wf r s" "claims_bounded ops"
  shows "schedule_run (schedule_of r s) ops (fst (store_run r ops s)) (schedule_of r (snd (store_run r ops s)))
    \<and> store_wf r (snd (store_run r ops s))"
  using redis_server.store_run_refines [OF assms] .

theorem store_refines_schedule_witness:
  "\<exists>\<sigma>. schedule_run (schedule_of ref_redis ref_empty)
     [Put ''a'' (sample_msg\<lparr>dispatch_time := 7\<rparr>) ''A'', Put ''b'' (sample_msg\<lparr>dispatch_time := 3\<rparr>) ''B'', Claim 10 1]
     [[], [], [''B'']] \<sigma>"
proof -
  let ?ops = "[Put ''a'' (sample_msg\<lparr>dispatch_time := 7\<rparr>) ''A'', Put ''b'' (sample_msg\<lparr>dispatch_time := 3\<rparr>) ''B'', Claim 10 1]"
  have "fst (store_run ref_redis ?ops ref_empty) = [[], [], [''B'']]"
    by (simp add: store_eval dequeue_script_def ref_zrangebyscore_def Let_def)
  with store_refines_schedule [OF ref.redis_server_axioms store_wf_ref_empty, of ?ops] show ?thesis by auto
qed

end
