(* ===== verification/Trace.thy ===== *)
theory Trace
  imports Py_Text
begin

section \<open>The trust boundary of trace context\<close>

text \<open>
  \<^verbatim>\<open>observability/inbound_trace.py\<close>: which connections may supply trace context, the middleware that renames the headers of the
  others, and the propagator that refuses to extract from them; \<^verbatim>\<open>observability/trace_response.py\<close> and
  \<^verbatim>\<open>trace_context.py\<close>: the trace header on responses. Spans and the formatting of a span context belong to OpenTelemetry and
  are parameters. Header names and values are bytes, written as strings.
\<close>

subsection \<open>Connections\<close>

type_synonym header_list = "(string \<times> string) list"

record connection =
  conn_type :: string
  conn_headers :: "header_list option"
  conn_traceparent :: "string option"     \<comment> \<open>what the interceptor published into the scope\<close>

type_synonym trust = "connection \<Rightarrow> bool"

definition TRACE_CONTEXT_HEADERS :: "string list" where
  "TRACE_CONTEXT_HEADERS = [''traceparent'', ''tracestate'', ''baggage'']"

definition CLAIMED_HEADER_PREFIX :: string where
  "CLAIMED_HEADER_PREFIX = ''x-claimed-''"

definition header_items :: "connection \<Rightarrow> header_list" where
  "header_items c = (case conn_headers c of Some hs \<Rightarrow> hs | None \<Rightarrow> [])"

definition get_header :: "connection \<Rightarrow> string \<Rightarrow> string option" where
  "get_header c name = map_option snd (find (\<lambda>(n, v). py_lower n = py_lower name) (header_items c))"

subsection \<open>Trust\<close>

definition trust_no_one :: trust where
  "trust_no_one c = False"

definition trust_requests_without_origin :: "string list \<Rightarrow> trust" where
  "trust_requests_without_origin allowed c =
     (case get_header c ''origin'' of None \<Rightarrow> True | Some o1 \<Rightarrow> o1 \<in> set allowed)"

definition trust_when_header_matches :: "string \<Rightarrow> string \<Rightarrow> trust" where
  "trust_when_header_matches name value c =
     (case get_header c name of None \<Rightarrow> False | Some presented \<Rightarrow> presented = value)"

definition trust_any_of :: "trust list \<Rightarrow> trust" where
  "trust_any_of ps c = list_ex (\<lambda>p. p c) ps"

subsection \<open>The middleware\<close>

definition disarm_header :: "string \<times> string \<Rightarrow> string \<times> string" where
  "disarm_header nv =
     (case nv of (name, value) \<Rightarrow>
        if py_lower name \<in> set TRACE_CONTEXT_HEADERS then (CLAIMED_HEADER_PREFIX @ py_lower name, value) else (name, value))"

definition disarm_trace_headers :: "header_list \<Rightarrow> header_list" where
  "disarm_trace_headers hs = map disarm_header hs"

text \<open>The scope the middleware hands to the application.\<close>

definition inbound_middleware :: "trust \<Rightarrow> connection \<Rightarrow> connection" where
  "inbound_middleware trust c =
     (if conn_type c \<in> {''http'', ''websocket''} \<and> \<not> trust c
      then (case conn_headers c of
              Some (h # hs) \<Rightarrow> c\<lparr>conn_headers := Some (disarm_trace_headers (h # hs))\<rparr>
            | _ \<Rightarrow> c)
      else c)"

subsection \<open>The propagator\<close>

text \<open>A carrier is an inbound connection or an internal one (message headers).\<close>

datatype carrier = Connection connection | Internal header_list

datatype 'x propagator =
    Plain "carrier \<Rightarrow> 'x option \<Rightarrow> 'x"
  | Trust_aware trust "'x propagator"

definition is_asgi_connection_scope :: "carrier \<Rightarrow> bool" where
  "is_asgi_connection_scope ca =
     (case ca of Connection c \<Rightarrow> conn_type c \<in> {''http'', ''websocket''} \<and> conn_headers c \<noteq> None | Internal hs \<Rightarrow> False)"

fun trusts :: "trust \<Rightarrow> carrier \<Rightarrow> bool" where
  "trusts trust (Connection c) = trust c"
| "trusts trust (Internal hs) = True"

primrec extract_context :: "'x \<Rightarrow> 'x propagator \<Rightarrow> carrier \<Rightarrow> 'x option \<Rightarrow> 'x" where
  "extract_context new_context (Plain f) ca ctx = f ca ctx"
| "extract_context new_context (Trust_aware trust wrapped) ca ctx =
     (if is_asgi_connection_scope ca \<and> \<not> trusts trust ca then (case ctx of Some x \<Rightarrow> x | None \<Rightarrow> new_context)
      else extract_context new_context wrapped ca ctx)"

definition underlying :: "'x propagator \<Rightarrow> 'x propagator" where
  "underlying p = (case p of Trust_aware t w \<Rightarrow> w | Plain f \<Rightarrow> p)"

text \<open>The new global propagator and the replaced one.\<close>

definition install_inbound_trace_boundary :: "trust \<Rightarrow> 'x propagator \<Rightarrow> 'x propagator \<times> 'x propagator" where
  "install_inbound_trace_boundary trust previous = (Trust_aware trust (underlying previous), previous)"

subsection \<open>The header of responses\<close>

text \<open>\<open>format\<close> renders the span context of a span; the empty string is no trace.\<close>

definition resolve_scope_traceparent :: "('s \<Rightarrow> string) \<Rightarrow> connection \<Rightarrow> 's option \<Rightarrow> 's \<Rightarrow> string" where
  "resolve_scope_traceparent format c fallback current =
     (case conn_traceparent c of
        Some (x # xs) \<Rightarrow> x # xs
      | _ \<Rightarrow> format (case fallback of Some s \<Rightarrow> s | None \<Rightarrow> current))"

record trace_header_config =
  header_name :: string
  overwrite :: bool
  expose_via_cors :: bool

definition header_name_bytes :: "trace_header_config \<Rightarrow> string" where
  "header_name_bytes cfg = py_lower (header_name cfg)"

definition has_header :: "header_list \<Rightarrow> string \<Rightarrow> bool" where
  "has_header hs name = list_ex (\<lambda>(n, v). py_lower n = name) hs"

abbreviation "CORS_EXPOSE_HEADERS \<equiv> ''access-control-expose-headers''"
abbreviation "CORS_ALLOW_ORIGIN \<equiv> ''access-control-allow-origin''"

definition exposed_names :: "header_list \<Rightarrow> string list" where
  "exposed_names hs =
     concat (map (\<lambda>(n, v). filter (\<lambda>p. p \<noteq> []) (map py_strip (py_split (CHR '','') v)))
       (filter (\<lambda>(n, v). py_lower n = CORS_EXPOSE_HEADERS) hs))"

definition expose_header :: "trace_header_config \<Rightarrow> header_list \<Rightarrow> header_list" where
  "expose_header cfg hs =
     (if \<not> has_header hs CORS_ALLOW_ORIGIN then hs
      else (let exposed = exposed_names hs;
                remaining = filter (\<lambda>(n, v). py_lower n \<noteq> CORS_EXPOSE_HEADERS) hs;
                exposed' = (if list_ex (\<lambda>n. py_lower n = header_name cfg) exposed then exposed else exposed @ [header_name cfg])
            in remaining @ [(CORS_EXPOSE_HEADERS, py_join '', '' exposed')]))"

definition apply_trace_header :: "trace_header_config \<Rightarrow> string \<Rightarrow> header_list \<Rightarrow> header_list" where
  "apply_trace_header cfg traceparent hs =
     (if \<not> overwrite cfg \<and> has_header hs (header_name_bytes cfg) then hs
      else if traceparent = [] then hs
      else (let hs1 = filter (\<lambda>(n, v). py_lower n \<noteq> header_name_bytes cfg) hs @ [(header_name_bytes cfg, traceparent)]
            in if expose_via_cors cfg then expose_header cfg hs1 else hs1))"

text \<open>A message sent by the application: only the start of an HTTP response is changed.\<close>

definition trace_send :: "trace_header_config \<Rightarrow> string \<Rightarrow> string \<Rightarrow> string \<Rightarrow> header_list \<Rightarrow> header_list" where
  "trace_send cfg scope_type traceparent message_type hs =
     (if scope_type = ''http'' \<and> message_type = ''http.response.start'' then apply_trace_header cfg traceparent hs else hs)"

subsection \<open>Lemmas\<close>

lemma py_lower_idem [simp]: "py_lower (py_lower s) = py_lower s"
proof -
  have "py_lower_char (py_lower_char c) = py_lower_char c" for c
    by (simp add: py_lower_char_def)
  then show ?thesis by (simp add: py_lower_def)
qed

lemma disarmed_name: "py_lower (fst (disarm_header h)) \<notin> set TRACE_CONTEXT_HEADERS"
proof -
  obtain n v where h: "h = (n, v)" by fastforce
  have "py_lower (CLAIMED_HEADER_PREFIX @ py_lower n) = CLAIMED_HEADER_PREFIX @ py_lower n"
    by (simp add: CLAIMED_HEADER_PREFIX_def py_lower_def py_lower_char_def)
  then show ?thesis
    by (auto simp: h disarm_header_def TRACE_CONTEXT_HEADERS_def CLAIMED_HEADER_PREFIX_def)
qed

lemma disarmed_kept: "py_lower (fst h) \<notin> set TRACE_CONTEXT_HEADERS \<Longrightarrow> disarm_header h = h"
  by (auto simp: disarm_header_def split: prod.splits)

lemma snd_disarm [simp]: "snd (disarm_header h) = snd h"
  by (auto simp: disarm_header_def split: prod.splits)

lemma inbound_untrusted:
  "conn_type c \<in> {''http'', ''websocket''} \<Longrightarrow> \<not> trust c \<Longrightarrow> header_items (inbound_middleware trust c) = map disarm_header (header_items c)"
  by (auto simp: inbound_middleware_def header_items_def disarm_trace_headers_def split: option.splits list.splits)

subsection \<open>Properties\<close>

text \<open>
  (C30) Trace context of an untrusted caller has no effect. The application behind the middleware sees no header that a propagator reads; all other
  headers and all values are as they were, in order. Extraction by the installed propagator gives the context it was called with,
  whatever the headers say. Trusted connections, and carriers that are not connections, are read as before, and installing a boundary again
  replaces the previous one.
\<close>

theorem untrusted_trace_context_ignored:
  assumes "conn_type c \<in> {''http'', ''websocket''}" "\<not> trust c"
  shows "(\<forall>h \<in> set (header_items (inbound_middleware trust c)). py_lower (fst h) \<notin> set TRACE_CONTEXT_HEADERS)
    \<and> map snd (header_items (inbound_middleware trust c)) = map snd (header_items c)
    \<and> (\<forall>i < length (header_items c). py_lower (fst (header_items c ! i)) \<notin> set TRACE_CONTEXT_HEADERS \<longrightarrow>
         header_items (inbound_middleware trust c) ! i = header_items c ! i)
    \<and> (conn_headers c \<noteq> None \<longrightarrow>
         extract_context new (fst (install_inbound_trace_boundary trust p)) (Connection c) (Some x) = x)
    \<and> extract_context new (fst (install_inbound_trace_boundary trust p)) (Internal hs) ctx = extract_context new (underlying p) (Internal hs) ctx
    \<and> install_inbound_trace_boundary trust' (fst (install_inbound_trace_boundary trust p))
        = (Trust_aware trust' (underlying p), Trust_aware trust (underlying p))"
  using assms disarmed_name
  by (auto simp: inbound_untrusted disarmed_kept install_inbound_trace_boundary_def is_asgi_connection_scope_def underlying_def comp_def)

definition browser :: connection where
  "browser = \<lparr>conn_type = ''http'', conn_headers = Some [(''Origin'', ''https://evil''), (''TraceParent'', ''00-ab-cd-01'')], conn_traceparent = None\<rparr>"

theorem untrusted_trace_context_ignored_witness:
  "map snd (header_items (inbound_middleware (trust_requests_without_origin []) browser)) = map snd (header_items browser)
   \<and> extract_context 0 (fst (install_inbound_trace_boundary (trust_requests_without_origin []) (Plain (\<lambda>ca ctx. 1)))) (Connection browser) (Some (7 :: nat)) = 7"
proof -
  have "\<not> trust_requests_without_origin [] browser" "conn_type browser \<in> {''http'', ''websocket''}" "conn_headers browser \<noteq> None"
    by (code_simp, simp_all add: browser_def)
  then show ?thesis
    using untrusted_trace_context_ignored [where c = browser and trust = "trust_requests_without_origin []" and new = 0
        and p = "Plain (\<lambda>ca ctx. 1)" and x = "7 :: nat"] by blast
qed

lemma expose_keeps:
  "k \<noteq> CORS_EXPOSE_HEADERS \<Longrightarrow> filter (\<lambda>(n, v). py_lower n = k) (expose_header cfg hs) = filter (\<lambda>(n, v). py_lower n = k) hs"
proof -
  assume k: "k \<noteq> CORS_EXPOSE_HEADERS"
  have e: "py_lower CORS_EXPOSE_HEADERS = CORS_EXPOSE_HEADERS" by code_simp
  have "filter (\<lambda>(n, v). py_lower n = k) (filter (\<lambda>(n, v). py_lower n \<noteq> CORS_EXPOSE_HEADERS) hs) = filter (\<lambda>(n, v). py_lower n = k) hs"
    using k by (induction hs) auto
  then show ?thesis using k e by (auto simp: expose_header_def Let_def)
qed

text \<open>
  Every response gets the trace header exactly once: with the current value when it had none or it may be overwritten, and as the
  application set it otherwise; the other headers, the exposed names apart, stay as they are.
\<close>

theorem trace_header_set_once:
  assumes "traceparent \<noteq> []" "header_name_bytes cfg \<noteq> CORS_EXPOSE_HEADERS"
  shows "filter (\<lambda>(n, v). py_lower n = header_name_bytes cfg) (apply_trace_header cfg traceparent hs) =
      (if \<not> overwrite cfg \<and> has_header hs (header_name_bytes cfg) then filter (\<lambda>(n, v). py_lower n = header_name_bytes cfg) hs
       else [(header_name_bytes cfg, traceparent)])
    \<and> (k \<noteq> CORS_EXPOSE_HEADERS \<and> k \<noteq> header_name_bytes cfg \<longrightarrow>
       filter (\<lambda>(n, v). py_lower n = k) (apply_trace_header cfg traceparent hs) = filter (\<lambda>(n, v). py_lower n = k) hs)"
proof -
  let ?b = "header_name_bytes cfg"
  let ?hs = "filter (\<lambda>(n, v). py_lower n \<noteq> ?b) hs @ [(?b, traceparent)]"
  have b: "py_lower ?b = ?b" by (simp add: header_name_bytes_def)
  have "filter (\<lambda>(n, v). py_lower n = ?b) ?hs = [(?b, traceparent)]" using b by (auto simp: filter_empty_conv)
  moreover have "filter (\<lambda>(n, v). py_lower n = k) ?hs = filter (\<lambda>(n, v). py_lower n = k) hs" if "k \<noteq> ?b"
    using that b by (induction hs) auto
  ultimately show ?thesis
    using assms by (auto simp: apply_trace_header_def expose_keeps Let_def)
qed

theorem trace_header_set_once_witness:
  "filter (\<lambda>(n, v). py_lower n = ''traceparent'')
     (apply_trace_header \<lparr>header_name = ''traceparent'', overwrite = True, expose_via_cors = True\<rparr> ''00-1-2-01'' [(''TraceParent'', ''old'')])
   = [(''traceparent'', ''00-1-2-01'')]"
proof -
  have "header_name_bytes \<lparr>header_name = ''traceparent'', overwrite = True, expose_via_cors = True\<rparr> = ''traceparent''" by code_simp
  then show ?thesis
    using trace_header_set_once [of "''00-1-2-01''" "\<lparr>header_name = ''traceparent'', overwrite = True, expose_via_cors = True\<rparr>"
        "[(''TraceParent'', ''old'')]" "''x''"] by simp
qed

text \<open>The name is compared with its lower case form on one side only: a name with a capital is added again although it is exposed.\<close>

lemma capital_header_exposed_again:
  "expose_header \<lparr>header_name = ''X-Trace'', overwrite = False, expose_via_cors = True\<rparr>
     [(''access-control-allow-origin'', ''*''), (''access-control-expose-headers'', ''X-Trace'')] =
   [(''access-control-allow-origin'', ''*''), (''access-control-expose-headers'', ''X-Trace, X-Trace'')]"
  by code_simp

end
