(* ===== verification/Response_Event.thy ===== *)
theory Response_Event
  imports Trace
begin

section \<open>The response of a request as a span event\<close>

text \<open>
  \<^verbatim>\<open>observability/http_response_event.py\<close>: the middleware that watches the messages of a response and adds one event to the span, with the
  headers, the size and, when asked for, the body. Bytes and decoded text are both written as strings of bytes: text decoded from UTF-8 is
  represented by its encoding, and decoding with errors ignored drops the bytes that belong to no valid sequence. Spans belong to
  OpenTelemetry; \<open>events\<close> collects what the span was given.
\<close>

subsection \<open>Decoding\<close>

definition is_continuation :: "char \<Rightarrow> bool" where
  "is_continuation c = (128 \<le> code c \<and> code c \<le> 191)"

text \<open>The length a first byte announces, or 0, and the second bytes it admits beyond being a continuation.\<close>

definition lead_width :: "char \<Rightarrow> nat" where
  "lead_width c =
     (if code c < 128 then 1 else if 194 \<le> code c \<and> code c \<le> 223 then 2 else if 224 \<le> code c \<and> code c \<le> 239 then 3
      else if 240 \<le> code c \<and> code c \<le> 244 then 4 else 0)"

definition second_ok :: "char \<Rightarrow> char \<Rightarrow> bool" where
  "second_ok a b =
     (if code a = 224 then 160 \<le> code b else if code a = 237 then code b \<le> 159
      else if code a = 240 then 144 \<le> code b else if code a = 244 then code b \<le> 143 else True)"

text \<open>The length of the valid UTF-8 sequence a string begins with, or 0.\<close>

definition utf8_width :: "string \<Rightarrow> nat" where
  "utf8_width s =
     (case s of
        [] \<Rightarrow> 0
      | a # r \<Rightarrow>
          (let w = lead_width a
           in if 0 < w \<and> w \<le> length s \<and> list_all is_continuation (take (w - 1) r) \<and> (w = 1 \<or> second_ok a (hd r)) then w else 0))"

lemma utf8_width_le: "utf8_width s \<le> length s"
  by (auto simp: utf8_width_def Let_def split: list.splits)

text \<open>\<open>bytes.decode(errors="ignore")\<close>\<close>

function utf8_ignore :: "string \<Rightarrow> string" where
  "utf8_ignore s =
     (if s = [] then []
      else if utf8_width s = 0 then utf8_ignore (tl s)
      else take (utf8_width s) s @ utf8_ignore (drop (utf8_width s) s))"
  by auto
termination
  by (relation "measure length") auto

declare utf8_ignore.simps [simp del]

subsection \<open>The record of a response\<close>

record response_record =
  status_code :: "int option"
  headers :: header_list
  body :: string
  body_size :: nat
  body_budget :: int

definition new_record :: "int \<Rightarrow> response_record" where
  "new_record budget = \<lparr>status_code = None, headers = [], body = [], body_size = 0, body_budget = budget\<rparr>"

datatype asgi_message =
    Response_start "int option" header_list
  | Response_body string bool     \<comment> \<open>the chunk and \<open>more_body\<close>\<close>
  | Other_message string

definition record_start :: "int option \<Rightarrow> header_list \<Rightarrow> response_record \<Rightarrow> response_record" where
  "record_start st hs r = r\<lparr>status_code := st, headers := hs\<rparr>"

definition record_body :: "string \<Rightarrow> response_record \<Rightarrow> response_record" where
  "record_body chunk r =
     (let remaining = body_budget r - int (length (body r)); r1 = r\<lparr>body_size := body_size r + length chunk\<rparr>
      in if 0 < remaining then r1\<lparr>body := body r @ take (nat remaining) chunk\<rparr> else r1)"

definition truncated :: "response_record \<Rightarrow> bool" where
  "truncated r = (length (body r) < body_size r)"

definition grouped_headers :: "response_record \<Rightarrow> (string \<times> string list) list" where
  "grouped_headers r =
     fold (\<lambda>(n, v) g. dict_set (py_lower n) ((case map_of g (py_lower n) of Some vs \<Rightarrow> vs | None \<Rightarrow> []) @ [v]) g) (headers r) []"

definition header :: "string \<Rightarrow> response_record \<Rightarrow> string option" where
  "header name r = map_option snd (find (\<lambda>(n, v). py_lower n = py_lower name) (headers r))"

subsection \<open>The event\<close>

datatype attribute_value = A_int int | A_bool bool | A_str string | A_strs "string list"

record event_config =
  event_name :: string
  capture_body :: bool
  max_body_size :: int
  capture_headers :: "string list"
  sensitive_headers :: "string list"
  capturable_content_types :: "string list"
  redact :: "(string \<Rightarrow> string) option"   \<comment> \<open>applied to the scope of the request\<close>

definition SENSITIVE_HEADERS :: "string list" where
  "SENSITIVE_HEADERS = [''set-cookie'', ''authorization'', ''proxy-authorization'']"

definition CAPTURABLE_CONTENT_TYPES :: "string list" where
  "CAPTURABLE_CONTENT_TYPES = [''application/json'', ''text/'']"

definition REDACTED_HEADER_VALUE :: string where
  "REDACTED_HEADER_VALUE = ''[redacted]''"

text \<open>The constructor lowers the names it is given.\<close>

definition middleware_init ::
  "string \<Rightarrow> bool \<Rightarrow> int \<Rightarrow> string list \<Rightarrow> string list \<Rightarrow> string list \<Rightarrow> (string \<Rightarrow> string) option \<Rightarrow> event_config" where
  "middleware_init ename cb limit ch sh cct red =
     \<lparr>event_name = ename, capture_body = cb, max_body_size = limit, capture_headers = map py_lower ch, sensitive_headers = map py_lower sh,
      capturable_content_types = cct, redact = red\<rparr>"

definition header_value :: "event_config \<Rightarrow> string \<Rightarrow> string list \<Rightarrow> attribute_value" where
  "header_value cfg name values =
     (let vs = (if name \<in> set (sensitive_headers cfg) then map (\<lambda>_. REDACTED_HEADER_VALUE) values else values)
      in case vs of [v] \<Rightarrow> A_str v | _ \<Rightarrow> A_strs vs)"

definition is_capturable :: "event_config \<Rightarrow> response_record \<Rightarrow> bool" where
  "is_capturable cfg r =
     (let content_type = str_or (header ''content-type'' r) []
      in list_ex (py_startswith content_type) (capturable_content_types cfg))"

definition header_prefix :: string where
  "header_prefix = ''http.response.header.''"

definition header_attributes :: "event_config \<Rightarrow> (string \<times> string list) list \<Rightarrow> (string \<times> attribute_value) list" where
  "header_attributes cfg gs =
     map (\<lambda>(n, vs). (header_prefix @ n, header_value cfg n vs))
       (filter (\<lambda>(n, vs). capture_headers cfg = [] \<or> n \<in> set (capture_headers cfg)) gs)"

definition body_attributes :: "event_config \<Rightarrow> response_record \<Rightarrow> (string \<times> attribute_value) list" where
  "body_attributes cfg r =
     (if capture_body cfg \<and> is_capturable cfg r
      then (let b = (case redact cfg of Some f \<Rightarrow> f (body r) | None \<Rightarrow> body r)
            in (''http.response.body'', A_str (utf8_ignore b))
               # (if truncated r then [(''http.response.body.truncated'', A_bool True)] else []))
      else [])"

definition build_attributes :: "event_config \<Rightarrow> response_record \<Rightarrow> (string \<times> attribute_value) list" where
  "build_attributes cfg r =
     dict_update []
       ((''http.response.body.size'', A_int (int (body_size r)))
        # (case status_code r of Some st \<Rightarrow> [(''http.response.status_code'', A_int st)] | None \<Rightarrow> [])
        @ header_attributes cfg (grouped_headers r) @ body_attributes cfg r)"

text \<open>What the wrapped \<open>send\<close> keeps: the record, whether the event was emitted, the events of the span, and the messages passed on.\<close>

record sender =
  recorded :: response_record
  emitted :: bool
  events :: "(string \<times> (string \<times> attribute_value) list) list"
  passed_on :: "asgi_message list"

definition sender_init :: "event_config \<Rightarrow> sender" where
  "sender_init cfg = \<lparr>recorded = new_record (if capture_body cfg then max_body_size cfg else 0), emitted = False, events = [], passed_on = []\<rparr>"

definition send_wrapper :: "event_config \<Rightarrow> asgi_message \<Rightarrow> sender \<Rightarrow> sender" where
  "send_wrapper cfg m s =
     (let s1 = (case m of
                  Response_start st hs \<Rightarrow> s\<lparr>recorded := record_start st hs (recorded s)\<rparr>
                | Response_body chunk more_body \<Rightarrow>
                    (let r = record_body chunk (recorded s); s2 = s\<lparr>recorded := r\<rparr>
                     in if \<not> more_body \<and> \<not> emitted s
                        then s2\<lparr>emitted := True, events := events s @ [(event_name cfg, build_attributes cfg r)]\<rparr> else s2)
                | Other_message t \<Rightarrow> s)
      in s1\<lparr>passed_on := passed_on s @ [m]\<rparr>)"

text \<open>The middleware around an application that sends the messages \<open>ms\<close>. Without a recording span, and for other connections, it only passes on.\<close>

definition response_event_middleware :: "event_config \<Rightarrow> string \<Rightarrow> bool \<Rightarrow> asgi_message list \<Rightarrow> sender" where
  "response_event_middleware cfg scope_type recording ms =
     (if scope_type = ''http'' \<and> recording then fold (send_wrapper cfg) ms (sender_init cfg)
      else (sender_init cfg)\<lparr>passed_on := ms\<rparr>)"

subsection \<open>What is recorded\<close>

fun chunk_of :: "asgi_message \<Rightarrow> string" where
  "chunk_of (Response_body c more_body) = c"
| "chunk_of _ = []"

definition sent_body :: "asgi_message list \<Rightarrow> string" where
  "sent_body ms = concat (map chunk_of ms)"

text \<open>The messages up to the one that completes the response.\<close>

fun complete_prefix :: "asgi_message list \<Rightarrow> asgi_message list option" where
  "complete_prefix [] = None"
| "complete_prefix (Response_body c False # ms) = Some [Response_body c False]"
| "complete_prefix (m # ms) = map_option ((#) m) (complete_prefix ms)"

definition records :: "string \<Rightarrow> response_record \<Rightarrow> bool" where
  "records sent r = (body_size r = length sent \<and> body r = take (nat (body_budget r)) sent)"

lemma records_body: "records sent r \<Longrightarrow> records (sent @ c) (record_body c r)"
  by (auto simp: records_def record_body_def Let_def min_def nat_diff_distrib)

lemma send_wrapper_simps [simp]:
  "recorded (send_wrapper cfg (Response_start st hs) s) = record_start st hs (recorded s)"
  "recorded (send_wrapper cfg (Response_body c b) s) = record_body c (recorded s)"
  "recorded (send_wrapper cfg (Other_message t) s) = recorded s"
  "emitted (send_wrapper cfg (Response_start st hs) s) = emitted s"
  "emitted (send_wrapper cfg (Response_body c b) s) = (emitted s \<or> \<not> b)"
  "emitted (send_wrapper cfg (Other_message t) s) = emitted s"
  "events (send_wrapper cfg (Response_start st hs) s) = events s"
  "events (send_wrapper cfg (Response_body c b) s) =
     (if b \<or> emitted s then events s else events s @ [(event_name cfg, build_attributes cfg (record_body c (recorded s)))])"
  "events (send_wrapper cfg (Other_message t) s) = events s"
  "passed_on (send_wrapper cfg m s) = passed_on s @ [m]"
  by (simp_all add: send_wrapper_def Let_def)

lemma send_wrapper_records:
  "records sent (recorded s) \<Longrightarrow> records (sent @ chunk_of m) (recorded (send_wrapper cfg m s))"
  by (cases m) (simp_all add: records_body, simp_all add: record_start_def records_def)

lemma send_wrapper_budget: "body_budget (recorded (send_wrapper cfg m s)) = body_budget (recorded s)"
  by (cases m) (simp_all add: record_start_def record_body_def Let_def)

lemma fold_records:
  "records sent (recorded s) \<Longrightarrow> records (sent @ sent_body ms) (recorded (fold (send_wrapper cfg) ms s))"
  "body_budget (recorded (fold (send_wrapper cfg) ms s)) = body_budget (recorded s)"
proof (induction ms arbitrary: sent s)
  case (Cons m ms)
  {
    case 1
    from Cons(1) [OF send_wrapper_records [OF 1]] show ?case by (simp add: sent_body_def)
  next
    case 2
    from Cons(2) show ?case by (simp add: send_wrapper_budget)
  }
qed (simp_all add: sent_body_def)

lemma passed_on_fold: "passed_on (fold (send_wrapper cfg) ms s) = passed_on s @ ms"
  by (induction ms arbitrary: s) simp_all

lemma emitted_stays: "emitted s \<Longrightarrow> events (fold (send_wrapper cfg) ms s) = events s"
proof (induction ms arbitrary: s)
  case (Cons m ms)
  then have "emitted (send_wrapper cfg m s) \<and> events (send_wrapper cfg m s) = events s"
    by (cases m) simp_all
  then show ?case using Cons by simp
qed simp

lemma events_fold:
  "\<not> emitted s \<Longrightarrow> events (fold (send_wrapper cfg) ms s) =
     (case complete_prefix ms of None \<Rightarrow> events s
      | Some p \<Rightarrow> events s @ [(event_name cfg, build_attributes cfg (recorded (fold (send_wrapper cfg) p s)))])"
proof (induction ms arbitrary: s rule: complete_prefix.induct)
  case (2 c ms)
  then show ?case by (simp add: emitted_stays)
qed (auto split: option.splits)

subsection \<open>Properties\<close>

text \<open>
  The middleware passes every message on unchanged and adds exactly one event, when the response is complete: it reports the full size of
  the body sent so far and has captured its first \<open>max_body_size\<close> bytes, or nothing when capturing is off; a shorter capture is reported as
  truncated.
\<close>

theorem response_event_emitted_once:
  "passed_on (response_event_middleware cfg t on ms) = ms
   \<and> (t \<noteq> ''http'' \<or> \<not> on \<or> complete_prefix ms = None \<longrightarrow> events (response_event_middleware cfg t on ms) = [])
   \<and> (complete_prefix ms = Some p \<longrightarrow>
       (\<exists>r. events (response_event_middleware cfg ''http'' True ms) = [(event_name cfg, build_attributes cfg r)]
          \<and> body_size r = length (sent_body p)
          \<and> body r = take (if capture_body cfg then nat (max_body_size cfg) else 0) (sent_body p)
          \<and> truncated r = (length (body r) < length (sent_body p))))"
proof -
  have "records [] (recorded (sender_init cfg))" by (simp add: records_def sender_init_def new_record_def)
  from fold_records [where s = "sender_init cfg" and ms = p and cfg = cfg] fold_records(1) [OF this, where ms = p and cfg = cfg]
  have "records (sent_body p) (recorded (fold (send_wrapper cfg) p (sender_init cfg)))
      \<and> body_budget (recorded (fold (send_wrapper cfg) p (sender_init cfg))) = (if capture_body cfg then max_body_size cfg else 0)"
    by (simp add: sender_init_def new_record_def)
  moreover have "\<not> emitted (sender_init cfg)" "events (sender_init cfg) = []" "passed_on (sender_init cfg) = []"
    by (simp_all add: sender_init_def)
  ultimately show ?thesis
    by (auto simp: response_event_middleware_def passed_on_fold events_fold records_def truncated_def split: option.splits)
qed

definition json_events :: event_config where
  "json_events = middleware_init ''http.response'' True 4 [] SENSITIVE_HEADERS CAPTURABLE_CONTENT_TYPES None"

definition json_response :: "asgi_message list" where
  "json_response = [Response_start (Some 200) [(''Content-Type'', ''application/json''), (''Set-Cookie'', ''sid=1'')],
     Response_body ''[1,'' True, Response_body ''2]'' False]"

theorem response_event_emitted_once_witness:
  "\<exists>r. events (response_event_middleware json_events ''http'' True json_response) = [(''http.response'', build_attributes json_events r)]
     \<and> body_size r = 5 \<and> body r = ''[1,2''"
proof -
  have "complete_prefix json_response = Some json_response" by (simp add: json_response_def)
  then show ?thesis
    using response_event_emitted_once [of json_events "''http''" True json_response json_response]
    by (auto simp: json_events_def middleware_init_def json_response_def sent_body_def)
qed

lemma json_response_event:
  "events (response_event_middleware json_events ''http'' True json_response) =
     [(''http.response'', [(''http.response.body.size'', A_int 5), (''http.response.status_code'', A_int 200),
        (''http.response.header.content-type'', A_str ''application/json''), (''http.response.header.set-cookie'', A_str ''[redacted]''),
        (''http.response.body'', A_str ''[1,2''), (''http.response.body.truncated'', A_bool True)])]"
  by code_simp

subsection \<open>Redaction\<close>

text \<open>Two lists of headers that differ in the values of sensitive headers only.\<close>

definition same_public :: "event_config \<Rightarrow> header_list \<Rightarrow> header_list \<Rightarrow> bool" where
  "same_public cfg = list_all2 (\<lambda>(n, v) (n', v'). n' = n \<and> (py_lower n \<notin> set (sensitive_headers cfg) \<longrightarrow> v' = v))"

definition same_groups :: "event_config \<Rightarrow> (string \<times> string list) list \<Rightarrow> (string \<times> string list) list \<Rightarrow> bool" where
  "same_groups cfg = list_all2 (\<lambda>(n, vs) (n', vs'). n' = n \<and> length vs' = length vs \<and> (n \<notin> set (sensitive_headers cfg) \<longrightarrow> vs' = vs))"

lemma same_groups_lookup:
  "same_groups cfg g g' \<Longrightarrow> rel_option (\<lambda>vs vs'. length vs' = length vs \<and> (k \<notin> set (sensitive_headers cfg) \<longrightarrow> vs' = vs)) (map_of g k) (map_of g' k)"
  unfolding same_groups_def by (induction g g' rule: list_all2_induct) auto

lemma same_groups_set:
  "same_groups cfg g g' \<Longrightarrow> length vs' = length vs \<Longrightarrow> (k \<notin> set (sensitive_headers cfg) \<longrightarrow> vs' = vs) \<Longrightarrow>
   same_groups cfg (dict_set k vs g) (dict_set k vs' g')"
  unfolding same_groups_def
proof (induction g g' rule: list_all2_induct)
  case (Cons x xs y ys)
  then show ?case by (cases x; cases y; cases "k = fst x") simp_all
qed simp

lemma same_groups_fold:
  assumes "same_public cfg hs hs'" "same_groups cfg g g'"
  shows "same_groups cfg
    (fold (\<lambda>(n, v) g. dict_set (py_lower n) ((case map_of g (py_lower n) of Some vs \<Rightarrow> vs | None \<Rightarrow> []) @ [v]) g) hs g)
    (fold (\<lambda>(n, v) g. dict_set (py_lower n) ((case map_of g (py_lower n) of Some vs \<Rightarrow> vs | None \<Rightarrow> []) @ [v]) g) hs' g')"
  using assms unfolding same_public_def
proof (induction hs hs' arbitrary: g g' rule: list_all2_induct)
  case (Cons x xs y ys)
  obtain n v v' where xy: "x = (n, v)" "y = (n, v')" "py_lower n \<notin> set (sensitive_headers cfg) \<longrightarrow> v' = v"
    using Cons.hyps(1) by (cases x; cases y) auto
  have "same_groups cfg
      (dict_set (py_lower n) ((case map_of g (py_lower n) of Some vs \<Rightarrow> vs | None \<Rightarrow> []) @ [v]) g)
      (dict_set (py_lower n) ((case map_of g' (py_lower n) of Some vs \<Rightarrow> vs | None \<Rightarrow> []) @ [v']) g')"
    using same_groups_lookup [OF Cons.prems, of "py_lower n"] xy(3) Cons.prems
    by (intro same_groups_set) (auto simp: option_rel_Some1 option_rel_Some2 split: option.splits)
  then show ?case using Cons.IH xy by simp
qed simp

lemma same_groups_attributes: "same_groups cfg g g' \<Longrightarrow> header_attributes cfg g' = header_attributes cfg g"
  unfolding same_groups_def
proof (induction g g' rule: list_all2_induct)
  case (Cons x xs y ys)
  obtain n vs vs' where xy: "x = (n, vs)" "y = (n, vs')" "length vs' = length vs" "n \<notin> set (sensitive_headers cfg) \<longrightarrow> vs' = vs"
    using Cons.hyps(1) by (cases x; cases y) auto
  then have "map (\<lambda>_. REDACTED_HEADER_VALUE) vs' = map (\<lambda>_. REDACTED_HEADER_VALUE) vs"
    by (simp add: map_replicate_const)
  then have "header_value cfg n vs' = header_value cfg n vs"
    using xy(4) by (cases "n \<in> set (sensitive_headers cfg)") (simp_all add: header_value_def)
  then show ?case using Cons.IH xy(1,2) by (auto simp: header_attributes_def)
qed simp

lemma header_value_sensitive:
  "n \<in> set (sensitive_headers cfg) \<Longrightarrow>
   header_value cfg n vs = (if length vs = 1 then A_str REDACTED_HEADER_VALUE else A_strs (replicate (length vs) REDACTED_HEADER_VALUE))"
  by (cases vs rule: remdups_adj.cases) (auto simp: header_value_def map_replicate_const)

lemma same_public_header:
  "same_public cfg hs hs' \<Longrightarrow> py_lower name \<notin> set (sensitive_headers cfg) \<Longrightarrow>
   map_option snd (find (\<lambda>(n, v). py_lower n = py_lower name) hs') = map_option snd (find (\<lambda>(n, v). py_lower n = py_lower name) hs)"
  unfolding same_public_def by (induction hs hs' rule: list_all2_induct) auto

text \<open>
  (C40) Values of sensitive headers do not reach the trace: two responses that differ only there give the same event. The header is reported as
  present, with the stand-in value.
\<close>

theorem sensitive_headers_not_disclosed:
  assumes "same_public cfg (headers r) hs" "''content-type'' \<notin> set (sensitive_headers cfg)"
  shows "build_attributes cfg (r\<lparr>headers := hs\<rparr>) = build_attributes cfg r
    \<and> (n \<in> set (sensitive_headers cfg) \<and> (header_prefix @ n, v) \<in> set (header_attributes cfg (grouped_headers r)) \<longrightarrow>
        (\<exists>k. v = A_strs (replicate k REDACTED_HEADER_VALUE)) \<or> v = A_str REDACTED_HEADER_VALUE)"
proof
  have "same_groups cfg (grouped_headers r) (grouped_headers (r\<lparr>headers := hs\<rparr>))"
    using same_groups_fold [OF assms(1), of "[]" "[]"] by (simp add: grouped_headers_def same_groups_def)
  then have "header_attributes cfg (grouped_headers (r\<lparr>headers := hs\<rparr>)) = header_attributes cfg (grouped_headers r)"
    by (rule same_groups_attributes)
  moreover have "header ''content-type'' (r\<lparr>headers := hs\<rparr>) = header ''content-type'' r"
  proof -
    have "py_lower ''content-type'' = ''content-type''" by code_simp
    then show ?thesis using same_public_header [OF assms(1), of "''content-type''"] assms(2) by (simp add: header_def)
  qed
  ultimately show "build_attributes cfg (r\<lparr>headers := hs\<rparr>) = build_attributes cfg r"
    by (simp add: build_attributes_def body_attributes_def is_capturable_def truncated_def split: option.split)
  show "n \<in> set (sensitive_headers cfg) \<and> (header_prefix @ n, v) \<in> set (header_attributes cfg (grouped_headers r)) \<longrightarrow>
        (\<exists>k. v = A_strs (replicate k REDACTED_HEADER_VALUE)) \<or> v = A_str REDACTED_HEADER_VALUE"
    by (auto simp: header_attributes_def header_value_sensitive)
qed

definition signed_in :: response_record where
  "signed_in = (new_record 0)\<lparr>headers := [(''Content-Type'', ''text/plain''), (''Set-Cookie'', ''sid=1''), (''set-cookie'', ''csrf=2'')]\<rparr>"

theorem sensitive_headers_not_disclosed_witness:
  "build_attributes json_events (signed_in\<lparr>headers := [(''Content-Type'', ''text/plain''), (''Set-Cookie'', ''sid=7''), (''set-cookie'', ''csrf=8'')]\<rparr>)
   = build_attributes json_events signed_in"
proof -
  have "same_public json_events (headers signed_in) [(''Content-Type'', ''text/plain''), (''Set-Cookie'', ''sid=7''), (''set-cookie'', ''csrf=8'')]"
    by code_simp
  moreover have "''content-type'' \<notin> set (sensitive_headers json_events)" by code_simp
  ultimately show ?thesis using sensitive_headers_not_disclosed [of json_events signed_in] by blast
qed

subsection \<open>Truncated text\<close>

text \<open>Text that is valid UTF-8.\<close>

inductive utf8 :: "string \<Rightarrow> bool" where
  Nil: "utf8 []"
| Cons: "0 < utf8_width s \<Longrightarrow> utf8 (drop (utf8_width s) s) \<Longrightarrow> utf8 s"

lemma utf8_ignore_valid: "utf8 s \<Longrightarrow> utf8_ignore s = s"
proof (induction rule: utf8.induct)
  case (Cons s)
  then have "s \<noteq> []" by (auto simp: utf8_width_def)
  then show ?case using Cons by (simp add: utf8_ignore.simps [of s])
qed (simp add: utf8_ignore.simps)

lemma utf8_width_continuation: "s \<noteq> [] \<Longrightarrow> is_continuation (hd s) \<Longrightarrow> utf8_width s = 0"
  by (cases s) (auto simp: utf8_width_def is_continuation_def lead_width_def Let_def)

lemma utf8_ignore_continuations: "list_all is_continuation s \<Longrightarrow> utf8_ignore s = []"
  by (induction s) (simp_all add: utf8_ignore.simps utf8_width_continuation)

lemma utf8_width_take:
  assumes "0 < utf8_width s"
  shows "utf8_width (take n s) = (if utf8_width s \<le> n then utf8_width s else 0)"
    "list_all is_continuation (take (utf8_width s - 1) (tl s))"
proof -
  obtain a r where s: "s = a # r" using assms by (cases s) (auto simp: utf8_width_def)
  have w: "utf8_width s = lead_width a" "lead_width a \<le> Suc (length r)" "list_all is_continuation (take (lead_width a - 1) r)"
    "lead_width a = 1 \<or> second_ok a (hd r)"
    using assms by (auto simp: s utf8_width_def Let_def split: if_splits)
  show "list_all is_continuation (take (utf8_width s - 1) (tl s))" using w by (simp add: s)
  show "utf8_width (take n s) = (if utf8_width s \<le> n then utf8_width s else 0)"
  proof (cases n)
    case (Suc m)
    have "hd (take m r) = hd r" if "lead_width a \<le> Suc m" "lead_width a \<noteq> 1" "0 < lead_width a"
      using that by (cases r; cases m) auto
    then show ?thesis
      using w assms Suc by (auto simp: s utf8_width_def Let_def min_def)
  qed (use assms in \<open>simp add: utf8_width_def\<close>)
qed

text \<open>Cutting valid text after \<open>n\<close> bytes loses at most the last character: what is decoded is a prefix of the text.\<close>

lemma truncated_text_is_prefix:
  "utf8 s \<Longrightarrow> \<exists>m. m \<le> n \<and> utf8_ignore (take n s) = take m s \<and> (n \<le> length s \<longrightarrow> n < m + 4)"
proof (induction arbitrary: n rule: utf8.induct)
  case (Cons s)
  define w where "w = utf8_width s"
  have ne: "s \<noteq> []" and w4: "w \<le> 4" using Cons(1) by (auto simp: w_def utf8_width_def lead_width_def Let_def split: list.splits)
  show ?case
  proof (cases "w \<le> n")
    case True
    then have "take n s \<noteq> []" using ne Cons(1) by (auto simp: w_def)
    then have e: "utf8_ignore (take n s) = take w s @ utf8_ignore (take (n - w) (drop w s))"
      using True Cons(1) utf8_width_take(1) [OF Cons(1), of n]
      by (simp add: utf8_ignore.simps [of "take n s"] w_def drop_take min_def)
    obtain m where m: "m \<le> n - w" "utf8_ignore (take (n - w) (drop w s)) = take m (drop w s)"
      "n - w \<le> length (drop w s) \<longrightarrow> n - w < m + 4"
      using Cons(3) [of "n - w"] by (auto simp: w_def)
    have "utf8_ignore (take n s) = take (w + m) s" using e m(2) by (simp add: take_add)
    then show ?thesis using m True utf8_width_le [of s] by (intro exI [of _ "w + m"]) (auto simp: w_def)
  next
    case False
    have "utf8_ignore (take n s) = []"
    proof (cases "take n s")
      case (Cons a r)
      have "utf8_width (take n s) = 0" using False utf8_width_take(1) [OF \<open>0 < utf8_width s\<close>, of n] by (simp add: w_def)
      moreover have "list_all is_continuation r"
      proof -
        have "r = take (n - 1) (tl s)" using Cons by (metis list.sel(3) tl_take)
        moreover have "take (n - 1) (tl s) = take (n - 1) (take (w - 1) (tl s))" using False by (simp add: min_def)
        ultimately show ?thesis
          using utf8_width_take(2) [OF \<open>0 < utf8_width s\<close>] by (metis in_set_takeD list_all_iff w_def)
      qed
      ultimately show ?thesis using Cons by (simp add: utf8_ignore.simps [of "a # r"] utf8_ignore_continuations)
    qed (simp add: utf8_ignore.simps)
    then show ?thesis using False w4 by (intro exI [of _ 0]) auto
  qed
qed (auto simp: utf8_ignore.simps)

end
