(* ===== verification/Scaffold.thy ===== *)
theory Scaffold
  imports Py_Text "HOL-Library.Sublist"
begin

section \<open>Project scaffolding\<close>

text \<open>
  The commands \<open>gen_entity\<close> and \<open>new\<close> of \<^verbatim>\<open>cli.py\<close>: conversion and normalisation of names, rendering of a tree of templates
  into a directory, and the guards of the command. Names are ASCII. A path is the list of its components, already resolved; the file
  system is the set of directories and the contents of the files. The template engine of \<open>gen_entity\<close> is not modelled, the three names it is
  given are.
\<close>

subsection \<open>Names\<close>

definition py_isupper :: "char \<Rightarrow> bool" where
  "py_isupper c = (65 \<le> code c \<and> code c \<le> 90)"

definition split_camel :: "char \<Rightarrow> string \<Rightarrow> string" where
  "split_camel sep name = dropWhile ((=) sep) (concat (map (\<lambda>c. if py_isupper c then [sep, py_lower_char c] else [c]) name))"

definition camel_case_to_snake_case :: "string \<Rightarrow> string" where
  "camel_case_to_snake_case name = split_camel (CHR ''_'') name"

definition camel_case_to_kebab_case :: "string \<Rightarrow> string" where
  "camel_case_to_kebab_case name = split_camel (CHR ''-'') name"

definition camel_case_to_pascal_case :: "string \<Rightarrow> string result" where
  "camel_case_to_pascal_case name =
     (case name of [] \<Rightarrow> Inl (Exc IndexError ''string index out of range'') | c # cs \<Rightarrow> Inr (py_upper_char c # cs))"

text \<open>The values \<open>gen_entity\<close> renders its template with.\<close>

definition gen_entity_names :: "string \<Rightarrow> (string \<times> string) list result" where
  "gen_entity_names entity_name =
     (case camel_case_to_pascal_case entity_name of
        Inl e \<Rightarrow> Inl e
      | Inr pascal \<Rightarrow> Inr [(''entityNameSnakeCase'', camel_case_to_snake_case entity_name), (''entityNamePascalCase'', pascal),
          (''entityNameKebabCase'', camel_case_to_kebab_case entity_name)])"

definition is_alnum :: "char \<Rightarrow> bool" where
  "is_alnum c = (is_digit c \<or> 65 \<le> code c \<and> code c \<le> 90 \<or> 97 \<le> code c \<and> code c \<le> 122)"

text \<open>\<open>re.sub(r"[^0-9a-zA-Z]+", sep, s)\<close>: each run becomes one separator. \<open>inside\<close> tells whether a run was begun.\<close>

fun sub_runs :: "char \<Rightarrow> bool \<Rightarrow> string \<Rightarrow> string" where
  "sub_runs sep inside [] = []"
| "sub_runs sep inside (c # cs) =
     (if is_alnum c then c # sub_runs sep False cs
      else if inside then sub_runs sep True cs
      else sep # sub_runs sep True cs)"

definition normalized :: "char \<Rightarrow> string \<Rightarrow> string" where
  "normalized sep name = strip_chars [sep] (sub_runs sep False (py_lower (py_strip name)))"

definition normalize_distribution_name :: "string \<Rightarrow> string" where
  "normalize_distribution_name name =
     (case normalized (CHR ''-'') name of [] \<Rightarrow> ''jararaca-app'' | c # cs \<Rightarrow> c # cs)"

definition py_rstrip :: "char \<Rightarrow> string \<Rightarrow> string" where
  "py_rstrip c s = rev (dropWhile ((=) c) (rev s))"

definition normalize_package_name :: "string \<Rightarrow> string" where
  "normalize_package_name name =
     (let n = normalized (CHR ''_'') name
      in if n = [] \<or> is_digit (hd n) then py_rstrip (CHR ''_'') (''app_'' @ n) else n)"

definition get_jararaca_version :: "string option \<Rightarrow> string" where
  "get_jararaca_version installed = (case installed of Some v \<Rightarrow> v | None \<Rightarrow> ''0.4.0'')"

subsection \<open>The file system\<close>

type_synonym path = "string list"

record file_system =
  directories :: "path list"
  files :: "(path \<times> string) list"

definition is_dir :: "file_system \<Rightarrow> path \<Rightarrow> bool" where
  "is_dir fs p = (p \<in> set (directories fs))"

definition is_file :: "file_system \<Rightarrow> path \<Rightarrow> bool" where
  "is_file fs p = (map_of (files fs) p \<noteq> None)"

text \<open>\<open>p.mkdir(parents=True, exist_ok=True)\<close> and \<open>p.write_text(text)\<close>.\<close>

definition mkdir :: "path \<Rightarrow> file_system \<Rightarrow> exc option \<times> file_system" where
  "mkdir p fs =
     (if list_ex (is_file fs) (prefixes p) then (Some (Exc OtherError ''File exists''), fs)
      else (None, fs\<lparr>directories := List.union (prefixes p) (directories fs)\<rparr>))"

definition write_text :: "path \<Rightarrow> string \<Rightarrow> file_system \<Rightarrow> exc option \<times> file_system" where
  "write_text p text fs =
     (if is_dir fs p then (Some (Exc OtherError ''Is a directory''), fs)
      else (None, fs\<lparr>files := dict_set p text (files fs)\<rparr>))"

subsection \<open>Rendering a tree\<close>

datatype template = File string string | Dir string "template list"

definition apply_replacements :: "(string \<times> string) list \<Rightarrow> string \<Rightarrow> string" where
  "apply_replacements reps text = fold (\<lambda>(key, value) t. py_replace key value t) reps text"

definition render_name :: "(string \<times> string) list \<Rightarrow> string \<Rightarrow> string" where
  "render_name reps name =
     (let n = apply_replacements reps name;
          n1 = (if py_startswith n ''dot.'' then CHR ''.'' # drop 4 n else n)
      in if py_endswith n1 ''.tmpl'' then take (length n1 - 5) n1 else n1)"

text \<open>\<open>target_dir / rendered\<close>; an absolute name replaces the directory.\<close>

definition join_name :: "path \<Rightarrow> string \<Rightarrow> path" where
  "join_name dir name =
     (let parts = filter (\<lambda>x. x \<noteq> [] \<and> x \<noteq> ''.'') (py_split (CHR ''/'') name)
      in if py_startswith name ''/'' then parts else dir @ parts)"

fun walk :: "(string \<times> string) list \<Rightarrow> template list \<Rightarrow> path \<Rightarrow> path list \<times> file_system \<Rightarrow> exc option \<times> path list \<times> file_system" where
  "walk reps [] dir (created, fs) = (None, created, fs)"
| "walk reps (File name text # ts) dir (created, fs) =
     (let target = join_name dir (render_name reps name)
      in case mkdir (butlast target) fs of
           (Some e, fs1) \<Rightarrow> (Some e, created, fs1)
         | (None, fs1) \<Rightarrow>
             (case write_text target (apply_replacements reps text) fs1 of
                (Some e, fs2) \<Rightarrow> (Some e, created, fs2)
              | (None, fs2) \<Rightarrow> walk reps ts dir (created @ [target], fs2)))"
| "walk reps (Dir name children # ts) dir (created, fs) =
     (let target = join_name dir (render_name reps name)
      in case mkdir target fs of
           (Some e, fs1) \<Rightarrow> (Some e, created, fs1)
         | (None, fs1) \<Rightarrow>
             (case walk reps children target (created, fs1) of
                (Some e, st) \<Rightarrow> (Some e, st)
              | (None, st) \<Rightarrow> walk reps ts dir st))"

definition render_template_tree ::
  "template list \<Rightarrow> path \<Rightarrow> (string \<times> string) list \<Rightarrow> file_system \<Rightarrow> exc option \<times> path list \<times> file_system" where
  "render_template_tree source destination reps fs =
     (case mkdir destination fs of
        (Some e, fs1) \<Rightarrow> (Some e, [], fs1)
      | (None, fs1) \<Rightarrow> walk reps source destination ([], fs1))"

subsection \<open>The command\<close>

datatype outcome = Exited int | Raised exc | Created "path list"

record options =
  project_name :: string
  output_dir :: path
  package_name :: "string option"
  description :: string
  python_version :: string
  force :: bool

text \<open>\<open>project_dir.exists() and any(project_dir.iterdir())\<close>; listing a file raises.\<close>

definition has_entries :: "path \<Rightarrow> file_system \<Rightarrow> bool" where
  "has_entries p fs = list_ex (\<lambda>q. q \<noteq> [] \<and> butlast q = p) (directories fs @ map fst (files fs))"

definition replacements :: "string option \<Rightarrow> options \<Rightarrow> (string \<times> string) list result" where
  "replacements installed opts =
     (let v = python_version opts
      in case py_int (hd (py_split (CHR ''.'') v)) of
           None \<Rightarrow> Inl (Exc ValueError ''invalid literal for int() with base 10'')
         | Some major \<Rightarrow> Inr
            [(''__PROJECT_NAME__'', normalize_distribution_name (project_name opts)),
             (''__PACKAGE_NAME__'', normalize_package_name (str_or (package_name opts) (project_name opts))),
             (''__DESCRIPTION__'', description opts),
             (''__PYTHON_VERSION__'', v),
             (''__PYTHON_VERSION_NEXT_MAJOR__'', str_int (major + 1)),
             (''__PYTHON_VERSION_NODOT__'', py_replace ''.'' [] v),
             (''__JARARACA_VERSION__'', get_jararaca_version installed)])"

definition project_dir :: "options \<Rightarrow> path" where
  "project_dir opts = output_dir opts @ [normalize_distribution_name (project_name opts)]"

text \<open>\<open>template\<close> is the template directory of the installation, when it is there.\<close>

definition new_project :: "string option \<Rightarrow> template list option \<Rightarrow> options \<Rightarrow> file_system \<Rightarrow> outcome \<times> file_system" where
  "new_project installed template opts fs =
     (if is_file fs (project_dir opts) then (Raised (Exc OtherError ''Not a directory''), fs)
      else if is_dir fs (project_dir opts) \<and> has_entries (project_dir opts) fs \<and> \<not> force opts then (Exited 1, fs)
      else (case template of
              None \<Rightarrow> (Exited 1, fs)
            | Some source \<Rightarrow>
                (case replacements installed opts of
                   Inl e \<Rightarrow> (Raised e, fs)
                 | Inr reps \<Rightarrow>
                     (case render_template_tree source (project_dir opts) reps fs of
                        (Some e, created, fs1) \<Rightarrow> (Raised e, fs1)
                      | (None, created, fs1) \<Rightarrow> (Created created, fs1)))))"

subsection \<open>Normal forms of names\<close>

definition is_lower_alnum :: "char \<Rightarrow> bool" where
  "is_lower_alnum c = (is_digit c \<or> 97 \<le> code c \<and> code c \<le> 122)"

text \<open>Words of lower case letters and digits with single separators between them.\<close>

definition normal :: "char \<Rightarrow> string \<Rightarrow> bool" where
  "normal sep s =
     (list_all (\<lambda>c. is_lower_alnum c \<or> c = sep) s \<and> successively (\<lambda>a b. \<not> (a = sep \<and> b = sep)) s
      \<and> (s \<noteq> [] \<longrightarrow> hd s \<noteq> sep \<and> last s \<noteq> sep))"

lemma lower_alnum: "is_alnum (py_lower_char c) \<Longrightarrow> is_lower_alnum (py_lower_char c)"
  by (auto simp: is_alnum_def is_lower_alnum_def py_lower_char_def is_digit_def)

lemma alnum_lower: "is_lower_alnum c \<Longrightarrow> is_alnum c \<and> py_lower_char c = c \<and> \<not> is_space c"
  by (auto simp: is_alnum_def is_lower_alnum_def py_lower_char_def is_digit_def is_space_def)

lemma sub_runs_lower: "list_all (\<lambda>c. is_lower_alnum c \<or> c = sep) (sub_runs sep b (py_lower s))"
  by (induction s arbitrary: b) (auto simp: py_lower_def dest: lower_alnum)

lemma sub_runs_single:
  "\<not> is_alnum sep \<Longrightarrow> successively (\<lambda>a b. \<not> (a = sep \<and> b = sep)) (sub_runs sep r s) \<and> (r \<longrightarrow> sub_runs sep r s = [] \<or> hd (sub_runs sep r s) \<noteq> sep)"
  by (induction sep r s rule: sub_runs.induct) (auto simp: successively_Cons)

lemma sub_runs_normal:
  "\<not> is_alnum sep \<Longrightarrow> list_all (\<lambda>c. is_alnum c \<or> c = sep) s \<Longrightarrow> successively (\<lambda>a b. \<not> (a = sep \<and> b = sep)) s \<Longrightarrow>
   \<not> r \<or> s = [] \<or> hd s \<noteq> sep \<Longrightarrow> sub_runs sep r s = s"
  by (induction s arbitrary: r) (auto simp: successively_Cons)

lemma strip_chars_parts:
  obtains a b where "s = a @ strip_chars cs s @ b" and "strip_chars cs s \<noteq> [] \<longrightarrow> hd (strip_chars cs s) \<notin> set cs \<and> last (strip_chars cs s) \<notin> set cs"
proof -
  define P where "P = (\<lambda>c. c \<in> set cs)"
  define t where "t = dropWhile P s"
  have 1: "s = takeWhile P s @ t" by (simp add: t_def)
  have 2: "t = rev (dropWhile P (rev t)) @ rev (takeWhile P (rev t))"
    by (metis rev_append rev_rev_ident takeWhile_dropWhile_id)
  have s: "strip_chars cs s = rev (dropWhile P (rev t))" by (simp add: strip_chars_def P_def t_def)
  have "hd (strip_chars cs s) \<notin> set cs \<and> last (strip_chars cs s) \<notin> set cs" if n: "strip_chars cs s \<noteq> []"
  proof
    have "last (strip_chars cs s) = hd (dropWhile P (rev t))" using n by (simp add: s last_rev)
    then show "last (strip_chars cs s) \<notin> set cs" using n hd_dropWhile [of P "rev t"] by (auto simp: s P_def)
    have "t \<noteq> []" using n s by auto
    moreover have "hd (strip_chars cs s) = hd t" using 2 n s by (metis hd_append2)
    ultimately show "hd (strip_chars cs s) \<notin> set cs" using hd_dropWhile [of P s] by (auto simp: t_def P_def)
  qed
  then show thesis using that 1 2 s by metis
qed

lemma strip_chars_id: "s = [] \<or> hd s \<notin> set cs \<and> last s \<notin> set cs \<Longrightarrow> strip_chars cs s = s"
proof (cases s)
  case (Cons c t)
  assume a: "s = [] \<or> hd s \<notin> set cs \<and> last s \<notin> set cs"
  then have "dropWhile (\<lambda>c. c \<in> set cs) s = s" using Cons by simp
  moreover have "rev s = last s # rev (butlast s)" using Cons by (metis append_butlast_last_id list.distinct(1) rev_eq_Cons_iff rev_rev_ident)
  then have "dropWhile (\<lambda>c. c \<in> set cs) (rev s) = rev s" using a Cons by (metis dropWhile.simps(2) list.distinct(1))
  ultimately show ?thesis by (simp add: strip_chars_def)
qed (simp add: strip_chars_def)

lemma normal_normalized: "\<not> is_alnum sep \<Longrightarrow> normal sep (normalized sep name)"
proof -
  assume d: "\<not> is_alnum sep"
  define s where "s = sub_runs sep False (py_lower (py_strip name))"
  obtain a b where p: "s = a @ strip_chars [sep] s @ b"
    and q: "strip_chars [sep] s \<noteq> [] \<longrightarrow> hd (strip_chars [sep] s) \<notin> set [sep] \<and> last (strip_chars [sep] s) \<notin> set [sep]"
    by (rule strip_chars_parts [of s "[sep]"])
  have "list_all (\<lambda>c. is_lower_alnum c \<or> c = sep) s" "successively (\<lambda>a b. \<not> (a = sep \<and> b = sep)) s"
    using sub_runs_lower sub_runs_single [OF d] by (auto simp: s_def)
  then have "list_all (\<lambda>c. is_lower_alnum c \<or> c = sep) (strip_chars [sep] s)"
    "successively (\<lambda>a b. \<not> (a = sep \<and> b = sep)) (strip_chars [sep] s)"
    using arg_cong [OF p, of "list_all (\<lambda>c. is_lower_alnum c \<or> c = sep)"]
      arg_cong [OF p, of "successively (\<lambda>a b. \<not> (a = sep \<and> b = sep))"]
    unfolding list_all_append successively_append_iff by blast+
  then show ?thesis using q by (simp add: normal_def normalized_def s_def)
qed

lemma normalized_normal: "\<not> is_alnum sep \<Longrightarrow> \<not> is_space sep \<Longrightarrow> normal sep s \<Longrightarrow> normalized sep s = s"
proof -
  assume d: "\<not> is_alnum sep" "\<not> is_space sep" and n: "normal sep s"
  have "py_strip s = s" using n d by (intro py_strip_no_space) (auto simp: normal_def list_all_iff dest: alnum_lower)
  moreover have "py_lower_char sep = sep" using d by (auto simp: py_lower_char_def is_alnum_def)
  then have "py_lower s = s" using n by (auto simp: py_lower_def normal_def list_all_iff intro!: map_idI dest: alnum_lower)
  moreover have "sub_runs sep False s = s"
    using n d by (intro sub_runs_normal) (auto simp: normal_def list_all_iff dest: alnum_lower)
  moreover have "strip_chars [sep] s = s" using n by (intro strip_chars_id) (auto simp: normal_def)
  ultimately show ?thesis by (simp add: normalized_def)
qed

lemma normal_app: "normal (CHR ''_'') n \<Longrightarrow> n \<noteq> [] \<Longrightarrow> normal (CHR ''_'') (''app_'' @ n)"
proof -
  assume n: "normal (CHR ''_'') n" "n \<noteq> []"
  have "list_all (\<lambda>c. is_lower_alnum c \<or> c = CHR ''_'') ''app_''" "successively (\<lambda>a b. \<not> (a = CHR ''_'' \<and> b = CHR ''_'')) ''app_''"
    by code_simp+
  then show ?thesis
    using n unfolding normal_def list_all_append successively_append_iff by simp
qed

lemma rstrip_normal: "normal sep s \<Longrightarrow> s \<noteq> [] \<Longrightarrow> py_rstrip sep s = s"
  by (cases s rule: rev_cases) (auto simp: normal_def py_rstrip_def)

lemma separators [simp]: "\<not> is_alnum (CHR ''_'')" "\<not> is_alnum (CHR ''-'')" "\<not> is_space (CHR ''_'')" "\<not> is_space (CHR ''-'')"
  by code_simp+

lemma package_name_normal:
  "normal (CHR ''_'') (normalize_package_name name) \<and> normalize_package_name name \<noteq> [] \<and> \<not> is_digit (hd (normalize_package_name name))"
proof (cases "normalized (CHR ''_'') name = []")
  case True
  moreover have "py_rstrip (CHR ''_'') ''app_'' = ''app''" "normal (CHR ''_'') ''app''" by code_simp+
  ultimately show ?thesis by (simp add: normalize_package_name_def is_digit_def)
next
  case False
  have n: "normal (CHR ''_'') (normalized (CHR ''_'') name)" by (simp add: normal_normalized)
  then have "py_rstrip (CHR ''_'') (''app_'' @ normalized (CHR ''_'') name) = ''app_'' @ normalized (CHR ''_'') name"
    using False by (intro rstrip_normal normal_app) simp_all
  then show ?thesis using n False by (auto simp: normalize_package_name_def Let_def is_digit_def intro: normal_app [simplified])
qed

text \<open>
  The normalised names are well formed: the package name is a Python identifier made of lower case words with single underscores, the
  distribution name is made of such words with single dashes (PEP 503), neither is empty, and normalising again changes nothing. A name
  that is already in this form is kept.
\<close>

theorem normalized_names_well_formed:
  assumes "normal (CHR ''_'') kept" "kept \<noteq> []" "\<not> is_digit (hd kept)"
  shows "normal (CHR ''_'') (normalize_package_name name) \<and> normalize_package_name name \<noteq> []
    \<and> \<not> is_digit (hd (normalize_package_name name))
    \<and> normal (CHR ''-'') (normalize_distribution_name name) \<and> normalize_distribution_name name \<noteq> []
    \<and> normalize_package_name (normalize_package_name name) = normalize_package_name name
    \<and> normalize_distribution_name (normalize_distribution_name name) = normalize_distribution_name name
    \<and> normalize_package_name kept = kept"
proof -
  have k: "normalize_package_name p = p" if "normal (CHR ''_'') p" "p \<noteq> []" "\<not> is_digit (hd p)" for p
    using that by (simp add: normalize_package_name_def normalized_normal)
  have "normal (CHR ''-'') ''jararaca-app''" by code_simp
  then have d: "normal (CHR ''-'') (normalize_distribution_name name) \<and> normalize_distribution_name name \<noteq> []"
    using normal_normalized [of "CHR ''-''" name] by (auto simp: normalize_distribution_name_def split: list.splits)
  then have "normalize_distribution_name (normalize_distribution_name name) = normalize_distribution_name name"
    unfolding normalize_distribution_name_def [of "normalize_distribution_name name"]
    by (simp add: normalized_normal split: list.splits)
  then show ?thesis using d k [OF assms] k package_name_normal by blast
qed

theorem normalized_names_well_formed_witness:
  "normalize_package_name ''billing'' = ''billing''
   \<and> normalize_package_name (normalize_package_name ''2 Fast!'') = normalize_package_name ''2 Fast!''"
proof -
  have "normal (CHR ''_'') ''billing''" "\<not> is_digit (hd ''billing'')" by code_simp+
  from normalized_names_well_formed [OF this(1) _ this(2), of "''2 Fast!''"] show ?thesis by simp
qed

text \<open>A keyword is normal, so the package of a project may have a name that cannot be imported.\<close>

lemma keyword_package: "normalize_package_name ''Class'' = ''class''" "normalize_package_name ''2 Fast!'' = ''app_2_fast''"
  by code_simp+

subsection \<open>The rendered tree\<close>

text \<open>What a tree of templates stands for: the files with their contents, in order.\<close>

fun rendered :: "(string \<times> string) list \<Rightarrow> template list \<Rightarrow> path \<Rightarrow> (path \<times> string) list" where
  "rendered reps [] dir = []"
| "rendered reps (File name text # ts) dir = (join_name dir (render_name reps name), apply_replacements reps text) # rendered reps ts dir"
| "rendered reps (Dir name children # ts) dir = rendered reps children (join_name dir (render_name reps name)) @ rendered reps ts dir"

lemma mkdir_files [simp]: "files (snd (mkdir p fs)) = files fs"
  by (simp add: mkdir_def)

lemma mkdir_error: "mkdir p fs = (Some e, fs') \<Longrightarrow> exc_cls e = OtherError"
  by (auto simp: mkdir_def split: if_splits)

lemma walk_error: "walk reps ts dir st = (Some e, st') \<Longrightarrow> exc_cls e = OtherError"
  by (induction reps ts dir st arbitrary: st' rule: walk.induct)
    (auto simp: Let_def mkdir_def write_text_def split: prod.splits option.splits if_splits)

lemma walk_rendered:
  "walk reps ts dir st = (None, st') \<Longrightarrow>
   fst st' = fst st @ map fst (rendered reps ts dir)
   \<and> map_of (files (snd st')) = map_of (files (snd st)) ++ map_of (rev (rendered reps ts dir))"
proof (induction reps ts dir st arbitrary: st' rule: walk.induct)
  case (2 reps name body ts dir created fs)
  then show ?case
    by (auto simp: Let_def mkdir_def write_text_def map_add_def fun_eq_iff split: option.splits if_splits prod.splits)
next
  case (3 reps name children ts dir created fs)
  from "3.prems" obtain fs1 st1 where m: "mkdir (join_name dir (render_name reps name)) fs = (None, fs1)" and f: "files fs1 = files fs"
    and c: "walk reps children (join_name dir (render_name reps name)) (created, fs1) = (None, st1)" and d: "walk reps ts dir st1 = (None, st')"
    by (auto simp: Let_def mkdir_def split: option.splits prod.splits if_splits)
  from "3.IH"(1) [OF refl m [symmetric] refl c] "3.IH"(2) [OF refl m [symmetric] refl c [symmetric] refl d] f show ?case by simp
qed simp

text \<open>
  The command \<open>new\<close> never touches a project it was not allowed to: without \<open>force\<close> an existing directory with entries is left alone, and
  a run that exits or rejects the Python version writes nothing. A run that succeeds has written exactly the files of the template
  tree with their rendered names and contents, and kept every other file.
\<close>

theorem new_project_writes_rendered_tree:
  assumes "new_project installed template opts fs = (out, fs')"
  shows "(\<not> force opts \<and> is_dir fs (project_dir opts) \<and> has_entries (project_dir opts) fs \<longrightarrow> (\<forall>ps. out \<noteq> Created ps) \<and> fs' = fs)
    \<and> ((\<exists>n. out = Exited n) \<or> (\<exists>m. out = Raised (Exc ValueError m)) \<longrightarrow> fs' = fs)
    \<and> (\<forall>ps. out = Created ps \<longrightarrow>
        (\<exists>source reps. template = Some source \<and> replacements installed opts = Inr reps
          \<and> ps = map fst (rendered reps source (project_dir opts))
          \<and> map_of (files fs') = map_of (files fs) ++ map_of (rev (rendered reps source (project_dir opts)))))"
proof -
  have r: "exc_cls e = OtherError" if "render_template_tree source p reps fs = (Some e, x)" for source p reps e x
  proof (cases "mkdir p fs")
    case (Pair y fs1)
    then show ?thesis using that walk_error mkdir_error by (cases y) (auto simp: render_template_tree_def)
  qed
  have w: "ps = map fst (rendered reps source p) \<and> map_of (files fs1) = map_of (files fs) ++ map_of (rev (rendered reps source p))"
    if "render_template_tree source p reps fs = (None, ps, fs1)" for source p reps ps fs1
  proof (cases "mkdir p fs")
    case (Pair y fs2)
    then have "walk reps source p ([], fs2) = (None, ps, fs1)" "files fs2 = files fs"
      using that mkdir_files [of p fs] by (auto simp: render_template_tree_def split: option.splits)
    then show ?thesis using walk_rendered [of reps source p "([], fs2)" "(ps, fs1)"] by simp
  qed
  have g: "(\<not> force opts \<and> is_dir fs (project_dir opts) \<and> has_entries (project_dir opts) fs \<longrightarrow> (\<forall>ps. out \<noteq> Created ps) \<and> fs' = fs)"
    using assms by (auto simp: new_project_def split: if_splits)
  moreover have "fs' = fs" if x: "(\<exists>n. out = Exited n) \<or> (\<exists>m. out = Raised (Exc ValueError m))"
  proof (rule ccontr)
    assume c: "fs' \<noteq> fs"
    have "(\<exists>ps. out = Created ps) \<or> (\<exists>source reps e ps. render_template_tree source (project_dir opts) reps fs = (Some e, ps, fs') \<and> out = Raised e)"
      using assms c by (simp add: new_project_def split: if_splits option.splits sum.splits prod.splits) blast+
    then show False using x r by fastforce
  qed
  moreover have "\<exists>source reps. template = Some source \<and> replacements installed opts = Inr reps
      \<and> render_template_tree source (project_dir opts) reps fs = (None, ps, fs')" if "out = Created ps" for ps
    using assms that by (auto simp: new_project_def split: if_splits option.splits sum.splits prod.splits)
  ultimately show ?thesis using w by metis
qed

definition sample_options :: options where
  "sample_options = \<lparr>project_name = ''My App'', output_dir = [''home''], package_name = None, description = ''demo'', python_version = ''3.11'', force = False\<rparr>"

definition sample_template :: "template list" where
  "sample_template = [File ''dot.gitignore.tmpl'' ''.venv'', Dir ''src'' [Dir ''__PACKAGE_NAME__'' [File ''app.py.tmpl'' ''# __PROJECT_NAME__ >=__PYTHON_VERSION__'']]]"

definition sample_fs :: file_system where
  "sample_fs = \<lparr>directories = [[], [''home'']], files = [([''home'', ''notes''], ''x'')]\<rparr>"

lemma sample_new: "fst (new_project None (Some sample_template) sample_options sample_fs) =
    Created [[''home'', ''my-app'', ''.gitignore''], [''home'', ''my-app'', ''src'', ''my_app'', ''app.py'']]"
  by code_simp

theorem new_project_writes_rendered_tree_witness:
  "map_of (files (snd (new_project None (Some sample_template) sample_options sample_fs)))
     [''home'', ''my-app'', ''src'', ''my_app'', ''app.py''] = Some ''# my-app >=3.11''
   \<and> map_of (files (snd (new_project None (Some sample_template) sample_options sample_fs))) [''home'', ''notes''] = Some ''x''"
proof -
  obtain reps where reps: "replacements None sample_options = Inr reps"
    and "map_of (files (snd (new_project None (Some sample_template) sample_options sample_fs)))
      = map_of (files sample_fs) ++ map_of (rev (rendered reps sample_template (project_dir sample_options)))"
    using new_project_writes_rendered_tree [where installed = None and template = "Some sample_template" and opts = sample_options and fs = sample_fs, OF prod.collapse [symmetric]] sample_new
    by auto
  moreover have "map_of (files sample_fs) ++ map_of (rev (rendered (projr (replacements None sample_options)) sample_template (project_dir sample_options)))
    = [[''home'', ''notes''] \<mapsto> ''x'', [''home'', ''my-app'', ''src'', ''my_app'', ''app.py''] \<mapsto> ''# my-app >=3.11'',
       [''home'', ''my-app'', ''.gitignore''] \<mapsto> ''.venv'']"
  proof -
    have "rendered (projr (replacements None sample_options)) sample_template (project_dir sample_options) =
      [([''home'', ''my-app'', ''.gitignore''], ''.venv''), ([''home'', ''my-app'', ''src'', ''my_app'', ''app.py''], ''# my-app >=3.11'')]"
      by code_simp
    then show ?thesis by (simp add: sample_fs_def map_add_def fun_eq_iff)
  qed
  ultimately show ?thesis by (simp only: reps sum.sel) simp
qed

text \<open>Replacements are applied one after the other, also to the text an earlier one has put in.\<close>

lemma replacement_in_description:
  "apply_replacements [(''__DESCRIPTION__'', ''about __JARARACA_VERSION__''), (''__JARARACA_VERSION__'', ''1.2'')] ''__DESCRIPTION__'' = ''about 1.2''"
  by code_simp

end
