(* ===== verification/Json_Columns.thy ===== *)
theory Json_Columns
  imports Prelude
begin

section \<open>Validated JSON columns\<close>

text \<open>
  \<^verbatim>\<open>persistence/pydantic_helpers.py\<close>: the lazily validating wrapper around a stored JSON value, the column type that reads and writes it,
  and the report that splits rows by validity. The pydantic model is a parameter: \<open>validate\<close> is \<open>model_validate\<close>, which gives a model or
  raises, and \<open>dump\<close> is \<open>model_dump(mode="json")\<close>.
\<close>

subsection \<open>The wrapper\<close>

record ('j, 'm) wrapper =
  w_raw :: "'j option"
  w_cache :: "'m option"
  w_error :: "exc option"
  w_attempted :: bool

type_synonym ('j, 'm) validator = "'j \<Rightarrow> 'm result"

definition ValidatedJSON :: "'j option \<Rightarrow> ('j, 'm) wrapper" where
  "ValidatedJSON raw = \<lparr>w_raw = raw, w_cache = None, w_error = None, w_attempted = False\<rparr>"

text \<open>\<open>_attempt\<close>: only a \<open>ValidationError\<close> is caught; another exception passes, with the attempt marked as made.\<close>

definition attempt :: "('j, 'm) validator \<Rightarrow> ('j, 'm) wrapper \<Rightarrow> exc option \<times> ('j, 'm) wrapper" where
  "attempt validate w =
     (if w_attempted w then (None, w)
      else (let w1 = w\<lparr>w_attempted := True\<rparr>
            in case w_raw w of
                 None \<Rightarrow> (None, w1)
               | Some j \<Rightarrow>
                   (case validate j of
                      Inr m \<Rightarrow> (None, w1\<lparr>w_cache := Some m\<rparr>)
                    | Inl e \<Rightarrow> if exc_cls e = ValidationError then (None, w1\<lparr>w_error := Some e\<rparr>) else (Some e, w1))))"

definition is_null :: "('j, 'm) wrapper \<Rightarrow> bool" where
  "is_null w = (w_raw w = None)"

definition is_valid :: "('j, 'm) validator \<Rightarrow> ('j, 'm) wrapper \<Rightarrow> bool result \<times> ('j, 'm) wrapper" where
  "is_valid validate w =
     (case attempt validate w of (Some e, w1) \<Rightarrow> (Inl e, w1) | (None, w1) \<Rightarrow> (Inr (w_error w1 = None), w1))"

definition get_model :: "('j, 'm) validator \<Rightarrow> ('j, 'm) wrapper \<Rightarrow> 'm result \<times> ('j, 'm) wrapper" where
  "get_model validate w =
     (case attempt validate w of
        (Some e, w1) \<Rightarrow> (Inl e, w1)
      | (None, w1) \<Rightarrow>
          (case w_error w1 of
             Some e \<Rightarrow> (Inl e, w1)
           | None \<Rightarrow>
               (case w_cache w1 of
                  Some m \<Rightarrow> (Inr m, w1)
                | None \<Rightarrow> (Inl (Exc AssertionError ''ValidatedJSON: cache should not be None after successful validation''), w1))))"

definition get_or_none :: "('j, 'm) validator \<Rightarrow> ('j, 'm) wrapper \<Rightarrow> 'm option result \<times> ('j, 'm) wrapper" where
  "get_or_none validate w =
     (case attempt validate w of (Some e, w1) \<Rightarrow> (Inl e, w1) | (None, w1) \<Rightarrow> (Inr (w_cache w1), w1))"

subsection \<open>The column type\<close>

datatype ('j, 'm) bind_value = Bind_None | Bind_wrapper "('j, 'm) wrapper" | Bind_model 'm | Bind_json 'j

definition process_bind_param :: "('j, 'm) validator \<Rightarrow> ('m \<Rightarrow> 'j) \<Rightarrow> ('j, 'm) bind_value \<Rightarrow> 'j option result" where
  "process_bind_param validate dump v =
     (case v of
        Bind_None \<Rightarrow> Inr None
      | Bind_wrapper w \<Rightarrow> (case fst (get_model validate w) of Inl e \<Rightarrow> Inl e | Inr m \<Rightarrow> Inr (Some (dump m)))
      | Bind_model m \<Rightarrow> Inr (Some (dump m))
      | Bind_json j \<Rightarrow> (case validate j of Inl e \<Rightarrow> Inl e | Inr m \<Rightarrow> Inr (Some (dump m))))"

definition process_result_value :: "'j option \<Rightarrow> ('j, 'm) wrapper" where
  "process_result_value v = ValidatedJSON v"

subsection \<open>The report\<close>

record ('i, 'j, 'm) report =
  valid_rows :: "('i \<times> 'm) list"
  invalid_rows :: "('i \<times> 'j option \<times> string) list"

definition report_total :: "('i, 'j, 'm) report \<Rightarrow> nat" where
  "report_total r = length (valid_rows r) + length (invalid_rows r)"

definition invalid_ratio :: "('i, 'j, 'm) report \<Rightarrow> rat" where
  "invalid_ratio r = (if report_total r = 0 then 0 else of_nat (length (invalid_rows r)) / of_nat (report_total r))"

text \<open>A row is its identifier and the wrapper its field gives; \<open>error_text\<close> is \<open>str\<close> of an exception.\<close>

fun partition_rows ::
  "('j, 'm) validator \<Rightarrow> (exc \<Rightarrow> string) \<Rightarrow> ('i \<times> ('j, 'm) wrapper) list \<Rightarrow> ('i, 'j, 'm) report \<Rightarrow> ('i, 'j, 'm) report result" where
  "partition_rows validate error_text [] r = Inr r"
| "partition_rows validate error_text ((i, w) # rows) r =
     (if is_null w then partition_rows validate error_text rows r
      else case is_valid validate w of
             (Inl e, w1) \<Rightarrow> Inl e
           | (Inr True, w1) \<Rightarrow>
               (case get_model validate w1 of
                  (Inl e, w2) \<Rightarrow> Inl e
                | (Inr m, w2) \<Rightarrow> partition_rows validate error_text rows (r\<lparr>valid_rows := valid_rows r @ [(i, m)]\<rparr>))
           | (Inr False, w1) \<Rightarrow>
               partition_rows validate error_text rows
                 (r\<lparr>invalid_rows := invalid_rows r @ [(i, w_raw w1, error_text (the (w_error w1)))]\<rparr>))"

definition partition_by_schema_validity ::
  "('j, 'm) validator \<Rightarrow> (exc \<Rightarrow> string) \<Rightarrow> ('i \<times> ('j, 'm) wrapper) list \<Rightarrow> ('i, 'j, 'm) report result" where
  "partition_by_schema_validity validate error_text rows = partition_rows validate error_text rows \<lparr>valid_rows = [], invalid_rows = []\<rparr>"

subsection \<open>Lemmas\<close>

text \<open>A wrapper as the column gives it, asked or not.\<close>

definition coherent :: "('j, 'm) validator \<Rightarrow> ('j, 'm) wrapper \<Rightarrow> bool" where
  "coherent validate w =
     (if w_attempted w
      then w_cache w = (case w_raw w of None \<Rightarrow> None | Some j \<Rightarrow> (case validate j of Inr m \<Rightarrow> Some m | Inl e \<Rightarrow> None))
         \<and> w_error w = (case w_raw w of None \<Rightarrow> None | Some j \<Rightarrow> (case validate j of Inr m \<Rightarrow> None | Inl e \<Rightarrow> Some e))
      else w_cache w = None \<and> w_error w = None)"

definition only_validation_errors :: "('j, 'm) validator \<Rightarrow> bool" where
  "only_validation_errors validate = (\<forall>j e. validate j = Inl e \<longrightarrow> exc_cls e = ValidationError)"

lemma coherent_new [simp]: "coherent validate (ValidatedJSON raw)"
  by (simp add: coherent_def ValidatedJSON_def)

lemma attempt_coherent:
  assumes "coherent validate w" "only_validation_errors validate"
  obtains w1 where "attempt validate w = (None, w1)" "coherent validate w1" "w_attempted w1" "w_raw w1 = w_raw w"
proof -
  have "fst (attempt validate w) = None \<and> coherent validate (snd (attempt validate w))
      \<and> w_attempted (snd (attempt validate w)) \<and> w_raw (snd (attempt validate w)) = w_raw w"
    using assms by (auto simp: attempt_def coherent_def only_validation_errors_def Let_def split: option.splits sum.splits)
  then show thesis using that by (metis prod.collapse)
qed

text \<open>The answers of a coherent wrapper, whatever was asked before.\<close>

lemma wrapper_answers:
  assumes "coherent validate w" "only_validation_errors validate"
  shows "fst (is_valid validate w) = Inr (case w_raw w of None \<Rightarrow> True | Some j \<Rightarrow> (case validate j of Inr m \<Rightarrow> True | Inl e \<Rightarrow> False))"
    and "fst (get_or_none validate w) = Inr (case w_raw w of None \<Rightarrow> None | Some j \<Rightarrow> (case validate j of Inr m \<Rightarrow> Some m | Inl e \<Rightarrow> None))"
    and "w_raw w = Some j \<Longrightarrow> fst (get_model validate w) = validate j"
    and "coherent validate (snd (is_valid validate w)) \<and> w_raw (snd (is_valid validate w)) = w_raw w \<and> w_attempted (snd (is_valid validate w))"
proof -
  obtain w1 where a: "attempt validate w = (None, w1)" "coherent validate w1" "w_attempted w1" "w_raw w1 = w_raw w"
    by (rule attempt_coherent [OF assms])
  show "fst (is_valid validate w) = Inr (case w_raw w of None \<Rightarrow> True | Some j \<Rightarrow> (case validate j of Inr m \<Rightarrow> True | Inl e \<Rightarrow> False))"
    "fst (get_or_none validate w) = Inr (case w_raw w of None \<Rightarrow> None | Some j \<Rightarrow> (case validate j of Inr m \<Rightarrow> Some m | Inl e \<Rightarrow> None))"
    "coherent validate (snd (is_valid validate w)) \<and> w_raw (snd (is_valid validate w)) = w_raw w \<and> w_attempted (snd (is_valid validate w))"
    using a by (auto simp: is_valid_def get_or_none_def coherent_def split: option.splits sum.splits)
  show "fst (get_model validate w) = validate j" if "w_raw w = Some j"
    using a that by (auto simp: get_model_def coherent_def split: option.splits sum.splits)
qed

lemma wrapper_asked:
  "coherent validate w \<Longrightarrow> w_attempted w \<Longrightarrow> w_raw w = Some j \<Longrightarrow> validate j = Inl e \<Longrightarrow> w_error w = Some e"
  by (simp add: coherent_def)

lemma partition_rows_run:
  assumes "only_validation_errors validate" "\<forall>(i, w) \<in> set rows. coherent validate w"
  shows "partition_rows validate error_text rows r =
    Inr (r\<lparr>valid_rows := valid_rows r
            @ List.map_filter (\<lambda>(i, w). case w_raw w of None \<Rightarrow> None | Some j \<Rightarrow> (case validate j of Inr m \<Rightarrow> Some (i, m) | Inl e \<Rightarrow> None)) rows,
          invalid_rows := invalid_rows r
            @ List.map_filter (\<lambda>(i, w). case w_raw w of None \<Rightarrow> None
                | Some j \<Rightarrow> (case validate j of Inr m \<Rightarrow> None | Inl e \<Rightarrow> Some (i, Some j, error_text e))) rows\<rparr>)"
  using assms(2)
proof (induction rows arbitrary: r)
  case (Cons x rows)
  obtain i w where x: "x = (i, w)" by fastforce
  have w: "coherent validate w" using Cons.prems by (simp add: x)
  obtain v w1 where iv: "is_valid validate w = (v, w1)" by fastforce
  note a = wrapper_answers [OF w assms(1)]
  have w1: "coherent validate w1" "w_raw w1 = w_raw w" "w_attempted w1" using a(4) by (simp_all add: iv)
  obtain v2 w2 where gm: "get_model validate w1 = (v2, w2)" by fastforce
  show ?case
  proof (cases "w_raw w")
    case None
    then show ?thesis using Cons by (simp add: x is_null_def List.map_filter_def)
  next
    case (Some j)
    have "v2 = validate j" using wrapper_answers(3) [OF w1(1) assms(1)] Some w1(2) gm by simp
    moreover have "w_error w1 = Some e" if "validate j = Inl e" for e using wrapper_asked [OF w1(1,3)] Some w1(2) that by simp
    moreover have "v = Inr (case validate j of Inr m \<Rightarrow> True | Inl e \<Rightarrow> False)" using a(1) Some iv by simp
    ultimately show ?thesis
      using Cons Some iv gm w1(2) by (cases "validate j") (simp_all add: x is_null_def List.map_filter_def)
  qed
qed (simp add: List.map_filter_def)

subsection \<open>Properties\<close>

text \<open>
  The report never raises on invalid rows and loses none: the rows whose value validates are listed with their model, those whose value does
  not with the raw value and the error, both in the order of the rows, and the rows without a value are the only ones left out. It does not
  matter which wrappers were asked before.
\<close>

theorem schema_report_partitions_rows:
  assumes "only_validation_errors validate" "\<forall>(i, w) \<in> set rows. coherent validate w"
  shows "\<exists>r. partition_by_schema_validity validate error_text rows = Inr r
    \<and> (\<forall>i m. (i, m) \<in> set (valid_rows r) \<longleftrightarrow> (\<exists>w j. (i, w) \<in> set rows \<and> w_raw w = Some j \<and> validate j = Inr m))
    \<and> (\<forall>i raw t. (i, raw, t) \<in> set (invalid_rows r) \<longleftrightarrow>
         (\<exists>w j e. (i, w) \<in> set rows \<and> w_raw w = Some j \<and> raw = Some j \<and> validate j = Inl e \<and> t = error_text e))
    \<and> report_total r + length (filter (\<lambda>(i, w). is_null w) rows) = length rows
    \<and> 0 \<le> invalid_ratio r \<and> invalid_ratio r \<le> 1"
proof -
  define r where "r = \<lparr>valid_rows = List.map_filter (\<lambda>(i, w). case w_raw w of None \<Rightarrow> None
        | Some j \<Rightarrow> (case validate j of Inr m \<Rightarrow> Some (i, m) | Inl e \<Rightarrow> None)) rows,
      invalid_rows = List.map_filter (\<lambda>(i, w). case w_raw w of None \<Rightarrow> None
        | Some j \<Rightarrow> (case validate j of Inr m \<Rightarrow> None | Inl e \<Rightarrow> Some (i, Some j, error_text e))) rows\<rparr>"
  have "partition_by_schema_validity validate error_text rows = Inr r"
    using partition_rows_run [OF assms] by (simp add: partition_by_schema_validity_def r_def)
  moreover have "report_total r + length (filter (\<lambda>(i, w). is_null w) rows) = length rows"
    unfolding report_total_def r_def
    by (induction rows) (auto simp: is_null_def List.map_filter_def split: option.splits sum.splits)
  moreover have "0 \<le> invalid_ratio r \<and> invalid_ratio r \<le> 1"
    by (auto simp: invalid_ratio_def report_total_def divide_le_eq)
  moreover have "\<forall>i m. (i, m) \<in> set (valid_rows r) \<longleftrightarrow> (\<exists>w j. (i, w) \<in> set rows \<and> w_raw w = Some j \<and> validate j = Inr m)"
    by (force simp: r_def List.map_filter_def split: option.splits sum.splits)
  moreover have "\<forall>i raw t. (i, raw, t) \<in> set (invalid_rows r) \<longleftrightarrow>
      (\<exists>w j e. (i, w) \<in> set rows \<and> w_raw w = Some j \<and> raw = Some j \<and> validate j = Inl e \<and> t = error_text e)"
    by (force simp: r_def List.map_filter_def split: option.splits sum.splits)
  ultimately show ?thesis by blast
qed

definition positive :: "(int, nat) validator" where
  "positive j = (if 0 < j then Inr (nat j) else Inl (Exc ValidationError ''greater than 0''))"

definition sample_rows :: "(nat \<times> (int, nat) wrapper) list" where
  "sample_rows = [(1, ValidatedJSON (Some 5)), (2, ValidatedJSON None), (3, ValidatedJSON (Some (- 1)))]"

theorem schema_report_partitions_rows_witness:
  "\<exists>r. partition_by_schema_validity positive exc_str sample_rows = Inr r \<and> report_total r = 2"
proof -
  have 1: "only_validation_errors positive" by (auto simp: only_validation_errors_def positive_def)
  have 2: "\<forall>(i, w) \<in> set sample_rows. coherent positive w" by (simp add: sample_rows_def)
  have 3: "length (filter (\<lambda>(i, w). is_null w) sample_rows) = 1" "length sample_rows = 3" by code_simp+
  from schema_report_partitions_rows [OF 1 2, of exc_str] show ?thesis unfolding 3 by force
qed

text \<open>
  A model that is written is read back as the same model when pydantic validates what it dumped, and so is a wrapper that was read. A
  column without a value is read as a wrapper that calls itself valid, but asking for its model, or writing it back, fails with
  \<open>AssertionError\<close>.
\<close>

theorem json_column_roundtrip:
  assumes "validate (dump m) = Inr m"
  shows "process_bind_param validate dump (Bind_model m) = Inr (Some (dump m))
    \<and> fst (get_model validate (process_result_value (Some (dump m)))) = Inr m
    \<and> process_bind_param validate dump (Bind_wrapper (process_result_value (Some (dump m)))) = Inr (Some (dump m))
    \<and> process_bind_param validate dump Bind_None = Inr None
    \<and> fst (is_valid validate (process_result_value None)) = Inr True
    \<and> (\<exists>msg. process_bind_param validate dump (Bind_wrapper (process_result_value None)) = Inl (Exc AssertionError msg))"
  using assms
  by (simp add: process_bind_param_def process_result_value_def ValidatedJSON_def get_model_def is_valid_def attempt_def)

theorem json_column_roundtrip_witness:
  "fst (get_model positive (process_result_value (Some 5))) = Inr 5
   \<and> fst (is_valid positive (process_result_value None)) = Inr True"
  using json_column_roundtrip [of positive int 5] by (simp add: positive_def)

text \<open>An exception of a validator that is not a \<open>ValidationError\<close> is seen once; afterwards the wrapper calls itself valid.\<close>

lemma foreign_error_forgotten:
  assumes "validate j = Inl e" "exc_cls e \<noteq> ValidationError"
  shows "fst (get_model validate (ValidatedJSON (Some j))) = Inl e
    \<and> fst (is_valid validate (snd (get_model validate (ValidatedJSON (Some j))))) = Inr True"
  using assms by (simp add: get_model_def is_valid_def attempt_def ValidatedJSON_def)

end
