(* ===== verification/Decorators.thy ===== *)
theory Decorators
  imports Message_Handling
begin

section \<open>Decorators on classes and methods\<close>

text \<open>
  \<^verbatim>\<open>reflect/decorators.py\<close>: decorators that stack up on a class or function and are looked up along the method
  resolution order, and the two places that read them: the routers of \<^verbatim>\<open>presentation/decorators.py\<close> and the handlers of
  \<^verbatim>\<open>messagebus/decorators.py\<close>. A class is known by its method resolution order and the methods it defines itself.
\<close>

subsection \<open>Subjects\<close>

datatype subject = Cls string | Fun string

text \<open>Method resolution orders (the class itself first, \<open>object\<close> left out) and the functions a class defines in its body.\<close>

record hierarchy =
  mro :: "string \<Rightarrow> string list"
  own_methods :: "string \<Rightarrow> string \<rightharpoonup> string"

text \<open>\<open>DecoratorMetadata\<close>; a decorator is kept with its key.\<close>

record 'd metadata =
  decorators :: "(string \<times> 'd) list"
  decorators_by_type :: "string \<rightharpoonup> 'd list"

text \<open>What each subject has in its own \<open>__dict__\<close>.\<close>

type_synonym 'd decorated = "subject \<rightharpoonup> 'd metadata"

subsection \<open>Registration and lookup\<close>

definition get_or_set_metadata :: "subject \<Rightarrow> 'd decorated \<Rightarrow> 'd metadata" where
  "get_or_set_metadata s D = (case D s of Some m \<Rightarrow> m | None \<Rightarrow> \<lparr>decorators = [], decorators_by_type = Map.empty\<rparr>)"

definition register :: "string \<Rightarrow> 'd \<Rightarrow> subject \<Rightarrow> 'd decorated \<Rightarrow> 'd decorated" where
  "register key d s D =
     (let m = get_or_set_metadata s D;
          old = (case decorators_by_type m key of Some ds \<Rightarrow> ds | None \<Rightarrow> [])
      in D(s \<mapsto> m\<lparr>decorators := decorators m @ [(key, d)], decorators_by_type := (decorators_by_type m)(key \<mapsto> old @ [d])\<rparr>))"

text \<open>\<open>getattr\<close> on a class finds the attribute of the first class in its resolution order that has it.\<close>

definition lookup_order :: "hierarchy \<Rightarrow> subject \<Rightarrow> subject list" where
  "lookup_order H s = (case s of Cls c \<Rightarrow> map Cls (mro H c) | Fun f \<Rightarrow> [s])"

fun first_some :: "'a option list \<Rightarrow> 'a option" where
  "first_some [] = None"
| "first_some (x # xs) = (case x of Some y \<Rightarrow> Some y | None \<Rightarrow> first_some xs)"

definition get_metadata :: "hierarchy \<Rightarrow> 'd decorated \<Rightarrow> subject \<Rightarrow> 'd metadata option" where
  "get_metadata H D s = first_some (map D (lookup_order H s))"

definition get :: "hierarchy \<Rightarrow> 'd decorated \<Rightarrow> string \<Rightarrow> subject \<Rightarrow> 'd list" where
  "get H D key s =
     (case get_metadata H D s of None \<Rightarrow> []
      | Some m \<Rightarrow> (case decorators_by_type m key of Some ds \<Rightarrow> ds | None \<Rightarrow> []))"

definition get_all :: "hierarchy \<Rightarrow> 'd decorated \<Rightarrow> subject \<Rightarrow> 'd list" where
  "get_all H D s = (case get_metadata H D s of None \<Rightarrow> [] | Some m \<Rightarrow> map snd (decorators m))"

definition get_first :: "hierarchy \<Rightarrow> 'd decorated \<Rightarrow> string \<Rightarrow> subject \<Rightarrow> 'd option" where
  "get_first H D key s = (case get H D key s of [] \<Rightarrow> None | d # ds \<Rightarrow> Some d)"

definition get_last :: "hierarchy \<Rightarrow> 'd decorated \<Rightarrow> string \<Rightarrow> subject \<Rightarrow> 'd option" where
  "get_last H D key s = (case get H D key s of [] \<Rightarrow> None | d # ds \<Rightarrow> Some (last (d # ds)))"

definition resolve_class_decorators :: "hierarchy \<Rightarrow> 'd decorated \<Rightarrow> string \<Rightarrow> bool \<Rightarrow> string \<Rightarrow> 'd list" where
  "resolve_class_decorators H D key inherit c =
     (if \<not> inherit then get H D key (Cls c) else concat (map (\<lambda>b. get H D key (Cls b)) (rev (mro H c))))"

definition bound_of :: "bool \<Rightarrow> 'd list \<Rightarrow> 'd option" where
  "bound_of take_last ds = (if ds = [] then None else Some (if take_last then last ds else hd ds))"

definition resolve_bound_class_decorators :: "hierarchy \<Rightarrow> 'd decorated \<Rightarrow> string \<Rightarrow> bool \<Rightarrow> bool \<Rightarrow> string \<Rightarrow> 'd option" where
  "resolve_bound_class_decorators H D key inherit take_last c = bound_of take_last (resolve_class_decorators H D key inherit c)"

definition find_method :: "hierarchy \<Rightarrow> string \<Rightarrow> string \<Rightarrow> string option" where
  "find_method H c name = first_some (map (\<lambda>b. own_methods H b name) (mro H c))"

definition resolve_method_decorators :: "hierarchy \<Rightarrow> 'd decorated \<Rightarrow> string \<Rightarrow> bool \<Rightarrow> string \<Rightarrow> string \<Rightarrow> 'd list" where
  "resolve_method_decorators H D key inherit c name =
     (if \<not> inherit
      then (case find_method H c name of Some f \<Rightarrow> get H D key (Fun f) | None \<Rightarrow> [])
      else concat (map (\<lambda>b. case own_methods H b name of Some f \<Rightarrow> get H D key (Fun f) | None \<Rightarrow> []) (rev (mro H c))))"

definition resolve_bound_method_decorator ::
  "hierarchy \<Rightarrow> 'd decorated \<Rightarrow> string \<Rightarrow> bool \<Rightarrow> bool \<Rightarrow> string \<Rightarrow> string \<Rightarrow> 'd option" where
  "resolve_bound_method_decorator H D key inherit take_last c name =
     bound_of take_last (resolve_method_decorators H D key inherit c name)"

subsection \<open>Routers\<close>

text \<open>The decorators the router of a controller reads.\<close>

datatype route_decorator =
    HttpMapping (rd_verb: string) (rd_path: string) (rd_order: nat)
  | WebSocketEndpoint (rd_path: string) (rd_order: nat)
  | UseMiddleware string
  | UseDependency string

abbreviation "key_http \<equiv> ''HttpMapping''"
abbreviation "key_ws \<equiv> ''WebSocketEndpoint''"
abbreviation "key_middleware \<equiv> ''UseMiddleware''"
abbreviation "key_dependency \<equiv> ''UseDependency''"

datatype dependency = Intercept string | Injected string

fun as_dependency :: "route_decorator \<Rightarrow> dependency list" where
  "as_dependency (UseMiddleware m) = [Intercept m]"
| "as_dependency (UseDependency d) = [Injected d]"
| "as_dependency _ = []"

record rest_controller =
  rc_path :: string
  rc_middlewares :: "string list"
  class_inherits_decorators :: bool
  methods_inherit_decorators :: bool

record api_route =
  ar_name :: string
  ar_mapping :: route_decorator
  ar_dependencies :: "dependency list"

record router =
  prefix :: string
  router_dependencies :: "dependency list"
  routes :: "api_route list"

text \<open>The mapping of a member: the last HTTP mapping, or else the last web socket endpoint.\<close>

definition member_mapping :: "hierarchy \<Rightarrow> route_decorator decorated \<Rightarrow> bool \<Rightarrow> string \<Rightarrow> string \<Rightarrow> route_decorator option" where
  "member_mapping H D inherit c name =
     (case resolve_bound_method_decorator H D key_http inherit True c name of
        Some m \<Rightarrow> Some m
      | None \<Rightarrow> resolve_bound_method_decorator H D key_ws inherit True c name)"

definition class_dependencies :: "hierarchy \<Rightarrow> route_decorator decorated \<Rightarrow> rest_controller \<Rightarrow> string \<Rightarrow> dependency list" where
  "class_dependencies H D rc c =
     map Intercept (rc_middlewares rc)
     @ concat (map as_dependency (resolve_class_decorators H D key_middleware (class_inherits_decorators rc) c))
     @ concat (map as_dependency (resolve_class_decorators H D key_dependency (class_inherits_decorators rc) c))"

definition route_dependencies :: "hierarchy \<Rightarrow> route_decorator decorated \<Rightarrow> rest_controller \<Rightarrow> string \<Rightarrow> string \<Rightarrow> dependency list" where
  "route_dependencies H D rc c name =
     concat (map as_dependency (resolve_method_decorators H D key_middleware (methods_inherit_decorators rc) c name))
     @ concat (map as_dependency (resolve_method_decorators H D key_dependency (methods_inherit_decorators rc) c name))"

text \<open>\<open>members\<close>: the names of the methods of the controller, in the order \<open>inspect_controller\<close> lists them.\<close>

definition router_factory :: "hierarchy \<Rightarrow> route_decorator decorated \<Rightarrow> rest_controller \<Rightarrow> string \<Rightarrow> string list \<Rightarrow> router" where
  "router_factory H D rc c members =
     (let mapped = List.map_filter (\<lambda>n. map_option (\<lambda>m. (n, m)) (member_mapping H D (methods_inherit_decorators rc) c n)) members
      in \<lparr>prefix = rc_path rc, router_dependencies = class_dependencies H D rc c,
          routes = map (\<lambda>(n, m). \<lparr>ar_name = n, ar_mapping = m, ar_dependencies = route_dependencies H D rc c n\<rparr>)
                     (sort_key (\<lambda>(n, m). rd_order m) mapped)\<rparr>)"

text \<open>\<open>compose_route_decorators\<close>: one decorator that applies several.\<close>

definition compose_route_decorators :: "bool \<Rightarrow> (string \<times> 'd) list \<Rightarrow> subject \<Rightarrow> 'd decorated \<Rightarrow> 'd decorated" where
  "compose_route_decorators reverse ds s D = fold (\<lambda>(k, d). register k d s) (if reverse then rev ds else ds) D"

subsection \<open>Message handlers\<close>

datatype message_param = No_annotation | Wrapped bool | Direct bool   \<comment> \<open>whether the type is a subclass of \<open>Message\<close>\<close>

record function_facts =
  ff_coroutine :: bool
  ff_parameters :: "message_param list"
  ff_qualname :: string

definition quoted :: "string \<Rightarrow> string" where
  "quoted s = [CHR 0x27] @ s @ [CHR 0x27]"

definition not_a_message :: string where
  "not_a_message = '' message parameter must be of type '' @ quoted ''MessageOf[YourMessageType]'' @ '' or '' @ quoted ''YourMessageType''
     @ '' where '' @ quoted ''YourMessageType'' @ '' is a subclass of '' @ quoted ''Message''"

definition validate_decorated_fn :: "function_facts \<Rightarrow> handler_mode result" where
  "validate_decorated_fn f =
     (let fail = (\<lambda>m. Inl (Exc RuntimeError (''Message handler '' @ quoted (ff_qualname f) @ m)))
      in if \<not> ff_coroutine f then fail '' must be a coroutine function''
         else if length (ff_parameters f) \<noteq> 2 then fail '' must have exactly two parameters (self, message)''
         else (case ff_parameters f ! 1 of
                 No_annotation \<Rightarrow> fail '' must have type annotation for the message parameter''
               | Wrapped ok \<Rightarrow> if ok then Inr WRAPPED else fail not_a_message
               | Direct ok \<Rightarrow> if ok then Inr DIRECT else fail not_a_message))"

text \<open>
  A member is a message handler, or else a scheduled action, by the last decorator of that kind. \<open>class_name\<close> is the module and
  the qualified name of the controller.
\<close>

definition messagebus_factory ::
  "hierarchy \<Rightarrow> 'd decorated \<Rightarrow> string \<Rightarrow> (string \<times> string \<times> bool) list \<Rightarrow> ((string \<times> 'd) list \<times> (string \<times> 'd) list) result" where
  "messagebus_factory H D class_name members =
     (let fail = (\<lambda>kind n. Inl (Exc OtherError (kind @ '' handler '' @ quoted n @ '' from '' @ quoted class_name @ '' must be a coroutine function'')))
      in fold (\<lambda>(name, f, coroutine) acc. case acc of
             Inl e \<Rightarrow> Inl e
           | Inr (hs, ss) \<Rightarrow>
               (case get_last H D ''MessageHandler'' (Fun f) of
                  Some h \<Rightarrow> if coroutine then Inr (hs @ [(name, h)], ss) else fail ''Message incoming'' name
                | None \<Rightarrow>
                    (case get_last H D ''ScheduledAction'' (Fun f) of
                       Some a \<Rightarrow> if coroutine then Inr (hs, ss @ [(name, a)]) else fail ''Scheduled action'' name
                     | None \<Rightarrow> Inr (hs, ss)))) members (Inr ([], [])))"

subsection \<open>Lemmas\<close>

definition own :: "'d decorated \<Rightarrow> string \<Rightarrow> subject \<Rightarrow> 'd list" where
  "own D key s = (case D s of None \<Rightarrow> [] | Some m \<Rightarrow> (case decorators_by_type m key of Some ds \<Rightarrow> ds | None \<Rightarrow> []))"

text \<open>The index by key is always the list of decorators, filtered.\<close>

definition consistent :: "'d decorated \<Rightarrow> bool" where
  "consistent D =
     (\<forall>s m key. D s = Some m \<longrightarrow>
        (case decorators_by_type m key of Some ds \<Rightarrow> ds | None \<Rightarrow> []) = map snd (filter (\<lambda>(k, d). k = key) (decorators m)))"

lemma consistent_empty: "consistent Map.empty"
  by (simp add: consistent_def)

lemma consistent_register: "consistent D \<Longrightarrow> consistent (register key d s D)"
  by (auto simp: consistent_def register_def get_or_set_metadata_def Let_def split: option.splits) (metis option.distinct(1))

lemma own_register:
  "own (register key d s D) key' s' = (if s' = s \<and> key' = key then own D key s @ [d] else own D key' s')"
  by (auto simp: own_def register_def get_or_set_metadata_def Let_def split: option.splits)

lemma registered [simp]: "register key d s D s \<noteq> None"
  by (simp add: register_def Let_def)

lemma register_keeps: "D s' \<noteq> None \<Longrightarrow> register key d s D s' \<noteq> None"
  by (auto simp: register_def Let_def)

lemma own_fold_register:
  "own (fold (\<lambda>(k, d). register k d s) ds D) key s = own D key s @ map snd (filter (\<lambda>(k, d). k = key) ds)"
proof (induction ds arbitrary: D)
  case (Cons x ds)
  then show ?case by (cases x) (simp add: own_register)
qed simp

lemma get_own: "lookup_order H s = s # r \<Longrightarrow> D s \<noteq> None \<Longrightarrow> get H D key s = own D key s"
  by (auto simp: get_def get_metadata_def own_def)

lemma get_fun [simp]: "get H D key (Fun f) = own D key (Fun f)"
  by (simp add: get_def get_metadata_def own_def lookup_order_def split: option.splits)

lemma bound_of_append: "ds \<noteq> [] \<Longrightarrow> bound_of True (cs @ ds) = Some (last ds)" "cs \<noteq> [] \<Longrightarrow> bound_of False (cs @ ds) = Some (hd cs)"
  by (simp_all add: bound_of_def)

subsection \<open>Properties\<close>

text \<open>
  Decorators are read back as they were applied: after a list of decorators was applied to a method, the lookup of a
  kind gives exactly those of that kind, in the order of application, so the last one is the outermost; applying the reversed list
  reverses them; and other subjects keep theirs.
\<close>

theorem decorators_read_back:
  assumes "s = Fun f"
  shows "get H (compose_route_decorators rv ds s D) key s =
      own D key s @ map snd (filter (\<lambda>(k, d). k = key) (if rv then rev ds else ds))
    \<and> (consistent D \<longrightarrow> consistent (compose_route_decorators rv ds s D))
    \<and> (s' \<noteq> s \<longrightarrow> own (compose_route_decorators rv ds s D) key s' = own D key s')"
proof -
  have c: "consistent (fold (\<lambda>(k, d). register k d s) xs D)" if "consistent D" for xs
    using that by (induction xs arbitrary: D) (auto simp: consistent_register)
  have o: "own (fold (\<lambda>(k, d). register k d s) xs D) key s' = own D key s'" if "s' \<noteq> s" for xs
    using that by (induction xs arbitrary: D) (auto simp: own_register)
  show ?thesis
    using assms c o by (auto simp: compose_route_decorators_def own_fold_register)
qed

theorem decorators_read_back_witness:
  "get \<lparr>mro = (\<lambda>c. [c]), own_methods = (\<lambda>c. Map.empty)\<rparr>
     (compose_route_decorators False [(key_middleware, UseMiddleware ''A''), (key_http, HttpMapping ''GET'' ''/'' 1),
        (key_middleware, UseMiddleware ''B'')] (Fun ''f'') Map.empty) key_middleware (Fun ''f'') = [UseMiddleware ''A'', UseMiddleware ''B'']"
  using decorators_read_back [of "Fun ''f''" "''f''" "\<lparr>mro = (\<lambda>c. [c]), own_methods = (\<lambda>c. Map.empty)\<rparr>" False
      "[(key_middleware, UseMiddleware ''A''), (key_http, HttpMapping ''GET'' ''/'' 1), (key_middleware, UseMiddleware ''B'')]" Map.empty key_middleware]
  by (simp add: own_def)

text \<open>
  Inheritance of class decorators: when every class of the resolution order carries decorators of its own, those of the bases come
  first, each once. A class that carries none is found to have the ones of its base, so that they are collected twice.
\<close>

definition well_ordered :: "hierarchy \<Rightarrow> bool" where
  "well_ordered H = (\<forall>c. \<exists>r. mro H c = c # r)"

theorem inherited_class_decorators:
  assumes "well_ordered H"
  shows "((\<forall>b \<in> set (mro H c). D (Cls b) \<noteq> None) \<longrightarrow>
      resolve_class_decorators H D key True c = concat (map (\<lambda>b. own D key (Cls b)) (rev (mro H c))))
    \<and> (mro H d = [d, b] \<and> mro H b = [b] \<and> D (Cls d) = None \<and> D (Cls b) \<noteq> None \<longrightarrow>
      resolve_class_decorators H D key True d = own D key (Cls b) @ own D key (Cls b))"
proof -
  have "get H D key (Cls b) = own D key (Cls b)" if "D (Cls b) \<noteq> None" for b
  proof -
    obtain r where "mro H b = b # r" using assms by (auto simp: well_ordered_def)
    then show ?thesis using that by (intro get_own [where r = "map Cls r"]) (simp_all add: lookup_order_def)
  qed
  then have "(\<forall>b \<in> set (mro H c). D (Cls b) \<noteq> None) \<longrightarrow>
      resolve_class_decorators H D key True c = concat (map (\<lambda>b. own D key (Cls b)) (rev (mro H c)))"
    by (auto simp: resolve_class_decorators_def intro!: arg_cong [where f = concat] map_cong)
  moreover have "mro H d = [d, b] \<and> mro H b = [b] \<and> D (Cls d) = None \<and> D (Cls b) \<noteq> None \<longrightarrow>
      resolve_class_decorators H D key True d = own D key (Cls b) @ own D key (Cls b)"
    by (auto simp: resolve_class_decorators_def get_def get_metadata_def lookup_order_def own_def)
  ultimately show ?thesis by blast
qed

definition sample_hierarchy :: hierarchy where
  "sample_hierarchy = \<lparr>mro = (\<lambda>c. if c = ''Base'' then [c] else [c, ''Base'']),
     own_methods = (\<lambda>c. if c = ''Base'' then [''list'' \<mapsto> ''Base.list''] else [''list'' \<mapsto> ''Derived.list''])\<rparr>"

definition sample_decorated :: "route_decorator decorated" where
  "sample_decorated = register key_http (HttpMapping ''GET'' ''/v2'' 2) (Fun ''Derived.list'')
     (register key_http (HttpMapping ''GET'' ''/v1'' 1) (Fun ''Base.list'')
       (register key_middleware (UseMiddleware ''Auth'') (Cls ''Base'') Map.empty))"

lemmas decorated_eval = sample_hierarchy_def sample_decorated_def register_def get_or_set_metadata_def own_def

theorem inherited_class_decorators_witness:
  "resolve_class_decorators sample_hierarchy sample_decorated key_middleware True ''Derived'' = [UseMiddleware ''Auth'', UseMiddleware ''Auth'']"
proof -
  have "well_ordered sample_hierarchy" by (auto simp: well_ordered_def sample_hierarchy_def)
  from inherited_class_decorators [OF this, of "''Base''" sample_decorated key_middleware "''Derived''" "''Base''"] show ?thesis
    by (simp add: decorated_eval)
qed

text \<open>
  A method that overrides another with a mapping of its own is routed by its own mapping, the last one; a reader that takes the first one,
  as the generator of the client code does, gets the mapping of the base class.
\<close>

theorem overridden_mapping_read_differently:
  assumes "mro H d = [d, b]" "own_methods H d name = Some g" "own_methods H b name = Some f"
    and "own D key_http (Fun g) = [m2]" "own D key_http (Fun f) = [m1]"
  shows "member_mapping H D True d name = Some m2
    \<and> resolve_bound_method_decorator H D key_http True False d name = Some m1"
  using assms
  by (simp add: member_mapping_def resolve_bound_method_decorator_def resolve_method_decorators_def bound_of_def)

theorem overridden_mapping_read_differently_witness:
  "member_mapping sample_hierarchy sample_decorated True ''Derived'' ''list'' = Some (HttpMapping ''GET'' ''/v2'' 2)
   \<and> resolve_bound_method_decorator sample_hierarchy sample_decorated key_http True False ''Derived'' ''list'' = Some (HttpMapping ''GET'' ''/v1'' 1)"
  by (rule overridden_mapping_read_differently [where b = "''Base''" and g = "''Derived.list''" and f = "''Base.list''"])
    (simp_all add: decorated_eval)

lemma router_routes_mapped_members:
  "set (map (\<lambda>r. (ar_name r, ar_mapping r)) (routes (router_factory H D rc c members))) =
     {(n, m). n \<in> set members \<and> member_mapping H D (methods_inherit_decorators rc) c n = Some m}"
  "sorted (map (rd_order \<circ> ar_mapping) (routes (router_factory H D rc c members)))"
proof -
  show "set (map (\<lambda>r. (ar_name r, ar_mapping r)) (routes (router_factory H D rc c members))) =
     {(n, m). n \<in> set members \<and> member_mapping H D (methods_inherit_decorators rc) c n = Some m}"
    by (force simp: router_factory_def Let_def List.map_filter_def split_beta)
  let ?xs = "List.map_filter (\<lambda>n. map_option (\<lambda>m. (n, m)) (member_mapping H D (methods_inherit_decorators rc) c n)) members"
  have "map (rd_order \<circ> ar_mapping) (routes (router_factory H D rc c members)) = map (\<lambda>(n, m). rd_order m) (sort_key (\<lambda>(n, m). rd_order m) ?xs)"
    by (simp add: router_factory_def Let_def split_beta comp_def)
  then show "sorted (map (rd_order \<circ> ar_mapping) (routes (router_factory H D rc c members)))"
    using sorted_sort_key [of "\<lambda>(n, m). rd_order m" ?xs] by simp
qed

end
