(* ===== verification/App_Settings.thy ===== *)
theory App_Settings
  imports Container Decorators
begin

section \<open>Configuration of an application and of its log records\<close>

text \<open>
  \<^verbatim>\<open>tools/app_config/interceptor.py\<close> and \<^verbatim>\<open>decorators.py\<close>: configuration models are parsed when the application starts and registered in the
  container under their tokens. \<^verbatim>\<open>utils/logger_extra_interceptor.py\<close>: attributes of the context added to log records.
  \<^verbatim>\<open>broker_backend/mapper.py\<close>: the backend of a URL. What a configuration parser gives for a model is a parameter (the default one
  validates the environment with pydantic); the attributes every log record has depend on the Python version and are an argument.
\<close>

subsection \<open>Configuration\<close>

text \<open>A token with the name of its model.\<close>

type_synonym config_entry = "key \<times> string"

definition get_configs_from_application ::
  "config_entry list \<Rightarrow> hierarchy \<Rightarrow> config_entry decorated \<Rightarrow> string list \<Rightarrow> config_entry list" where
  "get_configs_from_application global_configs H D controllers =
     global_configs @ List.map_filter (\<lambda>c. get_last H D ''RequiresConfig'' (Cls c)) controllers"

definition error_line :: "(string \<Rightarrow> string) \<Rightarrow> string \<Rightarrow> exc \<Rightarrow> string" where
  "error_line type_str t e = ''Error creating '' @ type_str t @ '': '' @ exc_str e"

fun create_configs ::
  "(string \<Rightarrow> pyval result) \<Rightarrow> (string \<Rightarrow> string) \<Rightarrow> config_entry list \<Rightarrow> string list \<times> cst \<Rightarrow> exc option \<times> string list \<times> cst" where
  "create_configs parser type_str [] (errors, s) = (None, errors, s)"
| "create_configs parser type_str ((token, t) # cs) (errors, s) =
     (case parser t of
        Inr v \<Rightarrow> create_configs parser type_str cs (errors, Container.register v token s)
      | Inl e \<Rightarrow>
          (if is_Exception e then create_configs parser type_str cs (errors @ [error_line type_str t e], s)
           else (Some e, errors, s)))"

text \<open>The part of \<open>lifecycle\<close> before its \<open>yield\<close>.\<close>

definition config_lifecycle ::
  "(string \<Rightarrow> pyval result) \<Rightarrow> (string \<Rightarrow> string) \<Rightarrow> config_entry list \<Rightarrow> hierarchy \<Rightarrow> config_entry decorated \<Rightarrow> string list \<Rightarrow> cst \<Rightarrow> exc option \<times> cst" where
  "config_lifecycle parser type_str global_configs H D controllers s =
     (case create_configs parser type_str (global_configs @ get_configs_from_application global_configs H D controllers) ([], s) of
        (Some e, errors, s1) \<Rightarrow> (Some e, s1)
      | (None, [], s1) \<Rightarrow> (None, s1)
      | (None, err # errs, s1) \<Rightarrow> (Some (Exc AppConfigValidationError (py_join [CHR 0x0A] (err # errs))), s1))"

subsection \<open>Attributes of log records\<close>

definition is_forbidden_extra_key :: "string list \<Rightarrow> string \<Rightarrow> bool" where
  "is_forbidden_extra_key reserved k = (py_startswith k ''_'' \<or> k \<in> set reserved)"

text \<open>The attributes inside \<open>providing_logger_extra_attributes\<close>; they are the old ones again when the block is left.\<close>

definition provided_attributes :: "string list \<Rightarrow> (string \<times> 'v) list \<Rightarrow> (string \<times> 'v) list \<Rightarrow> (string \<times> 'v) list" where
  "provided_attributes reserved old attributes = dict_update old (filter (\<lambda>(k, v). \<not> is_forbidden_extra_key reserved k) attributes)"

text \<open>\<open>emit\<close>: the record is the dictionary of its attributes.\<close>

definition emit_record ::
  "string list \<Rightarrow> (string \<times> 'v) list \<Rightarrow> ((string \<times> 'v) list \<Rightarrow> (string \<times> 'v) list) option \<Rightarrow> (string \<times> 'v) list \<Rightarrow> (string \<times> 'v) list" where
  "emit_record reserved attributes inject_extra rec =
     (let extra = dict_update attributes (case inject_extra of Some f \<Rightarrow> f rec | None \<Rightarrow> [])
      in fold (\<lambda>(k, v) r. if is_forbidden_extra_key reserved k \<or> map_of r k \<noteq> None then r else dict_set k v r) extra rec)"

subsection \<open>Backends by URL\<close>

datatype backend_choice = RedisMessageBrokerBackend string

definition get_message_broker_backend_from_url :: "string \<Rightarrow> backend_choice result" where
  "get_message_broker_backend_from_url url =
     (if list_ex (py_startswith url) [''redis://'', ''rediss://'', ''redis-socket://'', ''rediss+socket://'']
      then Inr (RedisMessageBrokerBackend url)
      else Inl (Exc ValueError (''Unsupported message broker backend URL: '' @ url)))"

subsection \<open>Lemmas\<close>

text \<open>What a list of entries amounts to: the configurations created, and the lines of the errors.\<close>

definition created :: "(string \<Rightarrow> pyval result) \<Rightarrow> config_entry list \<Rightarrow> (key \<times> pyval) list" where
  "created parser cs = List.map_filter (\<lambda>(k, t). case parser t of Inl e \<Rightarrow> None | Inr v \<Rightarrow> Some (k, v)) cs"

definition failures :: "(string \<Rightarrow> pyval result) \<Rightarrow> (string \<Rightarrow> string) \<Rightarrow> config_entry list \<Rightarrow> string list" where
  "failures parser type_str cs = List.map_filter (\<lambda>(k, t). case parser t of Inl e \<Rightarrow> Some (error_line type_str t e) | Inr v \<Rightarrow> None) cs"

lemma create_configs_run:
  assumes "\<forall>(k, t) \<in> set cs. \<forall>e. parser t = Inl e \<longrightarrow> is_Exception e"
  shows "create_configs parser type_str cs (errors, s) =
    (None, errors @ failures parser type_str cs,
     fold (\<lambda>(k, t) s. case parser t of Inl e \<Rightarrow> s | Inr v \<Rightarrow> Container.register v k s) cs s)"
  using assms
proof (induction cs arbitrary: errors s)
  case (Cons x cs)
  then show ?case by (cases x; cases "parser (snd x)") (auto simp: failures_def List.map_filter_def)
qed (simp add: failures_def List.map_filter_def)

lemma registered_configs:
  "map_of (instances_map (fold (\<lambda>(k, t) s. case parser t of Inl e \<Rightarrow> s | Inr v \<Rightarrow> Container.register v k s) cs s)) =
     map_of (instances_map s) ++ map_of (rev (created parser cs))"
proof (induction cs arbitrary: s)
  case (Cons x cs)
  then show ?case by (cases x; cases "parser (snd x)") (auto simp: created_def List.map_filter_def Container.register_def map_add_def fun_eq_iff split: option.splits)
qed (simp add: created_def List.map_filter_def)

lemma emit_fold:
  "distinct (map fst ex) \<Longrightarrow>
   map_of (fold (\<lambda>(k, v) r. if is_forbidden_extra_key reserved k \<or> map_of r k \<noteq> None then r else dict_set k v r) ex r) k =
     (case map_of r k of Some v \<Rightarrow> Some v | None \<Rightarrow> if is_forbidden_extra_key reserved k then None else map_of ex k)"
proof (induction ex arbitrary: r)
  case (Cons x ex)
  obtain k' v where x: "x = (k', v)" by fastforce
  then have "map_of ex k' = None" using Cons.prems by (simp add: map_of_eq_None_iff)
  then show ?case using Cons x by (auto split: option.splits)
qed (simp split: option.splits)

lemma created_set:
  "(k, v) \<in> set (created parser cs) \<longleftrightarrow>
   (\<exists>t. (k, t) \<in> set cs \<and> parser t = Inr v)"
  by (induction cs) (auto simp: created_def List.map_filter_def split: sum.splits)

lemma created_none:
  "k \<notin> fst ` set cs \<Longrightarrow> map_of (rev (created parser cs)) k = None"
  using created_set [of k _ parser cs] by (force simp: map_of_eq_None_iff)

lemma created_config:
  assumes "(k, t) \<in> set cs" "parser t = Inr v" "\<forall>t'. (k, t') \<in> set cs \<longrightarrow> t' = t"
  shows "map_of (rev (created parser cs)) k = Some v" (is "map_of ?m k = _")
proof -
  have "(k, v) \<in> set (created parser cs)" unfolding created_set using assms(1,2) by blast
  then have "(k, v) \<in> set ?m" by simp
  then obtain v' where v': "map_of ?m k = Some v'" using weak_map_of_SomeI by fast
  then have "(k, v') \<in> set ?m" by (rule map_of_SomeD)
  then obtain t' where "(k, t') \<in> set cs" "parser t' = Inr v'" using created_set [of k v' parser cs] by auto
  then show ?thesis using assms v' by auto
qed

lemma failures_Nil_iff: "failures parser type_str cs = [] \<longleftrightarrow> (\<forall>(k, t) \<in> set cs. \<exists>v. parser t = Inr v)"
  by (induction cs) (auto simp: failures_def List.map_filter_def split: sum.splits)

subsection \<open>Properties\<close>

text \<open>
  The application starts exactly when every configuration it asks for can be created; then each token is bound to its configuration. Otherwise
  it fails with one error that has a line for every configuration that could not be created, and those that could are registered all the same.
\<close>

theorem configurations_registered_or_reported:
  assumes "\<And>t e. parser t = Inl e \<Longrightarrow> is_Exception e"
    and "config_lifecycle parser type_str gs H D controllers s = (out, s')"
  shows "(out = None) = (\<forall>(k, t) \<in> set (get_configs_from_application gs H D controllers). \<exists>v. parser t = Inr v)
    \<and> (\<forall>e. out = Some e \<longrightarrow> exc_cls e = AppConfigValidationError)
    \<and> ((k, t) \<in> set (get_configs_from_application gs H D controllers) \<and> parser t = Inr v
        \<and> (\<forall>t'. (k, t') \<in> set (get_configs_from_application gs H D controllers) \<longrightarrow> t' = t) \<longrightarrow> map_of (instances_map s') k = Some v)
    \<and> (k \<notin> fst ` set (get_configs_from_application gs H D controllers) \<longrightarrow> map_of (instances_map s') k = map_of (instances_map s) k)"
proof -
  let ?cs = "gs @ get_configs_from_application gs H D controllers"
  let ?errs = "failures parser type_str ?cs"
  have set: "set ?cs = set (get_configs_from_application gs H D controllers)" by (auto simp: get_configs_from_application_def)
  have run: "create_configs parser type_str ?cs ([], s) =
      (None, ?errs, fold (\<lambda>(k, t) s. case parser t of Inl e \<Rightarrow> s | Inr v \<Rightarrow> Container.register v k s) ?cs s)"
    using create_configs_run [of ?cs parser type_str "[]" s] assms(1) by (auto split: prod.splits)
  have out: "out = (case ?errs of [] \<Rightarrow> None | err # errs \<Rightarrow> Some (Exc AppConfigValidationError (py_join [CHR 0x0A] (err # errs))))"
    and s': "map_of (instances_map s') = map_of (instances_map s) ++ map_of (rev (created parser ?cs))"
    using assms(2) registered_configs [of parser ?cs s] unfolding config_lifecycle_def run by (auto split: list.splits)
  have "?errs = [] \<longleftrightarrow> (\<forall>(k, t) \<in> set ?cs. \<exists>v. parser t = Inr v)"
    by (rule failures_Nil_iff)
  then have 1: "(out = None) = (\<forall>(k, t) \<in> set (get_configs_from_application gs H D controllers). \<exists>v. parser t = Inr v)"
    unfolding set out by (cases ?errs) simp_all
  have 2: "\<forall>e. out = Some e \<longrightarrow> exc_cls e = AppConfigValidationError" unfolding out by (cases ?errs) simp_all
  show ?thesis
  proof (intro conjI impI, goal_cases)
    case 3
    then have "map_of (rev (created parser ?cs)) k = Some v" using created_config [of k t ?cs parser v] unfolding set by blast
    then show ?case unfolding s' by (rule map_add_find_right)
  next
    case 4
    then have "map_of (rev (created parser ?cs)) k = None" using created_none [of k ?cs parser] unfolding set by blast
    then show ?case unfolding s' by (simp only: map_add_def option.case)
  qed (use 1 2 in blast)+
qed

definition env_parser :: "string \<Rightarrow> pyval result" where
  "env_parser t = (if t = ''DbConfig'' then Inr (VInt 1) else Inl (Exc ValueError ''field required''))"

theorem configurations_registered_or_reported_witness:
  "fst (config_lifecycle env_parser id [(KToken ''DbConfig'' ''db'', ''DbConfig'')] \<lparr>mro = (\<lambda>c. [c]), own_methods = (\<lambda>c. Map.empty)\<rparr> Map.empty
     [] \<lparr>instances_map = [], built = []\<rparr>) = None"
proof -
  have "is_Exception e" if "env_parser t = Inl e" for t e using that by (auto simp: env_parser_def split: if_splits)
  from configurations_registered_or_reported [where parser = env_parser and type_str = id and gs = "[(KToken ''DbConfig'' ''db'', ''DbConfig'')]"
      and H = "\<lparr>mro = (\<lambda>c. [c]), own_methods = (\<lambda>c. Map.empty)\<rparr>" and D = Map.empty and controllers = "[]" and s = "\<lparr>instances_map = [], built = []\<rparr>",
      OF this prod.collapse [symmetric]]
  show ?thesis by (simp add: get_configs_from_application_def env_parser_def List.map_filter_def)
qed

text \<open>A global configuration is listed twice, so it is created twice and its error is reported twice.\<close>

lemma global_configuration_created_twice:
  assumes "parser t = Inl e" "is_Exception e"
  shows "fst (config_lifecycle parser type_str [(k, t)] H D [] s) =
    Some (Exc AppConfigValidationError (error_line type_str t e @ [CHR 0x0A] @ error_line type_str t e))"
  using assms by (simp add: config_lifecycle_def get_configs_from_application_def List.map_filter_def)

text \<open>
  Log records are never clobbered: an attribute a record has keeps its value, no reserved or private name is added, and any other name gets the
  value of the record's own injector, or else that of the innermost block that provides it.
\<close>

theorem log_attributes_never_clobber:
  assumes "distinct (map fst old)" "distinct (map fst attributes)" "distinct (map fst (f rec))"
  shows "map_of (emit_record reserved (provided_attributes reserved old attributes) (Some f) rec) k =
    (case map_of rec k of
       Some v \<Rightarrow> Some v
     | None \<Rightarrow> if is_forbidden_extra_key reserved k then None
               else (case map_of (f rec) k of Some v \<Rightarrow> Some v
                     | None \<Rightarrow> (case map_of attributes k of Some v \<Rightarrow> Some v | None \<Rightarrow> map_of old k)))"
proof -
  let ?safe = "filter (\<lambda>(k, v). \<not> is_forbidden_extra_key reserved k) attributes"
  have "distinct (map fst ?safe)" using assms(2) by (rule distinct_map_fst_filter)
  then have p: "map_of (provided_attributes reserved old attributes) = map_of old ++ map_of ?safe"
    by (simp add: provided_attributes_def map_of_dict_update)
  have "distinct (map fst (dict_update (provided_attributes reserved old attributes) (f rec)))"
    using assms(1) by (simp add: provided_attributes_def distinct_dict_update)
  then have "map_of (emit_record reserved (provided_attributes reserved old attributes) (Some f) rec) k =
      (case map_of rec k of Some v \<Rightarrow> Some v
       | None \<Rightarrow> if is_forbidden_extra_key reserved k then None else (map_of old ++ map_of ?safe ++ map_of (f rec)) k)"
    by (simp add: emit_record_def emit_fold map_of_dict_update [OF assms(3)] p del: not_None_eq split: option.split)
  moreover have "map_of ?safe k = (if is_forbidden_extra_key reserved k then None else map_of attributes k)"
    by (induction attributes) auto
  ultimately show ?thesis by (auto simp: map_add_def split: option.splits)
qed

theorem log_attributes_never_clobber_witness:
  "map_of (emit_record [''msg''] (provided_attributes [''msg''] [(''tenant'', 1 :: int)] [(''tenant'', 2), (''msg'', 9)]) (Some (\<lambda>r. [])) [(''msg'', 0)]) ''tenant'' = Some 2"
  using log_attributes_never_clobber [of "[(''tenant'', 1 :: int)]" "[(''tenant'', 2), (''msg'', 9)]" "\<lambda>r. []" "[(''msg'', 0)]" "[''msg'']" "''tenant''"]
  by (simp add: is_forbidden_extra_key_def py_startswith_def)

end
