(* ===== verification/Global_Scheduler.thy ===== *)
theory Global_Scheduler
  imports Prelude
begin

section \<open>The global scheduler helper\<close>

text \<open>
  \<^verbatim>\<open>helpers/global_scheduler/\<close>: functions registered once are all started on every trigger of one scheduled action. A trigger makes a task for
  each registered function and returns without waiting; the tasks share a semaphore of their own. Which task runs next is up to the event
  loop: the steps below are what it may do. The registered functions are names; how one ends is not observed.
\<close>

subsection \<open>State\<close>

record batch =
  waiting :: "string list"       \<comment> \<open>tasks that wait for the semaphore, in order\<close>
  running :: "string list"
  free_permits :: nat

record scheduler =
  registry :: "string list"
  batches :: "batch list"        \<comment> \<open>one for each trigger so far\<close>
  completed :: "string list"

definition register_action :: "string \<Rightarrow> scheduler \<Rightarrow> scheduler" where
  "register_action fn s = s\<lparr>registry := registry s @ [fn]\<rparr>"

text \<open>\<open>trigger_scheduled_actions\<close>; \<open>asyncio.Semaphore\<close> rejects a negative value.\<close>

definition trigger_scheduled_actions :: "int \<Rightarrow> scheduler \<Rightarrow> scheduler result" where
  "trigger_scheduled_actions max_concurrent_jobs s =
     (if max_concurrent_jobs < 0 then Inl (Exc ValueError ''Semaphore initial value must be >= 0'')
      else Inr (s\<lparr>batches := batches s @ [\<lparr>waiting = registry s, running = [], free_permits = nat max_concurrent_jobs\<rparr>]\<rparr>))"

text \<open>\<open>_run_with_semaphore\<close>: a task enters, or its function ends and it leaves.\<close>

definition enter_semaphore :: "batch \<Rightarrow> batch option" where
  "enter_semaphore b =
     (case waiting b of
        [] \<Rightarrow> None
      | j # js \<Rightarrow> if 0 < free_permits b then Some (b\<lparr>waiting := js, running := j # running b, free_permits := free_permits b - 1\<rparr>) else None)"

definition leave_semaphore :: "string \<Rightarrow> batch \<Rightarrow> batch option" where
  "leave_semaphore j b =
     (if j \<in> set (running b) then Some (b\<lparr>running := remove1 j (running b), free_permits := Suc (free_permits b)\<rparr>) else None)"

inductive scheduler_step :: "int \<Rightarrow> scheduler \<Rightarrow> scheduler \<Rightarrow> bool" for limit where
  Register: "scheduler_step limit s (register_action fn s)"
| Trigger: "trigger_scheduled_actions limit s = Inr s' \<Longrightarrow> scheduler_step limit s s'"
| Enter: "i < length (batches s) \<Longrightarrow> enter_semaphore (batches s ! i) = Some b \<Longrightarrow>
    scheduler_step limit s (s\<lparr>batches := (batches s)[i := b]\<rparr>)"
| Leave: "i < length (batches s) \<Longrightarrow> leave_semaphore j (batches s ! i) = Some b \<Longrightarrow>
    scheduler_step limit s (s\<lparr>batches := (batches s)[i := b], completed := completed s @ [j]\<rparr>)"

definition scheduler_init :: scheduler where
  "scheduler_init = \<lparr>registry = [], batches = [], completed = []\<rparr>"

abbreviation scheduler_reach :: "int \<Rightarrow> scheduler \<Rightarrow> bool" where
  "scheduler_reach limit \<equiv> (scheduler_step limit)\<^sup>*\<^sup>* scheduler_init"

inductive_cases scheduler_stepE: "scheduler_step limit s s'"

subsection \<open>Invariant\<close>

definition batch_ok :: "int \<Rightarrow> batch \<Rightarrow> bool" where
  "batch_ok limit b = (int (free_permits b + length (running b)) = limit)"

lemma batch_ok_enter: "batch_ok limit b \<Longrightarrow> enter_semaphore b = Some b' \<Longrightarrow> batch_ok limit b'"
  by (auto simp: batch_ok_def enter_semaphore_def split: list.splits if_splits)

lemma batch_ok_leave: "batch_ok limit b \<Longrightarrow> leave_semaphore j b = Some b' \<Longrightarrow> batch_ok limit b'"
  by (auto simp: batch_ok_def leave_semaphore_def length_remove1 split: if_splits) (metis Suc_pred length_pos_if_in_set add_Suc_right of_nat_Suc)

lemma scheduler_step_ok:
  "scheduler_step limit s s' \<Longrightarrow> list_all (batch_ok limit) (batches s) \<Longrightarrow> list_all (batch_ok limit) (batches s')"
proof (induction rule: scheduler_step.induct)
  case (Trigger s s')
  then show ?case by (auto simp: trigger_scheduled_actions_def batch_ok_def split: if_splits)
next
  case (Enter i s b)
  then have "batch_ok limit b" by (auto simp: list_all_length intro: batch_ok_enter)
  then show ?case using Enter by (auto simp: list_all_length nth_list_update)
next
  case (Leave i s j b)
  then have "batch_ok limit b" by (auto simp: list_all_length intro: batch_ok_leave)
  then show ?case using Leave by (auto simp: list_all_length nth_list_update)
qed (simp add: register_action_def)

lemma scheduler_reach_ok: "scheduler_reach limit s \<Longrightarrow> list_all (batch_ok limit) (batches s)"
  by (induction rule: rtranclp_induct) (simp_all add: scheduler_init_def scheduler_step_ok)

subsection \<open>Properties\<close>

text \<open>
  Within one trigger at most \<open>MAX_CONCURRENT_JOBS\<close> functions run at any time, and as long as the limit is positive some step is possible
  for a trigger whose functions are not all done: one enters or one leaves.
\<close>

theorem jobs_of_a_trigger_bounded:
  assumes "scheduler_reach limit s" "b \<in> set (batches s)"
  shows "int (length (running b)) \<le> limit
    \<and> (0 < limit \<and> (waiting b \<noteq> [] \<or> running b \<noteq> []) \<longrightarrow> enter_semaphore b \<noteq> None \<or> (\<exists>j. leave_semaphore j b \<noteq> None))"
proof -
  have "batch_ok limit b" using scheduler_reach_ok [OF assms(1)] assms(2) by (auto simp: list_all_iff)
  then show ?thesis
    by (cases "running b"; cases "waiting b") (auto simp: batch_ok_def enter_semaphore_def leave_semaphore_def)
qed

definition one_job :: "nat \<Rightarrow> scheduler" where
  "one_job n = \<lparr>registry = [''job''], batches = replicate n \<lparr>waiting = [], running = [''job''], free_permits = 0\<rparr>, completed = []\<rparr>"

lemma one_more_trigger: "(scheduler_step 1)\<^sup>*\<^sup>* (one_job n) (one_job (Suc n))"
proof -
  let ?s = "(one_job n)\<lparr>batches := batches (one_job n) @ [\<lparr>waiting = [''job''], running = [], free_permits = 1\<rparr>]\<rparr>"
  have "scheduler_step 1 (one_job n) ?s" by (rule scheduler_step.Trigger) (simp add: trigger_scheduled_actions_def one_job_def)
  moreover have "scheduler_step 1 ?s (?s\<lparr>batches := (batches ?s)[n := \<lparr>waiting = [], running = [''job''], free_permits = 0\<rparr>]\<rparr>)"
    by (rule scheduler_step.Enter) (simp_all add: one_job_def enter_semaphore_def nth_append)
  moreover have "?s\<lparr>batches := (batches ?s)[n := \<lparr>waiting = [], running = [''job''], free_permits = 0\<rparr>]\<rparr> = one_job (Suc n)"
    by (simp add: one_job_def list_update_append replicate_append_same)
  ultimately show ?thesis by (metis converse_rtranclp_into_rtranclp r_into_rtranclp)
qed

lemma one_job_reach: "scheduler_reach 1 (one_job n)"
proof (induction n)
  case 0
  have "scheduler_step 1 scheduler_init (register_action ''job'' scheduler_init)" by (rule scheduler_step.Register)
  moreover have "register_action ''job'' scheduler_init = one_job 0" by (simp add: register_action_def scheduler_init_def one_job_def)
  ultimately show ?case by auto
next
  case (Suc n)
  then show ?case using one_more_trigger [of n] by (metis rtranclp_trans)
qed

theorem jobs_of_a_trigger_bounded_witness: "int (length (running (hd (batches (one_job 1))))) \<le> 1"
  using jobs_of_a_trigger_bounded [OF one_job_reach [of 1], of "hd (batches (one_job 1))"] by (simp add: one_job_def)

text \<open>
  The limit holds within a trigger only: every trigger has a semaphore of its own and does not wait for the functions it starts, so
  with a limit of one any number of runs of one function can be in progress at once.
\<close>

theorem limit_is_not_shared_between_triggers:
  "\<exists>s. scheduler_reach 1 s \<and> length (concat (map running (batches s))) = n \<and> set (concat (map running (batches s))) \<subseteq> {''job''}"
  using one_job_reach [of n] by (intro exI [of _ "one_job n"]) (auto simp: one_job_def length_concat sum_list_replicate)

end
