(* ===== verification/Beat_Startup.thy ===== *)
theory Beat_Startup
  imports Beat Amqp
begin

section \<open>Starting the beat worker\<close>

text \<open>
  \<^verbatim>\<open>scheduler/beat_worker.py\<close>: how the dispatcher gets its connection and channel, \<open>initialize\<close> with its retries and health checks, the
  health monitor, and the order of the start. Each of the three levels (initialising, opening a channel, connecting) runs under
  \<open>retry_with_backoff\<close> with the same policy, one inside the other; the pools of aio_pika create what they do not hold. Waiting times are not
  part of this model (see \<^verbatim>\<open>Retry\<close>).
\<close>

subsection \<open>Retrying a stateful operation\<close>

text \<open>
  \<open>retry_with_backoff\<close> around an operation on a state, without callback and cancellation event: \<open>todo\<close> iterations remain. The lemma
  \<open>retry_state_is_retry\<close> shows that it is the loop of \<^verbatim>\<open>Retry\<close> on the outcomes the operation has.
\<close>

fun retry_state :: "retry_policy \<Rightarrow> (exc \<Rightarrow> bool) \<Rightarrow> ('s \<Rightarrow> exc option \<times> 's) \<Rightarrow> nat \<Rightarrow> nat \<Rightarrow> 's \<Rightarrow> exc option \<times> 's" where
  "retry_state p retryable f 0 n s = (Some (Exc RuntimeError ''Unexpected error in retry logic''), s)"
| "retry_state p retryable f (Suc todo) n s =
     (case f s of
        (None, s1) \<Rightarrow> (None, s1)
      | (Some e, s1) \<Rightarrow>
          if \<not> retryable e \<or> max_retries p \<le> int n then (Some e, s1) else retry_state p retryable f todo (Suc n) s1)"

definition retrying :: "retry_policy \<Rightarrow> (exc \<Rightarrow> bool) \<Rightarrow> ('s \<Rightarrow> exc option \<times> 's) \<Rightarrow> 's \<Rightarrow> exc option \<times> 's" where
  "retrying p retryable f s = retry_state p retryable f (nat (max_retries p + 1)) 0 s"

subsection \<open>The dispatcher\<close>

datatype start_call =
    Connect | Open_channel | Get_exchange string | Get_queue string | Probe | Close_channels | Close_connections
  | Dispose_backend | Cancel_monitor | Await_monitor

record dispatcher = "(start_call, exc option) world" +
  pooled_connection :: bool
  pooled_channel :: bool
  dp_healthy :: bool
  dp_monitor :: bool      \<comment> \<open>the task of the health monitor was started\<close>
  dp_shutdown :: bool     \<comment> \<open>the shutdown event the worker and its dispatcher share\<close>

text \<open>A pool hands out what it holds, or creates and keeps it.\<close>

definition connection_retryable :: "exc \<Rightarrow> bool" where
  "connection_retryable e = (exc_cls e \<in> {AMQPConnectionError, ConnectionError, OSError, TimeoutError})"

definition create_connection :: "retry_policy \<Rightarrow> dispatcher \<Rightarrow> exc option \<times> dispatcher" where
  "create_connection p = retrying p connection_retryable (do_call Connect)"

definition acquire_connection :: "retry_policy \<Rightarrow> dispatcher \<Rightarrow> exc option \<times> dispatcher" where
  "acquire_connection p s =
     (if pooled_connection s then (None, s)
      else (case create_connection p s of
              (Some e, s1) \<Rightarrow> (Some e, s1)
            | (None, s1) \<Rightarrow> (None, s1\<lparr>pooled_connection := True\<rparr>)))"

definition channel_retryable :: "exc \<Rightarrow> bool" where
  "channel_retryable e = (exc_cls e \<in> {AMQPConnectionError, ChannelClosed, ChannelNotFoundEntity, ConnectionError})"

definition establish_channel :: "retry_policy \<Rightarrow> dispatcher \<Rightarrow> exc option \<times> dispatcher" where
  "establish_channel p s =
     (case acquire_connection p s of (Some e, s1) \<Rightarrow> (Some e, s1) | (None, s1) \<Rightarrow> do_call Open_channel s1)"

definition create_channel :: "retry_policy \<Rightarrow> dispatcher \<Rightarrow> exc option \<times> dispatcher" where
  "create_channel p = retrying p channel_retryable (establish_channel p)"

definition acquire_channel :: "retry_policy \<Rightarrow> dispatcher \<Rightarrow> exc option \<times> dispatcher" where
  "acquire_channel p s =
     (if pooled_channel s then (None, s)
      else (case create_channel p s of
              (Some e, s1) \<Rightarrow> (Some e, s1)
            | (None, s1) \<Rightarrow> (None, s1\<lparr>pooled_channel := True\<rparr>)))"

fun do_calls :: "start_call list \<Rightarrow> dispatcher \<Rightarrow> exc option \<times> dispatcher" where
  "do_calls [] s = (None, s)"
| "do_calls (c # cs) s = (case do_call c s of (Some e, s1) \<Rightarrow> (Some e, s1) | (None, s1) \<Rightarrow> do_calls cs s1)"

text \<open>The inner function \<open>_initialize\<close>: the main exchange and the queue of every action must exist.\<close>

definition initialize_once :: "retry_policy \<Rightarrow> string \<Rightarrow> action list \<Rightarrow> dispatcher \<Rightarrow> exc option \<times> dispatcher" where
  "initialize_once p exchange actions s =
     (case acquire_channel p s of
        (Some e, s1) \<Rightarrow> (Some e, s1)
      | (None, s1) \<Rightarrow> do_calls (Get_exchange exchange # map (Get_queue \<circ> act_id) actions) s1)"

text \<open>
  \<open>_is_connection_healthy\<close>: \<open>gone\<close> tells whether the connection is closed; the answer to \<open>Probe\<close> is what opening and closing a test channel
  raises. A reason (here the text of the exception), or \<open>None\<close> for a healthy connection.
\<close>

definition is_healthy :: "retry_policy \<Rightarrow> bool \<Rightarrow> dispatcher \<Rightarrow> string option result \<times> dispatcher" where
  "is_healthy p gone s =
     (case acquire_connection p s of
        (Some e, s1) \<Rightarrow> (if is_Exception e then Inr (Some (exc_str e)) else Inl e, s1)
      | (None, s1) \<Rightarrow>
          (if gone then (Inr (Some ''Connection is closed''), s1)
           else (case do_call Probe s1 of
                   (Some e, s2) \<Rightarrow> (if is_Exception e then Inr (Some (exc_str e)) else Inl e, s2)
                 | (None, s2) \<Rightarrow> (Inr None, s2))))"

definition initialize :: "retry_policy \<Rightarrow> string \<Rightarrow> action list \<Rightarrow> bool \<times> bool \<Rightarrow> dispatcher \<Rightarrow> exc option \<times> dispatcher" where
  "initialize p exchange actions gone s =
     (case retrying p is_amqp (initialize_once p exchange actions) s of
        (Some e, s1) \<Rightarrow> (Some e, s1)
      | (None, s1) \<Rightarrow>
          (case is_healthy p (fst gone) s1 of
             (Inl e, s2) \<Rightarrow> (Some e, s2)
           | (Inr None, s2) \<Rightarrow> (None, s2\<lparr>dp_healthy := True, dp_monitor := True\<rparr>)
           | (Inr (Some r), s2) \<Rightarrow>
               (case is_healthy p (snd gone) s2 of
                  (Inl e, s3) \<Rightarrow> (Some e, s3)
                | (Inr None, s3) \<Rightarrow> (None, s3\<lparr>dp_healthy := True, dp_monitor := True\<rparr>)
                | (Inr (Some r'), s3) \<Rightarrow>
                    (Some (Exc ConnectionError (''Connection not healthy after initialization: '' @ r')), s3))))"

text \<open>\<open>_cleanup_pools\<close>: failures are logged.\<close>

definition cleanup_pools :: "dispatcher \<Rightarrow> exc option \<times> dispatcher" where
  "cleanup_pools s =
     (case do_call Close_channels s of
        (a, s1) \<Rightarrow>
          (case swallow a of
             Some e \<Rightarrow> (Some e, s1)
           | None \<Rightarrow> (case do_call Close_connections s1 of (b, s2) \<Rightarrow> (swallow b, s2))))"

subsection \<open>The monitor\<close>

text \<open>A round of \<open>_monitor_connection_health\<close>: the shutdown event before and after the sleep, what the sleep raises, and what the check says.\<close>

record monitor_round =
  mr_shutdown :: bool
  mr_sleep :: "exc option"
  mr_shutdown_after :: bool
  mr_check :: "string option result"

text \<open>The result is whether the monitor has set the shutdown event, once it ended.\<close>

fun monitor_health :: "monitor_round list \<Rightarrow> bool option" where
  "monitor_health [] = None"
| "monitor_health (r # rs) =
     (if mr_shutdown r then Some False
      else (case mr_sleep r of
              Some e \<Rightarrow> if exc_cls e = CancelledError then Some False else monitor_health rs
            | None \<Rightarrow>
                if mr_shutdown_after r then Some False
                else (case mr_check r of
                        Inr None \<Rightarrow> monitor_health rs
                      | Inr (Some reason) \<Rightarrow> Some True
                      | Inl e \<Rightarrow> if exc_cls e = CancelledError then Some False else monitor_health rs)))"

subsection \<open>The start\<close>

datatype dispatcher_choice = RabbitMQ string

definition get_message_broker_dispatcher_from_url :: "string \<Rightarrow> dispatcher_choice result" where
  "get_message_broker_dispatcher_from_url url =
     (if py_startswith url ''amqp://'' \<or> py_startswith url ''amqps://'' then Inr (RabbitMQ url)
      else Inl (Exc ValueError (''Unsupported message broker URL: '' @ url)))"

definition default_connection_policy :: retry_policy where
  "default_connection_policy = \<lparr>max_retries = 10, initial_delay = 2, max_delay = 60, backoff_factor = 2, jitter = True\<rparr>"

text \<open>
  \<open>start_scheduler\<close>: extract the actions, initialise, wait for the connection, and only then run; \<open>obs\<close> is what the rounds of waiting see.
  \<open>loop\<close> is the processing loop. \<open>run\<close> turns an exception of the start into the exit code 1.
\<close>

definition start_scheduler ::
  "retry_policy \<Rightarrow> rat \<Rightarrow> string \<Rightarrow> string list option \<Rightarrow> action list list \<Rightarrow> bool \<times> bool \<Rightarrow> (nat \<Rightarrow> bool) \<Rightarrow>
   (action list \<Rightarrow> dispatcher \<Rightarrow> exc option \<times> dispatcher) \<Rightarrow> dispatcher \<Rightarrow> exc option \<times> dispatcher" where
  "start_scheduler p max_wait exchange names controllers gone shutdown loop s =
     (let actions = extract_scheduled_actions names controllers
      in case initialize p exchange actions gone s of
           (Some e, s1) \<Rightarrow> (Some e, s1)
         | (None, s1) \<Rightarrow>
             (case wait_for_broker_connection max_wait (\<lambda>i. (dp_healthy s1, shutdown i)) of
                Some e \<Rightarrow> (Some e, s1)
              | None \<Rightarrow> loop actions s1))"

datatype run_end = Run_returned | Run_exit int | Run_raised exc

definition run_end_of :: "exc option \<Rightarrow> run_end" where
  "run_end_of r = (case r of None \<Rightarrow> Run_returned | Some e \<Rightarrow> if is_Exception e then Run_exit 1 else Run_raised e)"

subsection \<open>The loop is the one of the retry module\<close>

definition run_of :: "('s \<Rightarrow> exc option \<times> 's) \<Rightarrow> 's \<Rightarrow> nat \<Rightarrow> (exc, unit) outcome" where
  "run_of f s i = (case fst (f (((\<lambda>s. snd (f s)) ^^ i) s)) of None \<Rightarrow> Returned () | Some e \<Rightarrow> Raised e)"

lemma retry_state_loop:
  assumes "int n + int todo = max_retries p + 1" "0 < todo"
  shows "fst (retry_state p retryable f todo n (((\<lambda>s. snd (f s)) ^^ n) s)) =
      retry_error (snd (retry_loop p retryable (\<lambda>_. False) None rnd (run_of f s) todo n delay prev))
    \<and> snd (retry_state p retryable f todo n (((\<lambda>s. snd (f s)) ^^ n) s)) =
      ((\<lambda>s. snd (f s)) ^^ (n + n_calls (fst (retry_loop p retryable (\<lambda>_. False) None rnd (run_of f s) todo n delay prev)))) s"
  using assms
proof (induction todo arbitrary: n delay prev)
  case (Suc todo)
  let ?s = "((\<lambda>s. snd (f s)) ^^ n) s"
  obtain a s1 where f: "f ?s = (a, s1)" by fastforce
  have r: "run_of f s n = (case a of None \<Rightarrow> Returned () | Some e \<Rightarrow> Raised e)" by (simp add: run_of_def f)
  have s1: "((\<lambda>s. snd (f s)) ^^ Suc n) s = s1" by (simp add: f)
  show ?case
  proof (cases "a = None \<or> \<not> retryable (the a) \<or> max_retries p \<le> int n")
    case True
    then show ?thesis using r by (cases a) (auto simp: f retry_loop.simps)
  next
    case False
    then obtain e where e: "a = Some e" "retryable e" "\<not> max_retries p \<le> int n" by auto
    then have "0 < todo" "int (Suc n) + int todo = max_retries p + 1" using Suc.prems by auto
    from Suc.IH [OF this(2,1), of "next_delay p n (rnd n) delay" "Some e"] show ?thesis
      using r e by (simp add: s1 f retry_loop.simps Let_def split_beta del: funpow.simps)
  qed
qed simp

text \<open>The operation of this theory and \<open>with_retry\<close> agree on the result, and the state is the one after as many runs as the loop made.\<close>

lemma retrying_is_with_retry:
  assumes "0 \<le> max_retries p"
  shows "fst (retrying p retryable f s) = retry_error (snd (with_retry p retryable rnd (run_of f s)))
    \<and> snd (retrying p retryable f s) = ((\<lambda>s. snd (f s)) ^^ n_calls (fst (with_retry p retryable rnd (run_of f s)))) s"
  using retry_state_loop [of 0 "nat (max_retries p + 1)" p retryable f s rnd "initial_delay p" None] assms
  by (simp add: retrying_def with_retry_def retry_with_backoff_def)

subsection \<open>How often the broker is contacted\<close>

lemma retry_state_adds:
  assumes "\<And>s. length (filter P (calls (snd (f s)))) \<le> length (filter P (calls s)) + c"
  shows "length (filter P (calls (snd (retry_state p retryable f todo n s)))) \<le> length (filter P (calls s)) + todo * c"
proof (induction todo arbitrary: n s)
  case (Suc todo)
  obtain a s1 where f: "f s = (a, s1)" by fastforce
  have "length (filter P (calls s1)) \<le> length (filter P (calls s)) + c" using assms [of s] f by simp
  then show ?case using Suc [of "Suc n" s1] f by (auto split: option.splits)
qed simp

abbreviation contacts :: "dispatcher \<Rightarrow> nat" where
  "contacts s \<equiv> length (filter ((=) Connect) (calls s))"

abbreviation attempts :: "retry_policy \<Rightarrow> nat" where
  "attempts p \<equiv> nat (max_retries p + 1)"

lemma contacts_call [simp]: "contacts (snd (do_call c s)) = contacts s + (if c = Connect then 1 else 0)"
  by (simp add: do_call_def)

lemma contacts_do_calls: "Connect \<notin> set cs \<Longrightarrow> contacts (snd (do_calls cs s)) = contacts s"
proof (induction cs arbitrary: s)
  case (Cons c cs)
  obtain a s1 where f: "do_call c s = (a, s1)" by fastforce
  then have "contacts s1 = contacts s" using contacts_call [of c s] Cons.prems by auto
  then show ?case using Cons f by (auto split: option.splits)
qed simp

lemma contacts_connection: "contacts (snd (acquire_connection p s)) \<le> contacts s + attempts p"
proof -
  have "contacts (snd (create_connection p s)) \<le> contacts s + attempts p * 1"
    unfolding create_connection_def retrying_def by (rule retry_state_adds) simp
  then show ?thesis by (auto simp: acquire_connection_def split: prod.splits option.splits)
qed

lemma contacts_establish: "contacts (snd (establish_channel p s)) \<le> contacts s + attempts p"
  using contacts_connection [of p s] contacts_call [of Open_channel]
  by (auto simp: establish_channel_def split: prod.splits option.splits)

lemma contacts_channel: "contacts (snd (acquire_channel p s)) \<le> contacts s + attempts p * attempts p"
proof -
  have "contacts (snd (create_channel p s)) \<le> contacts s + attempts p * attempts p"
    unfolding create_channel_def retrying_def by (rule retry_state_adds) (rule contacts_establish)
  then show ?thesis by (auto simp: acquire_channel_def split: prod.splits option.splits)
qed

lemma contacts_once: "contacts (snd (initialize_once p ex as s)) \<le> contacts s + attempts p * attempts p"
proof -
  obtain a s1 where c: "acquire_channel p s = (a, s1)" by fastforce
  have "contacts (snd (do_calls (Get_exchange ex # map (Get_queue \<circ> act_id) as) s1)) = contacts s1"
    by (rule contacts_do_calls) auto
  then show ?thesis using contacts_channel [of p s] c by (auto simp: initialize_once_def split: option.splits simp del: do_calls.simps)
qed

lemma contacts_healthy: "contacts (snd (is_healthy p gone s)) \<le> contacts s + attempts p"
proof -
  obtain a s1 where c: "acquire_connection p s = (a, s1)" by fastforce
  then have "contacts s1 \<le> contacts s + attempts p" using contacts_connection [of p s] by simp
  moreover have "contacts (snd (do_call Probe s1)) = contacts s1" by simp
  ultimately show ?thesis using c by (auto simp: is_healthy_def do_call_def split: option.splits)
qed

text \<open>An operation that always fails in the same retryable way is run as often as the policy allows.\<close>

lemma retry_state_failing:
  assumes "\<And>s. P s \<Longrightarrow> f s = (Some e, g s) \<and> P (g s)" "retryable e" "P s" "int n + int todo = max_retries p + 1" "0 < todo"
  shows "retry_state p retryable f todo n s = (Some e, (g ^^ todo) s)"
  using assms(3-)
proof (induction todo arbitrary: n s)
  case (Suc todo)
  then show ?case using assms(1,2) by (cases "todo = 0") (auto simp: funpow_swap1)
qed simp

lemma retrying_failing:
  assumes "\<And>s. P s \<Longrightarrow> f s = (Some e, g s) \<and> P (g s)" "retryable e" "P s" "0 \<le> max_retries p"
  shows "retrying p retryable f s = (Some e, (g ^^ attempts p) s)"
  unfolding retrying_def using assms by (intro retry_state_failing [where P = P]) auto

definition more_contacts :: "nat \<Rightarrow> dispatcher \<Rightarrow> dispatcher" where
  "more_contacts k s = s\<lparr>calls := calls s @ replicate k Connect\<rparr>"

lemma more_contacts_funpow: "(more_contacts k ^^ n) s = more_contacts (n * k) s"
  by (induction n) (simp_all add: more_contacts_def replicate_add [symmetric] add.commute)

definition unreachable :: "exc \<Rightarrow> dispatcher \<Rightarrow> bool" where
  "unreachable e s = ((\<forall>i. answers s i = Some e) \<and> \<not> pooled_connection s \<and> \<not> pooled_channel s)"

lemma unreachable_more [simp]: "unreachable e (more_contacts k s) = unreachable e s"
  by (simp add: unreachable_def more_contacts_def)

lemma unreachable_contacts:
  assumes e: "exc_cls e = AMQPConnectionError" and p: "0 \<le> max_retries p" and s: "unreachable e s"
  shows "acquire_connection p s = (Some e, more_contacts (attempts p) s)"
    and "acquire_channel p s = (Some e, more_contacts (attempts p * attempts p) s)"
    and "retrying p is_amqp (initialize_once p ex as) s = (Some e, more_contacts (attempts p * (attempts p * attempts p)) s)"
proof -
  have conn: "acquire_connection p t = (Some e, more_contacts (attempts p) t)" if "unreachable e t" for t
  proof -
    have "create_connection p t = (Some e, (more_contacts 1 ^^ attempts p) t)"
      unfolding create_connection_def using that e p
      by (intro retrying_failing [where P = "unreachable e"])
        (auto simp: connection_retryable_def do_call_def unreachable_def more_contacts_def)
    then show ?thesis using that by (simp add: acquire_connection_def unreachable_def more_contacts_funpow)
  qed
  have chan: "acquire_channel p t = (Some e, more_contacts (attempts p * attempts p) t)" if "unreachable e t" for t
  proof -
    have "create_channel p t = (Some e, (more_contacts (attempts p) ^^ attempts p) t)"
      unfolding create_channel_def using that e p
      by (intro retrying_failing [where P = "unreachable e"]) (auto simp: channel_retryable_def establish_channel_def conn)
    then show ?thesis using that by (simp add: acquire_channel_def unreachable_def more_contacts_funpow)
  qed
  show "acquire_connection p s = (Some e, more_contacts (attempts p) s)" "acquire_channel p s = (Some e, more_contacts (attempts p * attempts p) s)"
    using s by (rule conn, rule chan)
  have "retrying p is_amqp (initialize_once p ex as) s = (Some e, (more_contacts (attempts p * attempts p) ^^ attempts p) s)"
    using s e p by (intro retrying_failing [where P = "unreachable e"]) (auto simp: is_amqp_def initialize_once_def chan)
  then show "retrying p is_amqp (initialize_once p ex as) s = (Some e, more_contacts (attempts p * (attempts p * attempts p)) s)"
    by (simp add: more_contacts_funpow)
qed

subsection \<open>Properties\<close>

text \<open>
  Starting contacts the broker a bounded number of times, but the three nested retries multiply: with \<open>k = max_retries + 1\<close> a broker that
  cannot be reached is contacted exactly \<open>k\<close> to the third power times before \<open>initialize\<close> raises its error (1331 times with the default
  policy of ten retries), and no start makes more than that many attempts, the health checks apart.
\<close>

theorem connection_attempts_multiply:
  assumes "0 \<le> max_retries p"
  shows "contacts (snd (initialize p ex as gone s)) \<le> contacts s + attempts p ^ 3 + 2 * attempts p
    \<and> (exc_cls e = AMQPConnectionError \<and> unreachable e s \<longrightarrow>
        initialize p ex as gone s = (Some e, s\<lparr>calls := calls s @ replicate (attempts p ^ 3) Connect\<rparr>))"
proof
  obtain a s1 where r: "retrying p is_amqp (initialize_once p ex as) s = (a, s1)" by fastforce
  have "contacts (snd (retrying p is_amqp (initialize_once p ex as) s)) \<le> contacts s + attempts p * (attempts p * attempts p)"
    unfolding retrying_def by (rule retry_state_adds) (rule contacts_once)
  then have 1: "contacts s1 \<le> contacts s + attempts p ^ 3" by (simp add: r power3_eq_cube mult.assoc)
  obtain b s2 where h: "is_healthy p (fst gone) s1 = (b, s2)" by fastforce
  obtain c s3 where h2: "is_healthy p (snd gone) s2 = (c, s3)" by fastforce
  have "contacts s2 \<le> contacts s1 + attempts p" "contacts s3 \<le> contacts s2 + attempts p"
    using contacts_healthy [of p "fst gone" s1] contacts_healthy [of p "snd gone" s2] h h2 by simp_all
  then show "contacts (snd (initialize p ex as gone s)) \<le> contacts s + attempts p ^ 3 + 2 * attempts p"
    using 1 by (auto simp: initialize_def r h h2 split: option.splits sum.splits)
  show "exc_cls e = AMQPConnectionError \<and> unreachable e s \<longrightarrow>
        initialize p ex as gone s = (Some e, s\<lparr>calls := calls s @ replicate (attempts p ^ 3) Connect\<rparr>)"
    using unreachable_contacts(3) [OF _ assms] by (auto simp: initialize_def more_contacts_def power3_eq_cube mult.assoc)
qed

definition broker_down :: dispatcher where
  "broker_down = \<lparr>calls = [], answers = (\<lambda>i. Some (Exc AMQPConnectionError ''refused'')), pooled_connection = False, pooled_channel = False,
     dp_healthy = False, dp_monitor = False, dp_shutdown = False\<rparr>"

theorem connection_attempts_multiply_witness:
  "contacts (snd (initialize default_connection_policy ''app'' [] (False, False) broker_down)) = 1331"
proof -
  have "attempts default_connection_policy ^ 3 = 1331" by code_simp
  moreover have "unreachable (Exc AMQPConnectionError ''refused'') broker_down" by (simp add: unreachable_def broker_down_def)
  ultimately show ?thesis
    using connection_attempts_multiply [of default_connection_policy "''app''" "[]" "(False, False)" broker_down "Exc AMQPConnectionError ''refused''"]
    by (simp add: default_connection_policy_def broker_down_def)
qed

text \<open>A call that was made and answered without an exception.\<close>

definition answered :: "dispatcher \<Rightarrow> start_call \<Rightarrow> bool" where
  "answered s c = (\<exists>i < length (calls s). calls s ! i = c \<and> answers s i = None)"

definition extends :: "dispatcher \<Rightarrow> dispatcher \<Rightarrow> bool" where
  "extends s s' = (answers s' = answers s \<and> (\<exists>cs. calls s' = calls s @ cs))"

lemma extends_answered: "extends s s' \<Longrightarrow> answered s c \<Longrightarrow> answered s' c"
  by (auto simp: extends_def answered_def nth_append)

lemma extends_trans: "extends s s' \<Longrightarrow> extends s' s'' \<Longrightarrow> extends s s''"
  by (auto simp: extends_def)

lemma extends_call: "extends s (snd (do_call c s))" "do_call c s = (None, s') \<Longrightarrow> answered s' c"
  by (auto simp: extends_def do_call_def answered_def)

lemma extends_retry_state: "(\<And>s. extends s (snd (f s))) \<Longrightarrow> extends s (snd (retry_state p retryable f todo n s))"
proof (induction todo arbitrary: n s)
  case (Suc todo)
  obtain a s1 where f: "f s = (a, s1)" by fastforce
  have 1: "extends s s1" using Suc.prems [of s] f by simp
  have 2: "extends s1 (snd (retry_state p retryable f todo (Suc n) s1))" by (rule Suc.IH) (rule Suc.prems)
  show ?case using 1 extends_trans [OF 1 2] f by (cases a) simp_all
qed (simp add: extends_def)

lemma extends_connection: "extends s (snd (acquire_connection p s))"
proof -
  have "extends s (snd (create_connection p s))"
    unfolding create_connection_def retrying_def by (rule extends_retry_state) (rule extends_call)
  moreover have "extends s s" by (simp add: extends_def)
  ultimately show ?thesis by (auto simp: acquire_connection_def extends_def split: prod.splits option.splits)
qed

lemma extends_healthy: "extends s (snd (is_healthy p gone s))"
proof -
  obtain a s1 where c: "acquire_connection p s = (a, s1)" by fastforce
  then have 1: "extends s s1" using extends_connection [of s p] by simp
  obtain b s2 where d: "do_call Probe s1 = (b, s2)" by fastforce
  then have "extends s1 s2" using extends_call(1) [of s1 Probe] by simp
  from extends_trans [OF 1 this] 1 show ?thesis using c d by (cases a; cases b) (simp_all add: is_healthy_def)
qed

lemma healthy_probed: "is_healthy p gone s = (Inr None, s') \<Longrightarrow> \<not> gone \<and> (\<exists>cs. calls s' = cs @ [Probe]) \<and> answered s' Probe"
proof -
  assume h: "is_healthy p gone s = (Inr None, s')"
  obtain a s1 where c: "acquire_connection p s = (a, s1)" by fastforce
  obtain b s2 where d: "do_call Probe s1 = (b, s2)" by fastforce
  have "a = None" "\<not> gone" "b = None" "s' = s2" using h c d by (cases a; cases b; cases gone; simp add: is_healthy_def split: if_splits)+
  then show ?thesis using d by (auto simp: do_call_def answered_def)
qed

lemma do_calls_answered: "do_calls cs s = (None, s') \<Longrightarrow> extends s s' \<and> (\<forall>c \<in> set cs. answered s' c)"
proof (induction cs arbitrary: s)
  case (Cons c cs)
  obtain s1 where s1: "do_call c s = (None, s1)" "do_calls cs s1 = (None, s')"
    using Cons.prems by (auto split: prod.splits option.splits)
  then have "extends s s1" "answered s1 c" using extends_call(1) [where c = c and s = s] extends_call(2) by auto
  moreover note IH = Cons.IH [OF s1(2)]
  ultimately show ?case using extends_trans [of s s1 s'] extends_answered [of s1 s' c] by simp
qed (simp add: extends_def)

lemma retry_state_success: "retry_state p retryable f todo n s = (None, s') \<Longrightarrow> \<exists>s0. f s0 = (None, s')"
  by (induction todo arbitrary: n s) (auto split: prod.splits option.splits if_splits)

text \<open>
  The processing loop starts only on a broker that was checked: after a successful \<open>initialize\<close> the main exchange and the queue of every
  scheduled action were found, the last thing done was to open a test channel, and the connection is marked healthy and monitored.
\<close>

theorem start_requires_checked_broker:
  assumes "initialize p ex as gone s = (None, s')"
  shows "answered s' (Get_exchange ex) \<and> (\<forall>a \<in> set as. answered s' (Get_queue (act_id a)))
    \<and> (\<exists>cs. calls s' = cs @ [Probe]) \<and> answered s' Probe \<and> dp_healthy s' \<and> dp_monitor s'"
proof -
  obtain o1 s1 where r': "retrying p is_amqp (initialize_once p ex as) s = (o1, s1)" by fastforce
  then have "o1 = None" using assms by (cases o1) (simp_all add: initialize_def)
  then have r: "retrying p is_amqp (initialize_once p ex as) s = (None, s1)" using r' by simp
  obtain s0 where "initialize_once p ex as s0 = (None, s1)"
    using retry_state_success [OF r [unfolded retrying_def]] by (elim exE)
  then obtain t0 where "do_calls (Get_exchange ex # map (Get_queue \<circ> act_id) as) t0 = (None, s1)"
    by (auto simp: initialize_once_def split: prod.splits option.splits simp del: do_calls.simps)
  from do_calls_answered [OF this]
  have a1: "\<forall>c \<in> set (Get_exchange ex # map (Get_queue \<circ> act_id) as). answered s1 c" by (rule conjunct2)
  obtain b s2 where h: "is_healthy p (fst gone) s1 = (b, s2)" by fastforce
  obtain c s3 where h2: "is_healthy p (snd gone) s2 = (c, s3)" by fastforce
  have x: "extends s1 s2" "extends s2 s3" using extends_healthy [of s1 p "fst gone"] extends_healthy [of s2 p "snd gone"] h h2 by simp_all
  have "(b = Inr None \<and> s' = s2\<lparr>dp_healthy := True, dp_monitor := True\<rparr>) \<or> (c = Inr None \<and> s' = s3\<lparr>dp_healthy := True, dp_monitor := True\<rparr>)"
  proof (cases b)
    case (Inr x)
    then show ?thesis using assms by (cases x; cases c) (auto simp: initialize_def r h h2 split: option.splits)
  qed (use assms in \<open>simp add: initialize_def r h\<close>)
  then obtain t where t: "s' = t\<lparr>dp_healthy := True, dp_monitor := True\<rparr>" "extends s1 t" "\<exists>cs. calls t = cs @ [Probe]" "answered t Probe"
  proof (elim disjE conjE)
    assume b: "b = Inr None" and s': "s' = s2\<lparr>dp_healthy := True, dp_monitor := True\<rparr>"
    show thesis using healthy_probed [OF h [unfolded b]] x(1) by (intro that [OF s']) auto
  next
    assume c: "c = Inr None" and s': "s' = s3\<lparr>dp_healthy := True, dp_monitor := True\<rparr>"
    show thesis using healthy_probed [OF h2 [unfolded c]] extends_trans [OF x] by (intro that [OF s']) auto
  qed
  have "answered s' = answered t" by (simp add: t(1) answered_def fun_eq_iff)
  then show ?thesis using t a1 extends_answered [OF t(2)] by auto
qed

theorem start_requires_checked_broker_witness:
  "answered (snd (initialize default_connection_policy ''app'' [\<lparr>act_id = ''job'', act_cron = [], act_allow_overlap = False, act_name = None\<rparr>]
     (False, False) (broker_down\<lparr>answers := (\<lambda>i. None)\<rparr>))) (Get_queue ''job'')"
proof -
  have "fst (initialize default_connection_policy ''app'' [\<lparr>act_id = ''job'', act_cron = [], act_allow_overlap = False, act_name = None\<rparr>]
      (False, False) (broker_down\<lparr>answers := (\<lambda>i. None)\<rparr>)) = None"
    by code_simp
  then have "initialize default_connection_policy ''app'' [\<lparr>act_id = ''job'', act_cron = [], act_allow_overlap = False, act_name = None\<rparr>]
      (False, False) (broker_down\<lparr>answers := (\<lambda>i. None)\<rparr>) =
    (None, snd (initialize default_connection_policy ''app'' [\<lparr>act_id = ''job'', act_cron = [], act_allow_overlap = False, act_name = None\<rparr>]
      (False, False) (broker_down\<lparr>answers := (\<lambda>i. None)\<rparr>)))"
    by (metis prod.collapse)
  from start_requires_checked_broker [OF this] show ?thesis by simp
qed

text \<open>The monitor sets the shutdown event exactly when a check in a round it reaches reports a reason.\<close>

definition healthy_round :: "monitor_round \<Rightarrow> bool" where
  "healthy_round r = (\<not> mr_shutdown r \<and> mr_sleep r = None \<and> \<not> mr_shutdown_after r \<and> mr_check r = Inr None)"

lemma monitor_stops_on_failed_check:
  "list_all healthy_round ok \<Longrightarrow> healthy_round (r\<lparr>mr_check := Inr None\<rparr>) \<Longrightarrow> mr_check r = Inr (Some reason) \<Longrightarrow>
   monitor_health (ok @ r # rest) = Some True"
  by (induction ok) (simp_all add: healthy_round_def)

lemma monitor_shutdown_reason: "monitor_health rs = Some True \<Longrightarrow> \<exists>r reason. r \<in> set rs \<and> mr_check r = Inr (Some reason)"
proof (induction rs)
  case (Cons r rs)
  show ?case
  proof (cases "\<exists>reason. mr_check r = Inr (Some reason)")
    case False
    then have "monitor_health rs = Some True" using Cons.prems by (auto split: if_splits option.splits sum.splits)
    then show ?thesis using Cons.IH by auto
  qed auto
qed simp

end
