(* ===== verification/Websocket_Consumers.thy ===== *)
theory Websocket_Consumers
  imports Websockets
begin

section \<open>The tasks of the Redis WebSocket backend\<close>

text \<open>
  \<open>RedisWebSocketConnectionBackend\<close> of \<^verbatim>\<open>presentation/websocket/redis.py\<close> as a state machine of
  asyncio tasks: the two consumers and how they are restarted, the delivery tasks they start under a semaphore, the set
  \<open>tasks\<close> that is changed only under \<open>lock\<close>, and \<open>shutdown\<close>, which holds that lock while it waits for
  the tasks. An event is what the loop runs next; an event that is not enabled in a state has no successor. The users of the lock
  wait in one queue, in the order in which they asked; only \<open>shutdown\<close> keeps the lock across an await.
\<close>

subsection \<open>The state\<close>

datatype channel = SendChannel | BroadcastChannel

datatype delivery = SendTo "string list" string | BroadcastOf string

text \<open>Where a consumer is: in ping and subscribe, in \<open>get_message\<close>, waiting for the semaphore, waiting for the lock with a permit.\<close>

datatype phase = Connecting | Polling | WaitSlot delivery | WaitLock delivery

datatype lock_user = AddTask nat | DiscardTask nat | CreateDelivery nat delivery | ShutdownCall

record ws_backend =
  configured :: bool
  event_set :: bool
  slots :: nat
  tracked :: "nat list"
  consumers :: "(nat \<times> channel \<times> phase) list"
  deliveries :: "(nat \<times> delivery) list"
  retriers :: "channel list"
  lock_queue :: "lock_user list"
  next_id :: nat
  gathering :: "nat list option"
  redis_closed :: bool

definition new_backend :: "nat \<Rightarrow> ws_backend" where
  "new_backend max_concurrent_tasks =
     \<lparr>configured = False, event_set = False, slots = max_concurrent_tasks, tracked = [], consumers = [], deliveries = [],
      retriers = [], lock_queue = [], next_id = 0, gathering = None, redis_closed = False\<rparr>"

subsection \<open>Operations\<close>

text \<open>\<open>broadcast\<close> and \<open>send\<close>: one publish; an error is logged and raised again.\<close>

definition backend_broadcast :: "string \<Rightarrow> string \<Rightarrow> (string \<times> string, exc option, 'z) world_scheme \<Rightarrow>
    exc option \<times> (string \<times> string, exc option, 'z) world_scheme" where
  "backend_broadcast pubsub_channel message w = do_call (pubsub_channel, broadcast_encode message) w"

definition backend_send :: "string \<Rightarrow> string list \<Rightarrow> string \<Rightarrow> (string \<times> string, exc option, 'z) world_scheme \<Rightarrow>
    exc option \<times> (string \<times> string, exc option, 'z) world_scheme" where
  "backend_send pubsub_channel rs message w = do_call (pubsub_channel, send_encode rs message) w"

text \<open>The properties \<open>shutdown_event\<close>, \<open>send_func\<close> and \<open>broadcast_func\<close>.\<close>

definition require_configured :: "ws_backend \<Rightarrow> exc option" where
  "require_configured s =
     (if configured s then None
      else Some (Exc RuntimeError ''not set. Please configure the backend before using it.''))"

text \<open>\<open>setup_send_consumer\<close> and \<open>setup_broadcast_consumer\<close>\<close>

definition setup_consumer :: "channel \<Rightarrow> ws_backend \<Rightarrow> ws_backend" where
  "setup_consumer ch s =
     s\<lparr>consumers := consumers s @ [(next_id s, ch, Connecting)], lock_queue := lock_queue s @ [AddTask (next_id s)],
       next_id := Suc (next_id s)\<rparr>"

definition configure :: "ws_backend \<Rightarrow> ws_backend result" where
  "configure s =
     (if configured s then Inl (Exc RuntimeError ''Backend is already configured.'')
      else Inr (setup_consumer BroadcastChannel (setup_consumer SendChannel (s\<lparr>configured := True\<rparr>))))"

text \<open>\<open>handle_send_task_done\<close> and \<open>handle_broadcast_task_done\<close>\<close>

definition handle_task_done :: "nat \<Rightarrow> channel \<Rightarrow> ws_backend \<Rightarrow> ws_backend" where
  "handle_task_done c ch s =
     s\<lparr>lock_queue := lock_queue s @ [DiscardTask c],
       retriers := (if event_set s then retriers s else retriers s @ [ch])\<rparr>"

definition consumer_ends :: "nat \<Rightarrow> channel \<Rightarrow> ws_backend \<Rightarrow> ws_backend" where
  "consumer_ends c ch s = handle_task_done c ch (s\<lparr>consumers := filter (\<lambda>x. fst x \<noteq> c) (consumers s)\<rparr>)"

definition set_phase :: "nat \<Rightarrow> phase \<Rightarrow> ws_backend \<Rightarrow> ws_backend" where
  "set_phase c ph s = s\<lparr>consumers := map (\<lambda>(d, ch, q). (d, ch, if d = c then ph else q)) (consumers s)\<rparr>"

text \<open>\<open>_retry_send_consumer_with_delay\<close> and \<open>_retry_broadcast_consumer_with_delay\<close>, after the sleep\<close>

definition retry_consumer :: "channel \<Rightarrow> ws_backend \<Rightarrow> ws_backend" where
  "retry_consumer ch s =
     (let s' = s\<lparr>retriers := remove1 ch (retriers s)\<rparr> in if event_set s then s' else setup_consumer ch s')"

text \<open>The test of the \<open>while\<close> loop of \<open>consume_send\<close> and \<open>consume_broadcast\<close>\<close>

definition next_turn :: "nat \<Rightarrow> channel \<Rightarrow> ws_backend \<Rightarrow> ws_backend" where
  "next_turn c ch s = (if event_set s then consumer_ends c ch s else set_phase c Polling s)"

definition decode :: "channel \<Rightarrow> string \<Rightarrow> delivery result" where
  "decode ch data =
     (case ch of
        SendChannel \<Rightarrow> (case send_decode data of Inl e \<Rightarrow> Inl e | Inr (rs, m) \<Rightarrow> Inr (SendTo rs m))
      | BroadcastChannel \<Rightarrow> Inr (BroadcastOf (broadcast_decode data)))"

definition take_slot :: "nat \<Rightarrow> delivery \<Rightarrow> ws_backend \<Rightarrow> ws_backend" where
  "take_slot c d s = set_phase c (WaitLock d) (s\<lparr>slots := slots s - 1, lock_queue := lock_queue s @ [CreateDelivery c d]\<rparr>)"

text \<open>What \<open>get_message\<close> answered: an error, nothing within the timeout, or data.\<close>

definition received :: "nat \<Rightarrow> channel \<Rightarrow> string option result \<Rightarrow> ws_backend \<Rightarrow> ws_backend" where
  "received c ch answer s =
     (case answer of
        Inl e \<Rightarrow> consumer_ends c ch s
      | Inr None \<Rightarrow> next_turn c ch s
      | Inr (Some data) \<Rightarrow>
          (case decode ch data of
             Inl e \<Rightarrow> consumer_ends c ch s
           | Inr d \<Rightarrow> if slots s = 0 then set_phase c (WaitSlot d) s else take_slot c d s))"

text \<open>A consumer that got the lock: the delivery task is created and tracked, then the loop goes on.\<close>

definition create_delivery :: "nat \<Rightarrow> channel \<Rightarrow> delivery \<Rightarrow> ws_backend \<Rightarrow> ws_backend" where
  "create_delivery c ch d s =
     next_turn c ch
       (s\<lparr>deliveries := deliveries s @ [(next_id s, d)], tracked := set_add (next_id s) (tracked s),
          next_id := Suc (next_id s)\<rparr>)"

fun lock_turn :: "lock_user \<Rightarrow> ws_backend \<Rightarrow> ws_backend" where
  "lock_turn (AddTask t) s = s\<lparr>tracked := set_add t (tracked s)\<rparr>"
| "lock_turn (DiscardTask t) s = s\<lparr>tracked := discard t (tracked s)\<rparr>"
| "lock_turn (CreateDelivery c d) s =
     (case map_of (consumers s) c of None \<Rightarrow> s | Some (ch, ph) \<Rightarrow> create_delivery c ch d s)"
| "lock_turn ShutdownCall s = s\<lparr>gathering := Some (tracked s)\<rparr>"

text \<open>The \<open>finally\<close> of \<open>send_with_cleanup\<close> and the done callback of the task\<close>

definition delivery_ends :: "nat \<Rightarrow> ws_backend \<Rightarrow> ws_backend" where
  "delivery_ends t s =
     s\<lparr>deliveries := filter (\<lambda>x. fst x \<noteq> t) (deliveries s), slots := Suc (slots s), tracked := discard t (tracked s)\<rparr>"

definition live_tasks :: "ws_backend \<Rightarrow> nat list" where
  "live_tasks s = map fst (consumers s) @ map fst (deliveries s)"

text \<open>
  A cancelled consumer leaves the queue of the lock; its permit is not given back, since the cancellation is no
  \<^verbatim>\<open>Exception\<close>.
\<close>

definition cancel_consumer :: "nat \<Rightarrow> channel \<Rightarrow> ws_backend \<Rightarrow> ws_backend" where
  "cancel_consumer c ch s =
     consumer_ends c ch
       (s\<lparr>lock_queue := filter (\<lambda>u. case u of CreateDelivery c' d \<Rightarrow> c' \<noteq> c | _ \<Rightarrow> True) (lock_queue s)\<rparr>)"

datatype ws_event =
    Connected nat "exc option"
  | Received nat "string option result"
  | SlotGranted nat
  | LockGranted
  | DeliveryEnds nat
  | RetryElapsed channel
  | SetEvent
  | CallShutdown
  | Gathered
  | Cancelled nat

fun ws_step :: "ws_event \<Rightarrow> ws_backend \<Rightarrow> ws_backend option" where
  "ws_step (Connected c answer) s =
     (case map_of (consumers s) c of
        Some (ch, Connecting) \<Rightarrow> Some (if answer = None then next_turn c ch s else consumer_ends c ch s)
      | _ \<Rightarrow> None)"
| "ws_step (Received c answer) s =
     (case map_of (consumers s) c of Some (ch, Polling) \<Rightarrow> Some (received c ch answer s) | _ \<Rightarrow> None)"
| "ws_step (SlotGranted c) s =
     (case map_of (consumers s) c of
        Some (ch, WaitSlot d) \<Rightarrow> if slots s = 0 then None else Some (take_slot c d s)
      | _ \<Rightarrow> None)"
| "ws_step LockGranted s =
     (case (gathering s, lock_queue s) of
        (None, u # us) \<Rightarrow> Some (lock_turn u (s\<lparr>lock_queue := us\<rparr>))
      | _ \<Rightarrow> None)"
| "ws_step (DeliveryEnds t) s = (if t \<in> fst ` set (deliveries s) then Some (delivery_ends t s) else None)"
| "ws_step (RetryElapsed ch) s = (if ch \<in> set (retriers s) then Some (retry_consumer ch s) else None)"
| "ws_step SetEvent s = Some (s\<lparr>event_set := True\<rparr>)"
| "ws_step CallShutdown s = Some (s\<lparr>lock_queue := lock_queue s @ [ShutdownCall]\<rparr>)"
| "ws_step Gathered s =
     (case gathering s of
        Some ts \<Rightarrow>
          if list_all (\<lambda>t. t \<notin> set (live_tasks s)) ts then Some (s\<lparr>gathering := None, redis_closed := True\<rparr>) else None
      | None \<Rightarrow> None)"
| "ws_step (Cancelled c) s =
     (case map_of (consumers s) c of Some (ch, ph) \<Rightarrow> Some (cancel_consumer c ch s) | None \<Rightarrow> None)"

fun ws_run :: "ws_event list \<Rightarrow> ws_backend \<Rightarrow> ws_backend option" where
  "ws_run [] s = Some s"
| "ws_run (e # es) s = (case ws_step e s of None \<Rightarrow> None | Some s' \<Rightarrow> ws_run es s')"

definition ws_start :: "nat \<Rightarrow> ws_backend" where
  "ws_start limit = projr (configure (new_backend limit))"


subsection \<open>Lemmas on the primitives\<close>

lemma map_of_set_phase:
  "map_of (consumers (set_phase c ph s)) d =
     map_option (\<lambda>(ch, q). (ch, if d = c then ph else q)) (map_of (consumers s) d)"
proof -
  have "map_of (map (\<lambda>(d, ch, q). (d, ch, if d = c then ph else q)) xs) d =
      map_option (\<lambda>(ch, q). (ch, if d = c then ph else q)) (map_of xs d)" for xs :: "(nat \<times> channel \<times> phase) list"
    by (induction xs) auto
  then show ?thesis by (simp add: set_phase_def)
qed

lemma set_phase_keeps [simp]:
  "deliveries (set_phase c ph s) = deliveries s" "lock_queue (set_phase c ph s) = lock_queue s"
  "slots (set_phase c ph s) = slots s" "tracked (set_phase c ph s) = tracked s" "next_id (set_phase c ph s) = next_id s"
  "retriers (set_phase c ph s) = retriers s" "event_set (set_phase c ph s) = event_set s"
  "gathering (set_phase c ph s) = gathering s" "redis_closed (set_phase c ph s) = redis_closed s"
  "map fst (consumers (set_phase c ph s)) = map fst (consumers s)"
  "live_tasks (set_phase c ph s) = live_tasks s"
  "map (fst \<circ> snd) (consumers (set_phase c ph s)) = map (fst \<circ> snd) (consumers s)"
  by (auto simp: set_phase_def live_tasks_def)

lemma map_of_without: "map_of (filter (\<lambda>x. fst x \<noteq> c) xs) d = (if d = c then None else map_of xs d)"
  by (induction xs) auto

lemma map_fst_without: "map fst (filter (\<lambda>x. fst x \<noteq> c) xs) = filter (\<lambda>k. k \<noteq> c) (map fst xs)"
  by (induction xs) auto

lemmas task_defs = next_turn_def consumer_ends_def handle_task_done_def take_slot_def received_def create_delivery_def
  delivery_ends_def retry_consumer_def setup_consumer_def cancel_consumer_def

interpretation ws: machine ws_step ws_run
  by unfold_locales simp_all

subsection \<open>Permits\<close>

text \<open>The consumers that wait for the lock with a permit, in the order of the queue.\<close>

fun creates :: "lock_user list \<Rightarrow> (nat \<times> delivery) list" where
  "creates [] = []"
| "creates (CreateDelivery c d # q) = (c, d) # creates q"
| "creates (u # q) = creates q"

lemma creates_append [simp]: "creates (q @ r) = creates q @ creates r"
  by (induction q rule: creates.induct) simp_all

lemma creates_without:
  "creates (filter (\<lambda>u. case u of CreateDelivery c' d \<Rightarrow> c' \<noteq> c | _ \<Rightarrow> True) q) = filter (\<lambda>x. fst x \<noteq> c) (creates q)"
  by (induction q rule: creates.induct) simp_all

text \<open>What a step does: the kinds of steps every invariant is checked for.\<close>

lemma ws_step_cases [consumes 1, case_names ends polls waits takes locked delivered retries sets calls gathered cancels]:
  assumes "ws_step e s = Some s'"
  obtains (ends) c ch ph where "map_of (consumers s) c = Some (ch, ph)" "ph = Connecting \<or> ph = Polling"
      "s' = consumer_ends c ch s"
    | (polls) c ch ph where "map_of (consumers s) c = Some (ch, ph)" "ph = Connecting \<or> ph = Polling" "\<not> event_set s"
      "s' = set_phase c Polling s"
    | (waits) c ch d where "map_of (consumers s) c = Some (ch, Polling)" "s' = set_phase c (WaitSlot d) s"
    | (takes) c ch ph d where "map_of (consumers s) c = Some (ch, ph)" "ph = Polling \<or> ph = WaitSlot d" "slots s > 0"
      "s' = take_slot c d s"
    | (locked) u us where "gathering s = None" "lock_queue s = u # us" "s' = lock_turn u (s\<lparr>lock_queue := us\<rparr>)"
    | (delivered) t where "t \<in> fst ` set (deliveries s)" "s' = delivery_ends t s"
    | (retries) ch where "ch \<in> set (retriers s)" "s' = retry_consumer ch s"
    | (sets) "s' = s\<lparr>event_set := True\<rparr>"
    | (calls) "s' = s\<lparr>lock_queue := lock_queue s @ [ShutdownCall]\<rparr>"
    | (gathered) ts where "e = Gathered" "gathering s = Some ts" "\<forall>t \<in> set ts. t \<notin> set (live_tasks s)"
      "s' = s\<lparr>gathering := None, redis_closed := True\<rparr>"
    | (cancels) c ch ph where "e = Cancelled c" "map_of (consumers s) c = Some (ch, ph)" "s' = cancel_consumer c ch s"
proof (cases e)
  case (Connected c answer)
  then obtain ch where "map_of (consumers s) c = Some (ch, Connecting)"
      "s' = (if answer = None then next_turn c ch s else consumer_ends c ch s)"
    using assms by (auto split: option.splits prod.splits phase.splits)
  then show ?thesis using ends polls by (metis next_turn_def)
next
  case (Received c answer)
  then obtain ch where ch: "map_of (consumers s) c = Some (ch, Polling)" and s': "s' = received c ch answer s"
    using assms by (auto split: option.splits prod.splits phase.splits)
  show ?thesis
  proof (cases answer)
    case (Inl e)
    then show ?thesis using ch s' ends by (simp add: received_def)
  next
    case (Inr data)
    note s' = s' [unfolded Inr]
    show ?thesis
    proof (cases data)
      case None
      then show ?thesis using ch s' ends polls by (auto simp: received_def next_turn_def split: if_splits)
    next
      case (Some content)
      show ?thesis
      proof (cases "decode ch content")
        case (Inl e)
        then show ?thesis using Some ch s' ends by (simp add: received_def)
      next
        case (Inr d)
        then show ?thesis using Some ch s' waits takes by (auto simp: received_def split: if_splits)
      qed
    qed
  qed
next
  case (SlotGranted c)
  then obtain ch d where "map_of (consumers s) c = Some (ch, WaitSlot d)" "slots s > 0" "s' = take_slot c d s"
    using assms by (auto split: option.splits prod.splits phase.splits if_splits)
  then show ?thesis using takes by blast
next
  case LockGranted
  then show ?thesis using assms locked by (auto split: option.splits list.splits)
next
  case (DeliveryEnds t)
  then show ?thesis using assms delivered by (auto split: if_splits)
next
  case (RetryElapsed ch)
  then show ?thesis using assms retries by (auto split: if_splits)
next
  case SetEvent
  then show ?thesis using assms sets by simp
next
  case CallShutdown
  then show ?thesis using assms calls by simp
next
  case Gathered
  then show ?thesis using assms gathered by (auto simp: list_all_iff split: option.splits if_splits)
next
  case (Cancelled c)
  then show ?thesis using assms cancels by (auto split: option.splits)
qed

definition waiters_ok :: "ws_backend \<Rightarrow> bool" where
  "waiters_ok s =
     (distinct (live_tasks s) \<and> (\<forall>t \<in> set (live_tasks s). t < next_id s)
      \<and> distinct (map fst (creates (lock_queue s)))
      \<and> (\<forall>(c, d) \<in> set (creates (lock_queue s)). \<exists>ch. map_of (consumers s) c = Some (ch, WaitLock d)))"

lemma waiters_okI:
  assumes "distinct (live_tasks s)" "\<And>t. t \<in> set (live_tasks s) \<Longrightarrow> t < next_id s" "distinct (map fst (creates (lock_queue s)))"
    "\<And>c d. (c, d) \<in> set (creates (lock_queue s)) \<Longrightarrow> \<exists>ch. map_of (consumers s) c = Some (ch, WaitLock d)"
  shows "waiters_ok s"
  using assms by (auto simp: waiters_ok_def)

lemma waiters_okD:
  assumes "waiters_ok s"
  shows "distinct (live_tasks s)" "t \<in> set (live_tasks s) \<Longrightarrow> t < next_id s" "distinct (map fst (creates (lock_queue s)))"
    "(c, d) \<in> set (creates (lock_queue s)) \<Longrightarrow> \<exists>ch. map_of (consumers s) c = Some (ch, WaitLock d)"
  using assms by (auto simp: waiters_ok_def)

lemma live_consumer_ends:
  "live_tasks (consumer_ends c ch s) = filter (\<lambda>k. k \<noteq> c) (map fst (consumers s)) @ map fst (deliveries s)"
  by (simp add: task_defs live_tasks_def map_fst_without)

lemma waiters_consumer_ends:
  assumes "waiters_ok s" "c \<notin> fst ` set (creates (lock_queue s))"
  shows "waiters_ok (consumer_ends c ch s)"
proof (rule waiters_okI)
  note w = waiters_okD [OF assms(1)]
  show "distinct (live_tasks (consumer_ends c ch s))" 
    unfolding live_consumer_ends using w(1) by (auto simp: live_tasks_def)
  show "t < next_id (consumer_ends c ch s)" if "t \<in> set (live_tasks (consumer_ends c ch s))" for t
  proof -
    have "t \<in> set (live_tasks s)" using that unfolding live_consumer_ends by (auto simp: live_tasks_def)
    then show ?thesis using w(2) by (simp add: task_defs)
  qed
  show "distinct (map fst (creates (lock_queue (consumer_ends c ch s))))" using w(3) by (simp add: task_defs)
  show "\<exists>ch'. map_of (consumers (consumer_ends c ch s)) c' = Some (ch', WaitLock d)"
    if "(c', d) \<in> set (creates (lock_queue (consumer_ends c ch s)))" for c' d
    using that assms(2) w(4) [of c' d] by (auto simp: task_defs map_of_without image_iff)
qed

lemma waiters_set_phase:
  assumes "waiters_ok s" "c \<notin> fst ` set (creates (lock_queue s))"
  shows "waiters_ok (set_phase c ph s)"
proof (rule waiters_okI)
  note w = waiters_okD [OF assms(1)]
  show "\<exists>ch'. map_of (consumers (set_phase c ph s)) c' = Some (ch', WaitLock d)"
    if "(c', d) \<in> set (creates (lock_queue (set_phase c ph s)))" for c' d
    using that assms(2) w(4) [of c' d] by (force simp: map_of_set_phase)
qed (use waiters_okD [OF assms(1)] in auto)

lemma waiters_next_turn:
  "waiters_ok s \<Longrightarrow> c \<notin> fst ` set (creates (lock_queue s)) \<Longrightarrow> waiters_ok (next_turn c ch s)"
  by (simp add: next_turn_def waiters_consumer_ends waiters_set_phase)

lemma not_waiting_for_lock:
  assumes "waiters_ok s" "map_of (consumers s) c = Some (ch, ph)" "\<And>d. ph \<noteq> WaitLock d"
  shows "c \<notin> fst ` set (creates (lock_queue s))"
  using assms waiters_okD(4) [OF assms(1), of c] by auto

lemma waiters_take_slot:
  assumes "waiters_ok s" "map_of (consumers s) c = Some (ch, ph)" "c \<notin> fst ` set (creates (lock_queue s))"
  shows "waiters_ok (take_slot c d s)"
proof (rule waiters_okI)
  note w = waiters_okD [OF assms(1)]
  show "\<exists>ch'. map_of (consumers (take_slot c d s)) c' = Some (ch', WaitLock d')"
    if "(c', d') \<in> set (creates (lock_queue (take_slot c d s)))" for c' d'
  proof (cases "c' = c")
    case True
    then have "d' = d" using that assms(3) by (force simp: take_slot_def)
    then show ?thesis using True assms(2) by (simp add: take_slot_def map_of_set_phase)
  next
    case False
    then have "(c', d') \<in> set (creates (lock_queue s))" using that by (simp add: take_slot_def)
    then show ?thesis using False w(4) [of c' d'] by (auto simp: take_slot_def map_of_set_phase)
  qed
  have live: "live_tasks (take_slot c d s) = live_tasks s" "next_id (take_slot c d s) = next_id s"
    by (simp_all add: take_slot_def) (simp add: live_tasks_def)
  show "distinct (live_tasks (take_slot c d s))" "\<And>t. t \<in> set (live_tasks (take_slot c d s)) \<Longrightarrow> t < next_id (take_slot c d s)"
    using w(1,2) live by simp_all
  show "distinct (map fst (creates (lock_queue (take_slot c d s))))" using w(3) assms(3) by (simp add: take_slot_def)
qed

lemma waiters_setup:
  assumes "waiters_ok s"
  shows "waiters_ok (setup_consumer ch s)"
proof (rule waiters_okI)
  note w = waiters_okD [OF assms]
  have live: "set (live_tasks (setup_consumer ch s)) = insert (next_id s) (set (live_tasks s))"
    by (auto simp: setup_consumer_def live_tasks_def)
  show "distinct (live_tasks (setup_consumer ch s))"
    using w(1) w(2) [of "next_id s"] by (auto simp: live_tasks_def setup_consumer_def)
  show "t < next_id (setup_consumer ch s)" if "t \<in> set (live_tasks (setup_consumer ch s))" for t
    using that w(2) [of t] unfolding live by (auto simp: setup_consumer_def)
  show "distinct (map fst (creates (lock_queue (setup_consumer ch s))))" using w(3) by (simp add: setup_consumer_def)
  show "\<exists>ch'. map_of (consumers (setup_consumer ch s)) c = Some (ch', WaitLock d)"
    if "(c, d) \<in> set (creates (lock_queue (setup_consumer ch s)))" for c d
    using that w(4) [of c d] by (auto simp: setup_consumer_def)
qed

lemma waiters_new_delivery:
  assumes "waiters_ok s" "lock_queue s = CreateDelivery c d # us"
  shows "waiters_ok (s\<lparr>lock_queue := us, deliveries := deliveries s @ [(next_id s, d)],
    tracked := set_add (next_id s) (tracked s), next_id := Suc (next_id s)\<rparr>)" (is "waiters_ok ?s")
    and "\<exists>ch. map_of (consumers s) c = Some (ch, WaitLock d)" "c \<notin> fst ` set (creates us)"
proof -
  note w = waiters_okD [OF assms(1)]
  show "waiters_ok ?s"
  proof (rule waiters_okI)
    show "distinct (live_tasks ?s)" using w(1) w(2) [of "next_id s"] by (auto simp: live_tasks_def)
    show "t < next_id ?s" if "t \<in> set (live_tasks ?s)" for t
      using that w(2) [of t] by (cases "t = next_id s") (auto simp: live_tasks_def image_iff less_Suc_eq)
  qed (use w(3) w(4) assms(2) in auto)
  show "\<exists>ch. map_of (consumers s) c = Some (ch, WaitLock d)" using w(4) [of c d] assms(2) by auto
  show "c \<notin> fst ` set (creates us)" using w(3) assms(2) by simp
qed

lemma waiters_lock_turn:
  assumes "waiters_ok s" "lock_queue s = u # us"
  shows "waiters_ok (lock_turn u (s\<lparr>lock_queue := us\<rparr>))"
proof (cases u)
  case (CreateDelivery c d)
  note new = waiters_new_delivery [OF assms(1) assms(2) [unfolded CreateDelivery]]
  obtain ch where "map_of (consumers s) c = Some (ch, WaitLock d)" using new(2) by blast
  then show ?thesis using new(3) CreateDelivery waiters_next_turn [OF new(1), of c ch] by (simp add: create_delivery_def)
qed (use assms in \<open>auto simp: waiters_ok_def live_tasks_def\<close>)

lemma waiters_step:
  assumes "ws_step e s = Some s'" "waiters_ok s"
  shows "waiters_ok s'"
  using assms(1)
proof (cases rule: ws_step_cases)
  case (ends c ch ph)
  have "c \<notin> fst ` set (creates (lock_queue s))" by (rule not_waiting_for_lock [OF assms(2) ends(1)]) (use ends in auto)
  then show ?thesis using assms(2) ends by (simp add: waiters_consumer_ends)
next
  case (polls c ch ph)
  have "c \<notin> fst ` set (creates (lock_queue s))" by (rule not_waiting_for_lock [OF assms(2) polls(1)]) (use polls in auto)
  then show ?thesis using assms(2) polls by (simp add: waiters_set_phase)
next
  case (waits c ch d)
  have "c \<notin> fst ` set (creates (lock_queue s))" by (rule not_waiting_for_lock [OF assms(2) waits(1)]) (use waits in auto)
  then show ?thesis using assms(2) waits by (simp add: waiters_set_phase)
next
  case (takes c ch ph d)
  have "c \<notin> fst ` set (creates (lock_queue s))" by (rule not_waiting_for_lock [OF assms(2) takes(1)]) (use takes in auto)
  then show ?thesis using assms(2) takes waiters_take_slot by simp
next
  case (locked u us)
  then show ?thesis using assms(2) waiters_lock_turn by simp
next
  case (delivered t)
  then show ?thesis using assms(2)
    by (auto simp: waiters_ok_def delivery_ends_def live_tasks_def map_fst_without)
next
  case (retries ch)
  have "waiters_ok (s\<lparr>retriers := remove1 ch (retriers s)\<rparr>) = waiters_ok s" by (simp add: waiters_ok_def live_tasks_def)
  then show ?thesis using retries(2) assms(2) by (simp add: retry_consumer_def Let_def waiters_setup)
next
  case (cancels c ch ph)
  have "waiters_ok (s\<lparr>lock_queue := filter (\<lambda>u. case u of CreateDelivery c' d \<Rightarrow> c' \<noteq> c | _ \<Rightarrow> True) (lock_queue s)\<rparr>)"
    using assms(2) by (auto simp: waiters_ok_def live_tasks_def creates_without map_fst_without)
  then show ?thesis using cancels(3) by (auto simp: cancel_consumer_def creates_without intro!: waiters_consumer_ends)
qed (use assms(2) in \<open>auto simp: waiters_ok_def live_tasks_def\<close>)


definition permits_used :: "ws_backend \<Rightarrow> nat" where
  "permits_used s = slots s + length (deliveries s) + length (creates (lock_queue s))"

lemma without_absent: "k \<notin> fst ` set xs \<Longrightarrow> filter (\<lambda>x. fst x \<noteq> k) xs = xs"
  by (induction xs) auto

lemma length_without:
  "distinct (map fst xs) \<Longrightarrow> k \<in> fst ` set xs \<Longrightarrow> Suc (length (filter (\<lambda>x. fst x \<noteq> k) xs)) = length xs"
proof (induction xs)
  case (Cons x xs)
  show ?case
  proof (cases "fst x = k")
    case True
    then have "filter (\<lambda>x. fst x \<noteq> k) xs = xs" using Cons.prems(1) by (auto intro: without_absent)
    then show ?thesis using True by simp
  next
    case False
    then show ?thesis using Cons by simp
  qed
qed simp

lemma permits_next_turn [simp]:
  "permits_used (consumer_ends c ch s) = permits_used s" "permits_used (set_phase c ph s) = permits_used s"
  "permits_used (next_turn c ch s) = permits_used s"
  by (simp_all add: permits_used_def task_defs)

lemma permits_step:
  assumes "ws_step e s = Some s'" "waiters_ok s"
  shows "permits_used s' \<le> permits_used s" "(\<nexists>c. e = Cancelled c) \<Longrightarrow> permits_used s' = permits_used s"
proof -
  have "permits_used s' \<le> permits_used s \<and> ((\<nexists>c. e = Cancelled c) \<longrightarrow> permits_used s' = permits_used s)"
    using assms(1)
  proof (cases rule: ws_step_cases)
    case (takes c ch ph d)
    then show ?thesis by (simp add: take_slot_def) (simp add: permits_used_def)
  next
    case (locked u us)
    show ?thesis
    proof (cases u)
      case (CreateDelivery c d)
      obtain ch where "map_of (consumers s) c = Some (ch, WaitLock d)"
        using waiters_okD(4) [OF assms(2), of c d] locked(2) CreateDelivery by auto
      then show ?thesis using locked CreateDelivery
        by (simp add: create_delivery_def) (simp add: permits_used_def)
    qed (use locked in \<open>simp_all add: permits_used_def\<close>)
  next
    case (delivered t)
    have "distinct (map fst (deliveries s))" using waiters_okD(1) [OF assms(2)] by (simp add: live_tasks_def)
    from length_without [OF this delivered(1)] show ?thesis
      using delivered(2) by (simp add: permits_used_def delivery_ends_def)
  next
    case (cancels c ch ph)
    have "length (filter (\<lambda>x. fst x \<noteq> c) (creates (lock_queue s))) \<le> length (creates (lock_queue s))"
      by (rule length_filter_le)
    then show ?thesis using cancels by (simp add: cancel_consumer_def) (simp add: permits_used_def creates_without)
  qed (auto simp: permits_used_def task_defs Let_def)
  then show "permits_used s' \<le> permits_used s" "(\<nexists>c. e = Cancelled c) \<Longrightarrow> permits_used s' = permits_used s"
    by blast+
qed

subsection \<open>Supervision\<close>

text \<open>The consumers of a channel that run or will be restarted.\<close>

definition supervised :: "channel \<Rightarrow> ws_backend \<Rightarrow> nat" where
  "supervised ch s = count_list (map (fst \<circ> snd) (consumers s)) ch + count_list (retriers s) ch"

lemma count_channel_without:
  assumes "distinct (map fst xs)" "map_of xs c = Some (ch, ph)"
  shows "count_list (map (fst \<circ> snd) xs) k =
    count_list (map (fst \<circ> snd) (filter (\<lambda>x. fst x \<noteq> c) xs)) k + (if k = ch then 1 else 0)"
  using assms
proof (induction xs)
  case (Cons x xs)
  show ?case
  proof (cases "fst x = c")
    case True
    then have "filter (\<lambda>x. fst x \<noteq> c) xs = xs" using Cons.prems(1) by (auto intro: without_absent)
    then show ?thesis using True Cons.prems(2) by (cases x) auto
  next
    case False
    then show ?thesis using Cons by (cases x) auto
  qed
qed simp

lemma supervised_ends:
  assumes "waiters_ok s" "map_of (consumers s) c = Some (ch, ph)"
  shows "supervised k (consumer_ends c ch s) \<le> supervised k s"
    "\<not> event_set s \<Longrightarrow> supervised k (consumer_ends c ch s) = supervised k s"
proof -
  have "distinct (map fst (consumers s))" using waiters_okD(1) [OF assms(1)] by (simp add: live_tasks_def)
  from count_channel_without [OF this assms(2), of k]
  show "supervised k (consumer_ends c ch s) \<le> supervised k s"
    "\<not> event_set s \<Longrightarrow> supervised k (consumer_ends c ch s) = supervised k s"
    by (auto simp: supervised_def consumer_ends_def handle_task_done_def)
qed

lemma count_remove1: "x \<in> set xs \<Longrightarrow> count_list xs k = count_list (remove1 x xs) k + (if k = x then 1 else 0)"
  by (induction xs) auto

lemma supervised_phase [simp]: "supervised k (set_phase c ph s) = supervised k s"
  by (simp add: supervised_def del: map_map)

lemma supervised_step:
  assumes "ws_step e s = Some s'" "waiters_ok s"
  shows "supervised k s' \<le> supervised k s" "\<not> event_set s' \<Longrightarrow> supervised k s' = supervised k s"
    "\<not> event_set s' \<Longrightarrow> \<not> event_set s"
proof -
  have "supervised k s' \<le> supervised k s \<and> (\<not> event_set s' \<longrightarrow> supervised k s' = supervised k s \<and> \<not> event_set s)"
    using assms(1)
  proof (cases rule: ws_step_cases)
    case (ends c ch ph)
    then show ?thesis using supervised_ends [OF assms(2) ends(1), of k] by (simp add: consumer_ends_def handle_task_done_def)
  next
    case (takes c ch ph d)
    then show ?thesis by (simp add: take_slot_def) (simp add: supervised_def)
  next
    case (locked u us)
    show ?thesis
    proof (cases u)
      case (CreateDelivery c d)
      obtain ch where ch: "map_of (consumers s) c = Some (ch, WaitLock d)"
        using waiters_okD(4) [OF assms(2), of c d] locked(2) CreateDelivery by auto
      have eq: "supervised k (lock_turn u (s\<lparr>lock_queue := us\<rparr>)) =
          (if event_set s then supervised k (consumer_ends c ch s) else supervised k s)"
        using ch CreateDelivery
        by (auto simp: create_delivery_def next_turn_def) (simp_all add: supervised_def consumer_ends_def handle_task_done_def)
      have "event_set (lock_turn u (s\<lparr>lock_queue := us\<rparr>)) = event_set s"
        using ch CreateDelivery by (auto simp: create_delivery_def next_turn_def consumer_ends_def handle_task_done_def)
      then show ?thesis using locked(3) eq supervised_ends [OF assms(2) ch, of k] by auto
    qed (use locked in \<open>simp_all add: supervised_def\<close>)
  next
    case (retries ch)
    then show ?thesis using count_remove1 [of ch "retriers s" k]
      by (auto simp: retry_consumer_def setup_consumer_def supervised_def Let_def)
  next
    case (cancels c ch ph)
    let ?s = "s\<lparr>lock_queue := filter (\<lambda>u. case u of CreateDelivery c' d \<Rightarrow> c' \<noteq> c | _ \<Rightarrow> True) (lock_queue s)\<rparr>"
    have "supervised k (cancel_consumer c ch s) = supervised k (consumer_ends c ch s)"
      "event_set (cancel_consumer c ch s) = event_set s"
      by (simp_all add: cancel_consumer_def consumer_ends_def handle_task_done_def supervised_def)
    then show ?thesis using cancels(3) supervised_ends [OF assms(2) cancels(2), of k] by auto
  qed (auto simp: supervised_def delivery_ends_def)
  then show "supervised k s' \<le> supervised k s" "\<not> event_set s' \<Longrightarrow> supervised k s' = supervised k s"
    "\<not> event_set s' \<Longrightarrow> \<not> event_set s" by blast+
qed


subsection \<open>The set of tasks\<close>

text \<open>The tasks tracked once every user in the queue of the lock has had its turn.\<close>

fun settle :: "lock_user list \<Rightarrow> nat set \<Rightarrow> nat set" where
  "settle [] T = T"
| "settle (AddTask t # q) T = settle q (insert t T)"
| "settle (DiscardTask t # q) T = settle q (T - {t})"
| "settle (u # q) T = settle q T"

lemma settle_append [simp]: "settle (q @ r) T = settle r (settle q T)"
  by (induction q T rule: settle.induct) simp_all

lemma settle_insert: "DiscardTask t \<notin> set q \<Longrightarrow> settle q (insert t T) = insert t (settle q T)"
  by (induction q T rule: settle.induct) (auto simp: insert_Diff_if insert_commute)

lemma settle_remove: "AddTask t \<notin> set q \<Longrightarrow> settle q (T - {t}) = settle q T - {t}"
proof (induction q T rule: settle.induct)
  case (2 t' q T)
  then have "insert t' (T - {t}) = insert t' T - {t}" by auto
  with 2 show ?case by simp
next
  case (3 t' q T)
  have "T - {t} - {t'} = T - {t'} - {t}" by auto
  with 3 show ?case by simp
qed simp_all

lemma settle_without:
  "settle (filter (\<lambda>u. case u of CreateDelivery c' d \<Rightarrow> c' \<noteq> c | _ \<Rightarrow> True) q) T = settle q T"
  by (induction q T rule: settle.induct) simp_all

definition tracking_ok :: "ws_backend \<Rightarrow> bool" where
  "tracking_ok s =
     (settle (lock_queue s) (set (tracked s)) = set (live_tasks s)
      \<and> (\<forall>t. DiscardTask t \<in> set (lock_queue s) \<longrightarrow> t < next_id s)
      \<and> (\<forall>t. AddTask t \<in> set (lock_queue s) \<longrightarrow> t < next_id s \<and> t \<notin> fst ` set (deliveries s)))"

lemma tracking_okD:
  assumes "tracking_ok s"
  shows "settle (lock_queue s) (set (tracked s)) = set (live_tasks s)" "DiscardTask t \<in> set (lock_queue s) \<Longrightarrow> t < next_id s"
    "AddTask t \<in> set (lock_queue s) \<Longrightarrow> t < next_id s \<and> t \<notin> fst ` set (deliveries s)"
  using assms by (auto simp: tracking_ok_def)

lemma tracking_okI:
  assumes "settle (lock_queue s) (set (tracked s)) = set (live_tasks s)" "\<And>t. DiscardTask t \<in> set (lock_queue s) \<Longrightarrow> t < next_id s"
    "\<And>t. AddTask t \<in> set (lock_queue s) \<Longrightarrow> t < next_id s \<and> t \<notin> fst ` set (deliveries s)"
  shows "tracking_ok s"
  using assms by (auto simp: tracking_ok_def)

lemma consumer_ends_fields:
  "lock_queue (consumer_ends c ch s) = lock_queue s @ [DiscardTask c]" "tracked (consumer_ends c ch s) = tracked s"
  "deliveries (consumer_ends c ch s) = deliveries s" "next_id (consumer_ends c ch s) = next_id s"
  by (simp_all add: consumer_ends_def handle_task_done_def)

lemma tracking_ends:
  assumes "tracking_ok s" "waiters_ok s" "map_of (consumers s) c = Some (ch, ph)"
  shows "tracking_ok (consumer_ends c ch s)"
proof -
  have "c \<in> fst ` set (consumers s)" using assms(3) by (force dest: map_of_SomeD)
  then have "set (live_tasks (consumer_ends c ch s)) = set (live_tasks s) - {c}" "c < next_id s"
    using waiters_okD(1,2) [OF assms(2)] unfolding live_consumer_ends by (auto simp: live_tasks_def)
  with tracking_okD [OF assms(1)] show ?thesis by (intro tracking_okI) (auto simp: consumer_ends_fields)
qed

lemma tracking_next_turn:
  "tracking_ok s \<Longrightarrow> waiters_ok s \<Longrightarrow> map_of (consumers s) c = Some (ch, ph) \<Longrightarrow> tracking_ok (next_turn c ch s)"
  using tracking_ends by (simp add: next_turn_def) (simp add: tracking_ok_def)

lemma tracking_lock_turn:
  assumes "tracking_ok s" "waiters_ok s" "lock_queue s = u # us"
  shows "tracking_ok (lock_turn u (s\<lparr>lock_queue := us\<rparr>))"
proof (cases u)
  case (CreateDelivery c d)
  note new = waiters_new_delivery [OF assms(2) assms(3) [unfolded CreateDelivery]]
  obtain ch where ch: "map_of (consumers s) c = Some (ch, WaitLock d)" using new(2) by blast
  let ?s = "s\<lparr>lock_queue := us, deliveries := deliveries s @ [(next_id s, d)], tracked := set_add (next_id s) (tracked s),
    next_id := Suc (next_id s)\<rparr>"
  note t = tracking_okD [OF assms(1), unfolded assms(3) CreateDelivery]
  have "DiscardTask (next_id s) \<notin> set us" using t(2) [of "next_id s"] by auto
  then have "settle us (insert (next_id s) (set (tracked s))) = insert (next_id s) (set (live_tasks s))"
    using t(1) by (simp add: settle_insert)
  moreover have "AddTask (next_id s) \<notin> set us" using t(3) [of "next_id s"] by auto
  ultimately have "tracking_ok ?s" using t(2,3)
    by (intro tracking_okI) (auto simp: live_tasks_def less_SucI)
  from tracking_next_turn [OF this new(1), of c ch "WaitLock d"] show ?thesis
    using ch CreateDelivery by (simp add: create_delivery_def)
qed (use assms(1,3) in \<open>simp_all add: tracking_ok_def live_tasks_def\<close>)

lemma tracking_setup:
  assumes "tracking_ok s" "waiters_ok s"
  shows "tracking_ok (setup_consumer ch s)"
proof -
  have "next_id s \<notin> fst ` set (deliveries s)" using waiters_okD(2) [OF assms(2), of "next_id s"] by (auto simp: live_tasks_def)
  with tracking_okD [OF assms(1)] show ?thesis
    by (intro tracking_okI) (auto simp: setup_consumer_def live_tasks_def less_SucI)
qed

lemma tracking_delivery_ends:
  assumes "tracking_ok s" "waiters_ok s" "t \<in> fst ` set (deliveries s)"
  shows "tracking_ok (delivery_ends t s)"
proof -
  have "AddTask t \<notin> set (lock_queue s)" using tracking_okD(3) [OF assms(1), of t] assms(3) by blast
  moreover have "set (live_tasks (delivery_ends t s)) = set (live_tasks s) - {t}"
    using assms(3) waiters_okD(1) [OF assms(2)] by (auto simp: live_tasks_def delivery_ends_def)
  moreover have "set (deliveries (delivery_ends t s)) \<subseteq> set (deliveries s)" "lock_queue (delivery_ends t s) = lock_queue s"
    "next_id (delivery_ends t s) = next_id s" "set (tracked (delivery_ends t s)) = set (tracked s) - {t}"
    by (auto simp: delivery_ends_def)
  ultimately show ?thesis using assms(1) unfolding tracking_ok_def by (simp add: settle_remove) blast
qed

lemma tracking_unchanged:
  assumes "tracking_ok s" "live_tasks s' = live_tasks s" "deliveries s' = deliveries s" "next_id s' = next_id s"
    "tracked s' = tracked s" "\<And>T. settle (lock_queue s') T = settle (lock_queue s) T"
    "\<And>t. DiscardTask t \<in> set (lock_queue s') \<Longrightarrow> DiscardTask t \<in> set (lock_queue s)"
    "\<And>t. AddTask t \<in> set (lock_queue s') \<Longrightarrow> AddTask t \<in> set (lock_queue s)"
  shows "tracking_ok s'"
  using assms by (auto simp: tracking_ok_def)

lemma tracking_step:
  assumes "ws_step e s = Some s'" "tracking_ok s" "waiters_ok s"
  shows "tracking_ok s'"
  using assms(1)
proof (cases rule: ws_step_cases)
  case (ends c ch ph)
  then show ?thesis using tracking_ends [OF assms(2,3)] by simp
next
  case (takes c ch ph d)
  show ?thesis by (rule tracking_unchanged [OF assms(2)]) (use takes in \<open>auto simp: take_slot_def live_tasks_def\<close>)
next
  case (locked u us)
  then show ?thesis using tracking_lock_turn [OF assms(2,3)] by simp
next
  case (delivered t)
  then show ?thesis using tracking_delivery_ends [OF assms(2,3)] by simp
next
  case (retries ch)
  have "tracking_ok (s\<lparr>retriers := remove1 ch (retriers s)\<rparr>)" "waiters_ok (s\<lparr>retriers := remove1 ch (retriers s)\<rparr>) = waiters_ok s"
    by (rule tracking_unchanged [OF assms(2)], simp_all add: waiters_ok_def live_tasks_def)
  then show ?thesis using retries(2) assms(3) by (simp add: retry_consumer_def Let_def tracking_setup)
next
  case (cancels c ch ph)
  let ?s = "s\<lparr>lock_queue := filter (\<lambda>u. case u of CreateDelivery c' d \<Rightarrow> c' \<noteq> c | _ \<Rightarrow> True) (lock_queue s)\<rparr>"
  have "tracking_ok ?s" by (rule tracking_unchanged [OF assms(2)]) (auto simp: settle_without live_tasks_def)
  moreover have "waiters_ok ?s" using assms(3)
    by (auto simp: waiters_ok_def live_tasks_def creates_without map_fst_without)
  ultimately show ?thesis using cancels(2,3) tracking_ends [of ?s c ch ph] by (simp add: cancel_consumer_def)
qed (use assms(2) in \<open>auto intro: tracking_unchanged [of s] simp: live_tasks_def\<close>)


subsection \<open>Shutdown\<close>

definition waiting_phase :: "phase \<Rightarrow> bool" where
  "waiting_phase ph = (case ph of WaitSlot d \<Rightarrow> True | WaitLock d \<Rightarrow> True | _ \<Rightarrow> False)"

definition waiting :: "ws_backend \<Rightarrow> nat \<Rightarrow> bool" where
  "waiting s c = (case map_of (consumers s) c of Some (ch, ph) \<Rightarrow> waiting_phase ph | None \<Rightarrow> False)"

lemma waiting_iff: "waiting s c \<longleftrightarrow> (\<exists>ch ph. map_of (consumers s) c = Some (ch, ph) \<and> waiting_phase ph)"
  by (auto simp: waiting_def split: option.splits)

lemma waiting_live: "waiting s c \<Longrightarrow> c \<in> set (live_tasks s)"
  by (force simp: waiting_iff live_tasks_def dest: map_of_SomeD)

lemma waiting_set_phase:
  "waiting s c \<Longrightarrow> c' \<noteq> c \<or> waiting_phase ph \<Longrightarrow> waiting (set_phase c' ph s) c"
  by (cases "map_of (consumers s) c") (auto simp: waiting_def map_of_set_phase)

lemma waiting_without: "waiting s c \<Longrightarrow> c' \<noteq> c \<Longrightarrow> waiting (consumer_ends c' ch s) c"
  by (auto simp: waiting_iff consumer_ends_def handle_task_done_def map_of_without)

text \<open>A gathered consumer that waits keeps waiting, whatever happens, short of its cancellation.\<close>

lemma stuck_step:
  assumes "ws_step e s = Some s'" "gathering s = Some ts" "c \<in> set ts" "waiting s c" "e \<noteq> Cancelled c"
  shows "gathering s' = Some ts \<and> waiting s' c \<and> redis_closed s' = redis_closed s"
  using assms(1)
proof (cases rule: ws_step_cases)
  case (ends c' ch ph)
  then have "c' \<noteq> c" using assms(4) by (auto simp: waiting_iff waiting_phase_def)
  then show ?thesis using ends(3) assms(2,4) waiting_without by (auto simp: consumer_ends_def handle_task_done_def)
next
  case (polls c' ch ph)
  then have "c' \<noteq> c" using assms(4) by (auto simp: waiting_iff waiting_phase_def)
  then show ?thesis using polls(4) assms(2,4) by (simp add: waiting_set_phase)
next
  case (waits c' ch d)
  then show ?thesis using assms(2,4) by (simp add: waiting_set_phase waiting_phase_def)
next
  case (takes c' ch ph d)
  have "waiting (s\<lparr>slots := slots s - 1, lock_queue := lock_queue s @ [CreateDelivery c' d]\<rparr>) c"
    using assms(4) by (simp add: waiting_def)
  then show ?thesis using takes(4) assms(2) by (simp add: take_slot_def waiting_set_phase waiting_phase_def)
next
  case (retries ch)
  then show ?thesis using assms(2,4)
    by (auto simp: retry_consumer_def setup_consumer_def Let_def waiting_iff)
next
  case (gathered ts')
  then show ?thesis using assms(2-4) waiting_live by auto
next
  case (cancels c' ch ph)
  then have "c' \<noteq> c" using assms(5) by blast
  then have "waiting (cancel_consumer c' ch s) c" using assms(4)
    by (auto simp: cancel_consumer_def waiting_iff consumer_ends_def handle_task_done_def map_of_without)
  then show ?thesis using cancels(3) assms(2) by (simp add: cancel_consumer_def consumer_ends_def handle_task_done_def)
qed (use assms(2,4) in \<open>simp_all add: waiting_def delivery_ends_def\<close>)

lemma stuck_run:
  assumes "gathering s = Some ts" "c \<in> set ts" "waiting s c" "Cancelled c \<notin> set es" "ws_run es s = Some s'"
  shows "gathering s' = Some ts \<and> waiting s' c \<and> redis_closed s' = redis_closed s"
  using assms
proof (induction es arbitrary: s)
  case (Cons e es)
  then obtain s1 where s1: "ws_step e s = Some s1" "ws_run es s1 = Some s'" by (auto split: option.splits)
  have "gathering s1 = Some ts \<and> waiting s1 c \<and> redis_closed s1 = redis_closed s"
    using stuck_step [OF s1(1) Cons.prems(1-3)] Cons.prems(4) by auto
  then show ?case using Cons.IH [of s1] Cons.prems s1(2) by auto
qed simp

text \<open>A live gathered task that does not wait can end next, when the shutdown event is set.\<close>

lemma length_without_less: "k \<in> fst ` set xs \<Longrightarrow> length (filter (\<lambda>x. fst x \<noteq> k) xs) < length xs"
  by (auto simp: length_filter_less)

lemma live_task_can_end:
  assumes "gathering s = Some ts" "event_set s" "t \<in> set (live_tasks s)" "\<not> waiting s t"
  obtains e s' where "\<And>c. e \<noteq> Cancelled c" "ws_step e s = Some s'" "gathering s' = Some ts" "event_set s'"
    "length (live_tasks s') < length (live_tasks s)" "\<And>c. waiting s' c \<Longrightarrow> waiting s c"
proof (cases "map_of (consumers s) t")
  case None
  then have t: "t \<in> fst ` set (deliveries s)" using assms(3) by (auto simp: live_tasks_def map_of_eq_None_iff)
  have "length (live_tasks (delivery_ends t s)) < length (live_tasks s)"
    using length_without_less [OF t] by (simp add: live_tasks_def delivery_ends_def)
  then show ?thesis using that [of "DeliveryEnds t" "delivery_ends t s"] t assms(1,2)
    by (auto simp: delivery_ends_def waiting_def)
next
  case (Some x)
  obtain ch ph where x: "map_of (consumers s) t = Some (ch, ph)" using Some by (cases x) auto
  let ?s = "consumer_ends t ch s"
  define e where "e = (if ph = Connecting then Connected t None else Received t (Inr None))"
  have "ph = Connecting \<or> ph = Polling" using assms(4) x by (cases ph) (auto simp: waiting_def waiting_phase_def)
  then have "ws_step e s = Some ?s" using x assms(2) by (auto simp: e_def received_def next_turn_def)
  moreover have "t \<in> fst ` set (consumers s)" using x by (force dest: map_of_SomeD)
  then have "length (live_tasks ?s) < length (live_tasks s)"
    using length_without_less by (fastforce simp: live_tasks_def consumer_ends_def handle_task_done_def)
  moreover have "waiting ?s c \<Longrightarrow> waiting s c" for c
    by (auto simp: waiting_iff consumer_ends_def handle_task_done_def map_of_without split: if_splits)
  ultimately show ?thesis using that [of e ?s] assms(1,2) by (auto simp: e_def consumer_ends_def handle_task_done_def)
qed

lemma shutdown_can_complete:
  assumes "gathering s = Some ts" "event_set s" "\<forall>c \<in> set ts. \<not> waiting s c"
  shows "\<exists>es s'. (\<forall>c. Cancelled c \<notin> set es) \<and> ws_run es s = Some s' \<and> gathering s' = None \<and> redis_closed s'"
  using assms
proof (induction "length (live_tasks s)" arbitrary: s rule: less_induct)
  case less
  show ?case
  proof (cases "\<exists>t \<in> set ts. t \<in> set (live_tasks s)")
    case True
    then obtain t where t: "t \<in> set ts" "t \<in> set (live_tasks s)" by blast
    obtain e s1 where e: "\<And>c. e \<noteq> Cancelled c" "ws_step e s = Some s1" "gathering s1 = Some ts" "event_set s1"
        "length (live_tasks s1) < length (live_tasks s)" "\<And>c. waiting s1 c \<Longrightarrow> waiting s c"
      using live_task_can_end [OF less.prems(1,2) t(2)] less.prems(3) t(1) by metis
    obtain es s' where es: "\<forall>c. Cancelled c \<notin> set es" "ws_run es s1 = Some s'" "gathering s' = None" "redis_closed s'"
      using less.hyps [OF e(5,3,4)] e(6) less.prems(3) by metis
    have "Cancelled c \<notin> set (e # es)" for c using e(1) [of c] es(1) by auto
    moreover have "ws_run (e # es) s = Some s'" using e(2) es(2) by simp
    ultimately show ?thesis using es(3,4) by blast
  next
    case False
    then show ?thesis using less.prems(1)
      by (intro exI [of _ "[Gathered]"] exI [of _ "s\<lparr>gathering := None, redis_closed := True\<rparr>"]) (auto simp: list_all_iff)
  qed
qed

lemma invariants_start: "waiters_ok (ws_start limit)" "tracking_ok (ws_start limit)" "permits_used (ws_start limit) = limit"
    "supervised ch (ws_start limit) = 1"
  by (cases ch)
     (auto simp: ws_start_def configure_def new_backend_def setup_consumer_def waiters_ok_def tracking_ok_def permits_used_def
       supervised_def live_tasks_def intro: channel.exhaust [of ch])

lemma run_invariants:
  assumes "ws_run es (ws_start limit) = Some s"
  shows "waiters_ok s" "tracking_ok s"
proof -
  have "waiters_ok s \<and> tracking_ok s"
    by (rule ws.run_invariant [of "\<lambda>s. waiters_ok s \<and> tracking_ok s" UNIV, OF _ _ _ assms])
       (auto intro: waiters_step tracking_step simp: invariants_start)
  then show "waiters_ok s" "tracking_ok s" by simp_all
qed

subsection \<open>Properties\<close>

text \<open>
  (C35) Once \<open>shutdown\<close> gathers the tasks, with the shutdown event set, it can still complete exactly when
  no gathered consumer waits for a permit or for the lock: \<open>shutdown\<close> holds that lock, so a consumer that received a message while
  the shutdown was gathering waits for it forever, and the shutdown waits for the consumer. Otherwise the tasks can end one after the other and
  the connection is closed.
\<close>

theorem shutdown_completes_iff_no_consumer_waits:
  assumes "gathering s = Some ts" "event_set s"
  shows "(\<exists>es s'. (\<forall>c. Cancelled c \<notin> set es) \<and> ws_run es s = Some s' \<and> gathering s' = None)
    \<longleftrightarrow> (\<forall>c \<in> set ts. \<not> waiting s c)"
proof
  assume "\<exists>es s'. (\<forall>c. Cancelled c \<notin> set es) \<and> ws_run es s = Some s' \<and> gathering s' = None"
  then obtain es s' where "\<forall>c. Cancelled c \<notin> set es" "ws_run es s = Some s'" "gathering s' = None" by blast
  then show "\<forall>c \<in> set ts. \<not> waiting s c" using stuck_run [OF assms(1)] by (metis option.distinct(1))
next
  assume "\<forall>c \<in> set ts. \<not> waiting s c"
  from shutdown_can_complete [OF assms this]
  show "\<exists>es s'. (\<forall>c. Cancelled c \<notin> set es) \<and> ws_run es s = Some s' \<and> gathering s' = None" by blast
qed

text \<open>A message arrives while the shutdown gathers the two consumers.\<close>

definition shutdown_race :: "ws_event list" where
  "shutdown_race = [Connected 0 None, Connected 1 None, LockGranted, LockGranted, SetEvent, CallShutdown, LockGranted,
     Received 1 (Inr (Some ''hello''))]"

theorem shutdown_completes_iff_no_consumer_waits_witness:
  "let s = the (ws_run shutdown_race (ws_start 10))
   in \<not> (\<exists>es s'. (\<forall>c. Cancelled c \<notin> set es) \<and> ws_run es s = Some s' \<and> gathering s' = None)"
proof -
  let ?s = "the (ws_run shutdown_race (ws_start 10))"
  note eval = shutdown_race_def ws_start_def configure_def new_backend_def task_defs set_phase_def set_add_def decode_def
    broadcast_decode_def
  have "gathering ?s = Some [0, 1]" "event_set ?s" by (simp_all add: eval)
  moreover have "waiting ?s 1" by (simp add: eval waiting_def waiting_phase_def)
  ultimately show ?thesis
    using shutdown_completes_iff_no_consumer_waits [of ?s "[0, 1]"] by (auto simp: Let_def)
qed

text \<open>
  Each channel has exactly one consumer that runs or waits to be restarted, until the shutdown event is set, and never
  more than one.
\<close>

theorem channels_always_supervised:
  assumes "ws_run es (ws_start limit) = Some s"
  shows "supervised ch s \<le> 1 \<and> (\<not> event_set s \<longrightarrow> supervised ch s = 1)"
proof -
  let ?P = "\<lambda>s. waiters_ok s \<and> supervised ch s \<le> 1 \<and> (\<not> event_set s \<longrightarrow> supervised ch s = 1)"
  have "?P s"
  proof (rule ws.run_invariant [of ?P UNIV, OF _ _ _ assms])
    show "?P s'" if "?P s" "ws_step e s = Some s'" for e s s'
      using that supervised_step(1,2) [OF that(2), of ch] supervised_step(3) [OF that(2)] waiters_step [OF that(2)] by auto
  qed (simp_all add: invariants_start)
  then show ?thesis by blast
qed

theorem channels_always_supervised_witness:
  "supervised SendChannel (the (ws_run [Connected 0 None, Received 0 (Inr (Some ''no separator''))] (ws_start 1))) = 1"
proof -
  let ?es = "[Connected 0 None, Received 0 (Inr (Some ''no separator''))]"
  have r: "ws_run ?es (ws_start 1) = Some (the (ws_run ?es (ws_start 1)))" "\<not> event_set (the (ws_run ?es (ws_start 1)))"
    by (simp_all add: ws_start_def configure_def new_backend_def task_defs set_phase_def decode_def send_decode_def)
  from channels_always_supervised [OF r(1), of SendChannel] r(2) show ?thesis by blast
qed

text \<open>
  (C36) Permits are never created: the free permits, the deliveries and the consumers that hold a permit while they wait for the
  lock are at most the limit, and exactly the limit as long as no consumer was cancelled.
\<close>

theorem permits_conserved:
  assumes "ws_run es (ws_start limit) = Some s"
  shows "permits_used s \<le> limit \<and> length (deliveries s) \<le> limit
    \<and> ((\<forall>c. Cancelled c \<notin> set es) \<longrightarrow> permits_used s = limit)"
proof -
  have "permits_used s \<le> limit"
  proof -
    let ?P = "\<lambda>s. waiters_ok s \<and> permits_used s \<le> limit"
    have "?P s"
    proof (rule ws.run_invariant [of ?P UNIV, OF _ _ _ assms])
      show "?P s'" if "?P s" "ws_step e s = Some s'" for e s s'
        using that permits_step(1) [OF that(2)] waiters_step [OF that(2)] by auto
    qed (simp_all add: invariants_start)
    then show ?thesis by blast
  qed
  moreover have "permits_used s = limit" if "\<forall>c. Cancelled c \<notin> set es"
  proof -
    let ?P = "\<lambda>s. waiters_ok s \<and> permits_used s = limit"
    have "?P s"
    proof (rule ws.run_invariant [of ?P "- range Cancelled", OF _ _ _ assms])
      show "?P s'" if "?P s" "e \<in> - range Cancelled" "ws_step e s = Some s'" for e s s'
        using that permits_step(2) [OF that(3)] waiters_step [OF that(3)] by auto
    qed (use that in \<open>auto simp: invariants_start\<close>)
    then show ?thesis by blast
  qed
  ultimately show ?thesis by (auto simp: permits_used_def)
qed

theorem permits_conserved_witness:
  "permits_used (the (ws_run [Connected 1 None, Received 1 (Inr (Some ''hi'')), LockGranted, LockGranted, LockGranted] (ws_start 2))) = 2"
proof -
  let ?es = "[Connected 1 None, Received 1 (Inr (Some ''hi'')), LockGranted, LockGranted, LockGranted]"
  have "ws_run ?es (ws_start 2) = Some (the (ws_run ?es (ws_start 2)))"
    by (simp add: ws_start_def configure_def new_backend_def task_defs set_phase_def set_add_def decode_def broadcast_decode_def)
  from permits_conserved [OF this] show ?thesis by simp
qed

text \<open>A consumer cancelled while it waits for the lock takes its permit with it.\<close>

lemma cancelled_waiter_leaks_permit:
  "permits_used (the (ws_run [Connected 1 None, Received 1 (Inr (Some ''hi'')), Cancelled 1] (ws_start 2))) = 1"
  by (simp add: ws_start_def configure_def new_backend_def task_defs set_phase_def set_add_def decode_def broadcast_decode_def
    permits_used_def)

text \<open>
  The set \<open>tasks\<close> under its lock: when nobody waits for the lock, it holds exactly the tasks that have not
  ended, the consumers and the deliveries.
\<close>

theorem tracked_tasks_are_live:
  assumes "ws_run es (ws_start limit) = Some s" "lock_queue s = []"
  shows "set (tracked s) = set (live_tasks s) \<and> distinct (live_tasks s)"
  using run_invariants [OF assms(1)] assms(2) by (simp add: tracking_ok_def waiters_ok_def)

theorem tracked_tasks_are_live_witness:
  "set (tracked (the (ws_run [LockGranted, LockGranted, Connected 1 (Some (Exc ConnectionError ''ping'')), LockGranted] (ws_start 2)))) = {0}"
proof -
  let ?es = "[LockGranted, LockGranted, Connected 1 (Some (Exc ConnectionError ''ping'')), LockGranted]"
  note eval = ws_start_def configure_def new_backend_def task_defs set_phase_def set_add_def discard_def
  have r: "ws_run ?es (ws_start 2) = Some (the (ws_run ?es (ws_start 2)))" by (simp add: eval)
  have q: "lock_queue (the (ws_run ?es (ws_start 2))) = []" "live_tasks (the (ws_run ?es (ws_start 2))) = [0]"
    by (simp_all add: eval live_tasks_def)
  from tracked_tasks_are_live [OF r q(1)] q(2) show ?thesis by simp
qed

end
