(* ===== verification/Constants.thy ===== *)
theory Constants
  imports Worker_Config
begin

section \<open>Constants from the environment\<close>

text \<open>
  \<^verbatim>\<open>const.py\<close>: the library constants, each read from an environment variable when the module is imported. The module is
  the list of its assignments in order; the first variable that cannot be read makes the import fail. Each section of the module
  is one list below.
\<close>

subsection \<open>Assignments\<close>

text \<open>
  How a constant is read: \<open>get_env_int\<close>, \<open>float(get_env_int(...))\<close>, \<open>get_env_bool\<close>, \<open>get_abs_env_bool\<close>, \<open>get_env_str\<close>,
  \<open>_get_env_choice\<close>, or a literal.
\<close>

datatype const_decl =
    CInt string int
  | CFloat string int
  | CBool string bool
  | CAbsBool string bool
  | CStr string "string option"
  | CChoice string string "string list"
  | CLiteral bool

datatype const_value = KInt int | KFloat rat | KBool bool | KStr "string option"

definition get_env_choice :: "environ \<Rightarrow> string \<Rightarrow> string \<Rightarrow> string list \<Rightarrow> string result" where
  "get_env_choice env var_name dflt choices =
     (case get_env_str env var_name (Some dflt) of
        Some value \<Rightarrow> if value \<in> set choices then Inr value else Inl (Exc ValueError ''invalid value'')
      | None \<Rightarrow> Inl (Exc ValueError ''invalid value''))"

definition int_value :: "(int \<Rightarrow> const_value) \<Rightarrow> int option result \<Rightarrow> const_value result" where
  "int_value K r = (case r of Inl e \<Rightarrow> Inl e | Inr (Some i) \<Rightarrow> Inr (K i) | Inr None \<Rightarrow> Inl (Exc TypeError ''None''))"

fun read_const :: "environ \<Rightarrow> const_decl \<Rightarrow> const_value result" where
  "read_const env (CInt var d) = int_value KInt (get_env_int env var (Some d))"
| "read_const env (CFloat var d) = int_value (KFloat \<circ> of_int) (get_env_int env var (Some d))"
| "read_const env (CBool var d) =
     (case get_env_bool env var (Some d) of Inl e \<Rightarrow> Inl e | Inr None \<Rightarrow> Inr (KBool d) | Inr (Some b) \<Rightarrow> Inr (KBool b))"
| "read_const env (CAbsBool var d) = map_sum id KBool (get_abs_env_bool env var (Some d))"
| "read_const env (CStr var d) = Inr (KStr (get_env_str env var d))"
| "read_const env (CChoice var d choices) = map_sum id (KStr \<circ> Some) (get_env_choice env var d choices)"
| "read_const env (CLiteral b) = Inr (KBool b)"

text \<open>Importing the module.\<close>

fun load_constants :: "environ \<Rightarrow> (string \<times> const_decl) list \<Rightarrow> (string \<times> const_value) list result" where
  "load_constants env [] = Inr []"
| "load_constants env ((name, d) # ds) =
     (case read_const env d of
        Inl e \<Rightarrow> Inl e
      | Inr v \<Rightarrow> (case load_constants env ds of Inl e \<Rightarrow> Inl e | Inr vs \<Rightarrow> Inr ((name, v) # vs)))"

subsection \<open>The sections of the module\<close>

definition TRACE_ASYNC_BOUNDARY_CHOICES :: "string list" where
  "TRACE_ASYNC_BOUNDARY_CHOICES = [''child'', ''link'']"

definition pagination_constants :: "(string \<times> const_decl) list" where
  "pagination_constants =
    [(''PAGINATION_DEFAULT_PAGE_SIZE'', CInt ''JARARACA_PAGINATION_DEFAULT_PAGE_SIZE'' 10),
     (''PAGINATION_MAX_PAGE_SIZE'', CInt ''JARARACA_PAGINATION_MAX_PAGE_SIZE'' 100),
     (''PAGINATION_DEFAULT_PAGE'', CInt ''JARARACA_PAGINATION_DEFAULT_PAGE'' 0)]"

definition database_constants :: "(string \<times> const_decl) list" where
  "database_constants =
    [(''DB_POOL_SIZE'', CInt ''JARARACA_DB_POOL_SIZE'' 5),
     (''DB_MAX_OVERFLOW'', CInt ''JARARACA_DB_MAX_OVERFLOW'' 10),
     (''DB_POOL_TIMEOUT'', CFloat ''JARARACA_DB_POOL_TIMEOUT'' 30),
     (''DB_POOL_RECYCLE'', CInt ''JARARACA_DB_POOL_RECYCLE'' 3600),
     (''DB_ECHO'', CLiteral False)]"

definition http_rpc_constants :: "(string \<times> const_decl) list" where
  "http_rpc_constants =
    [(''HTTP_RPC_DEFAULT_TIMEOUT'', CFloat ''JARARACA_HTTP_RPC_DEFAULT_TIMEOUT'' 30),
     (''HTTP_RPC_DEFAULT_RETRY_ATTEMPTS'', CInt ''JARARACA_HTTP_RPC_DEFAULT_RETRY_ATTEMPTS'' 3),
     (''HTTP_RPC_DEFAULT_RETRY_BACKOFF'', CFloat ''JARARACA_HTTP_RPC_DEFAULT_RETRY_BACKOFF'' 1)]"

definition retry_constants :: "(string \<times> const_decl) list" where
  "retry_constants =
    [(''RETRY_DEFAULT_MAX_RETRIES'', CInt ''JARARACA_RETRY_DEFAULT_MAX_RETRIES'' 5),
     (''RETRY_DEFAULT_INITIAL_DELAY'', CFloat ''JARARACA_RETRY_DEFAULT_INITIAL_DELAY'' 1),
     (''RETRY_DEFAULT_MAX_DELAY'', CFloat ''JARARACA_RETRY_DEFAULT_MAX_DELAY'' 60),
     (''RETRY_DEFAULT_BACKOFF_FACTOR'', CFloat ''JARARACA_RETRY_DEFAULT_BACKOFF_FACTOR'' 2),
     (''RETRY_DEFAULT_JITTER'', CLiteral True)]"

definition messagebus_constants :: "(string \<times> const_decl) list" where
  "messagebus_constants =
    [(''MESSAGEBUS_DEFAULT_PREFETCH_COUNT'', CInt ''JARARACA_MESSAGEBUS_DEFAULT_PREFETCH_COUNT'' 10),
     (''MESSAGEBUS_CONNECTION_RETRY_MAX'', CInt ''JARARACA_MESSAGEBUS_CONNECTION_RETRY_MAX'' 15),
     (''MESSAGEBUS_CONNECTION_RETRY_INITIAL_DELAY'', CFloat ''JARARACA_MESSAGEBUS_CONNECTION_RETRY_INITIAL_DELAY'' 1),
     (''MESSAGEBUS_CONNECTION_RETRY_MAX_DELAY'', CFloat ''JARARACA_MESSAGEBUS_CONNECTION_RETRY_MAX_DELAY'' 60),
     (''MESSAGEBUS_CONNECTION_RETRY_BACKOFF'', CFloat ''JARARACA_MESSAGEBUS_CONNECTION_RETRY_BACKOFF'' 2),
     (''MESSAGEBUS_CONSUMER_RETRY_MAX'', CInt ''JARARACA_MESSAGEBUS_CONSUMER_RETRY_MAX'' 15),
     (''MESSAGEBUS_CONSUMER_RETRY_INITIAL_DELAY'', CFloat ''JARARACA_MESSAGEBUS_CONSUMER_RETRY_INITIAL_DELAY'' 5),
     (''MESSAGEBUS_CONSUMER_RETRY_MAX_DELAY'', CFloat ''JARARACA_MESSAGEBUS_CONSUMER_RETRY_MAX_DELAY'' 40),
     (''MESSAGEBUS_CONSUMER_RETRY_BACKOFF'', CFloat ''JARARACA_MESSAGEBUS_CONSUMER_RETRY_BACKOFF'' 2),
     (''MESSAGEBUS_CONNECTION_HEARTBEAT_INTERVAL'', CFloat ''JARARACA_MESSAGEBUS_CONNECTION_HEARTBEAT_INTERVAL'' 30),
     (''MESSAGEBUS_CONNECTION_HEALTH_CHECK_INTERVAL'', CFloat ''JARARACA_MESSAGEBUS_CONNECTION_HEALTH_CHECK_INTERVAL'' 10)]"

definition scheduler_constants :: "(string \<times> const_decl) list" where
  "scheduler_constants =
    [(''SCHEDULER_MAX_CONCURRENT_JOBS'', CInt ''JARARACA_SCHEDULER_MAX_CONCURRENT_JOBS'' 10),
     (''SCHEDULER_CONNECTION_RETRY_MAX'', CInt ''JARARACA_SCHEDULER_CONNECTION_RETRY_MAX'' 10),
     (''SCHEDULER_CONNECTION_RETRY_INITIAL_DELAY'', CFloat ''JARARACA_SCHEDULER_CONNECTION_RETRY_INITIAL_DELAY'' 2),
     (''SCHEDULER_CONNECTION_RETRY_MAX_DELAY'', CFloat ''JARARACA_SCHEDULER_CONNECTION_RETRY_MAX_DELAY'' 60),
     (''SCHEDULER_CONNECTION_RETRY_BACKOFF'', CFloat ''JARARACA_SCHEDULER_CONNECTION_RETRY_BACKOFF'' 2),
     (''SCHEDULER_DISPATCH_RETRY_MAX'', CInt ''JARARACA_SCHEDULER_DISPATCH_RETRY_MAX'' 3),
     (''SCHEDULER_DISPATCH_RETRY_INITIAL_DELAY'', CFloat ''JARARACA_SCHEDULER_DISPATCH_RETRY_INITIAL_DELAY'' 1),
     (''SCHEDULER_DISPATCH_RETRY_MAX_DELAY'', CFloat ''JARARACA_SCHEDULER_DISPATCH_RETRY_MAX_DELAY'' 10),
     (''SCHEDULER_DISPATCH_RETRY_BACKOFF'', CFloat ''JARARACA_SCHEDULER_DISPATCH_RETRY_BACKOFF'' 2),
     (''SCHEDULER_CONNECTION_HEARTBEAT_INTERVAL'', CFloat ''JARARACA_SCHEDULER_CONNECTION_HEARTBEAT_INTERVAL'' 30),
     (''SCHEDULER_HEALTH_CHECK_INTERVAL'', CFloat ''JARARACA_SCHEDULER_HEALTH_CHECK_INTERVAL'' 15),
     (''SCHEDULER_CONNECTION_WAIT_TIMEOUT'', CFloat ''JARARACA_SCHEDULER_CONNECTION_WAIT_TIMEOUT'' 300),
     (''SCHEDULER_MAX_POOL_SIZE'', CInt ''JARARACA_SCHEDULER_MAX_POOL_SIZE'' 10),
     (''SCHEDULER_POOL_RECYCLE_TIME'', CFloat ''JARARACA_SCHEDULER_POOL_RECYCLE_TIME'' 3600)]"

definition websocket_constants :: "(string \<times> const_decl) list" where
  "websocket_constants =
    [(''WEBSOCKET_CONNECTION_TIMEOUT'', CFloat ''JARARACA_WEBSOCKET_CONNECTION_TIMEOUT'' 60),
     (''WEBSOCKET_PING_INTERVAL'', CFloat ''JARARACA_WEBSOCKET_PING_INTERVAL'' 30),
     (''WEBSOCKET_MAX_MESSAGE_SIZE'', CInt ''JARARACA_WEBSOCKET_MAX_MESSAGE_SIZE'' 1048576)]"

definition observability_constants :: "(string \<times> const_decl) list" where
  "observability_constants =
    [(''OBSERVABILITY_TRACING_ENABLED'', CLiteral False),
     (''OBSERVABILITY_TRACE_SAMPLE_RATE'', CFloat ''JARARACA_OBSERVABILITY_TRACE_SAMPLE_RATE'' 1),
     (''OBSERVABILITY_TRACE_SPAN_HTTP_REQUEST_MAX_BODY_SIZE_ATTRIBUTE_VALUE'', CInt ''JARARACA_OBSERVABILITY_TRACE_SPAN_HTTP_REQUEST_MAX_BODY_SIZE_ATTRIBUTE_VALUE'' 5000),
     (''OBSERVABILITY_TRACE_SPAN_HTTP_RESPONSE_MAX_BODY_SIZE_ATTRIBUTE_VALUE'', CInt ''JARARACA_OBSERVABILITY_TRACE_SPAN_HTTP_RESPONSE_MAX_BODY_SIZE_ATTRIBUTE_VALUE'' 5000),
     (''OBSERVABILITY_TRACE_SPAN_HTTP_REQUEST_USE_ABSOLUTE_PATH_ON_TITLE'', CBool ''JARARACA_OBSERVABILITY_TRACE_SPAN_HTTP_REQUEST_USE_ABSOLUTE_PATH_ON_TITLE'' False),
     (''OBSERVABILITY_TRACE_ASYNC_BOUNDARY'', CChoice ''JARARACA_OBSERVABILITY_TRACE_ASYNC_BOUNDARY'' ''link'' TRACE_ASYNC_BOUNDARY_CHOICES),
     (''OBSERVABILITY_TRACE_ASYNC_BOUNDARY_ON_RETRY'', CChoice ''JARARACA_OBSERVABILITY_TRACE_ASYNC_BOUNDARY_ON_RETRY'' ''link'' TRACE_ASYNC_BOUNDARY_CHOICES),
     (''OBSERVABILITY_TRACE_MESSAGEBUS_SPAN_NAME_STYLE'', CChoice ''JARARACA_OBSERVABILITY_TRACE_MESSAGEBUS_SPAN_NAME_STYLE'' ''compact'' [''legacy'', ''compact'']),
     (''OBSERVABILITY_TRACE_PUBLISH_SPAN'', CBool ''JARARACA_OBSERVABILITY_TRACE_PUBLISH_SPAN'' True)]"

definition general_constants :: "(string \<times> const_decl) list" where
  "general_constants =
    [(''APP_ENVIRONMENT'', CStr ''JARARACA_APP_ENVIRONMENT'' None),
     (''DEBUG'', CAbsBool ''JARARACA_DEBUG'' False),
     (''DEFAULT_TIMEZONE'', CStr ''JARARACA_DEFAULT_TIMEZONE'' (Some ''UTC''))]"

definition library_constants :: "(string \<times> const_decl) list" where
  "library_constants = pagination_constants @ database_constants @ http_rpc_constants @ retry_constants @ messagebus_constants
     @ scheduler_constants @ websocket_constants @ observability_constants @ general_constants"

definition import_const :: "environ \<Rightarrow> (string \<times> const_value) list result" where
  "import_const env = load_constants env library_constants"

lemmas constant_sections = library_constants_def pagination_constants_def database_constants_def http_rpc_constants_def
  retry_constants_def messagebus_constants_def scheduler_constants_def websocket_constants_def observability_constants_def
  general_constants_def TRACE_ASYNC_BOUNDARY_CHOICES_def

subsection \<open>What a well-formed environment is\<close>

text \<open>The text of a set variable that a kind of constant accepts.\<close>

fun accepts :: "const_decl \<Rightarrow> string \<Rightarrow> bool" where
  "accepts (CInt var d) t = (py_int t \<noteq> None)"
| "accepts (CFloat var d) t = (py_int t \<noteq> None)"
| "accepts (CBool var d) t = (py_lower t \<in> set (AFFIRMATIVE_STRINGS @ NEGATIVE_STRINGS))"
| "accepts (CAbsBool var d) t = (py_lower t \<in> set (AFFIRMATIVE_STRINGS @ NEGATIVE_STRINGS))"
| "accepts (CStr var d) t = True"
| "accepts (CChoice var d choices) t = (t \<in> set choices)"
| "accepts (CLiteral b) t = True"

fun variable_of :: "const_decl \<Rightarrow> string option" where
  "variable_of (CInt var d) = Some var"
| "variable_of (CFloat var d) = Some var"
| "variable_of (CBool var d) = Some var"
| "variable_of (CAbsBool var d) = Some var"
| "variable_of (CStr var d) = Some var"
| "variable_of (CChoice var d choices) = Some var"
| "variable_of (CLiteral b) = None"

definition well_set :: "environ \<Rightarrow> const_decl \<Rightarrow> bool" where
  "well_set env d = (case variable_of d of None \<Rightarrow> True | Some var \<Rightarrow> (case env var of None \<Rightarrow> True | Some t \<Rightarrow> accepts d t))"

text \<open>The values a kind of constant can have.\<close>

fun const_typed :: "const_decl \<Rightarrow> const_value \<Rightarrow> bool" where
  "const_typed (CInt var d) v = (case v of KInt i \<Rightarrow> True | _ \<Rightarrow> False)"
| "const_typed (CFloat var d) v = (case v of KFloat x \<Rightarrow> of_int \<lfloor>x\<rfloor> = x | _ \<Rightarrow> False)"
| "const_typed (CBool var d) v = (case v of KBool b \<Rightarrow> True | _ \<Rightarrow> False)"
| "const_typed (CAbsBool var d) v = (case v of KBool b \<Rightarrow> True | _ \<Rightarrow> False)"
| "const_typed (CStr var d) v = (case v of KStr s \<Rightarrow> d = None \<or> s \<noteq> None | _ \<Rightarrow> False)"
| "const_typed (CChoice var d choices) v = (case v of KStr (Some s) \<Rightarrow> s \<in> set choices | _ \<Rightarrow> False)"
| "const_typed (CLiteral b) v = (v = KBool b)"

fun default_ok :: "const_decl \<Rightarrow> bool" where
  "default_ok (CChoice var d choices) = (d \<in> set choices)"
| "default_ok d = True"

lemmas read_defs = int_value_def get_env_int_def get_env_bool_def get_abs_env_bool_def get_env_str_def get_env_choice_def

lemma read_const_well_set:
  assumes "default_ok d" "well_set env d"
  shows "\<exists>v. read_const env d = Inr v \<and> const_typed d v"
  using assms by (cases d) (auto simp: read_defs well_set_def split: option.splits)

lemma read_const_not_well_set:
  assumes "\<not> well_set env d"
  shows "\<exists>e. read_const env d = Inl e \<and> exc_cls e = ValueError"
  using assms by (cases d) (auto simp: read_defs well_set_def split: option.splits)

lemma load_constants_cases:
  assumes "\<forall>(n, d) \<in> set ds. default_ok d"
  shows "if \<forall>(n, d) \<in> set ds. well_set env d
    then \<exists>vs. load_constants env ds = Inr vs \<and> list_all2 (\<lambda>(n, d) (m, v). n = m \<and> const_typed d v) ds vs
    else \<exists>e. load_constants env ds = Inl e \<and> exc_cls e = ValueError"
  using assms
proof (induction ds)
  case (Cons x ds)
  obtain n d where x: "x = (n, d)" by fastforce
  show ?case
  proof (cases "well_set env d")
    case True
    then obtain v where "read_const env d = Inr v" "const_typed d v" 
      using read_const_well_set [of d env] Cons.prems x by auto
    with True Cons x show ?thesis by (auto split: if_splits)
  next
    case False
    from read_const_not_well_set [OF this] False x show ?thesis by auto
  qed
qed simp

lemma library_defaults_ok: "\<forall>(n, d) \<in> set library_constants. default_ok d"
  by code_simp

lemma well_set_unset: "well_set (\<lambda>_. None) d"
  by (simp add: well_set_def split: option.split)

lemma load_constants_lookup:
  "load_constants env ds = Inr vs \<Longrightarrow> map_of ds n = Some d \<Longrightarrow> \<exists>v. map_of vs n = Some v \<and> read_const env d = Inr v"
  by (induction ds arbitrary: vs) (auto split: sum.splits if_splits)

subsection \<open>Properties\<close>

text \<open>
  Importing the module succeeds exactly when every variable that is set can be read; then there is one value for each
  constant, of the kind it is declared with, and otherwise the import raises \<^verbatim>\<open>ValueError\<close>.
\<close>

theorem constants_loaded_iff_environment_valid:
  "case import_const env of
     Inr vs \<Rightarrow> (\<forall>(n, d) \<in> set library_constants. well_set env d)
       \<and> list_all2 (\<lambda>(n, d) (m, v). n = m \<and> const_typed d v) library_constants vs
   | Inl e \<Rightarrow> exc_cls e = ValueError \<and> \<not> (\<forall>(n, d) \<in> set library_constants. well_set env d)"
proof (cases "\<forall>(n, d) \<in> set library_constants. well_set env d")
  case True
  then show ?thesis using load_constants_cases [OF library_defaults_ok, of env] by (auto simp: import_const_def)
next
  case False
  have "\<exists>e. import_const env = Inl e \<and> exc_cls e = ValueError"
    using load_constants_cases [OF library_defaults_ok, of env] unfolding import_const_def if_not_P [OF False] .
  then obtain e where e: "import_const env = Inl e" "exc_cls e = ValueError" by blast
  show ?thesis unfolding e(1) sum.case using e(2) False by (rule conjI)
qed

theorem constants_loaded_iff_environment_valid_witness:
  "\<exists>vs. import_const (\<lambda>_. None) = Inr vs
    \<and> list_all2 (\<lambda>(n, d) (m, v). n = m \<and> const_typed d v) library_constants vs"
proof -
  have "\<forall>(n, d) \<in> set library_constants. well_set (\<lambda>_. None) d" by (simp add: well_set_unset split: prod.split)
  with constants_loaded_iff_environment_valid [of "\<lambda>_. None"] show ?thesis by (auto split: sum.splits)
qed

text \<open>
  The delays, timeouts and rates are read as integers before they are made floats: a fraction such as a sample rate of one half,
  which the comment beside the constant allows, stops the import.
\<close>

lemma fractional_sample_rate_rejected:
  "\<exists>e. import_const (\<lambda>v. if v = ''JARARACA_OBSERVABILITY_TRACE_SAMPLE_RATE'' then Some ''0.5'' else None) = Inl e"
proof -
  let ?env = "\<lambda>v. if v = ''JARARACA_OBSERVABILITY_TRACE_SAMPLE_RATE'' then Some ''0.5'' else None"
  have "(''OBSERVABILITY_TRACE_SAMPLE_RATE'', CFloat ''JARARACA_OBSERVABILITY_TRACE_SAMPLE_RATE'' 1) \<in> set library_constants"
    by (simp add: constant_sections)
  moreover have "\<not> well_set ?env (CFloat ''JARARACA_OBSERVABILITY_TRACE_SAMPLE_RATE'' 1)"
    by (simp add: well_set_def) code_simp
  ultimately have "\<not> (\<forall>(n, d) \<in> set library_constants. well_set ?env d)" by blast
  with load_constants_cases [OF library_defaults_ok, of ?env] show ?thesis by (auto simp: import_const_def)
qed

text \<open>The constants that decide how tracing crosses the message bus hold one of the two policies.\<close>

lemma trace_boundary_constants:
  assumes "import_const env = Inr vs" "n \<in> {''OBSERVABILITY_TRACE_ASYNC_BOUNDARY'', ''OBSERVABILITY_TRACE_ASYNC_BOUNDARY_ON_RETRY''}"
  shows "map_of vs n = Some (KStr (Some ''child'')) \<or> map_of vs n = Some (KStr (Some ''link''))"
proof -
  have "\<exists>var. map_of library_constants n = Some (CChoice var ''link'' [''child'', ''link''])"
  proof -
    have "map_of library_constants ''OBSERVABILITY_TRACE_ASYNC_BOUNDARY''
        = Some (CChoice ''JARARACA_OBSERVABILITY_TRACE_ASYNC_BOUNDARY'' ''link'' [''child'', ''link''])"
      "map_of library_constants ''OBSERVABILITY_TRACE_ASYNC_BOUNDARY_ON_RETRY''
        = Some (CChoice ''JARARACA_OBSERVABILITY_TRACE_ASYNC_BOUNDARY_ON_RETRY'' ''link'' [''child'', ''link''])"
      by code_simp+
    then show ?thesis using assms(2) by blast
  qed
  then obtain var where "map_of library_constants n = Some (CChoice var ''link'' [''child'', ''link''])" by blast
  from load_constants_lookup [OF assms(1) [unfolded import_const_def] this] show ?thesis
    by (auto simp: read_defs split: option.splits if_splits)
qed

end
