(* ===== verification/Tracing.thy ===== *)
theory Tracing
  imports Publisher Message_Handling Constants Trace
begin

section \<open>Tracing transactions across the message bus\<close>

text \<open>
  \<^verbatim>\<open>observability/providers/otel.py\<close>: the root span of a transaction, whether it continues the incoming trace or starts a new one
  linked to it, the flow id that is carried in the baggage, and the headers that travel with a published message.

  OpenTelemetry is not part of the repository. A span context is its two ids; the W3C propagators write and read the headers
  \<open>traceparent\<close> and \<open>baggage\<close> with an encoding that is a parameter (\<open>otel_lib\<close>), and the SDK starts a span in
  the trace of its parent, or in a new trace when it has none, with ids that are given. The vendor specific \<open>tracestate\<close> is left out.
\<close>

subsection \<open>What the code uses of OpenTelemetry\<close>

record span_context =
  trace_id :: nat
  span_id :: nat

definition is_valid :: "span_context \<Rightarrow> bool" where
  "is_valid sc = (trace_id sc \<noteq> 0 \<and> span_id sc \<noteq> 0)"

definition INVALID_SPAN :: span_context where
  "INVALID_SPAN = \<lparr>trace_id = 0, span_id = 0\<rparr>"

type_synonym baggage = "(string \<times> string) list"

record otel_lib =
  encode_traceparent :: "span_context \<Rightarrow> string"
  decode_traceparent :: "string \<Rightarrow> span_context option"
  encode_baggage :: "baggage \<Rightarrow> string"
  decode_baggage :: "string \<Rightarrow> baggage"
  format_trace_id :: "nat \<Rightarrow> string"
  format_span_id :: "nat \<Rightarrow> string"

text \<open>The propagators; injecting an invalid span context or an empty baggage changes nothing.\<close>

definition inject_trace :: "otel_lib \<Rightarrow> span_context \<Rightarrow> headers \<Rightarrow> headers" where
  "inject_trace lib sc hs = (if is_valid sc then dict_set ''traceparent'' (HStr (encode_traceparent lib sc)) hs else hs)"

definition inject_baggage :: "otel_lib \<Rightarrow> baggage \<Rightarrow> headers \<Rightarrow> headers" where
  "inject_baggage lib b hs = (if b = [] then hs else dict_set ''baggage'' (HStr (encode_baggage lib b)) hs)"

definition extract_trace :: "otel_lib \<Rightarrow> headers \<Rightarrow> span_context" where
  "extract_trace lib carrier =
     (case map_of carrier ''traceparent'' of
        Some (HStr v) \<Rightarrow> (case decode_traceparent lib v of Some sc \<Rightarrow> sc | None \<Rightarrow> INVALID_SPAN)
      | _ \<Rightarrow> INVALID_SPAN)"

definition extract_baggage :: "otel_lib \<Rightarrow> headers \<Rightarrow> baggage" where
  "extract_baggage lib carrier =
     (case map_of carrier ''baggage'' of Some (HStr v) \<Rightarrow> decode_baggage lib v | _ \<Rightarrow> [])"

text \<open>A started span: in the trace of a valid parent, in a new one otherwise.\<close>

definition started_span :: "span_context \<Rightarrow> span_context \<Rightarrow> span_context" where
  "started_span new_ids parent = \<lparr>trace_id = (if is_valid parent then trace_id parent else trace_id new_ids), span_id = span_id new_ids\<rparr>"

subsection \<open>Transactions\<close>

datatype attr = AStr string | AInt int | AFloat rat | ABool bool | ANone

type_synonym attributes = "(string \<times> attr) list"

record http_request =
  req_method :: string
  req_url :: string
  req_path :: string
  req_query :: string
  req_route_path :: string
  req_endpoint :: string
  req_path_params :: "(string \<times> string) list"
  req_query_params :: "(string \<times> string) list"
  req_headers :: "(string \<times> string) list"
  req_client_host :: "string option"
  req_body :: string

record bus_tx =
  tx_topic :: string
  tx_message_id :: "string option"
  tx_message_name :: string
  tx_message_module :: string
  tx_category :: string
  tx_message_type :: string
  tx_message_topic :: string
  tx_attempt :: int
  tx_slot_wait :: rat
  tx_boundary :: "string option"       \<comment> \<open>the class attribute \<open>TRACE_BOUNDARY\<close>, when there is one\<close>

record websocket_tx =
  ws_url :: string
  ws_path :: string
  ws_route_path :: string
  ws_headers :: "(string \<times> string) list"

record scheduler_tx =
  sched_task_name :: string
  sched_scheduled_to :: string
  sched_cron :: string
  sched_triggered_at :: string
  sched_slot_wait :: rat

datatype tx_data = HttpTx http_request | BusTx bus_tx | WebSocketTx websocket_tx | SchedulerTx scheduler_tx

record controller_member =
  cm_class_name :: string
  cm_class_module :: string
  cm_member_name :: string
  cm_member_module :: string

fun context_type :: "tx_data \<Rightarrow> string" where
  "context_type (HttpTx r) = ''http''"
| "context_type (BusTx b) = ''message_bus''"
| "context_type (WebSocketTx w) = ''websocket''"
| "context_type (SchedulerTx t) = ''scheduler''"

text \<open>The constants the module reads.\<close>

record trace_config =
  ASYNC_BOUNDARY :: string
  ASYNC_BOUNDARY_ON_RETRY :: string
  SPAN_NAME_STYLE :: string
  PUBLISH_SPAN :: bool
  MAX_BODY_SIZE :: int
  USE_ABSOLUTE_PATH :: bool

definition str_const :: "(string \<times> const_value) list \<Rightarrow> string \<Rightarrow> string" where
  "str_const vs n = (case map_of vs n of Some (KStr (Some s)) \<Rightarrow> s | _ \<Rightarrow> '''')"

definition bool_const :: "(string \<times> const_value) list \<Rightarrow> string \<Rightarrow> bool" where
  "bool_const vs n = (map_of vs n = Some (KBool True))"

definition int_const :: "(string \<times> const_value) list \<Rightarrow> string \<Rightarrow> int" where
  "int_const vs n = (case map_of vs n of Some (KInt i) \<Rightarrow> i | _ \<Rightarrow> 0)"

definition trace_config_of :: "(string \<times> const_value) list \<Rightarrow> trace_config" where
  "trace_config_of vs =
     \<lparr>ASYNC_BOUNDARY = str_const vs ''OBSERVABILITY_TRACE_ASYNC_BOUNDARY'',
      ASYNC_BOUNDARY_ON_RETRY = str_const vs ''OBSERVABILITY_TRACE_ASYNC_BOUNDARY_ON_RETRY'',
      SPAN_NAME_STYLE = str_const vs ''OBSERVABILITY_TRACE_MESSAGEBUS_SPAN_NAME_STYLE'',
      PUBLISH_SPAN = bool_const vs ''OBSERVABILITY_TRACE_PUBLISH_SPAN'',
      MAX_BODY_SIZE = int_const vs ''OBSERVABILITY_TRACE_SPAN_HTTP_REQUEST_MAX_BODY_SIZE_ATTRIBUTE_VALUE'',
      USE_ABSOLUTE_PATH = bool_const vs ''OBSERVABILITY_TRACE_SPAN_HTTP_REQUEST_USE_ABSOLUTE_PATH_ON_TITLE''\<rparr>"

subsection \<open>Boundaries, names and attributes\<close>

definition resolve_trace_boundary :: "trace_config \<Rightarrow> tx_data \<Rightarrow> string" where
  "resolve_trace_boundary cfg tx =
     (case tx of
        BusTx b \<Rightarrow>
          (let policy = (case tx_boundary b of Some p \<Rightarrow> p | None \<Rightarrow> ''default'')
           in if policy = ''child'' \<or> policy = ''link'' then policy
              else if tx_attempt b > 1 then ASYNC_BOUNDARY_ON_RETRY cfg
              else ASYNC_BOUNDARY cfg)
      | _ \<Rightarrow> ''child'')"

definition build_message_bus_span_name :: "trace_config \<Rightarrow> bus_tx \<Rightarrow> string" where
  "build_message_bus_span_name cfg b =
     (if SPAN_NAME_STYLE cfg = ''compact'' then py_upper (tx_message_type b) @ '' '' @ tx_message_topic b
      else ''Att#'' @ str_int (tx_attempt b) @ '' Message Bus '' @ tx_topic b)"

definition prefixed :: "string \<Rightarrow> (string \<times> string) list \<Rightarrow> attributes" where
  "prefixed p kvs = map (\<lambda>(k, v). (p @ k, AStr v)) kvs"

fun transaction_attributes :: "tx_data \<Rightarrow> attributes" where
  "transaction_attributes (HttpTx r) =
     fold (\<lambda>e d. dict_update d e)
       [prefixed ''http.request.path_param.'' (req_path_params r),
        prefixed ''http.request.query_param.'' (req_query_params r),
        prefixed ''http.request.header.'' (req_headers r),
        [(''http.request.client.host'', AStr (case req_client_host r of Some h \<Rightarrow> h | None \<Rightarrow> ''''))]]
       [(''http.method'', AStr (req_method r)), (''http.url'', AStr (req_url r)), (''http.path'', AStr (req_path r)),
        (''http.route.path'', AStr (req_route_path r)), (''http.route.endpoint.name'', AStr (req_endpoint r)),
        (''http.query'', AStr (req_query r))]"
| "transaction_attributes (BusTx b) =
     [(''bus.message.id'', case tx_message_id b of Some i \<Rightarrow> AStr i | None \<Rightarrow> ANone),
      (''bus.message.name'', AStr (tx_message_name b)), (''bus.message.module'', AStr (tx_message_module b)),
      (''bus.message.category'', AStr (tx_category b)), (''bus.message.type'', AStr (tx_message_type b)),
      (''bus.message.topic'', AStr (tx_message_topic b)), (''bus.message.broker_topic'', AStr (tx_topic b)),
      (''bus.message.processing_attempt'', AInt (tx_attempt b)), (''bus.message.slot_wait_seconds'', AFloat (tx_slot_wait b))]"
| "transaction_attributes (WebSocketTx w) = [(''ws.url'', AStr (ws_url w))]"
| "transaction_attributes (SchedulerTx t) =
     [(''sched.task_name'', AStr (sched_task_name t)), (''sched.scheduled_to'', AStr (sched_scheduled_to t)),
      (''sched.cron_expression'', AStr (sched_cron t)), (''sched.triggered_at'', AStr (sched_triggered_at t)),
      (''sched.slot_wait_seconds'', AFloat (sched_slot_wait t))]"

definition extract_context_attributes :: "controller_member \<Rightarrow> tx_data \<Rightarrow> attributes" where
  "extract_context_attributes cm tx =
     dict_update
       [(''app.context_type'', AStr (context_type tx)),
        (''controller_member_reflect.rest_controller.class_name'', AStr (cm_class_name cm)),
        (''controller_member_reflect.rest_controller.module'', AStr (cm_class_module cm)),
        (''controller_member_reflect.member_function.name'', AStr (cm_member_name cm)),
        (''controller_member_reflect.member_function.module'', AStr (cm_member_module cm))]
       (transaction_attributes tx)"

subsection \<open>The root span\<close>

text \<open>The ambient context when a transaction starts: the current span and the baggage.\<close>

record ambient =
  current_span :: span_context
  recording :: bool
  ambient_baggage :: baggage

record root_span =
  span_name :: string
  span_ctx :: span_context
  span_parent :: span_context          \<comment> \<open>invalid for the root of a trace\<close>
  span_links :: "span_context list"
  span_attributes :: attributes

text \<open>What the body of the transaction sees: the root span, the flow id and the implicit headers; and what was put in the scope.\<close>

record root_context =
  root :: root_span
  flow_id :: string
  implicit_headers :: headers
  scope_traceparent :: "string option"
  scope_trace_id :: "string option"

definition str_headers :: "(string \<times> string) list \<Rightarrow> headers" where
  "str_headers hs = map (\<lambda>(k, v). (k, HStr v)) hs"

text \<open>\<open>headers\<close> and \<open>title\<close> of a transaction.\<close>

fun incoming_headers :: "headers \<Rightarrow> tx_data \<Rightarrow> headers" where
  "incoming_headers inherited (HttpTx r) = str_headers (req_headers r)"
| "incoming_headers inherited (BusTx b) = inherited"
| "incoming_headers inherited (WebSocketTx w) = str_headers (ws_headers w)"
| "incoming_headers inherited (SchedulerTx t) = []"

fun span_title :: "trace_config \<Rightarrow> tx_data \<Rightarrow> string" where
  "span_title cfg (HttpTx r) =
     ''HTTP '' @ req_method r @ '' '' @ (if USE_ABSOLUTE_PATH cfg then req_path r else req_route_path r)"
| "span_title cfg (BusTx b) = build_message_bus_span_name cfg b"
| "span_title cfg (WebSocketTx w) = ''WebSocket '' @ (if USE_ABSOLUTE_PATH cfg then ws_path w else ws_route_path w)"
| "span_title cfg (SchedulerTx t) = ''Scheduler Task '' @ sched_task_name t"

text \<open>\<open>body[:n]\<close>, where a negative bound counts from the end; bytes that are no text are dropped by the caller.\<close>

definition py_prefix :: "int \<Rightarrow> string \<Rightarrow> string" where
  "py_prefix n s = take (nat (if n < 0 then int (length s) + n else n)) s"

fun body_attribute :: "trace_config \<Rightarrow> (string \<Rightarrow> string) \<Rightarrow> tx_data \<Rightarrow> attributes" where
  "body_attribute cfg decode (HttpTx r) =
     (if py_startswith (case map_of (req_headers r) ''content-type'' of Some v \<Rightarrow> v | None \<Rightarrow> '''') ''application/json''
      then [(''http.request.body'', AStr (decode (py_prefix (MAX_BODY_SIZE cfg) (req_body r))))] else [])"
| "body_attribute cfg decode tx = []"

definition trace_carrier :: "headers \<Rightarrow> headers" where
  "trace_carrier hs = filter (\<lambda>(k, v). py_startswith (py_lower k) ''traceparent'' \<or> py_startswith (py_lower k) ''tracestate'') hs"

definition baggage_carrier :: "headers \<Rightarrow> headers" where
  "baggage_carrier hs = filter (\<lambda>(k, v). py_startswith (py_lower k) ''baggage'') hs"

definition already_instrumented :: "ambient \<Rightarrow> bool" where
  "already_instrumented amb = (is_valid (current_span amb) \<and> recording amb)"

text \<open>The span context and the baggage of \<open>ctx2\<close>.\<close>

definition incoming_context :: "otel_lib \<Rightarrow> ambient \<Rightarrow> headers \<Rightarrow> span_context \<times> baggage" where
  "incoming_context lib amb hs =
     (if already_instrumented amb then (current_span amb, ambient_baggage amb)
      else (extract_trace lib (trace_carrier hs), extract_baggage lib (baggage_carrier hs)))"

text \<open>Whether a link to the incoming span replaces the parent.\<close>

definition crosses_by_link :: "trace_config \<Rightarrow> tx_data \<Rightarrow> span_context \<Rightarrow> bool" where
  "crosses_by_link cfg tx incoming = (resolve_trace_boundary cfg tx = ''link'' \<and> is_valid incoming)"

definition flow_parent_attributes :: "otel_lib \<Rightarrow> span_context \<Rightarrow> attributes" where
  "flow_parent_attributes lib incoming =
     [(''flow.parent_trace_id'', AStr (format_trace_id lib (trace_id incoming))),
      (''flow.parent_span_id'', AStr (format_span_id lib (span_id incoming)))]"

text \<open>The root span: the current one when the boundary is instrumented, a new one otherwise. \<open>new_ids\<close> are the ids of the SDK.\<close>

definition open_root_span :: "otel_lib \<Rightarrow> trace_config \<Rightarrow> ambient \<Rightarrow> span_context \<Rightarrow> tx_data \<Rightarrow> attributes \<Rightarrow>
    span_context \<Rightarrow> root_span" where
  "open_root_span lib cfg amb new_ids tx attrs incoming =
     (let linked = crosses_by_link cfg tx incoming;
          attrs' = (if linked then dict_update attrs (flow_parent_attributes lib incoming) else attrs);
          parent = (if linked then INVALID_SPAN else incoming)
      in if already_instrumented amb
         then \<lparr>span_name = span_title cfg tx, span_ctx = current_span amb, span_parent = INVALID_SPAN, span_links = [],
               span_attributes = attrs'\<rparr>
         else \<lparr>span_name = span_title cfg tx, span_ctx = started_span new_ids parent, span_parent = parent,
               span_links = (if linked then [incoming] else []), span_attributes = attrs'\<rparr>)"

definition resolve_flow_id :: "otel_lib \<Rightarrow> baggage \<Rightarrow> span_context \<Rightarrow> string" where
  "resolve_flow_id lib b sc = (case map_of b ''flow.id'' of Some f \<Rightarrow> f | None \<Rightarrow> format_trace_id lib (trace_id sc))"

definition outgoing_headers :: "otel_lib \<Rightarrow> ambient \<Rightarrow> baggage \<Rightarrow> string \<Rightarrow> span_context \<Rightarrow> headers" where
  "outgoing_headers lib amb incoming flow sc =
     inject_baggage lib (dict_set ''flow.id'' flow (dict_update (ambient_baggage amb) incoming)) (inject_trace lib sc [])"

text \<open>\<open>OtelTracingContextProviderFactory.root_setup\<close>, up to the \<open>yield\<close>\<close>

definition root_setup :: "otel_lib \<Rightarrow> trace_config \<Rightarrow> (string \<Rightarrow> string) \<Rightarrow> ambient \<Rightarrow> span_context \<Rightarrow> headers \<Rightarrow>
    controller_member \<Rightarrow> tx_data \<Rightarrow> root_context" where
  "root_setup lib cfg decode amb new_ids previous cm tx =
     (let attrs = dict_update (extract_context_attributes cm tx) (body_attribute cfg decode tx);
          (incoming, bag) = incoming_context lib amb (incoming_headers previous tx);
          rsp = open_root_span lib cfg amb new_ids tx attrs incoming;
          sc = span_ctx rsp;
          flow = resolve_flow_id lib bag sc;
          rsp' = rsp\<lparr>span_attributes := dict_set ''flow.id'' (AStr flow) (span_attributes rsp)\<rparr>;
          in_scope = (context_type tx = ''http'' \<or> context_type tx = ''websocket'')
      in \<lparr>root = rsp', flow_id = flow,
          implicit_headers = provide_implicit_headers False (outgoing_headers lib amb bag flow sc) previous,
          scope_traceparent = (if in_scope then Some (if is_valid sc then encode_traceparent lib sc else '''') else None),
          scope_trace_id = (if in_scope then Some (format_trace_id lib (trace_id sc)) else None)\<rparr>)"

subsection \<open>Publishing\<close>

definition publish_attributes :: "string \<Rightarrow> string \<Rightarrow> (string \<times> attr option) list \<Rightarrow> string option \<Rightarrow> attributes" where
  "publish_attributes topic mode optional flow =
     dict_update
       [(''bus.message.topic'', AStr topic), (''bus.publish.mode'', AStr mode), (''messaging.system'', AStr ''rabbitmq''),
        (''messaging.operation'', AStr ''publish'')]
       (List.map_filter (\<lambda>(k, v). map_option (Pair k) v) (optional @ [(''flow.id'', map_option AStr flow)]))"

text \<open>
  \<open>trace_message_publish\<close>: the headers that travel with the message. \<open>parent\<close> is the current span, \<open>bag\<close> the baggage of the
  context and \<open>flow\<close> the flow id of the transaction, if there is one.
\<close>

definition trace_message_publish :: "otel_lib \<Rightarrow> trace_config \<Rightarrow> span_context \<Rightarrow> span_context \<Rightarrow> baggage \<Rightarrow> string option \<Rightarrow>
    headers \<Rightarrow> headers" where
  "trace_message_publish lib cfg new_ids parent bag flow inherited =
     (if \<not> PUBLISH_SPAN cfg then inherited
      else (let sc = started_span new_ids parent;
                hs = inject_trace lib sc inherited
            in if ''baggage'' \<in> fst ` set hs then hs
               else inject_baggage lib
                 (dict_set ''flow.id'' (str_or flow (format_trace_id lib (trace_id sc))) bag) hs))"


subsection \<open>Hops\<close>

text \<open>
  How a message leaves a transaction: published at once, stored for later with headers of its own
  (\<open>DelayedMessageBrokerBackend\<close> keeps them), or stored again by the worker because its handler failed.
\<close>

datatype hop = PublishNow | PublishDelayed headers | RetryLater incoming int "exc option"

record hop_env =
  hop_fresh :: span_context
  hop_parent :: span_context
  hop_bag :: baggage

fun hop_headers :: "otel_lib \<Rightarrow> trace_config \<Rightarrow> hop_env \<Rightarrow> hop \<Rightarrow> root_context \<Rightarrow> headers" where
  "hop_headers lib cfg env PublishNow r =
     trace_message_publish lib cfg (hop_fresh env) (hop_parent env) (hop_bag env) (Some (flow_id r)) (implicit_headers r)"
| "hop_headers lib cfg env (PublishDelayed own) r =
     dict_update own (filter (\<lambda>(k, v). v \<noteq> HNone)
       (trace_message_publish lib cfg (hop_fresh env) (hop_parent env) (hop_bag env) (Some (flow_id r)) (implicit_headers r)))"
| "hop_headers lib cfg env (RetryLater msg n e) r = retry_headers msg (implicit_headers r) n e"

text \<open>A worker that handles a message with these headers; nothing has provided implicit headers before.\<close>

definition handled :: "otel_lib \<Rightarrow> trace_config \<Rightarrow> ambient \<Rightarrow> span_context \<Rightarrow> controller_member \<Rightarrow> bus_tx \<Rightarrow> headers \<Rightarrow>
    root_context" where
  "handled lib cfg amb new_ids cm b hs =
     root_setup lib cfg (\<lambda>s. s) amb new_ids (provide_implicit_headers False (filter (\<lambda>(k, v). plain_value v) hs) []) cm (BusTx b)"

record consumption =
  c_hop :: hop
  c_env :: hop_env
  c_publisher_config :: trace_config
  c_config :: trace_config
  c_ambient :: ambient
  c_fresh :: span_context
  c_member :: controller_member
  c_tx :: bus_tx

text \<open>A chain of transactions, each of which handles a message of the one before.\<close>

fun flow_chain :: "otel_lib \<Rightarrow> root_context \<Rightarrow> consumption list \<Rightarrow> root_context list" where
  "flow_chain lib r [] = [r]"
| "flow_chain lib r (c # cs) =
     r # flow_chain lib (handled lib (c_config c) (c_ambient c) (c_fresh c) (c_member c) (c_tx c)
           (hop_headers lib (c_publisher_config c) (c_env c) (c_hop c) r)) cs"

subsection \<open>Lemmas\<close>

text \<open>The laws of the W3C encodings the code relies on.\<close>

definition w3c_laws :: "otel_lib \<Rightarrow> bool" where
  "w3c_laws lib \<longleftrightarrow>
     (\<forall>sc. is_valid sc \<longrightarrow> decode_traceparent lib (encode_traceparent lib sc) = Some sc)
     \<and> (\<forall>b. map_of (decode_baggage lib (encode_baggage lib b)) ''flow.id'' = map_of b ''flow.id'')"

definition carries :: "otel_lib \<Rightarrow> string \<Rightarrow> headers \<Rightarrow> bool" where
  "carries lib flow hs \<longleftrightarrow>
     distinct (map fst hs) \<and> (\<exists>b. map_of hs ''baggage'' = Some (HStr (encode_baggage lib b)) \<and> map_of b ''flow.id'' = Some flow)"

lemma map_of_filter_key: "P k \<Longrightarrow> map_of (filter (\<lambda>(k, v). P k) hs) k = map_of hs k"
  by (induction hs) auto

lemma carriers_keep:
  "map_of (trace_carrier hs) ''traceparent'' = map_of hs ''traceparent''" "map_of (baggage_carrier hs) ''baggage'' = map_of hs ''baggage''"
proof -
  have "py_startswith (py_lower ''traceparent'') ''traceparent''" "py_startswith (py_lower ''baggage'') ''baggage''"
    by code_simp+
  then show "map_of (trace_carrier hs) ''traceparent'' = map_of hs ''traceparent''"
    "map_of (baggage_carrier hs) ''baggage'' = map_of hs ''baggage''"
    unfolding trace_carrier_def baggage_carrier_def by (subst map_of_filter_key; simp)+
qed

lemma carries_dict_update:
  assumes "carries lib f hs" "distinct (map fst d)"
  shows "carries lib f (dict_update d hs)"
  using assms distinct_dict_update [OF assms(2)] map_of_dict_update [of hs d]
  by (auto simp: carries_def map_add_def)

lemma carries_filter:
  assumes "carries lib f hs" "\<And>s. P (HStr s)"
  shows "carries lib f (filter (\<lambda>(k, v). P v) hs)"
  using assms map_of_filter_val [of hs P "''baggage''"] distinct_map_fst_filter [of hs] by (auto simp: carries_def)

lemma carries_dict_set: "carries lib f hs \<Longrightarrow> k \<noteq> ''baggage'' \<Longrightarrow> carries lib f (dict_set k v hs)"
  by (simp add: carries_def del: map_of_eq_Some_iff)

lemma carries_inject_trace: "carries lib f hs \<Longrightarrow> carries lib f (inject_trace lib sc hs)"
  by (simp add: inject_trace_def carries_dict_set)

lemma carries_publish:
  assumes "carries lib f hs"
  shows "carries lib f (trace_message_publish lib cfg new_ids parent bag flow hs)"
proof -
  have "''baggage'' \<in> fst ` set (inject_trace lib sc hs)" for sc
    using carries_inject_trace [OF assms, of sc] by (force simp: carries_def dest: map_of_SomeD)
  then show ?thesis using assms carries_inject_trace [OF assms] by (simp add: trace_message_publish_def Let_def)
qed

lemma carries_retry:
  assumes "carries lib f hs"
  shows "carries lib f (retry_headers msg hs n e)"
proof -
  have "carries lib f (dict_update (dict_update [] (forwardable_headers msg)) (filter (\<lambda>(k, v). v \<noteq> HNone) hs))"
    by (intro carries_dict_update carries_filter assms distinct_dict_update) simp_all
  then show ?thesis by (auto simp: retry_headers_def Let_def intro!: carries_dict_set split: option.split)
qed

lemma root_setup_carries:
  assumes "distinct (map fst previous)"
  shows "carries lib (flow_id (root_setup lib cfg decode amb new_ids previous cm tx))
    (implicit_headers (root_setup lib cfg decode amb new_ids previous cm tx))"
proof -
  have "dict_set ''flow.id'' flow b \<noteq> []" for flow and b :: baggage by (cases b) (auto split: if_splits)
  then have "carries lib flow (outgoing_headers lib amb bag flow sc)" for flow bag sc
    by (auto simp: carries_def outgoing_headers_def inject_baggage_def inject_trace_def simp del: map_of_eq_Some_iff)
  then show ?thesis using carries_dict_update [OF _ assms]
    by (simp add: root_setup_def Let_def case_prod_beta provide_implicit_headers_def)
qed

lemma hop_carries:
  assumes "carries lib (flow_id r) (implicit_headers r)" "\<And>own. h = PublishDelayed own \<Longrightarrow> distinct (map fst own)"
  shows "carries lib (flow_id r) (hop_headers lib cfg env h r)"
proof (cases h)
  case (PublishDelayed own)
  then show ?thesis using assms by (simp add: carries_dict_update carries_filter carries_publish)
qed (use assms(1) in \<open>simp_all add: carries_publish carries_retry\<close>)

text \<open>The implicit headers of a worker that handles a message.\<close>

lemma handled_headers:
  assumes "carries lib f hs"
  shows "carries lib f (provide_implicit_headers False (filter (\<lambda>(k, v). plain_value v) hs) [])"
  using assms by (simp add: provide_implicit_headers_def carries_dict_update carries_filter)

lemma handled_flow:
  assumes "w3c_laws lib" "\<not> already_instrumented amb" "carries lib f hs"
  shows "flow_id (handled lib cfg amb new_ids cm b hs) = f"
proof -
  let ?p = "provide_implicit_headers False (filter (\<lambda>(k, v). plain_value v) hs) []"
  obtain bag where "map_of ?p ''baggage'' = Some (HStr (encode_baggage lib bag))" "map_of bag ''flow.id'' = Some f"
    using handled_headers [OF assms(3)] by (auto simp: carries_def)
  then have "map_of (extract_baggage lib (baggage_carrier ?p)) ''flow.id'' = Some f"
    using assms(1) by (simp add: extract_baggage_def carriers_keep w3c_laws_def)
  then show ?thesis using assms(2)
    by (simp add: handled_def root_setup_def Let_def case_prod_beta incoming_context_def resolve_flow_id_def)
qed

lemma handled_carries:
  assumes "carries lib f hs"
  shows "carries lib (flow_id (handled lib cfg amb new_ids cm b hs)) (implicit_headers (handled lib cfg amb new_ids cm b hs))"
  unfolding handled_def by (rule root_setup_carries) (use handled_headers [OF assms] in \<open>simp add: carries_def\<close>)


text \<open>The headers of a message published under a span of its own hold that span.\<close>

definition holds_span :: "otel_lib \<Rightarrow> span_context \<Rightarrow> headers \<Rightarrow> bool" where
  "holds_span lib sc hs \<longleftrightarrow> distinct (map fst hs) \<and> map_of hs ''traceparent'' = Some (HStr (encode_traceparent lib sc))"

lemma publish_holds_span:
  assumes "PUBLISH_SPAN cfg" "is_valid (started_span new_ids parent)" "distinct (map fst hs)"
  shows "holds_span lib (started_span new_ids parent) (trace_message_publish lib cfg new_ids parent bag flow hs)"
  using assms
  by (auto simp: holds_span_def trace_message_publish_def Let_def inject_trace_def inject_baggage_def simp del: map_of_eq_Some_iff)

lemma holds_span_handled:
  assumes "holds_span lib sc hs"
  shows "map_of (provide_implicit_headers False (filter (\<lambda>(k, v). plain_value v) hs) []) ''traceparent''
    = Some (HStr (encode_traceparent lib sc))"
proof -
  let ?f = "filter (\<lambda>(k, v). plain_value v) hs"
  have "map_of ?f ''traceparent'' = Some (HStr (encode_traceparent lib sc))" "distinct (map fst ?f)"
    using assms map_of_filter_val [of hs plain_value "''traceparent''"] distinct_map_fst_filter [of hs]
    by (simp_all add: holds_span_def)
  then show ?thesis by (simp add: provide_implicit_headers_def map_of_dict_update map_add_def del: map_of_eq_Some_iff)
qed

lemma handled_root:
  assumes "w3c_laws lib" "\<not> already_instrumented amb" "holds_span lib sc hs" "is_valid sc"
  shows "root (handled lib cfg amb new_ids cm b hs) =
    (let rsp = open_root_span lib cfg amb new_ids (BusTx b) (extract_context_attributes cm (BusTx b)) sc
     in rsp\<lparr>span_attributes := dict_set ''flow.id'' (AStr (flow_id (handled lib cfg amb new_ids cm b hs))) (span_attributes rsp)\<rparr>)"
proof -
  have "extract_trace lib (trace_carrier (provide_implicit_headers False (filter (\<lambda>(k, v). plain_value v) hs) [])) = sc"
    using holds_span_handled [OF assms(3)] assms(1,4) by (simp add: extract_trace_def carriers_keep w3c_laws_def)
  then show ?thesis using assms(2)
    by (simp add: handled_def root_setup_def Let_def case_prod_beta incoming_context_def dict_update_def)
qed

text \<open>The two ways a handler is attached to the span that published its message.\<close>

definition continues_trace :: "span_context \<Rightarrow> root_span \<Rightarrow> bool" where
  "continues_trace sc rsp \<longleftrightarrow> span_parent rsp = sc \<and> trace_id (span_ctx rsp) = trace_id sc \<and> span_links rsp = []"

definition linked_trace :: "otel_lib \<Rightarrow> span_context \<Rightarrow> span_context \<Rightarrow> root_span \<Rightarrow> bool" where
  "linked_trace lib sc new_ids rsp \<longleftrightarrow>
     span_parent rsp = INVALID_SPAN \<and> trace_id (span_ctx rsp) = trace_id new_ids \<and> span_links rsp = [sc]
     \<and> map_of (span_attributes rsp) ''flow.parent_trace_id'' = Some (AStr (format_trace_id lib (trace_id sc)))
     \<and> map_of (span_attributes rsp) ''flow.parent_span_id'' = Some (AStr (format_span_id lib (span_id sc)))"

lemma root_by_boundary:
  assumes "\<not> already_instrumented amb" "is_valid sc"
    "rsp = open_root_span lib cfg amb new_ids tx attrs sc" "rsp' = rsp\<lparr>span_attributes := dict_set ''flow.id'' v (span_attributes rsp)\<rparr>"
  shows "resolve_trace_boundary cfg tx = ''link'' \<Longrightarrow> linked_trace lib sc new_ids rsp'"
    and "resolve_trace_boundary cfg tx \<noteq> ''link'' \<Longrightarrow> continues_trace sc rsp'"
  using assms
  by (auto simp: open_root_span_def crosses_by_link_def Let_def linked_trace_def continues_trace_def started_span_def
      flow_parent_attributes_def dict_update_def INVALID_SPAN_def is_valid_def)

lemma boundary_of_constants:
  assumes "import_const env = Inr vs"
  shows "resolve_trace_boundary (trace_config_of vs) tx \<in> {''child'', ''link''}"
  using trace_boundary_constants [OF assms, of "''OBSERVABILITY_TRACE_ASYNC_BOUNDARY''"]
    trace_boundary_constants [OF assms, of "''OBSERVABILITY_TRACE_ASYNC_BOUNDARY_ON_RETRY''"]
  by (cases tx) (auto simp: resolve_trace_boundary_def trace_config_of_def str_const_def Let_def)

subsection \<open>Properties\<close>


text \<open>A concrete encoding: ids in unary, and a baggage that carries the flow id only.\<close>

definition sample_lib :: otel_lib where
  "sample_lib =
     \<lparr>encode_traceparent = (\<lambda>sc. replicate (trace_id sc) (CHR ''t'') @ replicate (span_id sc) (CHR ''s'')),
      decode_traceparent = (\<lambda>v. Some \<lparr>trace_id = length (filter ((=) (CHR ''t'')) v), span_id = length (filter ((=) (CHR ''s'')) v)\<rparr>),
      encode_baggage = (\<lambda>b. case map_of b ''flow.id'' of Some f \<Rightarrow> CHR ''='' # f | None \<Rightarrow> []),
      decode_baggage = (\<lambda>v. case v of [] \<Rightarrow> [] | c # f \<Rightarrow> [(''flow.id'', f)]),
      format_trace_id = str_nat, format_span_id = str_nat\<rparr>"

lemma sample_lib_laws: "w3c_laws sample_lib"
  by (auto simp: w3c_laws_def sample_lib_def split: option.splits)

definition sample_trace_config :: trace_config where
  "sample_trace_config = \<lparr>ASYNC_BOUNDARY = ''link'', ASYNC_BOUNDARY_ON_RETRY = ''link'', SPAN_NAME_STYLE = ''compact'',
     PUBLISH_SPAN = True, MAX_BODY_SIZE = 5000, USE_ABSOLUTE_PATH = False\<rparr>"

definition quiet :: ambient where
  "quiet = \<lparr>current_span = INVALID_SPAN, recording = False, ambient_baggage = []\<rparr>"

definition sample_member :: controller_member where
  "sample_member = \<lparr>cm_class_name = ''Orders'', cm_class_module = ''app'', cm_member_name = ''handle'', cm_member_module = ''app''\<rparr>"

definition sample_bus_tx :: "int \<Rightarrow> bus_tx" where
  "sample_bus_tx n = \<lparr>tx_topic = ''order.created.handle'', tx_message_id = Some ''m1'', tx_message_name = ''OrderCreated'', tx_message_module = ''app'',
     tx_category = ''orders'', tx_message_type = ''event'', tx_message_topic = ''order.created'', tx_attempt = n, tx_slot_wait = 0,
     tx_boundary = None\<rparr>"

definition sample_hop_env :: hop_env where
  "sample_hop_env = \<lparr>hop_fresh = \<lparr>trace_id = 5, span_id = 6\<rparr>, hop_parent = \<lparr>trace_id = 1, span_id = 2\<rparr>, hop_bag = []\<rparr>"

definition sample_hop :: "hop \<Rightarrow> consumption" where
  "sample_hop h = \<lparr>c_hop = h, c_env = sample_hop_env, c_publisher_config = sample_trace_config, c_config = sample_trace_config,
     c_ambient = quiet, c_fresh = \<lparr>trace_id = 8, span_id = 9\<rparr>, c_member = sample_member, c_tx = sample_bus_tx 1\<rparr>"

lemma quiet_not_instrumented: "\<not> already_instrumented quiet"
  by (simp add: already_instrumented_def quiet_def INVALID_SPAN_def is_valid_def)

definition sample_root :: root_context where
  "sample_root = root_setup sample_lib sample_trace_config (\<lambda>s. s) quiet \<lparr>trace_id = 1, span_id = 2\<rparr> [] sample_member
     (SchedulerTx \<lparr>sched_task_name = ''daily'', sched_scheduled_to = '''', sched_cron = '''', sched_triggered_at = '''', sched_slot_wait = 0\<rparr>)"

lemma sample_root_flow: "flow_id sample_root = ''1''"
  by (simp add: sample_root_def root_setup_def Let_def incoming_context_def quiet_not_instrumented trace_carrier_def
      baggage_carrier_def extract_trace_def extract_baggage_def resolve_flow_id_def open_root_span_def crosses_by_link_def
      resolve_trace_boundary_def started_span_def INVALID_SPAN_def is_valid_def sample_lib_def str_nat.simps)
     code_simp


text \<open>
  With the constants of a successful import, a handler is attached to the span that published its message in one of two
  ways, by its boundary policy: as a child in the same trace, without links, or as the root of a new trace with
  one link to the publishing span and its ids in the attributes.
\<close>

theorem handler_attached_by_policy:
  assumes "import_const env = Inr vs" "w3c_laws lib" "\<not> already_instrumented amb"
    and "PUBLISH_SPAN pcfg" "sc = started_span (hop_fresh henv) (hop_parent henv)" "is_valid sc" "distinct (map fst (implicit_headers r))"
    and "rsp = root (handled lib (trace_config_of vs) amb new_ids cm b (hop_headers lib pcfg henv PublishNow r))"
  shows "resolve_trace_boundary (trace_config_of vs) (BusTx b) = ''child'' \<and> continues_trace sc rsp
    \<or> resolve_trace_boundary (trace_config_of vs) (BusTx b) = ''link'' \<and> linked_trace lib sc new_ids rsp"
proof -
  let ?hs = "hop_headers lib pcfg henv PublishNow r"
  have "holds_span lib sc ?hs" using publish_holds_span [OF assms(4) _ assms(7)] assms(5,6) by simp
  from handled_root [OF assms(2,3) this assms(6), of "trace_config_of vs" new_ids cm b]
  have eq: "\<exists>v sp. sp = open_root_span lib (trace_config_of vs) amb new_ids (BusTx b) (extract_context_attributes cm (BusTx b)) sc
      \<and> rsp = sp\<lparr>span_attributes := dict_set ''flow.id'' v (span_attributes sp)\<rparr>"
    unfolding assms(8) Let_def by blast
  then obtain v sp where sp: "sp = open_root_span lib (trace_config_of vs) amb new_ids (BusTx b) (extract_context_attributes cm (BusTx b)) sc"
    "rsp = sp\<lparr>span_attributes := dict_set ''flow.id'' v (span_attributes sp)\<rparr>" by blast
  show ?thesis
    using boundary_of_constants [OF assms(1), of "BusTx b"] root_by_boundary [OF assms(3,6) sp] by auto
qed

theorem handler_attached_by_policy_witness:
  "\<exists>vs. import_const (\<lambda>_. None) = Inr vs
    \<and> linked_trace sample_lib \<lparr>trace_id = 1, span_id = 6\<rparr> \<lparr>trace_id = 8, span_id = 9\<rparr>
        (root (handled sample_lib (trace_config_of vs) quiet \<lparr>trace_id = 8, span_id = 9\<rparr> sample_member (sample_bus_tx 1)
          (hop_headers sample_lib sample_trace_config sample_hop_env PublishNow sample_root)))"
proof -
  have "\<forall>(n, d) \<in> set library_constants. well_set (\<lambda>_. None) d" by (simp add: well_set_unset split: prod.split)
  then obtain vs where vs: "import_const (\<lambda>_. None) = Inr vs"
    using load_constants_cases [OF library_defaults_ok, of "\<lambda>_. None"] by (auto simp: import_const_def)
  have "map_of library_constants ''OBSERVABILITY_TRACE_ASYNC_BOUNDARY''
      = Some (CChoice ''JARARACA_OBSERVABILITY_TRACE_ASYNC_BOUNDARY'' ''link'' [''child'', ''link''])" by code_simp
  from load_constants_lookup [OF vs [unfolded import_const_def] this]
  have "map_of vs ''OBSERVABILITY_TRACE_ASYNC_BOUNDARY'' = Some (KStr (Some ''link''))" by (auto simp: read_defs)
  then have link: "resolve_trace_boundary (trace_config_of vs) (BusTx (sample_bus_tx 1)) = ''link''"
    by (simp add: resolve_trace_boundary_def trace_config_of_def str_const_def sample_bus_tx_def)
  have sc: "started_span (hop_fresh sample_hop_env) (hop_parent sample_hop_env) = \<lparr>trace_id = 1, span_id = 6\<rparr>"
    by (simp add: sample_hop_env_def started_span_def is_valid_def)
  have "distinct (map fst (implicit_headers sample_root))"
    unfolding sample_root_def using root_setup_carries [of "[]"] by (simp add: carries_def)
  moreover have "is_valid \<lparr>trace_id = 1, span_id = 6\<rparr>" "PUBLISH_SPAN sample_trace_config"
    by (simp_all add: is_valid_def sample_trace_config_def)
  ultimately have "linked_trace sample_lib \<lparr>trace_id = 1, span_id = 6\<rparr> \<lparr>trace_id = 8, span_id = 9\<rparr>
        (root (handled sample_lib (trace_config_of vs) quiet \<lparr>trace_id = 8, span_id = 9\<rparr> sample_member (sample_bus_tx 1)
          (hop_headers sample_lib sample_trace_config sample_hop_env PublishNow sample_root)))"
    using handler_attached_by_policy [OF vs sample_lib_laws quiet_not_instrumented _ sc [symmetric] _ _ refl,
        where b = "sample_bus_tx 1" and pcfg = sample_trace_config and r = sample_root and cm = sample_member
          and new_ids = "\<lparr>trace_id = 8, span_id = 9\<rparr>"] link
    by (auto simp del: hop_headers.simps One_nat_def)
  with vs show ?thesis by blast
qed

text \<open>
  When something else has instrumented the boundary, the policy has no effect on the trace: the current span is used, no
  link is made, and under the link policy the attributes that should name the parent name the span itself.
\<close>

lemma instrumented_boundary_never_linked:
  assumes "already_instrumented amb" "resolve_trace_boundary cfg tx = ''link''"
    and "rsp = open_root_span lib cfg amb new_ids tx attrs (fst (incoming_context lib amb hs))"
  shows "span_ctx rsp = current_span amb" "span_links rsp = []"
    "map_of (span_attributes rsp) ''flow.parent_trace_id'' = Some (AStr (format_trace_id lib (trace_id (span_ctx rsp))))"
  using assms
  by (auto simp: open_root_span_def Let_def crosses_by_link_def incoming_context_def already_instrumented_def
      flow_parent_attributes_def dict_update_def)

end
