(* ===== verification/Tracing_Hooks.thy ===== *)
theory Tracing_Hooks
  imports Tracing Unit_Of_Work
begin

section \<open>Spans in the application\<close>

text \<open>
  \<^verbatim>\<open>observability/decorators.py\<close> (traced functions and classes), \<^verbatim>\<open>observability/hooks.py\<close>,
  \<^verbatim>\<open>observability/interceptor.py\<close>, \<^verbatim>\<open>observability/fastapi_exception_handler.py\<close>, and the
  provider of \<^verbatim>\<open>providers/otel.py\<close> with its logging handler. What is done to the current span is a log; a
  span of OpenTelemetry notes the exception that leaves it and passes it on.
\<close>

subsection \<open>The context provider\<close>

datatype span_status = StatusOK | StatusError | StatusUnset

datatype span_op =
    StartSpan string attributes
  | EndSpan "exc option"
  | AddEvent string attributes
  | SetStatus span_status
  | RecordException exc attributes bool
  | SetAttribute string attr
  | UpdateName string
  | AddLink span_context

text \<open>The ambient state of the hooks: what was done to the current span, the root span and what was set on it.\<close>

record span_state =
  span_ops :: "span_op list"
  has_root :: bool
  root_attributes :: attributes

definition span_op :: "span_op \<Rightarrow> span_state \<Rightarrow> span_state" where
  "span_op c s = s\<lparr>span_ops := span_ops s @ [c]\<rparr>"

definition otel_set_span_status :: "string \<Rightarrow> span_state \<Rightarrow> span_state" where
  "otel_set_span_status status_code s =
     span_op (SetStatus (if status_code = ''OK'' then StatusOK else if status_code = ''ERROR'' then StatusError else StatusUnset)) s"

definition otel_set_root_span_attribute :: "string \<Rightarrow> attr \<Rightarrow> span_state \<Rightarrow> span_state" where
  "otel_set_root_span_attribute key v s =
     (if has_root s then s\<lparr>root_attributes := dict_set key v (root_attributes s)\<rparr> else s)"

text \<open>Only a span context of the same provider can be linked.\<close>

definition otel_add_link :: "span_context option \<Rightarrow> span_state \<Rightarrow> span_state" where
  "otel_add_link sc s = (case sc of Some c \<Rightarrow> span_op (AddLink c) s | None \<Rightarrow> s)"

subsection \<open>Hooks\<close>

text \<open>Every hook does nothing when no tracing provider is in the context.\<close>

definition add_event :: "bool \<Rightarrow> string \<Rightarrow> attributes \<Rightarrow> span_state \<Rightarrow> span_state" where
  "add_event provider name attrs s = (if provider then span_op (AddEvent name attrs) s else s)"

definition set_span_status :: "bool \<Rightarrow> string \<Rightarrow> span_state \<Rightarrow> span_state" where
  "set_span_status provider status_code s = (if provider then otel_set_span_status status_code s else s)"

definition record_exception :: "bool \<Rightarrow> exc \<Rightarrow> attributes \<Rightarrow> bool \<Rightarrow> span_state \<Rightarrow> span_state" where
  "record_exception provider e attrs escaped s = (if provider then span_op (RecordException e attrs escaped) s else s)"

definition set_span_attribute :: "bool \<Rightarrow> string \<Rightarrow> attr \<Rightarrow> span_state \<Rightarrow> span_state" where
  "set_span_attribute provider key v s = (if provider then span_op (SetAttribute key v) s else s)"

definition set_root_span_attribute :: "bool \<Rightarrow> string \<Rightarrow> attr \<Rightarrow> span_state \<Rightarrow> span_state" where
  "set_root_span_attribute provider key v s = (if provider then otel_set_root_span_attribute key v s else s)"

definition set_root_span_attributes :: "bool \<Rightarrow> attributes \<Rightarrow> span_state \<Rightarrow> span_state" where
  "set_root_span_attributes provider attrs s =
     (if provider then fold (\<lambda>(k, v). otel_set_root_span_attribute k v) attrs s else s)"

definition add_span_link :: "bool \<Rightarrow> span_context option \<Rightarrow> span_state \<Rightarrow> span_state" where
  "add_span_link provider sc s = (if provider then otel_add_link sc s else s)"

text \<open>
  The metric hooks: one call of an instrument, when there are metrics. Whatever \<^verbatim>\<open>Exception\<close> the instrument raises is
  dropped.
\<close>

datatype instrument = Inflight | SlotWait | Sent | ProcessingTime | Processed | Failed

type_synonym metric_world = "(instrument \<times> rat \<times> attributes, exc option) world"

definition record_on :: "bool \<Rightarrow> instrument \<Rightarrow> rat \<Rightarrow> attributes \<Rightarrow> metric_world \<Rightarrow> exc option \<times> metric_world" where
  "record_on available i v attrs w =
     (if available then (case do_call (i, v, attrs) w of (r, w1) \<Rightarrow> (swallow r, w1)) else (None, w))"

definition record_message_inflight :: "bool \<Rightarrow> string \<Rightarrow> string \<Rightarrow> string \<Rightarrow> string \<Rightarrow> int \<Rightarrow> metric_world \<Rightarrow> exc option \<times> metric_world" where
  "record_message_inflight available topic queue_name message_type message_category delta w =
     record_on available Inflight (of_int delta)
       [(''topic'', AStr topic), (''queue_name'', AStr queue_name), (''message_type'', AStr message_type),
        (''message_category'', AStr message_category)] w"

definition record_message_slot_wait :: "bool \<Rightarrow> string \<Rightarrow> string \<Rightarrow> rat \<Rightarrow> metric_world \<Rightarrow> exc option \<times> metric_world" where
  "record_message_slot_wait available topic queue_name duration_seconds w =
     record_on available SlotWait duration_seconds [(''topic'', AStr topic), (''queue_name'', AStr queue_name)] w"

definition record_message_sent :: "bool \<Rightarrow> string \<Rightarrow> string \<Rightarrow> string \<Rightarrow> metric_world \<Rightarrow> exc option \<times> metric_world" where
  "record_message_sent available topic message_type message_category w =
     record_on available Sent 1
       [(''topic'', AStr topic), (''message_type'', AStr message_type), (''message_category'', AStr message_category)] w"

definition record_message_processing_time ::
  "bool \<Rightarrow> string \<Rightarrow> string \<Rightarrow> string \<Rightarrow> string \<Rightarrow> rat \<Rightarrow> bool \<Rightarrow> metric_world \<Rightarrow> exc option \<times> metric_world" where
  "record_message_processing_time available topic queue_name message_type message_category duration_seconds success w =
     record_on available ProcessingTime duration_seconds
       [(''topic'', AStr topic), (''queue_name'', AStr queue_name), (''message_type'', AStr message_type),
        (''message_category'', AStr message_category), (''success'', ABool success)] w"

definition record_message_processed ::
  "bool \<Rightarrow> string \<Rightarrow> string \<Rightarrow> string \<Rightarrow> string \<Rightarrow> string \<Rightarrow> string \<Rightarrow> bool \<Rightarrow> metric_world \<Rightarrow> exc option \<times> metric_world" where
  "record_message_processed available topic broker_topic handler_name handler_method_name message_type message_category success w =
     record_on available (if success then Processed else Failed) 1
       [(''topic'', AStr topic), (''message_type'', AStr message_type), (''message_category'', AStr message_category),
        (''handler_name'', AStr handler_name), (''handler_method_name'', AStr handler_method_name), (''broker_topic'', AStr broker_topic)] w"

subsection \<open>Traced functions\<close>

text \<open>A function works on the span state and on the state of the application.\<close>

type_synonym ('a, 'x) tfun = "span_state \<times> 'x \<Rightarrow> 'a result \<times> span_state \<times> 'x"

definition start_span :: "bool \<Rightarrow> string \<Rightarrow> attributes \<Rightarrow> ('a, 'x) tfun \<Rightarrow> ('a, 'x) tfun" where
  "start_span provider name attrs body s =
     (if \<not> provider then body s
      else (case body (span_op (StartSpan name attrs) (fst s), snd s) of
              (r, t, x) \<Rightarrow> (r, span_op (EndSpan (case r of Inl e \<Rightarrow> Some e | Inr v \<Rightarrow> None)) t, x)))"

text \<open>\<open>TracedFunc\<close>: the name of the function unless a name is given.\<close>

definition traced_func :: "bool \<Rightarrow> string option \<Rightarrow> string \<Rightarrow> attributes \<Rightarrow> ('a, 'x) tfun \<Rightarrow> ('a, 'x) tfun" where
  "traced_func provider trace_name decorated_name mapped decorated =
     start_span provider (str_or trace_name decorated_name) mapped decorated"

subsection \<open>Traced classes\<close>

text \<open>
  A method is asynchronous or not, and opens spans with the given names, outermost first. The methods a class shows are those of the
  classes of its resolution order.
\<close>

record traced_method =
  m_async :: bool
  m_spans :: "string list"

record traced_classes =
  tc_mro :: "string \<Rightarrow> string list"
  tc_own :: "string \<Rightarrow> (string \<times> traced_method) list"

definition class_method :: "traced_classes \<Rightarrow> string \<Rightarrow> string \<Rightarrow> traced_method option" where
  "class_method t c name = fold (\<lambda>d r. case r of Some m \<Rightarrow> Some m | None \<Rightarrow> map_of (tc_own t d) name) (tc_mro t c) None"

definition members :: "traced_classes \<Rightarrow> string \<Rightarrow> (string \<times> traced_method) list" where
  "members t c = List.map_filter (\<lambda>n. map_option (Pair n) (class_method t c n))
     (remdups (concat (map (\<lambda>d. map fst (tc_own t d)) (tc_mro t c))))"

record traced_class_options =
  trace_name_prefix :: "string option"
  include_private :: bool
  exclude_methods :: "string list"

definition traces_method :: "traced_class_options \<Rightarrow> string \<Rightarrow> traced_method \<Rightarrow> bool" where
  "traces_method opts name m =
     (name \<notin> set (exclude_methods opts) \<and> (py_startswith name ''_'' \<longrightarrow> include_private opts) \<and> m_async m)"

definition wrap_method :: "string \<Rightarrow> traced_method \<Rightarrow> traced_method" where
  "wrap_method trace_name m = m\<lparr>m_spans := trace_name # m_spans m\<rparr>"

definition set_method :: "string \<Rightarrow> string \<Rightarrow> traced_method \<Rightarrow> traced_classes \<Rightarrow> traced_classes" where
  "set_method c name m t = t\<lparr>tc_own := (tc_own t)(c := dict_set name m (tc_own t c))\<rparr>"

definition traced_class :: "traced_class_options \<Rightarrow> string \<Rightarrow> traced_classes \<Rightarrow> traced_classes" where
  "traced_class opts c t =
     fold (\<lambda>(name, m) t. if traces_method opts name m
        then set_method c name (wrap_method (str_or (trace_name_prefix opts) c @ ''.'' @ name) m) t else t) (members t c) t"


subsection \<open>The interceptor\<close>

text \<open>
  The context variables a transaction provides: the implicit headers, the flow id, the root span, the message bus metrics and the
  tracing provider. \<open>o_saved\<close> are the tokens of the suspended interceptors and \<open>o_ended\<close> the root spans that were closed, with
  the exception that left them.
\<close>

record obs_context =
  o_headers :: headers
  o_flow :: "string option"
  o_root :: "root_span option"
  o_metrics :: bool
  o_provider :: bool

record obs_vars = app_vars +
  o_context :: obs_context
  o_saved :: "obs_context list"
  o_ended :: "(root_span \<times> exc option) list"
  o_metrics_ready :: bool

definition end_root_span :: "exc option \<Rightarrow> ('z) obs_vars_scheme \<Rightarrow> 'z obs_vars_scheme" where
  "end_root_span exc s =
     (case (o_saved s, o_root (o_context s)) of
        (c # cs, Some r) \<Rightarrow> s\<lparr>o_context := c, o_saved := cs, o_ended := o_ended s @ [(r, exc)]\<rparr>
      | (c # cs, None) \<Rightarrow> s\<lparr>o_context := c, o_saved := cs\<rparr>
      | ([], _) \<Rightarrow> s)"

text \<open>
  \<open>ObservabilityInterceptor.intercept\<close> over \<open>OtelObservabilityProvider.root_setup\<close>: the metrics exist only inside the lifecycle;
  without them the root span is closed with the error.
\<close>

definition observability_interceptor :: "(headers \<Rightarrow> root_context) \<Rightarrow> 'z obs_vars_scheme interceptor" where
  "observability_interceptor setup =
     \<lparr>aenter = (\<lambda>s.
        let r = setup (o_headers (o_context s));
            s1 = s\<lparr>o_saved := o_context s # o_saved s,
                   o_context := (o_context s)\<lparr>o_headers := implicit_headers r, o_flow := Some (flow_id r), o_root := Some (root r)\<rparr>\<rparr>;
            e = Exc RuntimeError ''MessageBusMetrics is not available outside of the app context''
        in if \<not> o_metrics_ready s then (Some e, end_root_span (Some e) s1)
           else (None, s1\<lparr>o_context := (o_context s1)\<lparr>o_metrics := True, o_provider := True\<rparr>\<rparr>)),
      aexit = (\<lambda>exc s. (Inr False, end_root_span exc s))\<rparr>"

interpretation observability: app_interceptor "observability_interceptor setup"
  by unfold_locales (simp add: observability_interceptor_def)

subsection \<open>The lifecycle of the provider\<close>

datatype sdk_provider = TracerProvider | LoggerProvider | MeterProvider

datatype sdk_call = ForceFlush sdk_provider int | ShutdownProvider sdk_provider

text \<open>\<open>_flush_and_shutdown_providers\<close>: an \<^verbatim>\<open>Exception\<close> of a provider is logged and the next call is made.\<close>

fun guarded_calls :: "'c list \<Rightarrow> ('c, exc option) world \<Rightarrow> exc option \<times> ('c, exc option) world" where
  "guarded_calls [] w = (None, w)"
| "guarded_calls (c # cs) w =
     (case do_call c w of (r, w1) \<Rightarrow> (case swallow r of Some e \<Rightarrow> (Some e, w1) | None \<Rightarrow> guarded_calls cs w1))"

definition flush_and_shutdown_providers :: "int \<Rightarrow> (sdk_call, exc option) world \<Rightarrow> exc option \<times> (sdk_call, exc option) world" where
  "flush_and_shutdown_providers timeout w =
     guarded_calls (concat (map (\<lambda>p. [ForceFlush p timeout, ShutdownProvider p]) [TracerProvider, LoggerProvider, MeterProvider])) w"

text \<open>\<open>setup\<close> around the application, which ends with an exception or not; what is raised in the \<open>finally\<close> wins.\<close>

definition provider_setup :: "int \<Rightarrow> exc option \<Rightarrow> (sdk_call, exc option) world \<Rightarrow> exc option \<times> (sdk_call, exc option) world" where
  "provider_setup timeout app_result w =
     (case flush_and_shutdown_providers timeout w of (Some e, w1) \<Rightarrow> (Some e, w1) | (None, w1) \<Rightarrow> (app_result, w1))"

definition from_url :: "string \<Rightarrow> string \<times> string \<times> string" where
  "from_url url = (url @ ''/v1/logs'', url @ ''/v1/traces'', url @ ''/v1/metrics'')"

subsection \<open>Log records\<close>

text \<open>
  \<open>CustomLoggingHandler._translate\<close>: the attributes of a log record. \<open>context\<close> is the transaction the record is made in; a
  \<^verbatim>\<open>LookupError\<close> on the way falls back to the plain record.
\<close>

definition is_LookupError :: "exc \<Rightarrow> bool" where
  "is_LookupError e = (exc_cls e \<in> {LookupError, KeyError, IndexError})"

definition translate :: "attributes \<Rightarrow> attributes result \<Rightarrow> string option \<Rightarrow> (string option \<times> bool) \<Rightarrow> attributes result" where
  "translate base context flow current =
     (case context of
        Inl e \<Rightarrow> if is_LookupError e then Inr base else Inl e
      | Inr extra \<Rightarrow>
          Inr (dict_update (dict_update (dict_update base extra) (case flow of Some f \<Rightarrow> [(''flow.id'', AStr f)] | None \<Rightarrow> []))
                 (case current of (Some n, True) \<Rightarrow> [(''span_name'', AStr n)] | _ \<Rightarrow> [])))"

subsection \<open>Error responses\<close>

text \<open>
  A response is what the framework makes of it; \<open>set_header\<close> is the item assignment of its headers. Handlers are registered under
  exception classes and under the status 500.
\<close>

datatype handler_key = OnHTTPException | OnValidationError | OnException | OnStatus500 | OnOther string

definition apply_traceparent_header :: "(string \<Rightarrow> string \<Rightarrow> 'resp \<Rightarrow> 'resp) \<Rightarrow> string \<Rightarrow> string \<Rightarrow> 'resp \<Rightarrow> 'resp" where
  "apply_traceparent_header set_header traceparent name response =
     (if traceparent \<noteq> '''' then set_header name traceparent response else response)"

definition existing_server_error_handler :: "(handler_key \<times> 'h) list \<Rightarrow> 'h option" where
  "existing_server_error_handler handlers =
     (case map_of handlers OnException of Some h \<Rightarrow> Some h | None \<Rightarrow> map_of handlers OnStatus500)"

text \<open>A handler answers an exception for a request, whose trace the scope holds.\<close>

definition setup_fastapi_exception_handler ::
  "(string \<Rightarrow> string \<Rightarrow> 'resp \<Rightarrow> 'resp) \<Rightarrow> ('req \<Rightarrow> string) \<Rightarrow> ('req \<Rightarrow> exc \<Rightarrow> 'resp) \<Rightarrow> ('req \<Rightarrow> exc \<Rightarrow> 'resp) \<Rightarrow> 'resp \<Rightarrow> string \<Rightarrow>
   (handler_key \<times> ('req \<Rightarrow> exc \<Rightarrow> 'resp)) list \<Rightarrow> (handler_key \<times> ('req \<Rightarrow> exc \<Rightarrow> 'resp)) list" where
  "setup_fastapi_exception_handler set_header traceparent_of validation_handler http_handler fallback header handlers =
     (let apply_header = (\<lambda>req resp. apply_traceparent_header set_header (traceparent_of req) header resp);
          server_error = (\<lambda>req e. apply_header req
             (case existing_server_error_handler handlers of Some h \<Rightarrow> h req e | None \<Rightarrow> fallback));
          h1 = dict_set OnHTTPException (\<lambda>req e. apply_header req (http_handler req e)) handlers;
          h2 = dict_set OnValidationError (\<lambda>req e. apply_header req (validation_handler req e)) h1;
          h3 = dict_set OnException server_error h2
      in filter (\<lambda>(k, h). k \<noteq> OnStatus500) h3)"


subsection \<open>Lemmas\<close>

text \<open>Spans are opened and closed like brackets.\<close>

fun span_depth :: "nat \<Rightarrow> span_op list \<Rightarrow> nat option" where
  "span_depth n [] = Some n"
| "span_depth n (StartSpan name attrs # ops) = span_depth (Suc n) ops"
| "span_depth n (EndSpan e # ops) = (case n of 0 \<Rightarrow> None | Suc m \<Rightarrow> span_depth m ops)"
| "span_depth n (op # ops) = span_depth n ops"

definition balanced :: "span_op list \<Rightarrow> bool" where
  "balanced ops \<longleftrightarrow> (\<forall>n. span_depth n ops = Some n)"

lemma span_depth_append:
  "span_depth n (xs @ ys) = (case span_depth n xs of None \<Rightarrow> None | Some m \<Rightarrow> span_depth m ys)"
  by (induction n xs rule: span_depth.induct) (auto split: nat.splits)

lemma balanced_span: "balanced ops \<Longrightarrow> balanced (StartSpan name attrs # ops @ [EndSpan e])"
  by (simp add: balanced_def span_depth_append)

text \<open>A function of the application that computes \<open>f\<close> and closes the spans it opens.\<close>

definition computes :: "('a, 'x) tfun \<Rightarrow> ('x \<Rightarrow> 'a result \<times> 'x) \<Rightarrow> bool" where
  "computes body f \<longleftrightarrow>
     (\<forall>t x. \<exists>ops. balanced ops \<and> body (t, x) = (fst (f x), t\<lparr>span_ops := span_ops t @ ops\<rparr>, snd (f x)))"

lemma computes_start_span:
  assumes "computes body f"
  shows "computes (start_span provider name attrs body) f"
  unfolding computes_def
proof (intro allI)
  fix t x
  let ?t = "span_op (StartSpan name attrs) t"
  let ?e = "EndSpan (case fst (f x) of Inl e \<Rightarrow> Some e | Inr v \<Rightarrow> None)"
  obtain ops where ops: "balanced ops" "body (?t, x) = (fst (f x), ?t\<lparr>span_ops := span_ops ?t @ ops\<rparr>, snd (f x))"
    using assms unfolding computes_def by blast
  then have "start_span True name attrs body (t, x) =
      (fst (f x), t\<lparr>span_ops := span_ops t @ (StartSpan name attrs # ops @ [?e])\<rparr>, snd (f x))"
    by (simp add: start_span_def span_op_def)
  moreover have "balanced (StartSpan name attrs # ops @ [?e])" using ops(1) by (rule balanced_span)
  moreover obtain ops' where "balanced ops'" "body (t, x) = (fst (f x), t\<lparr>span_ops := span_ops t @ ops'\<rparr>, snd (f x))"
    using assms unfolding computes_def by blast
  moreover have "start_span False name attrs body (t, x) = body (t, x)" by (simp add: start_span_def)
  ultimately show "\<exists>ops. balanced ops \<and>
      start_span provider name attrs body (t, x) = (fst (f x), t\<lparr>span_ops := span_ops t @ ops\<rparr>, snd (f x))"
    by (cases provider) (simp, blast)+
qed

lemma guarded_calls_all:
  assumes "\<forall>i. \<forall>e. answers w i = Some e \<longrightarrow> is_Exception e"
  shows "guarded_calls cs w = (None, w\<lparr>calls := calls w @ cs\<rparr>)"
  using assms
proof (induction cs arbitrary: w)
  case (Cons c cs)
  have "swallow (answers w (length (calls w))) = None" using Cons.prems by (simp add: swallow_eq_None)
  then show ?case using Cons.IH [of "w\<lparr>calls := calls w @ [c]\<rparr>"] Cons.prems by (simp add: do_call_def)
qed simp

text \<open>Looking a method up in a class comes down to its own methods first.\<close>

lemma fold_found: "fold (\<lambda>d r. case r of Some m \<Rightarrow> Some m | None \<Rightarrow> f d) ds (Some m) = Some m"
  by (induction ds) simp_all

lemma class_method_own:
  assumes "tc_mro t c = c # ds" "c \<notin> set ds" "tc_mro t' = tc_mro t" "\<forall>d. d \<noteq> c \<longrightarrow> tc_own t' d = tc_own t d"
  shows "class_method t' c n = (case map_of (tc_own t' c) n of Some m \<Rightarrow> Some m
    | None \<Rightarrow> fold (\<lambda>d r. case r of Some m \<Rightarrow> Some m | None \<Rightarrow> map_of (tc_own t d) n) ds None)"
proof -
  have "fold (\<lambda>d r. case r of Some m \<Rightarrow> Some m | None \<Rightarrow> map_of (tc_own t' d) n) ds None
      = fold (\<lambda>d r. case r of Some m \<Rightarrow> Some m | None \<Rightarrow> map_of (tc_own t d) n) ds None"
    by (rule fold_cong) (use assms(2,4) in \<open>auto simp: fun_eq_iff split: option.split\<close>)
  then show ?thesis using assms(1,3)
    by (cases "map_of (tc_own t' c) n") (simp_all add: class_method_def fold_found)
qed

lemma class_method_names:
  "class_method t c n = Some m \<Longrightarrow> n \<in> set (concat (map (\<lambda>d. map fst (tc_own t d)) (tc_mro t c)))"
proof -
  have "\<exists>d \<in> set ds. n \<in> fst ` set (tc_own t d)"
    if "fold (\<lambda>d r. case r of Some m \<Rightarrow> Some m | None \<Rightarrow> map_of (tc_own t d) n) ds None = Some m" for ds
    using that
  proof (induction ds)
    case (Cons d ds)
    then show ?case by (cases "map_of (tc_own t d) n") (auto simp: fold_found dest!: map_of_SomeD intro: rev_image_eqI)
  qed simp
  then show "class_method t c n = Some m \<Longrightarrow> n \<in> set (concat (map (\<lambda>d. map fst (tc_own t d)) (tc_mro t c)))"
    by (force simp: class_method_def)
qed

lemma map_of_members: "map_of (members t c) n = class_method t c n"
proof -
  have "map_of (List.map_filter (\<lambda>n. map_option (Pair n) (g n)) ns) n = (if n \<in> set ns then g n else None)" for g :: "string \<Rightarrow> traced_method option" and ns
    by (induction ns) (auto simp: List.map_filter_simps split: option.split)
  then show ?thesis using class_method_names [of t c n]
    by (cases "class_method t c n") (auto simp: members_def)
qed

lemma distinct_members: "distinct (map fst (members t c))"
proof -
  have "distinct ns \<Longrightarrow> distinct (map fst (List.map_filter (\<lambda>n. map_option (Pair n) (g n)) ns))
      \<and> fst ` set (List.map_filter (\<lambda>n. map_option (Pair n) (g n)) ns) \<subseteq> set ns" for g :: "string \<Rightarrow> traced_method option" and ns
    by (induction ns) (auto simp: List.map_filter_simps split: option.split)
  then show ?thesis by (simp add: members_def)
qed

definition trace_member :: "traced_class_options \<Rightarrow> string \<Rightarrow> string \<Rightarrow> traced_method \<Rightarrow> traced_method" where
  "trace_member opts c name m =
     (if traces_method opts name m then wrap_method (str_or (trace_name_prefix opts) c @ ''.'' @ name) m else m)"

lemma traced_class_own:
  assumes "distinct (map fst ms)"
    and "t' = fold (\<lambda>(name, m) t. if traces_method opts name m
        then set_method c name (wrap_method (str_or (trace_name_prefix opts) c @ ''.'' @ name) m) t else t) ms t"
  shows "tc_mro t' = tc_mro t \<and> (\<forall>d. d \<noteq> c \<longrightarrow> tc_own t' d = tc_own t d)
    \<and> map_of (tc_own t' c) n = (case map_of ms n of
        Some m \<Rightarrow> if traces_method opts n m then Some (trace_member opts c n m) else map_of (tc_own t c) n
      | None \<Rightarrow> map_of (tc_own t c) n)"
  using assms
proof (induction ms arbitrary: t)
  case (Cons x ms)
  obtain name m where x: "x = (name, m)" by fastforce
  let ?t = "if traces_method opts name m
    then set_method c name (wrap_method (str_or (trace_name_prefix opts) c @ ''.'' @ name) m) t else t"
  have t': "t' = fold (\<lambda>(name, m) t. if traces_method opts name m
        then set_method c name (wrap_method (str_or (trace_name_prefix opts) c @ ''.'' @ name) m) t else t) ms ?t"
    using Cons.prems(2) x by simp
  have "distinct (map fst ms)" "name \<notin> fst ` set ms" using Cons.prems(1) x by auto
  then have "n = name \<Longrightarrow> map_of ms n = None" by (simp add: map_of_eq_None_iff)
  then show ?case using Cons.IH [OF \<open>distinct (map fst ms)\<close> t'] x
    by (auto simp: set_method_def trace_member_def split: option.splits)
qed simp

lemma map_of_without_500: "map_of (filter (\<lambda>(k, h). k \<noteq> OnStatus500) hs) k = (if k = OnStatus500 then None else map_of hs k)"
  by (induction hs) auto

subsection \<open>Properties\<close>

text \<open>
  Tracing is transparent: a traced function returns the same result, or raises the same exception, and leaves the
  application in the same state as the function itself, with or without a tracing provider, and every span it opens is closed.
\<close>

theorem traced_function_is_transparent:
  assumes "computes decorated f"
  shows "\<exists>ops. balanced ops \<and> traced_func provider trace_name name mapped decorated (t, x)
    = (fst (f x), t\<lparr>span_ops := span_ops t @ ops\<rparr>, snd (f x))"
  using computes_start_span [OF assms] unfolding computes_def traced_func_def by blast

definition failing_function :: "(nat, nat) tfun" where
  "failing_function s = (Inl (Exc ValueError ''boom''), span_op (AddEvent ''tried'' []) (fst s), Suc (snd s))"

theorem traced_function_is_transparent_witness:
  "\<exists>ops. balanced ops \<and> traced_func True None ''pay'' [] failing_function (\<lparr>span_ops = [], has_root = False, root_attributes = []\<rparr>, 0)
    = (Inl (Exc ValueError ''boom''), \<lparr>span_ops = ops, has_root = False, root_attributes = []\<rparr>, 1)"
proof -
  have "computes failing_function (\<lambda>x. (Inl (Exc ValueError ''boom''), Suc x))"
    unfolding computes_def
  proof (intro allI)
    show "\<exists>ops. balanced ops \<and> failing_function (t, x) = (fst (Inl (Exc ValueError ''boom''), Suc x),
        t\<lparr>span_ops := span_ops t @ ops\<rparr>, snd (Inl (Exc ValueError ''boom'') :: nat result, Suc x))" for t x
      by (rule exI [of _ "[AddEvent ''tried'' []]"]) (simp add: balanced_def failing_function_def span_op_def)
  qed
  from traced_function_is_transparent [OF this, of True None "''pay''" "[]" "\<lparr>span_ops = [], has_root = False, root_attributes = []\<rparr>" 0]
  show ?thesis by simp
qed

text \<open>
  The interceptor scopes what it provides: when the transaction is over, however it ended, every context variable is as it was
  before, and the root span was closed once with the exception of the transaction; without metrics the transaction does not
  start and the same holds.
\<close>

theorem observability_context_restored:
  fixes s s1 :: obs_vars
  assumes "aenter (observability_interceptor setup) s = (failed, s1)"
  shows "case failed of
      None \<Rightarrow> o_flow (o_context s1) = Some (flow_id (setup (o_headers (o_context s)))) \<and> o_provider (o_context s1)
        \<and> o_context (snd (aexit (observability_interceptor setup) exc s1)) = o_context s
        \<and> o_saved (snd (aexit (observability_interceptor setup) exc s1)) = o_saved s
        \<and> o_ended (snd (aexit (observability_interceptor setup) exc s1)) = o_ended s @ [(root (setup (o_headers (o_context s))), exc)]
    | Some e \<Rightarrow> exc_cls e = RuntimeError \<and> o_context s1 = o_context s \<and> o_saved s1 = o_saved s
        \<and> o_ended s1 = o_ended s @ [(root (setup (o_headers (o_context s))), Some e)]"
  using assms by (auto simp: observability_interceptor_def end_root_span_def Let_def split: if_splits)

definition sample_obs :: obs_vars where
  "sample_obs = \<lparr>v_metadata = [], v_app_context = None, v_container = False, v_saved = [],
     o_context = \<lparr>o_headers = [], o_flow = None, o_root = None, o_metrics = False, o_provider = False\<rparr>, o_saved = [], o_ended = [],
     o_metrics_ready = True\<rparr>"

theorem observability_context_restored_witness:
  "o_context (snd (aexit (observability_interceptor (\<lambda>_. sample_root)) None
     (snd (aenter (observability_interceptor (\<lambda>_. sample_root)) sample_obs)))) = o_context sample_obs"
proof -
  have "aenter (observability_interceptor (\<lambda>_. sample_root)) sample_obs =
      (None, snd (aenter (observability_interceptor (\<lambda>_. sample_root)) sample_obs))"
    by (simp add: observability_interceptor_def sample_obs_def Let_def)
  from observability_context_restored [OF this, of None] show ?thesis by simp
qed

text \<open>
  Telemetry is flushed and every provider is shut down whichever way the application ends and whichever of
  these calls fails, and the outcome of the application is kept.
\<close>

theorem telemetry_flushed_on_every_exit:
  assumes "\<forall>i e. answers w i = Some e \<longrightarrow> is_Exception e"
  shows "provider_setup timeout result w = (result, w\<lparr>calls := calls w @
     [ForceFlush TracerProvider timeout, ShutdownProvider TracerProvider, ForceFlush LoggerProvider timeout, ShutdownProvider LoggerProvider,
      ForceFlush MeterProvider timeout, ShutdownProvider MeterProvider]\<rparr>)"
  using assms by (simp add: provider_setup_def flush_and_shutdown_providers_def guarded_calls_all del: guarded_calls.simps)

theorem telemetry_flushed_on_every_exit_witness:
  "length (calls (snd (provider_setup 5000 None \<lparr>calls = [], answers = (\<lambda>_. Some (Exc TimeoutError ''flush''))\<rparr>))) = 6"
  using telemetry_flushed_on_every_exit [of "\<lparr>calls = [], answers = (\<lambda>_. Some (Exc TimeoutError ''flush''))\<rparr>" 5000 None]
  by simp

text \<open>
  A traced class: every asynchronous method it shows, its own or inherited, that the options do not leave out opens exactly
  one more span, named after the class or the prefix; the other methods and the other classes are unchanged.
\<close>

theorem traced_class_wraps_each_method_once:
  assumes "tc_mro t c = c # ds" "c \<notin> set ds"
  shows "class_method (traced_class opts c t) c name = map_option (trace_member opts c name) (class_method t c name)
    \<and> (\<forall>d. d \<noteq> c \<longrightarrow> tc_own (traced_class opts c t) d = tc_own t d)"
proof -
  note own = traced_class_own [OF distinct_members [of t c] traced_class_def [of opts c t], of name]
  have eq: "class_method t c name = (case map_of (tc_own t c) name of Some m \<Rightarrow> Some m
    | None \<Rightarrow> fold (\<lambda>d r. case r of Some m \<Rightarrow> Some m | None \<Rightarrow> map_of (tc_own t d) name) ds None)"
    using class_method_own [OF assms, of t name] by simp
  have "class_method (traced_class opts c t) c name = (case map_of (tc_own (traced_class opts c t) c) name of Some m \<Rightarrow> Some m
    | None \<Rightarrow> fold (\<lambda>d r. case r of Some m \<Rightarrow> Some m | None \<Rightarrow> map_of (tc_own t d) name) ds None)"
    using class_method_own [OF assms, of "traced_class opts c t" name] own by simp
  then show ?thesis using own eq
    by (cases "class_method t c name") (auto simp: map_of_members trace_member_def split: option.splits if_splits)
qed

definition traced_sample :: traced_classes where
  "traced_sample = \<lparr>tc_mro = (\<lambda>c. if c = ''Sub'' then [''Sub'', ''Base''] else [c]),
     tc_own = (\<lambda>c. if c = ''Base'' then [(''load'', \<lparr>m_async = True, m_spans = []\<rparr>)] else [])\<rparr>"

definition plain_options :: traced_class_options where
  "plain_options = \<lparr>trace_name_prefix = None, include_private = False, exclude_methods = []\<rparr>"

theorem traced_class_wraps_each_method_once_witness:
  "class_method (traced_class plain_options ''Sub'' traced_sample) ''Sub'' ''load'' = Some \<lparr>m_async = True, m_spans = [''Sub.load'']\<rparr>"
proof -
  have "class_method traced_sample ''Sub'' ''load'' = Some \<lparr>m_async = True, m_spans = []\<rparr>"
    by (simp add: class_method_def traced_sample_def)
  with traced_class_wraps_each_method_once [of traced_sample "''Sub''" "[''Base'']" plain_options "''load''"] show ?thesis
    by (simp add: traced_sample_def trace_member_def traces_method_def plain_options_def py_startswith_def wrap_method_def)
qed

text \<open>A method inherited from a traced class opens two spans in a traced subclass.\<close>

lemma inherited_method_traced_twice:
  "class_method (traced_class plain_options ''Sub'' (traced_class plain_options ''Base'' traced_sample)) ''Sub'' ''load''
     = Some \<lparr>m_async = True, m_spans = [''Sub.load'', ''Base.load'']\<rparr>"
  by (simp add: traced_class_def members_def class_method_def traced_sample_def List.map_filter_simps traces_method_def
      plain_options_def py_startswith_def wrap_method_def set_method_def)

text \<open>
  Once the handlers are installed every error response of a request that has a trace carries the trace header, for HTTP errors, for
  validation errors and for unhandled ones; a handler the application had for unhandled errors still makes the response, and nothing is left
  under the status 500.
\<close>

theorem error_responses_carry_trace_header:
  assumes "distinct (map fst handlers)" "traceparent_of req \<noteq> ''''"
    and "installed = setup_fastapi_exception_handler set_header traceparent_of validation_handler http_handler fallback header handlers"
  shows "map_option (\<lambda>h. h req e) (map_of installed OnHTTPException) = Some (set_header header (traceparent_of req) (http_handler req e))
    \<and> map_option (\<lambda>h. h req e) (map_of installed OnValidationError) = Some (set_header header (traceparent_of req) (validation_handler req e))
    \<and> map_option (\<lambda>h. h req e) (map_of installed OnException) = Some (set_header header (traceparent_of req)
        (case existing_server_error_handler handlers of Some h \<Rightarrow> h req e | None \<Rightarrow> fallback))
    \<and> map_of installed OnStatus500 = None \<and> (\<forall>k. map_of installed (OnOther k) = map_of handlers (OnOther k))"
  using assms(2,3)
  by (simp add: setup_fastapi_exception_handler_def Let_def apply_traceparent_header_def map_of_without_500)

theorem error_responses_carry_trace_header_witness:
  "map_option (\<lambda>h. h () (Exc OtherError '''')) (map_of
     (setup_fastapi_exception_handler (\<lambda>n v r. (n, v) # r) (\<lambda>_. ''00-1'') (\<lambda>_ _. []) (\<lambda>_ _. []) [] ''traceparent''
       [(OnStatus500, \<lambda>_ _. [(''x'', ''y'')])]) OnException) = Some [(''traceparent'', ''00-1''), (''x'', ''y'')]"
  using error_responses_carry_trace_header [where handlers = "[(OnStatus500, \<lambda>_ _. [(''x'', ''y'')])]" and req = "()"
      and traceparent_of = "\<lambda>_. ''00-1''" and set_header = "\<lambda>n v r. (n, v) # r" and header = "''traceparent''"
      and validation_handler = "\<lambda>_ _. []" and http_handler = "\<lambda>_ _. []" and fallback = "[]" and e = "Exc OtherError ''''", OF _ _ refl]
  by (simp add: existing_server_error_handler_def)

text \<open>The metric hooks never disturb the caller.\<close>

lemma record_on_never_fails:
  "\<forall>i e. answers w i = Some e \<longrightarrow> is_Exception e \<Longrightarrow> fst (record_on available i v attrs w) = None"
  by (auto simp: record_on_def do_call_def swallow_eq_None)

end
