(* ===== verification/Worker_Lifecycle.thy ===== *)
theory Worker_Lifecycle
  imports Beat_Startup Worker_Consumer
begin

section \<open>The life of the worker\<close>

text \<open>
  \<^verbatim>\<open>messagebus/worker.py\<close>: \<open>connect\<close>, \<open>_verify_infrastructure\<close> and \<open>consume\<close> of the consumer, and how \<open>MessageBusWorker\<close> starts it
  and passes signals on. Calls of the broker are a log with arbitrary answers; \<open>gone\<close> tells, by the position in the log, whether
  the connection is closed. The setup of each consumer, the health monitor and the draining of tasks are in \<^verbatim>\<open>Worker_Consumer\<close>.
\<close>

subsection \<open>The consumer\<close>

datatype life_call =
    ConnectBroker | CloseBroker | OpenCheckChannel | CheckPassive string
  | AwaitShutdown | StopMonitor | StopResults | AwaitTasks

record life = "(life_call, exc option) world" +
  has_connection :: bool
  conn_healthy :: bool
  monitor_running :: bool
  setups :: "(bool \<times> string) list"       \<comment> \<open>the setup tasks that were started; True for a scheduled action\<close>
  routed :: "string list"                 \<comment> \<open>the keys of \<open>incoming_map\<close>\<close>
  event_on :: bool
  verified :: bool

text \<open>The \<open>except\<close> clause of \<open>connect\<close>: whatever the new connection or the body raised, the connection is closed and forgotten.\<close>

definition drop_connection :: "exc \<Rightarrow> life \<Rightarrow> exc option \<times> life" where
  "drop_connection e s =
     (if \<not> is_Exception e then (Some e, s)
      else if \<not> has_connection s then (Some e, s)
      else (case do_call CloseBroker s of
              (r, s1) \<Rightarrow> (case swallow r of
                 Some e' \<Rightarrow> (Some e', s1)
               | None \<Rightarrow> (Some e, s1\<lparr>has_connection := False\<rparr>))))"

definition connect :: "(nat \<Rightarrow> bool) \<Rightarrow> retry_policy \<Rightarrow> (life \<Rightarrow> exc option \<times> life) \<Rightarrow> life \<Rightarrow> exc option \<times> life" where
  "connect gone p body s =
     (if has_connection s \<and> \<not> gone (length (calls s)) then body s
      else (case retrying p connection_retryable (do_call ConnectBroker) s of
              (Some e, s1) \<Rightarrow> drop_connection e s1
            | (None, s1) \<Rightarrow>
                (case body (s1\<lparr>has_connection := True\<rparr>) of
                   (Some e, s2) \<Rightarrow> drop_connection e s2
                 | (None, s2) \<Rightarrow> (None, s2))))"

fun life_calls :: "life_call list \<Rightarrow> life \<Rightarrow> exc option \<times> life" where
  "life_calls [] s = (None, s)"
| "life_calls (c # cs) s = (case do_call c s of (Some e, s1) \<Rightarrow> (Some e, s1) | (None, s1) \<Rightarrow> life_calls cs s1)"

text \<open>\<open>_verify_infrastructure\<close>: an error of the broker is an answer, not an exception.\<close>

definition verify_once :: "(nat \<Rightarrow> bool) \<Rightarrow> retry_policy \<Rightarrow> string \<Rightarrow> life \<Rightarrow> exc option \<times> life" where
  "verify_once gone p exchange s =
     (case connect gone p (life_calls [OpenCheckChannel, CheckPassive exchange, CheckPassive DEAD_LETTER_EXCHANGE,
                                       CheckPassive DEAD_LETTER_QUEUE]) s of
        (None, s1) \<Rightarrow> (None, s1\<lparr>verified := True\<rparr>)
      | (Some e, s1) \<Rightarrow> if is_amqp e then (None, s1\<lparr>verified := False\<rparr>) else (Some e, s1))"

text \<open>\<open>with suppress(asyncio.CancelledError): await task\<close>\<close>

definition await_cancelled :: "life_call \<Rightarrow> life \<Rightarrow> exc option \<times> life" where
  "await_cancelled c s =
     (case do_call c s of (Some e, s1) \<Rightarrow> (if exc_cls e = CancelledError then (None, s1) else (Some e, s1)) | (None, s1) \<Rightarrow> (None, s1))"

text \<open>What follows the shutdown event.\<close>

definition wind_down :: "life \<Rightarrow> exc option \<times> life" where
  "wind_down s =
     (case do_call AwaitShutdown s of (Some e, s1) \<Rightarrow> (Some e, s1) | (None, s1) \<Rightarrow>
      case await_cancelled StopMonitor (s1\<lparr>event_on := True, monitor_running := False\<rparr>) of (Some e, s2) \<Rightarrow> (Some e, s2) | (None, s2) \<Rightarrow>
      case await_cancelled StopResults s2 of (Some e, s3) \<Rightarrow> (Some e, s3) | (None, s3) \<Rightarrow> do_call AwaitTasks s3)"

definition start_setups :: "string list \<Rightarrow> string list \<Rightarrow> life \<Rightarrow> life" where
  "start_setups handlers actions s =
     s\<lparr>setups := setups s @ map (Pair False) handlers @ map (Pair True) actions, routed := routed s @ handlers\<rparr>"

definition consume_body :: "(nat \<Rightarrow> bool) \<Rightarrow> retry_policy \<Rightarrow> string \<Rightarrow> string list \<Rightarrow> string list \<Rightarrow> life \<Rightarrow> exc option \<times> life" where
  "consume_body gone p exchange handlers actions s =
     (case retrying p is_Exception (verify_once gone p exchange) (s\<lparr>conn_healthy := True, monitor_running := True\<rparr>) of
        (Some e, s1) \<Rightarrow> (Some e, s1)
      | (None, s1) \<Rightarrow> if \<not> verified s1 then (None, s1\<lparr>event_on := True\<rparr>) else wind_down (start_setups handlers actions s1))"

definition consume :: "(nat \<Rightarrow> bool) \<Rightarrow> retry_policy \<Rightarrow> string \<Rightarrow> string list \<Rightarrow> string list \<Rightarrow> life \<Rightarrow> exc option \<times> life" where
  "consume gone p exchange handlers actions s = connect gone p (consume_body gone p exchange handlers actions) s"

text \<open>\<open>shutdown\<close>, \<open>close\<close> and \<open>_trigger_shutdown\<close>\<close>

definition shutdown :: "life \<Rightarrow> life" where
  "shutdown s = s\<lparr>event_on := True\<rparr>"

definition close_consumer :: "life \<Rightarrow> exc option \<times> life" where
  "close_consumer s =
     (case (if monitor_running s then await_cancelled StopMonitor ((shutdown s)\<lparr>monitor_running := False\<rparr>) else (None, shutdown s)) of
        (Some e, s1) \<Rightarrow> (Some e, s1)
      | (None, s1) \<Rightarrow> do_call AwaitTasks s1)"

definition trigger_shutdown :: "life \<Rightarrow> life" where
  "trigger_shutdown s = (if event_on s then s else shutdown (s\<lparr>conn_healthy := False\<rparr>))"

subsection \<open>The process\<close>

text \<open>
  \<open>MessageBusWorker\<close>: the consumer exists only once the lifecycle of the application has started and the configuration is
  read. A signal starts a task that asks the consumer to shut down; without a consumer that task raises \<open>RuntimeError\<close>, which nobody
  awaits.
\<close>

datatype worker_phase = Booting | Consuming | Exited int

record worker =
  w_phase :: worker_phase
  w_event :: bool
  w_lost :: nat          \<comment> \<open>signals whose task failed\<close>

datatype worker_event = BootFails | BootDone | SignalReceived | ConsumeReturns | ConsumeFails

fun worker_step :: "worker_event \<Rightarrow> worker \<Rightarrow> worker option" where
  "worker_step BootFails w = (if w_phase w = Booting then Some (w\<lparr>w_phase := Exited 1\<rparr>) else None)"
| "worker_step BootDone w = (if w_phase w = Booting then Some (w\<lparr>w_phase := Consuming\<rparr>) else None)"
| "worker_step SignalReceived w =
     (case w_phase w of
        Booting \<Rightarrow> Some (w\<lparr>w_lost := Suc (w_lost w)\<rparr>)
      | Consuming \<Rightarrow> Some (w\<lparr>w_event := True\<rparr>)
      | Exited c \<Rightarrow> None)"
| "worker_step ConsumeReturns w = (if w_phase w = Consuming \<and> w_event w then Some (w\<lparr>w_phase := Exited 0\<rparr>) else None)"
| "worker_step ConsumeFails w = (if w_phase w = Consuming then Some (w\<lparr>w_phase := Exited 1\<rparr>) else None)"

fun worker_run :: "worker_event list \<Rightarrow> worker \<Rightarrow> worker option" where
  "worker_run [] w = Some w"
| "worker_run (e # es) w = (case worker_step e w of None \<Rightarrow> None | Some w' \<Rightarrow> worker_run es w')"

definition worker_start :: worker where
  "worker_start = \<lparr>w_phase = Booting, w_event = False, w_lost = 0\<rparr>"


subsection \<open>Lemmas\<close>

lemma retry_state_invariant:
  "(\<And>s. P s \<Longrightarrow> P (snd (f s))) \<Longrightarrow> P s \<Longrightarrow> P (snd (retry_state p retryable f todo n s))"
proof (induction todo arbitrary: n s)
  case (Suc todo)
  obtain a s1 where f: "f s = (a, s1)" by fastforce
  then have "P s1" using Suc.prems(1) [OF Suc.prems(2)] by simp
  then show ?case using f Suc by (cases a) auto
qed simp

lemma retrying_invariant: "(\<And>s. P s \<Longrightarrow> P (snd (f s))) \<Longrightarrow> P s \<Longrightarrow> P (snd (retrying p retryable f s))"
  unfolding retrying_def by (rule retry_state_invariant)

text \<open>The setup tasks and routes are those given.\<close>

definition plan_is :: "(bool \<times> string) list \<Rightarrow> string list \<Rightarrow> life \<Rightarrow> bool" where
  "plan_is ss rs s = (setups s = ss \<and> routed s = rs)"

lemma plan_call: "plan_is ss rs s \<Longrightarrow> plan_is ss rs (snd (do_call c s))"
  by (simp add: plan_is_def do_call_def)

lemma plan_calls: "plan_is ss rs s \<Longrightarrow> plan_is ss rs (snd (life_calls cs s))"
proof (induction cs arbitrary: s)
  case (Cons c cs)
  obtain a s1 where c: "do_call c s = (a, s1)" by fastforce
  then have "plan_is ss rs s1" using plan_call [OF Cons.prems, of c] by simp
  then show ?case using c Cons.IH by (cases a) auto
qed simp

lemma plan_drop: "plan_is ss rs s \<Longrightarrow> plan_is ss rs (snd (drop_connection e s))"
  by (auto simp: drop_connection_def plan_is_def do_call_def split: option.split)

lemma plan_connect:
  assumes "\<And>s. plan_is ss rs s \<Longrightarrow> plan_is ss rs (snd (body s))" "plan_is ss rs s"
  shows "plan_is ss rs (snd (connect gone p body s))"
proof (cases "has_connection s \<and> \<not> gone (length (calls s))")
  case True
  then show ?thesis using assms by (simp add: connect_def)
next
  case False
  obtain a s1 where r: "retrying p connection_retryable (do_call ConnectBroker) s = (a, s1)" by fastforce
  then have s1: "plan_is ss rs s1"
    using retrying_invariant [where P = "plan_is ss rs" and f = "do_call ConnectBroker" and s = s and p = p and retryable = connection_retryable]
      plan_call assms(2) by simp
  show ?thesis
  proof (cases a)
    case None
    obtain b s2 where b: "body (s1\<lparr>has_connection := True\<rparr>) = (b, s2)" by fastforce
    have "plan_is ss rs (s1\<lparr>has_connection := True\<rparr>)" using s1 by (simp add: plan_is_def)
    then have "plan_is ss rs s2" using assms(1) b by (metis snd_conv)
    moreover have "connect gone p body s = (case b of Some e \<Rightarrow> drop_connection e s2 | None \<Rightarrow> (None, s2))"
      unfolding connect_def if_not_P [OF False] r None by (simp add: b)
    ultimately show ?thesis using plan_drop by (cases b) simp_all
  next
    case (Some e)
    have "connect gone p body s = drop_connection e s1" unfolding connect_def if_not_P [OF False] r Some by simp
    then show ?thesis using s1 plan_drop by simp
  qed
qed

lemma plan_verify: "plan_is ss rs s \<Longrightarrow> plan_is ss rs (snd (verify_once gone p exchange s))"
proof -
  assume s: "plan_is ss rs s"
  let ?cs = "[OpenCheckChannel, CheckPassive exchange, CheckPassive DEAD_LETTER_EXCHANGE, CheckPassive DEAD_LETTER_QUEUE]"
  obtain a s1 where c: "connect gone p (life_calls ?cs) s = (a, s1)" by fastforce
  have "plan_is ss rs s1" using plan_connect [where body = "life_calls ?cs" and gone = gone and p = p, OF plan_calls s] c by simp
  then show ?thesis using c by (cases a) (auto simp: verify_once_def plan_is_def)
qed

text \<open>A connection that gives a result was opened or reused.\<close>

lemma connect_returned:
  assumes "connect gone p body s = (None, s')" "plan_is ss rs s"
  obtains s0 where "body s0 = (None, s')" "plan_is ss rs s0"
proof (cases "has_connection s \<and> \<not> gone (length (calls s))")
  case True
  then show ?thesis using assms that by (simp add: connect_def)
next
  case False
  obtain a s1 where r: "retrying p connection_retryable (do_call ConnectBroker) s = (a, s1)" by fastforce
  have s1: "plan_is ss rs s1"
    using retrying_invariant [where P = "plan_is ss rs" and f = "do_call ConnectBroker" and s = s and p = p and retryable = connection_retryable]
      plan_call assms(2) r by simp
  have drop: "drop_connection e t \<noteq> (None, s')" for e t by (auto simp: drop_connection_def do_call_def split: option.splits if_splits)
  have a: "a = None" using assms(1) False r drop by (cases a) (auto simp: connect_def)
  have "body (s1\<lparr>has_connection := True\<rparr>) = (None, s')"
    using assms(1) False r a drop by (auto simp: connect_def split: prod.splits option.splits)
  then show ?thesis using that s1 by (auto simp: plan_is_def)
qed

lemma await_cancelled_calls: "await_cancelled c s = (r, s') \<Longrightarrow> s' = s\<lparr>calls := calls s @ [c]\<rparr>"
  by (auto simp: await_cancelled_def do_call_def split: option.splits if_splits)

lemma wind_down_returned:
  assumes "wind_down s = (None, s')"
  shows "calls s' = calls s @ [AwaitShutdown, StopMonitor, StopResults, AwaitTasks] \<and> \<not> monitor_running s' \<and> event_on s'
    \<and> setups s' = setups s \<and> routed s' = routed s \<and> has_connection s' = has_connection s \<and> verified s' = verified s"
proof -
  let ?s1 = "s\<lparr>calls := calls s @ [AwaitShutdown], event_on := True, monitor_running := False\<rparr>"
  obtain a s2 where m: "await_cancelled StopMonitor ?s1 = (a, s2)" by fastforce
  obtain b s3 where r: "await_cancelled StopResults s2 = (b, s3)" by fastforce
  have "a = None" "b = None" "answers s (length (calls s)) = None"
    using assms m r by (auto simp: wind_down_def do_call_def split: option.splits)
  then have "s' = s3\<lparr>calls := calls s3 @ [AwaitTasks]\<rparr>" using assms m r by (simp add: wind_down_def do_call_def)
  with await_cancelled_calls [OF m] await_cancelled_calls [OF r] show ?thesis by simp
qed

subsection \<open>Properties\<close>

text \<open>
  (C37) A worker that stops without an error either found the infrastructure missing: then its shutdown event is set and no consumer was
  set up; or it started exactly one setup task for each handler and scheduled action, registered every handler under its queue,
  waited for the shutdown event, stopped the health monitor and then waited for the running handlers, in this order. The
  connection is left open.
\<close>

theorem worker_stops_in_order:
  assumes "consume gone p exchange handlers actions s = (None, s')"
  shows "event_on s' \<and>
    (if verified s' then setups s' = setups s @ map (Pair False) handlers @ map (Pair True) actions \<and> routed s' = routed s @ handlers
        \<and> \<not> monitor_running s' \<and> (\<exists>before. calls s' = before @ [AwaitShutdown, StopMonitor, StopResults, AwaitTasks])
     else setups s' = setups s \<and> routed s' = routed s)"
proof -
  have "plan_is (setups s) (routed s) s" by (simp add: plan_is_def)
  then obtain s0 where s0: "consume_body gone p exchange handlers actions s0 = (None, s')" "plan_is (setups s) (routed s) s0"
    using assms connect_returned unfolding consume_def by blast
  let ?s0 = "s0\<lparr>conn_healthy := True, monitor_running := True\<rparr>"
  obtain a s1 where v: "retrying p is_Exception (verify_once gone p exchange) ?s0 = (a, s1)" by fastforce
  have a: "a = None" using s0(1) v by (cases a) (auto simp: consume_body_def)
  have "plan_is (setups s) (routed s) ?s0" using s0(2) by (simp add: plan_is_def)
  then have s1: "plan_is (setups s) (routed s) s1"
    using retrying_invariant [where P = "plan_is (setups s) (routed s)" and f = "verify_once gone p exchange" and s = ?s0
        and p = p and retryable = is_Exception] plan_verify v by simp
  show ?thesis
  proof (cases "verified s1")
    case True
    then have "wind_down (start_setups handlers actions s1) = (None, s')" using s0(1) v a by (simp add: consume_body_def)
    from wind_down_returned [OF this] show ?thesis using s1 True by (auto simp: start_setups_def plan_is_def)
  next
    case False
    then have "s' = s1\<lparr>event_on := True\<rparr>" using s0(1) v a by (simp add: consume_body_def)
    then show ?thesis using False s1 by (simp add: plan_is_def)
  qed
qed

definition idle_worker :: "(nat \<Rightarrow> exc option) \<Rightarrow> life" where
  "idle_worker ans = \<lparr>calls = [], answers = ans, has_connection = False, conn_healthy = False, monitor_running = False, setups = [],
     routed = [], event_on = False, verified = False\<rparr>"

lemmas life_eval = consume_def consume_body_def connect_def verify_once_def drop_connection_def wind_down_def await_cancelled_def
  start_setups_def retrying_def do_call_def idle_worker_def

theorem worker_stops_in_order_witness:
  "setups (snd (consume (\<lambda>_. False) RetryPolicy_default ''ex'' [''q1''] [''tick''] (idle_worker (\<lambda>_. None)))) = [(False, ''q1''), (True, ''tick'')]"
proof -
  let ?r = "consume (\<lambda>_. False) RetryPolicy_default ''ex'' [''q1''] [''tick''] (idle_worker (\<lambda>_. None))"
  have "fst ?r = None" "verified (snd ?r)" by (simp_all add: life_eval RetryPolicy_default_def numeral_eq_Suc)
  moreover from this have "?r = (None, snd ?r)" by (simp add: prod_eq_iff)
  ultimately show ?thesis using worker_stops_in_order [of "\<lambda>_. False" RetryPolicy_default "''ex''" "[''q1'']" "[''tick'']" "idle_worker (\<lambda>_. None)"]
    by (auto simp: idle_worker_def)
qed

text \<open>
  The retries around the verification do not cover errors of the broker: one such error, even a lost connection, is taken for missing
  infrastructure and the worker shuts down after a single attempt.
\<close>

theorem broker_error_stops_worker_at_once:
  assumes "\<not> has_connection s" "0 \<le> max_retries p" "answers s (length (calls s)) = None"
    and "answers s (Suc (length (calls s))) = Some e" "is_amqp e"
  shows "\<exists>s'. consume (\<lambda>_. False) p exchange handlers actions s = (None, s') \<and> event_on s' \<and> setups s' = setups s
    \<and> calls s' = calls s @ [ConnectBroker, OpenCheckChannel]"
proof -
  obtain n where n: "nat (max_retries p + 1) = Suc n" using assms(2) by (cases "nat (max_retries p + 1)") auto
  show ?thesis using assms n by (simp add: life_eval)
qed

theorem broker_error_stops_worker_at_once_witness:
  "event_on (snd (consume (\<lambda>_. False) RetryPolicy_default ''ex'' [''q1''] []
     (idle_worker (\<lambda>i. if i = 1 then Some (Exc AMQPConnectionError ''reset'') else None))))"
  using broker_error_stops_worker_at_once [of "idle_worker (\<lambda>i. if i = 1 then Some (Exc AMQPConnectionError ''reset'') else None)"
      RetryPolicy_default "Exc AMQPConnectionError ''reset''" "''ex''" "[''q1'']" "[]"]
  by (auto simp: idle_worker_def RetryPolicy_default_def is_amqp_def)

text \<open>A worker that fails with an \<^verbatim>\<open>Exception\<close> after it opened the connection itself has no connection left.\<close>

theorem failed_worker_drops_connection:
  assumes "consume gone p exchange handlers actions s = (Some e, s')" "is_Exception e" "\<not> has_connection s \<or> gone (length (calls s))"
  shows "\<not> has_connection s'"
proof -
  have drop: "\<not> has_connection s'" if "drop_connection x t = (Some e, s')" for x t
    using that assms(2) by (auto simp: drop_connection_def do_call_def swallow_Some split: option.splits if_splits)
  obtain a s1 where r: "retrying p connection_retryable (do_call ConnectBroker) s = (a, s1)" by fastforce
  show ?thesis
  proof (cases a)
    case None
    obtain b s2 where "consume_body gone p exchange handlers actions (s1\<lparr>has_connection := True\<rparr>) = (b, s2)" by fastforce
    then show ?thesis using assms(1,3) r None drop by (cases b) (auto simp: consume_def connect_def)
  next
    case (Some x)
    then show ?thesis using assms(1,3) r drop by (auto simp: consume_def connect_def)
  qed
qed

theorem failed_worker_drops_connection_witness:
  "\<not> has_connection (snd (consume (\<lambda>_. False) RetryPolicy_default ''ex'' [''q1''] []
     (idle_worker (\<lambda>i. if i = 5 then Some (Exc RuntimeError ''loop'') else None))))"
proof -
  let ?s = "idle_worker (\<lambda>i. if i = 5 then Some (Exc RuntimeError ''loop'') else None)"
  let ?r = "consume (\<lambda>_. False) RetryPolicy_default ''ex'' [''q1''] [] ?s"
  have "fst ?r = Some (Exc RuntimeError ''loop'')" by (simp add: life_eval RetryPolicy_default_def numeral_eq_Suc)
  then have "?r = (Some (Exc RuntimeError ''loop''), snd ?r)" by (simp add: prod_eq_iff)
  from failed_worker_drops_connection [OF this] show ?thesis by (simp add: idle_worker_def)
qed

text \<open>
  Signals: a worker returns from consuming only after a signal it received while it was consuming. Signals that arrive while the
  application starts are lost, however many there are.
\<close>

interpretation worker: machine worker_step worker_run
  by unfold_locales simp_all

lemma worker_run_event:
  "worker_run es w = Some w' \<Longrightarrow> w_phase w' = Exited 0 \<Longrightarrow> \<not> w_event w \<Longrightarrow> w_phase w \<noteq> Exited 0 \<Longrightarrow>
   \<exists>xs ys. es = xs @ SignalReceived # ys \<and> (\<exists>v. worker_run xs w = Some v \<and> w_phase v = Consuming)"
proof (induction es arbitrary: w)
  case (Cons e es)
  from Cons.prems(1) obtain w1 where w1: "worker_step e w = Some w1" "worker_run es w1 = Some w'" by (rule worker.run_ConsE)
  show ?case
  proof (cases "e = SignalReceived \<and> w_phase w = Consuming")
    case True
    then show ?thesis by (intro exI [of _ "[]"] exI [of _ es]) simp
  next
    case False
    have "\<not> w_event w1" "w_phase w1 \<noteq> Exited 0"
      using w1(1) False Cons.prems(3,4) by (cases e; auto split: if_splits worker_phase.splits)+
    from Cons.IH [OF w1(2) Cons.prems(2) this] obtain xs ys v where
      "es = xs @ SignalReceived # ys" "worker_run xs w1 = Some v" "w_phase v = Consuming" by blast
    then show ?thesis using w1(1) by (intro exI [of _ "e # xs"] exI [of _ ys]) simp
  qed
qed simp

theorem early_signals_are_lost:
  assumes "worker_run es worker_start = Some w"
  shows "(w_phase w = Exited 0 \<longrightarrow> BootDone \<in> set es \<and> SignalReceived \<in> set es)
    \<and> (\<forall>n. worker_run (replicate n SignalReceived @ [BootDone]) worker_start =
        Some \<lparr>w_phase = Consuming, w_event = False, w_lost = n\<rparr>)"
proof
  have boot: "w_phase w = Consuming" if "worker_run xs w = Some v" "w_phase v = Consuming" "BootDone \<notin> set xs" for xs w v
    using that
  proof (induction xs arbitrary: w)
    case (Cons x xs)
    from Cons.prems(1) obtain w1 where w1: "worker_step x w = Some w1" "worker_run xs w1 = Some v" by (rule worker.run_ConsE)
    then have "w_phase w1 = Consuming" using Cons by simp
    then show ?case using w1(1) Cons.prems(3) by (cases x) (auto split: if_splits worker_phase.splits)
  qed simp
  show "w_phase w = Exited 0 \<longrightarrow> BootDone \<in> set es \<and> SignalReceived \<in> set es"
  proof
    assume "w_phase w = Exited 0"
    then obtain xs ys v where "es = xs @ SignalReceived # ys" "worker_run xs worker_start = Some v" "w_phase v = Consuming"
      using worker_run_event [OF assms] by (auto simp: worker_start_def)
    then show "BootDone \<in> set es \<and> SignalReceived \<in> set es" using boot [of xs worker_start v] by (auto simp: worker_start_def)
  qed
  have "worker_run (replicate n SignalReceived @ [BootDone]) \<lparr>w_phase = Booting, w_event = False, w_lost = k\<rparr> =
      Some \<lparr>w_phase = Consuming, w_event = False, w_lost = k + n\<rparr>" for n k
    by (induction n arbitrary: k) simp_all
  from this [of _ 0] show "\<forall>n. worker_run (replicate n SignalReceived @ [BootDone]) worker_start =
        Some \<lparr>w_phase = Consuming, w_event = False, w_lost = n\<rparr>" by (simp add: worker_start_def)
qed

theorem early_signals_are_lost_witness:
  "worker_run [SignalReceived, SignalReceived, BootDone] worker_start = Some \<lparr>w_phase = Consuming, w_event = False, w_lost = 2\<rparr>"
proof -
  have "worker_run [BootDone] worker_start = Some (worker_start\<lparr>w_phase := Consuming\<rparr>)" by (simp add: worker_start_def)
  from early_signals_are_lost [OF this] have "worker_run (replicate 2 SignalReceived @ [BootDone]) worker_start =
      Some \<lparr>w_phase = Consuming, w_event = False, w_lost = 2\<rparr>" by blast
  then show ?thesis by (simp add: numeral_2_eq_2)
qed

end
