(* ===== verification/Http_Server.thy ===== *)
theory Http_Server
  imports Container Decorators Sessions
begin

section \<open>The HTTP server\<close>

text \<open>
  \<^verbatim>\<open>presentation/server.py\<close>, \<^verbatim>\<open>presentation/hooks.py\<close> and the shutdown functions of \<^verbatim>\<open>microservice.py\<close>: how the routers of the
  controllers and the middlewares of the application are put on the FastAPI application, the shutdown state with its signal
  handlers, and the dependency that opens the unit of work of a request.
\<close>

subsection \<open>The lifespan\<close>

text \<open>
  The operations on the application, in their order. A dependency is the dependency that opens the unit of work, or the \<open>intercept\<close>
  method of an instance.
\<close>

datatype app_dependency = UowDependency | InterceptOf pyval

datatype api_op = IncludeRouter router | AppendDependency app_dependency

record http_api =
  app_container :: cst
  api_ops :: "api_op list"

fun middleware_types :: "dependency list \<Rightarrow> string list" where
  "middleware_types [] = []"
| "middleware_types (Intercept m # ds) = m # middleware_types ds"
| "middleware_types (Injected d # ds) = middleware_types ds"

fun resolve_types :: "resolver \<Rightarrow> string list \<Rightarrow> cst \<Rightarrow> pyval list result \<times> cst" where
  "resolve_types resolve [] s = (Inr [], s)"
| "resolve_types resolve (t # ts) s =
     (case resolve (KType t) s of
        (Inl e, s1) \<Rightarrow> (Inl e, s1)
      | (Inr v, s1) \<Rightarrow>
          (case resolve_types resolve ts s1 of (Inl e, s2) \<Rightarrow> (Inl e, s2) | (Inr vs, s2) \<Rightarrow> (Inr (v # vs), s2)))"

text \<open>The router factory resolves the middlewares of the class and of its members while it builds the router.\<close>

definition build_router :: "resolver \<Rightarrow> router \<Rightarrow> cst \<Rightarrow> router result \<times> cst" where
  "build_router resolve r s =
     (case resolve_types resolve (middleware_types (router_dependencies r)
             @ concat (map (middleware_types \<circ> ar_dependencies) (routes r))) s of
        (Inl e, s1) \<Rightarrow> (Inl e, s1)
      | (Inr vs, s1) \<Rightarrow> (Inr r, s1))"

fun append_middlewares :: "resolver \<Rightarrow> string list \<Rightarrow> http_api \<Rightarrow> exc option \<times> http_api" where
  "append_middlewares resolve [] a = (None, a)"
| "append_middlewares resolve (m # ms) a =
     (case resolve (KType m) (app_container a) of
        (Inl e, s1) \<Rightarrow> (Some e, a\<lparr>app_container := s1\<rparr>)
      | (Inr v, s1) \<Rightarrow> append_middlewares resolve ms
          (a\<lparr>app_container := s1, api_ops := api_ops a @ [AppendDependency (InterceptOf v)]\<rparr>))"

text \<open>\<open>router_of\<close>: the router of a controller class, \<open>None\<close> where the class is no \<open>RestController\<close>.\<close>

fun include_controllers :: "resolver \<Rightarrow> (string \<Rightarrow> router option) \<Rightarrow> string list \<Rightarrow> string list \<Rightarrow> http_api \<Rightarrow> exc option \<times> http_api" where
  "include_controllers resolve router_of middlewares [] a = (None, a)"
| "include_controllers resolve router_of middlewares (c # cs) a =
     (case router_of c of
        None \<Rightarrow> include_controllers resolve router_of middlewares cs a
      | Some r \<Rightarrow>
          (case resolve (KType c) (app_container a) of
             (Inl e, s1) \<Rightarrow> (Some e, a\<lparr>app_container := s1\<rparr>)
           | (Inr v, s1) \<Rightarrow>
               (case build_router resolve r s1 of
                  (Inl e, s2) \<Rightarrow> (Some e, a\<lparr>app_container := s2\<rparr>)
                | (Inr r', s2) \<Rightarrow>
                    (case append_middlewares resolve middlewares
                            (a\<lparr>app_container := s2, api_ops := api_ops a @ [IncludeRouter r']\<rparr>) of
                       (Some e, a1) \<Rightarrow> (Some e, a1)
                     | (None, a1) \<Rightarrow> include_controllers resolve router_of middlewares cs a1))))"

text \<open>\<open>RestController.get_last\<close> and its router factory.\<close>

definition rest_router :: "hierarchy \<Rightarrow> route_decorator decorated \<Rightarrow> (string \<Rightarrow> rest_controller option) \<Rightarrow> (string \<Rightarrow> string list) \<Rightarrow> string \<Rightarrow> router option" where
  "rest_router H D rest members c = map_option (\<lambda>rc. router_factory H D rc c (members c)) (rest c)"

text \<open>\<open>HttpAppLifecycle.__call__\<close>; \<open>serve\<close> is what runs while the application is up.\<close>

definition http_lifespan ::
  "bool \<Rightarrow> nat \<Rightarrow> classes \<Rightarrow> provider list \<Rightarrow> http_api interceptor option list \<Rightarrow> (string \<Rightarrow> router option) \<Rightarrow> string list \<Rightarrow>
   string list \<Rightarrow> (http_api \<Rightarrow> exc option \<times> http_api) \<Rightarrow> http_api \<Rightarrow> exc option \<times> http_api" where
  "http_lifespan shutdown_requested n E providers lifecycles router_of middlewares controllers serve a =
     app_lifecycle shutdown_requested
       (\<lambda>after a. case fill_providers n E after providers (app_container a) of (r, s1) \<Rightarrow> (r, a\<lparr>app_container := s1\<rparr>))
       lifecycles
       (\<lambda>a. case include_controllers (get_or_register_token_or_type n E) router_of middlewares controllers a of
              (Some e, a1) \<Rightarrow> (Some e, a1)
            | (None, a1) \<Rightarrow> serve a1)
       a"

text \<open>\<open>create_http_server\<close> puts the dependency of the unit of work on the application before the lifespan runs.\<close>

definition create_http_server :: "cst \<Rightarrow> http_api" where
  "create_http_server c = \<lparr>app_container = c, api_ops = [AppendDependency UowDependency]\<rparr>"

text \<open>
  The dependencies of the application at the moment a router is included: these are the ones FastAPI adds to its routes.
\<close>

fun in_effect :: "app_dependency list \<Rightarrow> api_op list \<Rightarrow> (router \<times> app_dependency list) list" where
  "in_effect ds [] = []"
| "in_effect ds (AppendDependency d # ops) = in_effect (ds @ [d]) ops"
| "in_effect ds (IncludeRouter r # ops) = (r, ds) # in_effect ds ops"

subsection \<open>The shutdown state\<close>

datatype signum = SIGINT | SIGTERM

datatype signal_handler = HandleSignal | OldHandler

record http_shutdown =
  sh_requested :: bool
  sh_aevent :: bool
  old_known :: "signum \<Rightarrow> bool"             \<comment> \<open>\<open>old_signal_handlers[sig] is not None\<close>\<close>
  installed :: "signum \<Rightarrow> signal_handler"
  received_by_old :: "signum list"

text \<open>
  \<open>handle_signal\<close> where it is installed; it raises the signal again once the old handlers are back.
\<close>

function raise_signal :: "signum \<Rightarrow> http_shutdown \<Rightarrow> http_shutdown" where
  "raise_signal sig s =
     (case installed s sig of
        OldHandler \<Rightarrow> s\<lparr>received_by_old := received_by_old s @ [sig]\<rparr>
      | HandleSignal \<Rightarrow>
          if sh_requested s then s\<lparr>sh_aevent := True\<rparr>
          else raise_signal sig (s\<lparr>sh_aevent := True, sh_requested := True,
                 installed := (\<lambda>g. if old_known s g then OldHandler else installed s g)\<rparr>))"
  by pat_completeness auto
termination by (relation "measure (\<lambda>(sig, s). if sh_requested s then 0 else 1)") auto

definition request_shutdown :: "http_shutdown \<Rightarrow> http_shutdown" where
  "request_shutdown s = (if sh_requested s then s else raise_signal SIGINT (s\<lparr>sh_requested := True\<rparr>))"

definition HttpShutdownState :: "(signum \<Rightarrow> bool) \<Rightarrow> http_shutdown" where
  "HttpShutdownState known =
     \<lparr>sh_requested = False, sh_aevent = False, old_known = known, installed = (\<lambda>_. OldHandler), received_by_old = []\<rparr>"

definition setup_signal_handlers :: "http_shutdown \<Rightarrow> http_shutdown" where
  "setup_signal_handlers s = s\<lparr>installed := (\<lambda>_. HandleSignal)\<rparr>"

datatype shutdown_event = Signal signum | RequestShutdown

fun shutdown_step :: "shutdown_event \<Rightarrow> http_shutdown \<Rightarrow> http_shutdown" where
  "shutdown_step (Signal sig) s = raise_signal sig s"
| "shutdown_step RequestShutdown s = request_shutdown s"

fun signals_of :: "shutdown_event list \<Rightarrow> signum list" where
  "signals_of [] = []"
| "signals_of (Signal sig # es) = sig # signals_of es"
| "signals_of (RequestShutdown # es) = signals_of es"

text \<open>
  \<open>shutdown_race\<close>: the outcome of each task, \<open>None\<close> while it is pending. The call returns only once some task has ended; it cancels
  the others and tells whether a shutdown was requested.
\<close>

definition shutdown_race :: "bool \<Rightarrow> (unit result) option list \<Rightarrow> (bool \<times> nat list) option" where
  "shutdown_race shutting_down tasks =
     (if \<exists>t \<in> set tasks. t \<noteq> None then Some (shutting_down, filter (\<lambda>i. tasks ! i = None) [0 ..< length tasks]) else None)"

subsection \<open>The unit of work of a request\<close>

record http_vars = db_vars +
  v_shutdown_state :: "nat option"

datatype endpoint_member = NoMember | NotAReflect | Member Unit_Of_Work.metadata

definition is_http_exception :: "exc \<Rightarrow> bool" where
  "is_http_exception e = (case exc_cls e of HTTPException n \<Rightarrow> True | _ \<Rightarrow> False)"

definition translate_exception :: "bool \<Rightarrow> exc \<Rightarrow> exc" where
  "translate_exception raise_presentation_exception_if_unhandled e =
     (if is_http_exception e \<or> exc_cls e = ClientDisconnected then e
      else if is_Exception e \<and> raise_presentation_exception_if_unhandled then Exc PresentationException (exc_str e)
      else e)"

definition provide_shutdown_state ::
  "nat \<Rightarrow> (http_vars \<Rightarrow> exc option \<times> http_vars) \<Rightarrow> http_vars \<Rightarrow> exc option \<times> http_vars" where
  "provide_shutdown_state state body s =
     (case body (s\<lparr>v_shutdown_state := Some state\<rparr>) of (r, s1) \<Rightarrow> (r, s1\<lparr>v_shutdown_state := v_shutdown_state s\<rparr>))"

text \<open>\<open>HttpUowContextProviderDependency.__call__\<close> around an endpoint, for a request or a web socket.\<close>

definition http_dependency ::
  "bool \<Rightarrow> nat \<Rightarrow> http_vars interceptor list \<Rightarrow> bool \<Rightarrow> bool \<Rightarrow> endpoint_member \<Rightarrow>
   (http_vars \<Rightarrow> exc option \<times> http_vars) \<Rightarrow> http_vars \<Rightarrow> exc option \<times> http_vars" where
  "http_dependency raise_presentation_exception_if_unhandled shutdown_state interceptors request websocket member endpoint s =
     (if \<not> request \<and> \<not> websocket then (Some (Exc ValueError ''Either request or websocket must be provided.''), s)
      else case member of
             NoMember \<Rightarrow> (Some (Exc ValueError ''The endpoint does not have a controller member reflect.''), s)
           | NotAReflect \<Rightarrow> (Some (Exc AssertionError ''Expected endpoint.controller_member_reflect''), s)
           | Member md \<Rightarrow>
               provide_shutdown_state shutdown_state
                 (unit_of_work interceptors (if request then ''http'' else ''websocket'') md
                    (\<lambda>s. case endpoint s of (r, s1) \<Rightarrow>
                       (map_option (translate_exception raise_presentation_exception_if_unhandled) r, s1)))
                 s)"

subsection \<open>Hooks\<close>

text \<open>\<open>raises_http_exception_on\<close>: \<open>is_instance\<close> tells whether the exception is of the given type.\<close>

definition raises_http_exception_on :: "(exc \<Rightarrow> bool) \<Rightarrow> int \<Rightarrow> string \<Rightarrow> ('s \<Rightarrow> exc option \<times> 's) \<Rightarrow> 's \<Rightarrow> exc option \<times> 's" where
  "raises_http_exception_on is_instance status_code details body s =
     (case body s of
        (Some e, s1) \<Rightarrow> (Some (if is_instance e then Exc (HTTPException status_code) details else e), s1)
      | (None, s1) \<Rightarrow> (None, s1))"

text \<open>The hooks for a fixed status; details default to the text of the status.\<close>

definition raises_200_on where "raises_200_on is_instance details = raises_http_exception_on is_instance 200 (case_option ''OK'' id details)"
definition raises_422_on where "raises_422_on is_instance details = raises_http_exception_on is_instance 422 (case_option ''Unprocessable entity'' id details)"
definition raises_404_on where "raises_404_on is_instance details = raises_http_exception_on is_instance 404 (case_option ''Not found'' id details)"
definition raises_400_on where "raises_400_on is_instance details = raises_http_exception_on is_instance 400 (case_option ''Bad request'' id details)"
definition raises_401_on where "raises_401_on is_instance details = raises_http_exception_on is_instance 401 (case_option ''Unauthorized'' id details)"
definition raises_403_on where "raises_403_on is_instance details = raises_http_exception_on is_instance 403 (case_option ''Forbidden'' id details)"
definition raises_500_on where "raises_500_on is_instance details = raises_http_exception_on is_instance 500 (case_option ''Internal server error'' id details)"

subsection \<open>Lemmas\<close>

text \<open>Resolving a key keeps every binding and binds the key to its result.\<close>

lemma resolve_keeps:
  assumes "acyclic_by rank E" "get_or_register_token_or_type n E k s = (r, s')"
  shows "map_of (instances_map s) \<subseteq>\<^sub>m map_of (instances_map s')"
    and "r = Inr v \<Longrightarrow> map_of (instances_map s') k = Some v"
  using resolve_grows [OF assms(1), of "Suc (rank k)" n] assms(2) unfolding resolves_def grows_def by blast+

definition instance_of :: "http_api \<Rightarrow> string \<Rightarrow> pyval" where
  "instance_of a m = the (map_of (instances_map (app_container a)) (KType m))"

definition keeps_bindings :: "cst \<Rightarrow> cst \<Rightarrow> bool" where
  "keeps_bindings s s' = (map_of (instances_map s) \<subseteq>\<^sub>m map_of (instances_map s'))"

lemma keeps_bindings_refl [simp]: "keeps_bindings s s"
  by (simp add: keeps_bindings_def)

lemma keeps_bindings_trans [trans]: "keeps_bindings s s1 \<Longrightarrow> keeps_bindings s1 s2 \<Longrightarrow> keeps_bindings s s2"
  unfolding keeps_bindings_def by (rule map_le_trans)

lemma keeps_bound: "keeps_bindings s s' \<Longrightarrow> map_of (instances_map s) k = Some v \<Longrightarrow> map_of (instances_map s') k = Some v"
  unfolding keeps_bindings_def map_le_def by (metis domI)

lemma resolve_types_keeps:
  assumes "acyclic_by rank E" "resolve_types (get_or_register_token_or_type n E) ts s = (r, s')"
  shows "keeps_bindings s s'"
  using assms(2)
proof (induction ts arbitrary: s r)
  case (Cons t ts)
  obtain q s1 where q: "get_or_register_token_or_type n E (KType t) s = (q, s1)" by fastforce
  have "keeps_bindings s s1" using resolve_keeps(1) [OF assms(1) q] by (simp add: keeps_bindings_def)
  moreover have "keeps_bindings s1 s'" if "q = Inr v" for v
  proof -
    obtain q2 s2 where q2: "resolve_types (get_or_register_token_or_type n E) ts s1 = (q2, s2)" by fastforce
    then have "s' = s2" using Cons.prems q that by (auto split: sum.splits)
    then show ?thesis using Cons.IH [of s1 q2] q2 by simp
  qed
  ultimately show ?case using Cons.prems q keeps_bindings_trans by (cases q) auto
qed simp

lemma build_router_keeps:
  assumes "acyclic_by rank E" "build_router (get_or_register_token_or_type n E) r s = (q, s')"
  shows "keeps_bindings s s'" and "q = Inr r' \<Longrightarrow> r' = r"
  using assms(2) resolve_types_keeps [OF assms(1)]
  by (auto simp: build_router_def split: prod.splits sum.splits)

lemma append_middlewares_run:
  assumes "acyclic_by rank E" "append_middlewares (get_or_register_token_or_type n E) ms a = (None, a')"
  shows "keeps_bindings (app_container a) (app_container a')
    \<and> (\<forall>m \<in> set ms. map_of (instances_map (app_container a')) (KType m) = Some (instance_of a' m))
    \<and> api_ops a' = api_ops a @ map (\<lambda>m. AppendDependency (InterceptOf (instance_of a' m))) ms"
  using assms(2)
proof (induction ms arbitrary: a)
  case (Cons m ms)
  obtain q s1 where q: "get_or_register_token_or_type n E (KType m) (app_container a) = (q, s1)" by fastforce
  obtain v where v: "q = Inr v" using Cons.prems q by (cases q) auto
  let ?a = "a\<lparr>app_container := s1, api_ops := api_ops a @ [AppendDependency (InterceptOf v)]\<rparr>"
  have IH: "keeps_bindings s1 (app_container a')"
    "\<forall>m \<in> set ms. map_of (instances_map (app_container a')) (KType m) = Some (instance_of a' m)"
    "api_ops a' = api_ops a @ [AppendDependency (InterceptOf v)] @ map (\<lambda>m. AppendDependency (InterceptOf (instance_of a' m))) ms"
    using Cons.IH [of ?a] Cons.prems q v by auto
  have "keeps_bindings (app_container a) s1" using resolve_keeps(1) [OF assms(1) q] by (simp add: keeps_bindings_def)
  moreover have "map_of (instances_map (app_container a')) (KType m) = Some v"
    using keeps_bound [OF IH(1)] resolve_keeps(2) [OF assms(1) q v] by blast
  ultimately show ?case using IH keeps_bindings_trans by (auto simp: instance_of_def)
qed simp

lemma include_controllers_run:
  assumes "acyclic_by rank E" "include_controllers (get_or_register_token_or_type n E) router_of ms cs a = (None, a')"
  shows "keeps_bindings (app_container a) (app_container a')
    \<and> api_ops a' = api_ops a @ concat (map (\<lambda>r. IncludeRouter r # map (\<lambda>m. AppendDependency (InterceptOf (instance_of a' m))) ms)
        (List.map_filter router_of cs))"
  using assms(2)
proof (induction cs arbitrary: a)
  case (Cons c cs)
  let ?get = "get_or_register_token_or_type n E"
  show ?case
  proof (cases "router_of c")
    case None
    then show ?thesis using Cons by (simp add: List.map_filter_simps)
  next
    case (Some r)
    obtain q s1 where q: "?get (KType c) (app_container a) = (q, s1)" by fastforce
    obtain v where v: "q = Inr v" using Cons.prems Some q by (cases q) auto
    obtain b s2 where b: "build_router ?get r s1 = (b, s2)" by fastforce
    obtain r' where r': "b = Inr r'" using Cons.prems Some q v b by (cases b) auto
    have [simp]: "r' = r" using build_router_keeps(2) [OF assms(1) b r'] .
    let ?a = "a\<lparr>app_container := s2, api_ops := api_ops a @ [IncludeRouter r]\<rparr>"
    obtain o' a1 where m: "append_middlewares ?get ms ?a = (o', a1)" by fastforce
    have "o' = None" using Cons.prems Some q v b r' m by (cases o') auto
    note run = append_middlewares_run [OF assms(1) m [unfolded this]]
    have IH: "keeps_bindings (app_container a1) (app_container a')"
      "api_ops a' = api_ops a1 @ concat (map (\<lambda>r. IncludeRouter r # map (\<lambda>m. AppendDependency (InterceptOf (instance_of a' m))) ms)
        (List.map_filter router_of cs))"
      using Cons.IH [of a1] Cons.prems Some q v b r' m \<open>o' = None\<close> by auto
    have "keeps_bindings (app_container a) s2"
      using resolve_keeps(1) [OF assms(1) q] build_router_keeps(1) [OF assms(1) b] keeps_bindings_trans
      by (metis keeps_bindings_def)
    also have "keeps_bindings s2 (app_container a1)" using run by simp
    also note IH(1)
    finally have "keeps_bindings (app_container a) (app_container a')" .
    moreover have "\<forall>m \<in> set ms. instance_of a1 m = instance_of a' m"
      using run keeps_bound [OF IH(1)] by (auto simp: instance_of_def)
    ultimately show ?thesis using run IH(2) Some by (simp add: List.map_filter_simps)
  qed
qed (simp add: List.map_filter_simps)

lemma in_effect_append [simp]: "in_effect ds (map (\<lambda>m. AppendDependency (f m)) ms @ ops) = in_effect (ds @ map f ms) ops"
  by (induction ms arbitrary: ds) simp_all

lemma in_effect_blocks:
  "in_effect (ds @ concat (replicate n (map f ms))) (concat (map (\<lambda>r. IncludeRouter r # map (\<lambda>m. AppendDependency (f m)) ms) rs))
   = map (\<lambda>(i, r). (r, ds @ concat (replicate i (map f ms)))) (enumerate n rs)"
proof (induction rs arbitrary: n)
  case (Cons r rs)
  have "concat (replicate n (map f ms)) @ map f ms = concat (replicate (Suc n) (map f ms))"
    by (induction n) simp_all
  then show ?case using Cons [of "Suc n"] by simp
qed simp

subsection \<open>Properties\<close>

text \<open>
  The application's middlewares are appended after each router that is included, once per controller: the routes of the controller at
  position \<open>i\<close> have the unit of work and \<open>i\<close> copies of every middleware. So the first controller runs without them.
\<close>

theorem middlewares_by_position:
  assumes "acyclic_by rank E"
    and "include_controllers (get_or_register_token_or_type n E) router_of middlewares controllers (create_http_server c) = (None, a)"
  shows "in_effect [] (api_ops a) =
    map (\<lambda>(i, r). (r, UowDependency # concat (replicate i (map (\<lambda>m. InterceptOf (instance_of a m)) middlewares))))
      (enumerate 0 (List.map_filter router_of controllers))"
  using include_controllers_run [OF assms]
    in_effect_blocks [of "[UowDependency]" 0 "\<lambda>m. InterceptOf (instance_of a m)" middlewares "List.map_filter router_of controllers"]
  by (simp add: create_http_server_def)

definition bare_router :: "string \<Rightarrow> router option" where
  "bare_router c = Some \<lparr>prefix = c, router_dependencies = [], routes = []\<rparr>"

definition auth_classes :: classes where
  "auth_classes = \<lparr>c_signature = (\<lambda>t. Inr []), c_call = (\<lambda>t vs i. Inr (VStr t)), c_after_interceptors = (\<lambda>t. None)\<rparr>"

theorem middlewares_by_position_witness:
  "map snd (in_effect [] (api_ops (snd (include_controllers (get_or_register_token_or_type 1 auth_classes) bare_router [''Auth'']
      [''Users'', ''Orders''] (create_http_server \<lparr>instances_map = [], built = []\<rparr>)))))
   = [[UowDependency], [UowDependency, InterceptOf (VStr ''Auth'')]]"
proof -
  define a where "a = snd (include_controllers (get_or_register_token_or_type 1 auth_classes) bare_router [''Auth'']
      [''Users'', ''Orders''] (create_http_server \<lparr>instances_map = [], built = []\<rparr>))"
  have "acyclic_by (\<lambda>k. 0) auth_classes" by (simp add: acyclic_by_def parse_dependencies_def auth_classes_def)
  moreover have "include_controllers (get_or_register_token_or_type 1 auth_classes) bare_router [''Auth'']
      [''Users'', ''Orders''] (create_http_server \<lparr>instances_map = [], built = []\<rparr>) = (None, a)"
    unfolding a_def by code_simp
  moreover have "instance_of a ''Auth'' = VStr ''Auth''" unfolding a_def by code_simp
  ultimately have "in_effect [] (api_ops a) = map (\<lambda>(i, r). (r, UowDependency # concat (replicate i [InterceptOf (VStr ''Auth'')])))
      (enumerate 0 (List.map_filter bare_router [''Users'', ''Orders'']))"
    using middlewares_by_position [of "\<lambda>k. 0" auth_classes 1 bare_router "[''Auth'']" "[''Users'', ''Orders'']" "\<lparr>instances_map = [], built = []\<rparr>" a] by simp
  then show ?thesis unfolding a_def [symmetric] by (simp add: bare_router_def List.map_filter_simps)
qed

text \<open>Every state after the first event: the shutdown is requested, and the handlers of the server are back only when that event was a signal.\<close>

declare raise_signal.simps [simp del]

lemma requested_signal:
  assumes "sh_requested s"
  shows "raise_signal sig s = (if installed s sig = OldHandler then s\<lparr>received_by_old := received_by_old s @ [sig]\<rparr> else s\<lparr>sh_aevent := True\<rparr>)"
  using assms by (subst raise_signal.simps) (simp split: signal_handler.split)

lemma first_signal:
  "raise_signal sig (setup_signal_handlers (HttpShutdownState known)) =
     \<lparr>sh_requested = True, sh_aevent = True, old_known = known, installed = (\<lambda>g. if known g then OldHandler else HandleSignal),
      received_by_old = filter known [sig]\<rparr>"
proof -
  have "raise_signal sig (setup_signal_handlers (HttpShutdownState known)) = raise_signal sig
     \<lparr>sh_requested = True, sh_aevent = True, old_known = known, installed = (\<lambda>g. if known g then OldHandler else HandleSignal), received_by_old = []\<rparr>"
    by (subst raise_signal.simps) (simp add: setup_signal_handlers_def HttpShutdownState_def cong: if_cong)
  then show ?thesis by (simp add: requested_signal)
qed

lemma later_events:
  assumes "sh_requested s" "sh_aevent s"
  shows "fold shutdown_step es s = s\<lparr>received_by_old := received_by_old s @ filter (\<lambda>g. installed s g = OldHandler) (signals_of es)\<rparr>"
  using assms
proof (induction es arbitrary: s)
  case (Cons e es)
  have s: "s\<lparr>sh_aevent := True\<rparr> = s" using Cons.prems by simp
  show ?case
  proof (cases e)
    case (Signal sig)
    let ?s = "s\<lparr>received_by_old := received_by_old s @ [sig]\<rparr>"
    have "shutdown_step e s = (if installed s sig = OldHandler then ?s else s)"
      using requested_signal [OF Cons.prems(1)] Signal s by simp
    then show ?thesis using Cons.IH [of s] Cons.IH [of ?s] Cons.prems Signal by simp
  next
    case RequestShutdown
    then show ?thesis using Cons by (simp add: request_shutdown_def)
  qed
qed simp

text \<open>
  When the first thing that happens is a signal, the server sees it and every later one. When it is \<open>request_shutdown\<close>, the flag is set
  before the signal it sends to the process: the handler takes that signal for a repeated one, the old handlers are never restored, and
  neither this nor any later signal reaches the server.
\<close>

theorem server_sees_signals_unless_requested:
  "received_by_old (fold shutdown_step es (setup_signal_handlers (HttpShutdownState known))) =
     (case es of Signal sig # _ \<Rightarrow> filter known (signals_of es) | _ \<Rightarrow> [])
   \<and> sh_requested (fold shutdown_step es (setup_signal_handlers (HttpShutdownState known))) = (es \<noteq> [])
   \<and> sh_aevent (fold shutdown_step es (setup_signal_handlers (HttpShutdownState known))) = (es \<noteq> [])"
proof (cases es)
  case Nil
  then show ?thesis by (simp add: setup_signal_handlers_def HttpShutdownState_def)
next
  case (Cons e rest)
  have r: "request_shutdown (setup_signal_handlers (HttpShutdownState known)) =
     \<lparr>sh_requested = True, sh_aevent = True, old_known = known, installed = (\<lambda>g. HandleSignal), received_by_old = []\<rparr>"
    by (simp add: request_shutdown_def setup_signal_handlers_def HttpShutdownState_def requested_signal)
  show ?thesis
  proof (cases e)
    case (Signal sig)
    have "filter (\<lambda>g. (if known g then OldHandler else HandleSignal) = OldHandler) = filter known"
      by (rule ext, rule filter_cong) auto
    then show ?thesis using Cons Signal first_signal later_events by simp
  next
    case RequestShutdown
    then show ?thesis using Cons r later_events by simp
  qed
qed

text \<open>
  (C38) A request whose endpoint raises is rolled back: the exception is translated inside the unit of work, so the session interceptor is left with
  an exception, whether it is an \<^verbatim>\<open>HTTPException\<close> or not, and nothing is committed. The caller gets the translated exception unless leaving the
  session raises another one, and the shutdown state of the surrounding context is back.
\<close>

theorem failed_request_rolls_back:
  fixes s :: http_vars
  assumes "request \<or> websocket"
    and "enter_all [container_interceptor (if request then ''http'' else ''websocket''), session_interceptor cfg]
           (s\<lparr>v_shutdown_state := Some state, v_metadata := dict_update (v_metadata s) md\<rparr>) = (None, t)"
    and "endpoint t = (Some e, u)" and "is_Exception e"
    and "frames u = Entered manager dflt smap # rest" "db_now (tx_is_active u) u"
    and "http_dependency flag state [session_interceptor cfg] request websocket (Member md) endpoint s = (r, s')"
  shows "DbRollback \<in> set (db_since u s') \<and> DbCommit \<notin> set (db_since u s')
    \<and> (fst (session_exit (Some (translate_exception flag e)) u) = Inr False \<longrightarrow> r = Some (translate_exception flag e))
    \<and> r \<noteq> None \<and> v_shutdown_state s' = v_shutdown_state s"
proof -
  let ?e = "translate_exception flag e"
  obtain q s3 where x: "session_exit (Some ?e) u = (q, s3)" by fastforce
  have ex: "is_Exception ?e" using assms(4) by (simp add: translate_exception_def)
  obtain new r1 b where run: "s3 = u\<lparr>ctx_default_connection_name := dflt, ctx_session_map := smap,
        db_calls := db_calls u @ new @ [DbTxExit r1, DbClose b], ctx_session_manager := manager, frames := rest\<rparr>"
    "(DbCommit \<in> set new) = (Some ?e = None \<and> db_now (tx_is_active u) u \<and> db_now (session_is_active u) u)"
    "\<forall>e'. Some ?e = Some e' \<longrightarrow> (DbRollback \<in> set new) = (is_Exception e' \<and> db_now (tx_is_active u) u)"
    using session_exit_run [OF assms(5) x] by blast
  have q: "q \<noteq> Inr True" using session_exit_failure x by (metis fst_conv)
  obtain s4 where s4: "aexit (container_interceptor (if request then ''http'' else ''websocket'')) (after_exit (Some ?e) q) s3 = (Inr False, s4)"
    and s4': "db_calls s4 = db_calls s3"
    by (auto simp: container_interceptor_def split: list.splits)
  have "(r, s') = (case after_exit (Some ?e) q of Some e' \<Rightarrow> Some e' | None \<Rightarrow> Some ?e, s4\<lparr>v_metadata := v_metadata s, v_shutdown_state := v_shutdown_state s\<rparr>)"
    using assms(1,2,3,7) x s4
    by (auto simp: http_dependency_def provide_shutdown_state_def unit_of_work_def run_contexts_def session_interceptor_def Let_def)
  then show ?thesis using run ex assms(6) s4' x q by (cases q) (auto simp: db_since_def)
qed

definition sample_http :: http_vars where
  "sample_http = \<lparr>v_metadata = [], v_app_context = None, v_container = False, v_saved = [],
     db_calls = [], db_answers = (\<lambda>_. None), tx_is_active = (\<lambda>_. True), session_is_active = (\<lambda>_. True),
     ctx_session_manager = None, ctx_default_connection_name = ''default'', ctx_session_map = [], frames = [], v_shutdown_state = None\<rparr>"

lemmas http_eval = session_eval dict_update_def container_interceptor_def session_interceptor_def sample_http_def

theorem failed_request_rolls_back_witness:
  "DbCommit \<notin> set (db_since (snd (enter_all [container_interceptor ''http'', session_interceptor (sample_sqa ''a'')] (sample_http\<lparr>v_shutdown_state := Some 0\<rparr>)))
     (snd (http_dependency True 0 [session_interceptor (sample_sqa ''a'')] True False (Member [])
        (\<lambda>s. (Some (Exc (HTTPException 404) ''no such order''), s)) sample_http)))"
proof -
  define s1 where "s1 = snd (enter_all [container_interceptor ''http'', session_interceptor (sample_sqa ''a'')] (sample_http\<lparr>v_shutdown_state := Some 0\<rparr>))"
  define run where "run = http_dependency True 0 [session_interceptor (sample_sqa ''a'')] True False (Member [])
        (\<lambda>s. (Some (Exc (HTTPException 404) ''no such order''), s)) sample_http"
  have "enter_all [container_interceptor (if True then ''http'' else ''websocket''), session_interceptor (sample_sqa ''a'')]
      (sample_http\<lparr>v_shutdown_state := Some 0, v_metadata := dict_update (v_metadata sample_http) []\<rparr>) = (None, s1)"
    by (simp add: s1_def http_eval)
  moreover have "frames s1 = Entered None ''default'' [] # []" "db_now (tx_is_active s1) s1"
    by (simp_all add: s1_def http_eval)
  ultimately have "DbCommit \<notin> set (db_since s1 (snd run))"
    using failed_request_rolls_back [where request = True and websocket = False and cfg = "sample_sqa ''a''" and s = sample_http and state = 0 and md = "[]"
        and t = s1 and endpoint = "\<lambda>s. (Some (Exc (HTTPException 404) ''no such order''), s)" and e = "Exc (HTTPException 404) ''no such order''"
        and u = s1 and manager = None and dflt = "''default''" and smap = "[]" and rest = "[]" and flag = True and r = "fst run" and s' = "snd run"]
    by (simp add: run_def)
  then show ?thesis by (simp add: s1_def run_def)
qed

text \<open>The status a hook gives to an exception is not translated again, so it reaches the client.\<close>

lemma hook_status_reaches_client:
  assumes "body s = (Some e, s1)" "is_instance e"
  shows "(case raises_http_exception_on is_instance status details body s of (r, s2) \<Rightarrow> (map_option (translate_exception flag) r, s2))
    = (Some (Exc (HTTPException status) details), s1)"
  using assms by (simp add: raises_http_exception_on_def translate_exception_def is_http_exception_def)

text \<open>How the tasks of a race ended does not matter: an exception of one of them is lost.\<close>

lemma race_ignores_outcomes:
  "shutdown_race b tasks = shutdown_race b (map (map_option (\<lambda>r. Inr ())) tasks)"
proof -
  have "filter (\<lambda>i. map (map_option (\<lambda>r. Inr () :: unit result)) tasks ! i = None) [0 ..< length tasks] = filter (\<lambda>i. tasks ! i = None) [0 ..< length tasks]"
    by (rule filter_cong) auto
  moreover have "(\<exists>t \<in> set (map (map_option (\<lambda>r. Inr () :: unit result)) tasks). t \<noteq> None) = (\<exists>t \<in> set tasks. t \<noteq> None)" by auto
  ultimately show ?thesis unfolding shutdown_race_def length_map by (simp only:)
qed

end
