(* ===== verification/Crud.thy ===== *)
theory Crud
  imports Pagination
begin

section \<open>Entities and their operations\<close>

text \<open>
  \<^verbatim>\<open>persistence/base.py\<close> and the first half of \<^verbatim>\<open>persistence/utilities.py\<close>: the conversions between entities and models,
  \<open>CRUDOperations\<close> and the asynchronous transformation of a page. The session of SQLAlchemy is a record of operations on the state of the
  database, with what is used of it as the laws of a locale.
\<close>

subsection \<open>Objects as dictionaries\<close>

text \<open>
  Values of Python: an object is an address, and its \<open>__dict__\<close> is in the heap. A dictionary has no \<open>__dict__\<close> and is passed through, like
  every plain value.
\<close>

datatype pv = PPlain string | PList "pv list" | PRef nat

type_synonym heap = "nat \<Rightarrow> (string \<times> pv) list"

datatype dv = DPlain string | DList "dv list" | DDict "(string \<times> dv) list"

fun collect_results :: "'a result list \<Rightarrow> 'a list result" where
  "collect_results [] = Inr []"
| "collect_results (Inl e # rs) = Inl e"
| "collect_results (Inr x # rs) = (case collect_results rs of Inl e \<Rightarrow> Inl e | Inr xs \<Rightarrow> Inr (x # xs))"

text \<open>An attribute name that starts with an underscore.\<close>

definition private_name :: "string \<Rightarrow> bool" where
  "private_name k = (case k of [] \<Rightarrow> False | c # cs \<Rightarrow> c = CHR ''_'')"

text \<open>The first argument is the number of calls Python allows.\<close>

fun recursive_get_dict :: "nat \<Rightarrow> heap \<Rightarrow> pv \<Rightarrow> dv result" where
  "recursive_get_dict 0 h v = Inl (Exc RecursionError ''maximum recursion depth exceeded'')"
| "recursive_get_dict (Suc n) h (PPlain x) = Inr (DPlain x)"
| "recursive_get_dict (Suc n) h (PList vs) =
     (case collect_results (map (recursive_get_dict n h) vs) of Inl e \<Rightarrow> Inl e | Inr ds \<Rightarrow> Inr (DList ds))"
| "recursive_get_dict (Suc n) h (PRef a) =
     (let attributes = filter (\<lambda>(k, v). \<not> private_name k) (h a)
      in case collect_results (map (recursive_get_dict n h \<circ> snd) attributes) of
           Inl e \<Rightarrow> Inl e
         | Inr ds \<Rightarrow> Inr (DDict (zip (map fst attributes) ds)))"

subsection \<open>Entities and models\<close>

text \<open>
  \<open>from_basemodel\<close>: \<open>annotations\<close> are the names annotated in the body of the entity class itself, \<open>model_fields\<close> the fields of the model with their values. The
  entity is given as the keyword arguments of its constructor.
\<close>

definition from_basemodel :: "string list \<Rightarrow> (string \<times> 'v) list \<Rightarrow> (string \<times> 'v) list" where
  "from_basemodel annotations model_fields = filter (\<lambda>(k, v). k \<in> set annotations) model_fields"

definition from_identifiable :: "'v \<Rightarrow> (string \<times> 'v) list \<Rightarrow> (string \<times> 'v) list" where
  "from_identifiable ident data = dict_update [(''id'', ident)] data"

text \<open>\<open>to_identifiable\<close> of an entity with plain attributes; \<open>validate\<close> is the validation of the data by the model class.\<close>

definition to_identifiable :: "((string \<times> 'v) list \<Rightarrow> 'm result) \<Rightarrow> (string \<times> 'v) list \<Rightarrow> ('v \<times> 'm) result" where
  "to_identifiable validate attributes =
     (case map_of attributes ''id'' of
        None \<Rightarrow> Inl (Exc AttributeError ''id'')
      | Some i \<Rightarrow>
          (case validate (filter (\<lambda>(k, v). \<not> private_name k) attributes) of
             Inl e \<Rightarrow> Inl e
           | Inr m \<Rightarrow> Inr (i, m)))"

subsection \<open>Operations\<close>

text \<open>The calls on the session; a row is the attributes of an entity.\<close>

record ('s, 'i, 'e) orm_session =
  orm_add :: "'e \<Rightarrow> 's \<Rightarrow> exc option \<times> 's"
  orm_flush :: "'s \<Rightarrow> exc option \<times> 's"
  orm_refresh :: "'e \<Rightarrow> 's \<Rightarrow> exc option \<times> 's"
  orm_get_one :: "'i \<Rightarrow> 's \<Rightarrow> 'e result"
  orm_select_in :: "'i set \<Rightarrow> 's \<Rightarrow> 'e list"              \<comment> \<open>\<open>select(entity).where(id in ids)\<close>\<close>
  orm_merge :: "'e \<Rightarrow> 's \<Rightarrow> exc option \<times> 's"
  orm_delete :: "'e \<Rightarrow> 's \<Rightarrow> exc option \<times> 's"
  orm_delete_where :: "'i \<Rightarrow> 's \<Rightarrow> exc option \<times> 's"
  orm_update_where :: "'i \<Rightarrow> (string \<times> pv) list \<Rightarrow> 's \<Rightarrow> exc option \<times> 's"
  orm_exists_in :: "'i set \<Rightarrow> 's \<Rightarrow> bool"
  orm_count_in :: "'i set \<Rightarrow> 's \<Rightarrow> nat"
  orm_ids_in :: "'i set \<Rightarrow> 's \<Rightarrow> 'i list"

definition create :: "('s, 'i, 'e) orm_session \<Rightarrow> 'e \<Rightarrow> 's \<Rightarrow> exc option \<times> 's" where
  "create S e s =
     (case orm_add S e s of (Some x, s1) \<Rightarrow> (Some x, s1) | (None, s1) \<Rightarrow>
      case orm_flush S s1 of (Some x, s2) \<Rightarrow> (Some x, s2) | (None, s2) \<Rightarrow> orm_refresh S e s2)"

definition get_entity :: "('s, 'i, 'e) orm_session \<Rightarrow> 'i \<Rightarrow> 's \<Rightarrow> 'e result" where
  "get_entity S i s = orm_get_one S i s"

definition get_many :: "('s, 'i, 'e) orm_session \<Rightarrow> 'i set \<Rightarrow> 's \<Rightarrow> 'e list" where
  "get_many S ids s = orm_select_in S ids s"

definition update_entity :: "('s, 'i, 'e) orm_session \<Rightarrow> 'e \<Rightarrow> 's \<Rightarrow> exc option \<times> 's" where
  "update_entity S e s = orm_merge S e s"

definition delete_entity :: "('s, 'i, 'e) orm_session \<Rightarrow> 'e \<Rightarrow> 's \<Rightarrow> exc option \<times> 's" where
  "delete_entity S e s = orm_delete S e s"

definition delete_by_id :: "('s, 'i, 'e) orm_session \<Rightarrow> 'i \<Rightarrow> 's \<Rightarrow> exc option \<times> 's" where
  "delete_by_id S i s = orm_delete_where S i s"

text \<open>\<open>update_by_id\<close> passes the whole \<open>__dict__\<close> of the entity, which SQLAlchemy gives an attribute of its own.\<close>

definition update_by_id :: "('s, 'i, 'e) orm_session \<Rightarrow> 'i \<Rightarrow> (string \<times> pv) list \<Rightarrow> 's \<Rightarrow> exc option \<times> 's" where
  "update_by_id S i entity_dict s = orm_update_where S i entity_dict s"

definition exists_id :: "('s, 'i, 'e) orm_session \<Rightarrow> 'i \<Rightarrow> 's \<Rightarrow> bool" where
  "exists_id S i s = orm_exists_in S {i} s"

definition exists_some :: "('s, 'i, 'e) orm_session \<Rightarrow> 'i set \<Rightarrow> 's \<Rightarrow> bool" where
  "exists_some S ids s = orm_exists_in S ids s"

definition exists_all :: "('s, 'i, 'e) orm_session \<Rightarrow> 'i set \<Rightarrow> 's \<Rightarrow> bool" where
  "exists_all S ids s = (card ids \<le> orm_count_in S ids s)"

definition intersects :: "('s, 'i, 'e) orm_session \<Rightarrow> 'i set \<Rightarrow> 's \<Rightarrow> 'i set" where
  "intersects S ids s = set (orm_ids_in S ids s)"

definition difference :: "('s, 'i, 'e) orm_session \<Rightarrow> 'i set \<Rightarrow> 's \<Rightarrow> 'i set" where
  "difference S ids s = ids - set (orm_ids_in S ids s)"

subsection \<open>The session's contract\<close>

text \<open>What the queries by id rely on: \<open>stored\<close> are the ids of the table, each once as it is the primary key.\<close>

locale identified_rows =
  fixes S :: "('s, 'i, 'e) orm_session" and stored :: "'s \<Rightarrow> 'i list"
  assumes primary_key: "distinct (stored s)"
    and exists_rows: "orm_exists_in S ids s = (\<exists>i \<in> set (stored s). i \<in> ids)"
    and count_rows: "orm_count_in S ids s = length (filter (\<lambda>i. i \<in> ids) (stored s))"
    and ids_rows: "set (orm_ids_in S ids s) = set (stored s) \<inter> ids"

context identified_rows
begin

lemma count_is_card: "orm_count_in S ids s = card (ids \<inter> set (stored s))"
proof -
  have "distinct (filter (\<lambda>i. i \<in> ids) (stored s))" using primary_key by simp
  moreover have "set (filter (\<lambda>i. i \<in> ids) (stored s)) = ids \<inter> set (stored s)" by auto
  ultimately show ?thesis using count_rows distinct_card by metis
qed

lemma exists_all_iff: "finite ids \<Longrightarrow> exists_all S ids s = (ids \<subseteq> set (stored s))"
  unfolding exists_all_def count_is_card
  by (metis Int_lower1 card_mono card_seteq inf.absorb_iff1 finite_Int le_iff_inf order_refl)

lemma exists_some_iff: "exists_some S ids s = (intersects S ids s \<noteq> {})"
  unfolding exists_some_def intersects_def exists_rows ids_rows by blast

lemma difference_is_rest: "difference S ids s = ids - set (stored s)" "intersects S ids s = ids \<inter> set (stored s)"
  unfolding difference_def intersects_def ids_rows by blast+

end

text \<open>A reference: the table as an association list, of which the first entry of an id counts.\<close>

definition list_orm :: "(('i \<times> (string \<times> pv) list) list, 'i, 'i \<times> (string \<times> pv) list) orm_session" where
  "list_orm = \<lparr>orm_add = (\<lambda>e s. (None, e # s)), orm_flush = (\<lambda>s. (None, s)), orm_refresh = (\<lambda>e s. (None, s)),
     orm_get_one = (\<lambda>i s. case map_of s i of Some r \<Rightarrow> Inr (i, r) | None \<Rightarrow> Inl (Exc OtherError ''NoResultFound'')),
     orm_select_in = (\<lambda>ids s. map (\<lambda>i. (i, the (map_of s i))) (filter (\<lambda>i. i \<in> ids) (remdups (map fst s)))),
     orm_merge = (\<lambda>e s. (None, e # s)), orm_delete = (\<lambda>e s. (None, filter (\<lambda>r. fst r \<noteq> fst e) s)),
     orm_delete_where = (\<lambda>i s. (None, filter (\<lambda>r. fst r \<noteq> i) s)),
     orm_update_where = (\<lambda>i vs s. if ''_sa_instance_state'' \<in> set (map fst vs) then (Some (Exc OtherError ''Unconsumed column names''), s)
        else (None, map (\<lambda>r. if fst r = i then (i, dict_update (snd r) vs) else r) s)),
     orm_exists_in = (\<lambda>ids s. \<exists>i \<in> set (remdups (map fst s)). i \<in> ids),
     orm_count_in = (\<lambda>ids s. length (filter (\<lambda>i. i \<in> ids) (remdups (map fst s)))),
     orm_ids_in = (\<lambda>ids s. filter (\<lambda>i. i \<in> ids) (remdups (map fst s)))\<rparr>"

interpretation list_orm: identified_rows list_orm "\<lambda>s. remdups (map fst s)"
  by unfold_locales (auto simp: list_orm_def)

subsection \<open>Lemmas\<close>

lemma collect_results_map [simp]: "collect_results (map Inr xs) = Inr xs"
  by (induction xs) simp_all

lemma collect_results_Inr: "collect_results rs = Inr xs \<longleftrightarrow> rs = map Inr xs"
proof (induction rs arbitrary: xs)
  case (Cons r rs)
  then show ?case by (cases r) (auto split: sum.split)
qed auto

lemma collect_results_Inl: "collect_results rs = Inl e \<Longrightarrow> Inl e \<in> set rs"
proof (induction rs)
  case (Cons r rs)
  then show ?case by (cases r) (auto split: sum.splits)
qed simp

lemma collect_results_fails: "Inl e \<in> set rs \<Longrightarrow> \<exists>e'. collect_results rs = Inl e'"
proof (induction rs)
  case (Cons r rs)
  then show ?case by (cases r) (auto split: sum.split)
qed simp

text \<open>No private name at any depth.\<close>

fun no_private :: "dv \<Rightarrow> bool" where
  "no_private (DPlain x) = True"
| "no_private (DList ds) = (\<forall>d \<in> set ds. no_private d)"
| "no_private (DDict kvs) = (\<forall>(k, d) \<in> set kvs. \<not> private_name k \<and> no_private d)"

text \<open>How deep a value is, given that of every object.\<close>

fun levels :: "(nat \<Rightarrow> nat) \<Rightarrow> pv \<Rightarrow> nat" where
  "levels need (PPlain x) = 1"
| "levels need (PList vs) = Suc (Max (insert 0 (levels need ` set vs)))"
| "levels need (PRef a) = Suc (need a)"

text \<open>The objects a value reaches through lists only.\<close>

fun refers :: "pv \<Rightarrow> nat set" where
  "refers (PPlain x) = {}"
| "refers (PList vs) = \<Union> (refers ` set vs)"
| "refers (PRef a) = {a}"

definition public_attributes :: "heap \<Rightarrow> nat \<Rightarrow> pv set" where
  "public_attributes h a = {v. \<exists>k. (k, v) \<in> set (h a) \<and> \<not> private_name k}"

lemma public_attributes_filter: "public_attributes h a = snd ` set (filter (\<lambda>(k, v). \<not> private_name k) (h a))"
  by (force simp: public_attributes_def)

lemma recursive_get_dict_error:
  "recursive_get_dict n h v = Inl e \<Longrightarrow> e = Exc RecursionError ''maximum recursion depth exceeded''"
proof (induction n h v rule: recursive_get_dict.induct)
  case (3 n h vs)
  then show ?case by (fastforce dest: collect_results_Inl split: sum.splits)
next
  case (4 n h a)
  then show ?case by (fastforce simp: Let_def dest: collect_results_Inl split: sum.splits)
qed simp_all

lemma recursive_get_dict_clean: "recursive_get_dict n h v = Inr d \<Longrightarrow> no_private d"
proof (induction n h v arbitrary: d rule: recursive_get_dict.induct)
  case (3 n h vs)
  then obtain ds where d: "d = DList ds" and ds: "map (recursive_get_dict n h) vs = map Inr ds"
    by (auto simp: collect_results_Inr split: sum.splits)
  have "no_private x" if "x \<in> set ds" for x
  proof -
    have "Inr x \<in> set (map (recursive_get_dict n h) vs)" unfolding ds using that by simp
    then show ?thesis using "3.IH" by auto
  qed
  then show ?case by (simp add: d)
next
  case (4 n h a)
  then obtain ds where d: "d = DDict (zip (map fst (filter (\<lambda>(k, v). \<not> private_name k) (h a))) ds)"
    and ds: "map (recursive_get_dict n h \<circ> snd) (filter (\<lambda>(k, v). \<not> private_name k) (h a)) = map Inr ds"
    by (auto simp: Let_def collect_results_Inr split: sum.splits)
  have "\<not> private_name (fst p) \<and> no_private (snd p)" if "p \<in> set (zip (map fst (filter (\<lambda>(k, v). \<not> private_name k) (h a))) ds)" for p
  proof
    from that have k: "fst p \<in> fst ` set (filter (\<lambda>(k, v). \<not> private_name k) (h a))" and x: "snd p \<in> set ds"
      using set_zip_leftD [of "fst p" "snd p"] set_zip_rightD [of "fst p" "snd p"] by (metis prod.collapse list.set_map)+
    from k show "\<not> private_name (fst p)" by auto
    from x have "Inr (snd p) \<in> set (map (recursive_get_dict n h \<circ> snd) (filter (\<lambda>(k, v). \<not> private_name k) (h a)))"
      unfolding ds by simp
    then obtain y where "y \<in> set (filter (\<lambda>(k, v). \<not> private_name k) (h a))" "recursive_get_dict n h (snd y) = Inr (snd p)" by auto
    then show "no_private (snd p)" using "4.IH" [OF refl, of y "snd p"] by simp
  qed
  then show ?case unfolding d no_private.simps case_prod_beta by blast
qed simp_all

lemma collect_results_all: "(\<And>r. r \<in> set rs \<Longrightarrow> \<exists>x. r = Inr x) \<Longrightarrow> \<exists>xs. collect_results rs = Inr xs"
proof (induction rs)
  case (Cons r rs)
  obtain x where "r = Inr x" using Cons.prems by auto
  then show ?case using Cons.IH Cons.prems by (auto split: sum.split)
qed simp

lemma recursive_get_dict_enough:
  assumes "\<And>a v. v \<in> public_attributes h a \<Longrightarrow> levels need v \<le> need a"
  shows "levels need v \<le> n \<Longrightarrow> \<exists>d. recursive_get_dict n h v = Inr d"
  using assms
proof (induction n h v rule: recursive_get_dict.induct)
  case (1 h v)
  then show ?case by (cases v) auto
next
  case (3 n h vs)
  have "\<exists>ds. collect_results (map (recursive_get_dict n h) vs) = Inr ds"
  proof (rule collect_results_all)
    fix r assume "r \<in> set (map (recursive_get_dict n h) vs)"
    then obtain x where x: "x \<in> set vs" "r = recursive_get_dict n h x" by auto
    have "levels need x \<le> Max (insert 0 (levels need ` set vs))" using x by (intro Max_ge) auto
    then show "\<exists>y. r = Inr y" using "3.IH" [OF x(1)] "3.prems" x by simp
  qed
  then show ?case by auto
next
  case (4 n h a)
  have "\<exists>ds. collect_results (map (recursive_get_dict n h \<circ> snd) (filter (\<lambda>(k, v). \<not> private_name k) (h a))) = Inr ds"
  proof (rule collect_results_all)
    fix r assume "r \<in> set (map (recursive_get_dict n h \<circ> snd) (filter (\<lambda>(k, v). \<not> private_name k) (h a)))"
    then obtain y where y: "y \<in> set (filter (\<lambda>(k, v). \<not> private_name k) (h a))" "r = recursive_get_dict n h (snd y)" by auto
    then have "snd y \<in> public_attributes h a" unfolding public_attributes_filter by blast
    then have "levels need (snd y) \<le> n" using "4.prems"(2) "4.prems"(1) by fastforce
    then show "\<exists>x. r = Inr x" using "4.IH" [OF refl y(1)] "4.prems"(2) y(2) by simp
  qed
  then show ?case by (auto simp: Let_def)
qed simp

lemma recursive_get_dict_cycle:
  assumes "\<And>a. a \<in> C \<Longrightarrow> \<exists>v \<in> public_attributes h a. refers v \<inter> C \<noteq> {}"
  shows "refers v \<inter> C \<noteq> {} \<Longrightarrow> \<exists>e. recursive_get_dict n h v = Inl e"
  using assms
proof (induction n h v rule: recursive_get_dict.induct)
  case (3 n h vs)
  then obtain x where x: "x \<in> set vs" "refers x \<inter> C \<noteq> {}" by auto
  then obtain e where "recursive_get_dict n h x = Inl e" using "3.IH" [OF x(1,2)] "3.prems"(2) by auto
  then have "Inl e \<in> set (map (recursive_get_dict n h) vs)" using x(1) by force
  then show ?case using collect_results_fails by fastforce
next
  case (4 n h a)
  then have "a \<in> C" by simp
  then obtain v where v: "v \<in> public_attributes h a" "refers v \<inter> C \<noteq> {}" using "4.prems"(2) by blast
  then obtain k where k: "(k, v) \<in> set (filter (\<lambda>(k, v). \<not> private_name k) (h a))" by (auto simp: public_attributes_def)
  obtain e where "recursive_get_dict n h v = Inl e" using "4.IH" [OF refl k] v(2) "4.prems"(2) by auto
  then have "Inl e \<in> set (map (recursive_get_dict n h \<circ> snd) (filter (\<lambda>(k, v). \<not> private_name k) (h a)))"
    using k by force
  then show ?case using collect_results_fails by (fastforce simp: Let_def)
qed simp_all

subsection \<open>Properties\<close>

text \<open>
  The four set queries agree: \<open>intersects\<close> and \<open>difference\<close> split the given ids into those that are stored and those that are not, \<open>exists_all\<close> holds
  exactly when nothing is missing although it only counts rows, and \<open>exists_some\<close> exactly when something is found.
\<close>

theorem id_queries_agree:
  assumes "identified_rows S stored" "finite ids"
  shows "intersects S ids s = ids \<inter> set (stored s) \<and> difference S ids s = ids - set (stored s)
    \<and> exists_all S ids s = (difference S ids s = {})
    \<and> exists_some S ids s = (intersects S ids s \<noteq> {})
    \<and> exists_id S i s = (i \<in> set (stored s))"
  using identified_rows.exists_all_iff [OF assms] identified_rows.exists_some_iff [OF assms(1)]
    identified_rows.difference_is_rest [OF assms(1)] identified_rows.exists_rows [OF assms(1), of "{i}" s]
  by (auto simp: exists_id_def)

theorem id_queries_agree_witness:
  "exists_all list_orm {1 :: nat, 2} [(1, []), (3, []), (1, [])] = False
   \<and> difference list_orm {1 :: nat, 2} [(1, []), (3, []), (1, [])] = {2}"
  using id_queries_agree [OF list_orm.identified_rows_axioms, of "{1 :: nat, 2}" "[(1, []), (3, []), (1, [])]" 1] by auto

text \<open>
  Turning an entity into a dictionary: when the loaded objects form no cycle, with a bound \<open>need\<close> on the depth below each, it succeeds and no private
  attribute is left at any depth; when some of them refer to each other in a cycle through public attributes, every recursion limit is exceeded.
\<close>

theorem entity_dict_iff_no_cycle:
  "((\<forall>b. \<forall>v \<in> public_attributes h b. levels need v \<le> need b) \<and> need a < n \<longrightarrow>
      (\<exists>d. recursive_get_dict n h (PRef a) = Inr d \<and> no_private d))
   \<and> (a \<in> C \<and> (\<forall>b \<in> C. \<exists>v \<in> public_attributes h b. refers v \<inter> C \<noteq> {}) \<longrightarrow>
      recursive_get_dict n h (PRef a) = Inl (Exc RecursionError ''maximum recursion depth exceeded''))"
proof (intro conjI impI)
  assume a: "(\<forall>b. \<forall>v \<in> public_attributes h b. levels need v \<le> need b) \<and> need a < n"
  then have "\<exists>d. recursive_get_dict n h (PRef a) = Inr d" using recursive_get_dict_enough [of h need "PRef a" n] by auto
  then show "\<exists>d. recursive_get_dict n h (PRef a) = Inr d \<and> no_private d" using recursive_get_dict_clean by blast
next
  assume a: "a \<in> C \<and> (\<forall>b \<in> C. \<exists>v \<in> public_attributes h b. refers v \<inter> C \<noteq> {})"
  then have "\<exists>e. recursive_get_dict n h (PRef a) = Inl e" using recursive_get_dict_cycle [of C h "PRef a" n] by auto
  then show "recursive_get_dict n h (PRef a) = Inl (Exc RecursionError ''maximum recursion depth exceeded'')"
    using recursive_get_dict_error by blast
qed

text \<open>An order with its lines, where each line refers back to the order, and without the back reference.\<close>

definition order_heap :: "bool \<Rightarrow> heap" where
  "order_heap back a =
     (if a = 0 then [(''_sa_instance_state'', PPlain ''state''), (''lines'', PList [PRef 1])]
      else if back then [(''order'', PRef 0)] else [(''sku'', PPlain ''A'')])"

theorem entity_dict_iff_no_cycle_witness:
  "(\<exists>d. recursive_get_dict 5 (order_heap False) (PRef 0) = Inr d \<and> no_private d)
   \<and> recursive_get_dict 1000 (order_heap True) (PRef 0) = Inl (Exc RecursionError ''maximum recursion depth exceeded'')"
proof
  have "levels (\<lambda>a. if a = 0 then 3 else 1) v \<le> (if a = 0 then 3 else 1)" if "v \<in> public_attributes (order_heap False) a" for a v
    using that by (auto simp: public_attributes_def order_heap_def private_name_def split: if_splits)
  then show "\<exists>d. recursive_get_dict 5 (order_heap False) (PRef 0) = Inr d \<and> no_private d"
    using entity_dict_iff_no_cycle [of "order_heap False" "\<lambda>a. if a = 0 then 3 else 1" 0 5 "{}"] by auto
  have "PList [PRef 1] \<in> public_attributes (order_heap True) 0" "PRef 0 \<in> public_attributes (order_heap True) 1"
    by (auto simp: public_attributes_def order_heap_def private_name_def)
  then have "\<forall>a \<in> {0, 1}. \<exists>v \<in> public_attributes (order_heap True) a. refers v \<inter> {0, 1} \<noteq> {}" by force
  then show "recursive_get_dict 1000 (order_heap True) (PRef 0) = Inl (Exc RecursionError ''maximum recursion depth exceeded'')"
    using entity_dict_iff_no_cycle [of "order_heap True" "\<lambda>a. 0" 0 1000 "{0, 1}"] by simp
qed

text \<open>
  An identifiable model comes back from its entity, given that validation looks at the fields of the model only: with its own id, unless its data has a
  field \<open>id\<close>, which then replaces the id.
\<close>

theorem identifiable_roundtrip:
  assumes "distinct (map fst data)" "\<forall>k \<in> fst ` set data. \<not> private_name k"
    and "\<forall>attributes. (\<forall>k v. map_of data k = Some v \<longrightarrow> map_of attributes k = Some v) \<longrightarrow> validate attributes = Inr m"
  shows "to_identifiable validate (from_identifiable ident data) =
    Inr (case map_of data ''id'' of None \<Rightarrow> ident | Some other \<Rightarrow> other, m)"
proof -
  have m: "map_of (from_identifiable ident data) = map_of [(''id'', ident)] ++ map_of data"
    using assms(1) by (simp add: from_identifiable_def map_of_dict_update)
  have f: "map_of (filter (\<lambda>(k, v). \<not> private_name k) xs) k = map_of xs k" if "\<not> private_name k" for k and xs :: "(string \<times> 'a) list"
    using that by (induction xs) auto
  have "validate (filter (\<lambda>(k, v). \<not> private_name k) (from_identifiable ident data)) = Inr m"
  proof -
    have "map_of (filter (\<lambda>(k, v). \<not> private_name k) (from_identifiable ident data)) k = Some v" if "map_of data k = Some v" for k v
    proof -
      have "k \<in> fst ` set data" using that by (metis domI dom_map_of_conv_image_fst)
      then show ?thesis using f [of k] assms(2) m that by simp
    qed
    then show ?thesis using assms(3) by blast
  qed
  then show ?thesis using m by (simp add: to_identifiable_def map_add_def split: option.split)
qed

theorem identifiable_roundtrip_witness:
  "to_identifiable (\<lambda>attributes. if map_of attributes ''name'' = Some ''Ann'' then Inr True else Inl (Exc ValidationError ''no name''))
     (from_identifiable ''7'' [(''name'', ''Ann'')]) = Inr (''7'', True)"
  using identifiable_roundtrip [of "[(''name'', ''Ann'')]" "\<lambda>attributes. if map_of attributes ''name'' = Some ''Ann'' then Inr True else Inl (Exc ValidationError ''no name'')" True "''7''"]
  by (simp add: private_name_def)

text \<open>An update by id cannot succeed: the attributes it passes include one that is no column.\<close>

lemma update_by_id_refused:
  assumes "\<And>i vs s. \<not> set (map fst vs) \<subseteq> columns \<Longrightarrow> fst (orm_update_where S i vs s) \<noteq> None"
    and "''_sa_instance_state'' \<in> set (map fst entity_dict)" "''_sa_instance_state'' \<notin> columns"
  shows "fst (update_by_id S i entity_dict s) \<noteq> None"
  using assms unfolding update_by_id_def by blast

end
