(* ===== verification/Commands.thy ===== *)
theory Commands
  imports Dlq Worker_Consumer Py_Text Beat
begin

section \<open>The commands of the command line\<close>

text \<open>
  \<^verbatim>\<open>cli.py\<close>: the arguments of \<open>worker\<close> and \<open>beat\<close>, the watcher that restarts a process when a file changes, the generation of TypeScript
  interfaces into a file, and the decisions of the \<open>dlq\<close> commands around the operations of \<^verbatim>\<open>Dlq\<close>. What a command prints is
  its result.
\<close>

subsection \<open>Lists of names\<close>

text \<open>\<open>{name.strip() for name in text.split(",") if name.strip()}\<close>, where the text is given and not empty.\<close>

definition parse_names :: "string option \<Rightarrow> string list option" where
  "parse_names given =
     (case given of
        None \<Rightarrow> None
      | Some s \<Rightarrow> if s = [] then None else Some (filter (\<lambda>n. n \<noteq> []) (map py_strip (py_split (CHR '','') s))))"

text \<open>The handlers a worker started with these options consumes.\<close>

definition run_worker_process :: "string option \<Rightarrow> string option \<Rightarrow> handler_entry list list \<Rightarrow> handler_entry list" where
  "run_worker_process handlers groups controllers = start_handlers (parse_names handlers) (parse_names groups) controllers"

definition run_beat_process :: "string option \<Rightarrow> action list list \<Rightarrow> action list" where
  "run_beat_process actions controllers = extract_scheduled_actions (parse_names actions) controllers"

subsection \<open>Finding the application\<close>

datatype app_item = MicroserviceItem string | HttpMicroserviceItem string | OtherItem string

text \<open>\<open>import_module\<close> gives the attributes of a module; \<open>missing\<close> tells an \<^verbatim>\<open>ImportError\<close> that names the module itself.\<close>

definition find_item_by_module_path ::
  "(string \<Rightarrow> (string \<rightharpoonup> app_item) result) \<Rightarrow> (exc \<Rightarrow> string \<Rightarrow> bool) \<Rightarrow> string \<Rightarrow> app_item result" where
  "find_item_by_module_path import_module missing module_path =
     (let parts = py_split (CHR '':'') module_path; module_name = py_join '':'' (butlast parts)
      in if CHR '':'' \<notin> set module_path then Inl (Exc ValueError ''is not a valid module path'')
         else case import_module module_name of
                Inl e \<Rightarrow> Inl (if missing e module_name then Exc OtherError ''Module not found'' else e)
              | Inr attributes \<Rightarrow>
                  (case attributes (last parts) of
                     None \<Rightarrow> Inl (Exc ValueError ''module has no attribute'')
                   | Some item \<Rightarrow> Inr item))"

definition find_microservice_by_module_path ::
  "(string \<Rightarrow> (string \<rightharpoonup> app_item) result) \<Rightarrow> (exc \<Rightarrow> string \<Rightarrow> bool) \<Rightarrow> string \<Rightarrow> string result" where
  "find_microservice_by_module_path import_module missing module_path =
     (case find_item_by_module_path import_module missing module_path of
        Inl e \<Rightarrow> Inl e
      | Inr (MicroserviceItem a) \<Rightarrow> Inr a
      | Inr item \<Rightarrow> Inl (Exc ValueError ''must be an instance of Microservice''))"

text \<open>The application given to \<open>server\<close>, of either kind.\<close>

definition server_app :: "(string \<Rightarrow> (string \<rightharpoonup> app_item) result) \<Rightarrow> (exc \<Rightarrow> string \<Rightarrow> bool) \<Rightarrow> string \<Rightarrow> string result" where
  "server_app import_module missing app_path =
     (case find_item_by_module_path import_module missing app_path of
        Inl e \<Rightarrow> Inl e
      | Inr (MicroserviceItem a) \<Rightarrow> Inr a
      | Inr (HttpMicroserviceItem a) \<Rightarrow> Inr a
      | Inr (OtherItem a) \<Rightarrow> Inl (Exc ValueError ''must be an instance of Microservice or HttpMicroservice''))"

text \<open>\<open>declare\<close>: without a broker URL nothing is declared and the command ends normally.\<close>

definition declare_command ::
  "string result \<Rightarrow> string \<Rightarrow> string \<Rightarrow> bool \<Rightarrow> bool \<Rightarrow> (nat \<Rightarrow> bool) \<Rightarrow> (string \<Rightarrow> member list) \<Rightarrow> amqp \<Rightarrow> exc option \<times> amqp" where
  "declare_command app broker_url exchange force interactive_mode confirm members_of s =
     (case app of
        Inl e \<Rightarrow> (Some e, s)
      | Inr a \<Rightarrow> if broker_url = [] then (None, s)
          else declare_worker_infrastructure exchange force interactive_mode confirm (members_of a) s)"

subsection \<open>The reload watcher\<close>

text \<open>
  Processes are numbered in the order they are started; \<open>process\<close> is the variable of \<open>run_with_reload_watcher\<close> and \<open>active_process\<close> the attribute of
  the handler.
\<close>

record watcher =
  process :: nat
  active_process :: nat
  alive :: "nat list"
  started :: nat
  last_modified_time :: rat
  restart_times :: "rat list"
  killed :: "nat list"
  watch_stopped :: bool

definition run_with_reload_watcher :: "rat \<Rightarrow> watcher" where
  "run_with_reload_watcher now =
     \<lparr>process = 0, active_process = 0, alive = [0], started = 1, last_modified_time = now, restart_times = [], killed = [],
      watch_stopped = False\<rparr>"

text \<open>Terminating a process, and killing it when it has not ended in time.\<close>

definition stop_process :: "nat \<Rightarrow> bool \<Rightarrow> watcher \<Rightarrow> watcher" where
  "stop_process p ends_in_time w =
     (if p \<in> set (alive w)
      then w\<lparr>alive := removeAll p (alive w), killed := (if ends_in_time then killed w else killed w @ [p])\<rparr>
      else w)"

definition start_process :: "watcher \<Rightarrow> watcher" where
  "start_process w = w\<lparr>active_process := started w, alive := alive w @ [started w], started := Suc (started w)\<rparr>"

definition debounce_seconds :: rat where
  "debounce_seconds = 1"

definition on_modified :: "string \<Rightarrow> bool \<Rightarrow> rat \<Rightarrow> bool \<Rightarrow> watcher \<Rightarrow> watcher" where
  "on_modified src_path is_directory current_time ends_in_time w =
     (if is_directory \<or> \<not> py_endswith src_path ''.py'' then w
      else if current_time - last_modified_time w < debounce_seconds then w
      else start_process (stop_process (active_process w) ends_in_time
             (w\<lparr>last_modified_time := current_time, restart_times := restart_times w @ [current_time]\<rparr>)))"

definition keyboard_interrupt :: "bool \<Rightarrow> watcher \<Rightarrow> watcher" where
  "keyboard_interrupt ends_in_time w = (stop_process (process w) ends_in_time w)\<lparr>watch_stopped := True\<rparr>"

datatype watch_event = Modified string bool rat bool | ProcessEnds nat | Interrupt bool

definition watch_step :: "watch_event \<Rightarrow> watcher \<Rightarrow> watcher" where
  "watch_step e w =
     (case e of
        ProcessEnds p \<Rightarrow> w\<lparr>alive := removeAll p (alive w)\<rparr>
      | Modified src_path is_directory now ends_in_time \<Rightarrow>
          if watch_stopped w then w else on_modified src_path is_directory now ends_in_time w
      | Interrupt ends_in_time \<Rightarrow> if watch_stopped w then w else keyboard_interrupt ends_in_time w)"

text \<open>The commands \<open>worker\<close> and \<open>beat\<close>: a watched process, or the process itself.\<close>

datatype 'a started_as = Watched watcher | Direct "'a result"

definition worker_command :: "rat \<Rightarrow> bool \<Rightarrow> string result \<Rightarrow> string option \<Rightarrow> string option \<Rightarrow> (string \<Rightarrow> handler_entry list list) \<Rightarrow> handler_entry list started_as" where
  "worker_command now reload app handlers groups controllers_of =
     (if reload then Watched (run_with_reload_watcher now)
      else Direct (case app of Inl e \<Rightarrow> Inl e | Inr a \<Rightarrow> Inr (run_worker_process handlers groups (controllers_of a))))"

definition beat_command :: "rat \<Rightarrow> bool \<Rightarrow> string result \<Rightarrow> string option \<Rightarrow> (string \<Rightarrow> action list list) \<Rightarrow> action list started_as" where
  "beat_command now reload app actions controllers_of =
     (if reload then Watched (run_with_reload_watcher now)
      else Direct (case app of Inl e \<Rightarrow> Inl e | Inr a \<Rightarrow> Inr (run_beat_process actions (controllers_of a))))"

subsection \<open>Generating interfaces\<close>

record ts_run =
  content_result :: "string result"        \<comment> \<open>finding the application and writing its interfaces as text\<close>
  open_result :: "exc option"              \<comment> \<open>opening the file\<close>
  post_result :: "exc option"              \<comment> \<open>the command after it; \<open>CalledProcessError\<close> is \<open>OtherError\<close> here\<close>

definition generate_interfaces ::
  "ts_run \<Rightarrow> string option \<Rightarrow> bool \<Rightarrow> string option \<Rightarrow> (string \<rightharpoonup> string) \<Rightarrow> string result \<times> (string \<rightharpoonup> string)" where
  "generate_interfaces run file_path stdout post_process_cmd fs =
     (let caught = (\<lambda>e fs. (if is_Exception e then Inr [] else Inl e, fs))
      in case content_result run of
           Inl e \<Rightarrow> caught e fs
         | Inr content \<Rightarrow>
             if stdout then (Inr content, fs)
             else case file_path of
                    None \<Rightarrow> (Inr content, fs)
                  | Some path \<Rightarrow>
                      if path = [] then (Inr content, fs)
                      else (case open_result run of
                              Some e \<Rightarrow> caught e fs
                            | None \<Rightarrow>
                                let fs1 = fs(path \<mapsto> content)
                                in if str_or post_process_cmd [] = [] then (Inr content, fs1)
                                   else (case post_result run of
                                           None \<Rightarrow> (Inr content, fs1)
                                         | Some e \<Rightarrow> if exc_cls e = OtherError then (Inr content, fs1) else caught e fs1)))"

datatype tsi_end = Refused string | Echoed string | Generated | Watching

definition gen_tsi ::
  "ts_run \<Rightarrow> string option \<Rightarrow> bool \<Rightarrow> bool \<Rightarrow> string option \<Rightarrow> (string \<rightharpoonup> string) \<Rightarrow> tsi_end result \<times> (string \<rightharpoonup> string)" where
  "gen_tsi run file_path watch stdout post_process fs =
     (if stdout \<and> watch then (Inr (Refused ''--watch and --stdout options cannot be used together''), fs)
      else if str_or file_path [] = [] \<and> \<not> stdout then (Inr (Refused ''either file_path or --stdout must be provided''), fs)
      else if str_or post_process [] \<noteq> [] \<and> stdout then (Inr (Refused ''--post-process and --stdout options cannot be used together''), fs)
      else case generate_interfaces run file_path stdout post_process fs of
             (Inl e, fs1) \<Rightarrow> (Inl e, fs1)
           | (Inr content, fs1) \<Rightarrow> (Inr (if stdout then Echoed content else if watch then Watching else Generated), fs1))"

text \<open>
  The watch mode: \<open>on_modified\<close> starts a process for a changed Python file, and nobody waits for it. Run \<open>i\<close> belongs to the change that started it;
  \<open>order\<close> is the order in which the processes write.
\<close>

record file_event =
  fe_directory :: bool
  fe_path :: string

definition tsi_on_modified :: "file_event \<Rightarrow> bool" where
  "tsi_on_modified e = (\<not> fe_directory e \<and> py_endswith (fe_path e) ''.py'')"

definition watched_changes :: "file_event list \<Rightarrow> file_event list" where
  "watched_changes es = filter tsi_on_modified es"

definition watch_generate ::
  "(file_event \<Rightarrow> ts_run) \<Rightarrow> file_event list \<Rightarrow> nat list \<Rightarrow> string \<Rightarrow> string option \<Rightarrow> (string \<rightharpoonup> string) \<Rightarrow> (string \<rightharpoonup> string)" where
  "watch_generate runs es order file_path post_process fs =
     fold (\<lambda>i fs. snd (generate_interfaces (runs (watched_changes es ! i)) (Some file_path) False post_process fs)) order fs"

subsection \<open>The dead letter queue\<close>

datatype dlq_end =
    NoExchange | NotAccessible | NoMessages | NoMatch | Cancelled | Purged nat
  | Statistics nat "(string \<times> queue_stats) list"
  | Listing "DLQMessage list"
  | Requeued "(string \<times> raw_message) list" nat

definition dlq_stats_command :: "'q dlq_ops \<Rightarrow> (string \<Rightarrow> int) \<Rightarrow> nat \<Rightarrow> bool \<Rightarrow> 'q \<Rightarrow> dlq_end option" where
  "dlq_stats_command Q to_int fuel accessible q =
     (if \<not> accessible then Some NotAccessible
      else if q_len Q q = 0 then Some NoMessages
      else map_option (Statistics (q_len Q q)) (get_dlq_stats_by_queue Q to_int fuel q))"

definition filter_by_queue :: "string option \<Rightarrow> (DLQMessage \<times> raw_message) list \<Rightarrow> (DLQMessage \<times> raw_message) list" where
  "filter_by_queue queue_filter ms =
     (if str_or queue_filter [] = [] then ms
      else filter (\<lambda>(m, r). substring (py_lower (str_or queue_filter [])) (py_lower (dm_original_queue m))) ms)"

definition dlq_list_command :: "'q dlq_ops \<Rightarrow> (string \<Rightarrow> int) \<Rightarrow> nat \<Rightarrow> nat \<Rightarrow> string option \<Rightarrow> 'q \<Rightarrow> dlq_end option" where
  "dlq_list_command Q to_int fuel limit queue_filter q =
     map_option (\<lambda>(ms, q1). if ms = [] then NoMessages
        else if filter_by_queue queue_filter ms = [] then NoMatch
        else Listing (map fst (filter_by_queue queue_filter ms)))
       (fetch_dlq_messages Q to_int (Some limit) False fuel 0 q)"

text \<open>\<open>purge\<close>: the number of messages the broker has deleted, and the queue after it.\<close>

definition dlq_purge_command :: "'q dlq_ops \<Rightarrow> ('q \<Rightarrow> nat \<times> 'q) \<Rightarrow> bool \<Rightarrow> bool \<Rightarrow> bool \<Rightarrow> 'q \<Rightarrow> dlq_end \<times> 'q" where
  "dlq_purge_command Q purge accessible force confirmed q =
     (if \<not> accessible then (NotAccessible, q)
      else if q_len Q q = 0 then (NoMessages, q)
      else if \<not> force \<and> \<not> confirmed then (Cancelled, q)
      else (case purge q of (n, q1) \<Rightarrow> (Purged n, q1)))"

definition dlq_requeue_command ::
  "'q dlq_ops \<Rightarrow> (string \<Rightarrow> int) \<Rightarrow> nat \<Rightarrow> bool \<Rightarrow> bool \<Rightarrow> string option \<Rightarrow> nat option \<Rightarrow> bool \<Rightarrow> bool \<Rightarrow> (nat \<Rightarrow> bool) \<Rightarrow> 'q \<Rightarrow>
   (dlq_end \<times> 'q) option" where
  "dlq_requeue_command Q to_int fuel exchange_given accessible queue_filter limit force confirmed accept q =
     (if \<not> exchange_given then Some (NoExchange, q)
      else if \<not> accessible then Some (NotAccessible, q)
      else if q_len Q q = 0 then Some (NoMessages, q)
      else case fetch_dlq_messages Q to_int limit False fuel 0 q of
             None \<Rightarrow> None
           | Some (preview, q1) \<Rightarrow>
               if filter_by_queue queue_filter preview = [] then Some (NoMatch, q1)
               else if \<not> force \<and> \<not> confirmed then Some (Cancelled, q1)
               else map_option (\<lambda>(ps, errors, q2). (Requeued ps errors, q2)) (requeue_loop Q queue_filter limit accept fuel 0 q1))"

subsection \<open>Properties\<close>

text \<open>
  A list of names comes back from its text, when no name is empty, holds a comma or has blanks around it; and whatever the text, the names are without blanks around
  them and not empty.
\<close>

lemma py_strip_idem: "py_strip (py_strip s) = py_strip s"
proof -
  define b where "b = dropWhile is_space s"
  define c where "c = dropWhile is_space (rev b)"
  have c: "c = [] \<or> \<not> is_space (hd c)" unfolding c_def using hd_dropWhile by blast
  have "dropWhile is_space (rev c) = rev c"
  proof (cases c)
    case (Cons x xs)
    obtain pre where pre: "rev b = pre @ c" unfolding c_def by (metis takeWhile_dropWhile_id)
    then have "b = rev c @ rev pre" by (metis rev_append rev_rev_ident)
    moreover have "b = [] \<or> \<not> is_space (hd b)" unfolding b_def using hd_dropWhile by blast
    ultimately have "\<not> is_space (hd (rev c))" using Cons by (auto simp: hd_append)
    then show ?thesis by (cases "rev c") auto
  qed simp
  moreover have "dropWhile is_space c = c" using c by (cases c) auto
  ultimately show ?thesis by (simp add: py_strip_def b_def [symmetric] c_def [symmetric])
qed

theorem name_list_roundtrip:
  assumes "names \<noteq> []" "\<forall>n \<in> set names. n \<noteq> [] \<and> CHR '','' \<notin> set n \<and> py_strip n = n"
  shows "parse_names (Some (py_join '','' names)) = Some names"
proof -
  have "py_split (CHR '','') (py_join '','' names) = names" using assms by (intro py_split_join) auto
  moreover have "map py_strip names = names" using assms(2) by (simp add: map_idI)
  moreover have "py_join '','' names \<noteq> []"
    using assms by (cases names; cases "tl names") auto
  moreover have "filter (\<lambda>n. n \<noteq> []) names = names" using assms(2) by (simp add: filter_id_conv)
  ultimately show ?thesis by (simp add: parse_names_def)
qed

theorem name_list_roundtrip_witness: "parse_names (Some ''orders,users'') = Some [''orders'', ''users'']"
  using name_list_roundtrip [of "[''orders'', ''users'']"] by (simp add: py_strip_def is_space_def)

text \<open>The attribute is what follows the last colon.\<close>

lemma module_path_found:
  assumes "CHR '':'' \<notin> set a"
  shows "find_item_by_module_path import_module missing (m @ '':'' @ a) =
    (case import_module m of
       Inl e \<Rightarrow> Inl (if missing e m then Exc OtherError ''Module not found'' else e)
     | Inr attributes \<Rightarrow> (case attributes a of None \<Rightarrow> Inl (Exc ValueError ''module has no attribute'') | Some item \<Rightarrow> Inr item))"
proof -
  have "\<exists>ws. py_split (CHR '':'') (m @ '':'' @ a) = ws @ [a] \<and> ws \<noteq> [] \<and> py_join '':'' ws = m"
  proof (induction m)
    case Nil
    then show ?case using assms by (auto simp: py_split_no_sep intro: exI [of _ "[[]]"])
  next
    case (Cons c m)
    then obtain ws where ws: "py_split (CHR '':'') (m @ '':'' @ a) = ws @ [a]" "ws \<noteq> []" "py_join '':'' ws = m" by blast
    obtain w rest where w: "ws = w # rest" using ws(2) by (cases ws) auto
    show ?case
    proof (cases "c = CHR '':''")
      case True
      then show ?thesis using ws w by (intro exI [of _ "[] # ws"]) simp
    next
      case False
      then show ?thesis using ws w by (intro exI [of _ "(c # w) # rest"]) (cases rest, auto)
    qed
  qed
  then obtain ws where "py_split (CHR '':'') (m @ '':'' @ a) = ws @ [a]" "py_join '':'' ws = m" by blast
  then show ?thesis by (simp add: find_item_by_module_path_def Let_def split: sum.split)
qed

lemma parsed_names_are_stripped: "parse_names given = Some names \<Longrightarrow> n \<in> set names \<Longrightarrow> n \<noteq> [] \<and> py_strip n = n"
  by (auto simp: parse_names_def py_strip_idem split: option.splits if_splits)

text \<open>A text of commas and blanks only is an empty list of names, not the absence of a filter: no handler is consumed.\<close>

lemma blank_names_select_nothing:
  assumes "parse_names (Some s) = Some []"
  shows "run_worker_process (Some s) groups controllers = []"
proof -
  have "select_handlers (Some []) g topics hs = []" for g topics hs
    by (induction "Some [] :: string list option" g topics hs rule: select_handlers.induct) (auto simp: passes_filters_def split: option.splits)
  then show ?thesis by (simp add: run_worker_process_def start_handlers_def assms)
qed

subsubsection \<open>The watcher\<close>

definition watch_ok :: "rat \<Rightarrow> watcher \<Rightarrow> bool" where
  "watch_ok now w =
     ((alive w = [] \<or> alive w = [active_process w]) \<and> active_process w < started w \<and> process w = 0
      \<and> (active_process w = 0 \<longleftrightarrow> restart_times w = [])
      \<and> last_modified_time w = last (now # restart_times w)
      \<and> sorted_wrt (\<lambda>a b. a + debounce_seconds \<le> b) (now # restart_times w))"

lemma watch_ok_start: "watch_ok now (run_with_reload_watcher now)"
  by (simp add: watch_ok_def run_with_reload_watcher_def)

lemma sorted_gap_last:
  "sorted_wrt (\<lambda>a b. a + debounce_seconds \<le> b) (x # xs) \<Longrightarrow> y \<in> set (x # xs) \<Longrightarrow> y \<le> last (x # xs)"
proof (induction xs arbitrary: x y)
  case (Cons z zs)
  have ih: "v \<le> last (z # zs)" if "v \<in> set (z # zs)" for v using Cons.IH [of z v] Cons.prems(1) that by simp
  have "x + debounce_seconds \<le> z" using Cons.prems(1) by simp
  then have "x \<le> last (z # zs)" using ih [of z] by (simp add: debounce_seconds_def)
  then show ?case using Cons.prems(2) ih by auto
qed simp

lemma sorted_gap_snoc:
  assumes "sorted_wrt (\<lambda>a b. a + debounce_seconds \<le> b) (x # xs)" "last (x # xs) + debounce_seconds \<le> z"
  shows "sorted_wrt (\<lambda>a b. a + debounce_seconds \<le> b) (x # xs @ [z])"
proof -
  have "y + debounce_seconds \<le> z" if "y \<in> set (x # xs)" for y
    using sorted_gap_last [OF assms(1) that] assms(2) by simp
  then show ?thesis using assms(1) by (simp add: sorted_wrt_append)
qed

lemma watch_ok_step: "watch_ok now w \<Longrightarrow> watch_ok now (watch_step e w)"
proof (cases e)
  case (Modified src_path is_directory t ends_in_time)
  assume ok: "watch_ok now w"
  show ?thesis
  proof (cases "watch_stopped w \<or> is_directory \<or> \<not> py_endswith src_path ''.py'' \<or> t - last_modified_time w < debounce_seconds")
    case True
    then show ?thesis using ok Modified by (auto simp: watch_step_def on_modified_def)
  next
    case False
    then have "sorted_wrt (\<lambda>a b. a + debounce_seconds \<le> b) (now # restart_times w @ [t])"
      using ok by (intro sorted_gap_snoc) (auto simp: watch_ok_def algebra_simps)
    then show ?thesis using False ok Modified
      by (auto simp: watch_step_def on_modified_def watch_ok_def start_process_def stop_process_def)
  qed
qed (auto simp: watch_ok_def watch_step_def keyboard_interrupt_def stop_process_def split: if_splits)

lemma watch_ok_run: "watch_ok now (fold watch_step es (run_with_reload_watcher now))"
proof -
  have "watch_ok now (fold watch_step es w)" if "watch_ok now w" for w
    using that by (induction es arbitrary: w) (simp_all add: watch_ok_step)
  then show ?thesis using watch_ok_start by blast
qed

text \<open>
  Whatever files change and whatever processes end, at most one process is alive, the last one that was started, and two restarts are
  at least the debounce time apart. An interrupt stops the process that was started first: it leaves none alive exactly
  when there was no restart or the process of the last restart has ended by itself.
\<close>

theorem reload_keeps_one_process:
  fixes now es ends_in_time
  defines "w \<equiv> fold watch_step es (run_with_reload_watcher now)"
  shows "length (alive w) \<le> 1 \<and> set (alive w) \<subseteq> {active_process w}
    \<and> sorted_wrt (\<lambda>a b. a + debounce_seconds \<le> b) (now # restart_times w)
    \<and> (\<not> watch_stopped w \<longrightarrow> (alive (watch_step (Interrupt ends_in_time) w) = []) = (restart_times w = [] \<or> active_process w \<notin> set (alive w)))"
proof -
  have ok: "watch_ok now w" unfolding w_def by (rule watch_ok_run)
  then show ?thesis
    by (auto simp: watch_ok_def watch_step_def keyboard_interrupt_def stop_process_def)
qed

theorem reload_keeps_one_process_witness:
  "alive (watch_step (Interrupt True) (fold watch_step [Modified ''app.py'' False 2 True] (run_with_reload_watcher 0))) \<noteq> []"
proof -
  define w where "w = fold watch_step [Modified ''app.py'' False 2 True] (run_with_reload_watcher 0)"
  have "restart_times w = [2]" "active_process w = 1" "alive w = [1]" "watch_stopped w = False" unfolding w_def by code_simp+
  then show ?thesis
    using reload_keeps_one_process [of "[Modified ''app.py'' False 2 True]" 0 True] unfolding w_def by simp
qed

subsubsection \<open>Generated files\<close>

text \<open>
  A generation changes at most the output file, which then holds the whole new content; when the application cannot be read or its interfaces
  cannot be written, the file stays as it was, and the command still ends without an error.
\<close>

theorem generation_all_or_nothing:
  assumes "gen_tsi run file_path watch stdout post_process fs = (r, fs')"
  shows "(fs' = fs \<or> (\<exists>path content. file_path = Some path \<and> \<not> stdout \<and> content_result run = Inr content \<and> fs' = fs(path \<mapsto> content)))
    \<and> (\<forall>e. content_result run = Inl e \<and> is_Exception e \<longrightarrow> fs' = fs \<and> (\<exists>x. r = Inr x))"
  using assms
  by (auto simp: gen_tsi_def generate_interfaces_def Let_def split: if_splits option.splits sum.splits)

theorem generation_all_or_nothing_witness:
  "\<exists>x. gen_tsi \<lparr>content_result = Inl (Exc TypeError ''unsupported''), open_result = None, post_result = None\<rparr> (Some ''api.ts'') False False None
     [''api.ts'' \<mapsto> ''old''] = (Inr x, [''api.ts'' \<mapsto> ''old''])"
  using generation_all_or_nothing [of "\<lparr>content_result = Inl (Exc TypeError ''unsupported''), open_result = None, post_result = None\<rparr>" "Some ''api.ts''" False False None
      "[''api.ts'' \<mapsto> ''old'']"]
  by (metis (no_types, lifting) is_Exception.simps exc_class.simps surj_pair ts_run.simps(1) exc_class.case(6))

text \<open>In watch mode the file holds what the last process to write has generated, which need not be the one of the last change.\<close>

lemma watch_keeps_last_writer:
  assumes "content_result (runs (watched_changes es ! i)) = Inr content" "open_result (runs (watched_changes es ! i)) = None" "file_path \<noteq> []"
  shows "watch_generate runs es (order @ [i]) file_path post_process fs file_path = Some content"
  using assms by (auto simp: watch_generate_def generate_interfaces_def Let_def split: option.splits)

subsubsection \<open>Dead letters\<close>

text \<open>
  The command \<open>dlq requeue\<close> first lists the messages it is going to put back, by reading and giving back the same message over and over. So on a queue with
  messages it never ends without a limit; and with a limit it decides by the first message alone: when that one does not match the filter it reports that no message
  does, whatever the others are, and nothing is put back.
\<close>

theorem dlq_requeue_depends_on_first_message:
  assumes "dead_letter_queue Q" "q_get Q q = (Some m, q')"
  shows "dlq_requeue_command Q to_int fuel True True queue_filter None force confirmed accept q = None
    \<and> (0 < n \<and> n < fuel \<and> filter_by_queue queue_filter [(dlq_message to_int m, m)] = [] \<longrightarrow>
        (\<exists>q2. dlq_requeue_command Q to_int fuel True True queue_filter (Some n) force confirmed accept q = Some (NoMatch, q2)))"
proof -
  have len: "q_len Q q \<noteq> 0" using dead_letter_queue.get_len [OF assms] by simp
  have "dlq_requeue_command Q to_int fuel True True queue_filter None force confirmed accept q = None"
    using dead_letter_queue.fetch_unlimited_diverges [OF assms] len by (simp add: dlq_requeue_command_def)
  moreover have "\<exists>q2. dlq_requeue_command Q to_int fuel True True queue_filter (Some n) force confirmed accept q = Some (NoMatch, q2)"
    if "0 < n" "n < fuel" "filter_by_queue queue_filter [(dlq_message to_int m, m)] = []"
  proof -
    have "filter_by_queue queue_filter (replicate n (dlq_message to_int m, m)) = []"
      using that(3) by (auto simp: filter_by_queue_def split: if_splits)
    then show ?thesis
      using dead_letter_queue.fetch_limited_repeats [OF assms, of 0 n fuel to_int] that len
      by (auto simp: dlq_requeue_command_def)
  qed
  ultimately show ?thesis by blast
qed

theorem dlq_requeue_depends_on_first_message_witness:
  "dlq_requeue_command list_dlq (\<lambda>_. 0) 100000 True True None None True False (\<lambda>_. True) [sample_dead ''a''] = None"
  using dlq_requeue_depends_on_first_message [OF list_dlq.dead_letter_queue_axioms,
    of "[sample_dead ''a'']" "sample_dead ''a''" "[]" "\<lambda>_. 0" 100000 None True False "\<lambda>_. True"]
  by (simp add: list_dlq_def)

text \<open>Messages are purged only when the command is forced or confirmed, and the queue is there and holds some.\<close>

lemma purge_needs_consent:
  "snd (dlq_purge_command Q purge accessible force confirmed q) \<noteq> q \<Longrightarrow> accessible \<and> (force \<or> confirmed) \<and> 0 < q_len Q q"
  by (auto simp: dlq_purge_command_def split: if_splits)

end
