(* ===== verification/Exports.thy ===== *)
theory Exports
  imports Prelude "HOL-Library.Multiset" "HOL-Library.List_Lexorder" "HOL-Library.Char_ord"
begin

section \<open>The exports of the package\<close>

text \<open>
  \<^verbatim>\<open>__init__.py\<close>: the names of the package are imported when they are first used. An access looks the name up among the globals of the package; when it is not there,
  \<open>__getattr__\<close> imports its module, stores the value, and stores the other exports of the same module with it.
\<close>

subsection \<open>The registry\<close>

text \<open>The name, the module below the package, and the name in that module where it differs. All entries have the same package.\<close>

type_synonym registry = "(string \<times> string \<times> string option) list"

definition imports_first :: registry where
  "imports_first =
    [
     (''ValidatedJSON'', ''persistence.pydantic_helpers'', None),
     (''PydanticJSONB'', ''persistence.pydantic_helpers'', None),
     (''partition_by_schema_validity'', ''persistence.pydantic_helpers'', None),
     (''const'', ''__module__'', None),
     (''use_implicit_headers'', ''messagebus.implicit_headers'', None),
     (''provide_implicit_headers'', ''messagebus.implicit_headers'', None),
     (''get_logger_extra_attributes'', ''utils.logger_extra_interceptor'', None),
     (''providing_logger_extra_attributes'', ''utils.logger_extra_interceptor'', None),
     (''ContextualLoggerExtraAttributesHandler'', ''utils.logger_extra_interceptor'', None),
     (''SetMetadata'', ''reflect.metadata'', None),
     (''TransactionMetadata'', ''reflect.metadata'', None),
     (''start_transaction_metadata_context'', ''reflect.metadata'', None),
     (''start_providing_metadata'', ''reflect.metadata'', None),
     (''get_metadata'', ''reflect.metadata'', None),
     (''get_all_metadata'', ''reflect.metadata'', None),
     (''get_metadata_value'', ''reflect.metadata'', None),
     (''RetryPolicy'', ''utils.retry'', None),
     (''RedisMessageBrokerBackend'', ''broker_backend.redis_broker_backend'', None),
     (''FilterRuleApplier'', ''persistence.sort_filter'', None),
     (''SortRuleApplier'', ''persistence.sort_filter'', None),
     (''InvalidFilterError'', ''persistence.sort_filter'', None),
     (''InvalidSortError'', ''persistence.sort_filter'', None),
     (''MessageDisposed'', ''messagebus.bus_message_controller'', None),
     (''use_bus_message_controller'', ''messagebus.bus_message_controller'', None),
     (''GenericPoolConfig'', ''messagebus.interceptors.aiopika_publisher_interceptor'', None),
     (''ack'', ''messagebus.bus_message_controller'', None),
     (''nack'', ''messagebus.bus_message_controller'', None),
     (''reject'', ''messagebus.bus_message_controller'', None),
     (''retry'', ''messagebus.bus_message_controller'', None),
     (''retry_later'', ''messagebus.bus_message_controller'', None),
     (''RPCRequestNetworkError'', ''rpc.http.decorators'', None),
     (''RPCUnhandleError'', ''rpc.http.decorators'', None),
     (''FILTER_SORT_ENTITY_ATTR_MAP'', ''persistence.sort_filter'', None),
     (''FilterModel'', ''persistence.sort_filter'', None),
     (''SortFilterRunner'', ''persistence.sort_filter'', None),
     (''SortModel'', ''persistence.sort_filter'', None),
     (''RegisterWebSocketMessage'', ''presentation.websocket.decorators'', None),
     (''OtelObservabilityProvider'', ''observability.providers.otel'', None),
     (''TracedRequestMiddleware'', ''rpc.http.backends.otel'', None),
     (''raises_http_exception_on'', ''presentation.hooks'', None),
     (''PresentationException'', ''presentation.exceptions'', None),
     (''raises_200_on'', ''presentation.hooks'', None),
     (''raises_400_on'', ''presentation.hooks'', None),
     (''raises_401_on'', ''presentation.hooks'', None),
     (''raises_403_on'', ''presentation.hooks'', None),
     (''raises_404_on'', ''presentation.hooks'', None),
     (''raises_422_on'', ''presentation.hooks'', None),
     (''raises_500_on'', ''presentation.hooks'', None),
     (''HttpMiddleware'', ''presentation.http_microservice'', None),
     (''HttpMapping'', ''rpc.http.decorators'', None),
     (''RequestAttribute'', ''rpc.http.decorators'', None),
     (''Body'', ''rpc.http.decorators'', None),
     (''Query'', ''rpc.http.decorators'', None),
     (''Header'', ''rpc.http.decorators'', None),
     (''PathParam'', ''rpc.http.decorators'', None),
     (''RestClient'', ''rpc.http.decorators'', None),
     (''HttpPost'', ''rpc.http.decorators'', Some ''Post''),
     (''HttpGet'', ''rpc.http.decorators'', Some ''Get''),
     (''HttpPatch'', ''rpc.http.decorators'', Some ''Patch''),
     (''HttpPut'', ''rpc.http.decorators'', Some ''Put''),
     (''HttpDelete'', ''rpc.http.decorators'', Some ''Delete''),
     (''ObservabilityInterceptor'', ''observability.interceptor'', None),
     (''TracedFunc'', ''observability.decorators'', None),
     (''TracedClass'', ''observability.decorators'', None),
     (''traced_class'', ''observability.decorators'', None),
     (''spawn_trace'', ''observability.hooks'', None),
     (''setup_fastapi_exception_handler'', ''observability.fastapi_exception_handler'', None),
     (''HttpResponseEventMiddleware'', ''observability.http_response_event'', None),
     (''BodyRedactor'', ''observability.http_response_event'', None),
     (''SENSITIVE_HEADERS'', ''observability.http_response_event'', None)]"

definition imports_second :: registry where
  "imports_second =
    [
     (''REDACTED_HEADER_VALUE'', ''observability.http_response_event'', None),
     (''TraceResponseHeaderMiddleware'', ''observability.trace_response'', None),
     (''InboundTraceContextMiddleware'', ''observability.inbound_trace'', None),
     (''TrustPredicate'', ''observability.inbound_trace'', None),
     (''TrustAwareTextMapPropagator'', ''observability.inbound_trace'', None),
     (''install_inbound_trace_boundary'', ''observability.inbound_trace'', None),
     (''trust_any_of'', ''observability.inbound_trace'', None),
     (''trust_no_one'', ''observability.inbound_trace'', None),
     (''trust_requests_without_origin'', ''observability.inbound_trace'', None),
     (''trust_when_header_matches'', ''observability.inbound_trace'', None),
     (''set_span_attribute'', ''observability.hooks'', None),
     (''start_span'', ''observability.hooks'', None),
     (''add_span_link'', ''observability.hooks'', None),
     (''get_current_span'', ''observability.hooks'', None),
     (''get_current_span_context'', ''observability.hooks'', None),
     (''add_event'', ''observability.hooks'', None),
     (''set_span_status'', ''observability.hooks'', None),
     (''record_exception'', ''observability.hooks'', None),
     (''get_tracing_provider'', ''observability.hooks'', None),
     (''get_flow_id'', ''observability.hooks'', None),
     (''get_root_span'', ''observability.hooks'', None),
     (''set_root_span_attribute'', ''observability.hooks'', None),
     (''set_root_span_attributes'', ''observability.hooks'', None),
     (''start_message_publish_span'', ''observability.hooks'', None),
     (''QueryInjector'', ''persistence.utilities'', None),
     (''HttpMicroservice'', ''presentation.http_microservice'', None),
     (''ClientDisconnected'', ''presentation.client_cancellation'', None),
     (''ResponseStartedMarker'', ''presentation.client_cancellation'', None),
     (''ClientCancellationGuard'', ''presentation.client_cancellation'', None),
     (''ClientCancellationGuardFor'', ''presentation.client_cancellation'', None),
     (''client_cancellation_guard_for'', ''presentation.client_cancellation'', None),
     (''QueryGuard'', ''presentation.client_cancellation'', None),
     (''ClientDisconnectionGuard'', ''presentation.client_cancellation'', None),
     (''client_disconnected_exception_handler'', ''presentation.client_cancellation'', None),
     (''install_client_cancellation'', ''presentation.client_cancellation'', None),
     (''use_current_container'', ''microservice'', None),
     (''T_BASEMODEL'', ''persistence.base'', None),
     (''DatedEntity'', ''persistence.utilities'', None),
     (''BaseEntity'', ''persistence.base'', None),
     (''use_ws_manager'', ''presentation.websocket.context'', None),
     (''is_ws_connected'', ''presentation.websocket.utils'', None),
     (''receive_ws_text'', ''presentation.websocket.utils'', None),
     (''receive_ws_bytes'', ''presentation.websocket.utils'', None),
     (''receive_ws_json'', ''presentation.websocket.utils'', None),
     (''WebSocketEndpoint'', ''presentation.websocket.decorators'', None),
     (''CriteriaBasedAttributeQueryInjector'', ''persistence.utilities'', None),
     (''Identifiable'', ''persistence.utilities'', None),
     (''IdentifiableEntity'', ''persistence.utilities'', None),
     (''MessageOf'', ''messagebus.message'', None),
     (''MessagePayloadValidationError'', ''messagebus.message'', None),
     (''Message'', ''messagebus.message'', None),
     (''StringCriteria'', ''persistence.utilities'', None),
     (''DateCriteria'', ''persistence.utilities'', None),
     (''DateOrderedFilter'', ''persistence.utilities'', None),
     (''DateOrderedQueryInjector'', ''persistence.utilities'', None),
     (''Paginated'', ''persistence.utilities'', None),
     (''PaginatedFilter'', ''persistence.utilities'', None),
     (''QueryOperations'', ''persistence.utilities'', None),
     (''CRUDOperations'', ''persistence.utilities'', None),
     (''RestController'', ''presentation.decorators'', None),
     (''MessageBusController'', ''messagebus.decorators'', None),
     (''MessageHandler'', ''messagebus.decorators'', None),
     (''ScheduledAction'', ''scheduler.decorators'', None),
     (''Microservice'', ''microservice'', None),
     (''ProviderSpec'', ''core.providers'', None),
     (''Token'', ''core.providers'', None)]"

definition imports_third :: registry where
  "imports_third =
    [
     (''AIOSqlAlchemySessionInterceptor'', ''persistence.interceptors.aiosqa_interceptor'', None),
     (''AIOSQAConfig'', ''persistence.interceptors.aiosqa_interceptor'', None),
     (''create_http_server'', ''presentation.server'', None),
     (''Container'', ''di'', None),
     (''WebSocketInterceptor'', ''presentation.websocket.websocket_interceptor'', None),
     (''use_session'', ''persistence.interceptors.aiosqa_interceptor'', None),
     (''use_transaction'', ''persistence.interceptors.aiosqa_interceptor'', None),
     (''providing_session'', ''persistence.interceptors.aiosqa_interceptor'', None),
     (''providing_new_or_current_session'', ''persistence.interceptors.aiosqa_interceptor'', None),
     (''providing_new_session'', ''persistence.interceptors.aiosqa_interceptor'', None),
     (''providing_transaction'', ''persistence.interceptors.aiosqa_interceptor'', None),
     (''uses_persistence_session'', ''persistence.interceptors.decorators'', None),
     (''skip_persistence_session'', ''persistence.interceptors.decorators'', None),
     (''set_use_persistence_session'', ''persistence.interceptors.decorators'', None),
     (''Post'', ''presentation.decorators'', None),
     (''Get'', ''presentation.decorators'', None),
     (''Patch'', ''presentation.decorators'', None),
     (''Put'', ''presentation.decorators'', None),
     (''Delete'', ''presentation.decorators'', None),
     (''use_publisher'', ''messagebus.publisher'', None),
     (''AIOPikaConnectionFactory'', ''messagebus.interceptors.aiopika_publisher_interceptor'', None),
     (''MessageBusPublisherInterceptor'', ''messagebus.interceptors.publisher_interceptor'', None),
     (''RedisWebSocketConnectionBackend'', ''presentation.websocket.redis'', None),
     (''AppConfigurationInterceptor'', ''tools.app_config.interceptor'', None),
     (''ExposeType'', ''tools.typescript.decorators'', None),
     (''QueryEndpoint'', ''tools.typescript.decorators'', None),
     (''MutationEndpoint'', ''tools.typescript.decorators'', None),
     (''SplitInputOutput'', ''tools.typescript.decorators'', None),
     (''UseMiddleware'', ''presentation.decorators'', None),
     (''UseDependency'', ''presentation.decorators'', None),
     (''compose_route_decorators'', ''presentation.decorators'', None),
     (''GlobalHttpErrorHandler'', ''rpc.http.decorators'', None),
     (''RouteHttpErrorHandler'', ''rpc.http.decorators'', None),
     (''WebSocketMessage'', ''presentation.websocket.types'', None),
     (''WebSocketConnectionManager'', ''presentation.websocket.context'', None),
     (''provide_ws_manager'', ''presentation.websocket.context'', None),
     (''HttpRpcClientBuilder'', ''rpc.http.decorators'', None),
     (''HTTPXHttpRPCAsyncBackend'', ''rpc.http.backends.httpx'', None),
     (''FormData'', ''rpc.http.decorators'', None),
     (''File'', ''rpc.http.decorators'', None),
     (''Timeout'', ''rpc.http.decorators'', None),
     (''Retry'', ''rpc.http.decorators'', None),
     (''ContentType'', ''rpc.http.decorators'', None),
     (''BearerTokenAuth'', ''rpc.http.decorators'', None),
     (''BasicAuth'', ''rpc.http.decorators'', None),
     (''ApiKeyAuth'', ''rpc.http.decorators'', None),
     (''CacheMiddleware'', ''rpc.http.decorators'', None),
     (''AuthenticationMiddleware'', ''rpc.http.decorators'', None),
     (''ResponseMiddleware'', ''rpc.http.decorators'', None),
     (''RequestHook'', ''rpc.http.decorators'', None),
     (''ResponseHook'', ''rpc.http.decorators'', None),
     (''RPCRetryPolicy'', ''rpc.http.decorators'', None),
     (''TimeoutException'', ''rpc.http.decorators'', None),
     (''use_app_context'', ''microservice'', None),
     (''use_app_transaction_context'', ''microservice'', None),
     (''use_app_tx_ctx_data'', ''microservice'', None),
     (''is_shutting_down'', ''microservice'', None),
     (''shutdown_race'', ''microservice'', None),
     (''request_shutdown'', ''microservice'', None),
     (''AppContext'', ''microservice'', None),
     (''AppInterceptor'', ''microservice'', None),
     (''AppTransactionContext'', ''microservice'', None),
     (''use_app_type'', ''microservice'', None),
     (''ControllerMemberReflect'', ''reflect.controller_inspect'', None),
     (''ControllerReflect'', ''reflect.controller_inspect'', None)]"

definition dynamic_imports :: registry where
  "dynamic_imports = imports_first @ imports_second @ imports_third"

definition names_first :: "string list" where
  "names_first =
    [
     ''ValidatedJSON'', ''PydanticJSONB'', ''partition_by_schema_validity'', ''const'',
     ''use_implicit_headers'', ''provide_implicit_headers'', ''get_logger_extra_attributes'', ''providing_logger_extra_attributes'',
     ''ContextualLoggerExtraAttributesHandler'', ''SetMetadata'', ''start_transaction_metadata_context'', ''start_providing_metadata'',
     ''TransactionMetadata'', ''get_metadata'', ''get_all_metadata'', ''get_metadata_value'',
     ''RedisMessageBrokerBackend'', ''RetryPolicy'', ''FilterRuleApplier'', ''SortRuleApplier'',
     ''InvalidFilterError'', ''InvalidSortError'', ''use_bus_message_controller'', ''MessageDisposed'',
     ''ack'', ''nack'', ''reject'', ''retry'',
     ''retry_later'', ''RPCRequestNetworkError'', ''RPCUnhandleError'', ''FILTER_SORT_ENTITY_ATTR_MAP'',
     ''FilterModel'', ''SortFilterRunner'', ''SortModel'', ''RegisterWebSocketMessage'',
     ''TracedRequestMiddleware'', ''raises_http_exception_on'', ''PresentationException'', ''raises_200_on'',
     ''raises_422_on'', ''raises_404_on'', ''raises_400_on'', ''raises_401_on'',
     ''raises_403_on'', ''raises_500_on'', ''HttpMiddleware'', ''HttpMapping'',
     ''RequestAttribute'', ''Body'', ''Query'', ''Header'',
     ''PathParam'', ''RestClient'', ''HttpPost'', ''HttpGet'',
     ''HttpPatch'', ''HttpPut'', ''HttpDelete'', ''ObservabilityInterceptor'',
     ''TracedFunc'', ''TracedClass'', ''traced_class'', ''start_span'',
     ''add_span_link'', ''get_current_span'', ''get_current_span_context'', ''spawn_trace'',
     ''set_span_attribute'', ''add_event'', ''setup_fastapi_exception_handler'', ''InboundTraceContextMiddleware'',
     ''TraceResponseHeaderMiddleware'', ''HttpResponseEventMiddleware'', ''BodyRedactor'', ''SENSITIVE_HEADERS'',
     ''REDACTED_HEADER_VALUE'', ''TrustPredicate'', ''TrustAwareTextMapPropagator'', ''install_inbound_trace_boundary'',
     ''trust_any_of'', ''trust_no_one'', ''trust_requests_without_origin'', ''trust_when_header_matches'',
     ''set_span_status'', ''record_exception'', ''get_tracing_provider'', ''get_flow_id'',
     ''get_root_span'', ''set_root_span_attribute'', ''set_root_span_attributes'', ''start_message_publish_span'',
     ''QueryInjector'', ''HttpMicroservice'', ''ClientDisconnected'', ''ResponseStartedMarker'',
     ''ClientCancellationGuard'', ''ClientCancellationGuardFor'', ''client_cancellation_guard_for'', ''QueryGuard'',
     ''ClientDisconnectionGuard'', ''client_disconnected_exception_handler'', ''install_client_cancellation'', ''use_current_container'',
     ''use_app_context'', ''use_app_transaction_context'']"

definition names_second :: "string list" where
  "names_second =
    [
     ''use_app_tx_ctx_data'', ''is_shutting_down'', ''shutdown_race'', ''request_shutdown'',
     ''Microservice'', ''T_BASEMODEL'', ''DatedEntity'', ''BaseEntity'',
     ''use_ws_manager'', ''WebSocketEndpoint'', ''is_ws_connected'', ''receive_ws_text'',
     ''receive_ws_bytes'', ''receive_ws_json'', ''CriteriaBasedAttributeQueryInjector'', ''Identifiable'',
     ''IdentifiableEntity'', ''MessageOf'', ''MessagePayloadValidationError'', ''Message'',
     ''StringCriteria'', ''DateCriteria'', ''DateOrderedFilter'', ''DateOrderedQueryInjector'',
     ''Paginated'', ''PaginatedFilter'', ''QueryOperations'', ''CRUDOperations'',
     ''RestController'', ''MessageBusController'', ''MessageHandler'', ''ScheduledAction'',
     ''ProviderSpec'', ''Token'', ''AIOSqlAlchemySessionInterceptor'', ''AIOSQAConfig'',
     ''create_http_server'', ''Container'', ''WebSocketInterceptor'', ''use_session'',
     ''use_transaction'', ''providing_session'', ''uses_persistence_session'', ''skip_persistence_session'',
     ''set_use_persistence_session'', ''providing_transaction'', ''providing_new_or_current_session'', ''providing_new_session'',
     ''Post'', ''Get'', ''Patch'', ''Put'',
     ''Delete'', ''use_publisher'', ''GenericPoolConfig'', ''AIOPikaConnectionFactory'',
     ''MessageBusPublisherInterceptor'', ''RedisWebSocketConnectionBackend'', ''AppConfigurationInterceptor'', ''ExposeType'',
     ''QueryEndpoint'', ''MutationEndpoint'', ''SplitInputOutput'', ''UseMiddleware'',
     ''UseDependency'', ''compose_route_decorators'', ''GlobalHttpErrorHandler'', ''RouteHttpErrorHandler'',
     ''WebSocketMessage'', ''WebSocketConnectionManager'', ''provide_ws_manager'', ''HttpRpcClientBuilder'',
     ''HTTPXHttpRPCAsyncBackend'', ''FormData'', ''File'', ''Timeout'',
     ''Retry'', ''ContentType'', ''BearerTokenAuth'', ''BasicAuth'',
     ''ApiKeyAuth'', ''CacheMiddleware'', ''AuthenticationMiddleware'', ''ResponseMiddleware'',
     ''RequestHook'', ''ResponseHook'', ''RPCRetryPolicy'', ''TimeoutException'',
     ''AppTransactionContext'', ''use_app_type'', ''AppContext'', ''ControllerMemberReflect'',
     ''ControllerReflect'', ''AppInterceptor'', ''OtelObservabilityProvider'']"

definition exported_names :: "string list" where
  "exported_names = names_first @ names_second"

subsection \<open>Access\<close>

text \<open>The import system: a module by its name below the package gives its attributes, or itself as an object.\<close>

record 'v import_system =
  import_attributes :: "string \<Rightarrow> (string \<rightharpoonup> 'v) result"
  import_object :: "string \<Rightarrow> 'v result"

definition attribute_name :: "string \<Rightarrow> string option \<Rightarrow> string" where
  "attribute_name name realname = (case realname of None \<Rightarrow> name | Some r \<Rightarrow> r)"

definition warm_up :: "registry \<Rightarrow> string \<Rightarrow> (string \<rightharpoonup> 'v) \<Rightarrow> (string \<rightharpoonup> 'v) \<Rightarrow> string \<rightharpoonup> 'v" where
  "warm_up table module_name m g =
     fold (\<lambda>(sibling, sibling_module, sibling_realname) g.
        if sibling_module \<noteq> module_name then g
        else case m (attribute_name sibling sibling_realname) of None \<Rightarrow> g | Some v \<Rightarrow> g(sibling \<mapsto> v)) table g"

definition package_getattr :: "'v import_system \<Rightarrow> registry \<Rightarrow> string \<Rightarrow> (string \<rightharpoonup> 'v) \<Rightarrow> 'v result \<times> (string \<rightharpoonup> 'v)" where
  "package_getattr imp table attr_name g =
     (case map_of table attr_name of
        None \<Rightarrow> (Inl (Exc AttributeError attr_name), g)
      | Some (module_name, realname) \<Rightarrow>
          if module_name = ''__module__''
          then (case import_object imp attr_name of Inl e \<Rightarrow> (Inl e, g) | Inr v \<Rightarrow> (Inr v, g(attr_name \<mapsto> v)))
          else (case import_attributes imp module_name of
                  Inl e \<Rightarrow> (Inl e, g)
                | Inr m \<Rightarrow>
                    (case m (attribute_name attr_name realname) of
                       None \<Rightarrow> (Inl (Exc AttributeError (attribute_name attr_name realname)), g)
                     | Some v \<Rightarrow> (Inr v, warm_up table module_name m (g(attr_name \<mapsto> v))))))"

text \<open>An attribute of the package, and a sequence of them.\<close>

definition package_attribute :: "'v import_system \<Rightarrow> registry \<Rightarrow> string \<Rightarrow> (string \<rightharpoonup> 'v) \<Rightarrow> 'v result \<times> (string \<rightharpoonup> 'v)" where
  "package_attribute imp table name g = (case g name of Some v \<Rightarrow> (Inr v, g) | None \<Rightarrow> package_getattr imp table name g)"

fun accesses :: "'v import_system \<Rightarrow> registry \<Rightarrow> string list \<Rightarrow> (string \<rightharpoonup> 'v) \<Rightarrow> 'v result list" where
  "accesses imp table [] g = []"
| "accesses imp table (n # ns) g = (case package_attribute imp table n g of (r, g1) \<Rightarrow> r # accesses imp table ns g1)"

definition package_dir :: "string list" where
  "package_dir = exported_names"

text \<open>A reference: the import of a name without the globals.\<close>

definition eager_import :: "'v import_system \<Rightarrow> registry \<Rightarrow> string \<Rightarrow> 'v result" where
  "eager_import imp table name =
     (case map_of table name of
        None \<Rightarrow> Inl (Exc AttributeError name)
      | Some (module_name, realname) \<Rightarrow>
          if module_name = ''__module__'' then import_object imp name
          else (case import_attributes imp module_name of
                  Inl e \<Rightarrow> Inl e
                | Inr m \<Rightarrow> (case m (attribute_name name realname) of
                     None \<Rightarrow> Inl (Exc AttributeError (attribute_name name realname)) | Some v \<Rightarrow> Inr v)))"

subsection \<open>Comparing lists of names\<close>

text \<open>The registry is compared with the exported names by sorting both.\<close>

fun merge_names :: "string list \<Rightarrow> string list \<Rightarrow> string list" where
  "merge_names [] ys = ys"
| "merge_names (x # xs) [] = x # xs"
| "merge_names (x # xs) (y # ys) = (if x \<le> y then x # merge_names xs (y # ys) else y # merge_names (x # xs) ys)"

fun merge_pairs :: "string list list \<Rightarrow> string list list" where
  "merge_pairs (xs # ys # rest) = merge_names xs ys # merge_pairs rest"
| "merge_pairs rest = rest"

fun merge_rounds :: "nat \<Rightarrow> string list list \<Rightarrow> string list list" where
  "merge_rounds 0 xss = xss"
| "merge_rounds (Suc n) xss = merge_rounds n (merge_pairs xss)"

definition sort_names :: "string list \<Rightarrow> string list" where
  "sort_names xs = concat (merge_rounds 8 (map (\<lambda>x. [x]) xs))"

lemma mset_merge_names [simp]: "mset (merge_names xs ys) = mset xs + mset ys"
  by (induction xs ys rule: merge_names.induct) simp_all

lemma mset_merge_pairs [simp]: "mset (concat (merge_pairs xss)) = mset (concat xss)"
  by (induction xss rule: merge_pairs.induct) simp_all

lemma mset_merge_rounds [simp]: "mset (concat (merge_rounds n xss)) = mset (concat xss)"
  by (induction n arbitrary: xss) simp_all

lemma mset_sort_names [simp]: "mset (sort_names xs) = mset xs"
proof -
  have "mset (concat (map (\<lambda>x. [x]) xs)) = mset xs" by (induction xs) simp_all
  then show ?thesis by (simp add: sort_names_def)
qed

lemma exports_are_registered: "sort_names exported_names = sort_names (map fst dynamic_imports)"
  by code_simp

lemma registry_ascending: "successively (<) (sort_names (map fst dynamic_imports))"
  by code_simp

lemma registry_distinct: "distinct (map fst dynamic_imports)"
proof -
  have "sorted_wrt (<) (sort_names (map fst dynamic_imports))"
    using registry_ascending by (simp add: successively_conv_sorted_wrt)
  then have "distinct (sort_names (map fst dynamic_imports))" by (simp add: strict_sorted_iff)
  then show ?thesis by (metis mset_sort_names mset_eq_imp_distinct_iff)
qed

subsection \<open>Properties\<close>

definition coherent_globals :: "'v import_system \<Rightarrow> registry \<Rightarrow> (string \<rightharpoonup> 'v) \<Rightarrow> bool" where
  "coherent_globals imp table g = (\<forall>n v. g n = Some v \<longrightarrow> eager_import imp table n = Inr v)"

lemma coherent_upd: "coherent_globals imp table g \<Longrightarrow> eager_import imp table n = Inr v \<Longrightarrow> coherent_globals imp table (g(n \<mapsto> v))"
  by (simp add: coherent_globals_def)

lemma coherent_warm_up:
  assumes "distinct (map fst table)" "module_name \<noteq> ''__module__''" "import_attributes imp module_name = Inr m"
  shows "coherent_globals imp table g \<Longrightarrow> coherent_globals imp table (warm_up table module_name m g)"
proof -
  have "coherent_globals imp table (warm_up part module_name m g)" if "set part \<subseteq> set table" "coherent_globals imp table g" for part g
    using that
  proof (induction part arbitrary: g)
    case (Cons e part)
    obtain sibling md real where e: "e = (sibling, md, real)" by (cases e) auto
    have "map_of table sibling = Some (md, real)" using Cons.prems(1) assms(1) e by simp
    then have "eager_import imp table sibling = Inr v" if "md = module_name" "m (attribute_name sibling real) = Some v" for v
      using that assms(2,3) by (simp add: eager_import_def)
    then show ?case using Cons e coherent_upd by (fastforce simp: warm_up_def split: option.split)
  qed (simp add: warm_up_def)
  then show "coherent_globals imp table g \<Longrightarrow> coherent_globals imp table (warm_up table module_name m g)" by blast
qed

lemma package_attribute_eager:
  assumes "distinct (map fst table)" "coherent_globals imp table g" "package_attribute imp table n g = (r, g')"
  shows "r = eager_import imp table n" "coherent_globals imp table g'"
proof -
  have e: "eager_import imp table n = fst (package_getattr imp table n g)"
    by (simp add: eager_import_def package_getattr_def split: option.split prod.split sum.split)
  show "r = eager_import imp table n"
    using assms(2,3) e by (auto simp: package_attribute_def coherent_globals_def split: option.splits)
  show "coherent_globals imp table g'"
  proof (cases "g n")
    case None
    then have run: "package_getattr imp table n g = (r, g')" using assms(3) by (simp add: package_attribute_def)
    show ?thesis
    proof (cases r)
      case (Inl x)
      then have "g' = g" using run by (auto simp: package_getattr_def split: option.splits if_splits sum.splits)
      then show ?thesis using assms(2) by simp
    next
      case (Inr v)
      have c: "coherent_globals imp table (g(n \<mapsto> v))" using coherent_upd [OF assms(2)] e run Inr by simp
      from run Inr have "g' = g(n \<mapsto> v) \<or> (\<exists>md m. md \<noteq> ''__module__'' \<and> import_attributes imp md = Inr m \<and> g' = warm_up table md m (g(n \<mapsto> v)))"
        by (auto simp: package_getattr_def split: option.splits if_splits sum.splits)
      then show ?thesis using c coherent_warm_up [OF assms(1)] by blast
    qed
  next
    case (Some v)
    then show ?thesis using assms(2,3) by (simp add: package_attribute_def)
  qed
qed

lemma accesses_eager:
  assumes "distinct (map fst table)" "coherent_globals imp table g"
  shows "accesses imp table ns g = map (eager_import imp table) ns"
  using assms(2)
proof (induction ns arbitrary: g)
  case (Cons n ns)
  obtain r g1 where run: "package_attribute imp table n g = (r, g1)" by fastforce
  note step = package_attribute_eager [OF assms(1) Cons.prems run]
  show ?case using run step(1) Cons.IH [OF step(2)] by simp
qed simp

text \<open>
  The lazy package behaves as if every name were imported where it is used: in whatever order names are accessed, and whatever the accesses before have warmed up,
  each gives what the import of its module gives, errors included. The exported names are exactly those of the registry, which holds each once.
\<close>

theorem lazy_exports_are_eager:
  "accesses imp dynamic_imports names Map.empty = map (eager_import imp dynamic_imports) names
   \<and> set package_dir = set (map fst dynamic_imports) \<and> length package_dir = length dynamic_imports \<and> distinct package_dir"
proof -
  have m: "mset package_dir = mset (map fst dynamic_imports)"
    unfolding package_dir_def using exports_are_registered by (metis mset_sort_names)
  then have "set package_dir = set (map fst dynamic_imports)" "length package_dir = length dynamic_imports" "distinct package_dir"
    using registry_distinct by (metis mset_eq_setD, metis length_map mset_eq_length, metis mset_eq_imp_distinct_iff)
  moreover have "coherent_globals imp dynamic_imports Map.empty" by (simp add: coherent_globals_def)
  ultimately show ?thesis using accesses_eager [OF registry_distinct] by blast
qed

end
