(* ===== verification/Execution.thy ===== *)
theory Execution
  imports Py_Text
begin

section \<open>Execution indicators\<close>

text \<open>
  \<open>in_execution\<close> and \<open>get_in_execution_count\<close> of \<^verbatim>\<open>broker_backend/redis_broker_backend.py\<close>: a running action is marked by a key of Redis with its start time in seconds, which
  expires by itself, and the count is the number of keys that match a pattern. For a name without the special characters of Redis patterns the pattern of a name matches
  the keys that start with it.
\<close>

definition execution_indicator_key :: "string \<Rightarrow> string \<Rightarrow> string" where
  "execution_indicator_key action_name timestamp = ''in_execution:'' @ action_name @ '':'' @ timestamp"

definition execution_indicator_expiration :: rat where
  "execution_indicator_expiration = 60 * 5"

record executions =
  indicators :: "(string \<times> rat) list"        \<comment> \<open>a key and when it expires\<close>
  running :: "(string \<times> int) list"           \<comment> \<open>the executions inside \<open>in_execution\<close>: action and start in seconds\<close>
  ex_clock :: rat

definition enter_execution :: "string \<Rightarrow> executions \<Rightarrow> executions" where
  "enter_execution a s =
     s\<lparr>indicators := dict_set (execution_indicator_key a (str_int \<lfloor>ex_clock s\<rfloor>)) (ex_clock s + execution_indicator_expiration) (indicators s),
       running := (a, \<lfloor>ex_clock s\<rfloor>) # running s\<rparr>"

text \<open>The \<open>finally\<close> clause: the key is deleted however the execution ended.\<close>

definition leave_execution :: "string \<Rightarrow> int \<Rightarrow> executions \<Rightarrow> executions" where
  "leave_execution a t s =
     s\<lparr>indicators := filter (\<lambda>(k, e). k \<noteq> execution_indicator_key a (str_int t)) (indicators s), running := remove1 (a, t) (running s)\<rparr>"

definition get_in_execution_count :: "string \<Rightarrow> executions \<Rightarrow> nat" where
  "get_in_execution_count a s =
     length (filter (\<lambda>(k, e). ex_clock s < e \<and> py_startswith k (execution_indicator_key a [])) (indicators s))"

datatype execution_event = Enters string | Leaves string int | Passes rat

fun execution_step :: "execution_event \<Rightarrow> executions \<Rightarrow> executions option" where
  "execution_step (Enters a) s = Some (enter_execution a s)"
| "execution_step (Leaves a t) s = (if (a, t) \<in> set (running s) then Some (leave_execution a t s) else None)"
| "execution_step (Passes d) s = (if 0 \<le> d then Some (s\<lparr>ex_clock := ex_clock s + d\<rparr>) else None)"

fun execution_run :: "execution_event list \<Rightarrow> executions \<Rightarrow> executions option" where
  "execution_run [] s = Some s"
| "execution_run (e # es) s = (case execution_step e s of None \<Rightarrow> None | Some s1 \<Rightarrow> execution_run es s1)"

definition no_executions :: "rat \<Rightarrow> executions" where
  "no_executions now = \<lparr>indicators = [], running = [], ex_clock = now\<rparr>"

subsection \<open>Lemmas\<close>

text \<open>Every key belongs to an execution that runs, and no name holds a colon.\<close>

definition indicators_ok :: "executions \<Rightarrow> bool" where
  "indicators_ok s =
     (distinct (map fst (indicators s)) \<and> (\<forall>(a, t) \<in> set (running s). CHR '':'' \<notin> set a)
      \<and> (\<forall>k \<in> fst ` set (indicators s). \<exists>(a, t) \<in> set (running s). k = execution_indicator_key a (str_int t)))"

lemma key_of_other_action:
  assumes "py_startswith (execution_indicator_key b t) (execution_indicator_key a [])" "CHR '':'' \<notin> set a" "CHR '':'' \<notin> set b"
  shows "b = a"
proof -
  obtain rest where "b @ '':'' @ t = a @ '':'' @ rest"
    using assms(1) by (auto simp: py_startswith_iff execution_indicator_key_def)
  then have "takeWhile ((\<noteq>) CHR '':'') (b @ '':'' @ t) = takeWhile ((\<noteq>) CHR '':'') (a @ '':'' @ rest)" by simp
  moreover have "takeWhile ((\<noteq>) CHR '':'') (x @ '':'' @ y) = x" if "CHR '':'' \<notin> set x" for x y
    using that by (induction x) auto
  ultimately show ?thesis using assms(2,3) by simp
qed

lemma indicators_ok_step:
  assumes "indicators_ok s" "execution_step e s = Some s'" "\<forall>a. e = Enters a \<longrightarrow> CHR '':'' \<notin> set a"
  shows "indicators_ok s'"
proof (cases e)
  case (Enters a)
  have s': "s' = enter_execution a s" using assms(2) Enters by simp
  have keys: "fst ` set (indicators s') = insert (execution_indicator_key a (str_int \<lfloor>ex_clock s\<rfloor>)) (fst ` set (indicators s))"
    by (simp add: s' enter_execution_def)
  have r: "running s' = (a, \<lfloor>ex_clock s\<rfloor>) # running s" by (simp add: s' enter_execution_def)
  have d: "distinct (map fst (indicators s'))" using assms(1) by (simp add: s' enter_execution_def indicators_ok_def)
  have "\<forall>(b, t) \<in> set (running s'). CHR '':'' \<notin> set b" using assms(1,3) Enters by (simp add: r indicators_ok_def)
  moreover have "\<exists>(b, t) \<in> set (running s'). k = execution_indicator_key b (str_int t)" if "k \<in> fst ` set (indicators s')" for k
  proof (cases "k = execution_indicator_key a (str_int \<lfloor>ex_clock s\<rfloor>)")
    case False
    then show ?thesis using that assms(1) unfolding keys r indicators_ok_def by auto
  qed (simp add: r)
  ultimately show ?thesis using d unfolding indicators_ok_def by blast
next
  case (Leaves a t)
  then have s': "s' = leave_execution a t s" using assms(2) by (auto split: if_splits)
  have "distinct (map fst (indicators s'))" using assms(1) by (simp add: s' leave_execution_def indicators_ok_def distinct_map_filter)
  moreover have "\<forall>(b, u) \<in> set (running s'). CHR '':'' \<notin> set b"
    using assms(1) by (auto simp: s' leave_execution_def indicators_ok_def dest: notin_set_remove1)
  moreover have "\<exists>(b, u) \<in> set (running s'). k = execution_indicator_key b (str_int u)" if "k \<in> fst ` set (indicators s')" for k
  proof -
    have k: "k \<in> fst ` set (indicators s)" "k \<noteq> execution_indicator_key a (str_int t)"
      using that by (auto simp: s' leave_execution_def)
    then obtain b u where b: "(b, u) \<in> set (running s)" "k = execution_indicator_key b (str_int u)"
      using assms(1) unfolding indicators_ok_def by blast
    then have "(b, u) \<noteq> (a, t)" using k(2) by auto
    then have "(b, u) \<in> set (running s')" using b(1) by (simp add: s' leave_execution_def in_set_remove1)
    then show ?thesis using b(2) by blast
  qed
  ultimately show ?thesis unfolding indicators_ok_def by blast
next
  case (Passes d)
  then have "s' = s\<lparr>ex_clock := ex_clock s + d\<rparr>" using assms(2) by (simp split: if_splits)
  then show ?thesis using assms(1) by (simp add: indicators_ok_def)
qed

interpretation execution: machine execution_step execution_run
  by unfold_locales simp_all

lemma indicators_ok_run:
  assumes "indicators_ok s" "execution_run es s = Some s'" "\<forall>a. Enters a \<in> set es \<longrightarrow> CHR '':'' \<notin> set a"
  shows "indicators_ok s'"
  by (rule execution.run_invariant [of indicators_ok "{e. \<forall>a. e = Enters a \<longrightarrow> CHR '':'' \<notin> set a}", OF _ assms(1) _ assms(2)])
     (use assms(3) indicators_ok_step in auto)

subsection \<open>Properties\<close>

text \<open>
  The count never exceeds the number of executions of the action that run. It may be smaller: the key of an execution that lasts longer than the expiration is
  gone, and executions of one action that start in the same second share a key, which the first of them to end deletes.
\<close>

theorem in_execution_never_overcounts:
  assumes "execution_run es (no_executions now) = Some s" "\<forall>b. Enters b \<in> set es \<longrightarrow> CHR '':'' \<notin> set b" "CHR '':'' \<notin> set a"
  shows "get_in_execution_count a s \<le> length (filter (\<lambda>(b, t). b = a) (running s))"
proof -
  have ok: "indicators_ok s" using indicators_ok_run [OF _ assms(1,2)] by (simp add: indicators_ok_def no_executions_def)
  let ?ks = "filter (\<lambda>(k, e). ex_clock s < e \<and> py_startswith k (execution_indicator_key a [])) (indicators s)"
  let ?rs = "filter (\<lambda>(b, t). b = a) (running s)"
  have "fst ` set ?ks \<subseteq> (\<lambda>(b, t). execution_indicator_key b (str_int t)) ` set ?rs"
  proof
    fix k assume "k \<in> fst ` set ?ks"
    then have k: "k \<in> fst ` set (indicators s)" "py_startswith k (execution_indicator_key a [])" by auto
    then obtain b t where b: "(b, t) \<in> set (running s)" "k = execution_indicator_key b (str_int t)"
      using ok unfolding indicators_ok_def by blast
    moreover have "b = a" using key_of_other_action [of b "str_int t" a] k(2) b ok assms(3) by (auto simp: indicators_ok_def)
    ultimately show "k \<in> (\<lambda>(b, t). execution_indicator_key b (str_int t)) ` set ?rs" by force
  qed
  then have "card (fst ` set ?ks) \<le> length ?rs"
    by (meson card_image_le card_length card_mono finite_imageI finite_set le_trans)
  moreover have "distinct (map fst ?ks)" using ok by (simp add: indicators_ok_def distinct_map_filter)
  ultimately show ?thesis unfolding get_in_execution_count_def by (metis distinct_card length_map set_map)
qed

theorem in_execution_never_overcounts_witness:
  "get_in_execution_count ''report'' (the (execution_run [Enters ''report'', Passes 2, Enters ''report''] (no_executions 0))) \<le> 2"
proof -
  define s where "s = the (execution_run [Enters ''report'', Passes 2, Enters ''report''] (no_executions 0))"
  have "execution_run [Enters ''report'', Passes 2, Enters ''report''] (no_executions 0) = Some s"
    "length (filter (\<lambda>(b, t). b = ''report'') (running s)) = 2"
    unfolding s_def by code_simp+
  then show ?thesis unfolding s_def [symmetric]
    using in_execution_never_overcounts [of "[Enters ''report'', Passes 2, Enters ''report'']" 0 s "''report''"] by simp
qed

lemma same_second_executions_hidden:
  "map_option (\<lambda>s. (get_in_execution_count ''report'' s, length (running s)))
     (execution_run [Enters ''report'', Enters ''report'', Leaves ''report'' 7] (no_executions 7)) = Some (0, 1)"
  by code_simp

end
