(* ===== verification/Context_Vars.thy ===== *)
theory Context_Vars
  imports Unit_Of_Work Delayed_Store
begin

section \<open>Context variables\<close>

text \<open>
  The ambient values of a transaction: the context variables of \<^verbatim>\<open>microservice.py\<close>, \<^verbatim>\<open>reflect/metadata.py\<close>,
  \<^verbatim>\<open>messagebus/bus_message_controller.py\<close>, \<^verbatim>\<open>messagebus/implicit_headers.py\<close>, \<^verbatim>\<open>presentation/decorators.py\<close>, \<^verbatim>\<open>presentation/websocket/context.py\<close> and
  \<^verbatim>\<open>observability/decorators.py\<close>, with the context managers that set them and the functions that read them.

  A context of Python's \<^verbatim>\<open>contextvars\<close> maps each variable to a value or to nothing; a task runs in a copy of the context of its creator.
  \<open>ContextVar.set\<close> gives a token with the context and the old value, and \<open>ContextVar.reset\<close> raises \<open>ValueError\<close> in another context. The
  code resets a token once. Objects are their identities.
\<close>

subsection \<open>Transactions\<close>

datatype transaction_data =
    SchedulerTransactionData (task_name: string) (triggered_at: int) (scheduled_to: int) (cron_expression: string)
      (sched_wait: rat)
  | HttpTransactionData (http_request: nat) (http_response: nat)
  | MessageBusTransactionData (bus_topic: string) (bus_message: nat) (bus_message_type: string) (bus_message_id: "string option")
      (processing_attempt: int) (bus_wait: rat)
  | WebSocketTransactionData (ws_socket: nat)

fun context_type :: "transaction_data \<Rightarrow> string" where
  "context_type (SchedulerTransactionData n t u c w) = ''scheduler''"
| "context_type (HttpTransactionData q p) = ''http''"
| "context_type (MessageBusTransactionData t m ty i a w) = ''message_bus''"
| "context_type (WebSocketTransactionData w) = ''websocket''"

record app_transaction_context =
  tx_data :: transaction_data
  tx_member :: string

datatype app_type = HTTP | WORKER | BEAT

record instantiation_node =
  property_name :: string
  source_type :: "string option"
  target_type :: "string option"

subsection \<open>Contexts, variables and tokens\<close>

record vars =
  app_context :: "app_transaction_context option"
  metadata_context :: "metadata option"
  current_container :: "nat option"
  shutdown_state :: "nat option"
  app_type_ctx :: "app_type option"
  instantiation_vector :: "instantiation_node list option"
  controller_member :: "string option"
  ws_conn_manager :: "nat option"
  ws_msg_sender :: "nat option"
  bus_controller :: "nat option"
  implicit_headers :: "headers option"
  tracing_ctx_provider :: "nat option"

definition no_vars :: vars where
  "no_vars = \<lparr>app_context = None, metadata_context = None, current_container = None, shutdown_state = None, app_type_ctx = None,
     instantiation_vector = None, controller_member = None, ws_conn_manager = None, ws_msg_sender = None,
     bus_controller = None, implicit_headers = None, tracing_ctx_provider = None\<rparr>"

record 'a cvar =
  cv_name :: string
  cv_get :: "vars \<Rightarrow> 'a option"
  cv_put :: "'a option \<Rightarrow> vars \<Rightarrow> vars"

text \<open>What is seen by all contexts: the shutdown states that were asked to shut down, and what the program has read and called.\<close>

datatype bus_op = BusAck | BusNack | BusReject | BusRetry | BusRetryLater int

datatype seen =
    SawContext app_transaction_context | SawData transaction_data | SawContainer nat | SawShutdown bool | SawType app_type
  | SawMember string | SawManager nat | SawSender nat | SawTracing "nat option" | SawMetadata "metadata"
  | SawValue pyval | SawHeaders headers | Settled nat bus_op

record shared =
  requested :: "nat set"
  seen_log :: "seen list"

record ctx_state = shared +
  current :: nat
  contexts :: "nat \<Rightarrow> vars"
  next_context :: nat

record 'a token =
  tk_context :: nat
  tk_old :: "'a option"

definition cur :: "ctx_state \<Rightarrow> vars" where
  "cur s = contexts s (current s)"

definition put_cur :: "vars \<Rightarrow> ctx_state \<Rightarrow> ctx_state" where
  "put_cur c s = s\<lparr>contexts := (contexts s)(current s := c)\<rparr>"

definition var_get :: "'a cvar \<Rightarrow> ctx_state \<Rightarrow> 'a result" where
  "var_get V s = (case cv_get V (cur s) of Some v \<Rightarrow> Inr v | None \<Rightarrow> Inl (Exc LookupError (cv_name V)))"

definition var_set :: "'a cvar \<Rightarrow> 'a \<Rightarrow> ctx_state \<Rightarrow> 'a token \<times> ctx_state" where
  "var_set V v s = (\<lparr>tk_context = current s, tk_old = cv_get V (cur s)\<rparr>, put_cur (cv_put V (Some v) (cur s)) s)"

definition var_reset :: "'a cvar \<Rightarrow> 'a token \<Rightarrow> ctx_state \<Rightarrow> exc option \<times> ctx_state" where
  "var_reset V t s =
     (if tk_context t \<noteq> current s then (Some (Exc ValueError ''token was created in a different Context''), s)
      else (None, put_cur (cv_put V (tk_old t) (cur s)) s))"

type_synonym body = "ctx_state \<Rightarrow> exc option \<times> ctx_state"

text \<open>
  \<open>token = var.set(v)\<close>, \<open>try: yield\<close>, \<open>finally: with suppress(...): var.reset(token)\<close>. The first argument says which exceptions of the reset are
  suppressed.
\<close>

definition with_var :: "(exc \<Rightarrow> bool) \<Rightarrow> 'a cvar \<Rightarrow> 'a \<Rightarrow> body \<Rightarrow> body" where
  "with_var suppressed V v b s =
     (let (t, s1) = var_set V v s; (r, s2) = b s1; (q, s3) = var_reset V t s2
      in (case q of None \<Rightarrow> (r, s3) | Some e \<Rightarrow> (if suppressed e then r else Some e, s3)))"

definition value_error :: "exc \<Rightarrow> bool" where
  "value_error e = (exc_cls e = ValueError)"

definition lookup_error :: "exc \<Rightarrow> bool" where
  "lookup_error e = (exc_cls e \<in> {LookupError, KeyError, IndexError})"

definition nothing :: "exc \<Rightarrow> bool" where
  "nothing e = False"

subsection \<open>The variables\<close>

definition app_transaction_context_var :: "app_transaction_context cvar" where
  "app_transaction_context_var = \<lparr>cv_name = ''app_context'', cv_get = app_context, cv_put = (\<lambda>v c. c\<lparr>app_context := v\<rparr>)\<rparr>"

definition metadata_context_var :: "metadata cvar" where
  "metadata_context_var = \<lparr>cv_name = ''metadata_context'', cv_get = metadata_context, cv_put = (\<lambda>v c. c\<lparr>metadata_context := v\<rparr>)\<rparr>"

definition current_container_ctx :: "nat cvar" where
  "current_container_ctx = \<lparr>cv_name = ''current_container'', cv_get = current_container, cv_put = (\<lambda>v c. c\<lparr>current_container := v\<rparr>)\<rparr>"

definition shutdown_state_ctx :: "nat cvar" where
  "shutdown_state_ctx = \<lparr>cv_name = ''shutdown_state'', cv_get = shutdown_state, cv_put = (\<lambda>v c. c\<lparr>shutdown_state := v\<rparr>)\<rparr>"

definition app_type_var :: "app_type cvar" where
  "app_type_var = \<lparr>cv_name = ''app_type'', cv_get = app_type_ctx, cv_put = (\<lambda>v c. c\<lparr>app_type_ctx := v\<rparr>)\<rparr>"

definition instantiation_vector_ctxvar :: "instantiation_node list cvar" where
  "instantiation_vector_ctxvar =
     \<lparr>cv_name = ''instantiation_vector'', cv_get = instantiation_vector, cv_put = (\<lambda>v c. c\<lparr>instantiation_vector := v\<rparr>)\<rparr>"

definition controller_member_ctxvar :: "string cvar" where
  "controller_member_ctxvar =
     \<lparr>cv_name = ''controller_member_ctxvar'', cv_get = controller_member, cv_put = (\<lambda>v c. c\<lparr>controller_member := v\<rparr>)\<rparr>"

definition ws_conn_manager_ctx :: "nat cvar" where
  "ws_conn_manager_ctx = \<lparr>cv_name = ''ws_manage_ctx'', cv_get = ws_conn_manager, cv_put = (\<lambda>v c. c\<lparr>ws_conn_manager := v\<rparr>)\<rparr>"

definition ws_msg_sender_ctx :: "nat cvar" where
  "ws_msg_sender_ctx = \<lparr>cv_name = ''ws_msg_sender_ctx'', cv_get = ws_msg_sender, cv_put = (\<lambda>v c. c\<lparr>ws_msg_sender := v\<rparr>)\<rparr>"

definition bus_message_controller_ctxvar :: "nat cvar" where
  "bus_message_controller_ctxvar =
     \<lparr>cv_name = ''bus_message_controller'', cv_get = bus_controller, cv_put = (\<lambda>v c. c\<lparr>bus_controller := v\<rparr>)\<rparr>"

definition implicit_headers_ctx :: "headers cvar" where
  "implicit_headers_ctx =
     \<lparr>cv_name = ''implicit_headers_ctx'', cv_get = implicit_headers, cv_put = (\<lambda>v c. c\<lparr>implicit_headers := v\<rparr>)\<rparr>"

definition tracing_ctx_provider_ctxv :: "nat cvar" where
  "tracing_ctx_provider_ctxv =
     \<lparr>cv_name = ''tracing_ctx_provider'', cv_get = tracing_ctx_provider, cv_put = (\<lambda>v c. c\<lparr>tracing_ctx_provider := v\<rparr>)\<rparr>"

subsection \<open>The context managers\<close>

definition provide_app_context :: "app_transaction_context \<Rightarrow> body \<Rightarrow> body" where
  "provide_app_context = with_var value_error app_transaction_context_var"

definition provide_container :: "nat \<Rightarrow> body \<Rightarrow> body" where
  "provide_container = with_var value_error current_container_ctx"

definition provide_shutdown_state :: "nat \<Rightarrow> body \<Rightarrow> body" where
  "provide_shutdown_state = with_var value_error shutdown_state_ctx"

definition providing_app_type :: "app_type \<Rightarrow> body \<Rightarrow> body" where
  "providing_app_type = with_var value_error app_type_var"

definition span_instantiation_vector :: "instantiation_node \<Rightarrow> body \<Rightarrow> body" where
  "span_instantiation_vector node b s =
     with_var value_error instantiation_vector_ctxvar (case_option [] id (instantiation_vector (cur s)) @ [node]) b s"

definition providing_controller_member :: "string \<Rightarrow> body \<Rightarrow> body" where
  "providing_controller_member = with_var nothing controller_member_ctxvar"

definition provide_ws_manager :: "nat \<Rightarrow> body \<Rightarrow> body" where
  "provide_ws_manager = with_var value_error ws_conn_manager_ctx"

definition provide_ws_message_sender :: "nat \<Rightarrow> body \<Rightarrow> body" where
  "provide_ws_message_sender = with_var value_error ws_msg_sender_ctx"

definition provide_bus_message_controller :: "nat \<Rightarrow> body \<Rightarrow> body" where
  "provide_bus_message_controller = with_var lookup_error bus_message_controller_ctxvar"

definition use_implicit_headers :: "ctx_state \<Rightarrow> headers" where
  "use_implicit_headers s = case_option [] id (implicit_headers (cur s))"

definition provide_implicit_headers :: "bool \<Rightarrow> headers \<Rightarrow> body \<Rightarrow> body" where
  "provide_implicit_headers reset hs b s =
     with_var nothing implicit_headers_ctx (dict_update (if \<not> reset then use_implicit_headers s else []) hs) b s"

definition provide_tracing_ctx_provider :: "nat \<Rightarrow> body \<Rightarrow> body" where
  "provide_tracing_ctx_provider = with_var value_error tracing_ctx_provider_ctxv"

definition get_all_metadata :: "ctx_state \<Rightarrow> metadata" where
  "get_all_metadata s = case_option [] id (metadata_context (cur s))"

definition get_metadata :: "string \<Rightarrow> ctx_state \<Rightarrow> tx_meta option" where
  "get_metadata key s = map_of (get_all_metadata s) key"

definition metadata_value :: "string \<Rightarrow> pyval \<Rightarrow> ctx_state \<Rightarrow> pyval" where
  "metadata_value key dflt s = (case get_metadata key s of None \<Rightarrow> dflt | Some m \<Rightarrow> tm_value m)"

definition start_transaction_metadata_context :: "metadata \<Rightarrow> body \<Rightarrow> body" where
  "start_transaction_metadata_context md b s =
     with_var value_error metadata_context_var (dict_update (get_all_metadata s) md) b s"

definition start_providing_metadata :: "(string \<times> pyval) list \<Rightarrow> body \<Rightarrow> body" where
  "start_providing_metadata kwargs =
     start_transaction_metadata_context (map (\<lambda>(k, v). (k, \<lparr>tm_value = v, tm_inherited = False\<rparr>)) kwargs)"

text \<open>\<open>wraps_with_member_data\<close>: the member is provided around every call of the function.\<close>

definition wraps_with_member_data :: "string \<Rightarrow> ('a \<Rightarrow> body) \<Rightarrow> 'a \<Rightarrow> body" where
  "wraps_with_member_data member f args = providing_controller_member member (f args)"

text \<open>
  \<open>wraps_with_attributes\<close> on a function given by its attributes and its body: \<open>functools.wraps\<close> copies the attributes of the
  function, then each keyword is set on the wrapper.
\<close>

definition wraps_with_attributes :: "(string \<times> pyval) list \<times> ('a \<Rightarrow> 'b) \<Rightarrow> (string \<times> pyval) list \<Rightarrow> (string \<times> pyval) list \<times> ('a \<Rightarrow> 'b)" where
  "wraps_with_attributes f attributes = (dict_update (fst f) attributes, \<lambda>args. snd f args)"

subsection \<open>Reading the context\<close>

definition use_app_transaction_context :: "ctx_state \<Rightarrow> app_transaction_context result" where
  "use_app_transaction_context = var_get app_transaction_context_var"

definition use_app_tx_ctx_data :: "ctx_state \<Rightarrow> transaction_data result" where
  "use_app_tx_ctx_data s = map_sum id tx_data (use_app_transaction_context s)"

definition use_current_container :: "ctx_state \<Rightarrow> nat result" where
  "use_current_container = var_get current_container_ctx"

definition is_shutting_down :: "ctx_state \<Rightarrow> bool result" where
  "is_shutting_down s = map_sum id (\<lambda>state. state \<in> requested s) (var_get shutdown_state_ctx s)"

definition request_shutdown :: "ctx_state \<Rightarrow> exc option \<times> ctx_state" where
  "request_shutdown s =
     (case var_get shutdown_state_ctx s of
        Inl e \<Rightarrow> (Some e, s)
      | Inr state \<Rightarrow> (None, s\<lparr>requested := insert state (requested s)\<rparr>))"

definition use_app_type :: "ctx_state \<Rightarrow> app_type result" where
  "use_app_type = var_get app_type_var"

definition use_controller_member :: "ctx_state \<Rightarrow> string result" where
  "use_controller_member = var_get controller_member_ctxvar"

definition use_ws_manager :: "ctx_state \<Rightarrow> nat result" where
  "use_ws_manager s =
     (case var_get ws_conn_manager_ctx s of
        Inl e \<Rightarrow> Inl (Exc RuntimeError ''No WebSocketConnectionManager found'') | Inr m \<Rightarrow> Inr m)"

definition use_ws_message_sender :: "ctx_state \<Rightarrow> nat result" where
  "use_ws_message_sender s =
     (case var_get ws_msg_sender_ctx s of
        Inl e \<Rightarrow> Inl (Exc RuntimeError ''No WebSocketMessageSender found'') | Inr m \<Rightarrow> Inr m)"

definition use_bus_message_controller :: "ctx_state \<Rightarrow> nat result" where
  "use_bus_message_controller = var_get bus_message_controller_ctxvar"

definition get_tracing_ctx_provider :: "ctx_state \<Rightarrow> nat option" where
  "get_tracing_ctx_provider s = tracing_ctx_provider (cur s)"

text \<open>
  \<open>ack\<close>, \<open>nack\<close>, \<open>reject\<close>, \<open>retry\<close> and \<open>retry_later\<close>: the operation is called on the controller of the context. What the controller
  raises is an argument.
\<close>

definition settle :: "bus_op \<Rightarrow> exc option \<Rightarrow> ctx_state \<Rightarrow> exc option \<times> ctx_state" where
  "settle op outcome s =
     (case use_bus_message_controller s of
        Inl e \<Rightarrow> (Some e, s)
      | Inr c \<Rightarrow> (outcome, s\<lparr>seen_log := seen_log s @ [Settled c op]\<rparr>))"

subsection \<open>Programs over the context\<close>

datatype use =
    UseContext | UseData | UseContainer | UseShutdown | UseType | UseMember | UseManager | UseSender | UseTracing
  | UseMetadata | UseValue string pyval | UseHeaders

fun do_use :: "use \<Rightarrow> ctx_state \<Rightarrow> seen result" where
  "do_use UseContext s = map_sum id SawContext (use_app_transaction_context s)"
| "do_use UseData s = map_sum id SawData (use_app_tx_ctx_data s)"
| "do_use UseContainer s = map_sum id SawContainer (use_current_container s)"
| "do_use UseShutdown s = map_sum id SawShutdown (is_shutting_down s)"
| "do_use UseType s = map_sum id SawType (use_app_type s)"
| "do_use UseMember s = map_sum id SawMember (use_controller_member s)"
| "do_use UseManager s = map_sum id SawManager (use_ws_manager s)"
| "do_use UseSender s = map_sum id SawSender (use_ws_message_sender s)"
| "do_use UseTracing s = Inr (SawTracing (get_tracing_ctx_provider s))"
| "do_use UseMetadata s = Inr (SawMetadata (get_all_metadata s))"
| "do_use (UseValue k d) s = Inr (SawValue (metadata_value k d s))"
| "do_use UseHeaders s = Inr (SawHeaders (use_implicit_headers s))"

datatype provision =
    AppContext app_transaction_context | AContainer nat | AShutdown nat | AType app_type | ANode instantiation_node
  | AMember string | AManager nat | ASender nat | AController nat | ATracing nat | AMetadata metadata
  | AKwargs "(string \<times> pyval) list" | AHeaders bool headers

fun provide :: "provision \<Rightarrow> body \<Rightarrow> body" where
  "provide (AppContext a) = provide_app_context a"
| "provide (AContainer c) = provide_container c"
| "provide (AShutdown x) = provide_shutdown_state x"
| "provide (AType t) = providing_app_type t"
| "provide (ANode n) = span_instantiation_vector n"
| "provide (AMember m) = providing_controller_member m"
| "provide (AManager m) = provide_ws_manager m"
| "provide (ASender m) = provide_ws_message_sender m"
| "provide (AController c) = provide_bus_message_controller c"
| "provide (ATracing t) = provide_tracing_ctx_provider t"
| "provide (AMetadata md) = start_transaction_metadata_context md"
| "provide (AKwargs kw) = start_providing_metadata kw"
| "provide (AHeaders reset hs) = provide_implicit_headers reset hs"

text \<open>
  A program reads the context, enters context managers, creates tasks and settles the message. A task runs to its end where it is
  created; what it raises stays in the task.
\<close>

datatype prog =
    Done | Fail exc | Use use prog | With provision prog prog | Task prog prog | Settle bus_op "exc option" prog
  | AskShutdown prog

definition in_task :: "body \<Rightarrow> ctx_state \<Rightarrow> ctx_state" where
  "in_task b s =
     (snd (b (s\<lparr>current := next_context s, contexts := (contexts s)(next_context s := cur s),
                next_context := Suc (next_context s)\<rparr>)))\<lparr>current := current s\<rparr>"

definition then_run :: "body \<Rightarrow> exc option \<times> ctx_state \<Rightarrow> exc option \<times> ctx_state" where
  "then_run b p = (case p of (None, s) \<Rightarrow> b s | (Some e, s) \<Rightarrow> (Some e, s))"

primrec exec :: "prog \<Rightarrow> body" where
  "exec Done = (\<lambda>s. (None, s))"
| "exec (Fail e) = (\<lambda>s. (Some e, s))"
| "exec (Use u q) = (\<lambda>s. case do_use u s of
     Inl e \<Rightarrow> (Some e, s) | Inr v \<Rightarrow> exec q (s\<lparr>seen_log := seen_log s @ [v]\<rparr>))"
| "exec (With p b q) = (\<lambda>s. then_run (exec q) (provide p (exec b) s))"
| "exec (Task b q) = (\<lambda>s. exec q (in_task (exec b) s))"
| "exec (Settle op out q) = (\<lambda>s. then_run (exec q) (settle op out s))"
| "exec (AskShutdown q) = (\<lambda>s. then_run (exec q) (request_shutdown s))"

subsection \<open>A reference with lexical environments\<close>

text \<open>
  The same programs without tokens and contexts: a context manager binds its value in the environment of its body, and a task
  starts with the environment of its creator.
\<close>

fun bind :: "provision \<Rightarrow> vars \<Rightarrow> vars" where
  "bind (AppContext a) c = c\<lparr>app_context := Some a\<rparr>"
| "bind (AContainer x) c = c\<lparr>current_container := Some x\<rparr>"
| "bind (AShutdown x) c = c\<lparr>shutdown_state := Some x\<rparr>"
| "bind (AType t) c = c\<lparr>app_type_ctx := Some t\<rparr>"
| "bind (ANode n) c = c\<lparr>instantiation_vector := Some (case_option [] id (instantiation_vector c) @ [n])\<rparr>"
| "bind (AMember m) c = c\<lparr>controller_member := Some m\<rparr>"
| "bind (AManager m) c = c\<lparr>ws_conn_manager := Some m\<rparr>"
| "bind (ASender m) c = c\<lparr>ws_msg_sender := Some m\<rparr>"
| "bind (AController x) c = c\<lparr>bus_controller := Some x\<rparr>"
| "bind (ATracing t) c = c\<lparr>tracing_ctx_provider := Some t\<rparr>"
| "bind (AMetadata md) c = c\<lparr>metadata_context := Some (dict_update (case_option [] id (metadata_context c)) md)\<rparr>"
| "bind (AKwargs kw) c = c\<lparr>metadata_context := Some (dict_update (case_option [] id (metadata_context c))
     (map (\<lambda>(k, v). (k, \<lparr>tm_value = v, tm_inherited = False\<rparr>)) kw))\<rparr>"
| "bind (AHeaders reset hs) c = c\<lparr>implicit_headers :=
     Some (dict_update (if \<not> reset then case_option [] id (implicit_headers c) else []) hs)\<rparr>"

definition alone :: "vars \<Rightarrow> shared \<Rightarrow> ctx_state" where
  "alone c h = \<lparr>requested = requested h, seen_log = seen_log h, current = 0, contexts = (\<lambda>_. c), next_context = 1\<rparr>"

definition keep_on :: "(shared \<Rightarrow> exc option \<times> shared) \<Rightarrow> exc option \<times> shared \<Rightarrow> exc option \<times> shared" where
  "keep_on b p = (case p of (None, h) \<Rightarrow> b h | (Some e, h) \<Rightarrow> (Some e, h))"

primrec lexical :: "prog \<Rightarrow> vars \<Rightarrow> shared \<Rightarrow> exc option \<times> shared" where
  "lexical Done = (\<lambda>c h. (None, h))"
| "lexical (Fail e) = (\<lambda>c h. (Some e, h))"
| "lexical (Use u q) = (\<lambda>c h. case do_use u (alone c h) of
     Inl e \<Rightarrow> (Some e, h) | Inr v \<Rightarrow> lexical q c (h\<lparr>seen_log := seen_log h @ [v]\<rparr>))"
| "lexical (With p b q) = (\<lambda>c h. keep_on (lexical q c) (lexical b (bind p c) h))"
| "lexical (Task b q) = (\<lambda>c h. lexical q c (snd (lexical b c h)))"
| "lexical (Settle op out q) = (\<lambda>c h. case bus_controller c of
     None \<Rightarrow> (Some (Exc LookupError ''bus_message_controller''), h)
   | Some x \<Rightarrow> keep_on (lexical q c) (out, h\<lparr>seen_log := seen_log h @ [Settled x op]\<rparr>))"
| "lexical (AskShutdown q) = (\<lambda>c h. case shutdown_state c of
     None \<Rightarrow> (Some (Exc LookupError ''shutdown_state''), h)
   | Some x \<Rightarrow> lexical q c (h\<lparr>requested := insert x (requested h)\<rparr>))"

subsection \<open>The contract of a variable\<close>

locale context_variable =
  fixes V :: "'a cvar"
  assumes get_put: "cv_get V (cv_put V x c) = x"
    and put_get: "cv_put V (cv_get V c) c = c"
    and put_put: "cv_put V x (cv_put V y c) = cv_put V x c"
begin

lemma put_back: "cv_put V (cv_get V c) (cv_put V x c) = c"
  by (simp add: put_put put_get)

lemma read_back: "var_get V (snd (var_set V v s)) = Inr v"
  by (simp add: var_get_def var_set_def put_cur_def cur_def get_put)

lemma with_var_outcome:
  assumes "b (put_cur (cv_put V (Some v) (cur s)) s) = (r, s2)" "current s2 = current s"
    "cur s2 = cv_put V (Some v) (cur s)"
  shows "with_var suppressed V v b s = (r, put_cur (cur s) s2)"
  using assms by (simp add: with_var_def var_set_def var_reset_def put_back)

lemma with_var_elsewhere:
  "current (snd (b (put_cur (cv_put V (Some v) (cur s)) s))) \<noteq> current s \<Longrightarrow>
   with_var suppressed V v b s =
    (if suppressed (Exc ValueError ''token was created in a different Context'') then fst (b (put_cur (cv_put V (Some v) (cur s)) s))
     else Some (Exc ValueError ''token was created in a different Context''), snd (b (put_cur (cv_put V (Some v) (cur s)) s)))"
  by (auto simp: with_var_def var_set_def var_reset_def split: prod.split)

end

named_theorems var_defs \<open>the context variables\<close>

declare app_transaction_context_var_def [var_defs] metadata_context_var_def [var_defs] current_container_ctx_def [var_defs]
  shutdown_state_ctx_def [var_defs] app_type_var_def [var_defs] instantiation_vector_ctxvar_def [var_defs]
  controller_member_ctxvar_def [var_defs] ws_conn_manager_ctx_def [var_defs] ws_msg_sender_ctx_def [var_defs]
  bus_message_controller_ctxvar_def [var_defs] implicit_headers_ctx_def [var_defs] tracing_ctx_provider_ctxv_def [var_defs]

interpretation app_context: context_variable app_transaction_context_var
  by unfold_locales (simp_all add: var_defs)

interpretation metadata: context_variable metadata_context_var
  by unfold_locales (simp_all add: var_defs)

interpretation current_container: context_variable current_container_ctx
  by unfold_locales (simp_all add: var_defs)

interpretation shutdown_state: context_variable shutdown_state_ctx
  by unfold_locales (simp_all add: var_defs)

interpretation app_type: context_variable app_type_var
  by unfold_locales (simp_all add: var_defs)

interpretation node_vector: context_variable instantiation_vector_ctxvar
  by unfold_locales (simp_all add: var_defs)

interpretation member: context_variable controller_member_ctxvar
  by unfold_locales (simp_all add: var_defs)

interpretation ws_manager: context_variable ws_conn_manager_ctx
  by unfold_locales (simp_all add: var_defs)

interpretation ws_sender: context_variable ws_msg_sender_ctx
  by unfold_locales (simp_all add: var_defs)

interpretation bus: context_variable bus_message_controller_ctxvar
  by unfold_locales (simp_all add: var_defs)

interpretation headers: context_variable implicit_headers_ctx
  by unfold_locales (simp_all add: var_defs)

interpretation tracing: context_variable tracing_ctx_provider_ctxv
  by unfold_locales (simp_all add: var_defs)

lemma cv_puts:
  "cv_put app_transaction_context_var x c = c\<lparr>app_context := x\<rparr>" "cv_put metadata_context_var md c = c\<lparr>metadata_context := md\<rparr>"
  "cv_put current_container_ctx i c = c\<lparr>current_container := i\<rparr>" "cv_put shutdown_state_ctx i c = c\<lparr>shutdown_state := i\<rparr>"
  "cv_put app_type_var t c = c\<lparr>app_type_ctx := t\<rparr>" "cv_put instantiation_vector_ctxvar n c = c\<lparr>instantiation_vector := n\<rparr>"
  "cv_put controller_member_ctxvar m c = c\<lparr>controller_member := m\<rparr>" "cv_put ws_conn_manager_ctx i c = c\<lparr>ws_conn_manager := i\<rparr>"
  "cv_put ws_msg_sender_ctx i c = c\<lparr>ws_msg_sender := i\<rparr>" "cv_put bus_message_controller_ctxvar i c = c\<lparr>bus_controller := i\<rparr>"
  "cv_put implicit_headers_ctx h c = c\<lparr>implicit_headers := h\<rparr>"
  "cv_put tracing_ctx_provider_ctxv i c = c\<lparr>tracing_ctx_provider := i\<rparr>"
  by (simp_all add: var_defs)

lemmas with_var_outcomes = app_context.with_var_outcome metadata.with_var_outcome current_container.with_var_outcome
  shutdown_state.with_var_outcome app_type.with_var_outcome node_vector.with_var_outcome member.with_var_outcome
  ws_manager.with_var_outcome ws_sender.with_var_outcome bus.with_var_outcome headers.with_var_outcome tracing.with_var_outcome

lemmas with_var_elsewheres = app_context.with_var_elsewhere metadata.with_var_elsewhere current_container.with_var_elsewhere
  shutdown_state.with_var_elsewhere app_type.with_var_elsewhere node_vector.with_var_elsewhere member.with_var_elsewhere
  ws_manager.with_var_elsewhere ws_sender.with_var_elsewhere bus.with_var_elsewhere headers.with_var_elsewhere tracing.with_var_elsewhere

lemmas provide_defs = provide_app_context_def provide_container_def provide_shutdown_state_def providing_app_type_def
  span_instantiation_vector_def providing_controller_member_def provide_ws_manager_def provide_ws_message_sender_def
  provide_bus_message_controller_def provide_tracing_ctx_provider_def start_transaction_metadata_context_def
  start_providing_metadata_def get_all_metadata_def provide_implicit_headers_def use_implicit_headers_def

text \<open>Every context manager binds its variable for the body and puts the context back, when the body ends in the same context.\<close>

lemma provide_restores:
  assumes "b (put_cur (bind p (cur s)) s) = (r, s2)" "current s2 = current s" "cur s2 = bind p (cur s)"
  shows "provide p b s = (r, put_cur (cur s) s2)"
  using assms
  by (cases p) (auto simp: provide_defs intro!: with_var_outcomes, simp_all add: var_defs)

subsection \<open>Programs\<close>

lemma do_use_local: "do_use u s = do_use u (alone (cur s) (shared.truncate s))"
  by (cases u) (simp_all add: use_app_transaction_context_def use_app_tx_ctx_data_def use_current_container_def is_shutting_down_def
      use_app_type_def use_controller_member_def use_ws_manager_def use_ws_message_sender_def get_tracing_ctx_provider_def
      metadata_value_def get_metadata_def get_all_metadata_def use_implicit_headers_def var_get_def alone_def shared.truncate_def, simp_all add: cur_def)

lemma cur_simps [simp]:
  "cur (put_cur c s) = c" "current (put_cur c s) = current s" "next_context (put_cur c s) = next_context s"
  "shared.truncate (put_cur c s) = shared.truncate s"
  "cur (s\<lparr>seen_log := l\<rparr>) = cur s" "cur (s\<lparr>requested := q\<rparr>) = cur s"
  "requested (put_cur c s) = requested s" "seen_log (put_cur c s) = seen_log s"
  "shared.truncate (s\<lparr>seen_log := l\<rparr>) = (shared.truncate s)\<lparr>seen_log := l\<rparr>"
  "shared.truncate (s\<lparr>requested := q\<rparr>) = (shared.truncate s)\<lparr>requested := q\<rparr>"
  "requested (shared.truncate s) = requested s" "seen_log (shared.truncate s) = seen_log s"
  by (simp_all add: cur_def put_cur_def shared.truncate_def)

text \<open>What a program may change: what is shared, and contexts that did not exist before.\<close>

definition local_to :: "ctx_state \<Rightarrow> ctx_state \<Rightarrow> bool" where
  "local_to s s' = (current s' = current s \<and> next_context s \<le> next_context s'
     \<and> (\<forall>i < next_context s. contexts s' i = contexts s i))"

lemma local_to_refl [simp]: "local_to s s"
  by (simp add: local_to_def)

lemma local_to_trans: "local_to s t \<Longrightarrow> local_to t u \<Longrightarrow> local_to s u"
  by (auto simp: local_to_def)

lemma local_to_cur: "local_to s t \<Longrightarrow> current s < next_context s \<Longrightarrow> cur t = cur s"
  by (auto simp: local_to_def cur_def)

lemma local_to_seen: "local_to (s\<lparr>seen_log := l\<rparr>) t = local_to s t" "local_to (s\<lparr>requested := q\<rparr>) t = local_to s t"
  "local_to s (t\<lparr>seen_log := l\<rparr>) = local_to s t" "local_to s (t\<lparr>requested := q\<rparr>) = local_to s t"
  by (simp_all add: local_to_def)

text \<open>The relation between the run of a program and its reference.\<close>

definition agrees :: "prog \<Rightarrow> ctx_state \<Rightarrow> bool" where
  "agrees p s = (local_to s (snd (exec p s))
     \<and> lexical p (cur s) (shared.truncate s) = (fst (exec p s), shared.truncate (snd (exec p s))))"

lemma then_run_agrees:
  assumes "local_to s t" "current s < next_context s" "\<And>t. current t < next_context t \<Longrightarrow> agrees q t"
  shows "local_to s (snd (then_run (exec q) (r, t)))
    \<and> keep_on (lexical q (cur s)) (r, shared.truncate t) =
        (fst (then_run (exec q) (r, t)), shared.truncate (snd (then_run (exec q) (r, t))))"
proof (cases r)
  case None
  have "current t < next_context t" using assms(1,2) by (auto simp: local_to_def)
  from assms(3) [OF this] have "agrees q t" .
  then show ?thesis using None local_to_cur [OF assms(1,2)] local_to_trans [OF assms(1)]
    by (auto simp: agrees_def then_run_def keep_on_def split: prod.splits)
qed (use assms(1) in \<open>simp add: then_run_def keep_on_def\<close>)

lemma provide_agrees:
  assumes "current s < next_context s" "agrees b (put_cur (bind p (cur s)) s)"
  shows "\<exists>r t. provide p (exec b) s = (r, t) \<and> local_to s t
    \<and> lexical b (bind p (cur s)) (shared.truncate s) = (r, shared.truncate t)"
proof -
  obtain r s2 where e: "exec b (put_cur (bind p (cur s)) s) = (r, s2)" by fastforce
  then have l: "local_to (put_cur (bind p (cur s)) s) s2"
    "lexical b (bind p (cur s)) (shared.truncate s) = (r, shared.truncate s2)"
    using assms(2) by (auto simp: agrees_def)
  have "cur s2 = bind p (cur s)" "current s2 = current s"
    using local_to_cur [OF l(1)] l(1) assms(1) by (auto simp: local_to_def)
  with e have "provide p (exec b) s = (r, put_cur (cur s) s2)" by (intro provide_restores)
  moreover have "local_to s (put_cur (cur s) s2)"
    using l(1) by (auto simp: local_to_def put_cur_def cur_def)
  ultimately show ?thesis using l(2) by auto
qed

lemma in_task_agrees:
  assumes "current s < next_context s" "\<And>t. current t < next_context t \<Longrightarrow> agrees b t"
  shows "local_to s (in_task (exec b) s)
    \<and> snd (lexical b (cur s) (shared.truncate s)) = shared.truncate (in_task (exec b) s)"
proof -
  let ?s = "s\<lparr>current := next_context s, contexts := (contexts s)(next_context s := cur s), next_context := Suc (next_context s)\<rparr>"
  have "agrees b ?s" using assms(2) by simp
  moreover have "cur ?s = cur s" "shared.truncate ?s = shared.truncate s" by (simp_all add: cur_def shared.truncate_def)
  ultimately show ?thesis using assms(1)
    by (auto simp: agrees_def in_task_def local_to_def shared.truncate_def split: prod.splits)
qed

lemma agrees_all: "current s < next_context s \<Longrightarrow> agrees p s"
proof (induction p arbitrary: s)
  case (Use u q)
  show ?case
  proof (cases "do_use u s")
    case (Inr v)
    have "agrees q (s\<lparr>seen_log := seen_log s @ [v]\<rparr>)" using Use by simp
    then show ?thesis using Inr do_use_local [of u s] by (auto simp: agrees_def local_to_seen)
  qed (use do_use_local [of u s] in \<open>simp add: agrees_def\<close>)
next
  case (With p b q)
  obtain r t where "provide p (exec b) s = (r, t)" "local_to s t"
    "lexical b (bind p (cur s)) (shared.truncate s) = (r, shared.truncate t)"
    using provide_agrees [of s b p] With by force
  then show ?case using then_run_agrees [of s t q r] With by (simp add: agrees_def split: prod.split)
next
  case (Task b q)
  let ?t = "in_task (exec b) s"
  have t: "local_to s ?t" "snd (lexical b (cur s) (shared.truncate s)) = shared.truncate ?t"
    using in_task_agrees [of s b] Task by auto
  moreover have "agrees q ?t" using Task t(1) by (auto simp: local_to_def)
  ultimately show ?case using local_to_cur [OF t(1)] local_to_trans [OF t(1)] Task.prems
    by (auto simp: agrees_def)
next
  case (Settle op out q)
  then show ?case
  proof (cases "bus_controller (cur s)")
    case (Some c)
    let ?t = "s\<lparr>seen_log := seen_log s @ [Settled c op]\<rparr>"
    show ?thesis using then_run_agrees [of s ?t q out] Settle Some
      by (simp add: agrees_def settle_def use_bus_message_controller_def var_get_def var_defs local_to_seen split: prod.split)
  qed (simp add: agrees_def settle_def use_bus_message_controller_def var_get_def var_defs then_run_def)
next
  case (AskShutdown q)
  then show ?case
  proof (cases "shutdown_state (cur s)")
    case (Some x)
    have "agrees q (s\<lparr>requested := insert x (requested s)\<rparr>)" using AskShutdown by simp
    then show ?thesis using Some
      by (auto simp: agrees_def request_shutdown_def var_get_def var_defs local_to_seen then_run_def)
  qed (simp add: agrees_def request_shutdown_def var_get_def var_defs then_run_def)
qed (simp_all add: agrees_def)

subsection \<open>Properties\<close>

text \<open>
  (C18) Context variables behave as lexical bindings: whatever a program does with the context managers, tasks and exceptions, it reads
  and calls what the reference with environments says, ends as the reference ends, and leaves every existing context as it was.
\<close>

theorem context_is_lexical:
  assumes "current s < next_context s" and "exec p s = (r, s')"
  shows "lexical p (cur s) (shared.truncate s) = (r, shared.truncate s')
    \<and> current s' = current s \<and> (\<forall>i < next_context s. contexts s' i = contexts s i)"
  using agrees_all [OF assms(1), of p] assms(2) by (simp add: agrees_def local_to_def)

definition start_state :: ctx_state where
  "start_state = \<lparr>requested = {}, seen_log = [], current = 0, contexts = (\<lambda>_. no_vars), next_context = 1\<rparr>"

text \<open>A task that provides another container and fails; the creator still reads its own.\<close>

definition sample_prog :: prog where
  "sample_prog = With (AContainer 1) (Task (With (AContainer 2) (Use UseContainer (Fail (Exc ValueError ''x''))) Done)
     (Use UseContainer Done)) (Use UseContainer Done)"

theorem context_is_lexical_witness:
  "lexical sample_prog no_vars \<lparr>requested = {}, seen_log = []\<rparr> =
     (Some (Exc LookupError ''current_container''), \<lparr>requested = {}, seen_log = [SawContainer 2, SawContainer 1]\<rparr>)
   \<and> cur (snd (exec sample_prog start_state)) = no_vars"
proof -
  obtain r s' where e: "exec sample_prog start_state = (r, s')" by fastforce
  have "cur s' = no_vars"
    using context_is_lexical [OF _ e] by (simp add: start_state_def cur_def)
  then have "cur (snd (exec sample_prog start_state)) = no_vars" using e by simp
  moreover have "cur (alone c h) = c" for c h by (simp add: alone_def cur_def)
  then have "lexical sample_prog no_vars \<lparr>requested = {}, seen_log = []\<rparr> =
     (Some (Exc LookupError ''current_container''), \<lparr>requested = {}, seen_log = [SawContainer 2, SawContainer 1]\<rparr>)"
    by (simp add: sample_prog_def keep_on_def use_current_container_def var_get_def var_defs no_vars_def)
  ultimately show ?thesis by blast
qed

text \<open>
  When the block of a context manager ends in another context (a generator closed by another task), the context managers that
  suppress \<open>ValueError\<close> end as the block ended; those of the message controller, which suppresses \<open>LookupError\<close>, and of the controller
  member and the implicit headers, which suppress nothing, end with the \<open>ValueError\<close> of the token in place of the outcome of the block.
\<close>

theorem context_closed_elsewhere:
  assumes "b (put_cur (bind p (cur s)) s) = (r, t)" and "current t \<noteq> current s"
  shows "provide p b s =
    (case p of AController c \<Rightarrow> Some (Exc ValueError ''token was created in a different Context'')
     | AMember m \<Rightarrow> Some (Exc ValueError ''token was created in a different Context'')
     | AHeaders q hs \<Rightarrow> Some (Exc ValueError ''token was created in a different Context'') | _ \<Rightarrow> r, t)"
  using assms
  by (cases p) (simp_all add: provide_defs with_var_elsewheres cv_puts value_error_def lookup_error_def nothing_def split: if_splits)

theorem context_closed_elsewhere_witness:
  "fst (provide (AController 7) (\<lambda>s. (None, s\<lparr>current := 3\<rparr>)) start_state) =
     Some (Exc ValueError ''token was created in a different Context'')
   \<and> fst (provide (AContainer 7) (\<lambda>s. (None, s\<lparr>current := 3\<rparr>)) start_state) = None"
proof -
  let ?b = "\<lambda>s. (None, s\<lparr>current := 3\<rparr>)"
  have "current ((put_cur c start_state)\<lparr>current := 3\<rparr>) \<noteq> current start_state" for c
    by (simp add: start_state_def)
  from context_closed_elsewhere [of ?b "AController 7" start_state, OF refl this]
    context_closed_elsewhere [of ?b "AContainer 7" start_state, OF refl this]
  show ?thesis by (simp only: provision.case fst_conv simp_thms)
qed

end
