(* ===== verification/Ws_Routes.thy ===== *)
theory Ws_Routes
  imports Http_Server Context_Vars
begin

section \<open>The routes of the web socket interceptor\<close>

text \<open>
  \<open>WebSocketInterceptor.get_ws_router\<close> of \<^verbatim>\<open>presentation/websocket/websocket_interceptor.py\<close>: a router with the web socket endpoints of the controllers,
  beside the routers the controllers themselves give (\<^verbatim>\<open>presentation/decorators.py\<close>), and what becomes of a connection to its routes.
\<close>

datatype route_dep = InterceptDep pyval | InjectedDep string

record ws_route =
  wr_path :: string
  wr_name :: string
  wr_instance :: pyval        \<comment> \<open>the controller whose method is the endpoint\<close>
  wr_attributes :: "(string \<times> pyval) list"   \<comment> \<open>the attributes of the endpoint\<close>
  wr_dependencies :: "route_dep list"

text \<open>\<open>inspect.getmembers_static\<close>: the names are the sorted names of the functions of the class.\<close>

definition members_static :: "hierarchy \<Rightarrow> (string \<Rightarrow> string list) \<Rightarrow> string \<Rightarrow> (string \<times> string) list" where
  "members_static H names c = List.map_filter (\<lambda>n. map_option (Pair n) (find_method H c n)) (names c)"

definition own_middlewares :: "hierarchy \<Rightarrow> route_decorator decorated \<Rightarrow> string \<Rightarrow> string list" where
  "own_middlewares H D f = middleware_types (concat (map as_dependency (get H D key_middleware (Fun f))))"

fun injected :: "dependency list \<Rightarrow> string list" where
  "injected [] = []"
| "injected (Intercept m # ds) = injected ds"
| "injected (Injected d # ds) = d # injected ds"

definition own_injected :: "hierarchy \<Rightarrow> route_decorator decorated \<Rightarrow> string \<Rightarrow> string list" where
  "own_injected H D f = injected (concat (map as_dependency (get H D key_dependency (Fun f))))"

text \<open>The path of a route; \<open>rest\<close> is \<open>RestController.get_last\<close>.\<close>

definition final_path :: "rest_controller option \<Rightarrow> route_decorator \<Rightarrow> string" where
  "final_path rest ws_endpoint = (case rest of Some rc \<Rightarrow> rc_path rc @ rd_path ws_endpoint | None \<Rightarrow> rd_path ws_endpoint)"

fun ws_members :: "resolver \<Rightarrow> hierarchy \<Rightarrow> route_decorator decorated \<Rightarrow> (string \<Rightarrow> (string \<times> pyval) list) \<Rightarrow> rest_controller option \<Rightarrow> pyval \<Rightarrow>
   (string \<times> string) list \<Rightarrow> cst \<Rightarrow> ws_route list result \<times> cst" where
  "ws_members resolve H D attrs rest controller [] s = (Inr [], s)"
| "ws_members resolve H D attrs rest controller ((name, f) # ms) s =
     (case get_last H D key_ws (Fun f) of
        None \<Rightarrow> ws_members resolve H D attrs rest controller ms s
      | Some ws_endpoint \<Rightarrow>
          (case resolve_types resolve (own_middlewares H D f) s of
             (Inl e, s1) \<Rightarrow> (Inl e, s1)
           | (Inr vs, s1) \<Rightarrow>
               (case ws_members resolve H D attrs rest controller ms s1 of
                  (Inl e, s2) \<Rightarrow> (Inl e, s2)
                | (Inr rs, s2) \<Rightarrow>
                    (Inr (\<lparr>wr_path = final_path rest ws_endpoint, wr_name = name, wr_instance = controller, wr_attributes = attrs f,
                           wr_dependencies = map InterceptDep vs @ map InjectedDep (own_injected H D f)\<rparr> # rs), s2))))"

fun get_ws_router :: "resolver \<Rightarrow> hierarchy \<Rightarrow> route_decorator decorated \<Rightarrow> (string \<Rightarrow> (string \<times> pyval) list) \<Rightarrow> (string \<Rightarrow> rest_controller option) \<Rightarrow>
   (string \<Rightarrow> string list) \<Rightarrow> string list \<Rightarrow> cst \<Rightarrow> ws_route list result \<times> cst" where
  "get_ws_router resolve H D attrs rest names [] s = (Inr [], s)"
| "get_ws_router resolve H D attrs rest names (c # cs) s =
     (case resolve (KType c) s of
        (Inl e, s1) \<Rightarrow> (Inl e, s1)
      | (Inr controller, s1) \<Rightarrow>
          (case ws_members resolve H D attrs (rest c) controller (members_static H names c) s1 of
             (Inl e, s2) \<Rightarrow> (Inl e, s2)
           | (Inr rs, s2) \<Rightarrow>
               (case get_ws_router resolve H D attrs rest names cs s2 of
                  (Inl e, s3) \<Rightarrow> (Inl e, s3)
                | (Inr rs', s3) \<Rightarrow> (Inr (rs @ rs'), s3))))"

text \<open>\<open>getattr(endpoint, "controller_member_reflect", None)\<close>; \<open>reflects\<close> tells the metadata of the objects that are reflections of members.\<close>

definition endpoint_member_of :: "(nat \<rightharpoonup> Unit_Of_Work.metadata) \<Rightarrow> (string \<times> pyval) list \<Rightarrow> endpoint_member" where
  "endpoint_member_of reflects attributes =
     (case map_of attributes ''controller_member_reflect'' of
        None \<Rightarrow> NoMember
      | Some VNone \<Rightarrow> NoMember
      | Some (VObject i) \<Rightarrow> (case reflects i of Some md \<Rightarrow> Member md | None \<Rightarrow> NotAReflect)
      | Some v \<Rightarrow> NotAReflect)"

text \<open>The endpoint a controller's own router registers: the method wrapped with its reflection.\<close>

definition factory_endpoint :: "nat \<Rightarrow> (string \<times> pyval) list \<times> (http_vars \<Rightarrow> exc option \<times> http_vars) \<Rightarrow> (string \<times> pyval) list \<times> (http_vars \<Rightarrow> exc option \<times> http_vars)" where
  "factory_endpoint member instance_method = wraps_with_attributes instance_method [(''controller_member_reflect'', VObject member)]"

text \<open>A connection to an endpoint below the dependency of the unit of work.\<close>

definition connect_ws ::
  "bool \<Rightarrow> nat \<Rightarrow> http_vars interceptor list \<Rightarrow> (nat \<rightharpoonup> Unit_Of_Work.metadata) \<Rightarrow> (string \<times> pyval) list \<times> (http_vars \<Rightarrow> exc option \<times> http_vars) \<Rightarrow>
   http_vars \<Rightarrow> exc option \<times> http_vars" where
  "connect_ws flag state interceptors reflects endpoint =
     http_dependency flag state interceptors False True (endpoint_member_of reflects (fst endpoint)) (snd endpoint)"

subsection \<open>Lemmas\<close>

definition bound_to :: "cst \<Rightarrow> string \<Rightarrow> pyval" where
  "bound_to s t = (case map_of (instances_map s) (KType t) of Some v \<Rightarrow> v | None \<Rightarrow> VNone)"

lemma keeps_bound_to: "keeps_bindings s s' \<Longrightarrow> map_of (instances_map s) (KType t) = Some v \<Longrightarrow> bound_to s' t = v"
  by (simp add: bound_to_def keeps_bound)

lemma resolve_bound_to:
  assumes "acyclic_by rank E" "get_or_register_token_or_type n E (KType t) s = (Inr v, s1)" "keeps_bindings s1 s'"
  shows "bound_to s' t = v"
  using keeps_bound_to [OF assms(3)] resolve_keeps(2) [OF assms(1,2)] by blast

lemma resolve_types_bound:
  assumes "acyclic_by rank E" "resolve_types (get_or_register_token_or_type n E) ts s = (Inr vs, s1)" "keeps_bindings s1 s'"
  shows "vs = map (bound_to s') ts"
  using assms(2)
proof (induction ts arbitrary: s vs)
  case (Cons t ts)
  obtain q s0 where q: "get_or_register_token_or_type n E (KType t) s = (q, s0)" by fastforce
  obtain v where v: "q = Inr v" using Cons.prems q by (cases q) auto
  obtain p s2 where p: "resolve_types (get_or_register_token_or_type n E) ts s0 = (p, s2)" by fastforce
  obtain ws where ws: "p = Inr ws" using Cons.prems q v p by (cases p) auto
  have e: "vs = v # ws" "s2 = s1" using Cons.prems q v p ws by auto
  have "keeps_bindings s0 s'" using resolve_types_keeps [OF assms(1) p] e keeps_bindings_trans [OF _ assms(3)] by blast
  then show ?case using Cons.IH [of s0 ws] resolve_bound_to [OF assms(1) q [unfolded v]] p ws e by simp
qed simp

text \<open>The routes as a table: one for each function that is itself decorated as an endpoint, with the decorators of that function.\<close>

definition ws_table :: "hierarchy \<Rightarrow> route_decorator decorated \<Rightarrow> (string \<Rightarrow> (string \<times> pyval) list) \<Rightarrow> rest_controller option \<Rightarrow> (string \<Rightarrow> pyval) \<Rightarrow> pyval \<Rightarrow>
    (string \<times> string) list \<Rightarrow> ws_route list" where
  "ws_table H D attrs rest instances controller =
     List.map_filter (\<lambda>(name, f). map_option (\<lambda>ws_endpoint.
        \<lparr>wr_path = final_path rest ws_endpoint, wr_name = name, wr_instance = controller, wr_attributes = attrs f,
         wr_dependencies = map (\<lambda>m. InterceptDep (instances m)) (own_middlewares H D f) @ map InjectedDep (own_injected H D f)\<rparr>)
       (get_last H D key_ws (Fun f)))"

lemma ws_members_run:
  assumes "acyclic_by rank E" "ws_members (get_or_register_token_or_type n E) H D attrs rest controller ms s = (r, s1)"
  shows "keeps_bindings s s1 \<and> (\<forall>rs s'. r = Inr rs \<longrightarrow> keeps_bindings s1 s' \<longrightarrow> rs = ws_table H D attrs rest (bound_to s') controller ms)"
  using assms(2)
proof (induction ms arbitrary: s r s1)
  case (Cons nf ms)
  let ?get = "get_or_register_token_or_type n E"
  obtain name f where nf: "nf = (name, f)" by fastforce
  show ?case
  proof (cases "get_last H D key_ws (Fun f)")
    case None
    then show ?thesis using Cons nf by (simp add: ws_table_def List.map_filter_simps)
  next
    case (Some w)
    obtain q s2 where q: "resolve_types ?get (own_middlewares H D f) s = (q, s2)" by fastforce
    note k = resolve_types_keeps [OF assms(1) q]
    show ?thesis
    proof (cases q)
      case (Inl e)
      then show ?thesis using Cons.prems nf Some q k by auto
    next
      case (Inr vs)
      obtain p s3 where p: "ws_members ?get H D attrs rest controller ms s2 = (p, s3)" by fastforce
      note IH = Cons.IH [OF p]
      have s3: "s3 = s1" using Cons.prems nf Some q Inr p by (cases p) auto
      have r: "r = (case p of Inl e \<Rightarrow> Inl e | Inr rs \<Rightarrow> Inr (\<lparr>wr_path = final_path rest w, wr_name = name, wr_instance = controller,
            wr_attributes = attrs f, wr_dependencies = map InterceptDep vs @ map InjectedDep (own_injected H D f)\<rparr> # rs))"
        using Cons.prems nf Some q Inr p by (cases p) auto
      have "vs = map (bound_to s') (own_middlewares H D f)" if "keeps_bindings s1 s'" for s'
        using resolve_types_bound [OF assms(1) q [unfolded Inr]] IH s3 that keeps_bindings_trans by blast
      then show ?thesis using IH s3 r k nf Some keeps_bindings_trans
        by (auto simp: ws_table_def List.map_filter_simps split: sum.splits)
    qed
  qed
qed (simp add: ws_table_def List.map_filter_simps)

lemma get_ws_router_run:
  assumes "acyclic_by rank E" "get_ws_router (get_or_register_token_or_type n E) H D attrs rest names cs s = (r, s1)"
  shows "keeps_bindings s s1 \<and> (\<forall>rs s'. r = Inr rs \<longrightarrow> keeps_bindings s1 s' \<longrightarrow>
    rs = concat (map (\<lambda>c. ws_table H D attrs (rest c) (bound_to s') (bound_to s' c) (members_static H names c)) cs))"
  using assms(2)
proof (induction cs arbitrary: s r s1)
  case (Cons c cs)
  let ?get = "get_or_register_token_or_type n E"
  obtain q s2 where q: "?get (KType c) s = (q, s2)" by fastforce
  have k: "keeps_bindings s s2" using resolve_keeps(1) [OF assms(1) q] by (simp add: keeps_bindings_def)
  show ?case
  proof (cases q)
    case (Inl e)
    then show ?thesis using Cons.prems q k by auto
  next
    case (Inr v)
    obtain p s3 where p: "ws_members ?get H D attrs (rest c) v (members_static H names c) s2 = (p, s3)" by fastforce
    note run = ws_members_run [OF assms(1) p]
    show ?thesis
    proof (cases p)
      case (Inl e)
      then show ?thesis using Cons.prems q Inr p k run keeps_bindings_trans by auto
    next
      case (Inr rs)
      obtain u s4 where u: "get_ws_router ?get H D attrs rest names cs s3 = (u, s4)" by fastforce
      note IH = Cons.IH [OF u]
      have s4: "s4 = s1" using Cons.prems q \<open>q = Inr v\<close> p Inr u by (cases u) auto
      have r: "r = (case u of Inl e \<Rightarrow> Inl e | Inr rs' \<Rightarrow> Inr (rs @ rs'))"
        using Cons.prems q \<open>q = Inr v\<close> p Inr u by (cases u) auto
      have "bound_to s' c = v \<and> rs = ws_table H D attrs (rest c) (bound_to s') v (members_static H names c)"
        if "keeps_bindings s1 s'" for s'
      proof -
        have "keeps_bindings s3 s'" using IH s4 that keeps_bindings_trans by blast
        then show ?thesis
          using run Inr resolve_bound_to [OF assms(1) q [unfolded \<open>q = Inr v\<close>], of s'] keeps_bindings_trans by blast
      qed
      moreover have "keeps_bindings s s1"
        using k run IH keeps_bindings_trans unfolding s4 by blast
      ultimately show ?thesis using IH r unfolding s4 by (cases u) simp_all
    qed
  qed
qed simp

subsection \<open>Properties\<close>

text \<open>
  The web socket router holds one route for each method of each controller that is decorated as an endpoint itself, in the order of the controllers and
  of the sorted names, with the path of the controller in front; each route has the middlewares and dependencies of its method only. What is
  declared for the whole controller, an authentication middleware for instance, is on none of them.
\<close>

theorem ws_router_ignores_class_dependencies:
  assumes "acyclic_by rank E"
    and "get_ws_router (get_or_register_token_or_type n E) H D attrs rest names controllers s = (Inr rs, s')"
  shows "rs = concat (map (\<lambda>c. ws_table H D attrs (rest c) (bound_to s') (bound_to s' c) (members_static H names c)) controllers)"
  using get_ws_router_run [OF assms] keeps_bindings_refl by blast

definition chat_hierarchy :: hierarchy where
  "chat_hierarchy = \<lparr>mro = (\<lambda>c. [c]), own_methods = (\<lambda>c. [''live'' \<mapsto> ''Chat.live''])\<rparr>"

definition chat_decorated :: "route_decorator decorated" where
  "chat_decorated = register key_ws (WebSocketEndpoint ''/live'' 1) (Fun ''Chat.live'')
     (register key_middleware (UseMiddleware ''Auth'') (Cls ''Chat'') Map.empty)"

definition chat_controller :: rest_controller where
  "chat_controller = \<lparr>rc_path = ''/chat'', rc_middlewares = [], class_inherits_decorators = True, methods_inherit_decorators = True\<rparr>"

definition chat_router :: "ws_route list result \<times> cst" where
  "chat_router = get_ws_router (get_or_register_token_or_type 1 auth_classes) chat_hierarchy chat_decorated (\<lambda>_. []) (\<lambda>_. Some chat_controller)
     (\<lambda>_. [''live'']) [''Chat''] \<lparr>instances_map = [], built = []\<rparr>"

lemmas chat_eval = chat_hierarchy_def chat_decorated_def register_def get_or_set_metadata_def own_def chat_controller_def

lemma chat_router_ok: "\<not> isl (fst chat_router)" "map wr_attributes (projr (fst chat_router)) = [[]]"
  unfolding chat_router_def by code_simp+

theorem ws_router_ignores_class_dependencies_witness:
  "fst chat_router = Inr [\<lparr>wr_path = ''/chat/live'', wr_name = ''live'', wr_instance = VStr ''Chat'', wr_attributes = [], wr_dependencies = []\<rparr>]
   \<and> class_dependencies chat_hierarchy chat_decorated chat_controller ''Chat'' = [Intercept ''Auth'']"
proof -
  have a: "acyclic_by (\<lambda>k. 0) auth_classes" by (simp add: acyclic_by_def parse_dependencies_def auth_classes_def)
  obtain rs where rs: "chat_router = (Inr rs, snd chat_router)" using chat_router_ok by (metis prod.collapse sum.collapse(2))
  have b: "bound_to (snd chat_router) ''Chat'' = VStr ''Chat''" unfolding chat_router_def by code_simp
  note eq = ws_router_ignores_class_dependencies [OF a rs [unfolded chat_router_def]]
  show ?thesis
    using eq [folded chat_router_def] arg_cong [OF rs, of fst] b
    by (simp add: ws_table_def members_static_def find_method_def List.map_filter_simps chat_eval get_last_def own_middlewares_def own_injected_def
        final_path_def class_dependencies_def resolve_class_decorators_def Decorators.get_def Decorators.get_metadata_def lookup_order_def)
qed

text \<open>
  Below the dependency of the unit of work an endpoint that the web socket router registered is never run: the bare method has no
  reflection of its member, so the connection ends with \<^verbatim>\<open>ValueError\<close> and nothing is touched. The same method in the router of its
  controller is wrapped with its reflection and runs in the unit of work.
\<close>

theorem ws_router_endpoint_never_runs:
  assumes "get_ws_router resolve H D attrs rest names controllers s = (Inr rs, s')" and "route \<in> set rs"
    and "\<forall>f. map_of (attrs f) ''controller_member_reflect'' = None" and "reflects member = Some md"
  shows "connect_ws flag state interceptors reflects (wr_attributes route, body) t =
      (Some (Exc ValueError ''The endpoint does not have a controller member reflect.''), t)
    \<and> connect_ws flag state interceptors reflects (factory_endpoint member (wr_attributes route, body)) t =
      http_dependency flag state interceptors False True (Member md) body t"
proof -
  have members: "ws_members resolve H D attrs rc c ms u = (Inr rs', u') \<Longrightarrow> \<forall>r \<in> set rs'. \<exists>f. wr_attributes r = attrs f"
    for rc c ms u rs' u'
    by (induction ms arbitrary: u rs') (fastforce split: prod.splits sum.splits option.splits)+
  have "get_ws_router resolve H D attrs rest names cs u = (Inr rs', u') \<Longrightarrow> \<forall>r \<in> set rs'. \<exists>f. wr_attributes r = attrs f" for cs u rs' u'
  proof (induction cs arbitrary: u rs')
    case (Cons c cs)
    then show ?case using members by (fastforce split: prod.splits sum.splits)
  qed simp
  then obtain f where "wr_attributes route = attrs f" using assms(1,2) by blast
  then show ?thesis using assms(3,4)
    by (simp add: connect_ws_def endpoint_member_of_def factory_endpoint_def wraps_with_attributes_def http_dependency_def
        dict_update_def)
qed

theorem ws_router_endpoint_never_runs_witness:
  "connect_ws True 0 [] (\<lambda>_. Some []) ([], \<lambda>s. (None, s)) sample_http =
     (Some (Exc ValueError ''The endpoint does not have a controller member reflect.''), sample_http)"
proof -
  obtain rs where "chat_router = (Inr rs, snd chat_router)" "map wr_attributes rs = [[]]"
    using chat_router_ok by (metis prod.collapse sum.collapse(2) sum.sel(2))
  then obtain r where c: "chat_router = (Inr rs, snd chat_router)" "r \<in> set rs" "wr_attributes r = []" by auto
  have "\<forall>f :: string. map_of ([] :: (string \<times> pyval) list) ''controller_member_reflect'' = None" by simp
  from ws_router_endpoint_never_runs [OF c(1) [unfolded chat_router_def] c(2) this, where reflects = "\<lambda>_. Some []" and flag = True
      and state = 0 and interceptors = "[]" and body = "\<lambda>s. (None, s)" and t = sample_http, OF refl] c(3)
  show ?thesis by (simp only:)
qed

end
