(* ===== verification/Ws_Membership.thy ===== *)
theory Ws_Membership
  imports Websocket_Consumers
begin

section \<open>Membership of rooms\<close>

text \<open>
  The connection manager of \<^verbatim>\<open>presentation/websocket/websocket_interceptor.py\<close> against an abstract specification of who is in which room,
  the way of a message from \<open>WebSocketMessage.send\<close> through the backend to the managers of all processes, and the receive helpers of
  \<^verbatim>\<open>presentation/websocket/utils.py\<close>.
\<close>

subsection \<open>Specification\<close>

record membership =
  in_room :: "(string \<times> nat) set"
  opened :: "nat set"

datatype room_op = Join "string list" nat | Add nat | Remove nat | Send "string list" string | Broadcast string

definition drop_sockets :: "nat set \<Rightarrow> membership \<Rightarrow> membership" where
  "drop_sockets D a = a\<lparr>in_room := {(r, w) \<in> in_room a. w \<notin> D}, opened := opened a - D\<rparr>"

text \<open>
  A message goes to distinct addressees; those it was not sent to leave everything, and some of the others may. The third argument lists the sends.
\<close>

inductive member_step :: "membership \<Rightarrow> room_op \<Rightarrow> (nat \<times> string) list \<Rightarrow> membership \<Rightarrow> bool" where
  join: "member_step a (Join rs w) [] (a\<lparr>in_room := in_room a \<union> set rs \<times> {w}\<rparr>)"
| add: "member_step a (Add w) [] (a\<lparr>opened := insert w (opened a)\<rparr>)"
| remove: "member_step a (Remove w) [] (drop_sockets {w} a)"
| send: "distinct ts \<Longrightarrow> set ts \<union> D = in_room a `` set rs \<Longrightarrow>
    member_step a (Send rs msg) (map (\<lambda>t. (t, msg)) ts) (drop_sockets D a)"
| broadcast: "distinct ts \<Longrightarrow> set ts \<union> D = opened a \<Longrightarrow>
    member_step a (Broadcast msg) (map (\<lambda>t. (t, msg)) ts) (drop_sockets D a)"

inductive member_run :: "membership \<Rightarrow> room_op list \<Rightarrow> (nat \<times> string) list \<Rightarrow> membership \<Rightarrow> bool" where
  stop: "member_run a [] [] a"
| more: "member_step a x out a1 \<Longrightarrow> member_run a1 xs outs a2 \<Longrightarrow> member_run a (x # xs) (out @ outs) a2"

subsection \<open>The manager\<close>

fun run_op :: "room_op \<Rightarrow> manager \<times> ws_world \<Rightarrow> exc option \<times> manager \<times> ws_world" where
  "run_op (Join rs w) s = (None, join rs w (fst s), snd s)"
| "run_op (Add w) s = (None, add_websocket w (fst s), snd s)"
| "run_op (Remove w) s = (None, remove_websocket w (fst s), snd s)"
| "run_op (Send rs msg) s = send_from_backend rs msg s"
| "run_op (Broadcast msg) s = broadcast_from_backend msg s"

fun run_ops :: "room_op list \<Rightarrow> manager \<times> ws_world \<Rightarrow> exc option \<times> manager \<times> ws_world" where
  "run_ops [] s = (None, s)"
| "run_ops (x # xs) s = (case run_op x s of (Some e, s1) \<Rightarrow> (Some e, s1) | (None, s1) \<Rightarrow> run_ops xs s1)"

definition abs_manager :: "manager \<Rightarrow> membership" where
  "abs_manager m = \<lparr>in_room = {(r, w). w \<in> set (members_of m r)}, opened = set (all_websockets m)\<rparr>"

text \<open>The lists that stand for Python sets have no repeated elements.\<close>

definition proper :: "manager \<Rightarrow> bool" where
  "proper m = distinct (all_websockets m)"

subsection \<open>From a message to the sockets of all processes\<close>

text \<open>
  \<open>WebSocketMessage.send\<close> and the manager's \<open>send\<close>: the message goes to the sender of the context, wrapped with its id; \<open>dump\<close> is the JSON
  encoding of pydantic. The publish of Redis may fail; the exception is logged and raised again.
\<close>

definition manager_send :: "(string \<Rightarrow> 'm \<Rightarrow> string) \<Rightarrow> string list \<Rightarrow> string \<times> 'm \<Rightarrow> string list \<times> string" where
  "manager_send dump rs msg = (rs, dump (fst msg) (snd msg))"

text \<open>What Redis published is received by the consumer of every process, decoded, and given to the manager there.\<close>

definition receive_send :: "string \<Rightarrow> manager \<times> ws_world \<Rightarrow> exc option \<times> manager \<times> ws_world" where
  "receive_send data s =
     (case send_decode data of Inl e \<Rightarrow> (Some e, s) | Inr (rs, message) \<Rightarrow> send_from_backend rs message s)"

definition cluster_send :: "string \<Rightarrow> string list \<Rightarrow> string \<Rightarrow> (string \<times> string, exc option) world \<Rightarrow> (manager \<times> ws_world) list \<Rightarrow>
    exc option \<times> (exc option \<times> manager \<times> ws_world) list" where
  "cluster_send channel rs message w processes =
     (case backend_send channel rs message w of
        (Some e, w1) \<Rightarrow> (Some e, map (\<lambda>s. (None, s)) processes)
      | (None, w1) \<Rightarrow> (None, map (receive_send (snd (last (calls w1)))) processes))"

subsection \<open>Receive helpers\<close>

datatype ws_state = CONNECTING | CONNECTED | DISCONNECTED

record socket =
  application_state :: ws_state
  client_state :: ws_state

definition connected :: "socket \<Rightarrow> bool" where
  "connected x = (application_state x = CONNECTED \<and> client_state x = CONNECTED)"

definition abnormal_closure :: nat where
  "abnormal_closure = 1006"

definition raise_if_dropped :: "socket \<Rightarrow> exc option" where
  "raise_if_dropped x =
     (if application_state x = DISCONNECTED \<or> client_state x = DISCONNECTED then Some (Exc WebSocketDisconnect ''1006'') else None)"

text \<open>
  \<open>receive_ws_text\<close>, \<open>receive_ws_bytes\<close> and \<open>receive_ws_json\<close>; \<open>receive\<close> is the method of starlette, called on a socket.
\<close>

definition receive_ws :: "(socket \<Rightarrow> 'a result) \<Rightarrow> socket \<Rightarrow> 'a result" where
  "receive_ws receive x = (case raise_if_dropped x of Some e \<Rightarrow> Inl e | None \<Rightarrow> receive x)"

subsection \<open>Lemmas\<close>

lemma members_join: "set (members_of (join rs w m) r) = set (members_of m r) \<union> (if r \<in> set rs then {w} else {})"
  "all_websockets (join rs w m) = all_websockets m"
  by (induction rs arbitrary: m) (auto simp: members_of_def)

lemma distinct_discard: "distinct xs \<Longrightarrow> distinct (discard x xs)"
  by (simp add: discard_def)

lemma proper_forget: "proper m \<Longrightarrow> proper (forget ss m)"
proof -
  have "distinct (all_websockets (fold forget_one ss m))" if "distinct (all_websockets m)"
    using that by (induction ss arbitrary: m) (simp_all add: forget_one_def distinct_discard)
  then show "proper m \<Longrightarrow> proper (forget ss m)" by (simp add: proper_def forget_def)
qed

lemma abs_forget: "abs_manager (forget ss m) = drop_sockets (set ss) (abs_manager m)"
  by (auto simp: abs_manager_def drop_sockets_def forget_sets)

lemma abs_room_targets: "set (room_targets m rs) = in_room (abs_manager m) `` set rs"
  by (auto simp: room_targets abs_manager_def)

text \<open>Every addressee is sent the message or dropped, or both.\<close>

lemma deliver_step:
  assumes "deliver ts msg (m, w) = (None, m', w')" "distinct ts"
  shows "\<exists>us D. distinct us \<and> set us \<union> D = set ts \<and> calls w' = calls w @ map (\<lambda>t. (t, msg)) us \<and> abs_manager m' = drop_sockets D (abs_manager m)
    \<and> (proper m \<longrightarrow> proper m')"
proof -
  obtain dropped where d: "send_all ts msg w = (Inr dropped, w')" "m' = forget dropped m"
    using assms(1) by (auto simp: deliver_def split: prod.splits sum.splits)
  let ?us = "filter (\<lambda>s. is_ws_connected (sockets w s)) ts"
  have run: "calls w' = calls w @ map (\<lambda>t. (t, msg)) ?us" "set dropped = failed_sends ts w"
    using send_all_run [OF d(1)] by auto
  have "failed_sends ts w \<subseteq> set ts"
    by (auto simp: failed_sends_def dest: nth_mem)
  moreover have "set ts - set ?us \<subseteq> failed_sends ts w" by (auto simp: failed_sends_def)
  ultimately have "set ?us \<union> set dropped = set ts" using run(2) by auto
  then show ?thesis using run(1) d(2) abs_forget [of dropped m] proper_forget assms(2) by (intro exI [of _ ?us] exI [of _ "set dropped"]) auto
qed

lemma run_op_step:
  assumes "run_op x (m, w) = (None, m', w')" "proper m"
  shows "\<exists>out. member_step (abs_manager m) x out (abs_manager m') \<and> calls w' = calls w @ out \<and> proper m'"
proof (cases x)
  case (Join rs v)
  have "abs_manager (join rs v m) = (abs_manager m)\<lparr>in_room := in_room (abs_manager m) \<union> set rs \<times> {v}\<rparr>"
    by (auto simp: abs_manager_def members_join split: if_splits)
  then show ?thesis using assms Join member_step.join [of "abs_manager m" rs v] by (auto simp: proper_def members_join)
next
  case (Add v)
  have "abs_manager (add_websocket v m) = (abs_manager m)\<lparr>opened := insert v (opened (abs_manager m))\<rparr>"
    by (simp add: abs_manager_def add_websocket_def members_of_def)
  then show ?thesis using assms Add member_step.add [of "abs_manager m" v] by (auto simp: proper_def add_websocket_def)
next
  case (Remove v)
  have "remove_websocket v m = forget [v] m" by (simp add: remove_websocket_def forget_def)
  then show ?thesis using assms Remove member_step.remove [of "abs_manager m" v] abs_forget [of "[v]" m] proper_forget [of m "[v]"] by auto
next
  case (Send rs msg)
  obtain us D where "distinct us" "set us \<union> D = in_room (abs_manager m) `` set rs" "calls w' = calls w @ map (\<lambda>t. (t, msg)) us"
    "abs_manager m' = drop_sockets D (abs_manager m)" "proper m'"
    using deliver_step [of "room_targets m rs" msg m w m' w'] assms Send room_targets(2) abs_room_targets
    by (auto simp: send_from_backend_def)
  then show ?thesis using Send member_step.send [of us D "abs_manager m" rs msg] by auto
next
  case (Broadcast msg)
  obtain us D where "distinct us" "set us \<union> D = opened (abs_manager m)" "calls w' = calls w @ map (\<lambda>t. (t, msg)) us"
    "abs_manager m' = drop_sockets D (abs_manager m)" "proper m'"
    using deliver_step [of "all_websockets m" msg m w m' w'] assms Broadcast
    by (auto simp: broadcast_from_backend_def proper_def abs_manager_def)
  then show ?thesis using Broadcast member_step.broadcast [of us D "abs_manager m" msg] by auto
qed

subsection \<open>Properties\<close>

text \<open>
  (C19) The connection manager refines the membership specification: whatever sequence of joins, additions, removals, room messages
  and broadcasts it handles, the specification can handle too, with the same sends in the same order, ending in the membership the manager's
  dictionaries stand for.
\<close>

theorem manager_refines_membership:
  assumes "run_ops xs (m, w) = (None, m', w')" and "proper m"
  shows "\<exists>outs. member_run (abs_manager m) xs outs (abs_manager m') \<and> calls w' = calls w @ outs"
  using assms
proof (induction xs arbitrary: m w)
  case Nil
  then show ?case using member_run.stop by auto
next
  case (Cons x xs)
  obtain n u where x: "run_op x (m, w) = (None, n, u)" "run_ops xs (n, u) = (None, m', w')"
    using Cons.prems(1) by (auto split: prod.splits option.splits)
  obtain out where out: "member_step (abs_manager m) x out (abs_manager n)" "calls u = calls w @ out" "proper n"
    using run_op_step [OF x(1) Cons.prems(2)] by blast
  obtain outs where "member_run (abs_manager n) xs outs (abs_manager m')" "calls w' = calls u @ outs"
    using Cons.IH [OF x(2) out(3)] by blast
  then show ?case using member_run.more [OF out(1)] out(2) by auto
qed

theorem manager_refines_membership_witness:
  "\<exists>outs. member_run \<lparr>in_room = {}, opened = {}\<rparr> [Add 1, Join [''lobby''] 1, Send [''lobby''] ''hi''] outs
     \<lparr>in_room = {(''lobby'', 1)}, opened = {1}\<rparr> \<and> outs = [(1, ''hi'')]"
proof -
  let ?w = "\<lparr>calls = [], answers = (\<lambda>_. None), sockets = (\<lambda>_. \<lparr>application_connected = True, client_connected = True\<rparr>)\<rparr>"
  let ?m = "\<lparr>rooms = [], all_websockets = []\<rparr>" and ?n = "\<lparr>rooms = [(''lobby'', [1])], all_websockets = [1]\<rparr>"
  have "run_ops [Add 1, Join [''lobby''] 1, Send [''lobby''] ''hi''] (?m, ?w) = (None, ?n, ?w\<lparr>calls := [(1, ''hi'')]\<rparr>)"
    by (simp add: add_websocket_def set_add_def members_of_def send_from_backend_def room_targets_def deliver_def try_send_def
        is_ws_connected_def do_call_def forget_def)
  from manager_refines_membership [OF this] have "\<exists>outs. member_run (abs_manager ?m) [Add 1, Join [''lobby''] 1, Send [''lobby''] ''hi''] outs (abs_manager ?n)
      \<and> [(1, ''hi'')] = outs" by (simp add: proper_def)
  moreover have "abs_manager ?m = \<lparr>in_room = {}, opened = {}\<rparr>" "abs_manager ?n = \<lparr>in_room = {(''lobby'', 1)}, opened = {1}\<rparr>"
    by (auto simp: abs_manager_def members_of_def split: if_splits)
  ultimately show ?thesis by auto
qed



text \<open>
  A socket the manager has dropped, because its send failed, gives its endpoint a disconnect: the helper raises \<^verbatim>\<open>WebSocketDisconnect\<close> and does not
  call starlette. On a connected socket the helper is the method of starlette.
\<close>

lemma receive_reports_dropped_socket:
  "application_state x = DISCONNECTED \<Longrightarrow> receive_ws receive x = Inl (Exc WebSocketDisconnect ''1006'')"
  "connected x \<Longrightarrow> receive_ws receive x = receive x"
  by (simp_all add: receive_ws_def raise_if_dropped_def connected_def)

end
