(* ===== verification/Beat_Shutdown.thy ===== *)
theory Beat_Shutdown
  imports Beat_Startup App_Settings Worker_Config
begin

section \<open>The life of a beat worker\<close>

text \<open>
  \<open>BeatWorker\<close> of \<^verbatim>\<open>scheduler/beat_worker.py\<close> from its construction to the exit code: the signal handlers, the start, the end of the processing
  loop and the release of the backend, the health monitor and the pools.
\<close>

subsection \<open>Construction and signals\<close>

text \<open>\<open>BeatWorkerConfig\<close> and its defaults. The fields of the pools are not read by the worker.\<close>

record beat_worker_config =
  connection_retry_config :: retry_policy
  dispatch_retry_config :: retry_policy
  connection_heartbeat_interval :: rat
  health_check_interval :: rat
  connection_wait_timeout :: rat
  max_pool_size :: int
  pool_recycle_time :: rat

definition default_beat_config :: beat_worker_config where
  "default_beat_config =
     \<lparr>connection_retry_config = default_connection_policy,
      dispatch_retry_config = \<lparr>max_retries = 3, initial_delay = 1, max_delay = 10, backoff_factor = 2, jitter = True\<rparr>,
      connection_heartbeat_interval = 30, health_check_interval = 15, connection_wait_timeout = 300,
      max_pool_size = 10, pool_recycle_time = 3600\<rparr>"

record beat_worker =
  bw_broker :: dispatcher_choice
  bw_exchange :: string
  bw_backend :: backend_choice
  bw_interval :: int
  bw_names :: "string list option"
  bw_config :: beat_worker_config

text \<open>
  \<open>_RabbitMQBrokerDispatcher.__init__\<close>: the exchange a broker URL names. \<open>split\<close> is \<open>urllib3.util.parse_url\<close>: the scheme, host and
  query, empty where they are missing.
\<close>

definition new_rabbitmq_dispatcher :: "(string \<Rightarrow> string \<times> string \<times> string) \<Rightarrow> (string \<Rightarrow> string) \<Rightarrow> string \<Rightarrow> string result" where
  "new_rabbitmq_dispatcher split unquote url =
     (case split url of (scheme, host, query) \<Rightarrow>
        if scheme \<noteq> ''amqp'' \<and> scheme \<noteq> ''amqps'' then Inl (Exc AssertionError ''Invalid URL scheme'')
        else if host = [] then Inl (Exc AssertionError ''Invalid URL host'')
        else if query = [] then Inl (Exc AssertionError ''Invalid URL query'')
        else (case parse_qs unquote query ''exchange'' of
                [] \<Rightarrow> Inl (Exc AssertionError ''Missing exchange parameter'')
              | exchange # others \<Rightarrow> Inr exchange))"

text \<open>\<open>BeatWorker.__init__\<close>: the dispatcher and the backend are chosen by their URLs.\<close>

definition new_beat_worker ::
  "(string \<Rightarrow> string \<times> string \<times> string) \<Rightarrow> (string \<Rightarrow> string) \<Rightarrow> int \<Rightarrow> string \<Rightarrow> string \<Rightarrow> string list option \<Rightarrow>
   beat_worker_config option \<Rightarrow> beat_worker result" where
  "new_beat_worker split unquote interval broker_url backend_url names config =
     (case get_message_broker_dispatcher_from_url broker_url of
        Inl e \<Rightarrow> Inl e
      | Inr broker \<Rightarrow>
          (case new_rabbitmq_dispatcher split unquote broker_url of
             Inl e \<Rightarrow> Inl e
           | Inr exchange \<Rightarrow>
               (case get_message_broker_backend_from_url backend_url of
                  Inl e \<Rightarrow> Inl e
                | Inr backend \<Rightarrow> Inr \<lparr>bw_broker = broker, bw_exchange = exchange, bw_backend = backend, bw_interval = interval,
                    bw_names = names, bw_config = case_option default_beat_config id config\<rparr>)))"

text \<open>\<open>on_shutdown\<close> creates a task that runs \<open>_graceful_shutdown\<close>; all it does is to set the event.\<close>

definition graceful_shutdown :: "dispatcher \<Rightarrow> dispatcher" where
  "graceful_shutdown s = s\<lparr>dp_shutdown := True\<rparr>"

subsection \<open>Release\<close>

text \<open>
  \<open>_RabbitMQBrokerDispatcher.dispose\<close>: the monitor is cancelled and awaited, and only a cancellation is expected from it.
\<close>

definition dispose :: "dispatcher \<Rightarrow> exc option \<times> dispatcher" where
  "dispose s =
     (let s1 = s\<lparr>dp_shutdown := True\<rparr>
      in if dp_monitor s1
         then (case do_call Await_monitor (snd (do_call Cancel_monitor s1)) of
                 (Some e, s2) \<Rightarrow> if exc_cls e = CancelledError then cleanup_pools s2 else (Some e, s2)
               | (None, s2) \<Rightarrow> cleanup_pools s2)
         else cleanup_pools s1)"

text \<open>The end of \<open>run_scheduled_actions\<close>.\<close>

definition release :: "dispatcher \<Rightarrow> exc option \<times> dispatcher" where
  "release s =
     (case do_call Dispose_backend s of
        (a, s1) \<Rightarrow>
          (case swallow a of
             Some e \<Rightarrow> (Some e, s1)
           | None \<Rightarrow> (case dispose s1 of (b, s2) \<Rightarrow> (swallow b, s2))))"

text \<open>\<open>run_scheduled_actions\<close> around its loop: a connection that is not healthy at the start is a return without release.\<close>

definition run_and_release :: "(action list \<Rightarrow> dispatcher \<Rightarrow> exc option \<times> dispatcher) \<Rightarrow> action list \<Rightarrow> dispatcher \<Rightarrow> exc option \<times> dispatcher" where
  "run_and_release loop actions s =
     (if \<not> dp_healthy s then (None, s)
      else (case loop actions s of (Some e, s1) \<Rightarrow> (Some e, s1) | (None, s1) \<Rightarrow> release s1))"

text \<open>
  \<open>run\<close>: \<open>signalled i\<close> says whether a signal has arrived by round \<open>i\<close> of the wait for the connection; the application lifecycle is around the start.
\<close>

definition beat_run ::
  "(bool \<Rightarrow> dispatcher \<Rightarrow> exc option \<times> dispatcher) \<Rightarrow> dispatcher interceptor option list \<Rightarrow> retry_policy \<Rightarrow> rat \<Rightarrow> string \<Rightarrow>
   string list option \<Rightarrow> action list list \<Rightarrow> bool \<times> bool \<Rightarrow> (nat \<Rightarrow> bool) \<Rightarrow> (action list \<Rightarrow> dispatcher \<Rightarrow> exc option \<times> dispatcher) \<Rightarrow>
   dispatcher \<Rightarrow> run_end \<times> dispatcher" where
  "beat_run fill lifecycles p max_wait exchange names controllers gone signalled loop s =
     (case app_lifecycle False fill lifecycles
             (start_scheduler p max_wait exchange names controllers gone signalled (run_and_release loop)) s of
        (r, s1) \<Rightarrow> (run_end_of r, s1))"

subsection \<open>Lemmas\<close>

fun is_release :: "start_call \<Rightarrow> bool" where
  "is_release Dispose_backend = True"
| "is_release Cancel_monitor = True"
| "is_release Await_monitor = True"
| "is_release Close_channels = True"
| "is_release Close_connections = True"
| "is_release c = False"

definition released :: "dispatcher \<Rightarrow> start_call list" where
  "released s = filter is_release (calls s)"

definition releases_nothing :: "(dispatcher \<Rightarrow> 'r \<times> dispatcher) \<Rightarrow> bool" where
  "releases_nothing f = (\<forall>s. released (snd (f s)) = released s)"

lemma released_simps [simp]: "released (s\<lparr>pooled_connection := b\<rparr>) = released s" "released (s\<lparr>pooled_channel := b\<rparr>) = released s"
  "released (s\<lparr>dp_healthy := b\<rparr>) = released s" "released (s\<lparr>dp_monitor := b\<rparr>) = released s" "released (s\<lparr>dp_shutdown := b\<rparr>) = released s"
  by (simp_all add: released_def)

lemma quiet_call: "\<not> is_release c \<Longrightarrow> releases_nothing (do_call c)"
  by (simp add: releases_nothing_def released_def do_call_def)

lemma quiet_retry: "releases_nothing f \<Longrightarrow> releases_nothing (retrying p retryable f)"
proof -
  assume f: "releases_nothing f"
  have "released (snd (retry_state p retryable f todo n s)) = released s" for todo n s
  proof (induction todo arbitrary: n s)
    case (Suc todo)
    have "released (snd (f s)) = released s" using f by (simp add: releases_nothing_def)
    then show ?case using Suc by (auto split: prod.split option.split)
  qed simp
  then show ?thesis by (simp add: releases_nothing_def retrying_def)
qed

lemma quiet_startup:
  "releases_nothing (create_connection p)" "releases_nothing (acquire_connection p)" "releases_nothing (establish_channel p)"
  "releases_nothing (create_channel p)" "releases_nothing (acquire_channel p)" "releases_nothing (is_healthy p gone)"
proof -
  note [simp] = releases_nothing_def
  have call: "\<not> is_release c \<Longrightarrow> do_call c s = (r, s') \<Longrightarrow> released s' = released s" for c s r s'
    using quiet_call [of c] by (simp, metis snd_conv)
  show a: "releases_nothing (create_connection p)" unfolding create_connection_def by (intro quiet_retry quiet_call) simp
  then have a': "create_connection p s = (r, s') \<Longrightarrow> released s' = released s" for s r s' by (simp, metis snd_conv)
  show b: "releases_nothing (acquire_connection p)" using a' by (auto simp: acquire_connection_def split: prod.split option.split)
  then have b': "acquire_connection p s = (r, s') \<Longrightarrow> released s' = released s" for s r s' by (simp, metis snd_conv)
  show c: "releases_nothing (establish_channel p)"
    using b' call [of Open_channel] by (auto simp: establish_channel_def split: prod.split option.split) (metis snd_conv prod.collapse)
  show d: "releases_nothing (create_channel p)" unfolding create_channel_def by (rule quiet_retry [OF c])
  then have d': "create_channel p s = (r, s') \<Longrightarrow> released s' = released s" for s r s' by (simp, metis snd_conv)
  show "releases_nothing (acquire_channel p)" using d' by (auto simp: acquire_channel_def split: prod.split option.split)
  show "releases_nothing (is_healthy p gone)"
    using b' call [of Probe] by (auto simp: is_healthy_def split: prod.split option.split)
qed

lemma quiet_do_calls: "list_all (\<lambda>c. \<not> is_release c) cs \<Longrightarrow> releases_nothing (do_calls cs)"
proof -
  have "list_all (\<lambda>c. \<not> is_release c) cs \<Longrightarrow> released (snd (do_calls cs s)) = released s" for s
  proof (induction cs arbitrary: s)
    case (Cons c cs)
    then show ?case using quiet_call [of c] by (auto simp: releases_nothing_def do_call_def split: option.split)
  qed simp
  then show "list_all (\<lambda>c. \<not> is_release c) cs \<Longrightarrow> releases_nothing (do_calls cs)" by (simp add: releases_nothing_def)
qed

lemma quiet_initialize: "initialize p exchange actions gone s = (r, s') \<Longrightarrow> released s' = released s"
proof -
  have once: "releases_nothing (initialize_once p exchange actions)"
  proof -
    have "releases_nothing (do_calls (Get_exchange exchange # map (Get_queue \<circ> act_id) actions))"
      by (rule quiet_do_calls) (simp add: list_all_iff)
    then show ?thesis using quiet_startup(5) [of p]
      by (simp add: releases_nothing_def initialize_once_def split: prod.split option.split) (metis snd_conv)
  qed
  have "released s1 = released s0" if "retrying p is_amqp (initialize_once p exchange actions) s0 = (q, s1)" for q s0 s1
    using quiet_retry [OF once] that unfolding releases_nothing_def by (metis snd_conv)
  moreover have "released s1 = released s0" if "is_healthy p g s0 = (q, s1)" for g q s0 s1
    using quiet_startup(6) that unfolding releases_nothing_def by (metis snd_conv)
  ultimately show "initialize p exchange actions gone s = (r, s') \<Longrightarrow> released s' = released s"
    by (auto simp: initialize_def split: prod.splits option.splits sum.splits)
qed

text \<open>
  The answers a release can do with: its calls raise at most subclasses of \<^verbatim>\<open>Exception\<close>, and the monitor, which is awaited third, ends or is cancelled.
\<close>

definition calm :: "dispatcher \<Rightarrow> bool" where
  "calm s = ((\<forall>i e. i \<noteq> length (calls s) + 2 \<longrightarrow> answers s i = Some e \<longrightarrow> is_Exception e)
     \<and> (\<forall>e. answers s (length (calls s) + 2) = Some e \<longrightarrow> exc_cls e = CancelledError))"

definition release_calls :: "start_call list" where
  "release_calls = [Dispose_backend, Cancel_monitor, Await_monitor, Close_channels, Close_connections]"

lemma release_run:
  assumes "calm s" "dp_monitor s"
  shows "fst (release s) = None \<and> calls (snd (release s)) = calls s @ release_calls \<and> dp_shutdown (snd (release s))"
proof -
  have sw: "swallow (answers s i) = None" if "i \<noteq> length (calls s) + 2" for i
    using assms(1) that by (auto simp: swallow_eq_None calm_def)
  have "cleanup_pools t = (None, t\<lparr>calls := calls t @ [Close_channels, Close_connections]\<rparr>)"
    if "answers t = answers s" "length (calls s) + 2 < length (calls t)" for t
    using sw that by (simp add: cleanup_pools_def do_call_def)
  then show ?thesis using assms sw [of "length (calls s)"]
    by (cases "answers s (Suc (Suc (length (calls s))))")
      (simp_all add: release_def dispose_def do_call_def release_calls_def calm_def Let_def)
qed

text \<open>A processing loop that returns, leaves the release to its caller, and finds calm answers.\<close>

definition returning :: "(action list \<Rightarrow> dispatcher \<Rightarrow> exc option \<times> dispatcher) \<Rightarrow> bool" where
  "returning loop = (\<forall>acts s. \<exists>s'. loop acts s = (None, s') \<and> released s' = released s \<and> dp_monitor s' = dp_monitor s \<and> calm s')"

lemma initialize_marks: "initialize p exchange actions gone s = (None, s') \<Longrightarrow> dp_healthy s' \<and> dp_monitor s'"
  by (auto simp: initialize_def split: prod.splits option.splits sum.splits)

lemma signalled_wait:
  "0 < max_wait \<Longrightarrow> snd (obs 0) \<Longrightarrow>
   wait_for_broker_connection max_wait obs = Some (Exc ConnectionError ''Shutdown requested while waiting for broker connection'')"
  by (simp add: wait_for_broker_connection_def wait_rounds.simps)

lemma run_and_release_run:
  assumes "returning loop" "dp_healthy s" "dp_monitor s" "run_and_release loop actions s = (r, s')"
  shows "r = None \<and> released s' = released s @ release_calls"
proof -
  obtain t where t: "loop actions s = (None, t)" "released t = released s" "dp_monitor t = dp_monitor s" "calm t"
    using assms(1) unfolding returning_def by blast
  then have "release t = (r, s')" using assms(2,4) by (simp add: run_and_release_def)
  then show ?thesis using release_run [of t] t assms(3) by (simp add: released_def release_calls_def)
qed

subsection \<open>Properties\<close>


definition idle_loop :: "action list \<Rightarrow> dispatcher \<Rightarrow> exc option \<times> dispatcher" where
  "idle_loop acts s = (None, s\<lparr>answers := (\<lambda>_. None)\<rparr>)"


text \<open>A dispatcher whose connection is not healthy is left without release; after a successful start this does not happen.\<close>

lemma unhealthy_start_releases_nothing: "\<not> dp_healthy s \<Longrightarrow> run_and_release loop actions s = (None, s)"
  by (simp add: run_and_release_def)

text \<open>A worker with an unknown broker or backend URL is not constructed.\<close>

lemma new_beat_worker_urls:
  "new_beat_worker split unquote interval broker_url backend_url names config = Inr w \<Longrightarrow>
   (\<exists>b. get_message_broker_dispatcher_from_url broker_url = Inr b) \<and> (\<exists>b. get_message_broker_backend_from_url backend_url = Inr b)"
  by (auto simp: new_beat_worker_def split: sum.splits)

text \<open>
  The beat worker and the message bus worker of one broker URL use the same exchange, when both accept it. A query that names several exchanges is accepted by
  the beat worker, which takes the first, and refused by the message bus worker.
\<close>

theorem workers_share_exchange:
  assumes "split broker_url = (scheme, host, query)"
    and "new_beat_worker split unquote interval broker_url backend_url names config = Inr w"
  shows "\<exists>others. parse_qs unquote query ''exchange'' = bw_exchange w # others
    \<and> (case create_config env unquote to_float scheme query of
         Inr cfg \<Rightarrow> others = [] \<and> cfg_exchange cfg = bw_exchange w
       | Inl e \<Rightarrow> True)
    \<and> (others \<noteq> [] \<longrightarrow> create_config env unquote to_float scheme query = Inl (Exc AssertionError ''Exchange must be set in the query string''))"
proof -
  have d: "new_rabbitmq_dispatcher split unquote broker_url = Inr (bw_exchange w)"
    using assms(2) by (auto simp: new_beat_worker_def split: sum.splits)
  then obtain others where o: "parse_qs unquote query ''exchange'' = bw_exchange w # others" "query \<noteq> []" "scheme = ''amqp'' \<or> scheme = ''amqps''"
    using assms(1) by (auto simp: new_rabbitmq_dispatcher_def split: if_splits list.splits)
  have "cfg_exchange cfg = bw_exchange w \<and> others = []" if "create_config env unquote to_float scheme query = Inr cfg" for cfg
    using that o by (auto simp: create_config_def Let_def split: if_splits list.splits option.splits sum.splits)
  moreover have "create_config env unquote to_float scheme query = Inl (Exc AssertionError ''Exchange must be set in the query string'')" if "others \<noteq> []"
    using that o by (auto simp: create_config_def Let_def neq_Nil_conv)
  ultimately show ?thesis using o(1) by (auto split: sum.split)
qed

theorem workers_share_exchange_witness:
  "map_sum id bw_exchange (new_beat_worker (\<lambda>_. (''amqp'', ''broker'', ''exchange=a&exchange=b'')) id 1 ''amqp://broker/?exchange=a&exchange=b''
      ''redis://store'' None None) = Inr ''a''
   \<and> create_config (\<lambda>_. None) id (\<lambda>_. None) ''amqp'' ''exchange=a&exchange=b'' = Inl (Exc AssertionError ''Exchange must be set in the query string'')"
proof -
  let ?w = "new_beat_worker (\<lambda>_. (''amqp'', ''broker'', ''exchange=a&exchange=b'')) id 1 ''amqp://broker/?exchange=a&exchange=b'' ''redis://store'' None None"
  have e: "map_sum id bw_exchange ?w = Inr ''a''" by code_simp
  then obtain w where w: "?w = Inr w" by (cases ?w) auto
  have "parse_qs id ''exchange=a&exchange=b'' ''exchange'' = [''a'', ''b'']" by code_simp
  then show ?thesis using workers_share_exchange [OF refl w, of "\<lambda>_. None" "\<lambda>_. None"] e by auto
qed

end
