(* ===== verification/Connection_Factory.thy ===== *)
theory Connection_Factory
  imports Publisher
begin

section \<open>The connections of the publisher\<close>

text \<open>
  \<open>AIOPikaConnectionFactory\<close> of \<^verbatim>\<open>messagebus/interceptors/aiopika_publisher_interceptor.py\<close>: its optional pools, the retries of tenacity around
  connecting, and how many connections and channels its context managers leave open. The pools of aio_pika hand out connections
  and take them back; closing a connection closes its channels.
\<close>

subsection \<open>Retries\<close>

text \<open>
  \<open>default_retry\<close>: no stop, so an attempt follows every \<^verbatim>\<open>Exception\<close>. The result is the number of the attempt that succeeded, or what is not an
  \<^verbatim>\<open>Exception\<close>; no result when the attempts do not end.
\<close>

partial_function (option) default_retry :: "(nat \<Rightarrow> exc option) \<Rightarrow> nat \<Rightarrow> nat result option" where
  "default_retry f i =
     (case f i of
        None \<Rightarrow> Some (Inr i)
      | Some e \<Rightarrow> if is_Exception e then default_retry f (Suc i) else Some (Inl e))"

text \<open>\<open>default_retry_channel\<close>: five attempts, then \<open>RetryError\<close>.\<close>

fun retry_up_to :: "nat \<Rightarrow> (nat \<Rightarrow> exc option) \<Rightarrow> nat \<Rightarrow> nat result" where
  "retry_up_to 0 f i = Inl (Exc OtherError ''RetryError'')"
| "retry_up_to (Suc n) f i =
     (case f i of
        None \<Rightarrow> Inr i
      | Some e \<Rightarrow> if is_Exception e then retry_up_to n f (Suc i) else Inl e)"

definition default_retry_channel :: "(nat \<Rightarrow> exc option) \<Rightarrow> nat \<Rightarrow> nat result" where
  "default_retry_channel = retry_up_to 5"

subsection \<open>The factory\<close>

record pool_config =
  max_size :: int

record factory =
  fa_url :: string
  fa_exchange :: string
  connection_pool :: "pool_config option"
  channel_pool :: "pool_config option"

definition new_factory :: "string \<Rightarrow> string \<Rightarrow> pool_config option \<Rightarrow> pool_config option \<Rightarrow> factory" where
  "new_factory url exchange connection_pool_config channel_pool_config =
     \<lparr>fa_url = url, fa_exchange = exchange, connection_pool = connection_pool_config, channel_pool = channel_pool_config\<rparr>"

text \<open>What is open: connections of their own with their channels, connections borrowed from the pool, and channels on pooled connections.\<close>

record open_things =
  own_connections :: nat
  own_channels :: nat
  borrowed :: nat
  pooled_channels :: nat

definition nothing_open :: open_things where
  "nothing_open = \<lparr>own_connections = 0, own_channels = 0, borrowed = 0, pooled_channels = 0\<rparr>"

definition enter_connection :: "factory \<Rightarrow> open_things \<Rightarrow> open_things" where
  "enter_connection f t = (case connection_pool f of
      None \<Rightarrow> t\<lparr>own_connections := own_connections t + 1\<rparr>
    | Some c \<Rightarrow> t\<lparr>borrowed := borrowed t + 1\<rparr>)"

text \<open>Leaving \<open>async with await self._connect()\<close> closes the connection and its channels; a borrowed connection goes back as it is.\<close>

definition leave_connection :: "factory \<Rightarrow> open_things \<Rightarrow> open_things" where
  "leave_connection f t = (case connection_pool f of
      None \<Rightarrow> t\<lparr>own_connections := own_connections t - 1, own_channels := own_channels t - 1\<rparr>
    | Some c \<Rightarrow> t\<lparr>borrowed := borrowed t - 1\<rparr>)"

definition open_channel :: "factory \<Rightarrow> open_things \<Rightarrow> open_things" where
  "open_channel f t = (case connection_pool f of
      None \<Rightarrow> t\<lparr>own_channels := own_channels t + 1\<rparr>
    | Some c \<Rightarrow> t\<lparr>pooled_channels := pooled_channels t + 1\<rparr>)"

text \<open>\<open>get_channel\<close>, which the channel pool would call: the connection is left before the channel is returned.\<close>

definition get_channel :: "factory \<Rightarrow> open_things \<Rightarrow> open_things" where
  "get_channel f t = leave_connection f (open_channel f (enter_connection f t))"

text \<open>
  \<open>acquire_channel\<close> up to its \<open>yield\<close>, and from there on: only with both pools the channel is closed; the channel pool itself is never asked.
\<close>

definition enter_channel :: "factory \<Rightarrow> open_things \<Rightarrow> open_things" where
  "enter_channel f t = open_channel f (enter_connection f t)"

definition exit_channel :: "factory \<Rightarrow> open_things \<Rightarrow> open_things" where
  "exit_channel f t =
     (if connection_pool f = None \<or> channel_pool f = None then leave_connection f t
      else leave_connection f (t\<lparr>pooled_channels := pooled_channels t - 1\<rparr>))"

text \<open>
  One use of \<open>acquire_channel\<close>: when its block raises an \<^verbatim>\<open>Exception\<close>, tenacity takes it for a failed attempt and a second channel is acquired before
  the generator is closed (see \<open>leave_channel\<close>).
\<close>

definition use_channel :: "factory \<Rightarrow> bool \<Rightarrow> open_things \<Rightarrow> open_things" where
  "use_channel f ok t =
     (let t1 = exit_channel f (enter_channel f t) in if ok then t1 else exit_channel f (enter_channel f t1))"

subsection \<open>Lemmas\<close>

text \<open>An attempt that ends the retries: a success, or what is not an \<^verbatim>\<open>Exception\<close>.\<close>

definition final_attempt :: "(nat \<Rightarrow> exc option) \<Rightarrow> nat \<Rightarrow> bool" where
  "final_attempt f i = (\<forall>e. f i = Some e \<longrightarrow> \<not> is_Exception e)"

definition attempt_result :: "(nat \<Rightarrow> exc option) \<Rightarrow> nat \<Rightarrow> nat result" where
  "attempt_result f i = (case f i of None \<Rightarrow> Inr i | Some e \<Rightarrow> Inl e)"

lemma default_retry_ends:
  assumes "final_attempt f j" "\<forall>k. i \<le> k \<and> k < j \<longrightarrow> \<not> final_attempt f k" "i \<le> j"
  shows "default_retry f i = Some (attempt_result f j)"
  using assms(2,3)
proof (induction "j - i" arbitrary: i)
  case 0
  then have "i = j" by simp
  then show ?case using assms(1)
    by (auto simp: default_retry.simps [of f j] attempt_result_def final_attempt_def split: option.split)
next
  case (Suc n)
  then have "\<not> final_attempt f i" by auto
  then obtain e where "f i = Some e" "is_Exception e" by (auto simp: final_attempt_def)
  moreover have "default_retry f (Suc i) = Some (attempt_result f j)" using Suc by auto
  ultimately show ?case by (simp add: default_retry.simps [of f i])
qed

lemma default_retry_Some: "default_retry f i = Some r \<Longrightarrow> \<exists>j \<ge> i. final_attempt f j"
proof (rule default_retry.raw_induct [where P = "\<lambda>f i r. \<exists>j \<ge> i. final_attempt f j"])
  fix retry :: "(nat \<Rightarrow> exc option) \<Rightarrow> nat \<Rightarrow> nat result option" and f i r
  assume IH: "\<And>f i r. retry f i = Some r \<Longrightarrow> \<exists>j \<ge> i. final_attempt f j"
    and run: "(case f i of None \<Rightarrow> Some (Inr i) | Some e \<Rightarrow> if is_Exception e then retry f (Suc i) else Some (Inl e)) = Some r"
  show "\<exists>j \<ge> i. final_attempt f j"
  proof (cases "final_attempt f i")
    case False
    then obtain e where "f i = Some e" "is_Exception e" by (auto simp: final_attempt_def)
    then have "retry f (Suc i) = Some r" using run by simp
    from IH [OF this] show ?thesis by (meson Suc_leD)
  qed blast
qed

lemma retry_up_to_bound:
  "retry_up_to n f i = (if \<exists>j < n. final_attempt f (i + j) then attempt_result f (i + (LEAST j. final_attempt f (i + j)))
     else Inl (Exc OtherError ''RetryError''))"
proof (induction n arbitrary: i)
  case (Suc n)
  show ?case
  proof (cases "final_attempt f i")
    case True
    then have "(LEAST j. final_attempt f (i + j)) = 0" by (simp add: Least_eq_0)
    then show ?thesis using True by (auto simp: attempt_result_def final_attempt_def split: option.splits)
  next
    case False
    then obtain e where e: "f i = Some e" "is_Exception e" by (auto simp: final_attempt_def)
    have ex: "(\<exists>j < Suc n. final_attempt f (i + j)) = (\<exists>j < n. final_attempt f (Suc i + j))"
      using False by (auto simp: Ex_less_Suc2)
    have "(LEAST j. final_attempt f (i + j)) = Suc (LEAST j. final_attempt f (Suc i + j))" if "final_attempt f (Suc i + k)" for k
      using Least_Suc [of "\<lambda>j. final_attempt f (i + j)" "Suc k"] False that by simp
    then show ?thesis using Suc [of "Suc i"] e ex by auto
  qed
qed simp

subsection \<open>Properties\<close>


text \<open>
  Channels are left open exactly when there is a pool of connections and none of channels: then every use of a channel leaves one on a
  pooled connection, and a use whose block failed leaves two. In the other configurations everything that was opened is closed again.
\<close>

theorem channels_left_open:
  "fold (use_channel f) uses nothing_open =
     nothing_open\<lparr>pooled_channels :=
       (if connection_pool f \<noteq> None \<and> channel_pool f = None then length uses + length (filter Not uses) else 0)\<rparr>"
proof -
  have "fold (use_channel f) uses t = t\<lparr>pooled_channels := pooled_channels t +
      (if connection_pool f \<noteq> None \<and> channel_pool f = None then length uses + length (filter Not uses) else 0)\<rparr>" for t
  proof (induction uses arbitrary: t)
    case (Cons ok uses)
    have "use_channel f ok t = t\<lparr>pooled_channels := pooled_channels t +
        (if connection_pool f \<noteq> None \<and> channel_pool f = None then (if ok then 1 else 2) else 0)\<rparr>"
      by (auto simp: use_channel_def enter_channel_def exit_channel_def enter_connection_def leave_connection_def open_channel_def
          Let_def split: option.splits)
    then show ?case using Cons.IH [of "use_channel f ok t"] by auto
  qed simp
  from this [of nothing_open] show ?thesis by (simp add: nothing_open_def)
qed

text \<open>A channel for the channel pool is useless without a pool of connections: its connection is closed when it is returned.\<close>

lemma pooled_channel_closed: "connection_pool f = None \<Longrightarrow> get_channel f t = t"
  by (simp add: get_channel_def enter_connection_def leave_connection_def open_channel_def)

end
