(* ===== verification/Rpc_Build.thy ===== *)
theory Rpc_Build
  imports Rpc_Client Decorators
begin

section \<open>Building RPC clients\<close>

text \<open>
  The decorators of \<^verbatim>\<open>rpc/http/decorators.py\<close> and \<open>HttpRpcClientBuilder.build\<close>: from a decorated class to the methods of the client. The mapping, the
  request attributes and the error handlers are stackable decorators (\<^verbatim>\<open>Decorators\<close>); timeout, retry and content type are attributes of the function, so the
  decorator applied last replaces the others.
\<close>

subsection \<open>Decorators\<close>

datatype 'v rpc_decorator =
    Mapping (dm_verb: string) (dm_path: string) (dm_success: "int list")
  | Attribute (da_type: attribute_type) (da_name: string)
  | Handler (dh_status: int) (dh_callback: "request \<Rightarrow> response \<Rightarrow> 'v result")
  | Rest_client (dc_base: string)

abbreviation "key_mapping \<equiv> ''HttpMapping''"
abbreviation "key_attribute \<equiv> ''RequestAttribute''"
abbreviation "key_route_handler \<equiv> ''RouteHttpErrorHandler''"
abbreviation "key_global_handler \<equiv> ''GlobalHttpErrorHandler''"
abbreviation "key_rest_client \<equiv> ''RestClient''"

text \<open>The classes of the decorators: every verb with the default success status 200.\<close>

definition Post :: "string \<Rightarrow> 'v rpc_decorator" where "Post path = Mapping ''POST'' path [200]"
definition Get :: "string \<Rightarrow> 'v rpc_decorator" where "Get path = Mapping ''GET'' path [200]"
definition Patch :: "string \<Rightarrow> 'v rpc_decorator" where "Patch path = Mapping ''PATCH'' path [200]"
definition Put :: "string \<Rightarrow> 'v rpc_decorator" where "Put path = Mapping ''PUT'' path [200]"
definition Delete :: "string \<Rightarrow> 'v rpc_decorator" where "Delete path = Mapping ''DELETE'' path [200]"

definition Query :: "string \<Rightarrow> 'v rpc_decorator" where "Query name = Attribute AQuery name"
definition Header :: "string \<Rightarrow> 'v rpc_decorator" where "Header name = Attribute AHeader name"
definition Body :: "string \<Rightarrow> 'v rpc_decorator" where "Body name = Attribute ABody name"
definition PathParam :: "string \<Rightarrow> 'v rpc_decorator" where "PathParam name = Attribute AParam name"
definition FormData :: "string \<Rightarrow> 'v rpc_decorator" where "FormData name = Attribute AForm name"
definition File :: "string \<Rightarrow> 'v rpc_decorator" where "File name = Attribute AFile name"

record function_marks =
  mark_timeout :: "rat option"
  mark_retry :: "rpc_retry_policy option"
  mark_content_type :: "string option"

definition no_marks :: function_marks where
  "no_marks = \<lparr>mark_timeout = None, mark_retry = None, mark_content_type = None\<rparr>"

datatype mark = Timeout rat | Retry rpc_retry_policy | ContentType string

fun set_mark :: "mark \<Rightarrow> function_marks \<Rightarrow> function_marks" where
  "set_mark (Timeout seconds) m = m\<lparr>mark_timeout := Some seconds\<rparr>"
| "set_mark (Retry config) m = m\<lparr>mark_retry := Some config\<rparr>"
| "set_mark (ContentType ct) m = m\<lparr>mark_content_type := Some ct\<rparr>"

subsection \<open>The builder\<close>

text \<open>What reflection tells about a function: its parameters after \<open>self\<close> and its return annotation.\<close>

record 'v signature =
  sg_params :: "string list"
  sg_return :: "'v return_type"

fun as_attribute :: "'v rpc_decorator \<Rightarrow> (attribute_type \<times> string) list" where
  "as_attribute (Attribute t n) = [(t, n)]"
| "as_attribute _ = []"

fun as_handler :: "'v rpc_decorator \<Rightarrow> (int \<times> (request \<Rightarrow> response \<Rightarrow> 'v result)) list" where
  "as_handler (Handler n f) = [(n, f)]"
| "as_handler _ = []"

definition create_method ::
  "hierarchy \<Rightarrow> 'v rpc_decorator decorated \<Rightarrow> (string \<Rightarrow> function_marks) \<Rightarrow> (string \<Rightarrow> 'v signature) \<Rightarrow> string \<Rightarrow> 'v rpc_decorator \<Rightarrow> 'v method_spec" where
  "create_method H D marks sigs f mapping =
     \<lparr>m_verb = dm_verb mapping, m_path = dm_path mapping, m_success = dm_success mapping,
      m_params = sg_params (sigs f),
      m_attributes = concat (map as_attribute (get H D key_attribute (Fun f))),
      m_timeout = mark_timeout (marks f), m_retry = mark_retry (marks f), m_content_type = mark_content_type (marks f),
      m_return = sg_return (sigs f),
      m_handlers = concat (map as_handler (get H D key_route_handler (Fun f)))\<rparr>"

record 'v rpc_stub =
  st_base :: string
  st_global_handlers :: "(int \<times> (request \<Rightarrow> response \<Rightarrow> 'v result)) list"
  st_methods :: "(string \<times> 'v method_spec) list"

text \<open>\<open>members\<close>: \<open>inspect.getmembers\<close>, the functions of the class with their names, sorted.\<close>

definition build ::
  "hierarchy \<Rightarrow> 'v rpc_decorator decorated \<Rightarrow> (string \<Rightarrow> function_marks) \<Rightarrow> (string \<Rightarrow> 'v signature) \<Rightarrow> string \<Rightarrow> (string \<times> string) list \<Rightarrow>
   'v rpc_stub result" where
  "build H D marks sigs c members =
     (case get_last H D key_rest_client (Cls c) of
        None \<Rightarrow> Inl (Exc ValueError ''Class is not a rest client'')
      | Some rest_client \<Rightarrow>
          Inr \<lparr>st_base = dc_base rest_client,
               st_global_handlers = concat (map as_handler (get H D key_global_handler (Cls c))),
               st_methods = List.map_filter (\<lambda>(name, f).
                  map_option (\<lambda>m. (name, create_method H D marks sigs f m)) (get_last H D key_mapping (Fun f))) members\<rparr>)"

text \<open>Calling a method of the built client; a name without mapping is no attribute of it.\<close>

definition call_method ::
  "(key_data \<Rightarrow> string) \<Rightarrow> 'v rpc_stub \<Rightarrow> string \<Rightarrow> arg list \<Rightarrow> (string \<times> arg) list \<Rightarrow> client \<Rightarrow> rpc_world \<Rightarrow>
   'v rpc_value option result \<times> client \<times> rpc_world" where
  "call_method hash stub name args kwargs c w =
     (case map_of (st_methods stub) name of
        None \<Rightarrow> (Inl (Exc AttributeError name), c, w)
      | Some m \<Rightarrow> rpc_method hash m (st_global_handlers stub) args kwargs (c\<lparr>base_path := st_base stub\<rparr>) w)"

subsection \<open>Declaring a method\<close>

text \<open>A function with its decorators, innermost first: each with the key it is filed under.\<close>

fun rpc_key :: "'v rpc_decorator \<Rightarrow> string" where
  "rpc_key (Mapping v p s) = key_mapping"
| "rpc_key (Attribute t n) = key_attribute"
| "rpc_key (Handler n f) = key_route_handler"
| "rpc_key (Rest_client b) = key_rest_client"

definition decorate :: "'v rpc_decorator list \<Rightarrow> string \<Rightarrow> 'v rpc_decorator decorated \<Rightarrow> 'v rpc_decorator decorated" where
  "decorate ds f D = fold (\<lambda>(k, d). register k d (Fun f)) (map (\<lambda>d. (rpc_key d, d)) ds) D"

lemma rpc_key_mapping: "(rpc_key d = key_mapping) = is_Mapping d"
  by (cases d) simp_all

lemma own_decorate: "own D k (Fun f) = [] \<Longrightarrow> own (decorate ds f D) k (Fun f) = filter (\<lambda>d. rpc_key d = k) ds"
  by (simp add: decorate_def own_fold_register filter_map comp_def split_beta)

lemma own_decorate_other: "s \<noteq> Fun f \<Longrightarrow> own (decorate ds f D) k s = own D k s"
  unfolding decorate_def by (induction ds arbitrary: D) (simp_all add: own_register)

lemma filter_as_attribute: "concat (map as_attribute (filter (\<lambda>d. rpc_key d = key_attribute) ds)) = concat (map as_attribute ds)"
proof (induction ds)
  case (Cons d ds)
  then show ?case by (cases d) simp_all
qed simp

lemma filter_as_handler: "concat (map as_handler (filter (\<lambda>d. rpc_key d = key_route_handler) ds)) = concat (map as_handler ds)"
proof (induction ds)
  case (Cons d ds)
  then show ?case by (cases d) simp_all
qed simp

lemma get_last_fun: "get_last H D k (Fun f) = (if own D k (Fun f) = [] then None else Some (last (own D k (Fun f))))"
  by (simp add: get_last_def split: list.split)

lemma map_of_map_filter:
  "distinct (map fst xs) \<Longrightarrow> map_of xs n = Some f \<Longrightarrow> map_of (List.map_filter (\<lambda>(n, f). map_option (Pair n) (g f)) xs) n = g f"
proof (induction xs)
  case (Cons x xs)
  obtain k h where x: "x = (k, h)" by fastforce
  have none: "map_of (List.map_filter (\<lambda>(n, f). map_option (Pair n) (g f)) xs) k = None" if "k \<notin> fst ` set xs"
    using that by (induction xs) (auto simp: List.map_filter_simps split: option.split)
  show ?case
  proof (cases "k = n")
    case True
    then show ?thesis using Cons.prems x none by (cases "g h") (auto simp: List.map_filter_simps)
  next
    case False
    then have "map_of (List.map_filter (\<lambda>(n, f). map_option (Pair n) (g f)) xs) n = g f" using Cons x by simp
    then show ?thesis using False x by (cases "g h") (simp_all add: List.map_filter_simps)
  qed
qed simp

subsection \<open>Properties\<close>


definition users_declared :: "nat rpc_decorator list" where
  "users_declared = [PathParam ''id'', Header ''X-Tenant'', Handler 404 (\<lambda>q r. Inr 0), Get ''/users/:id'']"

definition users_client :: "nat rpc_decorator decorated" where
  "users_client = register key_rest_client (Rest_client ''https://api'') (Cls ''Users'') Map.empty"


text \<open>A class without the decorator of a client is refused.\<close>

lemma build_requires_rest_client:
  "get_last H D key_rest_client (Cls c) = None \<Longrightarrow> build H D marks sigs c members = Inl (Exc ValueError ''Class is not a rest client'')"
  by (simp add: build_def)

end
