(* ===== verification/Transforms.thy ===== *)
theory Transforms
  imports Pagination Crud
begin

section \<open>Transformations of pages and entities\<close>

text \<open>
  \<open>Paginated.transform_async\<close> of \<^verbatim>\<open>persistence/utilities.py\<close> in its two modes, its operators, and the operators of \<open>BaseEntity\<close> in \<^verbatim>\<open>persistence/base.py\<close>.
  A transformation is an awaited function with an outcome for each item; which items it was started for is recorded. With \<open>gather\<close> all coroutines are
  started and end in an order the event loop decides (\<open>ends\<close>, the positions in the order they end).
\<close>

subsection \<open>Pages\<close>

fun await_each :: "('a \<Rightarrow> 'b result) \<Rightarrow> 'a list \<Rightarrow> 'b list result \<times> 'a list" where
  "await_each f [] = (Inr [], [])"
| "await_each f (x # xs) =
     (case f x of
        Inl e \<Rightarrow> (Inl e, [x])
      | Inr y \<Rightarrow> (case await_each f xs of (r, started) \<Rightarrow> (map_sum id (Cons y) r, x # started)))"

text \<open>\<open>asyncio.gather\<close>: the first exception to occur is raised; otherwise the results in the order of the arguments.\<close>

fun first_failure :: "('a \<Rightarrow> 'b result) \<Rightarrow> 'a list \<Rightarrow> exc option" where
  "first_failure f [] = None"
| "first_failure f (x # xs) = (case f x of Inl e \<Rightarrow> Some e | Inr y \<Rightarrow> first_failure f xs)"

definition gather_all :: "nat list \<Rightarrow> ('a \<Rightarrow> 'b result) \<Rightarrow> 'a list \<Rightarrow> 'b list result \<times> 'a list" where
  "gather_all ends f xs =
     (case first_failure f (map ((!) xs) ends) of
        Some e \<Rightarrow> (Inl e, xs)
      | None \<Rightarrow> (Inr (map (projr \<circ> f) xs), xs))"

definition transform_async :: "bool \<Rightarrow> nat list \<Rightarrow> ('a \<Rightarrow> 'b result) \<Rightarrow> 'a paginated \<Rightarrow> 'b paginated result \<times> 'a list" where
  "transform_async gather ends f p =
     (case (if gather then gather_all ends f (items p) else await_each f (items p)) of
        (r, started) \<Rightarrow>
          (map_sum id (\<lambda>ys. \<lparr>items = ys, total = total p, unpaginated_total = unpaginated_total p, total_pages = total_pages p\<rparr>) r, started))"

text \<open>The operators \<open>page >> func\<close> and \<open>func >> page\<close>.\<close>

definition page_rshift :: "'a paginated \<Rightarrow> ('a \<Rightarrow> 'b) \<Rightarrow> 'b paginated" where
  "page_rshift p f = transform f p"

definition page_rrshift :: "('a \<Rightarrow> 'b result) \<Rightarrow> 'a paginated \<Rightarrow> 'b paginated result \<times> 'a list" where
  "page_rrshift f p = transform_async False [] f p"

subsection \<open>Entities\<close>

text \<open>A parser is a function, or a type with a class method \<open>parse_entity\<close>.\<close>

record ('e, 'r) entity_parser =
  parse_entity :: "'e \<Rightarrow> 'r"

definition parse_entity_with_func :: "'e \<Rightarrow> ('e \<Rightarrow> 'r) \<Rightarrow> 'r" where
  "parse_entity_with_func entity f = f entity"

definition parse_entity_with_type :: "'e \<Rightarrow> ('e, 'r) entity_parser \<Rightarrow> 'r" where
  "parse_entity_with_type entity t = parse_entity t entity"

definition entity_rshift :: "'e \<Rightarrow> ('e \<Rightarrow> 'r) \<Rightarrow> 'r" where
  "entity_rshift = parse_entity_with_func"

definition entity_and :: "'e \<Rightarrow> ('e, 'r) entity_parser \<Rightarrow> 'r" where
  "entity_and = parse_entity_with_type"

subsection \<open>Lemmas\<close>

lemma first_failure_None: "first_failure f xs = None \<longleftrightarrow> (\<forall>x \<in> set xs. \<exists>y. f x = Inr y)"
  by (induction xs) (auto split: sum.split)

lemma first_failure_Some: "first_failure f xs = Some e \<Longrightarrow> \<exists>x \<in> set xs. f x = Inl e"
  by (induction xs) (auto split: sum.splits)

lemma await_each_run:
  "await_each f xs =
     (case first_failure f xs of
        None \<Rightarrow> (Inr (map (projr \<circ> f) xs), xs)
      | Some e \<Rightarrow> (Inl e, takeWhile (\<lambda>x. \<exists>y. f x = Inr y) xs @ take 1 (dropWhile (\<lambda>x. \<exists>y. f x = Inr y) xs)))"
proof (induction xs)
  case (Cons x xs)
  then show ?case by (cases "f x") (auto split: option.split)
qed simp

lemma set_by_positions: "mset ends = mset [0..<length xs] \<Longrightarrow> set (map ((!) xs) ends) = set xs"
  by (metis list.set_map map_nth set_mset_mset)

subsection \<open>Properties\<close>

text \<open>
  The two modes of an asynchronous transformation give the same page, with the totals of the original, exactly when no item fails, in whatever
  order the coroutines end; it is then the page of the synchronous transformation. When an item fails, awaiting one after the
  other raises the exception of the first failing item and starts no later one, while gathering has started all of them
  and raises the exception that occurred first.
\<close>

theorem transform_modes:
  assumes "mset ends = mset [0..<length (items p)]"
  shows "if \<forall>x \<in> set (items p). \<exists>y. f x = Inr y
    then transform_async False ends f p = (Inr (transform (projr \<circ> f) p), items p)
      \<and> transform_async True ends f p = (Inr (transform (projr \<circ> f) p), items p)
    else \<exists>e e'. first_failure f (items p) = Some e \<and> first_failure f (map ((!) (items p)) ends) = Some e'
      \<and> transform_async False ends f p =
          (Inl e, takeWhile (\<lambda>x. \<exists>y. f x = Inr y) (items p) @ take 1 (dropWhile (\<lambda>x. \<exists>y. f x = Inr y) (items p)))
      \<and> transform_async True ends f p = (Inl e', items p)"
proof (cases "\<forall>x \<in> set (items p). \<exists>y. f x = Inr y")
  case True
  then have "first_failure f (items p) = None" "first_failure f (map ((!) (items p)) ends) = None"
    by (simp_all only: first_failure_None set_by_positions [OF assms])
  then show ?thesis using True by (simp add: transform_async_def gather_all_def await_each_run transform_def)
next
  case False
  then obtain e e' where e: "first_failure f (items p) = Some e" "first_failure f (map ((!) (items p)) ends) = Some e'"
    using first_failure_None [of f "items p"] first_failure_None [of f "map ((!) (items p)) ends"] set_by_positions [OF assms]
    by (metis not_Some_eq)
  then show ?thesis unfolding if_not_P [OF False] by (simp add: transform_async_def gather_all_def await_each_run)
qed

definition checked :: "nat \<Rightarrow> nat result" where
  "checked n = (if n = 0 then Inl (Exc ValueError ''zero'') else if n = 1 then Inl (Exc KeyError ''one'') else Inr (n * 2))"

theorem transform_modes_witness:
  "transform_async False [2, 1, 0] checked \<lparr>items = [5, 0, 1], total = 3, unpaginated_total = 3, total_pages = 1\<rparr> =
     (Inl (Exc ValueError ''zero''), [5, 0])
   \<and> transform_async True [2, 1, 0] checked \<lparr>items = [5, 0, 1], total = 3, unpaginated_total = 3, total_pages = 1\<rparr> =
     (Inl (Exc KeyError ''one''), [5, 0, 1])"
  using transform_modes [of "[2, 1, 0]" "\<lparr>items = [5, 0, 1], total = 3, unpaginated_total = 3, total_pages = 1\<rparr>" checked]
  by (simp add: checked_def upt_rec)

end
