(* ===== verification/Provider_Setup.thy ===== *)
theory Provider_Setup
  imports Tracing_Hooks
begin

section \<open>The life of the telemetry providers\<close>

text \<open>
  \<open>OtelObservabilityProvider.setup\<close> of \<^verbatim>\<open>observability/providers/otel.py\<close> from the creation of the providers to their shutdown, inside the lifecycle of the
  application (\<^verbatim>\<open>lifecycle.py\<close>, \<^verbatim>\<open>Unit_Of_Work\<close>), and the readers of the current span of \<^verbatim>\<open>observability/hooks.py\<close>. The calls of the
  OpenTelemetry SDK are logged in their order; each of them, and the callback for the log handler, may raise.
\<close>

subsection \<open>Setup\<close>

datatype otel_call =
    NewTracerProvider "(string \<times> string) list" | SetTracerProvider | NewSpanProcessor | AddSpanProcessor
  | NewLoggerProvider "(string \<times> string) list" | SetLoggerProvider | AddLogProcessor | NewLoggingHandler | HandlerCallback
  | NewMetricReader int | NewMeterProvider "(string \<times> string) list" | SetMeterProvider | NewMetrics
  | Sdk sdk_call

record otel_provider =
  op_app_name :: string
  op_attributes :: "(string \<times> string) list"
  op_export_interval :: int
  op_flush_timeout :: int

text \<open>\<open>OtelObservabilityProvider.__init__\<close> with its defaults.\<close>

definition new_provider :: "string \<Rightarrow> (string \<times> string) list option \<Rightarrow> int option \<Rightarrow> int option \<Rightarrow> otel_provider" where
  "new_provider app_name attributes interval timeout =
     \<lparr>op_app_name = app_name, op_attributes = case_option [] id attributes, op_export_interval = case_option 5000 id interval,
      op_flush_timeout = case_option 5000 id timeout\<rparr>"

text \<open>The attributes of the resource: the service name wins over an attribute of the same key.\<close>

definition resource_attributes :: "otel_provider \<Rightarrow> (string \<times> string) list" where
  "resource_attributes p = dict_update (dict_update [] (op_attributes p)) [(''service.name'', op_app_name p)]"

definition setup_calls :: "otel_provider \<Rightarrow> otel_call list" where
  "setup_calls p =
     [NewTracerProvider (resource_attributes p), SetTracerProvider, NewSpanProcessor, AddSpanProcessor,
      NewLoggerProvider (resource_attributes p), SetLoggerProvider, AddLogProcessor, NewLoggingHandler, HandlerCallback,
      NewMetricReader (op_export_interval p), NewMeterProvider (resource_attributes p), SetMeterProvider, NewMetrics]"

record telemetry = "(otel_call, exc option) world" +
  metrics_ready :: bool        \<comment> \<open>\<open>__message_bus_metrics\<close> is set\<close>
  metrics_var :: bool          \<comment> \<open>the context variable of the metrics\<close>

fun run_calls :: "otel_call list \<Rightarrow> telemetry \<Rightarrow> exc option \<times> telemetry" where
  "run_calls [] w = (None, w)"
| "run_calls (c # cs) w = (case do_call c w of (Some e, w1) \<Rightarrow> (Some e, w1) | (None, w1) \<Rightarrow> run_calls cs w1)"

definition provider_enter :: "otel_provider \<Rightarrow> telemetry \<Rightarrow> exc option \<times> telemetry" where
  "provider_enter p w =
     (case run_calls (setup_calls p) w of
        (Some e, w1) \<Rightarrow> (Some e, w1)
      | (None, w1) \<Rightarrow> (None, w1\<lparr>metrics_ready := True, metrics_var := True\<rparr>))"

fun guarded :: "otel_call list \<Rightarrow> telemetry \<Rightarrow> exc option \<times> telemetry" where
  "guarded [] w = (None, w)"
| "guarded (c # cs) w = (case do_call c w of (r, w1) \<Rightarrow> (case swallow r of Some e \<Rightarrow> (Some e, w1) | None \<Rightarrow> guarded cs w1))"

definition flush_calls :: "otel_provider \<Rightarrow> otel_call list" where
  "flush_calls p = concat (map (\<lambda>x. [Sdk (ForceFlush x (op_flush_timeout p)), Sdk (ShutdownProvider x)]) [TracerProvider, LoggerProvider, MeterProvider])"

definition provider_exit :: "otel_provider \<Rightarrow> exc option \<Rightarrow> telemetry \<Rightarrow> bool result \<times> telemetry" where
  "provider_exit p exc w =
     (case guarded (flush_calls p) (w\<lparr>metrics_var := False\<rparr>) of
        (Some e, w1) \<Rightarrow> (Inl e, w1) | (None, w1) \<Rightarrow> (Inr False, w1))"

text \<open>\<open>ObservabilityInterceptor.lifecycle\<close> over \<open>setup\<close>.\<close>

definition telemetry_lifecycle :: "otel_provider \<Rightarrow> telemetry interceptor" where
  "telemetry_lifecycle p = \<lparr>aenter = provider_enter p, aexit = provider_exit p\<rparr>"

text \<open>The property \<open>message_bus_metrics\<close>.\<close>

definition message_bus_metrics :: "telemetry \<Rightarrow> unit result" where
  "message_bus_metrics w =
     (if metrics_ready w then Inr () else Inl (Exc RuntimeError ''MessageBusMetrics is not available outside of the app context''))"

interpretation telemetry: app_interceptor "telemetry_lifecycle p"
  by unfold_locales (simp add: telemetry_lifecycle_def provider_exit_def split: prod.split option.split)

subsection \<open>Readers of the current span\<close>

text \<open>
  \<open>get_root_span\<close>, \<open>get_current_span\<close>, \<open>get_current_span_context\<close>: without a tracing provider in the context there is
  nothing to read.
\<close>

definition get_root_span :: "bool \<Rightarrow> 'span option \<Rightarrow> 'span option" where
  "get_root_span active root_span = (if active then root_span else None)"

definition get_current_span :: "bool \<Rightarrow> 'span \<Rightarrow> 'span option" where
  "get_current_span active sp = (if active then Some sp else None)"

definition get_current_span_context :: "bool \<Rightarrow> ('span \<Rightarrow> 'c) \<Rightarrow> 'span \<Rightarrow> 'c option" where
  "get_current_span_context active context_of sp = (if active then Some (context_of sp) else None)"

definition get_tracing_provider :: "'p option \<Rightarrow> 'p option" where
  "get_tracing_provider provider = provider"

subsection \<open>Lemmas\<close>

fun is_Sdk :: "otel_call \<Rightarrow> bool" where
  "is_Sdk (Sdk c) = True"
| "is_Sdk c = False"

definition flushed :: "telemetry \<Rightarrow> otel_call list" where
  "flushed w = filter is_Sdk (calls w)"

lemma flushed_simps [simp]: "flushed (w\<lparr>metrics_ready := b\<rparr>) = flushed w" "flushed (w\<lparr>metrics_var := b\<rparr>) = flushed w"
  by (simp_all add: flushed_def)

lemma run_calls_flushes_nothing:
  "list_all (\<lambda>c. \<not> is_Sdk c) cs \<Longrightarrow> run_calls cs w = (r, w') \<Longrightarrow> flushed w' = flushed w \<and> answers w' = answers w"
proof (induction cs arbitrary: w)
  case (Cons c cs)
  obtain a w1 where d: "do_call c w = (a, w1)" by fastforce
  then have "flushed w1 = flushed w" "answers w1 = answers w" using Cons.prems(1) by (auto simp: do_call_def flushed_def)
  then show ?case using Cons d by (cases a) (auto simp: do_call_def)
qed simp

lemma setup_is_no_flush: "list_all (\<lambda>c. \<not> is_Sdk c) (setup_calls p)"
  by (simp add: setup_calls_def)

lemma guarded_all:
  assumes "\<forall>i e. answers w i = Some e \<longrightarrow> is_Exception e"
  shows "guarded cs w = (None, w\<lparr>calls := calls w @ cs\<rparr>)"
  using assms
proof (induction cs arbitrary: w)
  case (Cons c cs)
  have "swallow (answers w (length (calls w))) = None" using Cons.prems by (simp add: swallow_eq_None)
  then show ?case using Cons.IH [of "w\<lparr>calls := calls w @ [c]\<rparr>"] Cons.prems by (simp add: do_call_def)
qed simp

lemma flush_calls_sdk: "filter is_Sdk (flush_calls p) = flush_calls p"
  by (simp add: flush_calls_def)

text \<open>An application that leaves the telemetry to its lifecycle.\<close>

definition leaves_telemetry :: "(telemetry \<Rightarrow> exc option \<times> telemetry) \<Rightarrow> bool" where
  "leaves_telemetry body = (\<forall>w. calls (snd (body w)) = calls w \<and> answers (snd (body w)) = answers w)"

subsection \<open>Properties\<close>


definition quiet_telemetry :: telemetry where
  "quiet_telemetry = \<lparr>calls = [], answers = (\<lambda>_. None), metrics_ready = False, metrics_var = False\<rparr>"


text \<open>The metrics are there for the transactions once the setup is done.\<close>

lemma metrics_after_setup: "provider_enter p w = (None, w') \<Longrightarrow> message_bus_metrics w' = Inr ()"
  by (auto simp: provider_enter_def message_bus_metrics_def split: prod.splits option.splits)

end
