(* ===== verification/Worker_Context.thy ===== *)
theory Worker_Context
  imports Worker_Slots Message_Handling Context_Vars
begin

section \<open>The context of a handler\<close>

text \<open>
  What surrounds a handler in the worker: \<open>ScheduledMessageHandlerCallback.run_with_context\<close> and the context managers of
  \<open>MessageHandlerCallback.handle_message\<close> in \<^verbatim>\<open>messagebus/worker.py\<close>, with the unit of work (\<^verbatim>\<open>core/uow.py\<close>), the processing
  slot and its report, and \<open>_wait_delay_or_shutdown\<close>.

  Every delivery runs in a task of its own. A task is resumed any number of times, between which other tasks run: in each of its
  steps it enters a context manager, acts in the handler, or leaves a context manager. The interceptors of the application
  are context managers that provide a value of the context. The shutdown event does not change in the runs considered here.
\<close>

subsection \<open>Entering and leaving a context manager\<close>

text \<open>
  The two halves of \<open>with_var\<close>, as the generator of the context manager is suspended between them: a token is the context it was made in with
  the values of the variables there.
\<close>

definition finish_var :: "(exc \<Rightarrow> bool) \<Rightarrow> 'a cvar \<Rightarrow> nat \<Rightarrow> vars \<Rightarrow> exc option \<Rightarrow> body" where
  "finish_var suppressed V n old r s =
     (case var_reset V \<lparr>tk_context = n, tk_old = cv_get V old\<rparr> s of
        (None, s') \<Rightarrow> (r, s') | (Some e, s') \<Rightarrow> (if suppressed e then r else Some e, s'))"

definition enter_manager :: "provision \<Rightarrow> ctx_state \<Rightarrow> ctx_state" where
  "enter_manager p s = put_cur (bind p (cur s)) s"

fun exit_manager :: "provision \<Rightarrow> nat \<Rightarrow> vars \<Rightarrow> exc option \<Rightarrow> body" where
  "exit_manager (AppContext a) = finish_var value_error app_transaction_context_var"
| "exit_manager (AContainer c) = finish_var value_error current_container_ctx"
| "exit_manager (AShutdown x) = finish_var value_error shutdown_state_ctx"
| "exit_manager (AType t) = finish_var value_error app_type_var"
| "exit_manager (ANode n) = finish_var value_error instantiation_vector_ctxvar"
| "exit_manager (AMember m) = finish_var nothing controller_member_ctxvar"
| "exit_manager (AManager m) = finish_var value_error ws_conn_manager_ctx"
| "exit_manager (ASender m) = finish_var value_error ws_msg_sender_ctx"
| "exit_manager (AController c) = finish_var lookup_error bus_message_controller_ctxvar"
| "exit_manager (ATracing t) = finish_var value_error tracing_ctx_provider_ctxv"
| "exit_manager (AMetadata md) = finish_var value_error metadata_context_var"
| "exit_manager (AKwargs kw) = finish_var value_error metadata_context_var"
| "exit_manager (AHeaders q hs) = finish_var nothing implicit_headers_ctx"

lemma with_var_halves:
  "with_var f V v b s =
     (let (r, t) = b (put_cur (cv_put V (Some v) (cur s)) s) in finish_var f V (current s) (cur s) r t)"
  by (simp add: with_var_def finish_var_def var_set_def Let_def split: prod.splits option.splits)

lemma provide_halves:
  "provide p b s = (let (r, t) = b (enter_manager p s) in exit_manager p (current s) (cur s) r t)"
  by (cases p)
     (auto simp: provide_defs with_var_halves enter_manager_def cv_puts id_def Let_def split: prod.splits option.splits)

lemma exit_restores:
  assumes "current s = n" "cur s = bind p old"
  shows "exit_manager p n old r s = (r, put_cur old s)"
proof -
  have "provide p (\<lambda>_. (r, s)) (s\<lparr>contexts := (contexts s)(n := old)\<rparr>) = (r, put_cur old s)"
    using provide_restores [of "\<lambda>_. (r, s)" p "s\<lparr>contexts := (contexts s)(n := old)\<rparr>" r s] assms
    by (simp add: cur_def)
  then show ?thesis using assms(1) by (simp add: provide_halves cur_def)
qed

subsection \<open>The managers around a handler\<close>

text \<open>What the consumer of the worker gives to every handler: its shutdown state, the container and the interceptors.\<close>

record consumer_context =
  cc_shutdown :: nat
  cc_container :: nat
  cc_interceptors :: "provision list"

text \<open>\<open>ScheduledActionData\<close> and \<open>MessageHandlerData\<close>, by what the callbacks read of them.\<close>

record scheduled_action =
  sa_member :: string
  sa_metadata :: metadata
  sa_name :: "string option"
  sa_qualname :: string
  sa_cron :: string

record message_handler =
  mh_member :: string
  mh_metadata :: metadata
  mh_type :: string
  mh_queue :: string

definition action_topic :: "scheduled_action \<Rightarrow> string" where
  "action_topic a = (case sa_name a of Some n \<Rightarrow> if n \<noteq> [] then n else sa_qualname a | None \<Rightarrow> sa_qualname a)"

definition uow_managers :: "consumer_context \<Rightarrow> metadata \<Rightarrow> app_transaction_context \<Rightarrow> provision list" where
  "uow_managers cc md tx = [AMetadata md, AppContext tx, AContainer (cc_container cc)] @ cc_interceptors cc"

text \<open>\<open>run_with_context\<close>; the two readings of the clock are arguments, in their order.\<close>

definition scheduler_data :: "scheduled_action \<Rightarrow> int \<Rightarrow> int \<Rightarrow> rat \<Rightarrow> transaction_data" where
  "scheduler_data a now later wait = SchedulerTransactionData (action_topic a) later now (sa_cron a) wait"

definition run_with_context :: "consumer_context \<Rightarrow> scheduled_action \<Rightarrow> int \<Rightarrow> int \<Rightarrow> rat \<Rightarrow> provision list" where
  "run_with_context cc a now later wait =
     AShutdown (cc_shutdown cc) #
     uow_managers cc (sa_metadata a) \<lparr>tx_data = scheduler_data a now later wait, tx_member = sa_member a\<rparr>"

text \<open>The managers of \<open>handle_message\<close>: \<open>obj\<close> is the built message and \<open>ctl\<close> the message controller, both made for this delivery.\<close>

definition bus_data :: "message_handler \<Rightarrow> incoming \<Rightarrow> int \<Rightarrow> nat \<Rightarrow> rat \<Rightarrow> transaction_data" where
  "bus_data h msg retry_count obj wait =
     MessageBusTransactionData (mh_queue h) obj (mh_type h) (in_message_id msg) (retry_count + 1) wait"

definition handler_managers ::
  "consumer_context \<Rightarrow> message_handler \<Rightarrow> incoming \<Rightarrow> int \<Rightarrow> nat \<Rightarrow> nat \<Rightarrow> rat \<Rightarrow> provision list" where
  "handler_managers cc h msg retry_count obj ctl wait =
     [AHeaders False (forwardable_headers msg), AShutdown (cc_shutdown cc)] @
     uow_managers cc (mh_metadata h) \<lparr>tx_data = bus_data h msg retry_count obj wait, tx_member = mh_member h\<rparr> @
     [AController ctl]"

subsection \<open>Tasks\<close>

text \<open>What a handler does with the context; a settling operation gives what the controller raises.\<close>

datatype handler_act = Reads use | Raises exc | Settles bus_op "exc option"

datatype delivery =
    Trigger scheduled_action int int rat "handler_act list"
  | Bus message_handler incoming int nat nat rat "handler_act list"

fun managers_of :: "consumer_context \<Rightarrow> delivery \<Rightarrow> provision list" where
  "managers_of cc (Trigger a now later wait acts) = run_with_context cc a now later wait"
| "managers_of cc (Bus h msg n obj ctl wait acts) = handler_managers cc h msg n obj ctl wait"

fun actions_of :: "delivery \<Rightarrow> handler_act list" where
  "actions_of (Trigger a now later wait acts) = acts"
| "actions_of (Bus h msg n obj ctl wait acts) = acts"

fun do_action :: "handler_act \<Rightarrow> ctx_state \<Rightarrow> exc option \<times> seen list" where
  "do_action (Reads u) s = (case do_use u s of Inl e \<Rightarrow> (Some e, []) | Inr v \<Rightarrow> (None, [v]))"
| "do_action (Raises e) s = (Some e, [])"
| "do_action (Settles op outcome) s =
     (case use_bus_message_controller s of Inl e \<Rightarrow> (Some e, []) | Inr c \<Rightarrow> (outcome, [Settled c op]))"

record ctask =
  ct_enter :: "provision list"
  ct_actions :: "handler_act list"
  ct_open :: "(provision \<times> nat \<times> vars) list"
  ct_raised :: "exc option"
  ct_saw :: "seen list"

definition new_task :: "consumer_context \<Rightarrow> delivery \<Rightarrow> ctask" where
  "new_task cc d = \<lparr>ct_enter = managers_of cc d, ct_actions = actions_of d, ct_open = [], ct_raised = None, ct_saw = []\<rparr>"

definition acted :: "ctask \<Rightarrow> bool" where
  "acted t = (ct_actions t = [] \<or> ct_raised t \<noteq> None)"

definition ended :: "ctask \<Rightarrow> bool" where
  "ended t = (ct_enter t = [] \<and> acted t \<and> ct_open t = [])"

definition resume :: "ctask \<Rightarrow> ctx_state \<Rightarrow> ctask \<times> ctx_state" where
  "resume t s =
     (case ct_enter t of
        p # ps \<Rightarrow> (t\<lparr>ct_enter := ps, ct_open := (p, current s, cur s) # ct_open t\<rparr>, enter_manager p s)
      | [] \<Rightarrow>
          if \<not> acted t
          then (let (r, vs) = do_action (hd (ct_actions t)) s
                in (t\<lparr>ct_actions := tl (ct_actions t), ct_raised := r, ct_saw := ct_saw t @ vs\<rparr>, s))
          else (case ct_open t of
                  [] \<Rightarrow> (t, s)
                | (p, n, old) # rest \<Rightarrow>
                    (let (r, s') = exit_manager p n old (ct_raised t) s in (t\<lparr>ct_open := rest, ct_raised := r\<rparr>, s'))))"

text \<open>
  The worker: the consumer's callback runs in context 0 and creates a task in a copy of it; task \<open>i\<close> runs in context \<open>i + 1\<close>.
\<close>

record worker_ctx =
  wk_state :: ctx_state
  wk_tasks :: "ctask list"

datatype worker_turn = Delivered delivery | Resumed nat

fun worker_ctx_step :: "consumer_context \<Rightarrow> worker_turn \<Rightarrow> worker_ctx \<Rightarrow> worker_ctx option" where
  "worker_ctx_step cc (Delivered d) w =
     (let s = wk_state w
      in Some \<lparr>wk_state = s\<lparr>contexts := (contexts s)(next_context s := contexts s 0), next_context := Suc (next_context s)\<rparr>,
               wk_tasks = wk_tasks w @ [new_task cc d]\<rparr>)"
| "worker_ctx_step cc (Resumed i) w =
     (if i < length (wk_tasks w)
      then (let (t, s) = resume (wk_tasks w ! i) ((wk_state w)\<lparr>current := Suc i\<rparr>)
            in Some \<lparr>wk_state = s\<lparr>current := 0\<rparr>, wk_tasks = (wk_tasks w)[i := t]\<rparr>)
      else None)"

fun worker_ctx_run :: "consumer_context \<Rightarrow> worker_turn list \<Rightarrow> worker_ctx \<Rightarrow> worker_ctx option" where
  "worker_ctx_run cc [] w = Some w"
| "worker_ctx_run cc (e # es) w =
     (case worker_ctx_step cc e w of None \<Rightarrow> None | Some w1 \<Rightarrow> worker_ctx_run cc es w1)"

definition worker_ctx_start :: "vars \<Rightarrow> nat set \<Rightarrow> worker_ctx" where
  "worker_ctx_start base asked =
     \<lparr>wk_state = \<lparr>requested = asked, seen_log = [], current = 0, contexts = (\<lambda>_. base), next_context = 1\<rparr>, wk_tasks = []\<rparr>"

interpretation worker_context: machine "worker_ctx_step cc" "worker_ctx_run cc"
  by unfold_locales simp_all


subsection \<open>What a handler should see\<close>

text \<open>The actions of a handler alone, in one context.\<close>

definition seen_from :: "vars \<Rightarrow> nat set \<Rightarrow> ctx_state" where
  "seen_from c asked = alone c \<lparr>requested = asked, seen_log = []\<rparr>"

primrec run_actions :: "vars \<Rightarrow> nat set \<Rightarrow> handler_act list \<Rightarrow> exc option \<times> seen list" where
  "run_actions c asked [] = (None, [])"
| "run_actions c asked (a # as) =
     (case do_action a (seen_from c asked) of
        (Some e, vs) \<Rightarrow> (Some e, vs)
      | (None, vs) \<Rightarrow> (let (r, ws) = run_actions c asked as in (r, vs @ ws)))"

lemma do_action_local: "do_action a s = do_action a (seen_from (cur s) (requested s))"
proof (cases a)
  case (Reads u)
  then show ?thesis
    by (cases u) (simp_all add: use_app_transaction_context_def use_app_tx_ctx_data_def use_current_container_def is_shutting_down_def
      use_app_type_def use_controller_member_def use_ws_manager_def use_ws_message_sender_def get_tracing_ctx_provider_def
      metadata_value_def get_metadata_def get_all_metadata_def use_implicit_headers_def var_get_def seen_from_def alone_def,
      simp_all add: cur_def)
qed (simp_all add: use_bus_message_controller_def var_get_def seen_from_def alone_def, simp_all add: cur_def)

primrec deliveries :: "worker_turn list \<Rightarrow> delivery list" where
  "deliveries [] = []"
| "deliveries (e # es) = (case e of Delivered d \<Rightarrow> d # deliveries es | Resumed i \<Rightarrow> deliveries es)"

lemma deliveries_append [simp]: "deliveries (es @ fs) = deliveries es @ deliveries fs"
  by (induction es) (auto split: worker_turn.split)

definition bindings :: "consumer_context \<Rightarrow> vars \<Rightarrow> delivery \<Rightarrow> vars" where
  "bindings cc base d = fold bind (managers_of cc d) base"

subsection \<open>One task\<close>

text \<open>The tokens held after the managers \<open>ps\<close> were entered in context \<open>n\<close>, the last first.\<close>

fun opened :: "nat \<Rightarrow> provision list \<Rightarrow> vars \<Rightarrow> (provision \<times> nat \<times> vars) list" where
  "opened n [] c = []"
| "opened n (p # ps) c = opened n ps (bind p c) @ [(p, n, c)]"

lemma opened_snoc [simp]: "opened n (ps @ [p]) c = (p, n, fold bind ps c) # opened n ps c"
  by (induction n ps c rule: opened.induct) simp_all

lemma opened_cases:
  assumes "opened n ps c = (p, m, old) # rest"
  obtains qs where "ps = qs @ [p]" "m = n" "old = fold bind qs c" "rest = opened n qs c"
  using assms by (cases ps rule: rev_cases) auto

lemma opened_Nil [simp]: "opened n ps c = [] \<longleftrightarrow> ps = []" "[] = opened n ps c \<longleftrightarrow> ps = []"
  by (cases ps; simp)+

text \<open>What the task will have raised and seen when its handler has ended.\<close>

definition outcome_of :: "vars \<Rightarrow> nat set \<Rightarrow> ctask \<Rightarrow> exc option \<times> seen list" where
  "outcome_of c asked t =
     (case ct_raised t of
        Some e \<Rightarrow> (Some e, ct_saw t)
      | None \<Rightarrow> (let (r, ws) = run_actions c asked (ct_actions t) in (r, ct_saw t @ ws)))"

definition work :: "ctask \<Rightarrow> nat" where
  "work t = 2 * length (ct_enter t) + (if acted t then 0 else length (ct_actions t)) + length (ct_open t)"

definition task_inv ::
  "consumer_context \<Rightarrow> vars \<Rightarrow> nat set \<Rightarrow> nat \<Rightarrow> delivery \<Rightarrow> vars \<Rightarrow> ctask \<Rightarrow> bool" where
  "task_inv cc base asked n d c t \<longleftrightarrow>
     outcome_of (bindings cc base d) asked t = run_actions (bindings cc base d) asked (actions_of d) \<and>
     (\<exists>ps qs. managers_of cc d = ps @ qs \<and> c = fold bind ps base \<and> ct_open t = opened n ps base
        \<and> (ct_enter t = qs \<or> ct_enter t = [] \<and> acted t))"

lemma task_invI:
  assumes "outcome_of (bindings cc base d) asked t = run_actions (bindings cc base d) asked (actions_of d)"
    "managers_of cc d = ps @ qs" "c = fold bind ps base" "ct_open t = opened n ps base"
    "ct_enter t = qs \<or> ct_enter t = [] \<and> acted t"
  shows "task_inv cc base asked n d c t"
  using assms unfolding task_inv_def by blast

lemma new_task_inv: "task_inv cc base asked n d base (new_task cc d)"
  by (rule task_invI [where ps = "[]" and qs = "managers_of cc d"]) (simp_all add: new_task_def outcome_of_def)

lemma outcome_of_same [simp]:
  "outcome_of c asked (t\<lparr>ct_enter := ps\<rparr>) = outcome_of c asked t"
  "outcome_of c asked (t\<lparr>ct_open := os\<rparr>) = outcome_of c asked t"
  by (auto simp: outcome_of_def split: option.split)

lemma outcome_step:
  assumes "\<not> acted t" "do_action (hd (ct_actions t)) (seen_from c asked) = (r, vs)"
  shows "outcome_of c asked (t\<lparr>ct_actions := tl (ct_actions t), ct_raised := r, ct_saw := ct_saw t @ vs\<rparr>) = outcome_of c asked t"
  using assms by (cases "ct_actions t") (auto simp: acted_def outcome_of_def split: option.splits prod.splits)

text \<open>A task changes its own context only, and keeps the invariant.\<close>

lemma resume_inv:
  assumes "task_inv cc base asked (current s) d (cur s) t" "requested s = asked" "resume t s = (t', s')"
  shows "task_inv cc base asked (current s) d (cur s') t' \<and> (\<exists>c. s' = put_cur c s) \<and> (ended t \<or> work t' < work t)"
proof -
  from assms(1) obtain ps qs where m: "managers_of cc d = ps @ qs" "cur s = fold bind ps base"
    "ct_open t = opened (current s) ps base" "ct_enter t = qs \<or> ct_enter t = [] \<and> acted t"
    and o: "outcome_of (bindings cc base d) asked t = run_actions (bindings cc base d) asked (actions_of d)"
    unfolding task_inv_def by blast
  have same: "s = put_cur (cur s) s" by (simp add: put_cur_def cur_def)
  show ?thesis
  proof (cases "ct_enter t")
    case (Cons p rest)
    then have q: "qs = p # rest" using m(4) by auto
    from Cons assms(3) have t': "t' = t\<lparr>ct_enter := rest, ct_open := (p, current s, cur s) # ct_open t\<rparr>" "s' = enter_manager p s"
      by (auto simp: resume_def)
    have "task_inv cc base asked (current s) d (cur s') t'"
      by (rule task_invI [where ps = "ps @ [p]" and qs = rest])
         (use m o q in \<open>simp_all add: t' enter_manager_def\<close>)
    then show ?thesis using Cons by (auto simp: t' enter_manager_def work_def acted_def)
  next
    case Nil
    show ?thesis
    proof (cases "acted t")
      case False
      then have c: "cur s = bindings cc base d" using m Nil by (auto simp: bindings_def)
      obtain r vs where a: "do_action (hd (ct_actions t)) s = (r, vs)" by fastforce
      with Nil False assms(3) have t': "t' = t\<lparr>ct_actions := tl (ct_actions t), ct_raised := r, ct_saw := ct_saw t @ vs\<rparr>" "s' = s"
        by (auto simp: resume_def)
      have "outcome_of (bindings cc base d) asked t' = outcome_of (bindings cc base d) asked t"
        unfolding t' by (rule outcome_step [OF False]) (use a c assms(2) do_action_local [of _ s] in simp)
      then have "task_inv cc base asked (current s) d (cur s') t'"
        by (intro task_invI [where ps = ps and qs = qs]) (use m o Nil False in \<open>simp_all add: t' \<close>)
      then show ?thesis using Nil False same by (auto simp: t' work_def acted_def)
    next
      case True
      show ?thesis
      proof (cases "ct_open t")
        case op: Nil
        then have "t' = t" "s' = s" using Nil True assms(3) by (auto simp: resume_def)
        then show ?thesis using assms(1) same Nil True op by (auto simp: ended_def)
      next
        case (Cons x rest)
        obtain p n old where x: "x = (p, n, old)" by (cases x)
        from Cons x m(3) obtain us where u: "ps = us @ [p]" "n = current s" "old = fold bind us base" "rest = opened (current s) us base"
          by (metis opened_cases)
        have "exit_manager p n old (ct_raised t) s = (ct_raised t, put_cur old s)"
          by (rule exit_restores) (use u m(2) in simp_all)
        then have t': "t' = t\<lparr>ct_open := rest\<rparr>" "s' = put_cur old s"
          using Cons x Nil True assms(3) by (auto simp: resume_def)
        have "task_inv cc base asked (current s) d (cur s') t'"
          by (rule task_invI [where ps = us and qs = "p # qs"])
             (use m o u Nil True in \<open>simp_all add: t' acted_def\<close>)
        then show ?thesis using Nil True Cons by (auto simp: t' work_def acted_def)
      qed
    qed
  qed
qed


subsection \<open>All tasks\<close>

definition budget :: "consumer_context \<Rightarrow> delivery \<Rightarrow> nat" where
  "budget cc d = 2 * length (managers_of cc d) + length (actions_of d)"

text \<open>The turns of task \<open>i\<close> among \<open>es\<close> come off the work it has left.\<close>

definition task_ok :: "consumer_context \<Rightarrow> vars \<Rightarrow> nat set \<Rightarrow> delivery \<Rightarrow> nat \<Rightarrow> worker_ctx \<Rightarrow> nat \<Rightarrow> bool" where
  "task_ok cc base asked d turns w i \<longleftrightarrow>
     task_inv cc base asked (Suc i) d (contexts (wk_state w) (Suc i)) (wk_tasks w ! i) \<and>
     (ended (wk_tasks w ! i) \<or> work (wk_tasks w ! i) + turns \<le> budget cc d)"

definition worker_inv :: "consumer_context \<Rightarrow> vars \<Rightarrow> nat set \<Rightarrow> worker_turn list \<Rightarrow> worker_ctx \<Rightarrow> bool" where
  "worker_inv cc base asked es w \<longleftrightarrow>
     length (wk_tasks w) = length (deliveries es) \<and> next_context (wk_state w) = Suc (length (wk_tasks w)) \<and>
     contexts (wk_state w) 0 = base \<and> requested (wk_state w) = asked \<and>
     (\<forall>i < length (wk_tasks w). task_ok cc base asked (deliveries es ! i) (count_list es (Resumed i)) w i)"

lemma resume_ended: "ended t \<Longrightarrow> resume t s = (t, s)"
  by (simp add: ended_def resume_def)

lemma new_task_work: "work (new_task cc d) \<le> budget cc d"
  by (simp add: work_def budget_def new_task_def)

lemma delivered_inv:
  assumes "worker_inv cc base asked es w" "worker_ctx_step cc (Delivered d) w = Some w'"
    "count_list es (Resumed (length (wk_tasks w))) = 0"
  shows "worker_inv cc base asked (es @ [Delivered d]) w'"
proof -
  let ?s = "wk_state w"
  from assms(2) have w': "w' = \<lparr>wk_state = ?s\<lparr>contexts := (contexts ?s)(next_context ?s := contexts ?s 0), next_context := Suc (next_context ?s)\<rparr>,
     wk_tasks = wk_tasks w @ [new_task cc d]\<rparr>"
    by (simp add: Let_def)
  have "task_ok cc base asked (deliveries (es @ [Delivered d]) ! i) (count_list (es @ [Delivered d]) (Resumed i)) w' i"
    if "i < length (wk_tasks w')" for i
  proof (cases "i < length (wk_tasks w)")
    case True
    then show ?thesis using assms(1) by (auto simp: worker_inv_def task_ok_def w' nth_append)
  next
    case False
    then have "i = length (wk_tasks w)" using that by (simp add: w')
    then show ?thesis using assms(1,3) new_task_inv new_task_work by (simp add: worker_inv_def task_ok_def w' nth_append)
  qed
  moreover have "length (wk_tasks w') = length (deliveries (es @ [Delivered d]))" "next_context (wk_state w') = Suc (length (wk_tasks w'))"
    "contexts (wk_state w') 0 = base" "requested (wk_state w') = asked"
    using assms(1) by (simp_all add: worker_inv_def w')
  ultimately show ?thesis by (simp only: worker_inv_def) blast
qed

lemma resumed_task_ok:
  assumes "worker_inv cc base asked es w" "i < length (wk_tasks w)"
    and r: "resume (wk_tasks w ! i) ((wk_state w)\<lparr>current := Suc i\<rparr>) = (t, s)"
  shows "\<exists>c. s = put_cur c ((wk_state w)\<lparr>current := Suc i\<rparr>) \<and> task_inv cc base asked (Suc i) (deliveries es ! i) c t
    \<and> (ended t \<or> work t + Suc (count_list es (Resumed i)) \<le> budget cc (deliveries es ! i))"
proof -
  let ?s = "(wk_state w)\<lparr>current := Suc i\<rparr>" and ?t = "wk_tasks w ! i"
  have ok: "task_inv cc base asked (Suc i) (deliveries es ! i) (contexts (wk_state w) (Suc i)) ?t"
    "ended ?t \<or> work ?t + count_list es (Resumed i) \<le> budget cc (deliveries es ! i)" "requested ?s = asked"
    using assms(1,2) by (simp_all add: worker_inv_def task_ok_def)
  have "task_inv cc base asked (current ?s) (deliveries es ! i) (cur ?s) ?t" using ok(1) by (simp add: cur_def)
  from resume_inv [OF this ok(3) r] obtain c where c: "s = put_cur c ?s" and
    t: "task_inv cc base asked (Suc i) (deliveries es ! i) (cur s) t" and m: "ended ?t \<or> work t < work ?t"
    by (elim conjE exE) simp
  have "ended t \<or> work t + Suc (count_list es (Resumed i)) \<le> budget cc (deliveries es ! i)"
  proof (cases "ended ?t")
    case True
    then show ?thesis using resume_ended [OF True, of ?s] r by simp
  qed (use m ok(2) in auto)
  then show ?thesis using c t by auto
qed

lemma resumed_inv:
  assumes "worker_inv cc base asked es w" "worker_ctx_step cc (Resumed i) w = Some w'"
  shows "worker_inv cc base asked (es @ [Resumed i]) w'"
proof -
  obtain t s where r: "resume (wk_tasks w ! i) ((wk_state w)\<lparr>current := Suc i\<rparr>) = (t, s)" by fastforce
  with assms(2) have i: "i < length (wk_tasks w)" and w': "w' = \<lparr>wk_state = s\<lparr>current := 0\<rparr>, wk_tasks = (wk_tasks w)[i := t]\<rparr>"
    by (auto split: if_splits)
  from resumed_task_ok [OF assms(1) i r] obtain c where c: "s = put_cur c ((wk_state w)\<lparr>current := Suc i\<rparr>)"
    and t: "task_inv cc base asked (Suc i) (deliveries es ! i) c t"
      "ended t \<or> work t + Suc (count_list es (Resumed i)) \<le> budget cc (deliveries es ! i)"
    by blast
  have s: "contexts s = (contexts (wk_state w))(Suc i := c)" "requested s = requested (wk_state w)"
    "next_context s = next_context (wk_state w)"
    by (simp_all add: c put_cur_def)
  have "task_ok cc base asked (deliveries (es @ [Resumed i]) ! k) (count_list (es @ [Resumed i]) (Resumed k)) w' k"
    if "k < length (wk_tasks w)" for k
    using assms(1) t i that by (cases "k = i") (simp_all add: worker_inv_def task_ok_def w' s)
  then show ?thesis using assms(1) by (simp add: worker_inv_def w' s)
qed

lemma worker_run_inv:
  "worker_ctx_run cc es (worker_ctx_start base asked) = Some w \<Longrightarrow>
   worker_inv cc base asked es w \<and> (\<forall>i \<ge> length (wk_tasks w). count_list es (Resumed i) = 0)"
proof (induction es arbitrary: w rule: rev_induct)
  case Nil
  then show ?case by (auto simp: worker_inv_def worker_ctx_start_def)
next
  case (snoc e es)
  from snoc.prems obtain w1 where w: "worker_ctx_run cc es (worker_ctx_start base asked) = Some w1" "worker_ctx_step cc e w1 = Some w"
    by (auto simp: worker_context.run_append split: option.splits)
  note ih = snoc.IH [OF w(1)]
  show ?case
  proof (cases e)
    case (Delivered d)
    then show ?thesis using ih delivered_inv [of cc base asked es w1 d w] w(2) by (auto simp: Let_def)
  next
    case (Resumed i)
    then have "i < length (wk_tasks w1)" "length (wk_tasks w) = length (wk_tasks w1)"
      using w(2) by (auto split: if_splits prod.splits)
    then show ?thesis using ih resumed_inv [of cc base asked es w1 i w] w(2) Resumed by auto
  qed
qed

subsection \<open>What the bindings are\<close>

fun data_of :: "delivery \<Rightarrow> transaction_data" where
  "data_of (Trigger a now later wait acts) = scheduler_data a now later wait"
| "data_of (Bus h msg n obj ctl wait acts) = bus_data h msg n obj wait"

text \<open>An interceptor of the application that leaves the worker's own variables alone.\<close>

fun leaves_worker_vars :: "provision \<Rightarrow> bool" where
  "leaves_worker_vars (AppContext a) = False"
| "leaves_worker_vars (AShutdown x) = False"
| "leaves_worker_vars (AController c) = False"
| "leaves_worker_vars _ = True"

lemma fold_bind_leaves:
  "list_all leaves_worker_vars ps \<Longrightarrow>
   app_context (fold bind ps c) = app_context c \<and> shutdown_state (fold bind ps c) = shutdown_state c
   \<and> bus_controller (fold bind ps c) = bus_controller c"
proof (induction ps arbitrary: c)
  case (Cons p ps)
  then show ?case by (cases p) auto
qed simp

lemma bindings_values:
  assumes "list_all leaves_worker_vars (cc_interceptors cc)"
  shows "map_option tx_data (app_context (bindings cc base d)) = Some (data_of d)"
    and "shutdown_state (bindings cc base d) = Some (cc_shutdown cc)"
    and "bus_controller (bindings cc base d) =
      (case d of Bus h msg n obj ctl wait acts \<Rightarrow> Some ctl | Trigger a now later wait acts \<Rightarrow> bus_controller base)"
  using fold_bind_leaves [OF assms]
  by (cases d; simp add: bindings_def run_with_context_def handler_managers_def uow_managers_def)+

text \<open>A reading is right for a context when it shows a value of that context.\<close>

fun reads_from :: "vars \<Rightarrow> nat set \<Rightarrow> seen \<Rightarrow> bool" where
  "reads_from c asked (SawData x) = (map_option tx_data (app_context c) = Some x)"
| "reads_from c asked (SawContext a) = (app_context c = Some a)"
| "reads_from c asked (SawShutdown b) = (map_option (\<lambda>x. x \<in> asked) (shutdown_state c) = Some b)"
| "reads_from c asked (Settled x op) = (bus_controller c = Some x)"
| "reads_from c asked _ = True"

lemma do_action_reads: "v \<in> set (snd (do_action a (seen_from c asked))) \<Longrightarrow> reads_from c asked v"
proof (cases a)
  case (Reads u)
  moreover assume "v \<in> set (snd (do_action a (seen_from c asked)))"
  ultimately show ?thesis
    by (cases u) (auto simp: use_app_transaction_context_def use_app_tx_ctx_data_def is_shutting_down_def use_current_container_def
      use_app_type_def use_controller_member_def use_ws_manager_def use_ws_message_sender_def
      var_get_def var_defs seen_from_def alone_def cur_def split: option.splits sum.splits)
qed (auto simp: use_bus_message_controller_def var_get_def var_defs seen_from_def alone_def cur_def split: option.splits sum.splits)

lemma run_actions_reads: "v \<in> set (snd (run_actions c asked as)) \<Longrightarrow> reads_from c asked v"
proof (induction as)
  case (Cons a as)
  obtain r vs where a: "do_action a (seen_from c asked) = (r, vs)" by fastforce
  then have "v \<in> set vs \<Longrightarrow> reads_from c asked v" using do_action_reads [of v a c asked] by simp
  then show ?case using Cons a by (auto split: option.splits prod.splits)
qed simp

lemma outcome_saw: "set (ct_saw t) \<subseteq> set (snd (outcome_of c asked t))"
  by (auto simp: outcome_of_def split: option.splits prod.splits)

subsection \<open>Waiting and reporting\<close>

text \<open>
  \<open>_WorkerShutdownState\<close> and \<open>_wait_delay_or_shutdown\<close> by the time the event is set, if it ever is: the wait ends then or after the delay.
\<close>

definition is_shutdown_requested :: "rat option \<Rightarrow> rat \<Rightarrow> bool" where
  "is_shutdown_requested set_at now = (case set_at of None \<Rightarrow> False | Some t \<Rightarrow> t \<le> now)"

definition wait_delay_or_shutdown :: "rat \<Rightarrow> rat option \<Rightarrow> rat \<Rightarrow> rat" where
  "wait_delay_or_shutdown delay set_at now =
     (let timeout = now + max 0 delay
      in case set_at of None \<Rightarrow> timeout | Some t \<Rightarrow> min timeout (max now t))"

lemma wait_delay_or_shutdown_bounds:
  "now \<le> wait_delay_or_shutdown delay set_at now \<and> wait_delay_or_shutdown delay set_at now \<le> now + max 0 delay
   \<and> (wait_delay_or_shutdown delay set_at now < now + max 0 delay \<longrightarrow>
        is_shutdown_requested set_at (wait_delay_or_shutdown delay set_at now))"
  by (auto simp: wait_delay_or_shutdown_def is_shutdown_requested_def Let_def min_def max_def split: option.splits)

definition slot_wait_warning_threshold :: rat where
  "slot_wait_warning_threshold = 1"

record slot_log =
  slot_waits :: "(string \<times> string \<times> rat) list"             \<comment> \<open>topic, queue and wait, as recorded in the histogram\<close>
  saturated :: "(string \<times> rat \<times> string \<times> int) list"        \<comment> \<open>queue, wait, channel and prefetch of the warnings\<close>

definition report_slot_wait :: "consumer \<Rightarrow> string \<Rightarrow> string \<Rightarrow> string \<Rightarrow> rat \<Rightarrow> slot_log \<Rightarrow> slot_log" where
  "report_slot_wait c topic queue channel waited l =
     (let l1 = l\<lparr>slot_waits := slot_waits l @ [(topic, queue, waited)]\<rparr>
      in if slot_wait_warning_threshold \<le> waited
         then l1\<lparr>saturated := saturated l1 @ [(queue, waited, channel, get_channel_prefetch_count c channel)]\<rparr>
         else l1)"

text \<open>
  \<open>run_within_processing_slot\<close> of both callbacks up to the handler: \<open>since\<close> and \<open>now\<close> are the readings of the clock around the
  acquisition, and the wait that is reported is handed to the handler. \<open>None\<close> when there is no free permit.
\<close>

definition run_within_processing_slot ::
  "nat \<Rightarrow> string \<Rightarrow> string \<Rightarrow> string \<Rightarrow> rat \<Rightarrow> rat \<Rightarrow> consumer \<Rightarrow> slot_log \<Rightarrow> (rat \<times> consumer \<times> slot_log) option" where
  "run_within_processing_slot t topic queue channel since now c l =
     (case enter_slot t c of
        None \<Rightarrow> None
      | Some c1 \<Rightarrow>
          (let waited = (if get_channel_prefetch_count c channel \<le> 0 then 0 else now - since)
           in Some (waited, c1, report_slot_wait c1 topic queue channel waited l)))"

lemma enter_slot_config:
  "enter_slot t c = Some c1 \<Longrightarrow> get_channel_prefetch_count c1 channel = get_channel_prefetch_count c channel"
  by (auto simp: enter_slot_def get_processing_slot_def get_channel_prefetch_count_def set_phase_def Let_def
      split: option.splits if_splits nat.splits)

text \<open>Every run that gets its slot is in the histogram; a warning is for a bounded channel and a wait of a second at least.\<close>

lemma slot_reports:
  assumes "run_within_processing_slot t topic queue channel since now c l = Some (waited, c1, l1)"
  shows "slot_waits l1 = slot_waits l @ [(topic, queue, waited)]"
    and "saturated l1 \<noteq> saturated l \<longleftrightarrow> 0 < get_channel_prefetch_count c channel \<and> 1 \<le> now - since"
  using assms enter_slot_config [of t c c1 channel]
  by (auto simp: run_within_processing_slot_def report_slot_wait_def slot_wait_warning_threshold_def Let_def
      split: option.splits if_splits)

subsection \<open>The message locker\<close>

text \<open>
  \<open>MessageProcessingLocker\<close>: the lock is held until the block ends, and its waiters are woken in their order. A task in the set is one
  that \<open>wait_all_messages_processed\<close> waits for.
\<close>

record locker =
  lk_holder :: "nat option"
  lk_waiters :: "nat list"
  current_processing :: "nat set"

datatype locker_event = Locks nat | Unlocks nat

definition no_locker :: locker where
  "no_locker = \<lparr>lk_holder = None, lk_waiters = [], current_processing = {}\<rparr>"

fun lock_message_task :: "locker_event \<Rightarrow> locker \<Rightarrow> locker option" where
  "lock_message_task (Locks t) l =
     (if lk_holder l = None then Some (l\<lparr>lk_holder := Some t, current_processing := insert t (current_processing l)\<rparr>)
      else Some (l\<lparr>lk_waiters := lk_waiters l @ [t]\<rparr>))"
| "lock_message_task (Unlocks t) l =
     (if lk_holder l \<noteq> Some t then None
      else let rest = current_processing l - {t}
           in (case lk_waiters l of
                 [] \<Rightarrow> Some (l\<lparr>lk_holder := None, current_processing := rest\<rparr>)
               | u # us \<Rightarrow> Some (l\<lparr>lk_holder := Some u, lk_waiters := us, current_processing := insert u rest\<rparr>)))"

fun run_locker :: "locker_event list \<Rightarrow> locker \<Rightarrow> locker option" where
  "run_locker [] l = Some l"
| "run_locker (e # es) l = (case lock_message_task e l of None \<Rightarrow> None | Some l1 \<Rightarrow> run_locker es l1)"

definition wait_all_messages_processed :: "locker \<Rightarrow> nat set" where
  "wait_all_messages_processed l = current_processing l"

interpretation message_locker: machine lock_message_task run_locker
  by unfold_locales simp_all

text \<open>Only the holder is in the set: the tasks that wait for the lock are not waited for.\<close>

lemma locker_waits_for_holder_only:
  assumes "run_locker es no_locker = Some l"
  shows "wait_all_messages_processed l = set_option (lk_holder l)"
proof -
  have "current_processing l = set_option (lk_holder l)"
    by (rule message_locker.run_invariant [of "\<lambda>l. current_processing l = set_option (lk_holder l)" UNIV, OF _ _ _ assms])
       (auto simp: no_locker_def Let_def elim!: lock_message_task.elims split: if_splits list.splits)
  then show ?thesis by (simp add: wait_all_messages_processed_def)
qed

subsection \<open>Properties\<close>

text \<open>
  (C16) Handlers that run at the same time are isolated: in any interleaving of their tasks, a task that was resumed often enough (twice
  for each context manager and once for each action of the handler) has ended, has raised and read what the handler
  raises and reads alone under the managers of its own delivery, and has left its context as the consumer gave it.
\<close>

theorem deliveries_are_isolated:
  assumes "worker_ctx_run cc es (worker_ctx_start base asked) = Some w"
    and "i < length (wk_tasks w)" and "budget cc (deliveries es ! i) \<le> count_list es (Resumed i)"
  shows "ended (wk_tasks w ! i) \<and> contexts (wk_state w) (Suc i) = base
    \<and> (ct_raised (wk_tasks w ! i), ct_saw (wk_tasks w ! i)) =
        run_actions (fold bind (managers_of cc (deliveries es ! i)) base) asked (actions_of (deliveries es ! i))"
proof -
  let ?t = "wk_tasks w ! i"
  have inv: "task_inv cc base asked (Suc i) (deliveries es ! i) (contexts (wk_state w) (Suc i)) ?t"
    "ended ?t \<or> work ?t + count_list es (Resumed i) \<le> budget cc (deliveries es ! i)"
    using worker_run_inv [OF assms(1)] assms(2) by (simp_all add: worker_inv_def task_ok_def)
  moreover have "work ?t = 0 \<Longrightarrow> ended ?t" by (auto simp: work_def ended_def acted_def split: if_splits)
  ultimately have e: "ended ?t" using assms(3) by auto
  with inv(1) show ?thesis
    by (auto simp: task_inv_def ended_def acted_def outcome_of_def bindings_def split: option.splits)
qed


text \<open>
  Two messages and a trigger of the scheduler, interleaved turn by turn: each handler reads its data and settles its own message, and
  the second fails.
\<close>

definition sample_handler :: message_handler where
  "sample_handler = \<lparr>mh_member = ''on_order'', mh_metadata = [], mh_type = ''Order'', mh_queue = ''orders''\<rparr>"

definition sample_action :: scheduled_action where
  "sample_action = \<lparr>sa_member = ''tick'', sa_metadata = [], sa_name = None, sa_qualname = ''Jobs.tick'', sa_cron = ''* * * * *''\<rparr>"

definition sample_cc :: consumer_context where
  "sample_cc = \<lparr>cc_shutdown = 1, cc_container = 2, cc_interceptors = [ATracing 5]\<rparr>"

definition sample_msg :: "string \<Rightarrow> incoming" where
  "sample_msg k = \<lparr>in_headers = [(''tenant'', HStr k)], in_body = [], in_message_id = Some k, in_content_type = None, in_content_encoding = None\<rparr>"

definition sample_deliveries :: "delivery list" where
  "sample_deliveries =
     [Bus sample_handler (sample_msg ''a'') 0 10 11 0 [Reads UseHeaders, Settles BusAck None],
      Bus sample_handler (sample_msg ''b'') 2 20 21 (1/2) [Reads UseData, Settles BusNack (Some (Exc RuntimeError ''gone'')), Reads UseHeaders],
      Trigger sample_action 5 6 0 [Reads UseShutdown, Settles BusAck None]]"

definition sample_turns :: "worker_turn list" where
  "sample_turns = map Delivered sample_deliveries @ concat (replicate 18 [Resumed 0, Resumed 1, Resumed 2])"

theorem deliveries_are_isolated_witness:
  "map (\<lambda>t. (ct_raised t, ct_saw t)) (wk_tasks (the (worker_ctx_run sample_cc sample_turns (worker_ctx_start no_vars {1})))) =
     [(None, [SawHeaders [(''tenant'', HStr ''a'')], Settled 11 BusAck]),
      (Some (Exc RuntimeError ''gone''), [SawData (MessageBusTransactionData ''orders'' 20 ''Order'' (Some ''b'') 3 (1/2)), Settled 21 BusNack]),
      (Some (Exc LookupError ''bus_message_controller''), [SawShutdown True])]"
proof -
  let ?r = "worker_ctx_run sample_cc sample_turns (worker_ctx_start no_vars {1})"
  have "map_option (\<lambda>w. length (wk_tasks w)) ?r = Some 3" by code_simp
  then obtain w where w: "?r = Some w" "length (wk_tasks w) = 3" by auto
  have d: "deliveries sample_turns = sample_deliveries"
    by (simp add: sample_turns_def sample_deliveries_def numeral_eq_Suc)
  have n: "map (\<lambda>i. budget sample_cc (sample_deliveries ! i) \<le> count_list sample_turns (Resumed i)) [0, 1, 2] = [True, True, True]"
    by code_simp
  have e: "map (\<lambda>d. run_actions (fold bind (managers_of sample_cc d) no_vars) {1} (actions_of d)) sample_deliveries =
     [(None, [SawHeaders [(''tenant'', HStr ''a'')], Settled 11 BusAck]),
      (Some (Exc RuntimeError ''gone''), [SawData (MessageBusTransactionData ''orders'' 20 ''Order'' (Some ''b'') 3 (1/2)), Settled 21 BusNack]),
      (Some (Exc LookupError ''bus_message_controller''), [SawShutdown True])]"
    by code_simp
  have l: "length sample_deliveries = 3" by (simp add: sample_deliveries_def)
  have "map (\<lambda>t. (ct_raised t, ct_saw t)) (wk_tasks w) =
    map (\<lambda>d. run_actions (fold bind (managers_of sample_cc d) no_vars) {1} (actions_of d)) sample_deliveries"
  proof (rule nth_equalityI)
    fix i assume "i < length (map (\<lambda>t. (ct_raised t, ct_saw t)) (wk_tasks w))"
    then have i: "i = 0 \<or> i = 1 \<or> i = 2" using w(2) by auto
    then have "i < length (wk_tasks w)" "budget sample_cc (deliveries sample_turns ! i) \<le> count_list sample_turns (Resumed i)"
      using n w(2) by (auto simp: d)
    from deliveries_are_isolated [OF w(1) this] i show
      "map (\<lambda>t. (ct_raised t, ct_saw t)) (wk_tasks w) ! i =
       map (\<lambda>d. run_actions (fold bind (managers_of sample_cc d) no_vars) {1} (actions_of d)) sample_deliveries ! i"
      using w(2) l by (auto simp: d)
  qed (simp add: w(2) l)
  then show ?thesis using w(1) e by simp
qed


text \<open>
  (C17) At every moment, whatever other deliveries do: the transaction data and the context a handler has read are those of its own delivery, the
  shutdown it has read is that of the consumer, and every message it has settled is its own, when the interceptors of the
  application leave these variables alone.
\<close>

theorem handlers_act_on_their_own_delivery:
  assumes "worker_ctx_run cc es (worker_ctx_start base asked) = Some w" and "i < length (wk_tasks w)"
    and "list_all leaves_worker_vars (cc_interceptors cc)" and "v \<in> set (ct_saw (wk_tasks w ! i))"
  shows "case v of
      SawData x \<Rightarrow> x = data_of (deliveries es ! i)
    | SawContext a \<Rightarrow> tx_data a = data_of (deliveries es ! i)
    | SawShutdown b \<Rightarrow> b = (cc_shutdown cc \<in> asked)
    | Settled c op \<Rightarrow> (case deliveries es ! i of Bus h msg n obj ctl wait acts \<Rightarrow> c = ctl | _ \<Rightarrow> Some c = bus_controller base)
    | _ \<Rightarrow> True"
proof -
  let ?d = "deliveries es ! i"
  have "task_inv cc base asked (Suc i) ?d (contexts (wk_state w) (Suc i)) (wk_tasks w ! i)"
    using worker_run_inv [OF assms(1)] assms(2) by (simp add: worker_inv_def task_ok_def)
  then have "v \<in> set (snd (run_actions (bindings cc base ?d) asked (actions_of ?d)))"
    using assms(4) outcome_saw [of "wk_tasks w ! i" "bindings cc base ?d" asked] unfolding task_inv_def by auto
  then have "reads_from (bindings cc base ?d) asked v" by (rule run_actions_reads)
  then show ?thesis using bindings_values [OF assms(3), of base ?d]
    by (cases v) (auto split: delivery.splits)
qed

theorem handlers_act_on_their_own_delivery_witness:
  "MessageBusTransactionData ''orders'' 20 ''Order'' (Some ''b'') 3 (1/2) = data_of (deliveries sample_turns ! 1)"
proof -
  let ?r = "worker_ctx_run sample_cc sample_turns (worker_ctx_start no_vars {1})" and ?d = "MessageBusTransactionData ''orders'' 20 ''Order'' (Some ''b'') 3 (1/2)"
  have "map_option (\<lambda>w. (length (wk_tasks w), ct_saw (wk_tasks w ! 1))) ?r = Some (3, [SawData ?d, Settled 21 BusNack])"
    by code_simp
  then obtain w where w: "?r = Some w" "1 < length (wk_tasks w)" "SawData ?d \<in> set (ct_saw (wk_tasks w ! 1))" by auto
  have "list_all leaves_worker_vars (cc_interceptors sample_cc)" by code_simp
  from handlers_act_on_their_own_delivery [OF w(1,2) this w(3)] show ?thesis by simp
qed

end
