(* ===== verification/Dlq_Report.thy ===== *)
theory Dlq_Report
  imports Commands "HOL-Library.Multiset"
begin

section \<open>What the dead letter commands print\<close>

text \<open>
  The output of \<open>dlq stats\<close> and \<open>dlq list\<close> of \<^verbatim>\<open>cli.py\<close> for the statistics and the messages that \<^verbatim>\<open>Dlq\<close> and \<^verbatim>\<open>Commands\<close> compute. A line is
  one \<open>click.echo\<close>, with the line breaks inside it; the line of a queue in the breakdown is a constructor of its own, for its picture. Bodies are bytes, and
  \<open>decode\<close> is \<open>bytes.decode("utf-8")\<close>, \<open>None\<close> where it raises.
\<close>

subsection \<open>Statistics\<close>

datatype line = Line string | QueueLine string

definition newline :: char where
  "newline = char_of (10::nat)"

definition rule_of :: "char \<Rightarrow> nat \<Rightarrow> string" where
  "rule_of c n = replicate n c"

text \<open>\<open>sorted(stats.items(), key=..., reverse=True)\<close>, which keeps the order of queues with the same count.\<close>

definition breakdown :: "(string \<times> queue_stats) list \<Rightarrow> (string \<times> queue_stats) list" where
  "breakdown stats = sort_key (\<lambda>x. - int (st_count (snd x))) stats"

definition time_line :: "string \<Rightarrow> string option \<Rightarrow> line list" where
  "time_line label t = (if str_or t [] \<noteq> [] then [Line (label @ str_or t [])] else [])"

definition queue_lines :: "string \<times> queue_stats \<Rightarrow> line list" where
  "queue_lines x =
     (case x of (queue_name, st) \<Rightarrow>
        [QueueLine queue_name, Line (''     Messages: '' @ str_nat (st_count st)), Line ''     Reasons: ''] @
        map (\<lambda>(reason, n). Line (''       - '' @ reason @ '': '' @ str_nat n)) (st_reasons st) @
        time_line ''     Oldest: '' (st_oldest st) @ time_line ''     Newest: '' (st_newest st))"

definition dlq_stats_text :: "nat \<Rightarrow> (string \<times> queue_stats) list \<Rightarrow> line list" where
  "dlq_stats_text total_count stats =
     [Line (newline # rule_of CHR ''='' 60), Line ''Dead Letter Queue Statistics'', Line (rule_of CHR ''='' 60),
      Line (newline # ''Total Messages: '' @ str_nat total_count), Line (newline # ''Breakdown by Original Queue:''),
      Line (rule_of CHR ''-'' 60)] @
     concat (map queue_lines (breakdown stats)) @
     [Line (newline # rule_of CHR ''='' 60)]"

subsection \<open>Messages\<close>

definition hex :: "string \<Rightarrow> string" where
  "hex bs = concat (map (\<lambda>c. [hex_digit (code c div 16), hex_digit (code c mod 16)]) bs)"

definition or_na :: "string option \<Rightarrow> string" where
  "or_na v = (if str_or v [] = [] then ''N/A'' else str_or v [])"

definition body_line :: "(string \<Rightarrow> string option) \<Rightarrow> string \<Rightarrow> line" where
  "body_line decode body =
     (case decode body of
        Some body_str \<Rightarrow> Line (''    Body: '' @ (if 500 < length body_str then take 500 body_str @ ''... (truncated)'' else body_str))
      | None \<Rightarrow> Line (''    Body (hex): '' @ hex (take 100 body) @ ''...''))"

definition message_lines :: "(string \<Rightarrow> string option) \<Rightarrow> bool \<Rightarrow> nat \<Rightarrow> DLQMessage \<Rightarrow> line list" where
  "message_lines decode show_body i m =
     [Line (newline # ''['' @ str_nat i @ ''] Message ID: '' @ or_na (dm_message_id m)),
      Line (''    Original Queue: '' @ dm_original_queue m),
      Line (''    Routing Key: '' @ dm_routing_key m),
      Line (''    Death Reason: '' @ dm_death_reason m),
      Line (''    Death Count: '' @ str_int (dm_death_count m)),
      Line (''    First Death: '' @ or_na (Some (dm_first_death_time m))),
      Line (''    Content-Type: '' @ or_na (dm_content_type m))] @
     (if show_body then [body_line decode (dm_body m)] else [])"

definition dlq_list_text :: "(string \<Rightarrow> string option) \<Rightarrow> bool \<Rightarrow> DLQMessage list \<Rightarrow> line list" where
  "dlq_list_text decode show_body ms =
     [Line (newline # rule_of CHR ''='' 70), Line (''Dead Letter Queue Messages (showing '' @ str_nat (length ms) @ '')''),
      Line (rule_of CHR ''='' 70)] @
     concat (map (\<lambda>(i, m). message_lines decode show_body i m) (enumerate 1 ms)) @
     [Line (newline # rule_of CHR ''='' 70)]"

text \<open>The dictionaries that are dumped as JSON.\<close>

datatype field_value = FStr string | FInt int | FNull

definition opt_str :: "string option \<Rightarrow> field_value" where
  "opt_str v = (case v of Some s \<Rightarrow> FStr s | None \<Rightarrow> FNull)"

definition message_dict :: "(string \<Rightarrow> string option) \<Rightarrow> bool \<Rightarrow> DLQMessage \<Rightarrow> (string \<times> field_value) list" where
  "message_dict decode show_body m =
     [(''message_id'', opt_str (dm_message_id m)), (''original_queue'', FStr (dm_original_queue m)),
      (''routing_key'', FStr (dm_routing_key m)), (''death_reason'', FStr (dm_death_reason m)),
      (''death_count'', FInt (dm_death_count m)), (''first_death_time'', FStr (dm_first_death_time m)),
      (''content_type'', opt_str (dm_content_type m))] @
     (if show_body
      then [(''body'', FStr (case decode (dm_body m) of Some s \<Rightarrow> s | None \<Rightarrow> hex (dm_body m)))] else [])"

subsection \<open>Counting\<close>

definition queue_of :: "DLQMessage \<Rightarrow> string" where
  "queue_of m = (if dm_original_queue m = [] then ''unknown'' else dm_original_queue m)"

lemma sum_dict_set:
  "sum_list (map (f \<circ> snd) (dict_set k v d)) + (case map_of d k of Some u \<Rightarrow> f u | None \<Rightarrow> 0) =
   sum_list (map (f \<circ> snd) d) + (f v :: nat)"
  by (induction k v d rule: dict_set.induct) (auto split: option.splits)

lemma add_to_stats_simps [simp]:
  "st_count (add_to_stats m st) = Suc (st_count st)"
  "sum_list (map snd (st_reasons (add_to_stats m st))) = Suc (sum_list (map snd (st_reasons st)))"
proof -
  let ?r = "if dm_death_reason m = [] then ''unknown'' else dm_death_reason m"
  let ?n = "case map_of (st_reasons st) ?r of Some n \<Rightarrow> n | None \<Rightarrow> 0"
  have "sum_list (map snd (dict_set ?r (Suc ?n) (st_reasons st))) = Suc (sum_list (map snd (st_reasons st)))"
    using sum_dict_set [of id ?r "Suc ?n" "st_reasons st"] by (auto split: option.splits)
  moreover have "st_reasons (add_to_stats m st) = dict_set ?r (Suc ?n) (st_reasons st)"
    by (simp add: add_to_stats_def Let_def)
  ultimately show "sum_list (map snd (st_reasons (add_to_stats m st))) = Suc (sum_list (map snd (st_reasons st)))"
    by (simp only:)
qed (simp add: add_to_stats_def Let_def)

lemma fold_add_to_stats [simp]:
  "st_count (fold add_to_stats ms st) = st_count st + length ms"
  "sum_list (map snd (st_reasons (fold add_to_stats ms st))) = sum_list (map snd (st_reasons st)) + length ms"
  by (induction ms arbitrary: st) simp_all

lemma dlq_stats_Cons:
  "dlq_stats (m # ms) stats =
     dlq_stats ms (dict_set (queue_of m) (add_to_stats m (case map_of stats (queue_of m) of Some st \<Rightarrow> st | None \<Rightarrow> no_stats)) stats)"
  by (simp add: queue_of_def Let_def)

lemma dlq_stats_lookup:
  "map_of (dlq_stats ms stats) q =
     (if \<exists>m \<in> set ms. queue_of m = q
      then Some (fold add_to_stats (filter (\<lambda>m. queue_of m = q) ms) (case map_of stats q of Some st \<Rightarrow> st | None \<Rightarrow> no_stats))
      else map_of stats q)"
  by (induction ms arbitrary: stats) (auto simp: dlq_stats_Cons simp del: dlq_stats.simps(2))

lemma dlq_stats_distinct: "distinct (map fst stats) \<Longrightarrow> distinct (map fst (dlq_stats ms stats))"
  by (induction ms arbitrary: stats) (auto simp: dlq_stats_Cons simp del: dlq_stats.simps(2))

lemma dlq_stats_total:
  "sum_list (map (st_count \<circ> snd) (dlq_stats ms stats)) = sum_list (map (st_count \<circ> snd) stats) + length ms"
proof (induction ms arbitrary: stats)
  case (Cons m ms)
  let ?st = "case map_of stats (queue_of m) of Some st \<Rightarrow> st | None \<Rightarrow> no_stats"
  have "sum_list (map (st_count \<circ> snd) (dict_set (queue_of m) (add_to_stats m ?st) stats)) = Suc (sum_list (map (st_count \<circ> snd) stats))"
    using sum_dict_set [of st_count "queue_of m" "add_to_stats m ?st" stats] by (auto simp: no_stats_def split: option.splits)
  then show ?case using Cons.IH by (simp only: dlq_stats_Cons list.size add_Suc add_Suc_right add_0_right)
qed simp

subsection \<open>Properties\<close>

primrec queue_names :: "line list \<Rightarrow> string list" where
  "queue_names [] = []"
| "queue_names (l # ls) = (case l of QueueLine q \<Rightarrow> q # queue_names ls | Line s \<Rightarrow> queue_names ls)"

lemma queue_names_append [simp]: "queue_names (ls @ ks) = queue_names ls @ queue_names ks"
  by (induction ls) (auto split: line.split)

lemma queue_names_lines [simp]: "queue_names (queue_lines x) = [fst x]" "queue_names (concat (map queue_lines xs)) = map fst xs"
proof -
  have l: "queue_names (map (\<lambda>(r, n). Line (f r n)) rs) = []" for f :: "string \<Rightarrow> nat \<Rightarrow> string" and rs
    by (induction rs) auto
  show q: "queue_names (queue_lines x) = [fst x]" for x
    using l [of "\<lambda>r n. ''       - '' @ r @ '': '' @ str_nat n"] by (cases x) (auto simp: queue_lines_def time_line_def)
  show "queue_names (concat (map queue_lines xs)) = map fst xs" by (induction xs) (simp_all add: q)
qed

text \<open>
  The breakdown that is printed names every queue the messages died in once, the largest count first; the counts are those of the messages of
  the queue, so that they add up to the number of messages, and the reasons of a queue add up to its count.
\<close>

theorem statistics_report:
  assumes "shown = breakdown (dlq_stats ms [])"
  shows "queue_names (dlq_stats_text n (dlq_stats ms [])) = map fst shown
    \<and> distinct (map fst shown) \<and> fst ` set shown = queue_of ` set ms
    \<and> sorted_wrt (\<lambda>x y. st_count (snd y) \<le> st_count (snd x)) shown
    \<and> sum_list (map (st_count \<circ> snd) shown) = length ms
    \<and> (\<forall>(q, st) \<in> set shown. st_count st = length (filter (\<lambda>m. queue_of m = q) ms) \<and> sum_list (map snd (st_reasons st)) = st_count st)"
proof -
  let ?s = "dlq_stats ms []"
  have d: "distinct (map fst ?s)" by (rule dlq_stats_distinct) simp
  have m: "mset shown = mset ?s" and p: "set shown = set ?s" by (simp_all add: assms breakdown_def)
  have "mset (map fst shown) = mset (map fst ?s)" using m by simp
  then have "distinct (map fst shown)" using d mset_eq_imp_distinct_iff by blast
  moreover have "queue_names (dlq_stats_text n ?s) = map fst shown" by (simp add: dlq_stats_text_def assms)
  moreover have "fst ` set shown = queue_of ` set ms"
  proof -
    have "q \<in> fst ` set ?s \<longleftrightarrow> q \<in> queue_of ` set ms" for q
      using dlq_stats_lookup [of ms "[]" q] map_of_eq_None_iff [of ?s q] by (auto split: if_splits)
    then show ?thesis using p by blast
  qed
  moreover have "sorted_wrt (\<lambda>x y. st_count (snd y) \<le> st_count (snd x)) shown"
    using sorted_sort_key [of "\<lambda>x. - int (st_count (snd x))" ?s] by (simp add: assms breakdown_def sorted_map)
  moreover have "sum_list (map (st_count \<circ> snd) shown) = length ms"
  proof -
    have "mset (map (st_count \<circ> snd) shown) = mset (map (st_count \<circ> snd) ?s)" using m by simp
    then have "sum_list (map (st_count \<circ> snd) shown) = sum_list (map (st_count \<circ> snd) ?s)" by (metis sum_mset_sum_list)
    then show ?thesis using dlq_stats_total [of ms "[]"] by simp
  qed
  moreover have "st_count st = length (filter (\<lambda>m. queue_of m = q) ms) \<and> sum_list (map snd (st_reasons st)) = st_count st"
    if "(q, st) \<in> set shown" for q st
  proof -
    have "map_of ?s q = Some st" using that p d by simp
    then show ?thesis using dlq_stats_lookup [of ms "[]" q] by (auto simp: no_stats_def split: if_splits)
  qed
  ultimately show ?thesis by blast
qed

definition sample_dlq :: "DLQMessage list" where
  "sample_dlq = map (\<lambda>(q, r). \<lparr>dm_body = [], dm_routing_key = [], dm_original_queue = q, dm_death_reason = r, dm_death_count = 1,
     dm_first_death_time = [], dm_message_id = None, dm_content_type = None\<rparr>)
     [(''a'', ''rejected''), (''b'', ''expired''), (''b'', ''rejected''), ([], [])]"

theorem statistics_report_witness:
  "queue_names (dlq_stats_text 4 (dlq_stats sample_dlq [])) = [''b'', ''a'', ''unknown'']
   \<and> sum_list (map (st_count \<circ> snd) (breakdown (dlq_stats sample_dlq []))) = 4"
proof -
  have "map fst (breakdown (dlq_stats sample_dlq [])) = [''b'', ''a'', ''unknown'']" by code_simp
  then show ?thesis using statistics_report [OF refl, of 4 sample_dlq] by (simp add: sample_dlq_def)
qed

text \<open>The dump as JSON keeps a body that is not UTF-8 whole, in hexadecimal; the text shows its first hundred bytes.\<close>

lemma hex_length: "length (hex bs) = 2 * length bs"
  by (induction bs) (simp_all add: hex_def)

lemma body_line_bounded:
  "\<exists>s. body_line decode body = Line s \<and> length s \<le> 525"
  by (cases "decode body") (auto simp: body_line_def hex_length)

end
