(* ===== verification/Spec2Isabelle.thy ===== *)
theory Spec2Isabelle
  imports Retry Beat_Lock Retry_Chain Worker_Slots Worker_Config Amqp Dlq Worker_Consumer Publisher Outbox Container
    Websockets Sort_Filter Rpc_Client Client_Cancellation Ts_Http
    Schedule Response_Event Scaffold Json_Columns App_Settings Global_Scheduler Beat_Startup
    Websocket_Consumers Tracing_Hooks Worker_Lifecycle Http_Server Crud Commands Exports Execution
    Context_Vars Ws_Routes Ws_Membership Beat_Shutdown Connection_Factory Rpc_Build Transforms Provider_Setup Worker_Context Dlq_Report
begin

text \<open>
  jararaca is a Python framework for asynchronous microservices: a message bus worker over RabbitMQ, a beat
  worker that triggers scheduled actions and releases delayed messages, a broker backend in Redis, a
  unit of work with interceptors (database session, message publisher, web sockets, tracing), a dependency injection
  container, an HTTP layer over FastAPI, a declarative HTTP client, helpers for persistence, a generator of TypeScript
  clients, and a command line. The sources are under \<^verbatim>\<open>src/src/jararaca/\<close>.

  \<^bold>\<open>How the parts interact.\<close> Requests, messages and scheduled actions run inside a unit of work. Messages a handler publishes are collected by the
  publisher interceptor and handed to RabbitMQ and to the delayed message store when the handler has
  returned. The worker receives deliveries, admits as many as the channel's prefetch allows, runs the
  handler, and settles the delivery; a failure stores a delayed copy in Redis with an increased
  attempt counter, or dead-letters it when the budget is spent. The beat worker, alone under a Redis
  lock, claims due messages from the store and publishes them, and dispatches scheduled actions on
  their cron slots. Trace context and a flow id travel with the messages.

  \<^bold>\<open>Conventions.\<close> Python exceptions are values of \<open>exc\<close>; a fallible operation returns \<open>exc option\<close> or a sum
  with \<open>Inl\<close> the exception. Code that is not in the repository is reached through a log of calls whose
  answers are an arbitrary function of the position in the log (record \<open>world\<close> of \<^verbatim>\<open>Prelude\<close>), through events of a state machine, or
  through a record of operations with the documented laws as a locale or a named predicate, together with an executable reference
  that keeps them: \<open>redis_server\<close>, \<open>dead_letter_queue\<close>, \<open>topic_exchange\<close>, \<open>select_statements\<close>, \<open>identified_rows\<close>, \<open>w3c_laws\<close>. Locales between
  parts of the program are \<open>delayed_backend\<close>, which the Redis backend provides to the beat worker, \<open>app_interceptor\<close>, which each
  interceptor of the framework satisfies, \<open>context_variable\<close>, which each context variable satisfies, and \<open>machine\<close>, the runs of a partial step function. Floats are rationals,
  without rounding. Time is an argument.

  \<^bold>\<open>Shared theories.\<close>
  \<^item> \<^verbatim>\<open>Prelude\<close>: exceptions, the call log, runs of machines, Python strings, integer parsing and dictionaries.
  \<^item> \<^verbatim>\<open>Py_Text\<close>: the string, number and date functions of the standard library that the sources use.

  \<^bold>\<open>The message bus.\<close>
  \<^item> \<^verbatim>\<open>Retry\<close>: \<^verbatim>\<open>utils/retry.py\<close>. Number of attempts, first success, last exception, closed form of the delays.
  \<^item> \<^verbatim>\<open>Redis_Server\<close>: the Redis commands the backend uses, as the locale \<open>redis_server\<close>, and a reference server.
  \<^item> \<^verbatim>\<open>Delayed_Store\<close>: \<^verbatim>\<open>broker_backend/redis_broker_backend.py\<close>: enqueueing with its idempotency policies, the claim
    script, timestamps, the lock commands. Claims are disjoint, bounded, earliest first, and drain the backlog.
  \<^item> \<^verbatim>\<open>Schedule\<close>: an abstract schedule of delayed messages, and that the store refines it.
  \<^item> \<^verbatim>\<open>Execution\<close>: the execution indicators of the same file; the count never exceeds the executions that run.
  \<^item> \<^verbatim>\<open>Beat_Lock\<close>: the beat lock as a step relation of several workers with expiry; mutual exclusion and harmless late release.
  \<^item> \<^verbatim>\<open>Message_Handling\<close>: \<open>MessageHandlerCallback\<close> and \<open>AioPikaMessageBusController\<close> of \<^verbatim>\<open>messagebus/worker.py\<close>. A user
    handler is a tree of controller operations. How each outcome settles the delivery.
  \<^item> \<^verbatim>\<open>Beat\<close>, \<^verbatim>\<open>Beat_Startup\<close> and \<^verbatim>\<open>Beat_Shutdown\<close>: \<^verbatim>\<open>scheduler/beat_worker.py\<close>: the dispatcher and the cycle over scheduled actions and delayed messages,
    the start with its connections, nested retries and health checks, and what the end releases.
  \<^item> \<^verbatim>\<open>Retry_Chain\<close>: worker, store and beat composed: a failing message through all its attempts.
  \<^item> \<^verbatim>\<open>Worker_Slots\<close>: admission, semaphores and running tasks of the consumer as a step relation.
  \<^item> \<^verbatim>\<open>Worker_Config\<close> and \<^verbatim>\<open>Constants\<close>: \<^verbatim>\<open>utils/env_parse_utils.py\<close>, \<open>create_message_bus_consumer\<close> and \<^verbatim>\<open>const.py\<close>.
  \<^item> \<^verbatim>\<open>Worker_Consumer\<close> and \<^verbatim>\<open>Worker_Lifecycle\<close>: handler selection, channels, consumer registration, health monitor and scheduled triggers; connecting,
    consuming, the order of the shutdown and the signals of the worker process.
  \<^item> \<^verbatim>\<open>Worker_Context\<close>: the context managers around a handler (\<open>run_with_context\<close>, \<open>handle_message\<close>) and the tasks of deliveries, interleaved in any
    way: each handler reads and settles its own delivery. The report of slot waits, the wait for a delay or the shutdown.
  \<^item> \<^verbatim>\<open>Amqp\<close>: \<^verbatim>\<open>utils/rabbitmq_utils.py\<close>, \<^verbatim>\<open>messagebus/aiopika.py\<close> and the declare command of \<^verbatim>\<open>cli.py\<close>, with the topology the accepted
    declarations build.
  \<^item> \<^verbatim>\<open>Dlq\<close> and \<^verbatim>\<open>Dlq_Report\<close>: the loops of the dead letter queue commands of \<^verbatim>\<open>cli.py\<close>, and the statistics and listings they print.
  \<^item> \<^verbatim>\<open>Publisher\<close>: \<^verbatim>\<open>messagebus/publisher.py\<close>, \<^verbatim>\<open>messagebus/message.py\<close> and \<^verbatim>\<open>messagebus/interceptors/\<close>: staging, flushing, the broker
    transaction and the interceptor. \<^verbatim>\<open>Connection_Factory\<close>: the connections and channels of the same interceptors, with and without pools.
  \<^item> \<^verbatim>\<open>Global_Scheduler\<close>: \<^verbatim>\<open>helpers/global_scheduler/\<close>.

  \<^bold>\<open>The application.\<close>
  \<^item> \<^verbatim>\<open>Unit_Of_Work\<close>: \<^verbatim>\<open>core/uow.py\<close>, \<^verbatim>\<open>lifecycle.py\<close>, \<^verbatim>\<open>reflect/metadata.py\<close>, \<^verbatim>\<open>reflect/controller_inspect.py\<close>, with the locale
    \<open>app_interceptor\<close>, the contract of an interceptor, interpreted on the interceptors of the framework.
  \<^item> \<^verbatim>\<open>Context_Vars\<close>: the context variables of \<^verbatim>\<open>microservice.py\<close> and of the other modules, with contexts, tokens and tasks; the locale
    \<open>context_variable\<close> and its interpretation on each of them; they behave as lexical bindings.
  \<^item> \<^verbatim>\<open>Container\<close>: \<open>Container\<close> of \<^verbatim>\<open>microservice.py\<close> and \<^verbatim>\<open>core/providers.py\<close>.
  \<^item> \<^verbatim>\<open>Decorators\<close>: \<^verbatim>\<open>reflect/decorators.py\<close> and the routers and message handlers that read decorators.
  \<^item> \<^verbatim>\<open>App_Settings\<close>: \<^verbatim>\<open>tools/app_config/\<close> and \<^verbatim>\<open>utils/logger_extra_interceptor.py\<close>.
  \<^item> \<^verbatim>\<open>Exports\<close>: the lazy exports of \<^verbatim>\<open>__init__.py\<close>; they equal eager imports in any order of access.

  \<^bold>\<open>Persistence.\<close>
  \<^item> \<^verbatim>\<open>Sessions\<close>: \<^verbatim>\<open>persistence/interceptors/aiosqa_interceptor.py\<close>. \<^verbatim>\<open>Outbox\<close>: publisher and session interceptor in one unit of
    work: messages leave only after the commit.
  \<^item> \<^verbatim>\<open>Pagination\<close>, \<^verbatim>\<open>Transforms\<close>, \<^verbatim>\<open>Sort_Filter\<close> and \<^verbatim>\<open>Crud\<close>: \<^verbatim>\<open>persistence/utilities.py\<close>, \<^verbatim>\<open>persistence/sort_filter.py\<close> and \<^verbatim>\<open>persistence/base.py\<close>.
  \<^item> \<^verbatim>\<open>Json_Columns\<close>: \<^verbatim>\<open>persistence/pydantic_helpers.py\<close>.

  \<^bold>\<open>HTTP and web sockets.\<close>
  \<^item> \<^verbatim>\<open>Http_Server\<close>: \<^verbatim>\<open>presentation/server.py\<close> and \<^verbatim>\<open>presentation/hooks.py\<close>. \<^verbatim>\<open>Client_Cancellation\<close>: \<^verbatim>\<open>presentation/client_cancellation.py\<close>.
  \<^item> \<^verbatim>\<open>Websockets\<close> and \<^verbatim>\<open>Websocket_Consumers\<close>: rooms and delivery; the tasks of \<^verbatim>\<open>presentation/websocket/redis.py\<close> with their lock, semaphore and shutdown.
    \<^verbatim>\<open>Ws_Membership\<close>: a specification of membership that the connection manager refines, over all processes. \<^verbatim>\<open>Ws_Routes\<close>: the routes of web socket controllers.
  \<^item> \<^verbatim>\<open>Rpc_Client\<close> and \<^verbatim>\<open>Rpc_Build\<close>: \<^verbatim>\<open>rpc/http/\<close>: the calls of a client, and the client its decorators declare.

  \<^bold>\<open>Observability.\<close> \<^verbatim>\<open>Trace\<close> (\<^verbatim>\<open>inbound_trace.py\<close>, \<^verbatim>\<open>trace_response.py\<close>), \<^verbatim>\<open>Tracing\<close> and \<^verbatim>\<open>Tracing_Hooks\<close> (\<^verbatim>\<open>providers/otel.py\<close>, \<^verbatim>\<open>decorators.py\<close>, \<^verbatim>\<open>hooks.py\<close>,
  \<^verbatim>\<open>interceptor.py\<close>), \<^verbatim>\<open>Provider_Setup\<close> (setup and flush of the providers in \<^verbatim>\<open>providers/otel.py\<close>), \<^verbatim>\<open>Response_Event\<close> (\<^verbatim>\<open>http_response_event.py\<close>).

  \<^bold>\<open>Tools.\<close> \<^verbatim>\<open>Ts_Types\<close>, \<^verbatim>\<open>Ts_Models\<close> and \<^verbatim>\<open>Ts_Http\<close>: \<^verbatim>\<open>tools/typescript/\<close>. \<^verbatim>\<open>Scaffold\<close> and \<^verbatim>\<open>Commands\<close>: the commands of \<^verbatim>\<open>cli.py\<close>.

  \<^bold>\<open>What the properties show.\<close> Messages are not lost and not duplicated beyond what each theorem says: failed deliveries are retried or
  dead-lettered, the retry budget ends, claims are exclusive, the store refines a schedule, and the outbox sends exactly what was staged after the
  commit. Resources are bounded: slots, permits, attempts. Contexts nest, are restored, and keep concurrent handlers apart; a connection manager of web
  sockets refines its membership specification. Optimised or generated forms equal references: the unit of work and nested \<open>async with\<close>,
  context variables and lexical environments, substituted paths. What is released or flushed at the end of a process, and when connecting ends at all, is said for every
  outcome. Where the code does not do what it means to, the theorem states what it does.

  \<^bold>\<open>Bounds and fuel.\<close> \<open>retry_loop\<close> and \<open>wait_rounds\<close> recurse on the number of attempts and rounds the code itself bounds.
  \<open>fetch_dlq_messages\<close> and \<open>requeue_loop\<close> take fuel because the loops need not end: the theorems say for
  which queues no fuel suffices and that the length of the queue plus one suffices otherwise. \<open>drain_rounds\<close>
  takes fuel, and enough of it is shown to give the result. The first argument of the
  container's resolution and of \<open>recursive_get_dict\<close> is Python's recursion limit: a limit above the rank of the key, or the depth of the
  object, suffices. \<open>default_retry\<close> is a partial function, for a retry without end: it is shown for which brokers it returns. A task of
  \<^verbatim>\<open>Worker_Context\<close> ends after two turns for each context manager and one for each action of its handler.

  \<^bold>\<open>What is not modelled.\<close> Log texts; the metric instruments of OpenTelemetry beyond the calls made on them; the click options of the command
  line, with the help texts; the template engine of \<open>gen_entity\<close>; type annotations, protocols, imports and re-exports that carry no behaviour.
\<close>

subsection \<open>Properties that span components\<close>

text \<open>
  (C33) A message handler that fails has its database work committed: the worker handles the exception inside the
  unit of work, so the session interceptor is left as after a success and asks for the commit.
\<close>

theorem failed_handler_commits_database:
  assumes "cb_queue_name cb \<noteq> None" and "get_retry_count msg = Inr n"
    and "cb_mode cb = WRAPPED \<or> v = Valid" and "answers s (length (calls s)) = None"
    and "run_handler cb env msg h (emit (MInflight 1) (s\<lparr>calls := calls s @ [UowEnter]\<rparr>)) = (Some e, s1)"
    and "is_Exception e" and "no_base_exceptions s"
    and "frames d = Entered manager dflt smap # rest" "db_now (tx_is_active d) d" "db_now (session_is_active d) d"
  shows "\<exists>exc. last (calls (snd (handle_message cb env msg v expired h s))) = UowExit exc
    \<and> DbCommit \<in> set (db_since d (snd (session_exit exc d)))"
  using failed_handler_leaves_uow_normally [OF assms(1-7)] assms(9,10)
    session_exit_commits [OF assms(8)] by (metis prod.collapse)

theorem failed_handler_commits_database_witness:
  "\<exists>exc. last (calls (snd (handle_message sample_callback sample_env (sample_incoming 2) Valid False
      (HRaise boom) sample_bus))) = UowExit exc
    \<and> DbCommit \<in> set (db_since (snd (session_enter (sample_sqa ''a'') sample_db))
        (snd (session_exit exc (snd (session_enter (sample_sqa ''a'') sample_db)))))"
  by (rule failed_handler_commits_database [of sample_callback "sample_incoming 2" 2 Valid sample_bus
      sample_env "HRaise boom" boom "emit (MInflight 1) (sample_bus\<lparr>calls := [UowEnter]\<rparr>)" _ None "''default''" "[]" "[]"])
     (simp_all add: sample_callback_def sample_bus_def no_base_exceptions_def session_eval)

end
